(* ===== verification/Prelude.thy ===== *)
theory Prelude
  imports "HOL-Library.Word" "HOL-Library.Sublist"
begin

text \<open>
  Shared vocabulary of the development.

  \<^item> Go's \<^verbatim>\<open>strings\<close> helpers that several packages use (\<open>HasPrefix\<close>, \<open>HasSuffix\<close>,
    \<open>SplitN(s, sep, 2)\<close>), on byte strings modelled as \<^typ>\<open>string\<close>.
  \<^item> The locale \<open>invariant_machine\<close>: a deterministic machine driven by a list of
    moves, an invariant every move keeps, and the lemmas that carry the invariant
    to every reachable state.  Each stateful component interprets it.
  \<^item> Generic lemmas on removing one element of a list by position and on folding a
    log, collected in \<open>list_upd\<close>.
\<close>

named_theorems list_upd \<open>facts on position-wise updates of lists\<close>
named_theorems go_simps \<open>unfolding rules of the model's elementary state updates\<close>

section \<open>Strings\<close>

definition hasPrefix :: "string \<Rightarrow> string \<Rightarrow> bool" where
  "hasPrefix s p \<longleftrightarrow> take (length p) s = p"

definition hasSuffix :: "string \<Rightarrow> string \<Rightarrow> bool" where
  "hasSuffix s p \<longleftrightarrow> length p \<le> length s \<and> drop (length s - length p) s = p"

text \<open>\<open>SplitN(s, sep, 2)\<close> when \<open>sep\<close> is one byte: \<^const>\<open>None\<close> is the one-element result.\<close>

fun splitN2 :: "char \<Rightarrow> string \<Rightarrow> (string \<times> string) option" where
  "splitN2 sep [] = None"
| "splitN2 sep (c # s) =
     (if c = sep then Some ([], s)
      else case splitN2 sep s of None \<Rightarrow> None | Some (a, b) \<Rightarrow> Some (c # a, b))"

lemma hasPrefix_iff: "hasPrefix s p \<longleftrightarrow> (\<exists>r. s = p @ r)"
proof
  assume "hasPrefix s p"
  then have "s = p @ drop (length p) s"
    unfolding hasPrefix_def by (metis append_take_drop_id)
  then show "\<exists>r. s = p @ r" ..
qed (auto simp: hasPrefix_def)

lemma hasSuffix_iff: "hasSuffix s p \<longleftrightarrow> (\<exists>r. s = r @ p)"
proof
  assume "hasSuffix s p"
  then have "s = take (length s - length p) s @ p"
    unfolding hasSuffix_def by (metis append_take_drop_id)
  then show "\<exists>r. s = r @ p" ..
qed (auto simp: hasSuffix_def)

lemma splitN2_Some_iff:
  "splitN2 sep s = Some (a, b) \<longleftrightarrow> s = a @ sep # b \<and> sep \<notin> set a"
proof (induction s arbitrary: a)
  case (Cons c s)
  show ?case
  proof (cases a)
    case Nil
    then show ?thesis by (auto split: option.splits)
  next
    case (Cons x a')
    then show ?thesis using Cons.IH [of a'] by (auto split: option.splits)
  qed
qed simp

lemma splitN2_None_iff: "splitN2 sep s = None \<longleftrightarrow> sep \<notin> set s"
  by (induction s) (auto split: option.splits)

section \<open>Removing one element of a list\<close>

definition remove_nth :: "nat \<Rightarrow> 'a list \<Rightarrow> 'a list" where
  "remove_nth i xs = take i xs @ drop (Suc i) xs"

lemma set_remove_nth_subset [list_upd]: "set (remove_nth i xs) \<subseteq> set xs"
  unfolding remove_nth_def using set_take_subset set_drop_subset by fastforce

lemma in_set_remove_nthD [list_upd, dest]: "x \<in> set (remove_nth i xs) \<Longrightarrow> x \<in> set xs"
  using set_remove_nth_subset by fastforce

lemma in_set_list_updateD [list_upd]: "x \<in> set (xs[i := y]) \<Longrightarrow> x = y \<or> x \<in> set xs"
  using set_update_subset_insert by fastforce

lemma filter_remove_nth_length:
  "length (filter P (remove_nth i xs)) \<le> length (filter P xs)"
proof -
  have "length (filter P xs) = length (filter P (take i xs)) + length (filter P (drop i xs))"
    by (metis append_take_drop_id filter_append length_append)
  moreover have "length (filter P (drop (Suc i) xs)) \<le> length (filter P (drop i xs))"
    by (cases "i < length xs") (simp_all add: Cons_nth_drop_Suc [symmetric])
  ultimately show ?thesis unfolding remove_nth_def by simp
qed

section \<open>Machines and their invariants\<close>

text \<open>
  A component is a function \<open>step\<close> from a move and a state to a state; a run folds a
  list of moves.  \<open>ok\<close> restricts the moves (\<open>\<lambda>_ _. True\<close> when every move is allowed).
\<close>

primrec allowed_run :: "('m \<Rightarrow> 's \<Rightarrow> 's) \<Rightarrow> ('m \<Rightarrow> 's \<Rightarrow> bool) \<Rightarrow> 'm list \<Rightarrow> 's \<Rightarrow> bool" where
  "allowed_run step ok [] s = True"
| "allowed_run step ok (m # ms) s = (ok m s \<and> allowed_run step ok ms (step m s))"

lemma allowed_run_all: "(\<And>m s. m \<in> set ms \<Longrightarrow> ok m s) \<Longrightarrow> allowed_run step ok ms s"
  by (induction ms arbitrary: s) auto

locale invariant_machine =
  fixes step :: "'m \<Rightarrow> 's \<Rightarrow> 's"
    and ok :: "'m \<Rightarrow> 's \<Rightarrow> bool"
    and inv :: "'s \<Rightarrow> bool"
  assumes step_inv: "ok m s \<Longrightarrow> inv s \<Longrightarrow> inv (step m s)"
begin

lemma run_inv: "inv s \<Longrightarrow> allowed_run step ok ms s \<Longrightarrow> inv (fold step ms s)"
  by (induction ms arbitrary: s) (auto intro: step_inv)

lemma run_inv_all: "inv s \<Longrightarrow> (\<And>m s. m \<in> set ms \<Longrightarrow> ok m s) \<Longrightarrow> inv (fold step ms s)"
  by (rule run_inv) (auto intro: allowed_run_all)

lemma run_inv_prefix: "inv s \<Longrightarrow> allowed_run step ok ms s \<Longrightarrow> inv (fold step (take n ms) s)"
proof (induction ms arbitrary: s n)
  case (Cons m ms)
  then show ?case by (cases n) (auto intro: step_inv)
qed simp

end

end
