(* ===== verification/Controller.thy ===== *)
theory Controller
  imports Prelude
begin

text \<open>
  The handset controller of the Pi daemon: \<^verbatim>\<open>pi/digitsd/internal/phone/controller.go\<close>.

  Every method of \<open>Controller\<close> that takes the lock is one function on the record \<open>ctl\<close>.
  The calls it makes on the \<open>Callbacks\<close> interface are appended to the log \<open>out\<close>, a call made
  from the locked method as \<open>Do\<close> and a call spawned with \<^verbatim>\<open>go\<close> as \<open>Go\<close>.  The goroutines the
  controller starts are the list \<open>tasks\<close>: a task is the point its goroutine has reached
  (between two points the goroutine either holds the lock or makes one unlocked call), and
  \<open>task_step\<close> runs it to its next point.  What the callbacks answer, and what the clock
  does, is the record \<open>env\<close> of one step.
\<close>

section \<open>Data\<close>

datatype phState =
    StateIDLE | StateDIALTONE | StateDIALING | StateCALLING | StateRINGING
  | StateCONNECTED | StateREMOTE_HANGUP | StateCALL_FAILED | StateOFFHOOK_TIMEOUT
  | StateADD_DIALTONE | StateADD_DIALING | StateADD_CALLING | StateADD_PRIVATE
  | StateADD_INTERCEPT | StateCONFERENCE_MERGED | StateCALL_RETURN
  | StateVOICEMAIL_GREETING | StateVOICEMAIL_RECORDING | StateVOICEMAIL_RECORD_GREETING
  | StateVOICEMAIL_PLAY_GREETING | StateVOICEMAIL_PLAYBACK

datatype tone =
    ToneDial | ToneRingback | ToneBusy | ToneReorder | ToneHowler | ToneIntercept
  | ToneDisconnected | ToneCallFailed | ToneStop | ToneStopAll

datatype led = LEDOn | LEDOff | LEDBlink

definition addDialDigitsRequired :: nat where "addDialDigitsRequired = 7"
definition voicemailRetrievalCode :: string where "voicemailRetrievalCode = ''*98''"

text \<open>Durations in milliseconds.\<close>
definition oneShotMaxDuration :: int where "oneShotMaxDuration = 15000"

record controllerTiming =
  AutoDialDelay :: int
  RejectWait :: int
  RejectPollInterval :: int
  PostInterceptDelay :: int
  TreatmentInitialDelay :: int
  TreatmentReorderDuration :: int
  TreatmentHowlerDuration :: int

definition defaultTiming :: controllerTiming where
  "defaultTiming =
     \<lparr> AutoDialDelay = 800, RejectWait = 3000, RejectPollInterval = 200,
       PostInterceptDelay = 500, TreatmentInitialDelay = 1000,
       TreatmentReorderDuration = 45000, TreatmentHowlerDuration = 180000 \<rparr>"

text \<open>The calls of the \<open>Callbacks\<close> interface that act; its queries are fields of \<open>env\<close>.\<close>

datatype callback =
    SendTone tone | StartRing | StopRing | SendLED led | EnableFlashDetection
  | InitiateCall string | AnswerCall | HangupCall string | NotifyCallConnected | NotifyPicoReset
  | MutePeer string | UnmutePeer string | TearDownPeer string | MigrateToMesh string
  | RequestConferenceMerge string string | AddMeshPeer string bool | RemoveMeshPeer string
  | TearDownAllMeshPeers | OnCallReturn | SendRingPattern nat | OnCallReturnCancel
  | OnCallReturnAbandon | VoicemailAutoAnswer | VoicemailPickup | VoicemailRecordEnded | VoicemailRecordGreeting
  | VoicemailRecordGreetingKey string | VoicemailPlayGreeting | VoicemailExitGreetingPlayback
  | VoicemailDeleteGreeting | VoicemailEnterPlayback | VoicemailExitPlayback | VoicemailKey string

datatype ctl_out = Do callback | Go callback

text \<open>
  The answers of one step: \<open>VoicemailEnabled\<close>, the error of \<open>InitiateCall\<close>, the result of
  \<open>VoicemailAutoAnswer\<close>, \<open>OncePlaying\<close>, the clock, and which case of the \<^verbatim>\<open>select\<close> in
  \<open>sleepOrDone\<close> is taken when both are ready.
\<close>
record env =
  vm_enabled :: bool
  vm_timeout :: int
  initiate_ok :: bool
  autoanswer_ok :: bool
  once_playing :: bool
  now :: int
  timer_first :: bool

text \<open>\<open>awaitOneShot\<close>: about to start, about to ask \<open>OncePlaying\<close>, asleep; with the deadline.\<close>
datatype await = AwStart | AwPoll int | AwSleep int
datatype await_res = AwNext await | AwDone bool

datatype on_err = OnErrReject | OnErrAddParty

datatype reject_stage =
    RjWait                \<comment> \<open>sleeping \<open>RejectWait\<close>\<close>
  | RjStop | RjIntercept  \<comment> \<open>about to make the two unlocked tone calls\<close>
  | RjAwait await
  | RjPost                \<comment> \<open>sleeping \<open>PostInterceptDelay\<close>\<close>
  | RjBusy

datatype treatment_stage =
    TrAwait await
  | TrInitial | TrReorder \<comment> \<open>sleeping, then about to send the tone\<close>
  | TrReorderWait | TrHowler
  | TrHowlerWait | TrLockout

datatype add_err_stage = AeCheck | AeStop | AeIntercept

datatype task =
    TAutoDial string phState on_err      \<comment> \<open>goroutine of \<open>initiateCallAfterDelay\<close>, asleep\<close>
  | TReject reject_stage                 \<comment> \<open>\<open>playRejectSequence\<close>\<close>
  | TAddErr add_err_stage                \<comment> \<open>\<open>onErr\<close> of \<open>dialThirdParty\<close>\<close>
  | TRingTimeout "64 word"               \<comment> \<open>\<open>ringTimeoutWatcher\<close>, asleep\<close>
  | TAutoAnswer "64 word"                \<comment> \<open>about to call \<open>VoicemailAutoAnswer\<close>\<close>
  | TAutoAnswerFailed "64 word"          \<comment> \<open>it returned false\<close>
  | TTreatment treatment_stage phState "64 word"
  | TAddMeshPeer string bool             \<comment> \<open>\<open>HandleConferenceConnect\<close> after unlocking\<close>

text \<open>\<open>contactChecker\<close> is \<^const>\<open>None\<close> for nil; \<open>done\<close> is \<open>closed\<close>.\<close>
record ctl =
  state :: phState
  digits :: string
  ownNumber :: string
  contactChecker :: "(string \<Rightarrow> bool) option"
  silentMode :: bool
  treatmentGen :: "64 word"
  ringTimeoutGen :: "64 word"
  closed :: bool
  callReturnNumber :: string
  callReturnRinging :: bool
  callReturnTarget :: string
  confID :: string
  isConfHost :: bool
  heldPeer :: string
  addingPeer :: string
  out :: "ctl_out list"
  tasks :: "task list"

definition emit :: "callback list \<Rightarrow> ctl \<Rightarrow> ctl" where
  [go_simps]: "emit cbs c = c\<lparr>out := out c @ map Do cbs\<rparr>"

definition emitGo :: "callback \<Rightarrow> ctl \<Rightarrow> ctl" where
  [go_simps]: "emitGo cb c = c\<lparr>out := out c @ [Go cb]\<rparr>"

definition spawn :: "task \<Rightarrow> ctl \<Rightarrow> ctl" where
  [go_simps]: "spawn t c = c\<lparr>tasks := tasks c @ [t]\<rparr>"

definition NewController :: "string \<Rightarrow> ctl" where
  "NewController own =
     \<lparr> state = StateIDLE, digits = [], ownNumber = own, contactChecker = None, silentMode = False,
       treatmentGen = 0, ringTimeoutGen = 0, closed = False, callReturnNumber = [],
       callReturnRinging = False, callReturnTarget = [], confID = [], isConfHost = False,
       heldPeer = [], addingPeer = [], out = [], tasks = [] \<rparr>"

section \<open>Setters, queries and resets\<close>

definition CloseCtl :: "ctl \<Rightarrow> ctl" where
  "CloseCtl c = c\<lparr>closed := True\<rparr>"

definition sleepOrDone :: "env \<Rightarrow> ctl \<Rightarrow> bool" where
  "sleepOrDone e c \<longleftrightarrow> \<not> closed c \<or> timer_first e"

definition SetContactChecker :: "(string \<Rightarrow> bool) option \<Rightarrow> ctl \<Rightarrow> ctl" where
  "SetContactChecker cc c = c\<lparr>contactChecker := cc\<rparr>"

definition SetSilentMode :: "bool \<Rightarrow> ctl \<Rightarrow> ctl" where
  "SetSilentMode silent c =
     (if silentMode c = silent then c
      else let c = c\<lparr>silentMode := silent\<rparr> in
        if silent \<and> state c = StateRINGING then emit [StopRing] c else c)"

definition SetCallReturnNumber :: "string \<Rightarrow> ctl \<Rightarrow> ctl" where
  "SetCallReturnNumber number c = c\<lparr>callReturnNumber := number\<rparr>"

definition SetVoicemailRecording :: "ctl \<Rightarrow> ctl" where
  "SetVoicemailRecording c =
     (if state c = StateVOICEMAIL_GREETING then c\<lparr>state := StateVOICEMAIL_RECORDING\<rparr> else c)"

definition HandleCallReturnRing :: "string \<Rightarrow> ctl \<Rightarrow> ctl" where
  "HandleCallReturnRing target c =
     (if state c \<noteq> StateIDLE then c
      else let c = c\<lparr>callReturnRinging := True, callReturnTarget := target,
                     state := StateRINGING\<rparr>;
               c = (if \<not> silentMode c then emit [SendRingPattern 1] c else c)
           in emit [SendLED LEDBlink] c)"

definition IsCallActive :: "ctl \<Rightarrow> bool" where
  "IsCallActive c \<longleftrightarrow>
     state c \<in> {StateCALLING, StateRINGING, StateCONNECTED, StateVOICEMAIL_GREETING,
                StateVOICEMAIL_RECORDING, StateVOICEMAIL_RECORD_GREETING}"

definition IsDialPhase :: "phState \<Rightarrow> bool" where
  "IsDialPhase s \<longleftrightarrow> s = StateDIALTONE \<or> s = StateDIALING"

definition ResetCtl :: "ctl \<Rightarrow> ctl" where
  "ResetCtl c = c\<lparr>state := StateIDLE, digits := [], callReturnNumber := [],
                  callReturnRinging := False, callReturnTarget := [],
                  ringTimeoutGen := ringTimeoutGen c + 1\<rparr>"

definition ResetToDialtone :: "ctl \<Rightarrow> ctl" where
  "ResetToDialtone c =
     (let c = (if state c = StateVOICEMAIL_PLAYBACK \<or> state c = StateVOICEMAIL_RECORD_GREETING
               then emit [NotifyPicoReset] c else c)
      in c\<lparr>state := StateDIALTONE, digits := []\<rparr>)"

definition FinishGreetingAudition :: "ctl \<Rightarrow> bool \<times> ctl" where
  "FinishGreetingAudition c =
     (if state c \<noteq> StateVOICEMAIL_PLAY_GREETING then (False, c)
      else (True, emit [SendTone ToneDial] (c\<lparr>state := StateDIALTONE, digits := []\<rparr>)))"

section \<open>Placing a call\<close>

definition isSelfCall :: "ctl \<Rightarrow> string \<Rightarrow> bool" where
  "isSelfCall c number \<longleftrightarrow> ownNumber c \<noteq> [] \<and> number = ownNumber c"

definition isBlockedContact :: "ctl \<Rightarrow> string \<Rightarrow> bool" where
  "isBlockedContact c number \<longleftrightarrow>
     (case contactChecker c of None \<Rightarrow> False | Some chk \<Rightarrow> \<not> chk number)"

definition initiateCallAfterDelay :: "string \<Rightarrow> phState \<Rightarrow> on_err \<Rightarrow> ctl \<Rightarrow> ctl" where
  "initiateCallAfterDelay number expectedState onErr c =
     spawn (TAutoDial number expectedState onErr) c"

definition dialThirdParty :: "string \<Rightarrow> ctl \<Rightarrow> ctl" where
  "dialThirdParty number c =
     (if isSelfCall c number then
        emit [SendTone ToneIntercept] (c\<lparr>state := StateADD_INTERCEPT\<rparr>)
      else if isBlockedContact c number then
        emit [SendTone ToneIntercept] (c\<lparr>state := StateADD_INTERCEPT\<rparr>)
      else initiateCallAfterDelay number StateADD_CALLING OnErrAddParty
        (c\<lparr>addingPeer := number, digits := [], state := StateADD_CALLING\<rparr>))"

definition onDial :: "string \<Rightarrow> ctl \<Rightarrow> ctl" where
  "onDial number c =
     (if state c = StateADD_DIALING then dialThirdParty number c
      else if state c \<noteq> StateDIALING then c
      else if isSelfCall c number then
        emit [SendTone ToneBusy] (c\<lparr>state := StateCALLING\<rparr>)
      else if isBlockedContact c number then
        spawn (TReject RjWait) (emit [SendTone ToneRingback] (c\<lparr>state := StateCALLING\<rparr>))
      else initiateCallAfterDelay number StateCALLING OnErrReject (c\<lparr>state := StateCALLING\<rparr>))"

section \<open>UART events\<close>

definition onHookOff :: "ctl \<Rightarrow> ctl" where
  "onHookOff c =
     (case state c of
        StateIDLE \<Rightarrow>
          emit [SendTone ToneDial, SendLED LEDOn] (c\<lparr>state := StateDIALTONE, digits := []\<rparr>)
      | StateRINGING \<Rightarrow>
          (let c = c\<lparr>ringTimeoutGen := ringTimeoutGen c + 1\<rparr> in
           if callReturnRinging c then
             (let number = callReturnTarget c;
                  c = c\<lparr>callReturnRinging := False, callReturnTarget := []\<rparr>;
                  c = emit [StopRing, SendTone ToneStop, SendLED LEDOn] c
              in initiateCallAfterDelay number StateCALLING OnErrReject
                   (c\<lparr>state := StateCALLING\<rparr>))
           else
             emit [StopRing, SendTone ToneStop, SendLED LEDOn, EnableFlashDetection, AnswerCall]
               (c\<lparr>state := StateCONNECTED\<rparr>))
      | StateVOICEMAIL_GREETING \<Rightarrow>
          emit [SendTone ToneStop, SendLED LEDOn, EnableFlashDetection, VoicemailPickup]
            (c\<lparr>state := StateCONNECTED\<rparr>)
      | StateVOICEMAIL_RECORDING \<Rightarrow>
          emit [SendTone ToneStop, SendLED LEDOn, EnableFlashDetection, VoicemailPickup]
            (c\<lparr>state := StateCONNECTED\<rparr>)
      | _ \<Rightarrow> c)"

definition wasConnectedOrCalling :: "ctl \<Rightarrow> bool" where
  "wasConnectedOrCalling c \<longleftrightarrow>
     state c \<in> {StateCONNECTED, StateCALLING, StateVOICEMAIL_GREETING,
                StateVOICEMAIL_RECORDING, StateVOICEMAIL_RECORD_GREETING}"

definition inConferenceFlow :: "ctl \<Rightarrow> bool" where
  "inConferenceFlow c \<longleftrightarrow>
     confID c \<noteq> [] \<or>
     state c \<in> {StateADD_DIALTONE, StateADD_DIALING, StateADD_CALLING, StateADD_PRIVATE,
                StateADD_INTERCEPT, StateCONFERENCE_MERGED}"

definition onHookOn :: "ctl \<Rightarrow> ctl" where
  "onHookOn c0 =
     (if state c0 = StateIDLE then c0
      else
        let c = (if inConferenceFlow c0 then emit [TearDownAllMeshPeers] c0 else c0);
            c = c\<lparr>state := StateIDLE, digits := [], callReturnNumber := [],
                  callReturnRinging := False, callReturnTarget := [], heldPeer := [],
                  addingPeer := [], confID := [], isConfHost := False\<rparr>;
            c = emit [SendTone ToneStop, StopRing, SendLED LEDOff] c
        in if wasConnectedOrCalling c0 \<or> inConferenceFlow c0 then emit [HangupCall []] c
           else if state c0 = StateCALL_RETURN then emitGo OnCallReturnAbandon c
           else if state c0 = StateVOICEMAIL_PLAYBACK then emit [VoicemailExitPlayback] c
           else if state c0 = StateVOICEMAIL_PLAY_GREETING then
             emit [VoicemailExitGreetingPlayback] c
           else c)"

text \<open>The \<open>DIALING\<close> case of \<open>onKey\<close>, its early returns as the branches of the conditional.\<close>

definition onKeyDialing :: "env \<Rightarrow> string \<Rightarrow> ctl \<Rightarrow> ctl" where
  "onKeyDialing e digit c =
     (let c = c\<lparr>digits := digits c @ digit\<rparr> in
      if vm_enabled e \<and> digits c = voicemailRetrievalCode then
        emit [NotifyCallConnected, VoicemailEnterPlayback]
          (c\<lparr>digits := [], state := StateVOICEMAIL_PLAYBACK\<rparr>)
      else
        let c = (if length (digits c) \<ge> 4 \<and> length (digits c) \<le> 5 \<and> hasPrefix (digits c) ''*#*''
                 then c\<lparr>digits := [], state := StateDIALTONE\<rparr> else c)
        in
        if digits c = ''*69'' then
          emitGo OnCallReturn (c\<lparr>digits := [], callReturnNumber := [], state := StateCALL_RETURN\<rparr>)
        else if digits c = ''*89'' then
          emitGo OnCallReturnCancel (c\<lparr>digits := [], state := StateCALL_RETURN\<rparr>)
        else if digits c = ''*96'' \<and> vm_enabled e then
          emitGo VoicemailPlayGreeting (c\<lparr>digits := [], state := StateVOICEMAIL_PLAY_GREETING\<rparr>)
        else if digits c = ''*97'' \<and> vm_enabled e then
          emitGo VoicemailRecordGreeting
            (emit [NotifyCallConnected]
              (c\<lparr>digits := [], state := StateVOICEMAIL_RECORD_GREETING\<rparr>))
        else if digits c = ''*99'' \<and> vm_enabled e then
          emitGo VoicemailDeleteGreeting
            (emit [SendTone ToneDial] (c\<lparr>digits := [], state := StateDIALTONE\<rparr>))
        else c)"

definition onKey :: "env \<Rightarrow> string \<Rightarrow> ctl \<Rightarrow> ctl" where
  "onKey e digit c =
     (case state c of
        StateIDLE \<Rightarrow> c
      | StateDIALTONE \<Rightarrow> emit [SendTone ToneStop] (c\<lparr>state := StateDIALING, digits := digit\<rparr>)
      | StateDIALING \<Rightarrow> onKeyDialing e digit c
      | StateVOICEMAIL_RECORD_GREETING \<Rightarrow> emitGo (VoicemailRecordGreetingKey digit) c
      | StateVOICEMAIL_PLAYBACK \<Rightarrow> emitGo (VoicemailKey digit) c
      | StateCALL_RETURN \<Rightarrow>
          (if digit = ''1'' \<and> callReturnNumber c \<noteq> [] then
             (let number = callReturnNumber c in
              initiateCallAfterDelay number StateCALLING OnErrReject
                (c\<lparr>callReturnNumber := [], state := StateCALLING\<rparr>))
           else c)
      | StateADD_DIALTONE \<Rightarrow>
          emit [SendTone ToneStop] (c\<lparr>state := StateADD_DIALING, digits := digit\<rparr>)
      | StateADD_DIALING \<Rightarrow>
          (let c = c\<lparr>digits := digits c @ digit\<rparr> in
           if length (digits c) \<ge> addDialDigitsRequired then
             (let number = digits c in dialThirdParty number (c\<lparr>digits := []\<rparr>))
           else c)
      | _ \<Rightarrow> c)"

text \<open>
  The goroutine of \<open>runPermanentSignalTreatment\<close> starts with \<open>awaitOneShot\<close>; its generation
  is the counter's new value.
\<close>
definition runPermanentSignalTreatment :: "phState \<Rightarrow> ctl \<Rightarrow> ctl" where
  "runPermanentSignalTreatment treatmentState c =
     (let c = c\<lparr>treatmentGen := treatmentGen c + 1\<rparr>; gen = treatmentGen c
      in spawn (TTreatment (TrAwait AwStart) treatmentState gen) c)"

definition onTimeoutDialTone :: "ctl \<Rightarrow> ctl" where
  "onTimeoutDialTone c =
     (if state c \<noteq> StateDIALTONE then c
      else runPermanentSignalTreatment StateOFFHOOK_TIMEOUT
        (emit [SendTone ToneStopAll] (c\<lparr>state := StateOFFHOOK_TIMEOUT\<rparr>)))"

definition HandleEvent :: "env \<Rightarrow> string \<Rightarrow> ctl \<Rightarrow> ctl" where
  "HandleEvent e event c =
     (case splitN2 CHR '':'' event of
        None \<Rightarrow> c
      | Some (evType, evVal) \<Rightarrow>
          if evType = ''HOOK'' \<and> evVal = ''OFF'' then onHookOff c
          else if evType = ''HOOK'' \<and> evVal = ''ON'' then onHookOn c
          else if evType = ''KEY'' then onKey e evVal c
          else if evType = ''DIAL'' then onDial evVal c
          else if evType = ''TIMEOUT'' \<and> evVal = ''DIAL_TONE'' then onTimeoutDialTone c
          else c)"

section \<open>Signals\<close>

definition HangupReasonConnectTimeout :: string where
  "HangupReasonConnectTimeout = ''connect_timeout''"

definition onSignalRing :: "env \<Rightarrow> ctl \<Rightarrow> ctl" where
  "onSignalRing e c =
     (if state c \<noteq> StateIDLE then c
      else
        let c = c\<lparr>state := StateRINGING\<rparr>;
            c = (if \<not> silentMode c then emit [StartRing] c else c);
            c = emit [SendLED LEDBlink] c
        in if vm_enabled e \<and> vm_timeout e > 0 then
             (let c = c\<lparr>ringTimeoutGen := ringTimeoutGen c + 1\<rparr>; gen = ringTimeoutGen c
              in spawn (TRingTimeout gen) c)
           else c)"

definition abortVoicemailLocked :: "string \<Rightarrow> ctl \<Rightarrow> ctl" where
  "abortVoicemailLocked reason c =
     emit [SendTone ToneStop, SendLED LEDOff, HangupCall reason] (c\<lparr>state := StateIDLE\<rparr>)"

definition AbortVoicemailGreeting :: "ctl \<Rightarrow> bool \<times> ctl" where
  "AbortVoicemailGreeting c =
     (if state c \<noteq> StateVOICEMAIL_GREETING then (False, c)
      else (True, abortVoicemailLocked HangupReasonConnectTimeout c))"

definition onSignalAnswer :: "string \<Rightarrow> ctl \<Rightarrow> ctl" where
  "onSignalAnswer sender c =
     (case state c of
        StateCALLING \<Rightarrow>
          emit [SendTone ToneStop, EnableFlashDetection, NotifyCallConnected]
            (c\<lparr>state := StateCONNECTED\<rparr>)
      | StateADD_CALLING \<Rightarrow>
          (if sender \<noteq> [] \<and> sender \<noteq> addingPeer c then c
           else emit [SendTone ToneStop] (c\<lparr>state := StateADD_PRIVATE\<rparr>))
      | _ \<Rightarrow> c)"

text \<open>The shared tail of the add-leg failures of \<open>onSignalHangup\<close>, \<open>onSignalError\<close> and \<open>onSignalBusy\<close>.\<close>
definition failAddLeg :: "string \<Rightarrow> callback list \<Rightarrow> ctl \<Rightarrow> ctl" where
  "failAddLeg sender treatment c =
     (if sender \<noteq> [] \<and> sender \<noteq> addingPeer c then c
      else emit (treatment @ [TearDownPeer (addingPeer c)]) (c\<lparr>state := StateADD_INTERCEPT\<rparr>))"

definition onSignalHangup :: "string \<Rightarrow> string \<Rightarrow> ctl \<Rightarrow> ctl" where
  "onSignalHangup sender reason c =
     (case state c of
        StateCALLING \<Rightarrow> emit [SendTone ToneBusy] c
      | StateRINGING \<Rightarrow>
          emit [StopRing, SendLED LEDOff]
            (c\<lparr>ringTimeoutGen := ringTimeoutGen c + 1, state := StateIDLE,
               callReturnRinging := False, callReturnTarget := []\<rparr>)
      | StateVOICEMAIL_GREETING \<Rightarrow> abortVoicemailLocked reason c
      | StateVOICEMAIL_RECORDING \<Rightarrow> abortVoicemailLocked reason c
      | StateCONNECTED \<Rightarrow>
          (if reason = HangupReasonConnectTimeout then
             runPermanentSignalTreatment StateCALL_FAILED
               (emit [HangupCall reason, SendTone ToneStopAll, SendTone ToneCallFailed]
                 (c\<lparr>state := StateCALL_FAILED\<rparr>))
           else
             runPermanentSignalTreatment StateREMOTE_HANGUP
               (emit [HangupCall [], SendTone ToneStopAll] (c\<lparr>state := StateREMOTE_HANGUP\<rparr>)))
      | StateADD_CALLING \<Rightarrow> failAddLeg sender [SendTone ToneStop, SendTone ToneIntercept] c
      | StateADD_PRIVATE \<Rightarrow> failAddLeg sender [SendTone ToneStop, SendTone ToneIntercept] c
      | _ \<Rightarrow> c)"

definition onSignalError :: "string \<Rightarrow> ctl \<Rightarrow> ctl" where
  "onSignalError sender c =
     (case state c of
        StateCALLING \<Rightarrow> emit [SendTone ToneStop, SendTone ToneDisconnected] c
      | StateADD_CALLING \<Rightarrow> failAddLeg sender [SendTone ToneStop, SendTone ToneDisconnected] c
      | _ \<Rightarrow> c)"

definition onSignalBusy :: "string \<Rightarrow> ctl \<Rightarrow> ctl" where
  "onSignalBusy sender c =
     (case state c of
        StateCALLING \<Rightarrow> emit [SendTone ToneBusy] c
      | StateADD_CALLING \<Rightarrow> failAddLeg sender [SendTone ToneBusy] c
      | _ \<Rightarrow> c)"

definition HandleSignal :: "env \<Rightarrow> string \<Rightarrow> string \<Rightarrow> ctl \<Rightarrow> ctl" where
  "HandleSignal e msgType sender c =
     (if msgType = ''ring'' then onSignalRing e c
      else if msgType = ''answer'' then onSignalAnswer sender c
      else if msgType = ''hangup'' then onSignalHangup sender [] c
      else if msgType = ''busy'' then onSignalBusy sender c
      else if msgType = ''error'' then onSignalError sender c
      else c)"

definition HandleHangup :: "string \<Rightarrow> string \<Rightarrow> ctl \<Rightarrow> ctl" where
  "HandleHangup sender reason c = onSignalHangup sender reason c"

section \<open>Hook flash and the conference\<close>

definition enterAddDialtone :: "string \<Rightarrow> ctl \<Rightarrow> ctl" where
  "enterAddDialtone activePeer c =
     (let c = c\<lparr>heldPeer := activePeer, state := StateADD_DIALTONE\<rparr>;
          c = (if heldPeer c \<noteq> [] then emit [MigrateToMesh (heldPeer c), MutePeer (heldPeer c)] c
               else c)
      in emit [SendTone ToneDial] c)"

definition abortAdd :: "ctl \<Rightarrow> ctl" where
  "abortAdd c =
     (let c = emit [SendTone ToneStop] c;
          c = (if addingPeer c \<noteq> [] then emit [TearDownPeer (addingPeer c)] c else c);
          c = (if heldPeer c \<noteq> [] then emit [UnmutePeer (heldPeer c)] c else c)
      in c\<lparr>addingPeer := [], heldPeer := [], state := StateCONNECTED\<rparr>)"

definition requestMerge :: "ctl \<Rightarrow> ctl" where
  "requestMerge c =
     (let c = (if heldPeer c \<noteq> [] then emit [UnmutePeer (heldPeer c)] c else c);
          c = (if addingPeer c \<noteq> [] then emit [MigrateToMesh (addingPeer c)] c else c)
      in emit [RequestConferenceMerge (heldPeer c) (addingPeer c)]
           (c\<lparr>state := StateCONFERENCE_MERGED\<rparr>))"

definition onHookFlash :: "string \<Rightarrow> ctl \<Rightarrow> ctl" where
  "onHookFlash activePeer c =
     (if confID c \<noteq> [] \<and> \<not> isConfHost c then c
      else case state c of
        StateCONNECTED \<Rightarrow> enterAddDialtone activePeer c
      | StateADD_DIALTONE \<Rightarrow> abortAdd c
      | StateADD_DIALING \<Rightarrow> abortAdd c
      | StateADD_CALLING \<Rightarrow> abortAdd c
      | StateADD_INTERCEPT \<Rightarrow> abortAdd c
      | StateADD_PRIVATE \<Rightarrow> requestMerge c
      | _ \<Rightarrow> c)"

definition HandleHookFlash :: "string \<Rightarrow> ctl \<Rightarrow> ctl" where
  "HandleHookFlash activePeer c = onHookFlash activePeer c"

record confMemberInfo =
  mPhone :: string
  mRole :: string

definition RoleHost :: string where "RoleHost = ''host''"

definition HandleConferenceMember :: "string \<Rightarrow> confMemberInfo list \<Rightarrow> ctl \<Rightarrow> ctl" where
  "HandleConferenceMember conf members c =
     c\<lparr>confID := conf,
       isConfHost := list_ex (\<lambda>m. mPhone m = ownNumber c \<and> mRole m = RoleHost) members\<rparr>"

definition HandleConferenceConnect :: "string \<Rightarrow> string \<Rightarrow> bool \<Rightarrow> ctl \<Rightarrow> ctl" where
  "HandleConferenceConnect conf peer initiator c =
     (if confID c \<noteq> conf then c else spawn (TAddMeshPeer peer initiator) c)"

definition HandleConferenceLeave :: "string \<Rightarrow> string \<Rightarrow> string \<Rightarrow> ctl \<Rightarrow> ctl" where
  "HandleConferenceLeave conf peer reason c =
     (if confID c = [] then c
      else if confID c \<noteq> conf then c
      else emit [RemoveMeshPeer peer] c)"

definition HandleConferenceEnd :: "string \<Rightarrow> string \<Rightarrow> ctl \<Rightarrow> ctl" where
  "HandleConferenceEnd conf reason c =
     (if confID c = [] then c
      else if confID c \<noteq> conf then c
      else
        let c = emit [TearDownAllMeshPeers, HangupCall []] c;
            c = c\<lparr>confID := [], isConfHost := False, heldPeer := [], addingPeer := []\<rparr>
        in if state c \<in> {StateCONFERENCE_MERGED, StateADD_PRIVATE, StateADD_CALLING,
                         StateADD_DIALING, StateADD_DIALTONE, StateADD_INTERCEPT} then
             runPermanentSignalTreatment StateREMOTE_HANGUP
               (emit [SendTone ToneStop] (c\<lparr>state := StateREMOTE_HANGUP\<rparr>))
           else emit [SendTone ToneStop, StopRing, SendLED LEDOff] (c\<lparr>state := StateIDLE\<rparr>))"

definition HandleConferenceRejected :: "string \<Rightarrow> string \<Rightarrow> ctl \<Rightarrow> ctl" where
  "HandleConferenceRejected conf reason c =
     (if confID c \<noteq> [] \<and> conf \<noteq> [] \<and> confID c \<noteq> conf then c
      else if state c \<noteq> StateCONFERENCE_MERGED then c
      else
        let c = emit [SendTone ToneIntercept] c;
            c = (if addingPeer c \<noteq> []
                 then emit [TearDownPeer (addingPeer c)] c \<lparr>addingPeer := []\<rparr> else c);
            c = (if heldPeer c \<noteq> [] then emit [UnmutePeer (heldPeer c)] c else c)
        in c\<lparr>heldPeer := [], state := StateCONNECTED, confID := [], isConfHost := False\<rparr>)"

section \<open>Goroutines\<close>

text \<open>
  \<open>awaitOneShot\<close>, one point at a time.  \<open>keep\<close> is what \<open>keepGoing\<close> would answer now; \<open>poll\<close>
  the interval is what the sleep before an \<open>AwSleep\<close> point lasts.
\<close>
fun await_step :: "env \<Rightarrow> ctl \<Rightarrow> bool \<Rightarrow> await \<Rightarrow> await_res" where
  "await_step e c keep AwStart = AwNext (AwPoll (now e + oneShotMaxDuration))"
| "await_step e c keep (AwPoll deadline) =
     (if once_playing e then AwNext (AwSleep deadline) else AwDone True)"
| "await_step e c keep (AwSleep deadline) =
     (if \<not> sleepOrDone e c \<or> \<not> keep then AwDone False
      else if now e > deadline then AwDone True
      else AwNext (AwPoll deadline))"

fun reject_step :: "env \<Rightarrow> reject_stage \<Rightarrow> ctl \<Rightarrow> ctl \<times> task option" where
  "reject_step e RjWait c =
     (c, if state c = StateCALLING then Some (TReject RjStop) else None)"
| "reject_step e RjStop c = (emit [SendTone ToneStop] c, Some (TReject RjIntercept))"
| "reject_step e RjIntercept c =
     (emit [SendTone ToneIntercept] c, Some (TReject (RjAwait AwStart)))"
| "reject_step e (RjAwait a) c =
     (c, case await_step e c (state c = StateCALLING) a of
           AwNext a' \<Rightarrow> Some (TReject (RjAwait a'))
         | AwDone go_on \<Rightarrow> if go_on then Some (TReject RjPost) else None)"
| "reject_step e RjPost c =
     (c, if state c = StateCALLING then Some (TReject RjBusy) else None)"
| "reject_step e RjBusy c = (emit [SendTone ToneBusy] c, None)"

fun add_err_step :: "add_err_stage \<Rightarrow> ctl \<Rightarrow> ctl \<times> task option" where
  "add_err_step AeCheck c =
     (if state c \<noteq> StateADD_CALLING then (c, None)
      else (c\<lparr>state := StateADD_INTERCEPT\<rparr>, Some (TAddErr AeStop)))"
| "add_err_step AeStop c = (emit [SendTone ToneStop] c, Some (TAddErr AeIntercept))"
| "add_err_step AeIntercept c = (emit [SendTone ToneIntercept] c, None)"

definition stillInTreatment :: "phState \<Rightarrow> 64 word \<Rightarrow> ctl \<Rightarrow> bool" where
  "stillInTreatment treatmentState gen c \<longleftrightarrow>
     state c = treatmentState \<and> treatmentGen c = gen"

fun treatment_step ::
  "env \<Rightarrow> treatment_stage \<Rightarrow> phState \<Rightarrow> 64 word \<Rightarrow> ctl \<Rightarrow> ctl \<times> task option" where
  "treatment_step e (TrAwait a) ts gen c =
     (c, case await_step e c (stillInTreatment ts gen c) a of
           AwNext a' \<Rightarrow> Some (TTreatment (TrAwait a') ts gen)
         | AwDone go_on \<Rightarrow> if go_on then Some (TTreatment TrInitial ts gen) else None)"
| "treatment_step e TrInitial ts gen c =
     (c, if \<not> sleepOrDone e c \<or> \<not> stillInTreatment ts gen c then None
         else Some (TTreatment TrReorder ts gen))"
| "treatment_step e TrReorder ts gen c =
     (emit [SendTone ToneReorder] c, Some (TTreatment TrReorderWait ts gen))"
| "treatment_step e TrReorderWait ts gen c =
     (c, if \<not> sleepOrDone e c \<or> \<not> stillInTreatment ts gen c then None
         else Some (TTreatment TrHowler ts gen))"
| "treatment_step e TrHowler ts gen c =
     (emit [SendTone ToneHowler] c, Some (TTreatment TrHowlerWait ts gen))"
| "treatment_step e TrHowlerWait ts gen c =
     (c, if \<not> sleepOrDone e c \<or> \<not> stillInTreatment ts gen c then None
         else Some (TTreatment TrLockout ts gen))"
| "treatment_step e TrLockout ts gen c = (emit [SendTone ToneStop] c, None)"

fun task_step :: "env \<Rightarrow> task \<Rightarrow> ctl \<Rightarrow> ctl \<times> task option" where
  "task_step e (TAutoDial number expectedState onErr) c =
     (if state c \<noteq> expectedState then (c, None)
      else (emit [SendTone ToneRingback, InitiateCall number] c,
            if initiate_ok e then None
            else Some (case onErr of OnErrReject \<Rightarrow> TReject RjWait
                       | OnErrAddParty \<Rightarrow> TAddErr AeCheck)))"
| "task_step e (TReject st) c = reject_step e st c"
| "task_step e (TAddErr st) c = add_err_step st c"
| "task_step e (TRingTimeout gen) c =
     (if \<not> sleepOrDone e c then (c, None)
      else if state c \<noteq> StateRINGING \<or> ringTimeoutGen c \<noteq> gen then (c, None)
      else (emit [StopRing, SendTone ToneStop] (c\<lparr>state := StateVOICEMAIL_GREETING\<rparr>),
            Some (TAutoAnswer gen)))"
| "task_step e (TAutoAnswer gen) c =
     (emit [VoicemailAutoAnswer] c,
      if autoanswer_ok e then None else Some (TAutoAnswerFailed gen))"
| "task_step e (TAutoAnswerFailed gen) c =
     (if state c \<noteq> StateVOICEMAIL_GREETING \<or> ringTimeoutGen c \<noteq> gen then (c, None)
      else (abortVoicemailLocked [] c, None))"
| "task_step e (TTreatment st ts gen) c = treatment_step e st ts gen c"
| "task_step e (TAddMeshPeer peer initiator) c = (emit [AddMeshPeer peer initiator] c, None)"

section \<open>Moves and runs\<close>

datatype event =
    EvHandleEvent string | EvHandleSignal string string | EvHandleHangup string string
  | EvHookFlash string | EvConfMember string "confMemberInfo list"
  | EvConfConnect string string bool | EvConfLeave string string string
  | EvConfEnd string string | EvConfRejected string string
  | EvSetSilentMode bool | EvSetContactChecker "(string \<Rightarrow> bool) option"
  | EvSetCallReturnNumber string | EvSetVoicemailRecording | EvCallReturnRing string
  | EvReset | EvResetToDialtone | EvFinishGreetingAudition | EvAbortVoicemailGreeting | EvClose

fun handle :: "env \<Rightarrow> event \<Rightarrow> ctl \<Rightarrow> ctl" where
  "handle e (EvHandleEvent s) c = HandleEvent e s c"
| "handle e (EvHandleSignal ty sender) c = HandleSignal e ty sender c"
| "handle e (EvHandleHangup sender reason) c = HandleHangup sender reason c"
| "handle e (EvHookFlash p) c = HandleHookFlash p c"
| "handle e (EvConfMember conf ms) c = HandleConferenceMember conf ms c"
| "handle e (EvConfConnect conf p i) c = HandleConferenceConnect conf p i c"
| "handle e (EvConfLeave conf p r) c = HandleConferenceLeave conf p r c"
| "handle e (EvConfEnd conf r) c = HandleConferenceEnd conf r c"
| "handle e (EvConfRejected conf r) c = HandleConferenceRejected conf r c"
| "handle e (EvSetSilentMode b) c = SetSilentMode b c"
| "handle e (EvSetContactChecker cc) c = SetContactChecker cc c"
| "handle e (EvSetCallReturnNumber n) c = SetCallReturnNumber n c"
| "handle e EvSetVoicemailRecording c = SetVoicemailRecording c"
| "handle e (EvCallReturnRing t) c = HandleCallReturnRing t c"
| "handle e EvReset c = ResetCtl c"
| "handle e EvResetToDialtone c = ResetToDialtone c"
| "handle e EvFinishGreetingAudition c = snd (FinishGreetingAudition c)"
| "handle e EvAbortVoicemailGreeting c = snd (AbortVoicemailGreeting c)"
| "handle e EvClose c = CloseCtl c"

definition run_task :: "env \<Rightarrow> nat \<Rightarrow> ctl \<Rightarrow> ctl" where
  "run_task e i c =
     (if i < length (tasks c) then
        (case task_step e (tasks c ! i) c of
           (c', None) \<Rightarrow> c'\<lparr>tasks := remove_nth i (tasks c')\<rparr>
         | (c', Some t) \<Rightarrow> c'\<lparr>tasks := (tasks c')[i := t]\<rparr>)
      else c)"

datatype move = Handler env event | Background env nat

fun ctl_move :: "move \<Rightarrow> ctl \<Rightarrow> ctl" where
  "ctl_move (Handler e ev) c = handle e ev c"
| "ctl_move (Background e i) c = run_task e i c"

end
