(* ===== verification/Controller_Inv.thy ===== *)
theory Controller_Inv
  imports Controller
begin

text \<open>
  What the handset controller guarantees over every sequence of moves: the legal
  transitions of its state machine, the bookkeeping of the held and added party, the
  contact filter, the generation counters of its goroutines, and the tone discipline.
\<close>

section \<open>Unfolding bundles\<close>

lemmas dial_defs =
  dialThirdParty_def onDial_def initiateCallAfterDelay_def

lemmas uart_defs =
  onHookOff_def onHookOn_def onKeyDialing_def onKey_def onTimeoutDialTone_def
  runPermanentSignalTreatment_def dial_defs

lemmas signal_defs =
  onSignalRing_def abortVoicemailLocked_def AbortVoicemailGreeting_def onSignalAnswer_def
  failAddLeg_def onSignalHangup_def onSignalError_def onSignalBusy_def HandleHangup_def
  runPermanentSignalTreatment_def

lemmas conf_defs =
  enterAddDialtone_def abortAdd_def requestMerge_def onHookFlash_def HandleHookFlash_def
  HandleConferenceMember_def HandleConferenceConnect_def HandleConferenceLeave_def
  HandleConferenceEnd_def HandleConferenceRejected_def runPermanentSignalTreatment_def

lemmas setter_defs =
  SetSilentMode_def SetContactChecker_def SetCallReturnNumber_def SetVoicemailRecording_def
  HandleCallReturnRing_def ResetCtl_def ResetToDialtone_def FinishGreetingAudition_def
  CloseCtl_def

lemma HandleEvent_cases:
  assumes "P c"
    and "P (onHookOff c)" and "P (onHookOn c)"
    and "\<And>d. P (onKey e d c)" and "\<And>n. P (onDial n c)" and "P (onTimeoutDialTone c)"
  shows "P (HandleEvent e s c)"
  unfolding HandleEvent_def using assms by (auto split: option.split)

lemma HandleSignal_cases:
  assumes "P c"
    and "P (onSignalRing e c)" and "P (onSignalAnswer s c)" and "P (onSignalHangup s [] c)"
    and "P (onSignalBusy s c)" and "P (onSignalError s c)"
  shows "P (HandleSignal e ty s c)"
  unfolding HandleSignal_def using assms by auto

text \<open>
  One rule for all handlers: a property of the state after an event holds if it holds after
  each of the elementary operations.
\<close>

lemma handle_cases:
  assumes ev: "P (onHookOff c)" "P (onHookOn c)" "\<And>d. P (onKey e d c)"
      "\<And>n. P (onDial n c)" "P (onTimeoutDialTone c)"
    and sig: "P (onSignalRing e c)" "\<And>s. P (onSignalAnswer s c)"
      "\<And>s r. P (onSignalHangup s r c)" "\<And>s. P (onSignalBusy s c)" "\<And>s. P (onSignalError s c)"
    and conf: "\<And>p. P (onHookFlash p c)" "\<And>x ms. P (HandleConferenceMember x ms c)"
      "\<And>x p i. P (HandleConferenceConnect x p i c)" "\<And>x p r. P (HandleConferenceLeave x p r c)"
      "\<And>x r. P (HandleConferenceEnd x r c)" "\<And>x r. P (HandleConferenceRejected x r c)"
    and setters: "\<And>b. P (SetSilentMode b c)" "P (SetVoicemailRecording c)"
      "P (snd (FinishGreetingAudition c))" "P (snd (AbortVoicemailGreeting c))" "P (CloseCtl c)"
    and guarded: "\<And>cc. x = EvSetContactChecker cc \<Longrightarrow> P (SetContactChecker cc c)"
      "\<And>n. x = EvSetCallReturnNumber n \<Longrightarrow> P (SetCallReturnNumber n c)"
      "\<And>t. x = EvCallReturnRing t \<Longrightarrow> P (HandleCallReturnRing t c)"
      "x = EvReset \<Longrightarrow> P (ResetCtl c)"
      "x = EvResetToDialtone \<Longrightarrow> P (ResetToDialtone c)"
    and same: "P c"
  shows "P (handle e x c)"
proof (cases x)
  case (EvHandleEvent s)
  show ?thesis unfolding EvHandleEvent handle.simps by (rule HandleEvent_cases [OF same ev])
next
  case (EvHandleSignal ty s)
  show ?thesis unfolding EvHandleSignal handle.simps by (rule HandleSignal_cases [OF same sig])
qed (simp_all only: handle.simps HandleHangup_def HandleHookFlash_def sig conf setters guarded)

section \<open>Transitions of the state machine\<close>

text \<open>The states in which the controller takes the handset to be on the hook.\<close>

definition onHookState :: "phState \<Rightarrow> bool" where
  "onHookState s \<longleftrightarrow>
     s \<in> {StateIDLE, StateRINGING, StateVOICEMAIL_GREETING, StateVOICEMAIL_RECORDING}"

definition addStates :: "phState set" where
  "addStates = {StateADD_DIALTONE, StateADD_DIALING, StateADD_CALLING, StateADD_PRIVATE,
                StateADD_INTERCEPT}"

lemma onHookOff_state:
  "state (onHookOff c) =
     (case state c of
        StateIDLE \<Rightarrow> StateDIALTONE
      | StateRINGING \<Rightarrow> if callReturnRinging c then StateCALLING else StateCONNECTED
      | StateVOICEMAIL_GREETING \<Rightarrow> StateCONNECTED
      | StateVOICEMAIL_RECORDING \<Rightarrow> StateCONNECTED
      | s \<Rightarrow> s)"
  by (simp add: onHookOff_def initiateCallAfterDelay_def go_simps Let_def split: phState.split)

lemma onHookOn_state: "state (onHookOn c) = StateIDLE"
  by (simp add: onHookOn_def go_simps Let_def)

named_theorems hook_keep \<open>operations that keep the controller's belief about the hook\<close>

text \<open>The eight outcomes of a key in \<open>DIALING\<close>.\<close>

lemma onKeyDialing_cases:
  assumes "P (emit [NotifyCallConnected, VoicemailEnterPlayback]
               (c\<lparr>digits := [], state := StateVOICEMAIL_PLAYBACK\<rparr>))"
    and "P (c\<lparr>digits := [], state := StateDIALTONE\<rparr>)"
    and "P (emitGo OnCallReturn
              (c\<lparr>digits := [], callReturnNumber := [], state := StateCALL_RETURN\<rparr>))"
    and "P (emitGo OnCallReturnCancel (c\<lparr>digits := [], state := StateCALL_RETURN\<rparr>))"
    and "P (emitGo VoicemailPlayGreeting
              (c\<lparr>digits := [], state := StateVOICEMAIL_PLAY_GREETING\<rparr>))"
    and "P (emitGo VoicemailRecordGreeting
              (emit [NotifyCallConnected]
                 (c\<lparr>digits := [], state := StateVOICEMAIL_RECORD_GREETING\<rparr>)))"
    and "P (emitGo VoicemailDeleteGreeting
              (emit [SendTone ToneDial] (c\<lparr>digits := [], state := StateDIALTONE\<rparr>)))"
    and "P (c\<lparr>digits := digits c @ d\<rparr>)"
  shows "P (onKeyDialing e d c)"
proof (cases "length (digits c @ d) \<ge> 4 \<and> length (digits c @ d) \<le> 5 \<and> hasPrefix (digits c @ d) ''*#*''")
  case True
  then show ?thesis
    unfolding onKeyDialing_def Let_def using assms(1,2) by (simp del: length_append)
next
  case False
  then show ?thesis
    unfolding onKeyDialing_def Let_def using assms by (simp del: length_append)
qed

text \<open>The outcomes of a key in any state.\<close>

lemma onKey_cases:
  assumes "P c"
    and "state c = StateDIALTONE \<Longrightarrow>
           P (emit [SendTone ToneStop] (c\<lparr>state := StateDIALING, digits := d\<rparr>))"
    and "state c = StateDIALING \<Longrightarrow> P (onKeyDialing e d c)"
    and "state c = StateVOICEMAIL_RECORD_GREETING \<Longrightarrow> P (emitGo (VoicemailRecordGreetingKey d) c)"
    and "state c = StateVOICEMAIL_PLAYBACK \<Longrightarrow> P (emitGo (VoicemailKey d) c)"
    and "state c = StateCALL_RETURN \<Longrightarrow> callReturnNumber c \<noteq> [] \<Longrightarrow>
           P (initiateCallAfterDelay (callReturnNumber c) StateCALLING OnErrReject
                (c\<lparr>callReturnNumber := [], state := StateCALLING\<rparr>))"
    and "state c = StateADD_DIALTONE \<Longrightarrow>
           P (emit [SendTone ToneStop] (c\<lparr>state := StateADD_DIALING, digits := d\<rparr>))"
    and "state c = StateADD_DIALING \<Longrightarrow> P (c\<lparr>digits := digits c @ d\<rparr>)"
    and "\<And>number. state c = StateADD_DIALING \<Longrightarrow>
           P (dialThirdParty number (c\<lparr>digits := digits c @ d, digits := []\<rparr>))"
  shows "P (onKey e d c)"
  unfolding onKey_def Let_def using assms by (cases "state c") auto

lemma onKeyDialing_state:
  "state (onKeyDialing e d c) \<in>
     {StateVOICEMAIL_PLAYBACK, StateDIALTONE, StateCALL_RETURN, StateVOICEMAIL_PLAY_GREETING,
      StateVOICEMAIL_RECORD_GREETING, state c}"
  by (rule onKeyDialing_cases) (simp_all add: go_simps)

lemma onKey_hook [hook_keep]: "onHookState (state (onKey e d c)) = onHookState (state c)"
proof (rule onKey_cases)
  assume "state c = StateDIALING"
  then show "onHookState (state (onKeyDialing e d c)) = onHookState (state c)"
    using onKeyDialing_state [of e d c] by (auto simp: onHookState_def)
qed (simp_all add: dial_defs go_simps onHookState_def)

lemma onDial_hook [hook_keep]: "onHookState (state (onDial n c)) = onHookState (state c)"
  by (simp add: dial_defs onHookState_def go_simps)

lemma onTimeoutDialTone_hook [hook_keep]:
  "onHookState (state (onTimeoutDialTone c)) = onHookState (state c)"
  by (simp add: onTimeoutDialTone_def runPermanentSignalTreatment_def onHookState_def go_simps Let_def)

lemma onSignalRing_hook [hook_keep]: "onHookState (state (onSignalRing e c)) = onHookState (state c)"
  by (simp add: onSignalRing_def onHookState_def go_simps Let_def)

lemma onSignalAnswer_hook [hook_keep]:
  "onHookState (state (onSignalAnswer s c)) = onHookState (state c)"
  by (simp add: onSignalAnswer_def onHookState_def go_simps split: phState.split)

lemma onSignalHangup_hook [hook_keep]:
  "onHookState (state (onSignalHangup s r c)) = onHookState (state c)"
  by (simp add: signal_defs onHookState_def go_simps Let_def split: phState.split)

lemma onSignalBusy_hook [hook_keep]:
  "onHookState (state (onSignalBusy s c)) = onHookState (state c)"
  by (simp add: signal_defs onHookState_def go_simps split: phState.split)

lemma onSignalError_hook [hook_keep]:
  "onHookState (state (onSignalError s c)) = onHookState (state c)"
  by (simp add: signal_defs onHookState_def go_simps split: phState.split)

lemma onHookFlash_hook [hook_keep]: "onHookState (state (onHookFlash p c)) = onHookState (state c)"
  by (simp add: conf_defs onHookState_def go_simps Let_def split: phState.split)

lemma conf_hook [hook_keep]:
  "onHookState (state (HandleConferenceMember x ms c)) = onHookState (state c)"
  "onHookState (state (HandleConferenceConnect x p i c)) = onHookState (state c)"
  "onHookState (state (HandleConferenceLeave x p r c)) = onHookState (state c)"
  "onHookState (state (HandleConferenceRejected x r c)) = onHookState (state c)"
  by (simp_all add: conf_defs onHookState_def go_simps Let_def)

lemma setters_hook [hook_keep]:
  "onHookState (state (SetSilentMode b c)) = onHookState (state c)"
  "onHookState (state (SetContactChecker cc c)) = onHookState (state c)"
  "onHookState (state (SetCallReturnNumber n c)) = onHookState (state c)"
  "onHookState (state (SetVoicemailRecording c)) = onHookState (state c)"
  "onHookState (state (HandleCallReturnRing t c)) = onHookState (state c)"
  "onHookState (state (snd (FinishGreetingAudition c))) = onHookState (state c)"
  "onHookState (state (snd (AbortVoicemailGreeting c))) = onHookState (state c)"
  "onHookState (state (CloseCtl c)) = onHookState (state c)"
  by (simp_all add: setter_defs signal_defs onHookState_def go_simps Let_def)

text \<open>The goroutines never touch most of the state: what a step of one may change.\<close>

lemma task_step_frame:
  "task_step e t c = (c', t') \<Longrightarrow>
     ownNumber c' = ownNumber c \<and> contactChecker c' = contactChecker c \<and> digits c' = digits c
     \<and> treatmentGen c' = treatmentGen c \<and> ringTimeoutGen c' = ringTimeoutGen c
     \<and> callReturnNumber c' = callReturnNumber c \<and> callReturnRinging c' = callReturnRinging c
     \<and> callReturnTarget c' = callReturnTarget c \<and> confID c' = confID c
     \<and> heldPeer c' = heldPeer c \<and> addingPeer c' = addingPeer c \<and> tasks c' = tasks c
     \<and> isConfHost c' = isConfHost c \<and> closed c' = closed c \<and> silentMode c' = silentMode c"
  by (induction e t c rule: task_step.induct)
    (auto simp: go_simps abortVoicemailLocked_def split: if_splits
      elim!: reject_step.elims add_err_step.elims treatment_step.elims)

lemma task_step_state:
  "task_step e t c = (c', t') \<Longrightarrow>
     state c' = state c
     \<or> state c = StateADD_CALLING \<and> state c' = StateADD_INTERCEPT
     \<or> state c = StateRINGING \<and> state c' = StateVOICEMAIL_GREETING
     \<or> state c = StateVOICEMAIL_GREETING \<and> state c' = StateIDLE"
  by (induction e t c rule: task_step.induct)
    (auto simp: go_simps abortVoicemailLocked_def split: if_splits
      elim!: reject_step.elims add_err_step.elims treatment_step.elims)

lemma run_task_state:
  "state (run_task e i c) = state c
     \<or> state c = StateADD_CALLING \<and> state (run_task e i c) = StateADD_INTERCEPT
     \<or> state c = StateRINGING \<and> state (run_task e i c) = StateVOICEMAIL_GREETING
     \<or> state c = StateVOICEMAIL_GREETING \<and> state (run_task e i c) = StateIDLE"
  unfolding run_task_def
  using task_step_state [of e "tasks c ! i" c]
  by (auto split: prod.splits option.splits)

lemma run_task_hook: "onHookState (state (run_task e i c)) = onHookState (state c)"
  using run_task_state [of e i c] by (auto simp: onHookState_def)

lemma HandleConferenceEnd_hook:
  "\<not> onHookState (state c) \<Longrightarrow> onHookState (state (HandleConferenceEnd x r c)) \<Longrightarrow>
     confID c = x \<and> x \<noteq> [] \<and> state c \<notin> addStates \<and> state c \<noteq> StateCONFERENCE_MERGED"
  by (simp add: conf_defs onHookState_def addStates_def go_simps Let_def split: if_splits)

lemma HandleConferenceEnd_hook_on:
  "onHookState (state c) \<Longrightarrow> onHookState (state (HandleConferenceEnd x r c))"
  by (auto simp: conf_defs onHookState_def go_simps Let_def split: if_splits)

lemma HandleEvent_hook:
  assumes "onHookState (state (HandleEvent e s c)) \<noteq> onHookState (state c)"
  shows "if onHookState (state c) then s = ''HOOK:OFF'' else s = ''HOOK:ON''"
proof (cases "splitN2 CHR '':'' s")
  case None
  then show ?thesis using assms by (simp add: HandleEvent_def)
next
  case (Some p)
  obtain a b where p: "p = (a, b)" by (cases p)
  have s: "s = a @ CHR '':'' # b" using Some p by (simp add: splitN2_Some_iff)
  have off: "onHookState (state (onHookOff c)) = (if onHookState (state c) then False else onHookState (state c))"
    by (auto simp: onHookOff_state onHookState_def split: phState.splits)
  have on: "onHookState (state (onHookOn c))"
    by (simp add: onHookOn_state onHookState_def)
  show ?thesis
    using assms s on off unfolding HandleEvent_def Some p
    by (auto simp: hook_keep split: if_splits)
qed

lemma HandleSignal_hook [hook_keep]:
  "onHookState (state (HandleSignal e ty s c)) = onHookState (state c)"
  by (rule HandleSignal_cases) (simp_all add: hook_keep)

text \<open>The events that may move the belief about the hook.\<close>

fun hook_event :: "event \<Rightarrow> bool" where
  "hook_event (EvHandleEvent s) = True"
| "hook_event (EvConfEnd x r) = True"
| "hook_event EvReset = True"
| "hook_event EvResetToDialtone = True"
| "hook_event _ = False"

lemma handle_hook: "\<not> hook_event x \<Longrightarrow> onHookState (state (handle e x c)) = onHookState (state c)"
  by (cases x) (simp_all add: hook_keep HandleHangup_def HandleHookFlash_def)

text \<open>
  C7: The controller's belief about the handset changes only for a physical or an
  explicit reason.  A phone believed on the hook (idle, ringing, or answering into
  voicemail) is believed off the hook after a move only if the move is the UART event
  HOOK:OFF or \<open>ResetToDialtone\<close>; a phone believed off the hook is believed on the hook only
  after HOOK:ON, \<open>Reset\<close>, or the end of the conference it belongs to while it is in no
  add-party state.  No signal, timeout, key or background goroutine can do either.
\<close>
theorem hook_belief:
  assumes "onHookState (state (ctl_move m c)) \<noteq> onHookState (state c)"
  shows "if onHookState (state c)
         then \<exists>e. m = Handler e (EvHandleEvent ''HOOK:OFF'') \<or> m = Handler e EvResetToDialtone
         else \<exists>e x r. m = Handler e (EvHandleEvent ''HOOK:ON'') \<or> m = Handler e EvReset
                \<or> m = Handler e (EvConfEnd x r) \<and> confID c = x \<and> x \<noteq> [] \<and>
                  state c \<notin> addStates \<and> state c \<noteq> StateCONFERENCE_MERGED"
proof (cases m)
  case (Background e i)
  then show ?thesis using assms by (simp add: run_task_hook)
next
  case (Handler e x)
  have ne: "onHookState (state (handle e x c)) \<noteq> onHookState (state c)"
    using assms Handler by simp
  then have "hook_event x" using handle_hook by blast
  then show ?thesis
  proof (cases rule: hook_event.elims(2))
    case (1 s)
    then show ?thesis using ne HandleEvent_hook [of e s c] Handler by simp
  next
    case (2 y r)
    have "\<not> onHookState (state c)"
      using ne 2 HandleConferenceEnd_hook_on [of c y r] by auto
    moreover have "confID c = y \<and> y \<noteq> [] \<and> state c \<notin> addStates \<and> state c \<noteq> StateCONFERENCE_MERGED"
      using ne 2 calculation by (intro HandleConferenceEnd_hook) auto
    ultimately show ?thesis using Handler 2 by auto
  next
    case 3
    then show ?thesis using ne Handler by (simp add: ResetCtl_def onHookState_def)
  next
    case 4
    then show ?thesis using ne Handler by (simp add: ResetToDialtone_def onHookState_def go_simps)
  qed
qed

definition idle_env :: env where
  "idle_env = \<lparr>vm_enabled = False, vm_timeout = 0, initiate_ok = True, autoanswer_ok = True,
               once_playing = False, now = 0, timer_first = False\<rparr>"

lemma hook_belief_witness:
  "\<exists>e. Handler idle_env (EvHandleEvent ''HOOK:OFF'') = Handler e (EvHandleEvent ''HOOK:OFF'')
     \<or> Handler idle_env (EvHandleEvent ''HOOK:OFF'') = Handler e EvResetToDialtone"
proof -
  have "onHookState (state (NewController ''5551234''))"
    by (simp add: NewController_def onHookState_def)
  moreover have "\<not> onHookState (state (ctl_move (Handler idle_env (EvHandleEvent ''HOOK:OFF''))
                        (NewController ''5551234'')))"
    by (simp add: HandleEvent_def NewController_def onHookOff_state onHookState_def)
  ultimately show ?thesis
    using hook_belief [of "Handler idle_env (EvHandleEvent ''HOOK:OFF'')" "NewController ''5551234''"]
    by simp
qed

section \<open>The held and the added party\<close>

text \<open>
  \<open>peers_ok\<close>: a held party is recorded only in the add-party states and in a merged
  conference, an added party only once its number has been dialled, and no digits are
  pending at the dial tone.
\<close>
definition peers_ok :: "ctl \<Rightarrow> bool" where
  "peers_ok c \<longleftrightarrow>
     (heldPeer c \<noteq> [] \<longrightarrow> state c \<in> addStates \<union> {StateCONFERENCE_MERGED})
     \<and> (addingPeer c \<noteq> [] \<longrightarrow>
          state c \<in> {StateADD_CALLING, StateADD_PRIVATE, StateADD_INTERCEPT, StateCONFERENCE_MERGED})
     \<and> (state c = StateDIALTONE \<longrightarrow> digits c = [])"

text \<open>The resets keep the parties of an add flow; they are allowed outside of it.\<close>

fun reset_ok :: "move \<Rightarrow> ctl \<Rightarrow> bool" where
  "reset_ok (Handler e EvReset) c = (state c \<notin> addStates \<union> {StateCONFERENCE_MERGED})"
| "reset_ok (Handler e EvResetToDialtone) c = (state c \<notin> addStates \<union> {StateCONFERENCE_MERGED})"
| "reset_ok _ c = True"

lemma onKeyDialing_peers: "peers_ok c \<Longrightarrow> state c = StateDIALING \<Longrightarrow> peers_ok (onKeyDialing e d c)"
  by (rule onKeyDialing_cases) (simp_all add: peers_ok_def go_simps addStates_def)

lemma dialThirdParty_peers:
  "peers_ok c \<Longrightarrow> state c = StateADD_DIALING \<Longrightarrow> peers_ok (dialThirdParty n (c\<lparr>digits := d\<rparr>))"
  by (simp add: dial_defs peers_ok_def go_simps addStates_def)

lemma onKey_peers: "peers_ok c \<Longrightarrow> peers_ok (onKey e d c)"
proof (rule onKey_cases)
  show "peers_ok c \<Longrightarrow> state c = StateDIALING \<Longrightarrow> peers_ok (onKeyDialing e d c)"
    by (rule onKeyDialing_peers)
  show "peers_ok (dialThirdParty number (c\<lparr>digits := digits c @ d, digits := []\<rparr>))"
    if "peers_ok c" "state c = StateADD_DIALING" for number
    using dialThirdParty_peers [OF that] by simp
qed (simp_all add: peers_ok_def go_simps addStates_def initiateCallAfterDelay_def)

lemma onDial_peers: "peers_ok c \<Longrightarrow> peers_ok (onDial n c)"
  using dialThirdParty_peers [of c n "digits c"]
  by (cases "state c") (simp_all add: onDial_def initiateCallAfterDelay_def peers_ok_def go_simps addStates_def)

lemma uart_peers:
  assumes "peers_ok c"
  shows "peers_ok (onHookOff c)" "peers_ok (onHookOn c)" "peers_ok (onTimeoutDialTone c)"
proof -
  show "peers_ok (onHookOff c)"
    using assms by (cases "state c") (simp_all add: uart_defs peers_ok_def go_simps addStates_def Let_def)
  show "peers_ok (onHookOn c)"
    using assms by (cases "state c") (simp_all add: onHookOn_def peers_ok_def go_simps addStates_def Let_def)
  show "peers_ok (onTimeoutDialTone c)"
    using assms by (cases "state c") (simp_all add: onTimeoutDialTone_def runPermanentSignalTreatment_def
        peers_ok_def go_simps addStates_def Let_def)
qed

lemma signal_peers:
  assumes "peers_ok c"
  shows "peers_ok (onSignalRing e c)" "peers_ok (onSignalAnswer s c)"
    "peers_ok (onSignalHangup s r c)" "peers_ok (onSignalBusy s c)" "peers_ok (onSignalError s c)"
    "peers_ok (snd (AbortVoicemailGreeting c))"
  using assms
  by (cases "state c"; simp add: signal_defs peers_ok_def go_simps addStates_def Let_def)+

lemma conf_peers:
  assumes "peers_ok c"
  shows "peers_ok (onHookFlash p c)" "peers_ok (HandleConferenceMember x ms c)"
    "peers_ok (HandleConferenceConnect x p i c)" "peers_ok (HandleConferenceLeave x p r c)"
    "peers_ok (HandleConferenceEnd x r c)" "peers_ok (HandleConferenceRejected x r c)"
  using assms
  by (cases "state c"; simp add: conf_defs peers_ok_def go_simps addStates_def Let_def)+

lemma setter_peers:
  assumes "peers_ok c"
  shows "peers_ok (SetSilentMode b c)" "peers_ok (SetVoicemailRecording c)"
    "peers_ok (snd (FinishGreetingAudition c))" "peers_ok (CloseCtl c)"
    "peers_ok (SetContactChecker cc c)" "peers_ok (SetCallReturnNumber n c)"
    "peers_ok (HandleCallReturnRing t c)"
  using assms
  by (cases "state c"; simp add: setter_defs peers_ok_def go_simps addStates_def Let_def)+

lemma handle_peers:
  assumes inv: "peers_ok c" and ok: "reset_ok (Handler e x) c"
  shows "peers_ok (handle e x c)"
proof (rule handle_cases)
  show "x = EvReset \<Longrightarrow> peers_ok (ResetCtl c)"
    using inv ok by (cases "state c") (simp_all add: ResetCtl_def peers_ok_def addStates_def)
  show "x = EvResetToDialtone \<Longrightarrow> peers_ok (ResetToDialtone c)"
    using inv ok by (cases "state c") (simp_all add: ResetToDialtone_def peers_ok_def go_simps addStates_def)
qed (simp_all add: inv onDial_peers onKey_peers uart_peers signal_peers conf_peers setter_peers)

lemma run_task_peers: "peers_ok c \<Longrightarrow> peers_ok (run_task e i c)"
proof -
  assume inv: "peers_ok c"
  obtain c' t' where st: "task_step e (tasks c ! i) c = (c', t')"
    by (cases "task_step e (tasks c ! i) c")
  have "peers_ok c'"
    using task_step_state [OF st] inv task_step_frame [OF st]
    by (elim disjE conjE; simp add: peers_ok_def addStates_def)
  then show ?thesis
    using inv st by (auto simp: run_task_def peers_ok_def split: option.split)
qed

interpretation peers: invariant_machine ctl_move reset_ok peers_ok
proof
  show "peers_ok (ctl_move m c)" if "reset_ok m c" and "peers_ok c" for m c
  proof (cases m)
    case (Handler e x)
    then show ?thesis using that handle_peers [of c e x] by simp
  qed (use that in \<open>simp add: run_task_peers\<close>)
qed

lemma peers_ok_New: "peers_ok (NewController own)"
  by (simp add: peers_ok_def NewController_def)

text \<open>
  C8: In every run of handlers and goroutines from \<open>NewController\<close> in which the resets are
  called outside an add-party flow, the held and the added party are recorded only in the
  states that own them, and the dial tone never has pending digits.
\<close>
theorem peers_recorded_only_in_add_flow:
  assumes "allowed_run ctl_move reset_ok ms (NewController own)"
  shows "peers_ok (fold ctl_move ms (NewController own))"
  by (rule peers.run_inv [OF peers_ok_New assms])

lemma peers_recorded_witness:
  "peers_ok (fold ctl_move [Handler idle_env (EvHandleEvent ''HOOK:OFF''), Handler idle_env EvReset]
     (NewController ''5551234''))"
  by (rule peers_recorded_only_in_add_flow)
    (simp add: NewController_def HandleEvent_def onHookOff_def go_simps addStates_def)

end
