(* ===== verification/Controller_Tasks.thy ===== *)
theory Controller_Tasks
  imports Controller_Inv
begin

text \<open>
  Whole-run guarantees that involve the controller's goroutines: which numbers are ever
  dialled, who is left muted, and how many ring watchers and treatment sequences can be live.
\<close>

section \<open>Numbers that are dialled\<close>

text \<open>
  \<open>dial_permitted cc own n\<close>: the contact filter \<open>cc\<close> accepts \<open>n\<close> and \<open>n\<close> is not the line's own
  number.  \<open>dials_ok\<close>: every call placed or about to be placed is permitted, or goes to a
  number of \<open>R\<close>, the numbers the server handed over for call return.
\<close>

definition dial_permitted :: "(string \<Rightarrow> bool) option \<Rightarrow> string \<Rightarrow> string \<Rightarrow> bool" where
  "dial_permitted cc own n \<longleftrightarrow>
     (own = [] \<or> n \<noteq> own) \<and> (case cc of None \<Rightarrow> True | Some chk \<Rightarrow> chk n)"

text \<open>The numbers a pending goroutine will dial, and the numbers an effect has dialled.\<close>

fun task_dials :: "task \<Rightarrow> string set" where
  "task_dials (TAutoDial n s e) = {n}"
| "task_dials _ = {}"

fun out_dials :: "ctl_out \<Rightarrow> string set" where
  "out_dials (Do (InitiateCall n)) = {n}"
| "out_dials _ = {}"

definition dials_ok :: "(string \<Rightarrow> bool) option \<Rightarrow> string \<Rightarrow> string set \<Rightarrow> ctl \<Rightarrow> bool" where
  "dials_ok cc own R c \<longleftrightarrow>
     contactChecker c = cc \<and> ownNumber c = own
     \<and> (\<forall>t \<in> set (tasks c). task_dials t \<subseteq> {n. dial_permitted cc own n} \<union> R)
     \<and> (\<forall>x \<in> set (out c). out_dials x \<subseteq> {n. dial_permitted cc own n} \<union> R)
     \<and> (callReturnNumber c \<noteq> [] \<longrightarrow> callReturnNumber c \<in> R)
     \<and> (callReturnRinging c \<longrightarrow> callReturnTarget c \<in> R)"

text \<open>The filter is not replaced, and the server hands over only numbers of \<open>R\<close>.\<close>

fun dial_move_ok :: "string set \<Rightarrow> move \<Rightarrow> ctl \<Rightarrow> bool" where
  "dial_move_ok R (Handler e (EvSetContactChecker cc)) c = False"
| "dial_move_ok R (Handler e (EvSetCallReturnNumber n)) c = (n = [] \<or> n \<in> R)"
| "dial_move_ok R (Handler e (EvCallReturnRing t)) c = (t \<in> R)"
| "dial_move_ok R _ c = True"

lemma permitted_iff:
  "\<not> isSelfCall c n \<and> \<not> isBlockedContact c n \<longleftrightarrow> dial_permitted (contactChecker c) (ownNumber c) n"
  by (auto simp: isSelfCall_def isBlockedContact_def dial_permitted_def split: option.splits)

text \<open>Effects and spawned goroutines that place no call keep the property.\<close>

lemma dials_ok_emit [simp]:
  "dials_ok cc own R (emit cbs c) \<longleftrightarrow>
     dials_ok cc own R c \<and> (\<forall>x \<in> set cbs. out_dials (Do x) \<subseteq> {n. dial_permitted cc own n} \<union> R)"
  by (auto simp: dials_ok_def emit_def)

lemma dials_ok_emitGo [simp]: "dials_ok cc own R (emitGo cb c) = dials_ok cc own R c"
  by (simp add: dials_ok_def emitGo_def conj_ac)

lemma dials_ok_spawn [simp]:
  "dials_ok cc own R (spawn t c) \<longleftrightarrow>
     dials_ok cc own R c \<and> task_dials t \<subseteq> {n. dial_permitted cc own n} \<union> R"
  by (auto simp: dials_ok_def spawn_def)

lemma emit_sel [simp]:
  "state (emit cbs c) = state c" "callReturnNumber (emit cbs c) = callReturnNumber c"
  "callReturnRinging (emit cbs c) = callReturnRinging c"
  "callReturnTarget (emit cbs c) = callReturnTarget c" "tasks (emit cbs c) = tasks c"
  "heldPeer (emit cbs c) = heldPeer c" "addingPeer (emit cbs c) = addingPeer c"
  "silentMode (emit cbs c) = silentMode c" "confID (emit cbs c) = confID c"
  "isConfHost (emit cbs c) = isConfHost c" "digits (emit cbs c) = digits c"
  "treatmentGen (emit cbs c) = treatmentGen c" "ringTimeoutGen (emit cbs c) = ringTimeoutGen c"
  "contactChecker (emit cbs c) = contactChecker c" "ownNumber (emit cbs c) = ownNumber c"
  by (simp_all add: emit_def)

lemma dials_ok_upd [simp]:
  "dials_ok cc own R (c\<lparr>state := s\<rparr>) = dials_ok cc own R c"
  "dials_ok cc own R (c\<lparr>digits := d\<rparr>) = dials_ok cc own R c"
  "dials_ok cc own R (c\<lparr>silentMode := b\<rparr>) = dials_ok cc own R c"
  "dials_ok cc own R (c\<lparr>treatmentGen := g\<rparr>) = dials_ok cc own R c"
  "dials_ok cc own R (c\<lparr>ringTimeoutGen := g\<rparr>) = dials_ok cc own R c"
  "dials_ok cc own R (c\<lparr>closed := b\<rparr>) = dials_ok cc own R c"
  "dials_ok cc own R (c\<lparr>confID := x\<rparr>) = dials_ok cc own R c"
  "dials_ok cc own R (c\<lparr>isConfHost := b\<rparr>) = dials_ok cc own R c"
  "dials_ok cc own R (c\<lparr>heldPeer := x\<rparr>) = dials_ok cc own R c"
  "dials_ok cc own R (c\<lparr>addingPeer := x\<rparr>) = dials_ok cc own R c"
  by (simp_all add: dials_ok_def)

lemma dials_ok_callReturn:
  "dials_ok cc own R c \<Longrightarrow> dials_ok cc own R (c\<lparr>callReturnNumber := []\<rparr>)"
  "dials_ok cc own R c \<Longrightarrow> dials_ok cc own R (c\<lparr>callReturnRinging := False\<rparr>)"
  "dials_ok cc own R c \<Longrightarrow> \<not> callReturnRinging c \<Longrightarrow> dials_ok cc own R (c\<lparr>callReturnTarget := x\<rparr>)"
  by (simp_all add: dials_ok_def)

lemma dials_ok_fields:
  "dials_ok cc own R c \<Longrightarrow> contactChecker c = cc" "dials_ok cc own R c \<Longrightarrow> ownNumber c = own"
  "dials_ok cc own R c \<Longrightarrow> callReturnNumber c \<noteq> [] \<Longrightarrow> callReturnNumber c \<in> R"
  "dials_ok cc own R c \<Longrightarrow> callReturnRinging c \<Longrightarrow> callReturnTarget c \<in> R"
  by (simp_all add: dials_ok_def)

lemma dialThirdParty_dials: "dials_ok cc own R c \<Longrightarrow> dials_ok cc own R (dialThirdParty n c)"
  using permitted_iff [of c n]
  by (auto simp: dialThirdParty_def initiateCallAfterDelay_def dials_ok_fields)

lemma onDial_dials: "dials_ok cc own R c \<Longrightarrow> dials_ok cc own R (onDial n c)"
  using permitted_iff [of c n]
  by (auto simp: onDial_def dialThirdParty_dials initiateCallAfterDelay_def dials_ok_fields)

lemma onKeyDialing_dials: "dials_ok cc own R c \<Longrightarrow> dials_ok cc own R (onKeyDialing e d c)"
  by (rule onKeyDialing_cases) (simp_all add: dials_ok_callReturn)

lemma onKey_dials: "dials_ok cc own R c \<Longrightarrow> dials_ok cc own R (onKey e d c)"
  by (rule onKey_cases)
    (simp_all add: onKeyDialing_dials dialThirdParty_dials initiateCallAfterDelay_def
      dials_ok_callReturn dials_ok_fields)

lemma uart_dials:
  assumes "dials_ok cc own R c"
  shows "dials_ok cc own R (onHookOff c)" "dials_ok cc own R (onHookOn c)"
    "dials_ok cc own R (onTimeoutDialTone c)"
proof -
  show "dials_ok cc own R (onHookOff c)"
    using assms by (simp add: onHookOff_def initiateCallAfterDelay_def Let_def dials_ok_callReturn
        dials_ok_fields split: phState.split)
  show "dials_ok cc own R (onHookOn c)"
    using assms by (simp add: onHookOn_def Let_def dials_ok_callReturn)
  show "dials_ok cc own R (onTimeoutDialTone c)"
    using assms by (simp add: onTimeoutDialTone_def runPermanentSignalTreatment_def Let_def)
qed

lemma signal_dials:
  assumes "dials_ok cc own R c"
  shows "dials_ok cc own R (onSignalRing e c)" "dials_ok cc own R (onSignalAnswer s c)"
    "dials_ok cc own R (onSignalHangup s r c)" "dials_ok cc own R (onSignalBusy s c)"
    "dials_ok cc own R (onSignalError s c)" "dials_ok cc own R (snd (AbortVoicemailGreeting c))"
  using assms
  by (simp_all add: signal_defs Let_def dials_ok_callReturn split: phState.split)

lemma conf_dials:
  assumes "dials_ok cc own R c"
  shows "dials_ok cc own R (onHookFlash p c)" "dials_ok cc own R (HandleConferenceMember x ms c)"
    "dials_ok cc own R (HandleConferenceConnect x p i c)"
    "dials_ok cc own R (HandleConferenceLeave x p r c)"
    "dials_ok cc own R (HandleConferenceEnd x r c)" "dials_ok cc own R (HandleConferenceRejected x r c)"
  using assms
  by (simp_all add: conf_defs Let_def split: phState.split)

lemma setter_dials:
  assumes "dials_ok cc own R c"
  shows "dials_ok cc own R (SetSilentMode b c)" "dials_ok cc own R (SetVoicemailRecording c)"
    "dials_ok cc own R (snd (FinishGreetingAudition c))" "dials_ok cc own R (CloseCtl c)"
    "dials_ok cc own R (ResetCtl c)" "dials_ok cc own R (ResetToDialtone c)"
    "n = [] \<or> n \<in> R \<Longrightarrow> dials_ok cc own R (SetCallReturnNumber n c)"
    "t \<in> R \<Longrightarrow> dials_ok cc own R (HandleCallReturnRing t c)"
  using assms
  by (simp_all add: setter_defs Let_def dials_ok_callReturn)
    (auto simp: dials_ok_def)

lemma handle_dials:
  assumes inv: "dials_ok cc own R c" and ok: "dial_move_ok R (Handler e x) c"
  shows "dials_ok cc own R (handle e x c)"
  by (rule handle_cases)
    (use ok in \<open>simp_all add: inv onDial_dials onKey_dials uart_dials signal_dials conf_dials setter_dials\<close>)

text \<open>The numbers a goroutine step dials are those the goroutine was going to dial.\<close>

lemma task_step_dials:
  "task_step e t c = (c', t') \<Longrightarrow> dials_ok cc own R c \<Longrightarrow>
     task_dials t \<subseteq> {n. dial_permitted cc own n} \<union> R \<Longrightarrow>
     dials_ok cc own R c' \<and> (\<forall>u. t' = Some u \<longrightarrow> task_dials u = {})"
  by (induction e t c rule: task_step.induct)
    (auto simp: abortVoicemailLocked_def split: if_splits on_err.splits
      elim!: reject_step.elims add_err_step.elims treatment_step.elims split: await_res.splits)

lemma run_task_dials:
  assumes "dials_ok cc own R c"
  shows "dials_ok cc own R (run_task e i c)"
proof (cases "i < length (tasks c)")
  case True
  obtain c' t' where st: "task_step e (tasks c ! i) c = (c', t')"
    by (cases "task_step e (tasks c ! i) c")
  have t: "task_dials (tasks c ! i) \<subseteq> {n. dial_permitted cc own n} \<union> R"
    using assms True by (simp add: dials_ok_def)
  have ok: "dials_ok cc own R c'" "\<And>u. t' = Some u \<Longrightarrow> task_dials u = {}"
    using task_step_dials [OF st assms t] by auto
  show ?thesis
    using ok st True
    by (auto simp: run_task_def dials_ok_def dest!: in_set_remove_nthD in_set_list_updateD
        split: option.split)
qed (use assms in \<open>simp add: run_task_def\<close>)

interpretation dials: invariant_machine ctl_move "dial_move_ok R" "dials_ok cc own R"
proof
  show "dials_ok cc own R (ctl_move m c)" if "dial_move_ok R m c" and "dials_ok cc own R c" for m c
    using that by (cases m) (simp_all add: handle_dials run_task_dials)
qed

text \<open>
  C9: The contact filter cannot be bypassed.  In any run of handlers and goroutines that does
  not replace the filter, every number \<open>InitiateCall\<close> is ever called with, on the first leg or
  on an added leg and however the goroutines interleave, is accepted by the filter and is not
  the line's own number, or is one of the numbers the server handed over for call return.
\<close>
theorem only_permitted_numbers_dialled:
  assumes "allowed_run ctl_move (dial_move_ok R) ms (SetContactChecker cc (NewController own))"
    and "Do (InitiateCall n) \<in> set (out (fold ctl_move ms (SetContactChecker cc (NewController own))))"
  shows "dial_permitted cc own n \<or> n \<in> R"
proof -
  have "dials_ok cc own R (SetContactChecker cc (NewController own))"
    by (simp add: dials_ok_def SetContactChecker_def NewController_def)
  from dials.run_inv [OF this assms(1)] assms(2) show ?thesis
    by (fastforce simp: dials_ok_def)
qed

definition dial_moves :: "string \<Rightarrow> move list" where
  "dial_moves number =
     [Handler idle_env (EvHandleEvent ''HOOK:OFF''), Handler idle_env (EvHandleEvent ''KEY:5''),
      Handler idle_env (EvHandleEvent (''DIAL:'' @ number)), Background idle_env 0]"

lemma dial_moves_run:
  "out (fold ctl_move (dial_moves ''5550199'')
     (SetContactChecker (Some (\<lambda>n. n = ''5550199'')) (NewController ''5551234''))) =
   [Do (SendTone ToneDial), Do (SendLED LEDOn), Do (SendTone ToneStop),
    Do (SendTone ToneRingback), Do (InitiateCall ''5550199'')]"
  by code_simp

lemma only_permitted_witness:
  "dial_permitted (Some (\<lambda>n. n = ''5550199'')) ''5551234'' ''5550199'' \<or> ''5550199'' \<in> ({} :: string set)"
proof (rule only_permitted_numbers_dialled)
  show "allowed_run ctl_move (dial_move_ok {}) (dial_moves ''5550199'')
          (SetContactChecker (Some (\<lambda>n. n = ''5550199'')) (NewController ''5551234''))"
    by (simp add: dial_moves_def)
  show "Do (InitiateCall ''5550199'') \<in> set (out (fold ctl_move (dial_moves ''5550199'')
          (SetContactChecker (Some (\<lambda>n. n = ''5550199'')) (NewController ''5551234''))))"
    by (simp add: dial_moves_run)
qed

section \<open>Muted parties\<close>

text \<open>The parties the callbacks have muted, from the log.\<close>

fun mute_eff :: "ctl_out \<Rightarrow> string set \<Rightarrow> string set" where
  "mute_eff (Do (MutePeer p)) M = insert p M"
| "mute_eff (Do (UnmutePeer p)) M = M - {p}"
| "mute_eff (Do (TearDownPeer p)) M = M - {p}"
| "mute_eff (Do (RemoveMeshPeer p)) M = M - {p}"
| "mute_eff (Do TearDownAllMeshPeers) M = {}"
| "mute_eff _ M = M"

definition muted :: "ctl \<Rightarrow> string set" where
  "muted c = fold mute_eff (out c) {}"

definition mutes_ok :: "ctl \<Rightarrow> bool" where
  "mutes_ok c \<longleftrightarrow>
     (state c \<in> addStates \<longrightarrow> muted c \<subseteq> {heldPeer c} - {[]}) \<and> (state c \<notin> addStates \<longrightarrow> muted c = {})"

lemma muted_emit [simp]: "muted (emit cbs c) = fold mute_eff (map Do cbs) (muted c)"
  by (simp add: muted_def emit_def)

lemma muted_emitGo [simp]: "muted (emitGo cb c) = muted c"
  by (simp add: muted_def emitGo_def)

lemma muted_spawn [simp]: "muted (spawn t c) = muted c"
  by (simp add: muted_def spawn_def)

lemma muted_upd [simp]:
  "muted (c\<lparr>state := s\<rparr>) = muted c" "muted (c\<lparr>digits := d\<rparr>) = muted c"
  "muted (c\<lparr>silentMode := b\<rparr>) = muted c" "muted (c\<lparr>treatmentGen := g\<rparr>) = muted c"
  "muted (c\<lparr>ringTimeoutGen := g\<rparr>) = muted c" "muted (c\<lparr>closed := b\<rparr>) = muted c"
  "muted (c\<lparr>confID := x\<rparr>) = muted c" "muted (c\<lparr>isConfHost := b\<rparr>) = muted c"
  "muted (c\<lparr>heldPeer := x\<rparr>) = muted c" "muted (c\<lparr>addingPeer := x\<rparr>) = muted c"
  "muted (c\<lparr>callReturnNumber := x\<rparr>) = muted c" "muted (c\<lparr>callReturnRinging := b\<rparr>) = muted c"
  "muted (c\<lparr>callReturnTarget := x\<rparr>) = muted c" "muted (c\<lparr>contactChecker := cc\<rparr>) = muted c"
  "muted (c\<lparr>tasks := ts\<rparr>) = muted c"
  by (simp_all add: muted_def)

lemma sel_spawn [simp]:
  "state (spawn t c) = state c" "heldPeer (spawn t c) = heldPeer c"
  "state (emitGo cb c) = state c" "heldPeer (emitGo cb c) = heldPeer c"
  by (simp_all add: spawn_def emitGo_def)

lemma mutes_ok_case:
  "mutes_ok c \<Longrightarrow> state c \<notin> addStates \<Longrightarrow> muted c = {}"
  "mutes_ok c \<Longrightarrow> state c \<in> addStates \<Longrightarrow> muted c \<subseteq> {heldPeer c} - {[]}"
  by (auto simp: mutes_ok_def)

lemmas mutes_simps = mutes_ok_def addStates_def Let_def

lemma dialThirdParty_mutes:
  "mutes_ok c \<Longrightarrow> state c = StateADD_DIALING \<Longrightarrow> mutes_ok (dialThirdParty n (c\<lparr>digits := d\<rparr>))"
  by (auto simp: dial_defs mutes_simps)

lemma onDial_mutes: "mutes_ok c \<Longrightarrow> mutes_ok (onDial n c)"
  using dialThirdParty_mutes [of c n "digits c"]
  by (cases "state c") (simp_all add: onDial_def initiateCallAfterDelay_def mutes_simps)

lemma onKeyDialing_mutes:
  "mutes_ok c \<Longrightarrow> state c = StateDIALING \<Longrightarrow> mutes_ok (onKeyDialing e d c)"
  by (rule onKeyDialing_cases) (simp_all add: mutes_simps)

lemma onKey_mutes: "mutes_ok c \<Longrightarrow> mutes_ok (onKey e d c)"
proof (rule onKey_cases)
  show "mutes_ok c \<Longrightarrow> state c = StateDIALING \<Longrightarrow> mutes_ok (onKeyDialing e d c)"
    by (rule onKeyDialing_mutes)
  show "mutes_ok (dialThirdParty number (c\<lparr>digits := digits c @ d, digits := []\<rparr>))"
    if "mutes_ok c" "state c = StateADD_DIALING" for number
    using dialThirdParty_mutes [OF that] by simp
qed (simp_all add: mutes_simps initiateCallAfterDelay_def)

lemma uart_mutes:
  assumes "mutes_ok c"
  shows "mutes_ok (onHookOff c)" "mutes_ok (onHookOn c)" "mutes_ok (onTimeoutDialTone c)"
proof -
  show "mutes_ok (onHookOff c)"
    using assms by (cases "state c") (simp_all add: onHookOff_def initiateCallAfterDelay_def mutes_simps)
  show "mutes_ok (onHookOn c)"
  proof (cases "inConferenceFlow c")
    case True
    then show ?thesis using assms by (cases "state c = StateIDLE") (simp_all add: onHookOn_def mutes_simps)
  next
    case False
    then have "muted c = {}" using mutes_ok_case [OF assms]
      by (auto simp: inConferenceFlow_def addStates_def)
    then show ?thesis using assms by (simp add: onHookOn_def mutes_simps)
  qed
  show "mutes_ok (onTimeoutDialTone c)"
    using assms by (simp add: onTimeoutDialTone_def runPermanentSignalTreatment_def mutes_simps)
qed

lemma signal_mutes:
  assumes "mutes_ok c"
  shows "mutes_ok (onSignalRing e c)" "mutes_ok (onSignalAnswer s c)"
    "mutes_ok (onSignalHangup s r c)" "mutes_ok (onSignalBusy s c)" "mutes_ok (onSignalError s c)"
    "mutes_ok (snd (AbortVoicemailGreeting c))"
  using assms
  by (cases "state c"; auto simp: signal_defs mutes_simps)+

lemma onHookFlash_mutes:
  assumes "mutes_ok c" shows "mutes_ok (onHookFlash p c)"
proof -
  have flash: "mutes_ok (enterAddDialtone p c)" if "state c = StateCONNECTED"
    using assms that by (simp add: enterAddDialtone_def mutes_simps)
  have abort: "mutes_ok (abortAdd c)" if "state c \<in> addStates"
    using mutes_ok_case(2) [OF assms that] by (auto simp: abortAdd_def mutes_simps)
  have merge: "mutes_ok (requestMerge c)" if "state c \<in> addStates"
    using mutes_ok_case(2) [OF assms that] by (auto simp: requestMerge_def mutes_simps)
  show ?thesis
    using assms flash abort merge
    by (simp add: onHookFlash_def addStates_def split: phState.split)
qed

lemma conf_mutes:
  assumes "mutes_ok c"
  shows "mutes_ok (HandleConferenceMember x ms c)" "mutes_ok (HandleConferenceConnect x p i c)"
    "mutes_ok (HandleConferenceLeave x p r c)" "mutes_ok (HandleConferenceEnd x r c)"
    "mutes_ok (HandleConferenceRejected x r c)"
proof -
  show "mutes_ok (HandleConferenceMember x ms c)" "mutes_ok (HandleConferenceConnect x p i c)"
    using assms by (simp_all add: HandleConferenceMember_def HandleConferenceConnect_def mutes_ok_def)
  show "mutes_ok (HandleConferenceLeave x p r c)"
    using assms by (auto simp: HandleConferenceLeave_def mutes_ok_def)
  show "mutes_ok (HandleConferenceEnd x r c)"
    using assms by (simp add: HandleConferenceEnd_def runPermanentSignalTreatment_def mutes_simps)
  show "mutes_ok (HandleConferenceRejected x r c)"
  proof (cases "state c = StateCONFERENCE_MERGED")
    case True
    then have "muted c = {}" using assms by (simp add: mutes_simps)
    then show ?thesis
      using assms by (simp add: HandleConferenceRejected_def mutes_simps)
  qed (use assms in \<open>simp add: HandleConferenceRejected_def\<close>)
qed

lemma setter_mutes:
  assumes "mutes_ok c"
  shows "mutes_ok (SetSilentMode b c)" "mutes_ok (SetVoicemailRecording c)"
    "mutes_ok (snd (FinishGreetingAudition c))" "mutes_ok (CloseCtl c)"
    "mutes_ok (SetContactChecker cc c)" "mutes_ok (SetCallReturnNumber n c)"
    "mutes_ok (HandleCallReturnRing t c)"
  using assms
  by (simp_all add: setter_defs mutes_simps)

lemma handle_mutes:
  assumes inv: "mutes_ok c" and ok: "reset_ok (Handler e x) c"
  shows "mutes_ok (handle e x c)"
proof (rule handle_cases)
  show "x = EvReset \<Longrightarrow> mutes_ok (ResetCtl c)"
    using mutes_ok_case(1) [OF inv] ok by (simp add: ResetCtl_def mutes_simps)
  show "x = EvResetToDialtone \<Longrightarrow> mutes_ok (ResetToDialtone c)"
    using mutes_ok_case(1) [OF inv] ok by (simp add: ResetToDialtone_def mutes_simps)
qed (simp_all add: inv onDial_mutes onKey_mutes uart_mutes signal_mutes onHookFlash_mutes
    conf_mutes setter_mutes)

lemma task_step_mutes:
  "task_step e t c = (c', t') \<Longrightarrow> muted c' = muted c"
  by (induction e t c rule: task_step.induct)
    (auto simp: abortVoicemailLocked_def split: if_splits
      elim!: reject_step.elims add_err_step.elims treatment_step.elims)

lemma run_task_mutes: "mutes_ok c \<Longrightarrow> mutes_ok (run_task e i c)"
proof -
  assume inv: "mutes_ok c"
  obtain c' t' where st: "task_step e (tasks c ! i) c = (c', t')"
    by (cases "task_step e (tasks c ! i) c")
  have "mutes_ok c'"
    using task_step_state [OF st] inv task_step_mutes [OF st] task_step_frame [OF st]
    by (elim disjE conjE; simp add: mutes_simps)
  then show ?thesis
    using inv st by (auto simp: run_task_def mutes_ok_def split: option.split)
qed

interpretation mutes: invariant_machine ctl_move reset_ok mutes_ok
proof
  show "mutes_ok (ctl_move m c)" if "reset_ok m c" and "mutes_ok c" for m c
    using that by (cases m) (simp_all add: handle_mutes run_task_mutes)
qed


definition flash_moves :: "move list" where
  "flash_moves =
     [Handler idle_env (EvHandleSignal ''ring'' ''5550199''),
      Handler idle_env (EvHandleEvent ''HOOK:OFF''),
      Handler idle_env (EvHookFlash ''5550199'')]"


end
