(* ===== verification/Controller_Seq.thy ===== *)
theory Controller_Seq
  imports Controller_Tasks
begin

text \<open>
  The controller's timed sequences: the generation counters that make a superseded goroutine
  harmless, the off-hook treatment, the bounded wait for an announcement, the silence of an
  on-hook phone, and what hanging up and the end of a conference do on every branch.
\<close>

section \<open>Generation counters\<close>

fun ring_gens :: "task \<Rightarrow> 64 word set" where
  "ring_gens (TRingTimeout g) = {g}"
| "ring_gens (TAutoAnswer g) = {g}"
| "ring_gens (TAutoAnswerFailed g) = {g}"
| "ring_gens _ = {}"

fun treat_gens :: "task \<Rightarrow> 64 word set" where
  "treat_gens (TTreatment st s g) = {g}"
| "treat_gens _ = {}"

text \<open>A watcher that would auto-answer if it woke now, a treatment goroutine whose check holds.\<close>

fun live_ring :: "64 word \<Rightarrow> task \<Rightarrow> bool" where
  "live_ring r (TRingTimeout g) = (g = r)"
| "live_ring r _ = False"

fun live_treat :: "64 word \<Rightarrow> task \<Rightarrow> bool" where
  "live_treat r (TTreatment st s g) = (g = r)"
| "live_treat r _ = False"

text \<open>\<open>gens_ok n\<close>: the counters have been bumped at most \<open>n\<close> times.\<close>

definition gens_ok :: "nat \<Rightarrow> 64 word \<Rightarrow> 64 word \<Rightarrow> task list \<Rightarrow> bool" where
  "gens_ok n r t ts \<longleftrightarrow>
     unat r \<le> n \<and> unat t \<le> n
     \<and> (\<forall>u \<in> set ts. (\<forall>g \<in> ring_gens u. g \<le> r) \<and> (\<forall>g \<in> treat_gens u. g \<le> t))
     \<and> length (filter (live_ring r) ts) \<le> 1 \<and> length (filter (live_treat t) ts) \<le> 1"

abbreviation gens :: "nat \<Rightarrow> ctl \<Rightarrow> bool" where
  "gens n c \<equiv> gens_ok n (ringTimeoutGen c) (treatmentGen c) (tasks c)"

lemma bump:
  fixes x :: "64 word"
  assumes "unat x \<le> n" and "n < 2 ^ 64 - 1"
  shows "unat (x + 1) = unat x + 1" and "x < x + 1"
proof -
  have "unat x + 1 < 2 ^ LENGTH(64)" using assms by simp
  then show "unat (x + 1) = unat x + 1" by (metis unat_1 unat_add_lem)
  then show "x < x + 1" by (simp add: word_less_nat_alt)
qed

lemma live_ring_gens: "live_ring r u \<Longrightarrow> r \<in> ring_gens u"
  by (cases u) auto

lemma live_treat_gens: "live_treat r u \<Longrightarrow> r \<in> treat_gens u"
  by (cases u) auto

lemma no_live_ring:
  assumes "gens_ok n r t ts" and "n < 2 ^ 64 - 1"
  shows "filter (live_ring (r + 1)) ts = []"
proof -
  have "\<not> live_ring (r + 1) u" if "u \<in> set ts" for u
    using that assms bump [of r n] live_ring_gens [of "r + 1" u]
    unfolding gens_ok_def by (meson leD)
  then show ?thesis by (simp add: filter_empty_conv)
qed

lemma no_live_treat:
  assumes "gens_ok n r t ts" and "n < 2 ^ 64 - 1"
  shows "filter (live_treat (t + 1)) ts = []"
proof -
  have "\<not> live_treat (t + 1) u" if "u \<in> set ts" for u
    using that assms bump [of t n] live_treat_gens [of "t + 1" u]
    unfolding gens_ok_def by (meson leD)
  then show ?thesis by (simp add: filter_empty_conv)
qed

lemma gens_mono: "gens_ok n r t ts \<Longrightarrow> gens_ok (Suc n) r t ts"
  by (auto simp: gens_ok_def)

lemma gens_bump_ring:
  assumes "gens_ok n r t ts" and "n < 2 ^ 64 - 1"
  shows "gens_ok (Suc n) (r + 1) t ts"
proof -
  have le: "unat r \<le> n" using assms by (simp add: gens_ok_def)
  have "g \<le> r \<Longrightarrow> g \<le> r + 1" for g using bump(2) [OF le assms(2)] by simp
  then show ?thesis
    using assms no_live_ring [OF assms] bump(1) [OF le assms(2)] unfolding gens_ok_def by auto
qed

lemma gens_bump_treat:
  assumes "gens_ok n r t ts" and "n < 2 ^ 64 - 1"
  shows "gens_ok (Suc n) r (t + 1) ts"
proof -
  have le: "unat t \<le> n" using assms by (simp add: gens_ok_def)
  have "g \<le> t \<Longrightarrow> g \<le> t + 1" for g using bump(2) [OF le assms(2)] by simp
  then show ?thesis
    using assms no_live_treat [OF assms] bump(1) [OF le assms(2)] unfolding gens_ok_def by auto
qed

lemma gens_spawn_ring:
  assumes "gens_ok n r t ts" and "n < 2 ^ 64 - 1"
  shows "gens_ok (Suc n) (r + 1) t (ts @ [TRingTimeout (r + 1)])"
  using gens_bump_ring [OF assms] no_live_ring [OF assms]
  unfolding gens_ok_def by auto

lemma gens_spawn_treat:
  assumes "gens_ok n r t ts" and "n < 2 ^ 64 - 1"
  shows "gens_ok (Suc n) r (t + 1) (ts @ [TTreatment st s (t + 1)])"
  using gens_bump_treat [OF assms] no_live_treat [OF assms]
  unfolding gens_ok_def by auto

lemma gens_spawn_other:
  assumes "gens_ok n r t ts" and "ring_gens u = {}" and "treat_gens u = {}"
  shows "gens_ok n r t (ts @ [u])"
  using assms live_ring_gens [of r u] live_treat_gens [of t u]
  unfolding gens_ok_def by auto

lemmas gens_rules =
  gens_mono gens_bump_ring gens_bump_treat gens_spawn_ring gens_spawn_treat gens_spawn_other

lemma onKeyDialing_gens:
  "gens n c \<Longrightarrow> gens n (onKeyDialing e d c)"
  by (rule onKeyDialing_cases) (simp_all add: go_simps)

lemma dialThirdParty_gens: "gens n c \<Longrightarrow> gens n (dialThirdParty number c)"
  by (simp add: dialThirdParty_def initiateCallAfterDelay_def go_simps gens_spawn_other)

lemma onKey_gens: "gens n c \<Longrightarrow> gens n (onKey e d c)"
  by (rule onKey_cases)
    (simp_all add: onKeyDialing_gens dialThirdParty_gens initiateCallAfterDelay_def go_simps
      gens_spawn_other)

lemma onDial_gens: "gens n c \<Longrightarrow> gens n (onDial number c)"
  by (simp add: onDial_def dialThirdParty_gens initiateCallAfterDelay_def go_simps gens_spawn_other)

lemma treatment_gens:
  "gens n c \<Longrightarrow> n < 2 ^ 64 - 1 \<Longrightarrow> gens (Suc n) (runPermanentSignalTreatment s c)"
  by (simp add: runPermanentSignalTreatment_def go_simps Let_def gens_spawn_treat)

lemma uart_gens:
  assumes "gens n c" and "n < 2 ^ 64 - 1"
  shows "gens (Suc n) (onHookOff c)" "gens n (onHookOn c)" "gens (Suc n) (onTimeoutDialTone c)"
proof -
  show "gens (Suc n) (onHookOff c)"
    using assms gens_mono [OF assms(1)] gens_bump_ring [OF assms]
    by (simp add: onHookOff_def initiateCallAfterDelay_def go_simps Let_def gens_spawn_other
        split: phState.split)
  show "gens n (onHookOn c)"
    using assms by (simp add: onHookOn_def go_simps Let_def)
  show "gens (Suc n) (onTimeoutDialTone c)"
    using assms by (simp add: onTimeoutDialTone_def treatment_gens gens_mono)
qed

lemma signal_gens:
  assumes "gens n c" and "n < 2 ^ 64 - 1"
  shows "gens (Suc n) (onSignalRing e c)" "gens n (onSignalAnswer s c)"
    "gens (Suc n) (onSignalHangup s r c)" "gens n (onSignalBusy s c)" "gens n (onSignalError s c)"
    "gens n (snd (AbortVoicemailGreeting c))"
proof -
  show "gens (Suc n) (onSignalRing e c)"
    using gens_mono [OF assms(1)] gens_spawn_ring [OF assms]
    by (simp add: onSignalRing_def go_simps Let_def)
  show "gens (Suc n) (onSignalHangup s r c)"
    using gens_mono [OF assms(1)] gens_bump_ring [OF assms] assms
    by (simp add: onSignalHangup_def failAddLeg_def abortVoicemailLocked_def go_simps treatment_gens
        split: phState.split)
qed (use assms in \<open>simp_all add: signal_defs go_simps split: phState.split\<close>)

lemma conf_gens:
  assumes "gens n c" and "n < 2 ^ 64 - 1"
  shows "gens n (onHookFlash p c)" "gens n (HandleConferenceMember x ms c)"
    "gens n (HandleConferenceConnect x p i c)" "gens n (HandleConferenceLeave x p r c)"
    "gens (Suc n) (HandleConferenceEnd x r c)" "gens n (HandleConferenceRejected x r c)"
proof -
  show "gens n (onHookFlash p c)"
    using assms by (simp add: onHookFlash_def enterAddDialtone_def abortAdd_def requestMerge_def
        go_simps Let_def split: phState.split)
  show "gens (Suc n) (HandleConferenceEnd x r c)"
    using assms gens_mono [OF assms(1)]
    by (simp add: HandleConferenceEnd_def go_simps treatment_gens Let_def)
  show "gens n (HandleConferenceRejected x r c)"
    using assms by (simp add: HandleConferenceRejected_def go_simps Let_def)
qed (use assms in \<open>simp_all add: HandleConferenceMember_def HandleConferenceConnect_def
       HandleConferenceLeave_def go_simps gens_spawn_other\<close>)

lemma setter_gens:
  assumes "gens n c" and "n < 2 ^ 64 - 1"
  shows "gens n (SetSilentMode b c)" "gens n (SetVoicemailRecording c)"
    "gens n (snd (FinishGreetingAudition c))" "gens n (CloseCtl c)"
    "gens n (SetContactChecker cc c)" "gens n (SetCallReturnNumber m c)"
    "gens n (HandleCallReturnRing t c)" "gens (Suc n) (ResetCtl c)" "gens n (ResetToDialtone c)"
  using assms gens_bump_ring [OF assms]
  by (simp_all add: setter_defs go_simps Let_def)

lemma handle_gens:
  assumes inv: "gens n c" and n: "n < 2 ^ 64 - 1"
  shows "gens (Suc n) (handle e x c)"
  by (rule handle_cases)
    (simp_all add: inv gens_mono onDial_gens onKey_gens uart_gens [OF inv n] signal_gens [OF inv n]
      conf_gens [OF inv n] setter_gens [OF inv n])

lemma task_step_gens:
  "task_step e t c = (c', t') \<Longrightarrow>
     \<forall>u. t' = Some u \<longrightarrow> ring_gens u \<subseteq> ring_gens t \<and> treat_gens u \<subseteq> treat_gens t
       \<and> (live_ring r u \<longrightarrow> live_ring r t) \<and> (live_treat r u \<longrightarrow> live_treat r t)"
  by (induction e t c rule: task_step.induct)
    (auto split: if_splits on_err.splits await_res.splits
      elim!: reject_step.elims add_err_step.elims treatment_step.elims)

lemma filter_update_length:
  assumes "P y \<longrightarrow> P (xs ! i)" and "i < length xs"
  shows "length (filter P (xs[i := y])) \<le> length (filter P xs)"
proof -
  have xs: "xs = take i xs @ xs ! i # drop (Suc i) xs" using assms(2) by (simp add: id_take_nth_drop)
  have "xs[i := y] = take i xs @ y # drop (Suc i) xs" using assms(2) by (simp add: upd_conv_take_nth_drop)
  then have "length (filter P (xs[i := y]))
               = length (filter P (take i xs)) + (if P y then 1 else 0) + length (filter P (drop (Suc i) xs))"
    by simp
  also have "\<dots> \<le> length (filter P (take i xs)) + (if P (xs ! i) then 1 else 0) + length (filter P (drop (Suc i) xs))"
    using assms(1) by simp
  also have "\<dots> = length (filter P (take i xs @ xs ! i # drop (Suc i) xs))" by simp
  finally show ?thesis using xs by simp
qed

lemma run_task_gens:
  assumes "gens n c"
  shows "gens n (run_task e i c)"
proof (cases "i < length (tasks c)")
  case True
  obtain c' t' where st: "task_step e (tasks c ! i) c = (c', t')"
    by (cases "task_step e (tasks c ! i) c")
  note fr = task_step_frame [OF st]
  show ?thesis
  proof (cases t')
    case None
    have "length (filter P (remove_nth i (tasks c))) \<le> 1" if "length (filter P (tasks c)) \<le> 1" for P
      using filter_remove_nth_length [of P i "tasks c"] that by linarith
    then show ?thesis
      using assms None st fr True by (auto simp: run_task_def gens_ok_def)
  next
    case (Some u)
    have sub: "ring_gens u \<subseteq> ring_gens (tasks c ! i)" "treat_gens u \<subseteq> treat_gens (tasks c ! i)"
      and live: "live_ring r u \<longrightarrow> live_ring r (tasks c ! i)" "live_treat r u \<longrightarrow> live_treat r (tasks c ! i)"
      for r using task_step_gens [OF st] Some by auto
    have len: "length (filter (live_ring r) ((tasks c)[i := u])) \<le> 1"
      if "length (filter (live_ring r) (tasks c)) \<le> 1" for r
      using filter_update_length [OF live(1) True] that by (rule order_trans)
    have len': "length (filter (live_treat r) ((tasks c)[i := u])) \<le> 1"
      if "length (filter (live_treat r) (tasks c)) \<le> 1" for r
      using filter_update_length [OF live(2) True] that by (rule order_trans)
    have mem: "tasks c ! i \<in> set (tasks c)" using True by simp
    have "(\<forall>g \<in> ring_gens v. g \<le> ringTimeoutGen c) \<and> (\<forall>g \<in> treat_gens v. g \<le> treatmentGen c)"
      if "v \<in> set ((tasks c)[i := u])" for v
      using in_set_list_updateD [OF that] assms sub mem unfolding gens_ok_def by blast
    then show ?thesis
      using assms Some st fr True len len' by (simp add: run_task_def gens_ok_def)
  qed
qed (use assms in \<open>simp add: run_task_def\<close>)

lemma move_gens: "gens n c \<Longrightarrow> n < 2 ^ 64 - 1 \<Longrightarrow> gens (Suc n) (ctl_move m c)"
  by (cases m) (simp_all add: handle_gens gens_mono run_task_gens)

lemma run_gens:
  "gens n c \<Longrightarrow> n + length ms < 2 ^ 64 \<Longrightarrow> gens (n + length ms) (fold ctl_move ms c)"
proof (induction ms arbitrary: n c)
  case (Cons m ms)
  have "gens (Suc n) (ctl_move m c)" using Cons.prems by (intro move_gens) auto
  from Cons.IH [OF this] show ?case using Cons.prems by simp
qed simp

lemma gens_New: "gens 0 (NewController own)"
  by (simp add: NewController_def gens_ok_def)

text \<open>
  C11: However often the phone rings and the treatment starts, in any run of fewer than
  \<open>2 ^ 64\<close> moves at most one pending ring watcher carries the current generation (so at most
  one can auto-answer into voicemail) and at most one treatment goroutine can pass its check.
\<close>
theorem at_most_one_live_goroutine:
  assumes "length ms < 2 ^ 64"
    and "c = fold ctl_move ms (NewController own)"
  shows "length (filter (live_ring (ringTimeoutGen c)) (tasks c)) \<le> 1
       \<and> length (filter (live_treat (treatmentGen c)) (tasks c)) \<le> 1"
  using run_gens [OF gens_New, of ms own] assms by (simp add: gens_ok_def)

definition vm_env :: env where
  "vm_env = idle_env\<lparr>vm_enabled := True, vm_timeout := 20000\<rparr>"

definition ring_twice :: "move list" where
  "ring_twice =
     [Handler vm_env (EvHandleSignal ''ring'' ''5550199''),
      Handler vm_env (EvHandleSignal ''hangup'' ''5550199''),
      Handler vm_env (EvHandleSignal ''ring'' ''5550199'')]"

lemma ring_twice_tasks:
  "tasks (fold ctl_move ring_twice (NewController ''5551234'')) = [TRingTimeout 1, TRingTimeout 3]"
  by code_simp

lemma at_most_one_live_witness:
  "length (filter (live_ring (ringTimeoutGen (fold ctl_move ring_twice (NewController ''5551234''))))
      (tasks (fold ctl_move ring_twice (NewController ''5551234'')))) \<le> 1
   \<and> length (filter (live_treat (treatmentGen (fold ctl_move ring_twice (NewController ''5551234''))))
      (tasks (fold ctl_move ring_twice (NewController ''5551234'')))) \<le> 1"
  by (rule at_most_one_live_goroutine [of ring_twice _ "''5551234''"]) (simp_all add: ring_twice_def)

lemma filter_live_none: "filter (live_ring r) ts = [] \<longleftrightarrow> (\<forall>t \<in> set ts. \<not> live_ring r t)"
  by (simp add: filter_empty_conv)

text \<open>
  While the phone is ringing, picking up, the caller's hangup and \<open>Reset\<close> each disarm every
  pending ring watcher: after any of them no goroutine that is still asleep can auto-answer
  the call, in any state reached by fewer than \<open>2 ^ 64 - 1\<close> moves.
\<close>
theorem ring_watchers_disarmed:
  assumes "length ms < 2 ^ 64 - 1"
    and "c = fold ctl_move ms (NewController own)" and "state c = StateRINGING"
    and "m \<in> {Handler e (EvHandleEvent ''HOOK:OFF''), Handler e (EvHandleHangup s r), Handler e EvReset}"
  shows "\<not> list_ex (live_ring (ringTimeoutGen (ctl_move m c))) (tasks (ctl_move m c))"
proof -
  have g: "gens (length ms) c"
    using run_gens [OF gens_New, of ms own] assms(1,2) by simp
  have none: "\<forall>t \<in> set (tasks c). \<not> live_ring (ringTimeoutGen c + 1) t"
    using no_live_ring [OF g assms(1)] by (simp add: filter_live_none)
  have "ringTimeoutGen (ctl_move m c) = ringTimeoutGen c + 1"
    using assms(3,4) by (auto simp: HandleEvent_def uart_defs signal_defs ResetCtl_def go_simps Let_def)
  moreover have "set (tasks (ctl_move m c)) \<subseteq> set (tasks c) \<union> range (\<lambda>n. TAutoDial n StateCALLING OnErrReject)"
    using assms(3,4)
    by (auto simp: HandleEvent_def uart_defs signal_defs ResetCtl_def go_simps Let_def split: if_splits)
  ultimately show ?thesis
    using none by (fastforce simp: list_ex_iff)
qed

lemma ring_watchers_disarmed_witness:
  "\<not> list_ex (live_ring (ringTimeoutGen (ctl_move (Handler vm_env (EvHandleEvent ''HOOK:OFF''))
        (fold ctl_move ring_twice (NewController ''5551234'')))))
      (tasks (ctl_move (Handler vm_env (EvHandleEvent ''HOOK:OFF''))
        (fold ctl_move ring_twice (NewController ''5551234''))))"
proof (rule ring_watchers_disarmed [of ring_twice _ "''5551234''" _ vm_env "[]" "[]"])
  show "state (fold ctl_move ring_twice (NewController ''5551234'')) = StateRINGING"
    by code_simp
qed (simp_all add: ring_twice_def)

section \<open>The announcement wait\<close>

text \<open>
  \<open>awaitOneShot\<close> on its own: point \<open>i\<close> of the loop is executed with the answers \<open>e i\<close> and with
  \<open>keep i\<close> as the value of \<open>keepGoing\<close>; \<open>n\<close> bounds the number of points.
\<close>

fun await_run :: "ctl \<Rightarrow> (nat \<Rightarrow> env) \<Rightarrow> (nat \<Rightarrow> bool) \<Rightarrow> nat \<Rightarrow> nat \<Rightarrow> await \<Rightarrow> await_res" where
  "await_run c e keep i 0 a = AwNext a"
| "await_run c e keep i (Suc n) a =
     (case await_step (e i) c (keep i) a of
        AwNext a' \<Rightarrow> await_run c e keep (Suc i) n a'
      | AwDone b \<Rightarrow> AwDone b)"

lemma await_poll_done:
  assumes mono: "\<And>i. now (e i) \<le> now (e (Suc i))"
    and slept: "\<And>k. now (e (2 * k + 1)) + 200 \<le> now (e (2 * k + 2))"
    and left: "dl < now (e (2 * k)) + 200 * int m"
  shows "\<exists>b. await_run c e keep (2 * k + 1) (2 * m) (AwPoll dl) = AwDone b \<or> m = 0"
  using left
proof (induction m arbitrary: k)
  case (Suc m)
  show ?case
  proof (cases "once_playing (e (2 * k + 1)) \<and> (sleepOrDone (e (2 * k + 2)) c \<and> keep (2 * k + 2)
           \<and> \<not> now (e (2 * k + 2)) > dl)")
    case True
    have "now (e (2 * k)) + 200 \<le> now (e (2 * Suc k))"
      using mono [of "2 * k"] slept [of k] by simp
    then have "dl < now (e (2 * Suc k)) + 200 * int m" using Suc.prems by simp
    from Suc.IH [OF this] obtain b
      where b: "await_run c e keep (2 * Suc k + 1) (2 * m) (AwPoll dl) = AwDone b \<or> m = 0" by blast
    moreover have "m \<noteq> 0"
      using True mono [of "2 * k + 1"] slept [of k] Suc.prems mono [of "2 * k"] by (cases m) auto
    ultimately show ?thesis using True by auto
  next
    case False
    then show ?thesis by auto
  qed
qed simp

text \<open>
  C12: The wait for a spoken announcement always ends.  Whatever \<open>OncePlaying\<close> keeps answering,
  if every poll sleeps at least the poll interval, \<open>awaitOneShot\<close> has returned after at most
  76 polls (153 points), a little over the 15 second cap; a stuck mixer cannot hold the
  intercept sequence or the off-hook treatment forever.
\<close>
theorem awaitOneShot_returns:
  assumes "\<And>i. now (e i) \<le> now (e (Suc i))"
    and "\<And>k. now (e (2 * k + 1)) + RejectPollInterval defaultTiming \<le> now (e (2 * k + 2))"
  shows "\<exists>b. await_run c e keep 0 153 AwStart = AwDone b"
proof -
  have "\<exists>b. await_run c e keep (2 * 0 + 1) (2 * 76) (AwPoll (now (e 0) + oneShotMaxDuration)) = AwDone b \<or> (76::nat) = 0"
    by (rule await_poll_done) (use assms in \<open>simp_all add: defaultTiming_def oneShotMaxDuration_def\<close>)
  then obtain b where
    b: "await_run c e keep 1 152 (AwPoll (now (e 0) + oneShotMaxDuration)) = AwDone b" by auto
  have "await_run c e keep 0 (Suc 152) AwStart = AwDone b"
    using b by (simp only: await_run.simps await_step.simps await_res.case One_nat_def)
  moreover have "Suc 152 = (153 :: nat)" by simp
  ultimately show ?thesis by metis
qed

definition stuck_mixer :: "nat \<Rightarrow> env" where
  "stuck_mixer i = idle_env\<lparr>once_playing := True, now := 200 * int i\<rparr>"

lemma awaitOneShot_returns_witness:
  "\<exists>b. await_run (NewController []) stuck_mixer (\<lambda>_. True) 0 153 AwStart = AwDone b"
  by (rule awaitOneShot_returns) (simp_all add: stuck_mixer_def defaultTiming_def)

section \<open>The off-hook treatment\<close>

text \<open>
  One treatment goroutine in an arbitrary surrounding: at each of its points it sees the
  answers and the controller state of that moment.  The result is the list of tones it sends.
\<close>

fun sent_tones :: "ctl_out list \<Rightarrow> tone list" where
  "sent_tones [] = []"
| "sent_tones (Do (SendTone t) # xs) = t # sent_tones xs"
| "sent_tones (x # xs) = sent_tones xs"

fun treatment_tones ::
  "(env \<times> ctl) list \<Rightarrow> treatment_stage \<Rightarrow> phState \<Rightarrow> 64 word \<Rightarrow> tone list" where
  "treatment_tones [] st ts g = []"
| "treatment_tones ((e, c) # w) st ts g =
     (case treatment_step e st ts g (c\<lparr>out := []\<rparr>) of
        (c', Some (TTreatment st' ts' g')) \<Rightarrow> sent_tones (out c') @ treatment_tones w st' ts' g'
      | (c', _) \<Rightarrow> sent_tones (out c'))"

fun stage_tones :: "treatment_stage \<Rightarrow> tone list" where
  "stage_tones (TrAwait a) = [ToneReorder, ToneHowler, ToneStop]"
| "stage_tones TrInitial = [ToneReorder, ToneHowler, ToneStop]"
| "stage_tones TrReorder = [ToneReorder, ToneHowler, ToneStop]"
| "stage_tones TrReorderWait = [ToneHowler, ToneStop]"
| "stage_tones TrHowler = [ToneHowler, ToneStop]"
| "stage_tones TrHowlerWait = [ToneStop]"
| "stage_tones TrLockout = [ToneStop]"

lemma stillInTreatment_out [simp]: "stillInTreatment ts g (c\<lparr>out := x\<rparr>) = stillInTreatment ts g c"
  by (simp add: stillInTreatment_def)

lemma sleepOrDone_out [simp]: "sleepOrDone e (c\<lparr>out := x\<rparr>) = sleepOrDone e c"
  by (simp add: sleepOrDone_def)

lemma treatment_tones_prefix: "prefix (treatment_tones w st ts g) (stage_tones st)"
proof (induction w st ts g rule: treatment_tones.induct)
  case (2 e c w st ts g)
  then show ?case
    by (cases st) (auto simp: emit_def split: await_res.splits if_splits)
qed simp

text \<open>No announcement, and at every point the treatment state and generation still hold.\<close>

definition undisturbed :: "phState \<Rightarrow> 64 word \<Rightarrow> env \<times> ctl \<Rightarrow> bool" where
  "undisturbed ts g ec \<longleftrightarrow>
     \<not> once_playing (fst ec) \<and> \<not> closed (snd ec) \<and> stillInTreatment ts g (snd ec)"

text \<open>
  The off-hook treatment.  Whatever the rest of the controller does meanwhile, the tones
  one treatment goroutine sends are a prefix of reorder, howler, stop, in that order; if
  nothing disturbs it for its eight points it sends all three and ends.  Once the state or
  the generation has moved on when it wakes, it sends nothing more.
\<close>
theorem treatment_sequence:
  "prefix (treatment_tones w (TrAwait AwStart) ts g) [ToneReorder, ToneHowler, ToneStop]
   \<and> (list_all (undisturbed ts g) w \<and> length w \<ge> 8 \<longrightarrow>
        treatment_tones w (TrAwait AwStart) ts g = [ToneReorder, ToneHowler, ToneStop])
   \<and> (\<not> stillInTreatment ts g c \<longrightarrow>
        treatment_tones ((e, c) # w) TrInitial ts g = []
        \<and> treatment_tones ((e, c) # w) TrReorderWait ts g = []
        \<and> treatment_tones ((e, c) # w) TrHowlerWait ts g = [])"
proof (intro conjI impI)
  show "prefix (treatment_tones w (TrAwait AwStart) ts g) [ToneReorder, ToneHowler, ToneStop]"
    using treatment_tones_prefix [of w "TrAwait AwStart" ts g] by simp
next
  assume "list_all (undisturbed ts g) w \<and> length w \<ge> 8"
  then obtain a1 a2 a3 a4 a5 a6 a7 a8 v where w: "w = a1 # a2 # a3 # a4 # a5 # a6 # a7 # a8 # v"
    and u: "list_all (undisturbed ts g) [a1, a2, a3, a4, a5, a6, a7, a8]"
    by (auto simp: numeral_eq_Suc Suc_le_length_iff)
  show "treatment_tones w (TrAwait AwStart) ts g = [ToneReorder, ToneHowler, ToneStop]"
    using u unfolding w
    by (cases a1, cases a2, cases a3, cases a4, cases a5, cases a6, cases a7, cases a8)
      (simp add: undisturbed_def emit_def sleepOrDone_def)
qed (simp_all)

lemma treatment_sequence_witness:
  "treatment_tones (replicate 8 (idle_env,
      NewController [] \<lparr>state := StateREMOTE_HANGUP, treatmentGen := 1\<rparr>))
      (TrAwait AwStart) StateREMOTE_HANGUP 1 = [ToneReorder, ToneHowler, ToneStop]"
  using treatment_sequence [of "replicate 8 (idle_env,
      NewController [] \<lparr>state := StateREMOTE_HANGUP, treatmentGen := 1\<rparr>)" StateREMOTE_HANGUP 1]
  by (simp add: undisturbed_def idle_env_def NewController_def stillInTreatment_def
      list_all_iff del: replicate.simps)

end
