(* ===== verification/Controller_Hangup.thy ===== *)
theory Controller_Hangup
  imports Controller_Seq
begin

text \<open>
  The end of a call as the controller drives it: an on-hook phone is silent, what HOOK:ON and
  the end of a conference do on every branch, and the two races in which a goroutine that
  sends its tones without the lock breaks the silence or intrudes on a later call.
\<close>

section \<open>An on-hook phone is silent\<close>

fun tone_eff :: "ctl_out \<Rightarrow> bool \<Rightarrow> bool" where
  "tone_eff (Do (SendTone ToneStop)) b = False"
| "tone_eff (Do (SendTone ToneStopAll)) b = False"
| "tone_eff (Do (SendTone _)) b = True"
| "tone_eff _ b = b"

text \<open>The last tone the controller asked for has not been stopped.\<close>

definition tone_on :: "ctl \<Rightarrow> bool" where
  "tone_on c = fold tone_eff (out c) False"

text \<open>The pending calls are for an off-hook state.\<close>

fun task_offhook :: "task \<Rightarrow> bool" where
  "task_offhook (TAutoDial n s e) = (s \<in> {StateCALLING, StateADD_CALLING})"
| "task_offhook _ = True"

definition silent_ok :: "ctl \<Rightarrow> bool" where
  "silent_ok c \<longleftrightarrow>
     (onHookState (state c) \<longrightarrow> \<not> tone_on c) \<and> (\<forall>t \<in> set (tasks c). task_offhook t)"

text \<open>The points at which a goroutine starts a tone without holding the lock.\<close>

fun unlocked_tone :: "task \<Rightarrow> bool" where
  "unlocked_tone (TReject RjIntercept) = True"
| "unlocked_tone (TReject RjBusy) = True"
| "unlocked_tone (TAddErr AeIntercept) = True"
| "unlocked_tone (TTreatment TrReorder s g) = True"
| "unlocked_tone (TTreatment TrHowler s g) = True"
| "unlocked_tone _ = False"

text \<open>
  \<open>Reset\<close> changes only the state and leaves the tones to its caller, who must have stopped
  them; the unlocked tones are set aside.
\<close>
fun silence_move_ok :: "move \<Rightarrow> ctl \<Rightarrow> bool" where
  "silence_move_ok (Handler e EvReset) c = (\<not> tone_on c)"
| "silence_move_ok (Background e i) c =
     (if i < length (tasks c) then \<not> unlocked_tone (tasks c ! i) else True)"
| "silence_move_ok _ c = True"

lemma tone_on_emit [simp]: "tone_on (emit cbs c) = fold tone_eff (map Do cbs) (tone_on c)"
  by (simp add: tone_on_def emit_def)

lemma tone_on_emitGo [simp]: "tone_on (emitGo cb c) = tone_on c"
  by (simp add: tone_on_def emitGo_def)

lemma tone_on_spawn [simp]: "tone_on (spawn t c) = tone_on c"
  by (simp add: tone_on_def spawn_def)

lemma tone_on_upd [simp]:
  "tone_on (c\<lparr>state := s\<rparr>) = tone_on c" "tone_on (c\<lparr>digits := d\<rparr>) = tone_on c"
  "tone_on (c\<lparr>silentMode := b\<rparr>) = tone_on c" "tone_on (c\<lparr>treatmentGen := g\<rparr>) = tone_on c"
  "tone_on (c\<lparr>ringTimeoutGen := g\<rparr>) = tone_on c" "tone_on (c\<lparr>closed := b\<rparr>) = tone_on c"
  "tone_on (c\<lparr>confID := x\<rparr>) = tone_on c" "tone_on (c\<lparr>isConfHost := b\<rparr>) = tone_on c"
  "tone_on (c\<lparr>heldPeer := x\<rparr>) = tone_on c" "tone_on (c\<lparr>addingPeer := x\<rparr>) = tone_on c"
  "tone_on (c\<lparr>callReturnNumber := x\<rparr>) = tone_on c" "tone_on (c\<lparr>callReturnRinging := b\<rparr>) = tone_on c"
  "tone_on (c\<lparr>callReturnTarget := x\<rparr>) = tone_on c" "tone_on (c\<lparr>contactChecker := cc\<rparr>) = tone_on c"
  "tone_on (c\<lparr>tasks := ts\<rparr>) = tone_on c"
  by (simp_all add: tone_on_def)

lemma tasks_spawn [simp]: "tasks (spawn t c) = tasks c @ [t]" "tasks (emitGo cb c) = tasks c"
  by (simp_all add: spawn_def emitGo_def)

lemmas silent_simps = silent_ok_def onHookState_def Let_def

lemma onKeyDialing_silent:
  "silent_ok c \<Longrightarrow> state c = StateDIALING \<Longrightarrow> silent_ok (onKeyDialing e d c)"
  by (rule onKeyDialing_cases) (simp_all add: silent_simps)

lemma dialThirdParty_silent:
  "silent_ok c \<Longrightarrow> state c = StateADD_DIALING \<Longrightarrow> silent_ok (dialThirdParty n (c\<lparr>digits := d\<rparr>))"
  by (simp add: dial_defs silent_simps)

lemma onDial_silent: "silent_ok c \<Longrightarrow> silent_ok (onDial n c)"
  using dialThirdParty_silent [of c n "digits c"]
  by (cases "state c") (simp_all add: onDial_def initiateCallAfterDelay_def silent_simps)

lemma onKey_silent: "silent_ok c \<Longrightarrow> silent_ok (onKey e d c)"
proof (rule onKey_cases)
  show "silent_ok c \<Longrightarrow> state c = StateDIALING \<Longrightarrow> silent_ok (onKeyDialing e d c)"
    by (rule onKeyDialing_silent)
  show "silent_ok (dialThirdParty number (c\<lparr>digits := digits c @ d, digits := []\<rparr>))"
    if "silent_ok c" "state c = StateADD_DIALING" for number
    using dialThirdParty_silent [OF that] by simp
qed (simp_all add: silent_simps initiateCallAfterDelay_def)

lemma uart_silent:
  assumes "silent_ok c"
  shows "silent_ok (onHookOff c)" "silent_ok (onHookOn c)" "silent_ok (onTimeoutDialTone c)"
proof -
  show "silent_ok (onHookOff c)"
    using assms by (cases "state c") (simp_all add: onHookOff_def initiateCallAfterDelay_def silent_simps)
  show "silent_ok (onHookOn c)"
    using assms by (simp add: onHookOn_def silent_simps)
  show "silent_ok (onTimeoutDialTone c)"
    using assms by (simp add: onTimeoutDialTone_def runPermanentSignalTreatment_def silent_simps)
qed

lemma onSignalRing_silent: "silent_ok c \<Longrightarrow> silent_ok (onSignalRing e c)"
  by (simp add: onSignalRing_def silent_simps)

lemma onSignalAnswer_silent: "silent_ok c \<Longrightarrow> silent_ok (onSignalAnswer s c)"
  by (simp add: onSignalAnswer_def silent_simps split: phState.split)

lemma onSignalHangup_silent: "silent_ok c \<Longrightarrow> silent_ok (onSignalHangup s r c)"
  by (cases "state c")
    (simp_all add: onSignalHangup_def abortVoicemailLocked_def failAddLeg_def
      runPermanentSignalTreatment_def silent_simps)

lemma onSignalBusy_silent: "silent_ok c \<Longrightarrow> silent_ok (onSignalBusy s c)"
  by (cases "state c") (simp_all add: onSignalBusy_def failAddLeg_def silent_simps)

lemma onSignalError_silent: "silent_ok c \<Longrightarrow> silent_ok (onSignalError s c)"
  by (cases "state c") (simp_all add: onSignalError_def failAddLeg_def silent_simps)

lemma AbortVoicemailGreeting_silent: "silent_ok c \<Longrightarrow> silent_ok (snd (AbortVoicemailGreeting c))"
  by (simp add: AbortVoicemailGreeting_def abortVoicemailLocked_def silent_simps)

lemmas signal_silent = onSignalRing_silent onSignalAnswer_silent onSignalHangup_silent
  onSignalBusy_silent onSignalError_silent AbortVoicemailGreeting_silent

lemma conf_silent:
  assumes "silent_ok c"
  shows "silent_ok (onHookFlash p c)" "silent_ok (HandleConferenceMember x ms c)"
    "silent_ok (HandleConferenceConnect x p i c)" "silent_ok (HandleConferenceLeave x p r c)"
    "silent_ok (HandleConferenceEnd x r c)" "silent_ok (HandleConferenceRejected x r c)"
proof -
  show "silent_ok (onHookFlash p c)"
    using assms by (cases "state c")
      (simp_all add: onHookFlash_def enterAddDialtone_def abortAdd_def requestMerge_def silent_simps)
  show "silent_ok (HandleConferenceEnd x r c)"
    using assms by (simp add: HandleConferenceEnd_def runPermanentSignalTreatment_def silent_simps)
  show "silent_ok (HandleConferenceRejected x r c)"
    using assms by (simp add: HandleConferenceRejected_def silent_simps)
qed (use assms in \<open>simp_all add: HandleConferenceMember_def HandleConferenceConnect_def
       HandleConferenceLeave_def silent_simps\<close>)

lemma setter_silent:
  assumes "silent_ok c"
  shows "silent_ok (SetSilentMode b c)" "silent_ok (SetVoicemailRecording c)"
    "silent_ok (snd (FinishGreetingAudition c))" "silent_ok (CloseCtl c)"
    "silent_ok (SetContactChecker cc c)" "silent_ok (SetCallReturnNumber n c)"
    "silent_ok (HandleCallReturnRing t c)" "silent_ok (ResetToDialtone c)"
  using assms
  by (simp_all add: setter_defs silent_simps)

lemma handle_silent:
  assumes inv: "silent_ok c" and ok: "silence_move_ok (Handler e x) c"
  shows "silent_ok (handle e x c)"
proof (rule handle_cases)
  show "x = EvReset \<Longrightarrow> silent_ok (ResetCtl c)"
    using inv ok by (simp add: ResetCtl_def silent_simps)
qed (simp_all add: inv onDial_silent onKey_silent uart_silent signal_silent conf_silent setter_silent)

lemma onHookState_off [simp]:
  "\<not> onHookState StateCALLING" "\<not> onHookState StateADD_CALLING" "\<not> onHookState StateADD_INTERCEPT"
  by (simp_all add: onHookState_def)

lemma task_step_offhook:
  "task_step e t c = (c', Some u) \<Longrightarrow> task_offhook u"
  by (induction e t c rule: task_step.induct)
    (auto split: if_splits on_err.splits
      elim!: reject_step.elims add_err_step.elims treatment_step.elims split: await_res.splits)

text \<open>A goroutine step leaves the tone alone, stops it, or starts ringback off the hook.\<close>

lemma task_step_tone:
  "task_step e t c = (c', t') \<Longrightarrow> task_offhook t \<Longrightarrow> \<not> unlocked_tone t \<Longrightarrow>
     \<not> tone_on c' \<or> \<not> onHookState (state c') \<or> state c' = state c \<and> tone_on c' = tone_on c"
  by (induction e t c rule: task_step.induct)
    (auto simp: abortVoicemailLocked_def split: if_splits
      elim!: reject_step.elims add_err_step.elims treatment_step.elims)

lemma task_step_silent:
  "task_step e t c = (c', t') \<Longrightarrow> silent_ok c \<Longrightarrow> task_offhook t \<Longrightarrow> \<not> unlocked_tone t \<Longrightarrow>
     (onHookState (state c') \<longrightarrow> \<not> tone_on c') \<and> (\<forall>u. t' = Some u \<longrightarrow> task_offhook u)"
  using task_step_tone [of e t c c' t'] task_step_offhook [of e t c c']
  unfolding silent_ok_def by auto

lemma run_task_silent:
  assumes inv: "silent_ok c" and ok: "silence_move_ok (Background e i) c"
  shows "silent_ok (run_task e i c)"
proof (cases "i < length (tasks c)")
  case True
  obtain c' t' where st: "task_step e (tasks c ! i) c = (c', t')"
    by (cases "task_step e (tasks c ! i) c")
  have "task_offhook (tasks c ! i)" using inv True by (simp add: silent_ok_def)
  moreover have "\<not> unlocked_tone (tasks c ! i)" using ok True by simp
  ultimately have "onHookState (state c') \<longrightarrow> \<not> tone_on c'" "\<And>u. t' = Some u \<Longrightarrow> task_offhook u"
    using task_step_silent [OF st inv] by auto
  then show ?thesis
    using inv st True task_step_frame [OF st]
    by (auto simp: run_task_def silent_ok_def dest!: in_set_remove_nthD in_set_list_updateD
        split: option.split)
qed (use inv in \<open>simp add: run_task_def\<close>)

interpretation silence: invariant_machine ctl_move silence_move_ok silent_ok
proof
  show "silent_ok (ctl_move m c)" if "silence_move_ok m c" and "silent_ok c" for m c
    using that handle_silent run_task_silent by (cases m) simp_all
qed


definition hangup_moves :: "move list" where
  "hangup_moves = dial_moves ''5550199'' @ [Handler idle_env (EvHandleEvent ''HOOK:ON'')]"


section \<open>Hanging up\<close>

text \<open>
  What HOOK:ON does.  From every state but idle the controller becomes idle with every
  field of the call cleared; it stops the tone and the ringer and turns the LED off, in this
  order, after tearing the mesh down exactly when it was in a conference flow; and it then
  makes exactly one of: \<open>HangupCall\<close> for a live or ringing-out call, a voicemail answer, a
  greeting recording or a conference, the spawned \<open>OnCallReturnAbandon\<close> for a call-return
  dialogue, the exit of a playback or audition, or nothing.  In the idle state it does nothing.
\<close>
theorem hook_on_effect:
  "onHookOn c =
     (if state c = StateIDLE then c
      else c\<lparr>state := StateIDLE, digits := [], callReturnNumber := [], callReturnRinging := False,
             callReturnTarget := [], heldPeer := [], addingPeer := [], confID := [],
             isConfHost := False,
             out := out c
               @ (if inConferenceFlow c then [Do TearDownAllMeshPeers] else [])
               @ [Do (SendTone ToneStop), Do StopRing, Do (SendLED LEDOff)]
               @ (if wasConnectedOrCalling c \<or> inConferenceFlow c then [Do (HangupCall [])]
                  else case state c of
                    StateCALL_RETURN \<Rightarrow> [Go OnCallReturnAbandon]
                  | StateVOICEMAIL_PLAYBACK \<Rightarrow> [Do VoicemailExitPlayback]
                  | StateVOICEMAIL_PLAY_GREETING \<Rightarrow> [Do VoicemailExitGreetingPlayback]
                  | _ \<Rightarrow> [])\<rparr>)"
  by (cases "state c")
    (simp_all add: onHookOn_def go_simps Let_def wasConnectedOrCalling_def inConferenceFlow_def)

text \<open>
  The end of a conference, on every branch.  A message for another or no conference is
  ignored.  Otherwise the mesh and the call are torn down and the conference fields cleared;
  a phone in an add-party or merged state gets the off-hook treatment in REMOTE_HANGUP, and a
  phone in any other state, the connected state of a member that is not the host included,
  goes to idle without treatment although its handset may be off the hook.
\<close>
theorem conference_end_effect:
  "HandleConferenceEnd x r c =
     (if x = [] \<or> (confID c = x) = False then c
      else if state c \<in> addStates \<union> {StateCONFERENCE_MERGED} then
        c\<lparr>state := StateREMOTE_HANGUP, confID := [], isConfHost := False, heldPeer := [],
          addingPeer := [], treatmentGen := treatmentGen c + 1,
          out := out c @ [Do TearDownAllMeshPeers, Do (HangupCall []), Do (SendTone ToneStop)],
          tasks := tasks c @ [TTreatment (TrAwait AwStart) StateREMOTE_HANGUP (treatmentGen c + 1)]\<rparr>
      else
        c\<lparr>state := StateIDLE, confID := [], isConfHost := False, heldPeer := [], addingPeer := [],
          out := out c @ [Do TearDownAllMeshPeers, Do (HangupCall []), Do (SendTone ToneStop),
                          Do StopRing, Do (SendLED LEDOff)]\<rparr>)"
  by (auto simp add: HandleConferenceEnd_def runPermanentSignalTreatment_def go_simps Let_def
      addStates_def)

section \<open>Two races\<close>

text \<open>
  \<open>playRejectSequence\<close> and the off-hook treatment check the state under the lock and send the
  tone after releasing it.  A hang-up that falls between the two leaves the tone on an on-hook
  phone: the move that \<open>on_hook_silent\<close> sets aside.
\<close>

definition reject_race_moves :: "move list" where
  "reject_race_moves =
     dial_moves ''5550199''
     @ [Background idle_env 0, Background idle_env 0, Background idle_env 0,
        Background idle_env 0, Background idle_env 0,
        Handler idle_env (EvHandleEvent ''HOOK:ON''), Background idle_env 0]"

theorem busy_tone_after_hangup:
  "state (fold ctl_move reject_race_moves
      (SetContactChecker (Some (\<lambda>_. False)) (NewController ''5551234''))) = StateIDLE
   \<and> last (out (fold ctl_move reject_race_moves
      (SetContactChecker (Some (\<lambda>_. False)) (NewController ''5551234'')))) = Do (SendTone ToneBusy)"
  by code_simp

text \<open>
  \<open>playRejectSequence\<close> recognises its call only by the state CALLING, without a generation: a
  caller who hangs up on a rejected number and dials another one within the three seconds of
  \<open>RejectWait\<close> hears the intercept announcement over the new call.
\<close>

definition redial_moves :: "move list" where
  "redial_moves =
     [Handler idle_env (EvHandleEvent ''HOOK:OFF''), Handler idle_env (EvHandleEvent ''KEY:9''),
      Handler idle_env (EvHandleEvent ''DIAL:9990000''),
      Handler idle_env (EvHandleEvent ''HOOK:ON''),
      Handler idle_env (EvHandleEvent ''HOOK:OFF''), Handler idle_env (EvHandleEvent ''KEY:5''),
      Handler idle_env (EvHandleEvent ''DIAL:5550199''),
      Background idle_env 1, Background idle_env 0, Background idle_env 0, Background idle_env 0]"

theorem stale_intercept_over_new_call:
  "state (fold ctl_move redial_moves
      (SetContactChecker (Some (\<lambda>n. n = ''5550199'')) (NewController ''5551234''))) = StateCALLING
   \<and> drop 8 (out (fold ctl_move redial_moves
      (SetContactChecker (Some (\<lambda>n. n = ''5550199'')) (NewController ''5551234''))))
     = [Do (SendTone ToneDial), Do (SendLED LEDOn), Do (SendTone ToneStop),
        Do (SendTone ToneRingback), Do (InitiateCall ''5550199''),
        Do (SendTone ToneStop), Do (SendTone ToneIntercept)]"
  by code_simp

text \<open>A member of a conference that is not its host is left idle, off the hook, by its end.\<close>

definition member_end_moves :: "move list" where
  "member_end_moves =
     [Handler idle_env (EvHandleSignal ''ring'' ''5550199''),
      Handler idle_env (EvHandleEvent ''HOOK:OFF''),
      Handler idle_env (EvConfMember ''c1'' []),
      Handler idle_env (EvConfEnd ''c1'' ''host_hangup'')]"

theorem conference_end_idles_offhook_member:
  "state (fold ctl_move member_end_moves (NewController ''5551234'')) = StateIDLE
   \<and> tasks (fold ctl_move member_end_moves (NewController ''5551234'')) = []"
  by code_simp

end
