(* ===== verification/ServiceCodes.thy ===== *)
theory ServiceCodes
  imports Prelude "HOL-Library.Signed_Division"
begin

text \<open>
  The keypad consumers that run beside the controller, all of
  \<^verbatim>\<open>pi/digitsd/internal/phone\<close>: the hidden service codes (\<^verbatim>\<open>servicecodes.go\<close>), the easter eggs
  (\<^verbatim>\<open>eastereggs.go\<close>) and the press-star confirmation (\<^verbatim>\<open>confirm.go\<close>).
\<close>

section \<open>Service codes\<close>

datatype ServiceCodeResult = ServiceCodeNone | ServiceCodeTerminal | ServiceCodeNonTerminal

datatype sc_action = ScUpdate | ScFactoryReset | ScSetup | ScAudioTest | ScRepair | ScShutdown | ScReboot

text \<open>
  \<open>registered\<close> says which of the \<open>OnXxx\<close> fields is not nil; the two logs record the callbacks
  run with \<^verbatim>\<open>go\<close> and the volume levels set.
\<close>
record serviceCodeHandler =
  registered :: "sc_action \<Rightarrow> bool"
  onVolume :: bool
  buffer :: string
  ran :: "sc_action list"
  levels :: "nat list"

definition bufferMaxLen :: nat where "bufferMaxLen = 9"

record fixedCode =
  code :: string
  cbFor :: sc_action
  result :: ServiceCodeResult

definition fixedCodes :: "fixedCode list" where
  "fixedCodes =
    [ \<lparr>code = ''*#873283#'', cbFor = ScUpdate, result = ServiceCodeTerminal\<rparr>,
      \<lparr>code = ''*#00000#'', cbFor = ScFactoryReset, result = ServiceCodeTerminal\<rparr>,
      \<lparr>code = ''*#73887#'', cbFor = ScSetup, result = ServiceCodeTerminal\<rparr>,
      \<lparr>code = ''*#8378#'', cbFor = ScAudioTest, result = ServiceCodeNonTerminal\<rparr>,
      \<lparr>code = ''*#0*'', cbFor = ScRepair, result = ServiceCodeTerminal\<rparr>,
      \<lparr>code = ''*#*#'', cbFor = ScShutdown, result = ServiceCodeTerminal\<rparr>,
      \<lparr>code = ''*##*'', cbFor = ScReboot, result = ServiceCodeTerminal\<rparr> ]"

fun firstFixed :: "fixedCode list \<Rightarrow> string \<Rightarrow> fixedCode option" where
  "firstFixed [] b = None"
| "firstFixed (fc # fcs) b = (if hasSuffix b (code fc) then Some fc else firstFixed fcs b)"

text \<open>The digit of a volume code at the end of the buffer.\<close>

definition volumeSuffix :: "string \<Rightarrow> nat option" where
  "volumeSuffix b =
     (if length b \<ge> 4 then
        let last4 = drop (length b - 4) b in
        if hasPrefix last4 ''*#*'' then
          let ch = of_char (last4 ! 3) :: nat in
          if ch \<ge> 48 \<and> ch \<le> 57 then Some (ch - 48) else None
        else None
      else None)"

definition checkCode :: "serviceCodeHandler \<Rightarrow> ServiceCodeResult \<times> serviceCodeHandler" where
  "checkCode h =
     (case firstFixed fixedCodes (buffer h) of
        Some c \<Rightarrow>
          (result c,
           h\<lparr>ran := (if registered h (cbFor c) then ran h @ [cbFor c] else ran h), buffer := []\<rparr>)
      | None \<Rightarrow>
          (case volumeSuffix (buffer h) of
             Some level \<Rightarrow>
               (ServiceCodeNonTerminal,
                h\<lparr>levels := (if onVolume h then levels h @ [level] else levels h), buffer := []\<rparr>)
           | None \<Rightarrow> (ServiceCodeNone, h)))"

definition addKeyBuffer :: "string \<Rightarrow> string \<Rightarrow> string" where
  "addKeyBuffer b key =
     (let b' = b @ key in
      if length b' > bufferMaxLen then drop (length b' - bufferMaxLen) b' else b')"

definition AddKey :: "string \<Rightarrow> serviceCodeHandler \<Rightarrow> ServiceCodeResult \<times> serviceCodeHandler" where
  "AddKey key h = checkCode (h\<lparr>buffer := addKeyBuffer (buffer h) key\<rparr>)"

definition ResetCodes :: "serviceCodeHandler \<Rightarrow> serviceCodeHandler" where
  "ResetCodes h = h\<lparr>buffer := []\<rparr>"

definition InCode :: "serviceCodeHandler \<Rightarrow> bool" where
  "InCode h \<longleftrightarrow> length (buffer h) \<ge> 2 \<and> buffer h ! 0 = CHR ''*'' \<and> buffer h ! 1 = CHR ''#''"

definition NewServiceCodeHandler :: "(sc_action \<Rightarrow> bool) \<Rightarrow> bool \<Rightarrow> serviceCodeHandler" where
  "NewServiceCodeHandler reg vol =
     \<lparr>registered = reg, onVolume = vol, buffer = [], ran = [], levels = []\<rparr>"

text \<open>
  \<open>volumeToALSA\<close> for the ALSA range of the codec; Go's \<^verbatim>\<open>/\<close> truncates, as \<open>sdiv\<close> does.
\<close>
definition volumeToALSA :: "int \<times> int \<Rightarrow> int \<Rightarrow> int" where
  "volumeToALSA alsaRange level =
     (let level = (if level < 0 then 0 else level);
          level = (if level > 9 then 9 else level);
          (mn, mx) = alsaRange
      in mn + (level * (mx - mn)) sdiv 9)"

text \<open>Typing a sequence of keys, one character each.\<close>

fun typeKeys :: "string \<Rightarrow> serviceCodeHandler \<Rightarrow> ServiceCodeResult list \<times> serviceCodeHandler" where
  "typeKeys [] h = ([], h)"
| "typeKeys (k # ks) h =
     (let (r, h1) = AddKey [k] h; (rs, h2) = typeKeys ks h1 in (r # rs, h2))"

lemma addKeyBuffer_length: "length (addKeyBuffer b key) \<le> bufferMaxLen"
proof -
  have "length (drop (length x - n) x) \<le> n" for x :: string and n by simp
  then show ?thesis unfolding addKeyBuffer_def Let_def by (simp only: not_less split: if_split) blast
qed

lemma buffer_bound: "length (buffer (snd (AddKey key h))) \<le> bufferMaxLen"
  using addKeyBuffer_length [of "buffer h" key]
  by (simp add: AddKey_def checkCode_def split: option.split)

text \<open>A code that starts with a star is not a suffix that begins inside a run of digits.\<close>

definition digitString :: "string \<Rightarrow> bool" where
  "digitString s \<longleftrightarrow> (\<forall>c \<in> set s. c \<in> set ''0123456789'')"

lemma digitString_take: "digitString s \<Longrightarrow> digitString (take n s)"
  unfolding digitString_def by (blast dest: in_set_takeD)

lemma hasSuffix_digits:
  assumes "digitString pre" and "c \<notin> set ''0123456789''"
  shows "hasSuffix (pre @ q) (c # cs) = hasSuffix q (c # cs)"
proof
  assume "hasSuffix (pre @ q) (c # cs)"
  then obtain r where r: "pre @ q = r @ c # cs" by (auto simp: hasSuffix_iff)
  then obtain us where "pre @ us = r \<and> q = us @ c # cs \<or> pre = r @ us \<and> us @ q = c # cs"
    by (auto simp: append_eq_append_conv2)
  then show "hasSuffix q (c # cs)"
  proof
    assume a: "pre = r @ us \<and> us @ q = c # cs"
    show ?thesis
    proof (cases us)
      case (Cons u us')
      then have "c \<in> set pre" using a by auto
      then show ?thesis using assms unfolding digitString_def by blast
    qed (use a in \<open>auto simp: hasSuffix_iff\<close>)
  qed (auto simp: hasSuffix_iff)
qed (auto simp: hasSuffix_iff)

definition lastN :: "nat \<Rightarrow> 'a list \<Rightarrow> 'a list" where
  "lastN n xs = drop (length xs - n) xs"

lemma lastN_snoc: "0 < n \<Longrightarrow> lastN n (lastN n s @ [k]) = lastN n (s @ [k])"
  by (cases "length s < n") (auto simp: lastN_def Suc_diff_le not_less)

lemma addKeyBuffer_lastN: "addKeyBuffer (lastN bufferMaxLen s) [k] = lastN bufferMaxLen (s @ [k])"
proof -
  have "addKeyBuffer (lastN bufferMaxLen s) [k] = lastN bufferMaxLen (lastN bufferMaxLen s @ [k])"
    by (simp add: addKeyBuffer_def lastN_def Let_def)
  then show ?thesis by (simp add: lastN_snoc bufferMaxLen_def)
qed

lemma hasSuffix_lastN: "length c \<le> n \<Longrightarrow> hasSuffix (lastN n s) c = hasSuffix s c"
  by (auto simp: hasSuffix_def lastN_def)

lemma volumeSuffix_lastN: "volumeSuffix (lastN bufferMaxLen s) = volumeSuffix s"
  by (auto simp: volumeSuffix_def lastN_def bufferMaxLen_def Let_def)

lemma firstFixed_lastN:
  "(\<forall>fc \<in> set fcs. length (code fc) \<le> n) \<Longrightarrow> firstFixed fcs (lastN n s) = firstFixed fcs s"
  by (induction fcs) (auto simp: hasSuffix_lastN)

lemma fixedCodes_lastN: "firstFixed fixedCodes (lastN bufferMaxLen s) = firstFixed fixedCodes s"
  by (rule firstFixed_lastN) (simp add: fixedCodes_def bufferMaxLen_def)

text \<open>Whether the keys typed so far end in a code.\<close>

definition codeAtEnd :: "string \<Rightarrow> bool" where
  "codeAtEnd s \<longleftrightarrow> firstFixed fixedCodes s \<noteq> None \<or> volumeSuffix s \<noteq> None"

lemma AddKey_lastN:
  assumes "buffer h = lastN bufferMaxLen s"
    and "\<not> codeAtEnd (s @ [k])"
  shows "AddKey [k] h = (ServiceCodeNone, h\<lparr>buffer := lastN bufferMaxLen (s @ [k])\<rparr>)"
  using assms
  by (auto simp: AddKey_def checkCode_def codeAtEnd_def addKeyBuffer_lastN fixedCodes_lastN
      volumeSuffix_lastN)

lemma typeKeys_no_code:
  assumes "buffer h = lastN bufferMaxLen s"
    and "\<And>q r. ks = q @ r \<Longrightarrow> q \<noteq> [] \<Longrightarrow> \<not> codeAtEnd (s @ q)"
  shows "typeKeys ks h =
     (replicate (length ks) ServiceCodeNone, h\<lparr>buffer := lastN bufferMaxLen (s @ ks)\<rparr>)"
  using assms
proof (induction ks arbitrary: h s)
  case Nil
  then show ?case by simp
next
  case (Cons k ks)
  have "\<not> codeAtEnd (s @ [k])" using Cons.prems(2) [of "[k]" ks] by simp
  then have k: "AddKey [k] h = (ServiceCodeNone, h\<lparr>buffer := lastN bufferMaxLen (s @ [k])\<rparr>)"
    by (rule AddKey_lastN [OF Cons.prems(1)])
  have "typeKeys ks (h\<lparr>buffer := lastN bufferMaxLen (s @ [k])\<rparr>) =
     (replicate (length ks) ServiceCodeNone,
      h\<lparr>buffer := lastN bufferMaxLen (s @ [k])\<rparr>\<lparr>buffer := lastN bufferMaxLen ((s @ [k]) @ ks)\<rparr>)"
    by (rule Cons.IH) (use Cons.prems(2) in \<open>auto dest: spec [of _ "k # _"]\<close>)
  then show ?case using k by simp
qed

lemma typeKeys_append:
  "typeKeys (xs @ ys) h =
     (let (r1, h1) = typeKeys xs h; (r2, h2) = typeKeys ys h1 in (r1 @ r2, h2))"
  by (induction xs arbitrary: h) (auto split: prod.split)

lemma firstFixed_digits:
  assumes "digitString pre" and "\<forall>fc \<in> set fcs. \<exists>cs. code fc = CHR ''*'' # cs"
  shows "firstFixed fcs (pre @ q) = firstFixed fcs q"
  using assms(2)
proof (induction fcs)
  case (Cons fc fcs)
  obtain cs where "code fc = CHR ''*'' # cs" using Cons.prems by auto
  then show ?case using Cons hasSuffix_digits [OF assms(1), of "CHR ''*''" q cs] by simp
qed simp

lemma volumeSuffix_Some:
  "volumeSuffix s = Some l \<longleftrightarrow> hasSuffix s (''*#*'' @ [char_of (l + 48)]) \<and> l \<le> 9"
proof
  assume v: "volumeSuffix s = Some l"
  define last4 where "last4 = drop (length s - 4) s"
  have len: "length s \<ge> 4" and pre: "hasPrefix last4 ''*#*''"
    and d: "l = of_char (last4 ! 3) - (48 :: nat)" "of_char (last4 ! 3) \<ge> (48 :: nat)"
      "of_char (last4 ! 3) \<le> (57 :: nat)"
    using v by (auto simp: volumeSuffix_def last4_def Let_def split: if_splits)
  obtain x where x: "last4 = ''*#*'' @ x" using pre by (auto simp: hasPrefix_iff)
  have "length last4 = 4" using len by (simp add: last4_def)
  then obtain ch where ch: "x = [ch]" using x by (auto simp: length_Suc_conv)
  have "char_of (l + 48) = ch" using d x ch by simp
  moreover have "s = take (length s - 4) s @ last4" by (simp add: last4_def)
  ultimately show "hasSuffix s (''*#*'' @ [char_of (l + 48)]) \<and> l \<le> 9"
    using x ch d by (auto simp: hasSuffix_iff)
next
  assume a: "hasSuffix s (''*#*'' @ [char_of (l + 48)]) \<and> l \<le> 9"
  then obtain r where "s = r @ ''*#*'' @ [char_of (l + 48)]" by (auto simp: hasSuffix_iff)
  then show "volumeSuffix s = Some l"
    using a by (simp add: volumeSuffix_def hasPrefix_def Let_def)
qed

lemma volumeSuffix_digits:
  assumes "digitString pre"
  shows "volumeSuffix (pre @ q) = volumeSuffix q"
proof -
  have "volumeSuffix (pre @ q) = Some l \<longleftrightarrow> volumeSuffix q = Some l" for l
    using hasSuffix_digits [OF assms, of "CHR ''*''" q] by (simp add: volumeSuffix_Some)
  then show ?thesis by (metis option.exhaust)
qed

lemma fixedCodes_star: "\<forall>fc \<in> set fixedCodes. \<exists>cs. code fc = CHR ''*'' # cs"
  by (simp add: fixedCodes_def)

lemma fixedCodes_digits: "digitString pre \<Longrightarrow> firstFixed fixedCodes (pre @ q) = firstFixed fixedCodes q"
  by (rule firstFixed_digits [OF _ fixedCodes_star])

lemma codeAtEnd_digits: "digitString pre \<Longrightarrow> codeAtEnd (pre @ q) = codeAtEnd q"
  by (simp add: codeAtEnd_def volumeSuffix_digits fixedCodes_digits)

lemma fixedCodes_no_early_match:
  "list_all (\<lambda>fc. list_all (\<lambda>n. \<not> codeAtEnd (take n (code fc))) [1..<length (code fc)]) fixedCodes"
  by code_simp

lemma fixedCodes_match:
  "list_all (\<lambda>fc. firstFixed fixedCodes (code fc) = Some fc \<and> code fc \<noteq> []) fixedCodes"
  by code_simp



text \<open>
  \<open>InCode\<close> looks at the first two keys of the rolling buffer: once digits precede the code it
  answers false in the middle of a code that is then recognised.
\<close>
theorem inCode_misses_code_after_digits:
  "InCode (snd (typeKeys ''5*#*'' (NewServiceCodeHandler (\<lambda>_. True) True))) = False
   \<and> fst (AddKey ''3'' (snd (typeKeys ''5*#*'' (NewServiceCodeHandler (\<lambda>_. True) True))))
       = ServiceCodeNonTerminal"
  by code_simp

section \<open>Easter eggs\<close>

record timedKey =
  tkKey :: string
  tkWhen :: int

record easterEgg =
  eggTrigger :: string
  eggClip :: string

text \<open>Durations and times in milliseconds; \<open>played\<close> is the log of \<^verbatim>\<open>go d.play(clip)\<close>.\<close>

record eggDetector =
  eggs :: "easterEgg list"
  maxLen :: nat
  ebuf :: "timedKey list"
  tainted :: bool
  hasPlay :: bool
  played :: "string list"
  MaxGap :: int
  MinGap :: int

definition NewEasterEggDetector :: "easterEgg list \<Rightarrow> bool \<Rightarrow> eggDetector" where
  "NewEasterEggDetector es play =
     \<lparr>eggs = es, maxLen = fold (\<lambda>e m. if length (eggTrigger e) > m then length (eggTrigger e) else m) es 0,
      ebuf = [], tainted = False, hasPlay = play, played = [], MaxGap = 5000, MinGap = 100\<rparr>"

definition sequenceOf :: "timedKey list \<Rightarrow> string" where
  "sequenceOf ks = map (\<lambda>k. if length (tkKey k) > 0 then tkKey k ! 0 else CHR 0x00) ks"

fun firstEgg :: "easterEgg list \<Rightarrow> string \<Rightarrow> easterEgg option" where
  "firstEgg [] sq = None"
| "firstEgg (e # es) sq = (if sq = eggTrigger e then Some e else firstEgg es sq)"

definition gapBad :: "eggDetector \<Rightarrow> int \<Rightarrow> bool" where
  "gapBad d t \<longleftrightarrow>
     ebuf d \<noteq> [] \<and> (let gap = t - tkWhen (last (ebuf d)) in gap > MaxGap d \<or> gap < MinGap d)"

definition eggAddKey :: "int \<Rightarrow> string \<Rightarrow> eggDetector \<Rightarrow> bool \<times> eggDetector" where
  "eggAddKey t key d =
     (if tainted d then (False, d)
      else if gapBad d t then (False, d\<lparr>tainted := True, ebuf := []\<rparr>)
      else
        let d = d\<lparr>ebuf := ebuf d @ [\<lparr>tkKey = key, tkWhen = t\<rparr>]\<rparr> in
        if length (ebuf d) > maxLen d then (False, d\<lparr>tainted := True, ebuf := []\<rparr>)
        else case firstEgg (eggs d) (sequenceOf (ebuf d)) of
               None \<Rightarrow> (False, d)
             | Some e \<Rightarrow>
                 (True, d\<lparr>ebuf := [], played := (if hasPlay d then played d @ [eggClip e] else played d)\<rparr>))"

definition eggReset :: "eggDetector \<Rightarrow> eggDetector" where
  "eggReset d = d\<lparr>ebuf := [], tainted := False\<rparr>"

fun typeTimed :: "(int \<times> string) list \<Rightarrow> eggDetector \<Rightarrow> bool list \<times> eggDetector" where
  "typeTimed [] d = ([], d)"
| "typeTimed ((t, k) # ks) d =
     (let (r, d1) = eggAddKey t k d; (rs, d2) = typeTimed ks d1 in (r # rs, d2))"

fun gapsOk :: "int \<Rightarrow> int \<Rightarrow> (int \<times> string) list \<Rightarrow> bool" where
  "gapsOk mn mx ((t, k) # (u, l) # ks) \<longleftrightarrow> mn \<le> u - t \<and> u - t \<le> mx \<and> gapsOk mn mx ((u, l) # ks)"
| "gapsOk mn mx _ \<longleftrightarrow> True"

lemma typeTimed_append:
  "typeTimed (xs @ ys) d =
     (let (r1, d1) = typeTimed xs d; (r2, d2) = typeTimed ys d1 in (r1 @ r2, d2))"
  by (induction xs d rule: typeTimed.induct) (auto split: prod.split)

lemma gapsOk_snoc:
  "gapsOk mn mx (ks @ [(t, k), (u, l)]) \<longleftrightarrow> gapsOk mn mx (ks @ [(t, k)]) \<and> mn \<le> u - t \<and> u - t \<le> mx"
  by (induction mn mx ks rule: gapsOk.induct) auto

text \<open>The state after keys none of which triggered: either tainted or the whole run is buffered.\<close>

lemma typeTimed_no_egg:
  assumes "True \<notin> set (fst (typeTimed ks d))" and "ebuf d = []" and "\<not> tainted d"
  shows "(let d' = snd (typeTimed ks d) in
           eggs d' = eggs d \<and> maxLen d' = maxLen d \<and> MinGap d' = MinGap d \<and> MaxGap d' = MaxGap d
           \<and> (\<not> tainted d' \<longrightarrow> ebuf d' = map (\<lambda>(t, k). \<lparr>tkKey = k, tkWhen = t\<rparr>) ks
                             \<and> gapsOk (MinGap d) (MaxGap d) ks))"
  using assms(1)
proof (induction ks rule: rev_induct)
  case Nil
  then show ?case using assms by simp
next
  case (snoc x ks)
  obtain t k where x: "x = (t, k)" by (cases x)
  have no: "True \<notin> set (fst (typeTimed ks d))"
    using snoc.prems by (auto simp: typeTimed_append split: prod.splits)
  define d' where "d' = snd (typeTimed ks d)"
  have last: "snd (typeTimed (ks @ [x]) d) = snd (eggAddKey t k d')"
    and r: "\<not> fst (eggAddKey t k d')"
    using snoc.prems by (auto simp: typeTimed_append x d'_def split: prod.splits)
  note IH = snoc.IH [OF no, folded d'_def, unfolded Let_def]
  have gap: "gapsOk (MinGap d) (MaxGap d) (ks @ [(t, k)])" if "\<not> tainted d'" "\<not> gapBad d' t"
  proof (cases ks rule: rev_cases)
    case (snoc ys y)
    obtain u l where y: "y = (u, l)" by (cases y)
    show ?thesis
      using IH that unfolding snoc y by (simp add: gapsOk_snoc gapBad_def Let_def)
  qed simp
  show ?case
    using IH r gap unfolding x last [unfolded x] eggAddKey_def Let_def
    by (auto split: option.splits if_splits)
qed

lemma typeTimed_played:
  "True \<notin> set (fst (typeTimed ks d)) \<Longrightarrow>
     played (snd (typeTimed ks d)) = played d \<and> hasPlay (snd (typeTimed ks d)) = hasPlay d"
proof (induction ks d rule: typeTimed.induct)
  case (2 t k ks d)
  then show ?case
    by (auto simp: eggAddKey_def Let_def split: prod.splits if_splits option.splits)
qed simp

lemma firstEgg_Some: "firstEgg es sq = Some e \<Longrightarrow> e \<in> set es \<and> eggTrigger e = sq"
  by (induction es) (auto split: if_splits)

text \<open>
  An easter egg plays only for its own keys, first and in rhythm.  If, on a fresh detector,
  the first key that triggers anything is the last one typed, then the keys typed are exactly
  the trigger of one of the eggs, one after the other from the very first key, and every gap
  between two of them lies between \<open>MinGap\<close> and \<open>MaxGap\<close>; the clip played is that egg's.
\<close>
theorem easter_egg_exact:
  assumes "typeTimed (ks @ [(t, k)]) (NewEasterEggDetector es True) = (rs @ [True], d')"
    and "True \<notin> set rs"
  shows "\<exists>e \<in> set es. eggTrigger e = sequenceOf (map (\<lambda>(t, k). \<lparr>tkKey = k, tkWhen = t\<rparr>) (ks @ [(t, k)]))
           \<and> gapsOk 100 5000 (ks @ [(t, k)]) \<and> played d' = [eggClip e]"
proof -
  let ?d = "NewEasterEggDetector es True"
  define d1 where "d1 = snd (typeTimed ks ?d)"
  have rs: "fst (typeTimed ks ?d) = rs" and key: "eggAddKey t k d1 = (True, d')"
    using assms(1) by (auto simp: typeTimed_append d1_def split: prod.splits)
  have fresh: "ebuf ?d = []" "\<not> tainted ?d" "eggs ?d = es" "MinGap ?d = 100" "MaxGap ?d = 5000"
    "played ?d = []" "hasPlay ?d"
    by (simp_all add: NewEasterEggDetector_def)
  note inv = typeTimed_no_egg [of ks ?d, folded d1_def, unfolded rs Let_def, OF assms(2) fresh(1,2)]
  have np: "played d1 = [] \<and> hasPlay d1"
    using typeTimed_played [of ks ?d] assms(2) rs fresh unfolding d1_def by simp
  from key obtain e where nt: "\<not> tainted d1" "\<not> gapBad d1 t"
    and e: "firstEgg (eggs d1) (sequenceOf (ebuf d1 @ [\<lparr>tkKey = k, tkWhen = t\<rparr>])) = Some e"
    and pl: "played d' = [eggClip e]"
    using np by (auto simp: eggAddKey_def Let_def split: if_splits option.splits)
  have "gapsOk 100 5000 (ks @ [(t, k)])"
  proof (cases ks rule: rev_cases)
    case (snoc ys y)
    obtain u l where y: "y = (u, l)" by (cases y)
    show ?thesis using inv nt fresh unfolding snoc y by (simp add: gapsOk_snoc gapBad_def Let_def)
  qed simp
  moreover have "e \<in> set es \<and> eggTrigger e = sequenceOf (map (\<lambda>(t, k). \<lparr>tkKey = k, tkWhen = t\<rparr>) (ks @ [(t, k)]))"
    using firstEgg_Some [OF e] inv nt fresh by simp
  ultimately show ?thesis using pl by auto
qed

lemma easter_egg_witness:
  "\<exists>e \<in> set [\<lparr>eggTrigger = ''00'', eggClip = ''operator''\<rparr>].
     eggTrigger e = sequenceOf (map (\<lambda>(t, k). \<lparr>tkKey = k, tkWhen = t\<rparr>) ([(1000, ''0'')] @ [(1200, ''0'')]))
     \<and> gapsOk 100 5000 ([(1000, ''0'')] @ [(1200, ''0'')])
     \<and> played (snd (typeTimed ([(1000, ''0'')] @ [(1200, ''0'')])
          (NewEasterEggDetector [\<lparr>eggTrigger = ''00'', eggClip = ''operator''\<rparr>] True))) = [eggClip e]"
  by (rule easter_egg_exact [where rs = "[False]"])
    (simp_all add: NewEasterEggDetector_def eggAddKey_def gapBad_def sequenceOf_def Let_def)

section \<open>Press-star confirmation\<close>

text \<open>
  \<open>Confirmer\<close>.  Closures are named by numbers.  A timer is named by a number too: \<open>scheduled\<close>
  are those whose time has not come, \<open>waiting\<close> the goroutines \<^verbatim>\<open>time.AfterFunc\<close> has already
  started, which \<open>Stop\<close> can no longer prevent.  \<open>outcomes\<close> logs what became of an action.
\<close>

datatype outcome = Fired nat | TimedOut nat "nat option" | Cancelled nat

record confirmer =
  action :: "nat option"
  onTimeout :: "nat option"
  timer :: "nat option"
  nextTimer :: nat
  scheduled :: "nat list"
  waiting :: "nat list"
  armed :: "nat list"
  outcomes :: "outcome list"

definition NewConfirmer :: confirmer where
  "NewConfirmer = \<lparr>action = None, onTimeout = None, timer = None, nextTimer = 0, scheduled = [],
                   waiting = [], armed = [], outcomes = []\<rparr>"

definition Arm :: "nat \<Rightarrow> nat option \<Rightarrow> confirmer \<Rightarrow> bool \<times> confirmer" where
  "Arm act tmo c =
     (if action c \<noteq> None then (False, c)
      else (True, c\<lparr>action := Some act, onTimeout := tmo, timer := Some (nextTimer c),
                    nextTimer := Suc (nextTimer c), scheduled := scheduled c @ [nextTimer c],
                    armed := armed c @ [act]\<rparr>))"

text \<open>The clock: the time of a scheduled timer comes and its goroutine starts.\<close>
definition expire :: "nat \<Rightarrow> confirmer \<Rightarrow> confirmer" where
  "expire t c = (if t \<in> set (scheduled c)
                 then c\<lparr>scheduled := removeAll t (scheduled c), waiting := waiting c @ [t]\<rparr> else c)"

definition timeoutFire :: "confirmer \<Rightarrow> confirmer" where
  "timeoutFire c =
     (case action c of
        None \<Rightarrow> c
      | Some act \<Rightarrow> c\<lparr>action := None, onTimeout := None, timer := None,
                      outcomes := outcomes c @ [TimedOut act (onTimeout c)]\<rparr>)"

text \<open>The first waiting goroutine gets the lock.\<close>
definition runTimeout :: "confirmer \<Rightarrow> confirmer" where
  "runTimeout c = (case waiting c of [] \<Rightarrow> c | t # ts \<Rightarrow> timeoutFire (c\<lparr>waiting := ts\<rparr>))"

definition stopTimer :: "confirmer \<Rightarrow> confirmer" where
  "stopTimer c = (case timer c of None \<Rightarrow> c
                  | Some t \<Rightarrow> c\<lparr>scheduled := removeAll t (scheduled c), timer := None\<rparr>)"

definition FireConfirm :: "confirmer \<Rightarrow> confirmer" where
  "FireConfirm c =
     (let act = action c; c = stopTimer (c\<lparr>action := None, onTimeout := None\<rparr>)
      in case act of None \<Rightarrow> c | Some a \<Rightarrow> c\<lparr>outcomes := outcomes c @ [Fired a]\<rparr>)"

text \<open>\<open>Cancel\<close> runs nothing; the log entry is ours.\<close>
definition CancelConfirm :: "confirmer \<Rightarrow> confirmer" where
  "CancelConfirm c =
     (let act = action c; c = stopTimer (c\<lparr>action := None, onTimeout := None\<rparr>)
      in case act of None \<Rightarrow> c | Some a \<Rightarrow> c\<lparr>outcomes := outcomes c @ [Cancelled a]\<rparr>)"

definition ActiveConfirm :: "confirmer \<Rightarrow> bool" where
  "ActiveConfirm c \<longleftrightarrow> action c \<noteq> None"

datatype confirm_move = CmArm nat "nat option" | CmExpire nat | CmRunTimeout | CmFire | CmCancel

fun confirm_step :: "confirm_move \<Rightarrow> confirmer \<Rightarrow> confirmer" where
  "confirm_step (CmArm a t) c = snd (Arm a t c)"
| "confirm_step (CmExpire t) c = expire t c"
| "confirm_step CmRunTimeout c = runTimeout c"
| "confirm_step CmFire c = FireConfirm c"
| "confirm_step CmCancel c = CancelConfirm c"

fun outcome_action :: "outcome \<Rightarrow> nat" where
  "outcome_action (Fired a) = a"
| "outcome_action (TimedOut a t) = a"
| "outcome_action (Cancelled a) = a"

definition confirm_ok :: "confirmer \<Rightarrow> bool" where
  "confirm_ok c \<longleftrightarrow>
     armed c = map outcome_action (outcomes c) @ (case action c of None \<Rightarrow> [] | Some a \<Rightarrow> [a])
     \<and> (timer c \<noteq> None \<longleftrightarrow> action c \<noteq> None)"

lemma confirm_step_ok: "confirm_ok c \<Longrightarrow> confirm_ok (confirm_step m c)"
  by (cases m)
    (auto simp: confirm_ok_def Arm_def expire_def runTimeout_def timeoutFire_def stopTimer_def
      FireConfirm_def CancelConfirm_def Let_def split: option.splits list.splits)

interpretation confirm: invariant_machine confirm_step "\<lambda>_ _. True" confirm_ok
  by unfold_locales (rule confirm_step_ok)

text \<open>
  A confirmation is settled exactly once.  After any sequence of arming, firing,
  cancelling, timer expiries and timer goroutines, the actions ever armed are, in order, the
  actions that were fired, timed out or cancelled, followed by the pending one; so no action
  both fires and times out, none does either twice, and none is lost.
\<close>
theorem confirm_settled_once:
  "armed (fold confirm_step ms NewConfirmer)
     = map outcome_action (outcomes (fold confirm_step ms NewConfirmer))
       @ (case action (fold confirm_step ms NewConfirmer) of None \<Rightarrow> [] | Some a \<Rightarrow> [a])"
proof -
  have "confirm_ok NewConfirmer" by (simp add: confirm_ok_def NewConfirmer_def)
  from confirm.run_inv_all [OF this, of ms] show ?thesis by (simp add: confirm_ok_def)
qed

text \<open>
  A timer goroutine that is already waiting for the lock when its action is fired settles the
  next action that is armed: that one times out at once, while its own timer is still running.
\<close>
theorem stale_timer_times_out_next_action:
  "outcomes (fold confirm_step [CmArm 1 (Some 10), CmExpire 0, CmFire, CmArm 2 (Some 20), CmRunTimeout]
     NewConfirmer) = [Fired 1, TimedOut 2 (Some 20)]
   \<and> scheduled (fold confirm_step [CmArm 1 (Some 10), CmExpire 0, CmFire, CmArm 2 (Some 20), CmRunTimeout]
     NewConfirmer) = [1]"
  by code_simp

end
