(* ===== verification/GoMap.thy ===== *)
theory GoMap
  imports Prelude "HOL-Library.AList"
begin

text \<open>
  Go maps as association lists.  The keys are distinct (\<open>mwf\<close>) and their order is arbitrary,
  as Go's iteration order is; \<^const>\<open>map_of\<close> is the lookup, \<open>mput\<close> the assignment, \<open>mdel\<close> the
  \<^verbatim>\<open>delete\<close>, \<open>mhas\<close> the second result of a lookup.
\<close>

definition mput :: "'k \<Rightarrow> 'v \<Rightarrow> ('k \<times> 'v) list \<Rightarrow> ('k \<times> 'v) list" where
  "mput k v m = AList.update k v m"

definition mdel :: "'k \<Rightarrow> ('k \<times> 'v) list \<Rightarrow> ('k \<times> 'v) list" where
  "mdel k m = AList.delete k m"

definition mhas :: "'k \<Rightarrow> ('k \<times> 'v) list \<Rightarrow> bool" where
  "mhas k m \<longleftrightarrow> map_of m k \<noteq> None"

abbreviation mkeys :: "('k \<times> 'v) list \<Rightarrow> 'k list" where
  "mkeys m \<equiv> map fst m"

definition mwf :: "('k \<times> 'v) list \<Rightarrow> bool" where
  "mwf m \<longleftrightarrow> distinct (mkeys m)"

definition mdels :: "'k list \<Rightarrow> ('k \<times> 'v) list \<Rightarrow> ('k \<times> 'v) list" where
  "mdels ks m = fold mdel ks m"

definition mputs :: "'k list \<Rightarrow> 'v \<Rightarrow> ('k \<times> 'v) list \<Rightarrow> ('k \<times> 'v) list" where
  "mputs ks v m = fold (\<lambda>k. mput k v) ks m"

lemma map_of_mput [simp]: "map_of (mput k v m) = (map_of m)(k \<mapsto> v)"
  by (simp add: mput_def update_conv')

lemma map_of_mdel [simp]: "map_of (mdel k m) = (map_of m)(k := None)"
  by (simp add: mdel_def delete_conv')

lemma map_of_mdels: "map_of (mdels ks m) = (\<lambda>k. if k \<in> set ks then None else map_of m k)"
  unfolding mdels_def by (induction ks arbitrary: m) auto

lemma map_of_mputs: "map_of (mputs ks v m) = (\<lambda>k. if k \<in> set ks then Some v else map_of m k)"
  unfolding mputs_def by (induction ks arbitrary: m) auto

lemma mwf_Nil [simp]: "mwf []"
  by (simp add: mwf_def)

lemma mwf_mput [simp]: "mwf m \<Longrightarrow> mwf (mput k v m)"
  unfolding mwf_def mput_def by (rule distinct_update)

lemma mwf_mdel [simp]: "mwf m \<Longrightarrow> mwf (mdel k m)"
  unfolding mwf_def mdel_def by (rule distinct_delete)

lemma mwf_mdels [simp]: "mwf m \<Longrightarrow> mwf (mdels ks m)"
  unfolding mdels_def by (induction ks arbitrary: m) auto

lemma mwf_mputs [simp]: "mwf m \<Longrightarrow> mwf (mputs ks v m)"
  unfolding mputs_def by (induction ks arbitrary: m) auto

lemma mwf_filter [simp]: "mwf m \<Longrightarrow> mwf (filter P m)"
  unfolding mwf_def by (rule distinct_map_filter)

lemma mwf_in_set: "mwf m \<Longrightarrow> (k, v) \<in> set m \<longleftrightarrow> map_of m k = Some v"
  by (simp add: mwf_def)

lemma mhas_iff: "mhas k m \<longleftrightarrow> k \<in> set (mkeys m)"
  by (simp add: mhas_def map_of_eq_None_iff)

lemma mhas_dom: "mhas k m \<longleftrightarrow> k \<in> dom (map_of m)"
  by (simp add: mhas_def domIff)

lemma mdels_le: "map_of (mdels ks m) \<subseteq>\<^sub>m map_of m"
  by (auto simp: map_le_def map_of_mdels)

end
