(* ===== verification/Conference.thy ===== *)
theory Conference
  imports GoMap
begin

text \<open>
  The in-memory tracker of three-way conferences: \<^verbatim>\<open>server/internal/calls/conference.go\<close>.

  \<open>uuid.New()\<close> and \<open>time.Now()\<close> are arguments.  The optional Redis mirror \<open>ct.state\<close> is nil.
\<close>

section \<open>Data\<close>

datatype ConferenceRole = ConferenceRoleHost | ConferenceRoleAdded
datatype ConferenceState = ConferenceStateActive | ConferenceStateEnded

record ConferenceMember =
  cmPhone :: string
  cmRole :: ConferenceRole
  cmJoinedAt :: int
  cmLeftAt :: "int option"
  cmLeftReason :: string

type_synonym uuid = nat

record Conference =
  confId :: uuid
  confHost :: string
  OriginatingCallID :: int
  Members :: "(string \<times> ConferenceMember) list"
  confState :: ConferenceState
  confCreatedAt :: int
  confEndedAt :: "int option"
  confEndReason :: string

record ConferenceTracker =
  ctActive :: "(uuid \<times> Conference) list"
  memberIndex :: "(string \<times> uuid) list"

definition NewConferenceTracker :: ConferenceTracker where
  "NewConferenceTracker = \<lparr>ctActive = [], memberIndex = []\<rparr>"

datatype confError =
    ErrInvalidConferenceSize | ErrHostAlreadyHosting | ErrMemberAlreadyInConference string
  | ErrConferenceNotFound | ErrPhoneNotInConference string

section \<open>Operations\<close>

definition newMember :: "string \<Rightarrow> ConferenceRole \<Rightarrow> int \<Rightarrow> ConferenceMember" where
  "newMember p r now = \<lparr>cmPhone = p, cmRole = r, cmJoinedAt = now, cmLeftAt = None, cmLeftReason = []\<rparr>"

definition confMembers :: "string \<Rightarrow> string list \<Rightarrow> int \<Rightarrow> (string \<times> ConferenceMember) list" where
  "confMembers host added now =
     fold (\<lambda>m ms. mput m (newMember m ConferenceRoleAdded now) ms) added
       (mput host (newMember host ConferenceRoleHost now) [])"

fun firstBusy :: "string list \<Rightarrow> (string \<times> uuid) list \<Rightarrow> string option" where
  "firstBusy [] ix = None"
| "firstBusy (m # ms) ix = (if mhas m ix then Some m else firstBusy ms ix)"

definition CreateConference ::
  "uuid \<Rightarrow> int \<Rightarrow> string \<Rightarrow> int \<Rightarrow> string list \<Rightarrow> ConferenceTracker
     \<Rightarrow> (confError + Conference) \<times> ConferenceTracker" where
  "CreateConference newId now host orig added ct =
     (if length added \<noteq> 2 then (Inl ErrInvalidConferenceSize, ct)
      else if mhas host (memberIndex ct) then (Inl ErrHostAlreadyHosting, ct)
      else case firstBusy added (memberIndex ct) of
             Some m \<Rightarrow> (Inl (ErrMemberAlreadyInConference m), ct)
           | None \<Rightarrow>
               let conf = \<lparr>confId = newId, confHost = host, OriginatingCallID = orig,
                           Members = confMembers host added now, confState = ConferenceStateActive,
                           confCreatedAt = now, confEndedAt = None, confEndReason = []\<rparr>
               in (Inr conf,
                   ct\<lparr>ctActive := mput newId conf (ctActive ct),
                      memberIndex := mputs added newId (mput host newId (memberIndex ct))\<rparr>))"

definition ctIsBusy :: "string \<Rightarrow> ConferenceTracker \<Rightarrow> bool" where
  "ctIsBusy phone ct = mhas phone (memberIndex ct)"

text \<open>A value of the model is its own deep copy.\<close>
definition Snapshot :: "uuid \<Rightarrow> ConferenceTracker \<Rightarrow> Conference option" where
  "Snapshot cid ct = map_of (ctActive ct) cid"

definition ConferenceByPhone :: "string \<Rightarrow> ConferenceTracker \<Rightarrow> Conference option" where
  "ConferenceByPhone phone ct =
     (case map_of (memberIndex ct) phone of None \<Rightarrow> None | Some cid \<Rightarrow> Snapshot cid ct)"

definition ConferenceContains :: "uuid \<Rightarrow> string \<Rightarrow> string \<Rightarrow> ConferenceTracker \<Rightarrow> bool" where
  "ConferenceContains cid a b ct =
     (case map_of (ctActive ct) cid of
        None \<Rightarrow> False
      | Some conf \<Rightarrow> confState conf = ConferenceStateActive
                     \<and> mhas a (Members conf) \<and> mhas b (Members conf))"

definition leaveMember :: "int \<Rightarrow> string \<Rightarrow> ConferenceMember \<Rightarrow> ConferenceMember" where
  "leaveMember now reason m = m\<lparr>cmLeftAt := Some now, cmLeftReason := reason\<rparr>"

definition stillIn :: "(string \<times> ConferenceMember) list \<Rightarrow> string list" where
  "stillIn ms = map fst (filter (\<lambda>(p, m). cmLeftAt m = None) ms)"

definition DropMember ::
  "int \<Rightarrow> uuid \<Rightarrow> string \<Rightarrow> string \<Rightarrow> ConferenceTracker
     \<Rightarrow> (confError + string list) \<times> ConferenceTracker" where
  "DropMember now cid phone reason ct =
     (case map_of (ctActive ct) cid of
        None \<Rightarrow> (Inl ErrConferenceNotFound, ct)
      | Some conf \<Rightarrow>
          (case map_of (Members conf) phone of
             None \<Rightarrow> (Inl (ErrPhoneNotInConference phone), ct)
           | Some m \<Rightarrow>
               let members = mput phone (leaveMember now reason m) (Members conf);
                   remaining = stillIn members;
                   ix = mdel phone (memberIndex ct)
               in (Inr remaining,
                   ct\<lparr>ctActive := mdel cid (ctActive ct), memberIndex := mdels remaining ix\<rparr>)))"

definition EndConference ::
  "uuid \<Rightarrow> string \<Rightarrow> ConferenceTracker \<Rightarrow> (confError + string list) \<times> ConferenceTracker" where
  "EndConference cid reason ct =
     (case map_of (ctActive ct) cid of
        None \<Rightarrow> (Inl ErrConferenceNotFound, ct)
      | Some conf \<Rightarrow>
          (Inr (stillIn (Members conf)),
           ct\<lparr>ctActive := mdel cid (ctActive ct),
              memberIndex := mdels (mkeys (Members conf)) (memberIndex ct)\<rparr>))"

section \<open>The invariant\<close>

text \<open>
  Every entry of \<open>active\<close> is an active conference under its own id in which nobody has left
  yet, its host is a member, and \<open>memberIndex\<close> maps a phone to a conference exactly when the
  phone is one of its members.
\<close>

definition conf_wf :: "uuid \<Rightarrow> Conference \<Rightarrow> bool" where
  "conf_wf cid conf \<longleftrightarrow>
     confId conf = cid \<and> confState conf = ConferenceStateActive \<and> mwf (Members conf)
     \<and> mhas (confHost conf) (Members conf)
     \<and> (\<forall>(p, m) \<in> set (Members conf). cmPhone m = p \<and> cmLeftAt m = None)"

definition ct_ok :: "ConferenceTracker \<Rightarrow> bool" where
  "ct_ok ct \<longleftrightarrow>
     mwf (ctActive ct) \<and> mwf (memberIndex ct)
     \<and> (\<forall>cid conf. map_of (ctActive ct) cid = Some conf \<longrightarrow> conf_wf cid conf)
     \<and> (\<forall>p cid. map_of (memberIndex ct) p = Some cid \<longleftrightarrow>
          (\<exists>conf. map_of (ctActive ct) cid = Some conf \<and> mhas p (Members conf)))"

lemma ct_okD:
  assumes "ct_ok ct"
  shows "mwf (ctActive ct)" "mwf (memberIndex ct)"
    "map_of (ctActive ct) cid = Some conf \<Longrightarrow> conf_wf cid conf"
    "map_of (memberIndex ct) p = Some cid \<longleftrightarrow>
          (\<exists>conf. map_of (ctActive ct) cid = Some conf \<and> mhas p (Members conf))"
  using assms unfolding ct_ok_def by blast+

lemma ct_ok_New: "ct_ok NewConferenceTracker"
  by (simp add: ct_ok_def NewConferenceTracker_def)

lemma confMembers_fold:
  "map_of (fold (\<lambda>m ms. mput m (newMember m r now) ms) added ms) p =
     (if p \<in> set added then Some (newMember p r now) else map_of ms p)"
  by (induction added arbitrary: ms) auto

lemma map_of_confMembers:
  "map_of (confMembers host added now) p =
     (if p \<in> set added then Some (newMember p ConferenceRoleAdded now)
      else if p = host then Some (newMember host ConferenceRoleHost now) else None)"
  by (simp add: confMembers_def confMembers_fold)

lemma mwf_confMembers: "mwf (confMembers host added now)"
proof -
  have wf: "mwf (fold (\<lambda>m ms. mput m (newMember m r now) ms) added ms)" if "mwf ms" for r ms
    using that by (induction added arbitrary: ms) auto
  show ?thesis unfolding confMembers_def by (rule wf) simp
qed

lemma mhas_confMembers: "mhas p (confMembers host added now) \<longleftrightarrow> p = host \<or> p \<in> set added"
  by (simp add: mhas_def map_of_confMembers)

lemma firstBusy_None: "firstBusy ms ix = None \<longleftrightarrow> (\<forall>m \<in> set ms. \<not> mhas m ix)"
  by (induction ms) auto

lemma firstBusy_Some: "firstBusy ms ix = Some m \<Longrightarrow> m \<in> set ms \<and> mhas m ix"
  by (induction ms) (auto split: if_splits)

lemma stillIn_wf: "conf_wf cid conf \<Longrightarrow> stillIn (Members conf) = mkeys (Members conf)"
  unfolding conf_wf_def stillIn_def by (simp add: filter_id_conv case_prod_beta)

lemma CreateConference_ok:
  assumes inv: "ct_ok ct" and fresh: "\<not> mhas newId (ctActive ct)"
  shows "ct_ok (snd (CreateConference newId now host orig added ct))"
proof (cases "length added \<noteq> 2 \<or> mhas host (memberIndex ct) \<or> firstBusy added (memberIndex ct) \<noteq> None")
  case True
  then show ?thesis using inv by (auto simp: CreateConference_def split: option.splits)
next
  case False
  then have idx: "map_of (memberIndex ct) host = None" "\<And>m. m \<in> set added \<Longrightarrow> map_of (memberIndex ct) m = None"
    by (auto simp: firstBusy_None mhas_def)
  have nofresh: "map_of (memberIndex ct) p \<noteq> Some newId" for p
    using fresh ct_okD(4) [OF inv, of p newId] by (simp add: mhas_def)
  define conf where "conf = \<lparr>confId = newId, confHost = host, OriginatingCallID = orig,
      Members = confMembers host added now, confState = ConferenceStateActive,
      confCreatedAt = now, confEndedAt = None, confEndReason = []\<rparr>"
  have new: "snd (CreateConference newId now host orig added ct) =
      ct\<lparr>ctActive := mput newId conf (ctActive ct),
         memberIndex := mputs added newId (mput host newId (memberIndex ct))\<rparr>"
    using False by (simp add: CreateConference_def conf_def Let_def)
  have wf: "conf_wf newId conf"
    unfolding conf_wf_def conf_def
    by (auto simp: mwf_confMembers mhas_confMembers mwf_in_set map_of_confMembers newMember_def
        split: if_splits)
  show ?thesis
    unfolding new ct_ok_def
  proof (intro conjI allI impI)
    fix p cid
    show "(map_of (memberIndex (ct\<lparr>ctActive := mput newId conf (ctActive ct),
         memberIndex := mputs added newId (mput host newId (memberIndex ct))\<rparr>)) p = Some cid)
      = (\<exists>c. map_of (ctActive (ct\<lparr>ctActive := mput newId conf (ctActive ct),
         memberIndex := mputs added newId (mput host newId (memberIndex ct))\<rparr>)) cid = Some c
           \<and> mhas p (Members c))"
    proof (cases "p = host \<or> p \<in> set added")
      case True
      then have "map_of (memberIndex ct) p = None" using idx by auto
      then have "\<not> (\<exists>c. map_of (ctActive ct) cid = Some c \<and> mhas p (Members c))" for cid
        using ct_okD(4) [OF inv, of p cid] by simp
      then show ?thesis
        using True by (auto simp: map_of_mputs conf_def mhas_confMembers)
    next
      case False
      then show ?thesis
        using ct_okD(4) [OF inv, of p cid] nofresh [of p]
        by (auto simp: map_of_mputs conf_def mhas_confMembers)
    qed
  qed (use ct_okD(1-3) [OF inv] wf in \<open>auto split: if_splits\<close>)
qed

text \<open>Taking out a whole conference, as both endings do.\<close>

lemma remove_conf_ok:
  assumes inv: "ct_ok ct" and c: "map_of (ctActive ct) cid = Some conf"
    and ks: "set ks = set (mkeys (Members conf))"
    and ix: "map_of ix = map_of (mdels ks (memberIndex ct))" "mwf ix"
  shows "ct_ok (ct\<lparr>ctActive := mdel cid (ctActive ct), memberIndex := ix\<rparr>)"
  unfolding ct_ok_def
proof (intro conjI allI impI)
  fix p d
  show "(map_of (memberIndex (ct\<lparr>ctActive := mdel cid (ctActive ct), memberIndex := ix\<rparr>)) p = Some d)
    = (\<exists>e. map_of (ctActive (ct\<lparr>ctActive := mdel cid (ctActive ct), memberIndex := ix\<rparr>)) d = Some e
         \<and> mhas p (Members e))"
    using ct_okD(4) [OF inv, of p d] ct_okD(4) [OF inv, of p cid] c ix(1) ks
    by (auto simp: map_of_mdels mhas_iff)
qed (use ct_okD(1-3) [OF inv] ix in \<open>auto split: if_splits\<close>)

lemma EndConference_ok:
  assumes "ct_ok ct" shows "ct_ok (snd (EndConference cid reason ct))"
proof (cases "map_of (ctActive ct) cid")
  case (Some conf)
  have "ct_ok (ct\<lparr>ctActive := mdel cid (ctActive ct),
      memberIndex := mdels (mkeys (Members conf)) (memberIndex ct)\<rparr>)"
    by (rule remove_conf_ok [OF assms Some refl refl]) (simp add: ct_okD(2) [OF assms])
  then show ?thesis by (simp add: EndConference_def Some)
qed (use assms in \<open>simp add: EndConference_def\<close>)

lemma stillIn_drop:
  assumes "conf_wf cid conf" and "map_of (Members conf) phone = Some m"
  shows "set (stillIn (mput phone (leaveMember now reason m) (Members conf)))
           = set (mkeys (Members conf)) - {phone}"
proof -
  have wf: "mwf (mput phone (leaveMember now reason m) (Members conf))"
    using assms(1) by (simp add: conf_wf_def)
  have left: "map_of (Members conf) p = Some n \<Longrightarrow> cmLeftAt n = None" for p n
    using assms(1) mwf_in_set [of "Members conf" p n] unfolding conf_wf_def by auto
  have "p \<in> set (stillIn (mput phone (leaveMember now reason m) (Members conf))) \<longleftrightarrow>
      (\<exists>n. map_of (mput phone (leaveMember now reason m) (Members conf)) p = Some n \<and> cmLeftAt n = None)" for p
    using mwf_in_set [OF wf, of p] unfolding stillIn_def by force
  also have "\<dots> p \<longleftrightarrow> p \<in> set (mkeys (Members conf)) - {phone}" for p
    using left [of p] mhas_iff [of p "Members conf"]
    by (auto simp: leaveMember_def mhas_def simp del: set_map)
  finally show ?thesis by blast
qed

lemma DropMember_ok:
  assumes "ct_ok ct" shows "ct_ok (snd (DropMember now cid phone reason ct))"
proof (cases "map_of (ctActive ct) cid")
  case (Some conf)
  show ?thesis
  proof (cases "map_of (Members conf) phone")
    case None
    then show ?thesis using assms Some by (simp add: DropMember_def)
  next
    case m: (Some m)
    define rem where "rem = stillIn (mput phone (leaveMember now reason m) (Members conf))"
    have mem: "phone \<in> set (mkeys (Members conf))" using m by (metis mhas_def mhas_iff option.simps(3))
    then have "set (phone # rem) = set (mkeys (Members conf))"
      using stillIn_drop [OF ct_okD(3) [OF assms Some] m, of now reason] by (auto simp: rem_def)
    then have "ct_ok (ct\<lparr>ctActive := mdel cid (ctActive ct),
        memberIndex := mdels rem (mdel phone (memberIndex ct))\<rparr>)"
      by (rule remove_conf_ok [OF assms Some])
        (auto simp: ct_okD(2) [OF assms] map_of_mdels fun_eq_iff)
    then show ?thesis by (simp add: DropMember_def Some m rem_def Let_def)
  qed
qed (use assms in \<open>simp add: DropMember_def\<close>)

section \<open>Runs\<close>

datatype ct_move =
    CtCreate uuid int string int "string list"
  | CtDrop int uuid string string
  | CtEnd uuid string

fun ct_step :: "ct_move \<Rightarrow> ConferenceTracker \<Rightarrow> ConferenceTracker" where
  "ct_step (CtCreate newId now host orig added) ct = snd (CreateConference newId now host orig added ct)"
| "ct_step (CtDrop now cid phone reason) ct = snd (DropMember now cid phone reason ct)"
| "ct_step (CtEnd cid reason) ct = snd (EndConference cid reason ct)"

text \<open>\<open>uuid.New()\<close> returns an id that is not in use.\<close>

fun fresh_uuid :: "ct_move \<Rightarrow> ConferenceTracker \<Rightarrow> bool" where
  "fresh_uuid (CtCreate newId now host orig added) ct = (\<not> mhas newId (ctActive ct))"
| "fresh_uuid _ ct = True"

interpretation conferences: invariant_machine ct_step fresh_uuid ct_ok
proof
  show "ct_ok (ct_step m ct)" if "fresh_uuid m ct" "ct_ok ct" for m ct
    using that by (cases m) (simp_all add: CreateConference_ok DropMember_ok EndConference_ok)
qed

text \<open>
  A phone is in at most one active conference.  After any sequence of creations, drops
  and endings from an empty tracker, two active conferences that share a phone are the same
  one, \<open>IsBusy\<close> answers true exactly for the members of an active conference, and
  \<open>ConferenceByPhone\<close> returns that conference.
\<close>
theorem phone_in_one_conference:
  assumes "allowed_run ct_step fresh_uuid ms NewConferenceTracker"
    and "ct = fold ct_step ms NewConferenceTracker"
  shows "(ctIsBusy p ct \<longleftrightarrow> (\<exists>(cid, conf) \<in> set (ctActive ct). mhas p (Members conf)))
       \<and> ((cid, conf) \<in> set (ctActive ct) \<and> mhas p (Members conf) \<longrightarrow>
            ConferenceByPhone p ct = Some conf
            \<and> ((cid', conf') \<in> set (ctActive ct) \<and> mhas p (Members conf') \<longrightarrow> cid' = cid \<and> conf' = conf))"
proof -
  have ok: "ct_ok ct" using conferences.run_inv [OF ct_ok_New assms(1)] assms(2) by simp
  have mem: "(c, e) \<in> set (ctActive ct) \<longleftrightarrow> map_of (ctActive ct) c = Some e" for c e
    using ct_okD(1) [OF ok] by (rule mwf_in_set)
  have busy: "ctIsBusy p ct \<longleftrightarrow> (\<exists>c e. map_of (ctActive ct) c = Some e \<and> mhas p (Members e))"
    using ct_okD(4) [OF ok, of p] by (auto simp: ctIsBusy_def mhas_def)
  have same: "c = d \<and> e = f" if "map_of (ctActive ct) c = Some e" "mhas p (Members e)"
      "map_of (ctActive ct) d = Some f" "mhas p (Members f)" for c d e f
  proof -
    have "map_of (memberIndex ct) p = Some c" using ct_okD(4) [OF ok] that(1,2) by blast
    moreover have "map_of (memberIndex ct) p = Some d" using ct_okD(4) [OF ok] that(3,4) by blast
    ultimately show ?thesis using that(1,3) by simp
  qed
  have byPhone: "ConferenceByPhone p ct = Some e"
    if "map_of (ctActive ct) c = Some e" "mhas p (Members e)" for c e
    using ct_okD(4) [OF ok, of p c] that by (simp add: ConferenceByPhone_def Snapshot_def)
  show ?thesis
  proof (intro conjI impI)
    show "ctIsBusy p ct \<longleftrightarrow> (\<exists>(cid, conf) \<in> set (ctActive ct). mhas p (Members conf))"
      using busy mem by auto
    assume c: "(cid, conf) \<in> set (ctActive ct) \<and> mhas p (Members conf)"
    then show "ConferenceByPhone p ct = Some conf" using byPhone [of cid conf] mem by simp
    assume "(cid', conf') \<in> set (ctActive ct) \<and> mhas p (Members conf')"
    then have "cid = cid' \<and> conf = conf'" using same c mem by metis
    then show "cid' = cid" "conf' = conf" by simp_all
  qed
qed

definition conf_moves :: "ct_move list" where
  "conf_moves = [CtCreate 7 100 ''A'' 1 [''B'', ''C'']]"

lemma phone_in_one_conference_witness:
  "ctIsBusy ''B'' (fold ct_step conf_moves NewConferenceTracker)
   \<and> (\<exists>(cid, conf) \<in> set (ctActive (fold ct_step conf_moves NewConferenceTracker)). mhas ''B'' (Members conf))"
proof -
  have "allowed_run ct_step fresh_uuid conf_moves NewConferenceTracker"
    by (simp add: conf_moves_def NewConferenceTracker_def mhas_def)
  note phone_in_one_conference [OF this refl, of "''B''", THEN conjunct1]
  moreover have "ctIsBusy ''B'' (fold ct_step conf_moves NewConferenceTracker)" by code_simp
  ultimately show ?thesis by blast
qed

lemma CreateConference_Inr:
  assumes "CreateConference newId now host orig added ct = (Inr conf, ct1)"
  shows "conf = \<lparr>confId = newId, confHost = host, OriginatingCallID = orig,
           Members = confMembers host added now, confState = ConferenceStateActive,
           confCreatedAt = now, confEndedAt = None, confEndReason = []\<rparr>"
    and "ct1 = ct\<lparr>ctActive := mput newId conf (ctActive ct),
           memberIndex := mputs added newId (mput host newId (memberIndex ct))\<rparr>"
    and "length added = 2" and "\<not> mhas host (memberIndex ct)"
    and "firstBusy added (memberIndex ct) = None"
  using assms by (auto simp: CreateConference_def Let_def split: if_splits option.splits)

text \<open>
  Creating a conference and then ending it, or dropping one of its members, leaves the
  tracker as it was: every lookup in \<open>active\<close> and in \<open>memberIndex\<close> answers as before the
  creation.  Ending reports exactly the host and the added phones as still active, dropping a
  member exactly the others.
\<close>
theorem conference_roundtrip:
  assumes "ct_ok ct" and "\<not> mhas newId (ctActive ct)"
    and "CreateConference newId now host orig added ct = (Inr conf, ct1)"
    and "phone = host \<or> phone \<in> set added"
  shows "\<exists>ended ct2 remaining ct3.
       EndConference newId reason ct1 = (Inr ended, ct2)
       \<and> set ended = insert host (set added)
       \<and> map_of (ctActive ct2) = map_of (ctActive ct) \<and> map_of (memberIndex ct2) = map_of (memberIndex ct)
       \<and> DropMember now' newId phone reason ct1 = (Inr remaining, ct3)
       \<and> set remaining = insert host (set added) - {phone}
       \<and> map_of (ctActive ct3) = map_of (ctActive ct) \<and> map_of (memberIndex ct3) = map_of (memberIndex ct)"
proof -
  have ok1: "ct_ok ct1" using CreateConference_ok [OF assms(1,2), of now host orig added] assms(3) by simp
  have conf: "map_of (ctActive ct1) newId = Some conf" "Members conf = confMembers host added now"
    and act: "map_of (ctActive ct1) = (map_of (ctActive ct))(newId \<mapsto> conf)"
    and idx: "map_of (memberIndex ct1) = (\<lambda>p. if p = host \<or> p \<in> set added then Some newId else map_of (memberIndex ct) p)"
    and free: "map_of (memberIndex ct) host = None" "\<And>m. m \<in> set added \<Longrightarrow> map_of (memberIndex ct) m = None"
    using CreateConference_Inr [OF assms(3)]
    by (simp_all add: map_of_mputs fun_eq_iff firstBusy_None mhas_def)
  have none: "map_of (ctActive ct) newId = None" using assms(2) by (simp add: mhas_def)
  have wf: "conf_wf newId conf" by (rule ct_okD(3) [OF ok1 conf(1)])
  have keys: "set (mkeys (Members conf)) = insert host (set added)"
    using mhas_confMembers [of _ host added now] by (auto simp: mhas_iff conf(2))
  have "map_of (Members conf) phone \<noteq> None"
    using assms(4) by (auto simp: conf(2) map_of_confMembers)
  then obtain m where m: "map_of (Members conf) phone = Some m" by blast
  have rem: "set (stillIn (mput phone (leaveMember now' reason m) (Members conf))) = insert host (set added) - {phone}"
    using stillIn_drop [OF wf m, of now' reason] keys by simp
  have "map_of (mdels (mkeys (Members conf)) (memberIndex ct1)) = map_of (memberIndex ct)"
    using keys free by (auto simp: map_of_mdels idx fun_eq_iff simp del: set_map)
  moreover have "map_of (mdels (stillIn (mput phone (leaveMember now' reason m) (Members conf)))
      (mdel phone (memberIndex ct1))) = map_of (memberIndex ct)"
    using rem free assms(4) by (auto simp: map_of_mdels idx fun_eq_iff)
  ultimately show ?thesis
    using conf(1) m rem keys none
    by (simp add: EndConference_def DropMember_def Let_def stillIn_wf [OF wf] act fun_eq_iff)
qed

lemma conference_roundtrip_witness:
  "\<exists>conf ct1 ended ct2 remaining ct3.
     CreateConference 7 100 ''A'' 1 [''B'', ''C''] NewConferenceTracker = (Inr conf, ct1)
     \<and> EndConference 7 ''host_hangup'' ct1 = (Inr ended, ct2)
     \<and> DropMember 200 7 ''B'' ''host_hangup'' ct1 = (Inr remaining, ct3)
     \<and> set remaining = {''A'', ''C''}"
proof -
  obtain conf ct1 where c: "CreateConference 7 100 ''A'' 1 [''B'', ''C''] NewConferenceTracker = (Inr conf, ct1)"
    by (simp add: CreateConference_def NewConferenceTracker_def mhas_def Let_def)
  have "\<not> mhas 7 (ctActive NewConferenceTracker)" by (simp add: NewConferenceTracker_def mhas_def)
  from conference_roundtrip [OF ct_ok_New this c, of "''B''" "''host_hangup''" 200] c
  show ?thesis by auto
qed

text \<open>
  The size check counts the added phones and nothing compares them with each other or with
  the host, so "exactly 3 members" fails for a repeated phone.
\<close>
theorem conference_of_one_member:
  "(case CreateConference 7 100 ''A'' 1 [''A'', ''A''] NewConferenceTracker of
      (Inr conf, ct) \<Rightarrow> mkeys (Members conf) = [''A''] \<and> ctIsBusy ''A'' ct
    | _ \<Rightarrow> False)"
  by code_simp

end
