(* ===== verification/Tracker.thy ===== *)
theory Tracker
  imports Conference "HOL-Library.Char_ord" "HOL-Library.List_Lexorder"
begin

text \<open>
  The call tracker: \<^verbatim>\<open>server/internal/calls/tracker.go\<close>.

  \<open>trActive\<close> is the in-memory map of two-party calls; \<open>trCalls\<close> the SQL table \<open>calls\<close> in
  insertion order, with \<open>trNextID\<close> its serial, and the other tables beside it.  Every SQL
  statement or transaction is one function on the tables that runs when its argument \<open>db\<close> is
  true and is otherwise the error branch; \<open>now\<close> is the database's and Go's clock in seconds.
  The optional observers are flags (\<open>hasHealth\<close>, \<open>hasDash\<close>, \<open>hasObs\<close>) and their notifications
  the log \<open>trOut\<close>; the optional Redis mirror \<open>t.state\<close> is nil.
\<close>

section \<open>Data\<close>

datatype CallStatus = StInitiated | StRinging | StConnected | StEnded

record CallRow =
  crID :: int
  crCaller :: string
  crCallee :: string
  crStatus :: CallStatus
  crStartedAt :: int
  crAnsweredAt :: "int option"
  crEndedAt :: "int option"
  crDurationS :: int
  crEndReason :: "string option"
  crOrigConf :: "uuid option"
  crForceEndedBy :: "string option"

record ActiveCall =
  acID :: int
  acCaller :: string
  acCallee :: string
  acStartedAt :: int

record ConfRow =
  cfID :: uuid
  cfHost :: string
  cfOrigCall :: int
  cfActive :: bool
  cfCreatedAt :: int
  cfEndedAt :: "int option"
  cfEndReason :: "string option"

record MemberRow =
  mrConf :: uuid
  mrPhone :: string
  mrRole :: ConferenceRole
  mrLeftAt :: "int option"
  mrLeftReason :: "string option"

datatype trOut =
    HealthInit int | HealthEvict int | HealthInitConf uuid | HealthEvictConf uuid
  | DashNotify | ObsCallEnded string string

record Tracker =
  trActive :: "(string \<times> ActiveCall) list"
  trConfs :: ConferenceTracker
  hasHealth :: bool
  hasDash :: bool
  hasObs :: bool
  trOuts :: "trOut list"
  trCalls :: "CallRow list"
  trNextID :: int
  trConfRows :: "ConfRow list"
  trMemberRows :: "MemberRow list"
  trKicks :: "(uuid \<times> string \<times> string) list"

datatype trError =
    DbError | NoActiveCall string string | ConfError confError | NotInAnyConference string

definition NewTracker :: "bool \<Rightarrow> bool \<Rightarrow> bool \<Rightarrow> Tracker" where
  "NewTracker h d obs =
     \<lparr>trActive = [], trConfs = NewConferenceTracker, hasHealth = h, hasDash = d, hasObs = obs,
      trOuts = [], trCalls = [], trNextID = 1, trConfRows = [], trMemberRows = [], trKicks = []\<rparr>"

definition isOpen :: "CallRow \<Rightarrow> bool" where
  "isOpen r \<longleftrightarrow> crStatus r \<in> {StInitiated, StRinging, StConnected}"

text \<open>The UTF-8 bytes of the arrow between the two numbers of a key.\<close>
definition callKey :: "string \<Rightarrow> string \<Rightarrow> string" where
  "callKey a b = a @ [CHR 0xE2, CHR 0x86, CHR 0x92] @ b"

definition sortedPair :: "string \<Rightarrow> string \<Rightarrow> string \<times> string" where
  "sortedPair a b = (if b < a then (b, a) else (a, b))"

definition trEmit :: "trOut list \<Rightarrow> Tracker \<Rightarrow> Tracker" where
  [go_simps]: "trEmit xs t = t\<lparr>trOuts := trOuts t @ xs\<rparr>"

definition whenTr :: "bool \<Rightarrow> trOut \<Rightarrow> trOut list" where
  [go_simps]: "whenTr b x = (if b then [x] else [])"

section \<open>The SQL statements\<close>

definition insertCall ::
  "int \<Rightarrow> string \<Rightarrow> string \<Rightarrow> CallStatus \<Rightarrow> uuid option \<Rightarrow> Tracker \<Rightarrow> int \<times> Tracker" where
  "insertCall now caller callee st oc t =
     (trNextID t,
      t\<lparr>trCalls := trCalls t @ [\<lparr>crID = trNextID t, crCaller = caller, crCallee = callee,
          crStatus = st, crStartedAt = now, crAnsweredAt = None, crEndedAt = None, crDurationS = 0,
          crEndReason = None, crOrigConf = oc, crForceEndedBy = None\<rparr>],
        trNextID := trNextID t + 1\<rparr>)"

text \<open>\<^verbatim>\<open>ORDER BY started_at DESC LIMIT 1\<close>; of equal times the later row.\<close>
fun latestCall :: "(CallRow \<Rightarrow> bool) \<Rightarrow> CallRow list \<Rightarrow> CallRow option" where
  "latestCall P [] = None"
| "latestCall P (r # rs) =
     (case latestCall P rs of
        None \<Rightarrow> if P r then Some r else None
      | Some s \<Rightarrow> if P r \<and> crStartedAt r > crStartedAt s then Some r else Some s)"

definition updateCalls :: "(CallRow \<Rightarrow> bool) \<Rightarrow> (CallRow \<Rightarrow> CallRow) \<Rightarrow> Tracker \<Rightarrow> Tracker" where
  "updateCalls P f t = t\<lparr>trCalls := map (\<lambda>r. if P r then f r else r) (trCalls t)\<rparr>"

definition updateLatest :: "(CallRow \<Rightarrow> bool) \<Rightarrow> (CallRow \<Rightarrow> CallRow) \<Rightarrow> Tracker \<Rightarrow> Tracker" where
  "updateLatest P f t =
     (case latestCall P (trCalls t) of None \<Rightarrow> t | Some r \<Rightarrow> updateCalls (\<lambda>s. crID s = crID r) f t)"

text \<open>\<open>endCallSetClause\<close>.\<close>
definition endCall :: "int \<Rightarrow> CallRow \<Rightarrow> CallRow" where
  "endCall now r =
     r\<lparr>crStatus := StEnded, crEndedAt := Some now,
       crDurationS := now - (case crAnsweredAt r of Some a \<Rightarrow> a | None \<Rightarrow> crStartedAt r)\<rparr>"

definition nullIfEmpty :: "string \<Rightarrow> string option" where
  "nullIfEmpty s = (if s = [] then None else Some s)"

section \<open>Two-party calls\<close>

definition OnCallInitiated :: "bool \<Rightarrow> int \<Rightarrow> string \<Rightarrow> string \<Rightarrow> Tracker \<Rightarrow> (trError + int) \<times> Tracker" where
  "OnCallInitiated db now from to t =
     (if \<not> db then (Inl DbError, t)
      else
        let (cid, t) = insertCall now from to StInitiated None t;
            t = t\<lparr>trActive := mput (callKey from to)
                     \<lparr>acID = cid, acCaller = from, acCallee = to, acStartedAt = now\<rparr> (trActive t)\<rparr>
        in (Inr cid, trEmit (whenTr (hasHealth t) (HealthInit cid) @ whenTr (hasDash t) DashNotify) t))"

definition OnCallAnswered :: "bool \<Rightarrow> int \<Rightarrow> string \<Rightarrow> string \<Rightarrow> Tracker \<Rightarrow> (trError + unit) \<times> Tracker" where
  "OnCallAnswered db now caller callee t =
     (if \<not> db then (Inl DbError, t)
      else (Inr (), updateLatest
              (\<lambda>r. crCaller r = caller \<and> crCallee r = callee \<and> crStatus r \<in> {StInitiated, StRinging})
              (\<lambda>r. r\<lparr>crStatus := StConnected, crAnsweredAt := Some now\<rparr>) t))"

definition pairRow :: "string \<Rightarrow> string \<Rightarrow> CallRow \<Rightarrow> bool" where
  "pairRow a b r \<longleftrightarrow>
     ((crCaller r = a \<and> crCallee r = b) \<or> (crCaller r = b \<and> crCallee r = a)) \<and> isOpen r"

definition OnCallEndedWithReason ::
  "bool \<Rightarrow> int \<Rightarrow> string \<Rightarrow> string \<Rightarrow> string \<Rightarrow> Tracker \<Rightarrow> (trError + unit) \<times> Tracker" where
  "OnCallEndedWithReason db now caller callee reason t =
     (let key1 = callKey caller callee; key2 = callKey callee caller;
          cid = (case map_of (trActive t) key1 of
                   Some c \<Rightarrow> acID c
                 | None \<Rightarrow> (case map_of (trActive t) key2 of Some c \<Rightarrow> acID c | None \<Rightarrow> 0));
          removed = (cid \<noteq> 0);
          t = t\<lparr>trActive := mdel key2 (mdel key1 (trActive t))\<rparr>;
          t = trEmit (whenTr (hasHealth t \<and> cid \<noteq> 0) (HealthEvict cid)
                      @ whenTr (hasDash t \<and> removed) DashNotify) t
      in if \<not> db then (Inl DbError, t)
         else
           let t = updateLatest (pairRow caller callee)
                     (\<lambda>r. endCall now r\<lparr>crEndReason := nullIfEmpty reason\<rparr>) t
           in (Inr (), trEmit (whenTr (hasObs t) (ObsCallEnded caller callee)) t))"

definition OnCallEnded :: "bool \<Rightarrow> int \<Rightarrow> string \<Rightarrow> string \<Rightarrow> Tracker \<Rightarrow> (trError + unit) \<times> Tracker" where
  "OnCallEnded db now caller callee t = OnCallEndedWithReason db now caller callee [] t"

definition involves :: "string \<Rightarrow> ActiveCall \<Rightarrow> bool" where
  "involves number c \<longleftrightarrow> acCaller c = number \<or> acCallee c = number"

definition ClearByNumber :: "bool \<Rightarrow> int \<Rightarrow> string \<Rightarrow> Tracker \<Rightarrow> Tracker" where
  "ClearByNumber db now number t =
     (let hit = filter (\<lambda>(k, c). involves number c) (trActive t);
          toDelete = map fst hit;
          evictIDs = map (\<lambda>(k, c). acID c) hit;
          t = t\<lparr>trActive := mdels toDelete (trActive t)\<rparr>;
          t = trEmit ((if hasHealth t then map HealthEvict (filter (\<lambda>i. i \<noteq> 0) evictIDs) else [])
                      @ whenTr (hasDash t \<and> toDelete \<noteq> []) DashNotify) t;
          t = (if db then updateCalls (\<lambda>r. (crCaller r = number \<or> crCallee r = number) \<and> isOpen r)
                            (endCall now) t else t)
      in trEmit (whenTr (hasObs t) (ObsCallEnded number [])) t)"

definition renameRow :: "string \<Rightarrow> string \<Rightarrow> CallRow \<Rightarrow> CallRow" where
  "renameRow old new r =
     r\<lparr>crCaller := (if crCaller r = old then new else crCaller r),
       crCallee := (if crCallee r = old then new else crCallee r)\<rparr>"

definition RenameNumber :: "bool \<Rightarrow> string \<Rightarrow> string \<Rightarrow> Tracker \<Rightarrow> (trError + unit) \<times> Tracker" where
  "RenameNumber db old new t =
     (if \<not> db then (Inl DbError, t)
      else (Inr (), t\<lparr>trCalls := map (renameRow old new) (trCalls t),
             trConfRows := map (\<lambda>c. if cfHost c = old then c\<lparr>cfHost := new\<rparr> else c) (trConfRows t),
             trMemberRows := map (\<lambda>m. if mrPhone m = old then m\<lparr>mrPhone := new\<rparr> else m) (trMemberRows t),
             trKicks := map (\<lambda>(c, p, u). (c, if p = old then new else p, u)) (trKicks t)\<rparr>))"

section \<open>Queries on the active calls\<close>

text \<open>The calls in the (arbitrary) iteration order of the map.\<close>
definition activeCalls :: "Tracker \<Rightarrow> ActiveCall list" where
  "activeCalls t = map snd (trActive t)"

definition Busy :: "string \<Rightarrow> Tracker \<Rightarrow> bool" where
  "Busy number t \<longleftrightarrow> ctIsBusy number (trConfs t) \<or> list_ex (involves number) (activeCalls t)"

fun canAddLoop :: "string \<Rightarrow> ActiveCall list \<Rightarrow> nat \<Rightarrow> bool" where
  "canAddLoop number [] callerCount = (callerCount = 1)"
| "canAddLoop number (c # cs) callerCount =
     (if acCallee c = number then False
      else canAddLoop number cs (if acCaller c = number then callerCount + 1 else callerCount))"

definition CanAddAsHost :: "string \<Rightarrow> Tracker \<Rightarrow> bool" where
  "CanAddAsHost number t = (if ctIsBusy number (trConfs t) then False
                            else canAddLoop number (activeCalls t) 0)"

fun peersIn :: "string \<Rightarrow> ActiveCall list \<Rightarrow> string list" where
  "peersIn number [] = []"
| "peersIn number (c # cs) =
     (if acCaller c = number then acCallee c # peersIn number cs
      else if acCallee c = number then acCaller c # peersIn number cs
      else peersIn number cs)"

definition AllPeersOf :: "string \<Rightarrow> Tracker \<Rightarrow> string list" where
  "AllPeersOf number t = peersIn number (activeCalls t)"

definition PeerOf :: "string \<Rightarrow> Tracker \<Rightarrow> string" where
  "PeerOf number t = (case peersIn number (activeCalls t) of [] \<Rightarrow> [] | p # ps \<Rightarrow> p)"

definition CallIDForPair :: "string \<Rightarrow> string \<Rightarrow> Tracker \<Rightarrow> int" where
  "CallIDForPair a b t =
     (case map_of (trActive t) (callKey a b) of
        Some c \<Rightarrow> acID c
      | None \<Rightarrow> (case map_of (trActive t) (callKey b a) of Some c \<Rightarrow> acID c | None \<Rightarrow> 0))"

definition CallIDFor :: "string \<Rightarrow> Tracker \<Rightarrow> int \<times> bool" where
  "CallIDFor number t =
     (case filter (involves number) (activeCalls t) of [] \<Rightarrow> (0, False) | c # cs \<Rightarrow> (acID c, True))"

definition InCall :: "string \<Rightarrow> string \<Rightarrow> Tracker \<Rightarrow> bool" where
  "InCall a b t \<longleftrightarrow> mhas (callKey a b) (trActive t) \<or> mhas (callKey b a) (trActive t)"

section \<open>Conferences in memory and in the tables\<close>

definition MarkForceEnded :: "bool \<Rightarrow> int \<Rightarrow> string \<Rightarrow> Tracker \<Rightarrow> (trError + unit) \<times> Tracker" where
  "MarkForceEnded db cid userID t =
     (if \<not> db then (Inl DbError, t)
      else (Inr (), updateCalls (\<lambda>r. crID r = cid) (\<lambda>r. r\<lparr>crForceEndedBy := Some userID\<rparr>) t))"

text \<open>The ids of the host's calls with the added members, or the first member without one.\<close>
fun addedCalls :: "string \<Rightarrow> string list \<Rightarrow> Tracker \<Rightarrow> trError + int list" where
  "addedCalls host [] t = Inr []"
| "addedCalls host (m # ms) t =
     (if CallIDForPair host m t = 0 then Inl (NoActiveCall host m)
      else case addedCalls host ms t of Inl e \<Rightarrow> Inl e | Inr ids \<Rightarrow> Inr (CallIDForPair host m t # ids))"

definition mergedRow :: "int \<Rightarrow> CallRow \<Rightarrow> CallRow" where
  "mergedRow now r =
     r\<lparr>crStatus := StEnded, crEndReason := Some ''merged_to_conference'', crEndedAt := Some now\<rparr>"

text \<open>The transaction of \<open>CreateConferencePersistent\<close>.\<close>
definition createConfTx :: "int \<Rightarrow> Conference \<Rightarrow> int list \<Rightarrow> Tracker \<Rightarrow> Tracker" where
  "createConfTx now conf ids t =
     (let t = t\<lparr>trConfRows := trConfRows t @
                 [\<lparr>cfID = confId conf, cfHost = confHost conf, cfOrigCall = OriginatingCallID conf,
                   cfActive = True, cfCreatedAt = now, cfEndedAt = None, cfEndReason = None\<rparr>],
               trMemberRows := trMemberRows t @
                 map (\<lambda>(p, m). \<lparr>mrConf = confId conf, mrPhone = cmPhone m, mrRole = cmRole m,
                                mrLeftAt = None, mrLeftReason = None\<rparr>) (Members conf)\<rparr>
      in updateCalls (\<lambda>r. crID r \<in> set (OriginatingCallID conf # ids)) (mergedRow now) t)"

definition involvesMember :: "Conference \<Rightarrow> ActiveCall \<Rightarrow> bool" where
  "involvesMember conf c \<longleftrightarrow> mhas (acCaller c) (Members conf) \<or> mhas (acCallee c) (Members conf)"

definition CreateConferencePersistent ::
  "bool \<Rightarrow> uuid \<Rightarrow> int \<Rightarrow> string \<Rightarrow> int \<Rightarrow> string list \<Rightarrow> Tracker
     \<Rightarrow> (trError + Conference) \<times> Tracker" where
  "CreateConferencePersistent db newId now host orig added t =
     (case addedCalls host added t of
        Inl e \<Rightarrow> (Inl e, t)
      | Inr ids \<Rightarrow>
          (case CreateConference newId now host orig added (trConfs t) of
             (Inl e, _) \<Rightarrow> (Inl (ConfError e), t)
           | (Inr conf, cs) \<Rightarrow>
               if \<not> db then
                 (Inl DbError, t\<lparr>trConfs := snd (EndConference (confId conf) ''db_error'' cs)\<rparr>)
               else
                 let t = createConfTx now conf ids (t\<lparr>trConfs := cs\<rparr>);
                     t = t\<lparr>trActive := filter (\<lambda>(k, c). \<not> involvesMember conf c) (trActive t)\<rparr>
                 in (Inr conf, trEmit (whenTr (hasHealth t) (HealthInitConf (confId conf))) t)))"

definition endMembers :: "int \<Rightarrow> string \<Rightarrow> uuid \<Rightarrow> MemberRow list \<Rightarrow> MemberRow list" where
  "endMembers now reason cid =
     map (\<lambda>m. if mrConf m = cid \<and> mrLeftAt m = None
              then m\<lparr>mrLeftAt := Some now, mrLeftReason := Some reason\<rparr> else m)"

definition endConfRow :: "int \<Rightarrow> string \<Rightarrow> uuid \<Rightarrow> ConfRow list \<Rightarrow> ConfRow list" where
  "endConfRow now reason cid =
     map (\<lambda>c. if cfID c = cid then c\<lparr>cfActive := False, cfEndedAt := Some now, cfEndReason := Some reason\<rparr>
              else c)"

definition EndConferencePersistent ::
  "bool \<Rightarrow> int \<Rightarrow> uuid \<Rightarrow> string \<Rightarrow> Tracker \<Rightarrow> (trError + unit) \<times> Tracker" where
  "EndConferencePersistent db now cid reason t =
     (case EndConference cid reason (trConfs t) of
        (Inl e, _) \<Rightarrow> (Inl (ConfError e), t)
      | (Inr _, cs) \<Rightarrow>
          let t = t\<lparr>trConfs := cs\<rparr> in
          if \<not> db then (Inl DbError, t)
          else (Inr (), trEmit (whenTr (hasHealth t) (HealthEvictConf cid))
                  (t\<lparr>trConfRows := endConfRow now reason cid (trConfRows t),
                     trMemberRows := endMembers now reason cid (trMemberRows t)\<rparr>)))"

definition RecordKick :: "bool \<Rightarrow> uuid \<Rightarrow> string \<Rightarrow> string \<Rightarrow> Tracker \<Rightarrow> (trError + unit) \<times> Tracker" where
  "RecordKick db cid phone userID t =
     (if \<not> db then (Inl DbError, t) else (Inr (), t\<lparr>trKicks := trKicks t @ [(cid, phone, userID)]\<rparr>))"

definition dropMemberTx :: "int \<Rightarrow> uuid \<Rightarrow> string \<Rightarrow> string \<Rightarrow> Tracker \<Rightarrow> Tracker" where
  "dropMemberTx now cid phone reason t =
     t\<lparr>trMemberRows := endMembers now ''conference_ended'' cid
         (map (\<lambda>m. if mrConf m = cid \<and> mrPhone m = phone
                   then m\<lparr>mrLeftAt := Some now, mrLeftReason := Some reason\<rparr> else m) (trMemberRows t)),
       trConfRows := endConfRow now ''member_left'' cid (trConfRows t)\<rparr>"

definition DropMemberPersistent ::
  "bool \<Rightarrow> int \<Rightarrow> uuid \<Rightarrow> string \<Rightarrow> string \<Rightarrow> Tracker \<Rightarrow> (trError + string list) \<times> Tracker" where
  "DropMemberPersistent db now cid phone reason t =
     (if ConferenceByPhone phone (trConfs t) = None then (Inl (NotInAnyConference phone), t)
      else case DropMember now cid phone reason (trConfs t) of
             (Inl e, _) \<Rightarrow> (Inl (ConfError e), t)
           | (Inr remaining, cs) \<Rightarrow>
               let t = t\<lparr>trConfs := cs\<rparr> in
               if \<not> db then (Inl DbError, t)
               else
                 let t = dropMemberTx now cid phone reason t;
                     t = (case remaining of
                            [x, y] \<Rightarrow>
                              let (a, b) = sortedPair x y;
                                  (newCall, t) = insertCall now a b StConnected (Some cid) t
                              in t\<lparr>trActive := mput (callKey a b)
                                    \<lparr>acID = newCall, acCaller = a, acCallee = b, acStartedAt = now\<rparr>
                                    (trActive t)\<rparr>
                          | _ \<Rightarrow> t)
                 in (Inr remaining, trEmit (whenTr (hasHealth t) (HealthEvictConf cid)) t))"

section \<open>History queries\<close>

definition GetCall :: "int \<Rightarrow> Tracker \<Rightarrow> CallRow option" where
  "GetCall cid t = find (\<lambda>r. crID r = cid) (trCalls t)"

definition LastInboundCaller :: "string \<Rightarrow> Tracker \<Rightarrow> string" where
  "LastInboundCaller number t =
     (case latestCall (\<lambda>r. crCallee r = number \<and> crEndReason r \<noteq> Some ''merged_to_conference'') (trCalls t) of
        None \<Rightarrow> [] | Some r \<Rightarrow> crCaller r)"

end
