(* ===== verification/Tracker_Inv.thy ===== *)
theory Tracker_Inv
  imports Tracker
begin

text \<open>
  The call tracker keeps its memory and the SQL tables in step: the invariant, what ending,
  merging and splitting calls do, and the queries' independence of Go's map order.
\<close>

section \<open>Memory and tables agree\<close>

text \<open>The row of the table that backs a call in memory.\<close>

definition backs :: "CallRow \<Rightarrow> ActiveCall \<Rightarrow> bool" where
  "backs r c \<longleftrightarrow> crID r = acID c \<and> crCaller r = acCaller c \<and> crCallee r = acCallee c \<and> isOpen r"

text \<open>
  A number without the first byte of the arrow; \<open>callKey\<close> is injective on such numbers (the
  numbers of lines are digits).
\<close>
definition plain :: "string \<Rightarrow> bool" where
  "plain s \<longleftrightarrow> CHR 0xE2 \<notin> set s"

lemma callKey_inj:
  assumes "plain a" and "plain b" and "callKey a b = callKey c d"
  shows "a = c \<and> b = d"
proof -
  let ?ar = "[CHR 0xE2, CHR 0x86, CHR 0x92]"
  have "a @ (?ar @ b) = c @ (?ar @ d)" using assms(3) by (simp add: callKey_def)
  then obtain us where "a = c @ us \<and> us @ ?ar @ b = ?ar @ d \<or> a @ us = c \<and> ?ar @ b = us @ ?ar @ d"
    by (auto simp: append_eq_append_conv2)
  then show ?thesis
  proof
    assume u: "a = c @ us \<and> us @ ?ar @ b = ?ar @ d"
    then have "us = []" using assms(1) by (cases us) (auto simp: plain_def)
    then show ?thesis using u by simp
  next
    assume u: "a @ us = c \<and> ?ar @ b = us @ ?ar @ d"
    have "us = []"
    proof (cases us)
      case (Cons x xs)
      then have "CHR 0x86 # CHR 0x92 # b = xs @ ?ar @ d" using u by simp
      then have "CHR 0xE2 \<in> set (CHR 0x86 # CHR 0x92 # b)" by simp
      then show ?thesis using assms(2) by (simp add: plain_def)
    qed simp
    then show ?thesis using u by simp
  qed
qed

definition rows_ok :: "Tracker \<Rightarrow> bool" where
  "rows_ok t \<longleftrightarrow>
     distinct (map crID (trCalls t)) \<and> 0 < trNextID t
     \<and> (\<forall>r \<in> set (trCalls t). 0 < crID r \<and> crID r < trNextID t)"

definition actives_ok :: "Tracker \<Rightarrow> bool" where
  "actives_ok t \<longleftrightarrow>
     mwf (trActive t)
     \<and> (\<forall>k c. map_of (trActive t) k = Some c \<longrightarrow>
          k = callKey (acCaller c) (acCallee c) \<and> plain (acCaller c) \<and> plain (acCallee c)
          \<and> (\<exists>r \<in> set (trCalls t). backs r c))"

definition members_plain :: "ConferenceTracker \<Rightarrow> bool" where
  "members_plain ct \<longleftrightarrow> (\<forall>p cid. map_of (memberIndex ct) p = Some cid \<longrightarrow> plain p)"

definition tr_ok :: "Tracker \<Rightarrow> bool" where
  "tr_ok t \<longleftrightarrow> ct_ok (trConfs t) \<and> members_plain (trConfs t) \<and> rows_ok t \<and> actives_ok t"

lemma tr_okD:
  assumes "tr_ok t"
  shows "ct_ok (trConfs t)" "rows_ok t" "actives_ok t" "mwf (trActive t)"
    "map_of (trActive t) k = Some c \<Longrightarrow> k = callKey (acCaller c) (acCallee c)"
    "map_of (trActive t) k = Some c \<Longrightarrow> \<exists>r \<in> set (trCalls t). backs r c"
    "map_of (trActive t) k = Some c \<Longrightarrow> plain (acCaller c) \<and> plain (acCallee c)"
    "members_plain (trConfs t)"
  using assms unfolding tr_ok_def actives_ok_def by blast+

lemma rows_okD:
  assumes "rows_ok t"
  shows "0 < trNextID t" "r \<in> set (trCalls t) \<Longrightarrow> 0 < crID r"
    "r \<in> set (trCalls t) \<Longrightarrow> crID r < trNextID t"
    "r \<in> set (trCalls t) \<Longrightarrow> s \<in> set (trCalls t) \<Longrightarrow> crID r = crID s \<Longrightarrow> r = s"
proof -
  show "r \<in> set (trCalls t) \<Longrightarrow> s \<in> set (trCalls t) \<Longrightarrow> crID r = crID s \<Longrightarrow> r = s"
    using assms unfolding rows_ok_def distinct_map by (auto dest: inj_onD)
qed (use assms in \<open>auto simp: rows_ok_def\<close>)

lemma tr_ok_New: "tr_ok (NewTracker h d obs)"
  by (simp add: tr_ok_def rows_ok_def actives_ok_def NewTracker_def ct_ok_New members_plain_def)
    (simp add: NewConferenceTracker_def)

lemma tr_ok_cong:
  "trConfs t = trConfs u \<Longrightarrow> trActive t = trActive u \<Longrightarrow> trCalls t = trCalls u
     \<Longrightarrow> trNextID t = trNextID u \<Longrightarrow> tr_ok t = tr_ok u"
  by (simp add: tr_ok_def rows_ok_def actives_ok_def)

text \<open>Changes that touch neither the calls nor the conferences keep the invariant.\<close>

lemma tr_ok_upd [simp]:
  "tr_ok (t\<lparr>trOuts := x\<rparr>) = tr_ok t" "tr_ok (t\<lparr>trConfRows := cr\<rparr>) = tr_ok t"
  "tr_ok (t\<lparr>trMemberRows := mr\<rparr>) = tr_ok t" "tr_ok (t\<lparr>trKicks := ks\<rparr>) = tr_ok t"
  by (simp_all add: tr_ok_def rows_ok_def actives_ok_def)

lemma trEmit_sel [simp]:
  "tr_ok (trEmit xs t) = tr_ok t" "trActive (trEmit xs t) = trActive t"
  "trConfs (trEmit xs t) = trConfs t" "trCalls (trEmit xs t) = trCalls t"
  "trNextID (trEmit xs t) = trNextID t" "hasHealth (trEmit xs t) = hasHealth t"
  "hasDash (trEmit xs t) = hasDash t" "hasObs (trEmit xs t) = hasObs t"
  by (simp_all add: trEmit_def)

lemma tr_ok_confs: "tr_ok t \<Longrightarrow> ct_ok cs \<Longrightarrow> members_plain cs \<Longrightarrow> tr_ok (t\<lparr>trConfs := cs\<rparr>)"
  by (simp add: tr_ok_def rows_ok_def actives_ok_def)

text \<open>Forgetting calls in memory.\<close>

lemma tr_ok_fewer:
  assumes "tr_ok t" and "mwf m" and "map_of m \<subseteq>\<^sub>m map_of (trActive t)"
  shows "tr_ok (t\<lparr>trActive := m\<rparr>)"
proof -
  have sub: "map_of (trActive t) k = Some c" if "map_of m k = Some c" for k c
    using assms(3) that by (auto simp: map_le_def dom_def)
  have "actives_ok (t\<lparr>trActive := m\<rparr>)"
    using assms(2) tr_okD(5,6,7) [OF assms(1) sub] unfolding actives_ok_def by simp
  then show ?thesis
    using assms(1) unfolding tr_ok_def rows_ok_def by simp
qed

lemma map_of_filter: "mwf m \<Longrightarrow> map_of (filter P m) k = Some v \<longleftrightarrow> map_of m k = Some v \<and> P (k, v)"
  using mwf_in_set [of m k v] mwf_in_set [of "filter P m" k v] by auto

lemma map_of_filter_le: "mwf m \<Longrightarrow> map_of (filter P m) \<subseteq>\<^sub>m map_of m"
  unfolding map_le_def by (metis domD map_of_filter)

text \<open>Updating rows: the rows that back a call may not be closed or renamed.\<close>

lemma tr_ok_updateCalls:
  assumes ok: "tr_ok t" and id: "\<And>r. crID (f r) = crID r"
    and safe: "\<And>k c r. map_of (trActive t) k = Some c \<Longrightarrow> r \<in> set (trCalls t) \<Longrightarrow> backs r c \<Longrightarrow> P r \<Longrightarrow> backs (f r) c"
  shows "tr_ok (updateCalls P f t)"
proof -
  have ids: "map crID (map (\<lambda>r. if P r then f r else r) (trCalls t)) = map crID (trCalls t)"
    using id by simp
  then have set_ids: "crID ` set (map (\<lambda>r. if P r then f r else r) (trCalls t)) = crID ` set (trCalls t)"
    by (metis set_map)
  have "rows_ok (updateCalls P f t)"
    using tr_okD(2) [OF ok] ids id unfolding rows_ok_def updateCalls_def by (auto simp del: map_map)
  moreover have "actives_ok (updateCalls P f t)"
    unfolding actives_ok_def
  proof (intro conjI allI impI)
    fix k c assume "map_of (trActive (updateCalls P f t)) k = Some c"
    then have k: "map_of (trActive t) k = Some c" by (simp add: updateCalls_def)
    then obtain r where r: "r \<in> set (trCalls t)" "backs r c" using tr_okD(6) [OF ok] by blast
    have "(if P r then f r else r) \<in> set (trCalls (updateCalls P f t))"
      using r(1) by (simp add: updateCalls_def)
    moreover have "backs (if P r then f r else r) c" using safe [OF k r] r(2) by simp
    ultimately show "\<exists>r \<in> set (trCalls (updateCalls P f t)). backs r c" by blast
    show "k = callKey (acCaller c) (acCallee c)" by (rule tr_okD(5) [OF ok k])
    show "plain (acCaller c)" "plain (acCallee c)" using tr_okD(7) [OF ok k] by simp_all
  qed (simp add: tr_okD(4) [OF ok] updateCalls_def)
  ultimately show ?thesis
    using tr_okD(1,8) [OF ok] by (simp add: tr_ok_def updateCalls_def)
qed

lemma latestCall_Some: "latestCall P rs = Some r \<Longrightarrow> r \<in> set rs \<and> P r"
  by (induction rs) (auto split: option.splits if_splits)

lemma latestCall_None: "latestCall P rs = None \<longleftrightarrow> (\<forall>r \<in> set rs. \<not> P r)"
  by (induction rs) (auto split: option.splits)

lemma tr_ok_updateLatest:
  assumes ok: "tr_ok t" and id: "\<And>r. crID (f r) = crID r"
    and safe: "\<And>k c r. map_of (trActive t) k = Some c \<Longrightarrow> r \<in> set (trCalls t) \<Longrightarrow> backs r c \<Longrightarrow> P r \<Longrightarrow> backs (f r) c"
  shows "tr_ok (updateLatest P f t)"
proof (cases "latestCall P (trCalls t)")
  case (Some s)
  then have s: "s \<in> set (trCalls t)" "P s" using latestCall_Some by blast+
  have "tr_ok (updateCalls (\<lambda>r. crID r = crID s) f t)"
    by (rule tr_ok_updateCalls [OF ok id]) (use safe s rows_okD(4) [OF tr_okD(2) [OF ok]] in metis)
  then show ?thesis using Some by (simp add: updateLatest_def)
qed (use ok in \<open>simp add: updateLatest_def\<close>)

lemma tr_ok_insertCall:
  assumes "tr_ok t" and "insertCall now a b st oc t = (cid, t')"
  shows "tr_ok t'" "cid = trNextID t" "trActive t' = trActive t" "trConfs t' = trConfs t"
    "hasHealth t' = hasHealth t" "hasDash t' = hasDash t" "hasObs t' = hasObs t"
    "st \<noteq> StEnded \<Longrightarrow> \<exists>r \<in> set (trCalls t'). crID r = cid \<and> crCaller r = a \<and> crCallee r = b \<and> isOpen r"
proof -
  show "tr_ok t'"
    using assms rows_okD(3) [OF tr_okD(2) [OF assms(1)]]
    unfolding tr_ok_def rows_ok_def actives_ok_def insertCall_def by fastforce
  show "st \<noteq> StEnded \<Longrightarrow> \<exists>r \<in> set (trCalls t'). crID r = cid \<and> crCaller r = a \<and> crCallee r = b \<and> isOpen r"
    using assms(2) by (cases st) (auto simp: insertCall_def isOpen_def)
qed (use assms(2) in \<open>auto simp: insertCall_def\<close>)

text \<open>Registering a call whose row is in the table.\<close>

lemma tr_ok_register:
  assumes "tr_ok t" and "plain a" and "plain b" and "\<exists>r \<in> set (trCalls t). crID r = cid \<and> crCaller r = a \<and> crCallee r = b \<and> isOpen r"
  shows "tr_ok (t\<lparr>trActive := mput (callKey a b)
           \<lparr>acID = cid, acCaller = a, acCallee = b, acStartedAt = now\<rparr> (trActive t)\<rparr>)"
  using assms unfolding tr_ok_def actives_ok_def rows_ok_def
  by (auto simp: backs_def)

section \<open>Every operation keeps the invariant\<close>

lemma backs_keep:
  "backs r c \<Longrightarrow> crID (f r) = crID r \<Longrightarrow> crCaller (f r) = crCaller r \<Longrightarrow> crCallee (f r) = crCallee r
     \<Longrightarrow> isOpen (f r) \<Longrightarrow> backs (f r) c"
  by (simp add: backs_def)

lemma OnCallInitiated_ok:
  assumes ok: "tr_ok t" and plain: "plain from" "plain to"
  shows "tr_ok (snd (OnCallInitiated db now from to t))"
proof -
  obtain cid t' where i: "insertCall now from to StInitiated None t = (cid, t')"
    by (cases "insertCall now from to StInitiated None t")
  note ins = tr_ok_insertCall [OF ok i]
  have "tr_ok (t'\<lparr>trActive := mput (callKey from to)
      \<lparr>acID = cid, acCaller = from, acCallee = to, acStartedAt = now\<rparr> (trActive t')\<rparr>)"
    by (rule tr_ok_register [OF ins(1) plain]) (rule ins(8), simp)
  then show ?thesis using ok by (simp add: OnCallInitiated_def i Let_def)
qed

lemma OnCallAnswered_ok: "tr_ok t \<Longrightarrow> tr_ok (snd (OnCallAnswered db now caller callee t))"
  by (simp add: OnCallAnswered_def)
    (rule impI, rule tr_ok_updateLatest, auto simp: backs_def isOpen_def)

lemma endCall_sel [simp]:
  "crID (endCall now r) = crID r" "crCaller (endCall now r) = crCaller r"
  "crCallee (endCall now r) = crCallee r" "crStatus (endCall now r) = StEnded"
  "crEndReason (endCall now r) = crEndReason r" "crOrigConf (endCall now r) = crOrigConf r"
  by (simp_all add: endCall_def)

lemma forget_pair_ok:
  assumes "tr_ok t"
  shows "tr_ok (t\<lparr>trActive := mdel (callKey b a) (mdel (callKey a b) (trActive t))\<rparr>)"
  by (rule tr_ok_fewer [OF assms]) (use tr_okD(4) [OF assms] in \<open>auto simp: map_le_def\<close>)

lemma OnCallEndedWithReason_ok:
  assumes "tr_ok t" shows "tr_ok (snd (OnCallEndedWithReason db now a b reason t))"
proof -
  let ?t = "t\<lparr>trActive := mdel (callKey b a) (mdel (callKey a b) (trActive t))\<rparr>"
  have ok: "tr_ok (trEmit xs ?t)" for xs using forget_pair_ok [OF assms] by simp
  have "tr_ok (updateLatest (pairRow a b) (\<lambda>r. endCall now r\<lparr>crEndReason := e\<rparr>) (trEmit xs ?t))" for xs e
  proof (rule tr_ok_updateLatest [OF ok])
    fix k c r
    assume k: "map_of (trActive (trEmit xs ?t)) k = Some c" and r: "backs r c" "pairRow a b r"
    have key: "k = callKey (acCaller c) (acCallee c)" using tr_okD(5) [OF ok k] .
    have "acCaller c = a \<and> acCallee c = b \<or> acCaller c = b \<and> acCallee c = a"
      using r by (auto simp: backs_def pairRow_def)
    moreover have "k \<noteq> callKey a b" "k \<noteq> callKey b a" using k by (auto split: if_splits)
    ultimately have False using key by metis
    then show "backs (endCall now r\<lparr>crEndReason := e\<rparr>) c" ..
  qed simp
  moreover have "\<exists>xs ys. snd (OnCallEndedWithReason db now a b reason t) =
      (if db then trEmit ys (updateLatest (pairRow a b)
           (\<lambda>r. endCall now r\<lparr>crEndReason := nullIfEmpty reason\<rparr>) (trEmit xs ?t)) else trEmit xs ?t)"
    unfolding OnCallEndedWithReason_def Let_def
    by (cases db; simp only: if_True if_False not_True_eq_False not_False_eq_True snd_conv; intro exI; rule refl)
  ultimately show ?thesis using ok by (elim exE) (cases db; simp only: trEmit_sel if_True if_False)
qed

lemma ClearByNumber_trActive:
  "trActive (ClearByNumber db now number t) =
     mdels (map fst (filter (\<lambda>(k, c). involves number c) (trActive t))) (trActive t)"
  by (simp add: ClearByNumber_def Let_def updateCalls_def)

lemma ClearByNumber_active:
  assumes "mwf (trActive t)"
  shows "map_of (trActive (ClearByNumber db now number t)) k = Some c \<longleftrightarrow>
           map_of (trActive t) k = Some c \<and> \<not> involves number c"
proof -
  have hit: "k \<in> set (map fst (filter (\<lambda>(k, c). involves number c) (trActive t))) \<longleftrightarrow>
      (\<exists>c. map_of (trActive t) k = Some c \<and> involves number c)"
    using mwf_in_set [OF assms] by force
  show ?thesis unfolding ClearByNumber_trActive map_of_mdels hit by auto
qed

lemma ClearByNumber_ok:
  assumes "tr_ok t" shows "tr_ok (ClearByNumber db now number t)"
proof -
  let ?m = "mdels (map fst (filter (\<lambda>(k, c). involves number c) (trActive t))) (trActive t)"
  let ?t = "t\<lparr>trActive := ?m\<rparr>"
  have ok: "tr_ok (trEmit xs ?t)" for xs
    using tr_ok_fewer [OF assms mwf_mdels [OF tr_okD(4) [OF assms]] mdels_le] by simp
  have inv: "\<not> involves number c" if "map_of ?m k = Some c" for k c
    using ClearByNumber_active [OF tr_okD(4) [OF assms], of db now number k c] that
    unfolding ClearByNumber_trActive by simp
  have "tr_ok (updateCalls (\<lambda>r. (crCaller r = number \<or> crCallee r = number) \<and> isOpen r) (endCall now) (trEmit xs ?t))" for xs
  proof (rule tr_ok_updateCalls [OF ok])
    fix k c r
    assume "map_of (trActive (trEmit xs ?t)) k = Some c" and r: "backs r c"
      and P: "(crCaller r = number \<or> crCallee r = number) \<and> isOpen r"
    then have "\<not> involves number c" using inv [of k c] by simp
    then show "backs (endCall now r) c" using r P by (simp add: backs_def involves_def)
  qed simp
  moreover have "\<exists>xs ys. ClearByNumber db now number t =
      (if db then trEmit ys (updateCalls (\<lambda>r. (crCaller r = number \<or> crCallee r = number) \<and> isOpen r)
           (endCall now) (trEmit xs ?t)) else trEmit ys (trEmit xs ?t))"
    unfolding ClearByNumber_def Let_def
    by (cases db; simp only: if_True if_False; intro exI; rule refl)
  ultimately show ?thesis using ok by (elim exE) (cases db; simp only: trEmit_sel if_True if_False)
qed

lemma RenameNumber_ok:
  assumes ok: "tr_ok t" and free: "\<not> list_ex (involves old) (activeCalls t)"
  shows "tr_ok (snd (RenameNumber db old new t))"
proof -
  have c: "\<not> involves old c" if "map_of (trActive t) k = Some c" for k c
    using free that by (auto simp: list_ex_iff activeCalls_def dest!: map_of_SomeD)
  have "tr_ok (updateCalls (\<lambda>_. True) (renameRow old new) t)"
    by (rule tr_ok_updateCalls [OF ok])
      (use c in \<open>auto simp: renameRow_def backs_def involves_def isOpen_def\<close>)
  then show ?thesis using ok by (simp add: RenameNumber_def updateCalls_def)
qed

lemma MarkForceEnded_ok: "tr_ok t \<Longrightarrow> tr_ok (snd (MarkForceEnded db cid u t))"
  by (auto simp: MarkForceEnded_def isOpen_def backs_def intro!: tr_ok_updateCalls)

lemma members_plain_End: "members_plain ct \<Longrightarrow> members_plain (snd (EndConference cid reason ct))"
  by (auto simp: members_plain_def EndConference_def map_of_mdels split: option.splits if_splits)

lemma members_plain_Drop: "members_plain ct \<Longrightarrow> members_plain (snd (DropMember now cid p reason ct))"
  by (auto simp: members_plain_def DropMember_def map_of_mdels Let_def split: option.splits if_splits)

lemma EndConferencePersistent_ok: "tr_ok t \<Longrightarrow> tr_ok (snd (EndConferencePersistent db now cid reason t))"
  using EndConference_ok [of "trConfs t" cid reason] members_plain_End [of "trConfs t" cid reason]
    tr_ok_confs [of t] tr_okD(1,8) [of t]
  by (cases "EndConference cid reason (trConfs t)")
    (auto simp: EndConferencePersistent_def Let_def split: sum.split)

lemma RecordKick_ok: "tr_ok t \<Longrightarrow> tr_ok (snd (RecordKick db cid phone u t))"
  by (simp add: RecordKick_def)

text \<open>The ids \<open>addedCalls\<close> finds belong to calls of the host with a member.\<close>

lemma CallIDForPair_nonzero:
  assumes "CallIDForPair a b t \<noteq> 0"
  shows "\<exists>k c. map_of (trActive t) k = Some c \<and> acID c = CallIDForPair a b t
           \<and> (k = callKey a b \<or> k = callKey b a)"
  using assms by (auto simp: CallIDForPair_def split: option.splits)

lemma addedCalls_ids:
  "addedCalls host ms t = Inr ids \<Longrightarrow> ids = map (\<lambda>m. CallIDForPair host m t) ms \<and> 0 \<notin> set ids"
  by (induction ms arbitrary: ids) (auto split: if_splits sum.splits)

lemma CreateConference_cases:
  obtains (fail) e where "CreateConference newId now host orig added ct = (Inl e, ct)"
  | (created) conf ct1 where "CreateConference newId now host orig added ct = (Inr conf, ct1)"
  unfolding CreateConference_def Let_def by (cases "length added = 2"; cases "mhas host (memberIndex ct)";
      cases "firstBusy added (memberIndex ct)") auto

text \<open>The originating call is one of the merged ones, as the relay passes it.\<close>

definition origin_ok :: "string \<Rightarrow> int \<Rightarrow> string list \<Rightarrow> Tracker \<Rightarrow> bool" where
  "origin_ok host orig added t \<longleftrightarrow> list_ex (\<lambda>m. orig = CallIDForPair host m t) added"

lemma merged_involves:
  assumes ok: "tr_ok t" and conf: "CreateConference newId now host orig added (trConfs t) = (Inr conf, cs)"
    and m: "m \<in> set added" and nz: "CallIDForPair host m t \<noteq> 0"
    and c: "map_of (trActive t) k = Some c" "acID c = CallIDForPair host m t"
  shows "involvesMember conf c"
proof -
  obtain j d where d: "map_of (trActive t) j = Some d" "acID d = CallIDForPair host m t"
    "j = callKey host m \<or> j = callKey m host"
    using CallIDForPair_nonzero [OF nz] by blast
  obtain r where r: "r \<in> set (trCalls t)" "backs r c" using tr_okD(6) [OF ok c(1)] by blast
  obtain s where s: "s \<in> set (trCalls t)" "backs s d" using tr_okD(6) [OF ok d(1)] by blast
  have "r = s" using rows_okD(4) [OF tr_okD(2) [OF ok] r(1) s(1)] r(2) s(2) c(2) d(2) by (simp add: backs_def)
  then have "callKey (acCaller c) (acCallee c) = callKey (acCaller d) (acCallee d)"
    using r(2) s(2) by (simp add: backs_def)
  then have "k = j" using tr_okD(5) [OF ok c(1)] tr_okD(5) [OF ok d(1)] by simp
  have mem: "mhas p (Members conf) \<longleftrightarrow> p = host \<or> p \<in> set added" for p
    using CreateConference_Inr(1) [OF conf] by (simp add: mhas_confMembers)
  have key: "callKey (acCaller c) (acCallee c) \<in> {callKey host m, callKey m host}"
    using tr_okD(5) [OF ok c(1)] d(3) \<open>k = j\<close> by auto
  have "acCaller c = host \<and> acCallee c = m \<or> acCaller c = m \<and> acCallee c = host"
    using callKey_inj tr_okD(7) [OF ok c(1)] key by blast
  then show ?thesis using mem m by (auto simp: involvesMember_def)
qed

lemma addedCalls_plain:
  assumes ok: "tr_ok t" and "addedCalls host ms t = Inr ids" and "m \<in> set ms"
  shows "plain host \<and> plain m"
proof -
  have "CallIDForPair host m t \<in> set ids" and "0 \<notin> set ids"
    using addedCalls_ids [OF assms(2)] assms(3) by auto
  then have "CallIDForPair host m t \<noteq> 0" by metis
  then obtain k c where c: "map_of (trActive t) k = Some c" "k = callKey host m \<or> k = callKey m host"
    using CallIDForPair_nonzero by blast
  have "callKey (acCaller c) (acCallee c) = callKey host m \<or> callKey (acCaller c) (acCallee c) = callKey m host"
    using tr_okD(5) [OF ok c(1)] c(2) by simp
  then show ?thesis using callKey_inj tr_okD(7) [OF ok c(1)] by metis
qed

lemma members_plain_Create:
  assumes "members_plain ct" and "CreateConference newId now host orig added ct = (Inr conf, ct1)"
    and "plain host" and "\<And>m. m \<in> set added \<Longrightarrow> plain m"
  shows "members_plain ct1"
  using assms CreateConference_Inr(2) [OF assms(2)]
  by (auto simp: members_plain_def map_of_mputs split: if_splits)

lemma CreateConferencePersistent_ok:
  assumes ok: "tr_ok t" and fresh: "\<not> mhas newId (ctActive (trConfs t))"
    and origin: "origin_ok host orig added t"
  shows "tr_ok (snd (CreateConferencePersistent db newId now host orig added t))"
proof (cases "addedCalls host added t")
  case (Inl e)
  then show ?thesis using ok by (simp add: CreateConferencePersistent_def)
next
  case (Inr ids)
  show ?thesis
  proof (cases rule: CreateConference_cases [of newId now host orig added "trConfs t"])
    case (fail e)
    then show ?thesis using ok Inr by (simp add: CreateConferencePersistent_def)
  next
    case (created conf cs)
    have cs: "ct_ok cs" using CreateConference_ok [OF tr_okD(1) [OF ok] fresh, of now host orig added] created by simp
    obtain m0 where m0: "m0 \<in> set added" using CreateConference_Inr(3) [OF created] by (cases added) auto
    have plain: "plain host" "\<And>m. m \<in> set added \<Longrightarrow> plain m"
      using addedCalls_plain [OF ok Inr] m0 by blast+
    have csp: "members_plain cs" by (rule members_plain_Create [OF tr_okD(8) [OF ok] created plain])
    show ?thesis
    proof (cases db)
      case False
      have "tr_ok (t\<lparr>trConfs := snd (EndConference (confId conf) ''db_error'' cs)\<rparr>)"
        by (rule tr_ok_confs [OF ok EndConference_ok [OF cs] members_plain_End [OF csp]])
      then show ?thesis using Inr created False by (simp add: CreateConferencePersistent_def)
    next
      case True
      let ?f = "filter (\<lambda>(k, c). \<not> involvesMember conf c) (trActive t)"
      let ?t = "t\<lparr>trConfs := cs, trActive := ?f\<rparr>"
      have okf: "tr_ok ?t"
        using tr_ok_fewer [OF tr_ok_confs [OF ok cs csp], of ?f] tr_okD(4) [OF ok]
        by (simp add: map_of_filter_le)
      have ids: "i \<noteq> 0 \<and> (\<exists>m \<in> set added. i = CallIDForPair host m t)"
        if "i \<in> set (OriginatingCallID conf # ids)" for i
      proof -
        have orig: "OriginatingCallID conf = orig" using CreateConference_Inr(1) [OF created] by simp
        have "orig \<in> set ids" using origin addedCalls_ids [OF Inr]
          by (auto simp: origin_ok_def list_ex_iff)
        then show ?thesis using that addedCalls_ids [OF Inr] orig by auto
      qed
      let ?P = "\<lambda>r. crID r \<in> set (OriginatingCallID conf # ids)"
      have "tr_ok (updateCalls ?P (mergedRow now) ?t)"
      proof (rule tr_ok_updateCalls [OF okf])
        fix k c r
        assume k: "map_of (trActive ?t) k = Some c" and r: "backs r c" and P: "?P r"
        have c: "map_of (trActive t) k = Some c" and no: "\<not> involvesMember conf c"
          using k map_of_filter [OF tr_okD(4) [OF ok]] by auto
        obtain m where "m \<in> set added" "acID c = CallIDForPair host m t" "CallIDForPair host m t \<noteq> 0"
          using ids [OF P] r by (auto simp: backs_def)
        then have "involvesMember conf c" using merged_involves [OF ok created _ _ c] by simp
        then show "backs (mergedRow now r) c" using no by simp
      qed (simp add: mergedRow_def)
      then show ?thesis
        by (rule tr_ok_cong [THEN iffD1, rotated 4])
          (use Inr created True in \<open>simp_all add: CreateConferencePersistent_def createConfTx_def
             updateCalls_def Let_def\<close>)
    qed
  qed
qed

lemma DropMemberPersistent_ok:
  assumes ok: "tr_ok t" shows "tr_ok (snd (DropMemberPersistent db now cid phone reason t))"
proof (cases "DropMember now cid phone reason (trConfs t)")
  case (Pair r cs)
  have cs: "ct_ok cs" "members_plain cs"
    using DropMember_ok [OF tr_okD(1) [OF ok], of now cid phone reason]
      members_plain_Drop [OF tr_okD(8) [OF ok], of now cid phone reason] Pair by simp_all
  have okc: "tr_ok (t\<lparr>trConfs := cs\<rparr>)" by (rule tr_ok_confs [OF ok cs])
  have okx: "tr_ok (dropMemberTx now cid phone reason (t\<lparr>trConfs := cs\<rparr>))"
    using okc by (simp add: dropMemberTx_def)
  have survivors: "tr_ok (case sortedPair x y of (a, b) \<Rightarrow> case insertCall now a b StConnected (Some cid) u of
       (n, v) \<Rightarrow> v\<lparr>trActive := mput (callKey a b) \<lparr>acID = n, acCaller = a, acCallee = b, acStartedAt = now\<rparr> (trActive v)\<rparr>)"
    if u: "tr_ok u" and p: "plain x" "plain y" for x y u
  proof -
    obtain a b where ab: "sortedPair x y = (a, b)" "plain a" "plain b"
      using p by (cases "y < x") (auto simp: sortedPair_def)
    obtain n v where v: "insertCall now a b StConnected (Some cid) u = (n, v)"
      by (cases "insertCall now a b StConnected (Some cid) u")
    note ins = tr_ok_insertCall [OF u v]
    show ?thesis unfolding ab v prod.case
      by (rule tr_ok_register [OF ins(1) ab(2,3)]) (rule ins(8), simp)
  qed
  have rem: "plain p" if rr: "r = Inr remaining" and pp: "p \<in> set remaining" for remaining p
  proof -
    obtain conf m where c: "map_of (ctActive (trConfs t)) cid = Some conf"
      "map_of (Members conf) phone = Some m"
      "remaining = stillIn (mput phone (leaveMember now reason m) (Members conf))"
      using Pair rr by (auto simp: DropMember_def Let_def split: option.splits)
    have "p \<in> set (mkeys (Members conf))"
      using stillIn_drop [OF ct_okD(3) [OF tr_okD(1) [OF ok] c(1)] c(2), of now reason] c(3) pp by auto
    then have "map_of (memberIndex (trConfs t)) p = Some cid"
      using ct_okD(4) [OF tr_okD(1) [OF ok], of p cid] c(1) by (simp add: mhas_iff)
    then show ?thesis using tr_okD(8) [OF ok] by (simp add: members_plain_def)
  qed
  show ?thesis
  proof (cases r)
    case (Inr remaining)
    show ?thesis
    proof (cases "length remaining = 2")
      case True
      then obtain x y where xy: "remaining = [x, y]" by (auto simp: numeral_2_eq_2 length_Suc_conv)
      have "plain x" "plain y" using rem [OF Inr] xy by simp_all
      then show ?thesis
        using ok okc okx survivors [OF okx, of x y] Pair Inr xy
        by (simp add: DropMemberPersistent_def Let_def case_prod_unfold)
    next
      case False
      then show ?thesis
        using ok okc okx Pair Inr
        by (auto simp: DropMemberPersistent_def Let_def split: list.split)
    qed
  qed (use ok Pair in \<open>simp add: DropMemberPersistent_def\<close>)
qed

section \<open>Runs\<close>

datatype tr_move =
    TrInitiated bool int string string | TrAnswered bool int string string
  | TrEnded bool int string string string | TrClear bool int string | TrRename bool string string
  | TrForceEnded bool int string | TrCreateConf bool uuid int string int "string list"
  | TrEndConf bool int uuid string | TrKick bool uuid string string
  | TrDrop bool int uuid string string

fun tr_step :: "tr_move \<Rightarrow> Tracker \<Rightarrow> Tracker" where
  "tr_step (TrInitiated db now a b) t = snd (OnCallInitiated db now a b t)"
| "tr_step (TrAnswered db now a b) t = snd (OnCallAnswered db now a b t)"
| "tr_step (TrEnded db now a b reason) t = snd (OnCallEndedWithReason db now a b reason t)"
| "tr_step (TrClear db now n) t = ClearByNumber db now n t"
| "tr_step (TrRename db old new) t = snd (RenameNumber db old new t)"
| "tr_step (TrForceEnded db cid u) t = snd (MarkForceEnded db cid u t)"
| "tr_step (TrCreateConf db newId now host orig added) t =
     snd (CreateConferencePersistent db newId now host orig added t)"
| "tr_step (TrEndConf db now cid reason) t = snd (EndConferencePersistent db now cid reason t)"
| "tr_step (TrKick db cid p u) t = snd (RecordKick db cid p u t)"
| "tr_step (TrDrop db now cid p reason) t = snd (DropMemberPersistent db now cid p reason t)"

text \<open>
  What the callers guarantee: numbers without the arrow's bytes, a fresh UUID, the originating
  call among the merged ones, and no rename of a number in a two-party call (the handler of
  \<^verbatim>\<open>handler_phones.go\<close> checks that the line is not busy).
\<close>
fun tr_move_ok :: "tr_move \<Rightarrow> Tracker \<Rightarrow> bool" where
  "tr_move_ok (TrInitiated db now a b) t = (plain a \<and> plain b)"
| "tr_move_ok (TrRename db old new) t = (\<not> list_ex (involves old) (activeCalls t))"
| "tr_move_ok (TrCreateConf db newId now host orig added) t =
     (\<not> mhas newId (ctActive (trConfs t)) \<and> origin_ok host orig added t)"
| "tr_move_ok _ t = True"

interpretation tracker: invariant_machine tr_step tr_move_ok tr_ok
proof
  show "tr_ok (tr_step m t)" if "tr_move_ok m t" "tr_ok t" for m t
    using that
    by (cases m) (simp_all add: OnCallInitiated_ok OnCallAnswered_ok OnCallEndedWithReason_ok
        ClearByNumber_ok RenameNumber_ok MarkForceEnded_ok CreateConferencePersistent_ok
        EndConferencePersistent_ok RecordKick_ok DropMemberPersistent_ok)
qed

text \<open>
  C15: Memory never runs ahead of the database.  In every run of the tracker, whatever
  statements fail, each two-party call held in memory is backed by a row of the table with its
  id, caller and callee that is not ended, the row ids are distinct, and both numbers of the
  call can be read back from its key.
\<close>
theorem active_calls_backed:
  assumes "allowed_run tr_step tr_move_ok ms (NewTracker h d obs)"
    and "t = fold tr_step ms (NewTracker h d obs)"
    and "map_of (trActive t) k = Some c"
  shows "k = callKey (acCaller c) (acCallee c)
       \<and> (\<exists>r \<in> set (trCalls t). crID r = acID c \<and> crCaller r = acCaller c
             \<and> crCallee r = acCallee c \<and> isOpen r
             \<and> (\<forall>s \<in> set (trCalls t). crID s = acID c \<longrightarrow> s = r))"
proof -
  have ok: "tr_ok t" using tracker.run_inv [OF tr_ok_New assms(1)] assms(2) by simp
  obtain r where r: "r \<in> set (trCalls t)" "backs r c" using tr_okD(6) [OF ok assms(3)] by blast
  moreover have "\<forall>s \<in> set (trCalls t). crID s = acID c \<longrightarrow> s = r"
    using rows_okD(4) [OF tr_okD(2) [OF ok]] r by (metis backs_def)
  ultimately show ?thesis
    using tr_okD(5) [OF ok assms(3)] unfolding backs_def by blast
qed

definition merge_moves :: "tr_move list" where
  "merge_moves =
     [TrInitiated True 10 ''100'' ''200'', TrInitiated True 20 ''100'' ''300'',
      TrCreateConf True 7 30 ''100'' 1 [''200'', ''300''], TrDrop True 40 7 ''100'' ''left'']"

lemma active_calls_backed_witness:
  "\<exists>c. map_of (trActive (fold tr_step merge_moves (NewTracker True True True))) (callKey ''200'' ''300'') = Some c
     \<and> callKey ''200'' ''300'' = callKey (acCaller c) (acCallee c) \<and> acID c = 3"
proof -
  have a: "allowed_run tr_step tr_move_ok merge_moves (NewTracker True True True)" by code_simp
  have m: "map_of (trActive (fold tr_step merge_moves (NewTracker True True True))) (callKey ''200'' ''300'')
      = Some \<lparr>acID = 3, acCaller = ''200'', acCallee = ''300'', acStartedAt = 40\<rparr>"
    by code_simp
  show ?thesis using active_calls_backed [OF a refl m] m by simp
qed

end
