(* ===== verification/Tracker_Ops.thy ===== *)
theory Tracker_Ops
  imports Tracker_Inv "HOL-Library.Multiset"
begin

text \<open>
  What the tracker's operations do to the calls of one number or pair: ending a call, the
  sweep after a lost connection, the admission test for a third party, and the merge of two
  calls into a conference followed by its split.
\<close>

section \<open>Ending a call\<close>

lemma pairRow_sym: "pairRow a b = pairRow b a"
  by (auto simp: pairRow_def fun_eq_iff)

lemma OnCallEndedWithReason_active:
  "trActive (snd (OnCallEndedWithReason db now a b reason t)) = mdel (callKey b a) (mdel (callKey a b) (trActive t))"
  by (simp add: OnCallEndedWithReason_def Let_def updateLatest_def updateCalls_def split: option.split)

lemma OnCallEndedWithReason_calls:
  "trCalls (snd (OnCallEndedWithReason db now a b reason t)) =
     (if db then trCalls (updateLatest (pairRow a b) (\<lambda>r. endCall now r\<lparr>crEndReason := nullIfEmpty reason\<rparr>) t)
      else trCalls t)"
  by (simp add: OnCallEndedWithReason_def Let_def updateLatest_def updateCalls_def split: option.split)

text \<open>
  Either side can end the call.  After \<open>OnCallEndedWithReason\<close> the pair is in no call, in
  memory, in either direction, every other call in memory is untouched, and when the database
  answers, of the table exactly the latest open row of the pair is ended, with the reason
  (none for the empty reason) and its duration from the answer or the start; calling it with
  the parties exchanged gives the same memory and the same table.
\<close>
theorem call_ended_by_either_side:
  fixes a b reason :: string and t :: Tracker and db :: bool and now :: int
  defines "t1 \<equiv> snd (OnCallEndedWithReason db now a b reason t)"
  defines "t2 \<equiv> snd (OnCallEndedWithReason db now b a reason t)"
  shows "\<not> InCall a b t1 \<and> \<not> InCall b a t1
    \<and> map_of (trActive t1) = (map_of (trActive t))(callKey a b := None, callKey b a := None)
    \<and> trCalls t1 =
        (case latestCall (pairRow a b) (trCalls t) of
           Some s \<Rightarrow> if db then map (\<lambda>r. if crID r = crID s
                                then endCall now r\<lparr>crEndReason := nullIfEmpty reason\<rparr> else r) (trCalls t)
                     else trCalls t
         | None \<Rightarrow> trCalls t)
    \<and> map_of (trActive t1) = map_of (trActive t2) \<and> trCalls t1 = trCalls t2"
proof -
  have act: "map_of (trActive t1) = (map_of (trActive t))(callKey a b := None, callKey b a := None)"
    by (simp add: t1_def OnCallEndedWithReason_active)
  have "map_of (trActive t1) = map_of (trActive t2)"
    by (auto simp: t1_def t2_def OnCallEndedWithReason_active)
  moreover have "trCalls t1 = trCalls t2"
    unfolding t1_def t2_def OnCallEndedWithReason_calls by (simp add: pairRow_sym [of a b])
  moreover have "trCalls t1 =
        (case latestCall (pairRow a b) (trCalls t) of
           Some s \<Rightarrow> if db then map (\<lambda>r. if crID r = crID s
                                then endCall now r\<lparr>crEndReason := nullIfEmpty reason\<rparr> else r) (trCalls t)
                     else trCalls t
         | None \<Rightarrow> trCalls t)"
    unfolding t1_def OnCallEndedWithReason_calls
    by (simp add: updateLatest_def updateCalls_def split: option.split)
  moreover have "\<not> InCall a b t1" "\<not> InCall b a t1"
    using act by (simp_all add: InCall_def mhas_def)
  ultimately show ?thesis using act by blast
qed

section \<open>The sweep after a lost connection\<close>

text \<open>
  After \<open>ClearByNumber\<close> no call in memory involves the number and no other call is
  touched; if the database answers, no row of the number is open and every row that was not an
  open row of the number is unchanged; so the number is busy only if it is in a conference.
\<close>
theorem clear_by_number:
  assumes "tr_ok t" and "t' = ClearByNumber db now number t"
  shows "(map_of (trActive t') k = Some c \<longleftrightarrow> map_of (trActive t) k = Some c \<and> \<not> involves number c)
       \<and> (Busy number t' \<longleftrightarrow> ctIsBusy number (trConfs t))
       \<and> (db \<longrightarrow> trCalls t' = map (\<lambda>r. if (crCaller r = number \<or> crCallee r = number) \<and> isOpen r
                                     then endCall now r else r) (trCalls t)
               \<and> (\<forall>r \<in> set (trCalls t'). crCaller r = number \<or> crCallee r = number \<longrightarrow> \<not> isOpen r))"
proof -
  have wf: "mwf (trActive t)" using tr_okD(4) [OF assms(1)] .
  have wf': "mwf (trActive t')" unfolding assms(2) ClearByNumber_trActive using wf by simp
  have act: "map_of (trActive t') k = Some c \<longleftrightarrow> map_of (trActive t) k = Some c \<and> \<not> involves number c" for k c
    unfolding assms(2) by (rule ClearByNumber_active [OF wf])
  have "\<not> involves number c" if "c \<in> set (activeCalls t')" for c
  proof -
    have "c \<in> snd ` set (trActive t')" using that by (simp add: activeCalls_def)
    then obtain k where "(k, c) \<in> set (trActive t')" by force
    then have "map_of (trActive t') k = Some c" using mwf_in_set [OF wf'] by blast
    then show ?thesis using act by blast
  qed
  then have none: "\<not> list_ex (involves number) (activeCalls t')"
    by (auto simp: list_ex_iff)
  have confs: "trConfs t' = trConfs t"
    unfolding assms(2) by (simp add: ClearByNumber_def Let_def updateCalls_def)
  have calls: "db \<longrightarrow> trCalls t' = map (\<lambda>r. if (crCaller r = number \<or> crCallee r = number) \<and> isOpen r
                                     then endCall now r else r) (trCalls t)"
    unfolding assms(2) by (simp add: ClearByNumber_def Let_def updateCalls_def)
  have closed: "db \<longrightarrow> (\<forall>r \<in> set (trCalls t'). crCaller r = number \<or> crCallee r = number \<longrightarrow> \<not> isOpen r)"
    using calls by (auto simp: isOpen_def)
  have "Busy number t' \<longleftrightarrow> ctIsBusy number (trConfs t)" by (simp add: Busy_def confs none)
  then show ?thesis using act [of k c] calls closed by blast
qed

lemma clear_by_number_witness:
  "Busy ''100'' (ClearByNumber True 50 ''100'' (fold tr_step [TrInitiated True 10 ''100'' ''200''] (NewTracker True True True)))
     = ctIsBusy ''100'' (trConfs (fold tr_step [TrInitiated True 10 ''100'' ''200''] (NewTracker True True True)))"
proof -
  have "tr_ok (fold tr_step [TrInitiated True 10 ''100'' ''200''] (NewTracker True True True))"
    by (rule tracker.run_inv [OF tr_ok_New]) (simp add: plain_def)
  note clear = clear_by_number [OF this refl, of True 50 "''100''"]
  have "trConfs (ClearByNumber db now n t) = trConfs t" for db now n t
    by (simp add: ClearByNumber_def Let_def updateCalls_def)
  then show ?thesis using clear by blast
qed

section \<open>Queries and Go's map order\<close>

lemma canAddLoop_spec:
  "canAddLoop number cs n \<longleftrightarrow>
     (\<forall>c \<in> set cs. acCallee c \<noteq> number) \<and> n + length (filter (\<lambda>c. acCaller c = number) cs) = 1"
  by (induction cs arbitrary: n) auto

lemma peersIn_mset: "mset (peersIn number cs) = mset (peersIn number ds)" if "mset cs = mset ds"
proof -
  have "mset (peersIn number cs) = image_mset (\<lambda>c. if acCaller c = number then acCallee c else acCaller c)
      (filter_mset (involves number) (mset cs))" for cs
    by (induction cs) (auto simp: involves_def)
  then show ?thesis using that by metis
qed

text \<open>
  A phone may add a third party exactly when it is in no conference, is the callee of no
  call and the caller of exactly one.  None of this depends on the order in which Go iterates
  over the active calls: for any reordering of them \<open>Busy\<close> and \<open>CanAddAsHost\<close> answer the same
  and \<open>AllPeersOf\<close> lists the same peers as often; and when it may add, \<open>PeerOf\<close> is its only peer.
\<close>
theorem can_add_as_host_spec:
  "(CanAddAsHost number t \<longleftrightarrow>
      \<not> ctIsBusy number (trConfs t) \<and> (\<forall>c \<in> set (activeCalls t). acCallee c \<noteq> number)
      \<and> length (filter (\<lambda>c. acCaller c = number) (activeCalls t)) = 1)
   \<and> (CanAddAsHost number t \<longrightarrow> AllPeersOf number t = [PeerOf number t])
   \<and> (mset (trActive u) = mset (trActive t) \<and> trConfs u = trConfs t \<longrightarrow>
        Busy number u = Busy number t \<and> CanAddAsHost number u = CanAddAsHost number t
        \<and> mset (AllPeersOf number u) = mset (AllPeersOf number t))"
proof -
  have spec: "CanAddAsHost number t \<longleftrightarrow>
      \<not> ctIsBusy number (trConfs t) \<and> (\<forall>c \<in> set (activeCalls t). acCallee c \<noteq> number)
      \<and> length (filter (\<lambda>c. acCaller c = number) (activeCalls t)) = 1" for t
    by (simp add: CanAddAsHost_def canAddLoop_spec)
  have peers: "length (peersIn number cs) = length (filter (\<lambda>c. acCaller c = number) cs)"
    if "\<forall>c \<in> set cs. acCallee c \<noteq> number" for cs
    using that by (induction cs) auto
  have one: "AllPeersOf number t = [PeerOf number t]" if "CanAddAsHost number t"
  proof -
    have "length (AllPeersOf number t) = 1"
      using that peers [of "activeCalls t"] by (simp add: spec AllPeersOf_def)
    then show ?thesis by (cases "AllPeersOf number t") (auto simp: PeerOf_def AllPeersOf_def)
  qed
  have order: "Busy number u = Busy number t \<and> CanAddAsHost number u = CanAddAsHost number t
        \<and> mset (AllPeersOf number u) = mset (AllPeersOf number t)"
    if m: "mset (trActive u) = mset (trActive t)" "trConfs u = trConfs t"
  proof -
    have calls: "mset (activeCalls u) = mset (activeCalls t)"
      using m(1) by (metis activeCalls_def mset_map)
    then have "set (activeCalls u) = set (activeCalls t)" by (metis set_mset_mset)
    moreover have "length (filter P (activeCalls u)) = length (filter P (activeCalls t))" for P
      using calls by (metis mset_filter size_mset)
    ultimately show ?thesis
      using m(2) peersIn_mset [OF calls] by (simp add: Busy_def spec list_ex_iff AllPeersOf_def)
  qed
  show ?thesis using spec [of t] one order by blast
qed

lemma can_add_as_host_witness:
  "AllPeersOf ''100'' (fold tr_step [TrInitiated True 10 ''100'' ''200''] (NewTracker True True True))
     = [PeerOf ''100'' (fold tr_step [TrInitiated True 10 ''100'' ''200''] (NewTracker True True True))]"
proof -
  have "CanAddAsHost ''100'' (fold tr_step [TrInitiated True 10 ''100'' ''200''] (NewTracker True True True))"
    by code_simp
  with can_add_as_host_spec [of "''100''" "fold tr_step [TrInitiated True 10 ''100'' ''200''] (NewTracker True True True)"]
  show ?thesis by blast
qed

section \<open>Merging two calls and splitting them again\<close>

lemma activeCalls_filter:
  "activeCalls (t\<lparr>trActive := filter (\<lambda>(k, c). P c) (trActive t)\<rparr>) = filter P (activeCalls t)"
  by (simp add: activeCalls_def filter_map comp_def case_prod_unfold)

lemma peersIn_none: "(\<And>c. c \<in> set cs \<Longrightarrow> \<not> involves p c) \<Longrightarrow> peersIn p cs = []"
  by (induction cs) (auto simp: involves_def)

lemma Create_persistent_Inr:
  assumes "CreateConferencePersistent db newId now host orig added t = (Inr conf, t')"
  obtains ids cs where "addedCalls host added t = Inr ids"
    and "CreateConference newId now host orig added (trConfs t) = (Inr conf, cs)" and db
    and "trConfs t' = cs"
    and "trActive t' = filter (\<lambda>(k, c). \<not> involvesMember conf c) (trActive t)"
    and "trCalls t' = map (\<lambda>r. if crID r \<in> set (orig # ids) then mergedRow now r else r) (trCalls t)"
proof -
  obtain ids where ids: "addedCalls host added t = Inr ids"
    using assms by (auto simp: CreateConferencePersistent_def split: sum.splits)
  obtain cs where cs: "CreateConference newId now host orig added (trConfs t) = (Inr conf, cs)" and db: db
    using assms ids by (auto simp: CreateConferencePersistent_def Let_def split: sum.splits prod.splits if_splits)
  have "t' = snd (CreateConferencePersistent db newId now host orig added t)" using assms by simp
  then have "trConfs t' = cs \<and> trActive t' = filter (\<lambda>(k, c). \<not> involvesMember conf c) (trActive t)
    \<and> trCalls t' = map (\<lambda>r. if crID r \<in> set (orig # ids) then mergedRow now r else r) (trCalls t)"
    using ids cs db CreateConference_Inr(1) [OF cs]
    by (simp add: CreateConferencePersistent_def createConfTx_def updateCalls_def Let_def)
  then show thesis using that ids cs db by blast
qed

text \<open>
  A merge moves its members from calls to the conference.  After a successful
  \<open>CreateConferencePersistent\<close> the host and the added phones are busy, none of them has a
  two-party peer left or may add another party, and the calls of every phone outside the
  conference are those it had with phones outside; each merged row is ended as
  \<^verbatim>\<open>merged_to_conference\<close> and every other row is unchanged.
\<close>
theorem merge_moves_members:
  assumes "CreateConferencePersistent db newId now host orig added t = (Inr conf, t')"
    and "p = host \<or> p \<in> set added"
  shows "Busy p t' \<and> AllPeersOf p t' = [] \<and> \<not> CanAddAsHost p t'
     \<and> ConferenceByPhone p (trConfs t') = Some conf
     \<and> activeCalls t' = filter (\<lambda>c. \<not> involvesMember conf c) (activeCalls t)
     \<and> trCalls t' = map (\<lambda>r. if crID r = orig \<or> crID r \<in> set (map (\<lambda>m. CallIDForPair host m t) added)
                               then mergedRow now r else r) (trCalls t)"
proof -
  obtain ids cs where ids: "addedCalls host added t = Inr ids"
    and cs: "CreateConference newId now host orig added (trConfs t) = (Inr conf, cs)"
    and t': "trConfs t' = cs" "trActive t' = filter (\<lambda>(k, c). \<not> involvesMember conf c) (trActive t)"
      "trCalls t' = map (\<lambda>r. if crID r \<in> set (orig # ids) then mergedRow now r else r) (trCalls t)"
    by (rule Create_persistent_Inr [OF assms(1)])
  have mem: "mhas q (Members conf) \<longleftrightarrow> q = host \<or> q \<in> set added" for q
    using CreateConference_Inr(1) [OF cs] by (simp add: mhas_confMembers)
  have busy: "ctIsBusy p cs" and byPhone: "ConferenceByPhone p cs = Some conf"
    using CreateConference_Inr(2) [OF cs] assms(2)
    by (auto simp: ctIsBusy_def mhas_def map_of_mputs ConferenceByPhone_def Snapshot_def)
  have act: "activeCalls t' = filter (\<lambda>c. \<not> involvesMember conf c) (activeCalls t)"
    using t'(2) activeCalls_filter [of "\<lambda>c. \<not> involvesMember conf c" t] by (simp add: activeCalls_def)
  have "AllPeersOf p t' = []"
    unfolding AllPeersOf_def act
    by (rule peersIn_none) (use mem assms(2) in \<open>auto simp: involves_def involvesMember_def\<close>)
  then show ?thesis
    using busy byPhone act t' addedCalls_ids [OF ids] by (simp add: Busy_def CanAddAsHost_def)
qed

lemma merge_moves_members_witness:
  "Busy ''200'' (fold tr_step (take 3 merge_moves) (NewTracker True True True))
   \<and> AllPeersOf ''200'' (fold tr_step (take 3 merge_moves) (NewTracker True True True)) = []"
proof -
  obtain conf where c: "CreateConferencePersistent True 7 30 ''100'' 1 [''200'', ''300'']
      (fold tr_step (take 2 merge_moves) (NewTracker True True True))
      = (Inr conf, fold tr_step (take 3 merge_moves) (NewTracker True True True))"
  proof -
    let ?x = "CreateConferencePersistent True 7 30 ''100'' 1 [''200'', ''300'']
      (fold tr_step (take 2 merge_moves) (NewTracker True True True))"
    have ok: "\<not> isl (fst ?x)" by code_simp
    obtain r u where x: "?x = (r, u)" by (cases ?x)
    obtain conf where r: "r = Inr conf" using ok unfolding x by (cases r) simp_all
    note cu = x [unfolded r]
    have "take 3 merge_moves = take 2 merge_moves @ [TrCreateConf True 7 30 ''100'' 1 [''200'', ''300'']]"
      by (simp add: merge_moves_def)
    then have "u = fold tr_step (take 3 merge_moves) (NewTracker True True True)" using cu by simp
    then show thesis using cu that by blast
  qed
  show ?thesis using merge_moves_members [OF c, of "''200''"] by simp
qed

end
