(* ===== verification/Protocol.thy ===== *)
theory Protocol
  imports Prelude
begin

text \<open>
  The wire messages between signald and the phones, \<open>server/internal/signaling/protocol.go\<close>:
  the message types and the struct \<open>Message\<close> with every field it has.  A 32-bit float of a
  link-health sample is kept as its bit pattern.  JSON encoding is a library call: the hub
  takes it as a parameter.
\<close>

definition TypeRegister :: string where "TypeRegister = ''register''"
definition TypeCall :: string where "TypeCall = ''call''"
definition TypeRing :: string where "TypeRing = ''ring''"
definition TypeHangup :: string where "TypeHangup = ''hangup''"
definition TypeBusy :: string where "TypeBusy = ''busy''"
definition TypeError :: string where "TypeError = ''error''"
definition TypeLineSettings :: string where "TypeLineSettings = ''line_settings''"
definition TypeLineRenumber :: string where "TypeLineRenumber = ''line_renumber''"
definition TypeVoicemailState :: string where "TypeVoicemailState = ''voicemail_state''"

record WireVoicemail =
  wvEnabled :: bool
  wvRingTimeoutSeconds :: int

record LineSettings =
  lsVoiceStyle :: string
  lsSilentMode :: bool
  lsAutoUpdate :: bool
  lsVoicemail :: "WireVoicemail option"

record ConferenceMemberInfo =
  cmiPhone :: string
  cmiRole :: string

record LinkHealthPayload =
  lhTS :: int
  lhLossPct :: "32 word option"
  lhJitterMs :: "32 word option"
  lhRttMs :: "32 word option"
  lhConnType :: string
  lhBytesIn :: "int option"
  lhBytesOut :: "int option"
  lhPeer :: string

record ICEServer =
  iceURLs :: "string list"
  iceUsername :: string
  iceCredential :: string

record Message =
  mType :: string
  mFrom :: string
  mTo :: string
  mNumber :: string
  mDigit :: string
  mSDP :: string
  mCandidate :: string
  mError :: string
  mServers :: "ICEServer list"
  mPairingCode :: string
  mPairingCodeTTL :: int
  mHardwareID :: string
  mDeviceToken :: string
  mPiVersion :: string
  mPiCommit :: string
  mFirmwareVersion :: string
  mFirmwareCommit :: string
  mLocalAddr :: string
  mTargetPiVersion :: string
  mTargetFWVersion :: string
  mLatestPiVersion :: string
  mLatestFWVersion :: string
  mUpdateStatus :: string
  mUpdateDetail :: string
  mRestartMode :: string
  mLineSettings :: "LineSettings option"
  mDevMode :: bool
  mDevModePassword :: string
  mExtension :: bool
  mConfID :: string
  mHeldPeer :: string
  mActivePeer :: string
  mPeer :: string
  mInitiator :: bool
  mMembers :: "ConferenceMemberInfo list"
  mReason :: string
  mLinkHealth :: "LinkHealthPayload option"
  mVoicemailUnheardCount :: int

text \<open>The zero value of the struct: a composite literal sets the fields it names.\<close>

definition zeroMessage :: Message where
  "zeroMessage = \<lparr>mType = [], mFrom = [], mTo = [], mNumber = [], mDigit = [], mSDP = [],
     mCandidate = [], mError = [], mServers = [], mPairingCode = [], mPairingCodeTTL = 0,
     mHardwareID = [], mDeviceToken = [], mPiVersion = [], mPiCommit = [],
     mFirmwareVersion = [], mFirmwareCommit = [], mLocalAddr = [], mTargetPiVersion = [],
     mTargetFWVersion = [], mLatestPiVersion = [], mLatestFWVersion = [], mUpdateStatus = [],
     mUpdateDetail = [], mRestartMode = [], mLineSettings = None, mDevMode = False,
     mDevModePassword = [], mExtension = False, mConfID = [], mHeldPeer = [], mActivePeer = [],
     mPeer = [], mInitiator = False, mMembers = [], mReason = [], mLinkHealth = None,
     mVoicemailUnheardCount = 0\<rparr>"

end
