(* ===== verification/Hub.thy ===== *)
theory Hub
  imports GoMap Protocol
begin

text \<open>
  The connection hub of signald, \<open>server/internal/signaling/hub.go\<close>.

  A \<open>*Conn\<close> is a number into \<open>hstore\<close>, so that identity of connections is identity of
  pointers; \<open>hnext\<close> is the next pointer to be allocated.  The channel \<open>Send\<close> is its queue
  with its capacity and whether it is closed; \<^const>\<open>None\<close> in the queue is the nil close
  sentinel.  A send on a closed channel and a second close are Go panics, recorded in
  \<open>hpanic\<close>.  Calls that leave the hub (dashboard notification, Redis bridge, presence store,
  hooks, sockets) are appended to \<open>hlog\<close>.  Every operation is one critical section under
  \<open>h.mu\<close> followed by its unlocked calls; the two retry loops take the rest of the program as
  an argument that acts between their iterations.  JSON encoding and the private-address
  check are parameters.
\<close>

section \<open>Data\<close>

definition UnpairedPrefix :: string where
  "UnpairedPrefix = ''unpaired:''"

record UpdateStatusSnapshot =
  usStatus :: string
  usDetail :: string
  usUpdatedAt :: int

record DeviceInfo =
  diPiVersion :: string
  diPiCommit :: string
  diFirmwareVersion :: string
  diFirmwareCommit :: string
  diRemoteAddr :: string
  diDevMode :: bool

record DevicePresence =
  dpPodID :: string
  dpHardwareID :: string
  dpInfo :: DeviceInfo

record DeviceInfoSnapshot =
  disHardwareID :: string
  disInfo :: DeviceInfo

record Conn =
  coWS :: bool  \<comment> \<open>not nil\<close>
  coNumber :: string
  coHardwareID :: string
  coSend :: "string option list"
  coCap :: nat
  coClosed :: bool
  coLastSeen :: int
  coInfo :: DeviceInfo

record Envelope =
  enPodID :: string
  enTargetType :: string
  enTarget :: string
  enMessage :: "Message option"

datatype hubOut =
    Notify
  | Publish Envelope
  | DropHook
  | ReconnectHook string string
  | WSClose nat
  | WSGoingAway nat
  | GoRetryClose nat
  | DSSetOnline string DevicePresence
  | DSSetOffline string string
  | DSSetUpdateStatus string string string
  | DSClearUpdateStatus string
  | DSUpdateDeviceInfo string DevicePresence
  | DSTouchLastSeen string string

text \<open>The answers of the presence store, \<open>state_redis.go\<close>, when one is attached.\<close>

record DeviceState =
  dsPodID :: string
  dsIsOnline :: "string \<Rightarrow> bool"
  dsIsHardwareOnline :: "string \<Rightarrow> bool"
  dsHardwareOnlineOnLine :: "string \<Rightarrow> string \<Rightarrow> bool"
  dsOnlineNumbers :: "string list"
  dsAllDeviceInfo :: "string \<Rightarrow> DeviceInfoSnapshot list"
  dsGetUpdateStatus :: "string \<Rightarrow> UpdateStatusSnapshot option"
  dsLastSeenAt :: "string \<Rightarrow> int option"

datatype hubError = ErrDraining | ErrNotConnected | ErrSendTimeout | ErrBufferFull | ErrMarshal

record Hub =
  conns :: "(string \<times> nat list) list"
  hwConns :: "(string \<times> nat) list"
  updateStatus :: "(string \<times> UpdateStatusSnapshot) list"
  voicemailUnheard :: "(string \<times> (string \<times> int) list) list"
  dashEvents :: bool
  redis :: bool
  hstate :: "DeviceState option"
  draining :: bool
  reconnectHook :: bool
  dropHook :: bool
  hstore :: "nat \<Rightarrow> Conn"
  hnext :: nat
  hlog :: "hubOut list"
  hpanic :: bool

definition noInfo :: DeviceInfo where
  "noInfo = \<lparr>diPiVersion = [], diPiCommit = [], diFirmwareVersion = [], diFirmwareCommit = [],
             diRemoteAddr = [], diDevMode = False\<rparr>"

definition newConn :: "bool \<Rightarrow> string \<Rightarrow> nat \<Rightarrow> int \<Rightarrow> Conn" where
  "newConn ws hw cap now = \<lparr>coWS = ws, coNumber = [], coHardwareID = hw, coSend = [], coCap = cap,
     coClosed = False, coLastSeen = now, coInfo = noInfo\<rparr>"

definition NewHub :: Hub where
  "NewHub = \<lparr>conns = [], hwConns = [], updateStatus = [], voicemailUnheard = [],
     dashEvents = False, redis = False, hstate = None, draining = False, reconnectHook = False,
     dropHook = False, hstore = (\<lambda>_. newConn False [] 0 0), hnext = 0, hlog = [],
     hpanic = False\<rparr>"

section \<open>Elementary updates\<close>

definition hubEmit :: "hubOut list \<Rightarrow> Hub \<Rightarrow> Hub" where
  "hubEmit es h = h\<lparr>hlog := hlog h @ es\<rparr>"

definition updConn :: "nat \<Rightarrow> (Conn \<Rightarrow> Conn) \<Rightarrow> Hub \<Rightarrow> Hub" where
  "updConn c f h = h\<lparr>hstore := (hstore h)(c := f (hstore h c))\<rparr>"

definition lineConns :: "string \<Rightarrow> Hub \<Rightarrow> nat list" where
  "lineConns number h = (case map_of (conns h) number of None \<Rightarrow> [] | Some cs \<Rightarrow> cs)"

text \<open>A non-blocking send: \<open>select { case conn.Send <- data: ... default: ... }\<close>.\<close>

definition trySend :: "nat \<Rightarrow> string option \<Rightarrow> Hub \<Rightarrow> bool \<times> Hub" where
  "trySend c d h =
     (let k = hstore h c in
      if coClosed k then (True, h\<lparr>hpanic := True\<rparr>)
      else if length (coSend k) < coCap k then (True, updConn c (\<lambda>k. k\<lparr>coSend := coSend k @ [d]\<rparr>) h)
      else (False, h))"

definition closeChan :: "nat \<Rightarrow> Hub \<Rightarrow> Hub" where
  "closeChan c h =
     (if coClosed (hstore h c) then h\<lparr>hpanic := True\<rparr>
      else updConn c (\<lambda>k. k\<lparr>coClosed := True\<rparr>) h)"

text \<open>\<open>&Conn{...}\<close>: a new pointer.\<close>

definition allocConn :: "Conn \<Rightarrow> Hub \<Rightarrow> nat \<times> Hub" where
  "allocConn k h = (hnext h, h\<lparr>hstore := (hstore h)(hnext h := k), hnext := hnext h + 1\<rparr>)"

text \<open>A loop of non-blocking sends over connections; \<open>hook\<close> says whether a drop is counted.\<close>

primrec sendLoop :: "bool \<Rightarrow> string option \<Rightarrow> nat list \<Rightarrow> Hub \<Rightarrow> Hub" where
  "sendLoop hook d [] h = h"
| "sendLoop hook d (c # cs) h =
     (let (ok, h1) = trySend c d h
      in sendLoop hook d cs (if ok \<or> \<not> hook then h1 else hubEmit [DropHook] h1))"

definition publish :: "string \<Rightarrow> string \<Rightarrow> Message option \<Rightarrow> Hub \<Rightarrow> Hub" where
  "publish ty target msg h =
     hubEmit [Publish \<lparr>enPodID = [], enTargetType = ty, enTarget = target, enMessage = msg\<rparr>] h"

definition marshalOptional :: "(Message \<Rightarrow> string option) \<Rightarrow> Message option \<Rightarrow> hubError + string option" where
  "marshalOptional marshal msg =
     (case msg of None \<Rightarrow> Inr None
      | Some m \<Rightarrow> (case marshal m of None \<Rightarrow> Inl ErrMarshal | Some d \<Rightarrow> Inr (Some d)))"

section \<open>Registration\<close>

definition removeLocked :: "string \<Rightarrow> nat \<Rightarrow> Hub \<Rightarrow> bool \<times> Hub" where
  "removeLocked number c h =
     (if c \<notin> set (lineConns number h) then (False, h)
      else
        let h = closeChan c h;
            rest = remove1 c (lineConns number h);
            h = h\<lparr>conns := mput number rest (conns h)\<rparr>;
            h = (if rest = [] then h\<lparr>conns := mdel number (conns h)\<rparr> else h);
            hw = coHardwareID (hstore h c)
        in if hw = [] then (True, h)
           else
             let h = (if map_of (hwConns h) hw = Some c then h\<lparr>hwConns := mdel hw (hwConns h)\<rparr> else h)
             in case map_of (voicemailUnheard h) number of
                  None \<Rightarrow> (True, h)
                | Some perHW \<Rightarrow>
                    let perHW = mdel hw perHW
                    in (True, h\<lparr>voicemailUnheard :=
                          (if perHW = [] then mdel number (voicemailUnheard h)
                           else mput number perHW (voicemailUnheard h))\<rparr>))"

text \<open>
  \<open>Register\<close>: the eviction of the device's old connection, which yields the number it had when
  that is another one, and the calls made once the lock is released.
\<close>

definition evictStale :: "string \<Rightarrow> string \<Rightarrow> Hub \<Rightarrow> string \<times> Hub" where
  "evictStale number hw h =
     (case map_of (hwConns h) hw of None \<Rightarrow> ([], h)
      | Some old \<Rightarrow>
          let h = (if coWS (hstore h old) then hubEmit [WSClose old] h else h);
              oldNumber = coNumber (hstore h old);
              h = snd (removeLocked oldNumber old h)
          in (if oldNumber \<noteq> number then oldNumber else [], h))"

definition announce :: "string \<Rightarrow> nat \<Rightarrow> string \<Rightarrow> Hub \<Rightarrow> Hub" where
  "announce number c evicted h =
     (let hw = coHardwareID (hstore h c);
          h = (if dashEvents h then hubEmit [Notify] h else h);
          h = (case hstate h of None \<Rightarrow> h
               | Some ds \<Rightarrow> hubEmit [DSSetOnline number \<lparr>dpPodID = dsPodID ds, dpHardwareID = hw,
                                      dpInfo = coInfo (hstore h c)\<rparr>] h)
      in if evicted \<noteq> [] \<and> hstate h \<noteq> None then hubEmit [DSSetOffline evicted hw] h else h)"

definition Register :: "string \<Rightarrow> nat \<Rightarrow> Hub \<Rightarrow> hubError option \<times> Hub" where
  "Register number c h =
     (if draining h then (Some ErrDraining, h)
      else
        let h = updConn c (\<lambda>k. k\<lparr>coNumber := number\<rparr>) h;
            hw = coHardwareID (hstore h c);
            (evicted, h) = evictStale number hw h;
            h = h\<lparr>conns := mput number (lineConns number h @ [c]) (conns h)\<rparr>;
            h = (if hw \<noteq> [] then h\<lparr>hwConns := mput hw c (hwConns h)\<rparr> else h)
        in (None, announce number c evicted h))"

definition Unregister :: "string \<Rightarrow> nat \<Rightarrow> Hub \<Rightarrow> Hub" where
  "Unregister number c h =
     (let (changed, h) = removeLocked number c h
      in if changed then
           let h = (if dashEvents h then hubEmit [Notify] h else h)
           in if hstate h \<noteq> None then hubEmit [DSSetOffline number (coHardwareID (hstore h c))] h else h
         else h)"

definition StartDraining :: "Hub \<Rightarrow> Hub" where
  "StartDraining h = h\<lparr>draining := True\<rparr>"

definition IsDraining :: "Hub \<Rightarrow> bool" where
  "IsDraining h = draining h"

text \<open>
  \<open>handleWS\<close> from the moment the device is authenticated: the connection is allocated, the
  corrected number of a reconciled device is queued on it, and it is registered.
\<close>

definition connectDevice ::
  "bool \<Rightarrow> string \<Rightarrow> nat \<Rightarrow> int \<Rightarrow> string option \<Rightarrow> string \<Rightarrow> Hub \<Rightarrow> hubError option \<times> Hub" where
  "connectDevice ws hw cap now greeting number h =
     (let (c, h) = allocConn (newConn ws hw cap now) h;
          h = (case greeting of None \<Rightarrow> h
               | Some d \<Rightarrow> updConn c (\<lambda>k. k\<lparr>coSend := coSend k @ [Some d]\<rparr>) h)
      in Register number c h)"

end
