(* ===== verification/Hub_Ops.thy ===== *)
theory Hub_Ops
  imports Hub
begin

text \<open>
  The hub's message paths (\<open>SendTo\<close>, \<open>SendToHardware\<close>, \<open>Broadcast\<close>, \<open>SendToWithTimeout\<close>,
  the Redis subscriber), the closing of lines and devices, the presence queries and the
  per-device records, of \<open>server/internal/signaling/hub.go\<close>, and the moves of the hub as a
  machine.
\<close>

section \<open>Sending\<close>

definition SendTo :: "(Message \<Rightarrow> string option) \<Rightarrow> string \<Rightarrow> Message \<Rightarrow> Hub \<Rightarrow> hubError option \<times> Hub" where
  "SendTo marshal number msg h =
     (case marshal msg of None \<Rightarrow> (Some ErrMarshal, h)
      | Some d \<Rightarrow>
          let cs = lineConns number h;
              h1 = sendLoop (dropHook h) (Some d) cs h
          in if redis h then (None, publish ''number'' number (Some msg) h1)
             else if cs = [] then (Some ErrNotConnected, h1)
             else (None, h1))"

definition enqueueHardware :: "string \<Rightarrow> string option \<Rightarrow> Hub \<Rightarrow> hubError option \<times> Hub" where
  "enqueueHardware hw d h =
     (case map_of (hwConns h) hw of None \<Rightarrow> (Some ErrNotConnected, h)
      | Some c \<Rightarrow> let (ok, h) = trySend c d h in (if ok then None else Some ErrBufferFull, h))"

definition publishFallback ::
  "string \<Rightarrow> string \<Rightarrow> Message \<Rightarrow> Hub \<Rightarrow> hubError option \<times> Hub" where
  "publishFallback ty target msg h =
     (if redis h then (None, publish ty target (Some msg) h) else (Some ErrNotConnected, h))"

definition SendToHardware ::
  "(Message \<Rightarrow> string option) \<Rightarrow> string \<Rightarrow> Message \<Rightarrow> Hub \<Rightarrow> hubError option \<times> Hub" where
  "SendToHardware marshal hw msg h =
     (case marshal msg of None \<Rightarrow> (Some ErrMarshal, h)
      | Some d \<Rightarrow>
          (case enqueueHardware hw (Some d) h of
             (None, h1) \<Rightarrow> (None, h1)
           | (Some e, h1) \<Rightarrow> if e \<noteq> ErrNotConnected then (Some e, h1)
                            else publishFallback ''hardware'' hw msg h1))"

definition Broadcast :: "(Message \<Rightarrow> string option) \<Rightarrow> Message \<Rightarrow> Hub \<Rightarrow> Hub" where
  "Broadcast marshal msg h =
     (case marshal msg of None \<Rightarrow> h
      | Some d \<Rightarrow>
          let h1 = sendLoop False (Some d) (concat (map snd (conns h))) h
          in if redis h then publish ''broadcast'' [] (Some msg) h1 else h1)"

definition PublishReconnect :: "string \<Rightarrow> string \<Rightarrow> Hub \<Rightarrow> Hub" where
  "PublishReconnect number hw h =
     (if \<not> redis h then h
      else publish ''reconnect'' number (Some (zeroMessage\<lparr>mHardwareID := hw\<rparr>)) h)"

text \<open>
  One iteration of \<open>SendToWithTimeout\<close>'s loop; the outer \<^const>\<open>None\<close> means it sleeps and goes
  round again.  \<open>bridge\<close> is whether Redis was attached when the call began.
\<close>

fun pendLoop :: "string option \<Rightarrow> nat list \<Rightarrow> nat list \<Rightarrow> Hub \<Rightarrow> bool \<times> nat list \<times> Hub" where
  "pendLoop d [] delivered h = (False, delivered, h)"
| "pendLoop d (c # cs) delivered h =
     (if c \<in> set delivered then pendLoop d cs delivered h
      else case trySend c d h of
             (True, h) \<Rightarrow> pendLoop d cs (c # delivered) h
           | (False, h) \<Rightarrow> (case pendLoop d cs delivered h of (_, r) \<Rightarrow> (True, r)))"

definition swtIter ::
  "bool \<Rightarrow> string \<Rightarrow> string option \<Rightarrow> int \<Rightarrow> int \<Rightarrow> nat list \<Rightarrow> Hub
     \<Rightarrow> hubError option option \<times> nat list \<times> Hub" where
  "swtIter bridge number d deadline now delivered h =
     (let cs = lineConns number h in
      if cs = [] then (Some (if bridge then None else Some ErrNotConnected), delivered, h)
      else let (pending, delivered, h) = pendLoop d cs delivered h in
           if \<not> pending then (Some None, delivered, h)
           else if \<not> now < deadline
             then (Some (Some ErrSendTimeout), delivered, if dropHook h then hubEmit [DropHook] h else h)
           else (None, delivered, h))"

section \<open>Closing\<close>

definition closeConn :: "string option \<Rightarrow> nat \<Rightarrow> Hub \<Rightarrow> Hub" where
  "closeConn farewell c h =
     (let h = (case farewell of None \<Rightarrow> h
               | Some d \<Rightarrow> (case trySend c (Some d) h of
                             (True, h) \<Rightarrow> h
                           | (False, h) \<Rightarrow> if dropHook h then hubEmit [DropHook] h else h))
      in case trySend c None h of (True, h) \<Rightarrow> h | (False, h) \<Rightarrow> hubEmit [GoRetryClose c] h)"

definition closeLocalLine :: "string \<Rightarrow> string option \<Rightarrow> Hub \<Rightarrow> Hub" where
  "closeLocalLine number farewell h = fold (closeConn farewell) (lineConns number h) h"

definition closeLocalHardware :: "string \<Rightarrow> string option \<Rightarrow> Hub \<Rightarrow> Hub" where
  "closeLocalHardware hw farewell h =
     (case map_of (hwConns h) hw of None \<Rightarrow> h | Some c \<Rightarrow> closeConn farewell c h)"

definition CloseLine :: "(Message \<Rightarrow> string option) \<Rightarrow> string \<Rightarrow> Message option \<Rightarrow> Hub \<Rightarrow> Hub" where
  "CloseLine marshal number farewell h =
     (case marshalOptional marshal farewell of Inl _ \<Rightarrow> h
      | Inr d \<Rightarrow> let h = closeLocalLine number d h
                 in if redis h then publish ''close'' number farewell h else h)"

definition CloseHardware :: "(Message \<Rightarrow> string option) \<Rightarrow> string \<Rightarrow> Message option \<Rightarrow> Hub \<Rightarrow> Hub" where
  "CloseHardware marshal hw farewell h =
     (case marshalOptional marshal farewell of Inl _ \<Rightarrow> h
      | Inr d \<Rightarrow> let h = closeLocalHardware hw d h
                 in if redis h then publish ''close_hardware'' hw farewell h else h)"

definition connIsCurrentLocked :: "nat \<Rightarrow> Hub \<Rightarrow> bool" where
  "connIsCurrentLocked c h \<longleftrightarrow> c \<in> set (lineConns (coNumber (hstore h c)) h)"

definition ConnIsCurrent :: "nat option \<Rightarrow> Hub \<Rightarrow> bool" where
  "ConnIsCurrent conn h = (case conn of None \<Rightarrow> False | Some c \<Rightarrow> connIsCurrentLocked c h)"

definition offerClose :: "nat \<Rightarrow> Hub \<Rightarrow> bool \<times> Hub" where
  "offerClose c h = (if \<not> connIsCurrentLocked c h then (True, h) else trySend c None h)"

section \<open>The Redis subscriber\<close>

definition deliverFromRedis :: "(Message \<Rightarrow> string option) \<Rightarrow> Envelope \<Rightarrow> Hub \<Rightarrow> Hub" where
  "deliverFromRedis marshal env h =
     (case marshalOptional marshal (enMessage env) of Inl _ \<Rightarrow> h
      | Inr data \<Rightarrow>
          if enTargetType env = ''close'' then closeLocalLine (enTarget env) data h
          else if enTargetType env = ''close_hardware'' then closeLocalHardware (enTarget env) data h
          else case data of None \<Rightarrow> h
               | Some d \<Rightarrow>
                   if enTargetType env = ''number'' then
                     sendLoop False (Some d) (lineConns (enTarget env) h) h
                   else if enTargetType env = ''hardware'' then
                     snd (enqueueHardware (enTarget env) (Some d) h)
                   else if enTargetType env = ''broadcast'' then
                     sendLoop False (Some d) (concat (map snd (conns h))) h
                   else if enTargetType env = ''reconnect'' then
                     (if reconnectHook h
                      then hubEmit [ReconnectHook (enTarget env)
                                      (case enMessage env of None \<Rightarrow> [] | Some m \<Rightarrow> mHardwareID m)] h
                      else h)
                   else h)"

section \<open>Draining the process\<close>

definition totalConns :: "Hub \<Rightarrow> nat" where
  "totalConns h = sum_list (map (\<lambda>p. length (snd p)) (conns h))"

text \<open>The first part of \<open>DrainAndClose\<close>; the polling of \<open>totalConns\<close> that follows has no effect.\<close>

definition DrainAndClose :: "Hub \<Rightarrow> Hub" where
  "DrainAndClose h =
     hubEmit (map WSGoingAway (filter (\<lambda>c. coWS (hstore h c)) (concat (map snd (conns h))))) h"

definition forceCloseAll :: "Hub \<Rightarrow> Hub" where
  "forceCloseAll h =
     hubEmit (map WSClose (filter (\<lambda>c. coWS (hstore h c)) (concat (map snd (conns h))))) h"

section \<open>Queries and per-device records\<close>

definition Get :: "string \<Rightarrow> Hub \<Rightarrow> nat option" where
  "Get number h = (case lineConns number h of [] \<Rightarrow> None | c # _ \<Rightarrow> Some c)"

definition GetAll :: "string \<Rightarrow> Hub \<Rightarrow> nat list" where
  "GetAll number h = lineConns number h"

definition ConnectionCount :: "string \<Rightarrow> Hub \<Rightarrow> nat" where
  "ConnectionCount number h = length (lineConns number h)"

definition IsOnline :: "string \<Rightarrow> Hub \<Rightarrow> bool" where
  "IsOnline number h =
     (if hasPrefix number UnpairedPrefix then False
      else case hstate h of Some ds \<Rightarrow> dsIsOnline ds number | None \<Rightarrow> Get number h \<noteq> None)"

definition IsHardwareOnline :: "string \<Rightarrow> Hub \<Rightarrow> bool" where
  "IsHardwareOnline hw h =
     (if hw = [] then False
      else case hstate h of Some ds \<Rightarrow> dsIsHardwareOnline ds hw | None \<Rightarrow> mhas hw (hwConns h))"

definition HardwareOnlineOnLine :: "string \<Rightarrow> string \<Rightarrow> Hub \<Rightarrow> bool" where
  "HardwareOnlineOnLine number hw h =
     (if hw = [] then False
      else case hstate h of Some ds \<Rightarrow> dsHardwareOnlineOnLine ds number hw
           | None \<Rightarrow> list_ex (\<lambda>c. coHardwareID (hstore h c) = hw) (lineConns number h))"

definition LocalConnectionCount :: "Hub \<Rightarrow> nat" where
  "LocalConnectionCount h =
     sum_list (map (\<lambda>p. length (snd p)) (filter (\<lambda>p. \<not> hasPrefix (fst p) UnpairedPrefix) (conns h)))"

definition LocalNumbers :: "Hub \<Rightarrow> string list" where
  "LocalNumbers h =
     map fst (filter (\<lambda>p. \<not> (hasPrefix (fst p) UnpairedPrefix \<or> snd p = [])) (conns h))"

definition OnlineNumbers :: "Hub \<Rightarrow> string list" where
  "OnlineNumbers h = (case hstate h of Some ds \<Rightarrow> dsOnlineNumbers ds | None \<Rightarrow> LocalNumbers h)"

definition AllDeviceInfo :: "string \<Rightarrow> Hub \<Rightarrow> DeviceInfoSnapshot list" where
  "AllDeviceInfo number h =
     (case hstate h of Some ds \<Rightarrow> dsAllDeviceInfo ds number
      | None \<Rightarrow> map (\<lambda>c. \<lparr>disHardwareID = coHardwareID (hstore h c), disInfo = coInfo (hstore h c)\<rparr>)
                  (lineConns number h))"

definition SetUpdateStatus :: "string \<Rightarrow> string \<Rightarrow> string \<Rightarrow> int \<Rightarrow> Hub \<Rightarrow> Hub" where
  "SetUpdateStatus hw status detail now h =
     (let h = h\<lparr>updateStatus := mput hw \<lparr>usStatus = status, usDetail = detail, usUpdatedAt = now\<rparr>
                  (updateStatus h)\<rparr>
      in if hstate h \<noteq> None then hubEmit [DSSetUpdateStatus hw status detail] h else h)"

definition GetUpdateStatus :: "string \<Rightarrow> Hub \<Rightarrow> UpdateStatusSnapshot option" where
  "GetUpdateStatus hw h =
     (case hstate h of Some ds \<Rightarrow> dsGetUpdateStatus ds hw | None \<Rightarrow> map_of (updateStatus h) hw)"

definition ClearUpdateStatus :: "string \<Rightarrow> Hub \<Rightarrow> Hub" where
  "ClearUpdateStatus hw h =
     (let h = h\<lparr>updateStatus := mdel hw (updateStatus h)\<rparr>
      in if hstate h \<noteq> None then hubEmit [DSClearUpdateStatus hw] h else h)"

definition SetVoicemailUnheard :: "string \<Rightarrow> string \<Rightarrow> int \<Rightarrow> Hub \<Rightarrow> Hub" where
  "SetVoicemailUnheard number hw count h =
     (if hw = [] then h
      else
        let count = (if count < 0 then 0 else count);
            perHW = (case map_of (voicemailUnheard h) number of None \<Rightarrow> [] | Some m \<Rightarrow> m)
        in h\<lparr>voicemailUnheard := mput number (mput hw count perHW) (voicemailUnheard h)\<rparr>)"

definition LineVoicemailUnheard :: "string \<Rightarrow> Hub \<Rightarrow> int" where
  "LineVoicemailUnheard number h =
     (case map_of (voicemailUnheard h) number of None \<Rightarrow> 0 | Some perHW \<Rightarrow> sum_list (map snd perHW))"

definition sanitizeLocalAddr :: "(string \<Rightarrow> bool) \<Rightarrow> string \<Rightarrow> string" where
  "sanitizeLocalAddr isPrivate a = (if \<not> isPrivate a then [] else a)"

definition applyDeviceInfo :: "nat \<Rightarrow> DeviceInfo \<Rightarrow> Hub \<Rightarrow> DevicePresence \<times> Hub" where
  "applyDeviceInfo c p h =
     (\<lparr>dpPodID = [], dpHardwareID = [], dpInfo = p\<rparr>, updConn c (\<lambda>k. k\<lparr>coInfo := p\<rparr>) h)"

definition UpdateDeviceInfo :: "(string \<Rightarrow> bool) \<Rightarrow> string \<Rightarrow> DeviceInfo \<Rightarrow> Hub \<Rightarrow> bool \<times> Hub" where
  "UpdateDeviceInfo isPrivate number p h =
     (let p = p\<lparr>diRemoteAddr := sanitizeLocalAddr isPrivate (diRemoteAddr p)\<rparr> in
      case lineConns number h of [] \<Rightarrow> (False, h)
      | c # _ \<Rightarrow>
          let (presence, h) = applyDeviceInfo c p h
          in (True, if hstate h \<noteq> None
                    then hubEmit [DSUpdateDeviceInfo (coHardwareID (hstore h c)) presence] h else h))"

definition UpdateDeviceInfoByHardware :: "(string \<Rightarrow> bool) \<Rightarrow> string \<Rightarrow> DeviceInfo \<Rightarrow> Hub \<Rightarrow> bool \<times> Hub" where
  "UpdateDeviceInfoByHardware isPrivate hw p h =
     (let p = p\<lparr>diRemoteAddr := sanitizeLocalAddr isPrivate (diRemoteAddr p)\<rparr> in
      case map_of (hwConns h) hw of None \<Rightarrow> (False, h)
      | Some c \<Rightarrow>
          let (presence, h) = applyDeviceInfo c p h
          in (True, if hstate h \<noteq> None then hubEmit [DSUpdateDeviceInfo hw presence] h else h))"

definition TouchLastSeen :: "string \<Rightarrow> string \<Rightarrow> int \<Rightarrow> Hub \<Rightarrow> Hub" where
  "TouchLastSeen number hw now h =
     (let h = fold (\<lambda>c h. if coHardwareID (hstore h c) = hw
                          then updConn c (\<lambda>k. k\<lparr>coLastSeen := now\<rparr>) h else h) (lineConns number h) h
      in if hstate h \<noteq> None then hubEmit [DSTouchLastSeen number hw] h else h)"

definition LastSeenAt :: "string \<Rightarrow> Hub \<Rightarrow> int option" where
  "LastSeenAt number h =
     (case hstate h of Some ds \<Rightarrow> dsLastSeenAt ds number
      | None \<Rightarrow>
          let latest = fold (\<lambda>c latest. if latest < coLastSeen (hstore h c)
                                        then coLastSeen (hstore h c) else latest)
                         (lineConns number h) 0
          in if latest = 0 then None else Some latest)"

section \<open>Start-up\<close>

definition SetRedis :: "bool \<Rightarrow> Hub \<Rightarrow> Hub" where "SetRedis b h = h\<lparr>redis := b\<rparr>"
definition SetDeviceState :: "DeviceState option \<Rightarrow> Hub \<Rightarrow> Hub" where "SetDeviceState ds h = h\<lparr>hstate := ds\<rparr>"
definition SetReconnectHook :: "bool \<Rightarrow> Hub \<Rightarrow> Hub" where "SetReconnectHook b h = h\<lparr>reconnectHook := b\<rparr>"
definition SetDropHook :: "bool \<Rightarrow> Hub \<Rightarrow> Hub" where "SetDropHook b h = h\<lparr>dropHook := b\<rparr>"
definition SetDashboardEvents :: "bool \<Rightarrow> Hub \<Rightarrow> Hub" where "SetDashboardEvents b h = h\<lparr>dashEvents := b\<rparr>"

section \<open>The hub as a machine\<close>

text \<open>
  The setters called at start-up, the operations above, and the write pump's receive from a
  connection's channel.
\<close>

datatype hubMove =
    MvSetRedis bool
  | MvSetDeviceState "DeviceState option"
  | MvSetReconnectHook bool
  | MvSetDropHook bool
  | MvSetDashboardEvents bool
  | MvStartDraining
  | MvConnect bool string nat int "string option" string
  | MvUnregister string nat
  | MvSendTo string Message
  | MvSendToHardware string Message
  | MvBroadcast Message
  | MvPublishReconnect string string
  | MvSwtIter bool string "string option" int int "nat list"
  | MvCloseLine string "Message option"
  | MvCloseHardware string "Message option"
  | MvOfferClose nat
  | MvDeliver Envelope
  | MvDrainAndClose
  | MvForceCloseAll
  | MvSetUpdateStatus string string string int
  | MvClearUpdateStatus string
  | MvSetVoicemailUnheard string string int
  | MvUpdateDeviceInfo string DeviceInfo
  | MvUpdateDeviceInfoByHardware string DeviceInfo
  | MvTouchLastSeen string string int
  | MvReceive nat

fun hub_step :: "(Message \<Rightarrow> string option) \<Rightarrow> (string \<Rightarrow> bool) \<Rightarrow> hubMove \<Rightarrow> Hub \<Rightarrow> Hub" where
  "hub_step ms ip (MvSetRedis b) h = SetRedis b h"
| "hub_step ms ip (MvSetDeviceState ds) h = SetDeviceState ds h"
| "hub_step ms ip (MvSetReconnectHook b) h = SetReconnectHook b h"
| "hub_step ms ip (MvSetDropHook b) h = SetDropHook b h"
| "hub_step ms ip (MvSetDashboardEvents b) h = SetDashboardEvents b h"
| "hub_step ms ip MvStartDraining h = StartDraining h"
| "hub_step ms ip (MvConnect ws hw cap now g number) h = snd (connectDevice ws hw cap now g number h)"
| "hub_step ms ip (MvUnregister number c) h = Unregister number c h"
| "hub_step ms ip (MvSendTo number m) h = snd (SendTo ms number m h)"
| "hub_step ms ip (MvSendToHardware hw m) h = snd (SendToHardware ms hw m h)"
| "hub_step ms ip (MvBroadcast m) h = Broadcast ms m h"
| "hub_step ms ip (MvPublishReconnect number hw) h = PublishReconnect number hw h"
| "hub_step ms ip (MvSwtIter b number d dl now dv) h = snd (snd (swtIter b number d dl now dv h))"
| "hub_step ms ip (MvCloseLine number m) h = CloseLine ms number m h"
| "hub_step ms ip (MvCloseHardware hw m) h = CloseHardware ms hw m h"
| "hub_step ms ip (MvOfferClose c) h = snd (offerClose c h)"
| "hub_step ms ip (MvDeliver env) h = deliverFromRedis ms env h"
| "hub_step ms ip MvDrainAndClose h = DrainAndClose h"
| "hub_step ms ip MvForceCloseAll h = forceCloseAll h"
| "hub_step ms ip (MvSetUpdateStatus hw s d now) h = SetUpdateStatus hw s d now h"
| "hub_step ms ip (MvClearUpdateStatus hw) h = ClearUpdateStatus hw h"
| "hub_step ms ip (MvSetVoicemailUnheard number hw n) h = SetVoicemailUnheard number hw n h"
| "hub_step ms ip (MvUpdateDeviceInfo number p) h = snd (UpdateDeviceInfo ip number p h)"
| "hub_step ms ip (MvUpdateDeviceInfoByHardware hw p) h = snd (UpdateDeviceInfoByHardware ip hw p h)"
| "hub_step ms ip (MvTouchLastSeen number hw now) h = TouchLastSeen number hw now h"
| "hub_step ms ip (MvReceive c) h = updConn c (\<lambda>k. k\<lparr>coSend := tl (coSend k)\<rparr>) h"

section \<open>The two retry loops\<close>

text \<open>
  \<open>SendToWithTimeout\<close> and \<open>retryClose\<close> sleep between their critical sections, and the rest of
  the program runs meanwhile: a loop takes the sequence of its iterations, the clock at each
  and the moves of other goroutines during the sleep that follows it.  Durations are
  milliseconds, as in the code.
\<close>

definition sendRetryInterval :: int where "sendRetryInterval = 20"
definition closeRetryTimeout :: int where "closeRetryTimeout = 15000"
definition closeRetryMaxInterval :: int where "closeRetryMaxInterval = 500"

text \<open>\<^const>\<open>None\<close> means that the loop is still running when the sequence ends.\<close>

primrec swtLoop ::
  "(Message \<Rightarrow> string option) \<Rightarrow> (string \<Rightarrow> bool) \<Rightarrow> bool \<Rightarrow> string \<Rightarrow> string option \<Rightarrow> int
     \<Rightarrow> (int \<times> hubMove list) list \<Rightarrow> nat list \<Rightarrow> Hub \<Rightarrow> (hubError option \<times> nat list) option \<times> Hub" where
  "swtLoop ms ip bridge number d deadline [] delivered h = (None, h)"
| "swtLoop ms ip bridge number d deadline (p # ps) delivered h =
     (case swtIter bridge number d deadline (fst p) delivered h of
        (Some r, dl, h) \<Rightarrow> (Some (r, dl), h)
      | (None, dl, h) \<Rightarrow> swtLoop ms ip bridge number d deadline ps dl (fold (hub_step ms ip) (snd p) h))"

definition SendToWithTimeout ::
  "(Message \<Rightarrow> string option) \<Rightarrow> (string \<Rightarrow> bool) \<Rightarrow> string \<Rightarrow> Message \<Rightarrow> int \<Rightarrow> int
     \<Rightarrow> (int \<times> hubMove list) list \<Rightarrow> Hub \<Rightarrow> (hubError option \<times> nat list) option \<times> Hub" where
  "SendToWithTimeout ms ip number msg timeout start sched h =
     (case ms msg of None \<Rightarrow> (Some (Some ErrMarshal, []), h)
      | Some d \<Rightarrow>
          let h = (if redis h then publish ''number'' number (Some msg) h else h)
          in swtLoop ms ip (redis h) number (Some d) (start + timeout) sched [] h)"

text \<open>The result is whether the loop returned, and the hub.\<close>

primrec retryLoop ::
  "(Message \<Rightarrow> string option) \<Rightarrow> (string \<Rightarrow> bool) \<Rightarrow> nat \<Rightarrow> int \<Rightarrow> int \<Rightarrow> (int \<times> hubMove list) list
     \<Rightarrow> Hub \<Rightarrow> bool \<times> Hub" where
  "retryLoop ms ip c deadline interval [] h = (False, h)"
| "retryLoop ms ip c deadline interval (p # ps) h =
     (if fst p < deadline then
        (case offerClose c (fold (hub_step ms ip) (snd p) h) of
           (True, h) \<Rightarrow> (True, h)
         | (False, h) \<Rightarrow> retryLoop ms ip c deadline (min (2 * interval) closeRetryMaxInterval) ps h)
      else let h = (if dropHook h then hubEmit [DropHook] h else h)
           in (True, if coWS (hstore h c) then hubEmit [WSClose c] h else h))"

definition retryClose ::
  "(Message \<Rightarrow> string option) \<Rightarrow> (string \<Rightarrow> bool) \<Rightarrow> nat \<Rightarrow> int \<Rightarrow> (int \<times> hubMove list) list \<Rightarrow> Hub
     \<Rightarrow> bool \<times> Hub" where
  "retryClose ms ip c start sched h =
     retryLoop ms ip c (start + closeRetryTimeout) sendRetryInterval sched h"

section \<open>The Redis bridge\<close>

text \<open>
  \<open>redis.go\<close>: \<open>Publish\<close> stamps the envelope with the pod, and \<open>Subscribe\<close> drops the pod's own
  envelopes.  The channel between them is Redis.
\<close>

definition bridgePublish :: "string \<Rightarrow> Envelope \<Rightarrow> Envelope" where
  "bridgePublish pod env = env\<lparr>enPodID := pod\<rparr>"

definition bridgeAccepts :: "string \<Rightarrow> Envelope \<Rightarrow> bool" where
  "bridgeAccepts pod env \<longleftrightarrow> enPodID env \<noteq> pod"

definition published :: "hubOut list \<Rightarrow> Envelope list" where
  "published es = concat (map (\<lambda>e. case e of Publish env \<Rightarrow> [env] | _ \<Rightarrow> []) es)"

text \<open>\<open>Hub.Run\<close> on what the subscription yields.\<close>

definition Run :: "(Message \<Rightarrow> string option) \<Rightarrow> string \<Rightarrow> Envelope list \<Rightarrow> Hub \<Rightarrow> Hub" where
  "Run ms pod envs h =
     (if redis h then fold (deliverFromRedis ms) (filter (bridgeAccepts pod) envs) h else h)"

text \<open>
  A fleet: the pods with their identifiers.  One pod sends to a line; every pod then runs its
  subscriber over what was published, and each local delivery happens in one go.
\<close>

type_synonym fleet = "(string \<times> Hub) list"

definition fleetSendTo ::
  "(Message \<Rightarrow> string option) \<Rightarrow> string \<Rightarrow> string \<Rightarrow> Message \<Rightarrow> fleet \<Rightarrow> fleet" where
  "fleetSendTo ms pod number msg pods =
     (case map_of pods pod of None \<Rightarrow> pods
      | Some h \<Rightarrow>
          let h1 = snd (SendTo ms number msg h);
              envs = map (bridgePublish pod) (published (drop (length (hlog h)) (hlog h1)))
          in map (\<lambda>(p, g). (p, Run ms p envs (if p = pod then h1 else g))) pods)"

end
