(* ===== verification/Hub_Inv.thy ===== *)
theory Hub_Inv
  imports Hub_Ops
begin

text \<open>
  The hub's invariant: the line table and the hardware table describe the same connections, a
  device has at most one of them, no registered connection has a closed channel, and no
  operation ever panics.
\<close>

section \<open>The invariant\<close>

definition hub_ok :: "Hub \<Rightarrow> bool" where
  "hub_ok h \<longleftrightarrow> mwf (conns h) \<and> mwf (hwConns h) \<and> \<not> hpanic h
     \<and> (\<forall>n. map_of (conns h) n \<noteq> Some [])
     \<and> (\<forall>n. distinct (lineConns n h))
     \<and> (\<forall>n. \<forall>c \<in> set (lineConns n h). coNumber (hstore h c) = n \<and> \<not> coClosed (hstore h c) \<and> c < hnext h)
     \<and> (\<forall>hw c. map_of (hwConns h) hw = Some c \<longleftrightarrow>
          hw \<noteq> [] \<and> coHardwareID (hstore h c) = hw \<and> connIsCurrentLocked c h)"

text \<open>What the invariant reads; sends, touches and records leave it alone.\<close>

definition hub_view :: "Hub \<Rightarrow> (string \<times> nat list) list \<times> (string \<times> nat) list \<times> bool \<times> nat
    \<times> (nat \<Rightarrow> string) \<times> (nat \<Rightarrow> string) \<times> (nat \<Rightarrow> bool)" where
  "hub_view h = (conns h, hwConns h, hpanic h, hnext h, coNumber \<circ> hstore h,
     coHardwareID \<circ> hstore h, coClosed \<circ> hstore h)"

lemma hub_view_sel:
  assumes "hub_view h' = hub_view h"
  shows "conns h' = conns h" "hwConns h' = hwConns h" "hpanic h' = hpanic h" "hnext h' = hnext h"
    "coNumber (hstore h' c) = coNumber (hstore h c)"
    "coHardwareID (hstore h' c) = coHardwareID (hstore h c)"
    "coClosed (hstore h' c) = coClosed (hstore h c)"
    "lineConns n h' = lineConns n h"
  using assms by (auto simp: hub_view_def lineConns_def fun_eq_iff)

lemma hub_ok_cong:
  assumes "hub_view h' = hub_view h"
  shows "hub_ok h' = hub_ok h"
  using hub_view_sel [OF assms] by (simp add: hub_ok_def connIsCurrentLocked_def)

lemma hub_okD:
  assumes "hub_ok h"
  shows "c \<in> set (lineConns n h) \<Longrightarrow> coNumber (hstore h c) = n"
    and "c \<in> set (lineConns n h) \<Longrightarrow> \<not> coClosed (hstore h c)"
    and "c \<in> set (lineConns n h) \<Longrightarrow> c < hnext h"
    and "distinct (lineConns n h)"
    and "map_of (hwConns h) hw = Some c \<Longrightarrow> c \<in> set (lineConns (coNumber (hstore h c)) h)"
    and "map_of (hwConns h) hw = Some c \<Longrightarrow> coHardwareID (hstore h c) = hw"
    and "map_of (hwConns h) hw = Some c \<Longrightarrow> hw \<noteq> []"
    and "c \<in> set (lineConns n h) \<Longrightarrow> coHardwareID (hstore h c) \<noteq> []
           \<Longrightarrow> map_of (hwConns h) (coHardwareID (hstore h c)) = Some c"
proof -
  from assms have L: "\<And>n c. c \<in> set (lineConns n h) \<Longrightarrow>
        coNumber (hstore h c) = n \<and> \<not> coClosed (hstore h c) \<and> c < hnext h"
    and D: "\<And>n. distinct (lineConns n h)"
    and W: "\<And>hw c. map_of (hwConns h) hw = Some c \<longleftrightarrow> hw \<noteq> [] \<and> coHardwareID (hstore h c) = hw
              \<and> c \<in> set (lineConns (coNumber (hstore h c)) h)"
    by (simp_all add: hub_ok_def connIsCurrentLocked_def)
  show "c \<in> set (lineConns n h) \<Longrightarrow> coNumber (hstore h c) = n"
    "c \<in> set (lineConns n h) \<Longrightarrow> \<not> coClosed (hstore h c)"
    "c \<in> set (lineConns n h) \<Longrightarrow> c < hnext h" by (simp_all add: L)
  show "distinct (lineConns n h)" by (rule D)
  show "map_of (hwConns h) hw = Some c \<Longrightarrow> c \<in> set (lineConns (coNumber (hstore h c)) h)"
    "map_of (hwConns h) hw = Some c \<Longrightarrow> coHardwareID (hstore h c) = hw"
    "map_of (hwConns h) hw = Some c \<Longrightarrow> hw \<noteq> []" by (auto simp: W)
  show "map_of (hwConns h) (coHardwareID (hstore h c)) = Some c"
    if "c \<in> set (lineConns n h)" "coHardwareID (hstore h c) \<noteq> []"
    using that L [OF that(1)] by (simp add: W)
qed

lemma hub_ok_New: "hub_ok NewHub"
  by (simp add: hub_ok_def NewHub_def lineConns_def connIsCurrentLocked_def)

section \<open>Operations that leave the tables alone\<close>

lemma view_emit [simp]: "hub_view (hubEmit es h) = hub_view h"
  by (simp add: hub_view_def hubEmit_def)

lemma view_publish [simp]: "hub_view (publish ty t m h) = hub_view h"
  by (simp add: publish_def)

lemma view_updConn:
  assumes "coNumber (f (hstore h c)) = coNumber (hstore h c)"
    and "coHardwareID (f (hstore h c)) = coHardwareID (hstore h c)"
    and "coClosed (f (hstore h c)) = coClosed (hstore h c)"
  shows "hub_view (updConn c f h) = hub_view h"
  using assms by (auto simp: hub_view_def updConn_def fun_eq_iff)

lemma view_trySend:
  assumes "\<not> coClosed (hstore h c)"
  shows "hub_view (snd (trySend c d h)) = hub_view h"
  using assms by (simp add: trySend_def Let_def view_updConn)

lemma trySend_pair:
  assumes "trySend c d h = (b, h')" "\<not> coClosed (hstore h c)"
  shows "hub_view h' = hub_view h"
  using view_trySend [OF assms(2), of d] assms(1) by simp

lemma view_sendLoop:
  assumes "\<forall>c \<in> set cs. \<not> coClosed (hstore h c)"
  shows "hub_view (sendLoop hook d cs h) = hub_view h"
  using assms
proof (induction cs arbitrary: h)
  case (Cons c cs)
  obtain ok h1 where eq: "trySend c d h = (ok, h1)" by fastforce
  with Cons.prems have v: "hub_view h1 = hub_view h" by (auto dest: trySend_pair)
  let ?h2 = "if ok \<or> \<not> hook then h1 else hubEmit [DropHook] h1"
  have v2: "hub_view ?h2 = hub_view h" using v by simp
  have "hub_view (sendLoop hook d cs ?h2) = hub_view ?h2"
    by (rule Cons.IH) (use Cons.prems in \<open>simp add: hub_view_sel(7) [OF v2]\<close>)
  then show ?case using v2 by (simp add: eq)
qed simp

lemma view_pendLoop:
  assumes "\<forall>c \<in> set cs. \<not> coClosed (hstore h c)"
  shows "hub_view (snd (snd (pendLoop d cs dv h))) = hub_view h"
  using assms
proof (induction cs arbitrary: dv h)
  case (Cons c cs)
  show ?case
  proof (cases "c \<in> set dv")
    case False
    obtain ok h1 where eq: "trySend c d h = (ok, h1)" by fastforce
    with Cons.prems have v: "hub_view h1 = hub_view h" by (auto dest: trySend_pair)
    have IH: "hub_view (snd (snd (pendLoop d cs dv' h1))) = hub_view h1" for dv'
      by (rule Cons.IH) (use Cons.prems in \<open>simp add: hub_view_sel(7) [OF v]\<close>)
    show ?thesis using False eq v IH [of dv] IH [of "c # dv"]
      by (cases ok) (auto split: prod.splits)
  qed (use Cons in simp)
qed simp

lemma view_closeConn:
  assumes "\<not> coClosed (hstore h c)"
  shows "hub_view (closeConn fw c h) = hub_view h"
proof -
  define h1 where "h1 = (case fw of None \<Rightarrow> h
     | Some d \<Rightarrow> (case trySend c (Some d) h of (True, h) \<Rightarrow> h
        | (False, h) \<Rightarrow> if dropHook h then hubEmit [DropHook] h else h))"
  have v: "hub_view h1 = hub_view h"
    using assms by (auto simp: h1_def split: option.splits prod.splits bool.splits dest: trySend_pair)
  have "hub_view (closeConn fw c h) = hub_view h1"
    using assms hub_view_sel(7) [OF v]
    by (auto simp: closeConn_def h1_def [symmetric] split: prod.splits bool.splits dest: trySend_pair)
  with v show ?thesis by simp
qed

lemma view_closeLoop:
  assumes "\<forall>c \<in> set cs. \<not> coClosed (hstore h c)"
  shows "hub_view (fold (closeConn fw) cs h) = hub_view h"
  using assms
proof (induction cs arbitrary: h)
  case (Cons c cs)
  then have v: "hub_view (closeConn fw c h) = hub_view h" by (simp add: view_closeConn)
  with Cons show ?case by (simp add: hub_view_sel(7) [OF v])
qed simp

lemma line_open: "hub_ok h \<Longrightarrow> \<forall>c \<in> set (lineConns n h). \<not> coClosed (hstore h c)"
  by (auto dest: hub_okD)

lemma hw_open: "hub_ok h \<Longrightarrow> map_of (hwConns h) hw = Some c \<Longrightarrow> \<not> coClosed (hstore h c)"
  by (auto dest: hub_okD)

lemma all_open: "hub_ok h \<Longrightarrow> \<forall>c \<in> set (concat (map snd (conns h))). \<not> coClosed (hstore h c)"
proof
  fix c assume h: "hub_ok h" and c: "c \<in> set (concat (map snd (conns h)))"
  then obtain n cs where "(n, cs) \<in> set (conns h)" "c \<in> set cs" by auto
  then have "c \<in> set (lineConns n h)"
    using h by (auto simp: hub_ok_def mwf_in_set lineConns_def)
  with h show "\<not> coClosed (hstore h c)" by (auto dest: hub_okD)
qed

lemma view_queries_upd [simp]:
  "hub_view (h\<lparr>redis := b\<rparr>) = hub_view h" "hub_view (h\<lparr>hstate := ds\<rparr>) = hub_view h"
  "hub_view (h\<lparr>draining := b\<rparr>) = hub_view h" "hub_view (h\<lparr>updateStatus := u\<rparr>) = hub_view h"
  "hub_view (h\<lparr>voicemailUnheard := v\<rparr>) = hub_view h"
  "hub_view (SetRedis b h) = hub_view h" "hub_view (SetDeviceState ds h) = hub_view h"
  "hub_view (SetReconnectHook b h) = hub_view h" "hub_view (SetDropHook b h) = hub_view h"
  "hub_view (SetDashboardEvents b h) = hub_view h"
  by (simp_all add: hub_view_def SetRedis_def SetDeviceState_def SetReconnectHook_def SetDropHook_def
      SetDashboardEvents_def)

lemma view_SendTo: "hub_ok h \<Longrightarrow> hub_view (snd (SendTo ms n m h)) = hub_view h"
  by (simp add: SendTo_def Let_def view_sendLoop [OF line_open] split: option.splits)

lemma view_enqueue: "hub_ok h \<Longrightarrow> hub_view (snd (enqueueHardware hw d h)) = hub_view h"
  by (auto simp: enqueueHardware_def split: option.splits prod.splits dest: trySend_pair [OF _ hw_open])

lemma view_SendToHardware:
  assumes "hub_ok h"
  shows "hub_view (snd (SendToHardware ms hw m h)) = hub_view h"
  using view_enqueue [OF assms]
  by (auto simp: SendToHardware_def publishFallback_def split: option.splits prod.splits)
    (metis snd_conv)+

lemma view_Broadcast: "hub_ok h \<Longrightarrow> hub_view (Broadcast ms m h) = hub_view h"
  by (simp add: Broadcast_def Let_def view_sendLoop [OF all_open] split: option.splits)

lemma view_swtIter:
  assumes "hub_ok h"
  shows "hub_view (snd (snd (swtIter b n d dl now dv h))) = hub_view h"
  using view_pendLoop [OF line_open [OF assms], of d n dv]
  by (auto simp: swtIter_def Let_def split: prod.splits)

lemma view_closeLine: "hub_ok h \<Longrightarrow> hub_view (closeLocalLine n d h) = hub_view h"
  by (simp add: closeLocalLine_def view_closeLoop [OF line_open])

lemma view_closeHw: "hub_ok h \<Longrightarrow> hub_view (closeLocalHardware hw d h) = hub_view h"
  by (auto simp: closeLocalHardware_def view_closeConn [OF hw_open] split: option.splits)

lemma view_Close:
  "hub_ok h \<Longrightarrow> hub_view (CloseLine ms n m h) = hub_view h"
  "hub_ok h \<Longrightarrow> hub_view (CloseHardware ms hw m h) = hub_view h"
  by (simp_all add: CloseLine_def CloseHardware_def Let_def view_closeLine view_closeHw split: sum.splits)

lemma view_offerClose: "hub_ok h \<Longrightarrow> hub_view (snd (offerClose c h)) = hub_view h"
  by (auto simp: offerClose_def connIsCurrentLocked_def dest: hub_okD intro: view_trySend)

lemma view_deliver: "hub_ok h \<Longrightarrow> hub_view (deliverFromRedis ms env h) = hub_view h"
  by (simp add: deliverFromRedis_def view_closeLine view_closeHw view_enqueue
      view_sendLoop [OF line_open] view_sendLoop [OF all_open] split: sum.splits option.splits)

lemma view_touch:
  "hub_view (fold (\<lambda>c h. if coHardwareID (hstore h c) = hw
      then updConn c (\<lambda>k. k\<lparr>coLastSeen := now\<rparr>) h else h) cs h) = hub_view h"
  by (induction cs arbitrary: h) (simp_all add: view_updConn)

lemma view_records:
  "hub_view (SetUpdateStatus hw s d now h) = hub_view h" "hub_view (ClearUpdateStatus hw h) = hub_view h"
  "hub_view (SetVoicemailUnheard n hw k h) = hub_view h" "hub_view (TouchLastSeen n hw now h) = hub_view h"
  "hub_view (PublishReconnect n hw h) = hub_view h" "hub_view (DrainAndClose h) = hub_view h"
  "hub_view (forceCloseAll h) = hub_view h" "hub_view (StartDraining h) = hub_view h"
  "hub_view (snd (UpdateDeviceInfo ip n p h)) = hub_view h"
  "hub_view (snd (UpdateDeviceInfoByHardware ip hw p h)) = hub_view h"
  by (simp_all add: SetUpdateStatus_def ClearUpdateStatus_def SetVoicemailUnheard_def TouchLastSeen_def
      PublishReconnect_def DrainAndClose_def forceCloseAll_def StartDraining_def UpdateDeviceInfo_def
      UpdateDeviceInfoByHardware_def applyDeviceInfo_def Let_def view_touch view_updConn
      split: option.splits list.splits)

section \<open>Registration\<close>

text \<open>The two tables without one connection.\<close>

lemma lineConns_mput [simp]:
  "lineConns n (h\<lparr>conns := mput m cs (conns h)\<rparr>) = (if n = m then cs else lineConns n h)"
  by (simp add: lineConns_def)

lemma lineConns_put_del:
  "lineConns n (h\<lparr>conns := (if cs = [] then mdel m (mput m cs (conns h)) else mput m cs (conns h))\<rparr>)
     = (if n = m then cs else lineConns n h)"
  by (simp add: lineConns_def)

lemma lineConns_other [simp]:
  "lineConns n (h\<lparr>hwConns := x\<rparr>) = lineConns n h" "lineConns n (h\<lparr>voicemailUnheard := y\<rparr>) = lineConns n h"
  "lineConns n (updConn c f h) = lineConns n h" "lineConns n (hubEmit es h) = lineConns n h"
  by (simp_all add: lineConns_def updConn_def hubEmit_def)

text \<open>
  \<open>removeLocked\<close> on a registered connection, up to the voicemail counts: what is left of the
  tables, and the channel closed.
\<close>

definition dropped :: "string \<Rightarrow> nat \<Rightarrow> Hub \<Rightarrow> Hub" where
  "dropped n c h =
     (let rest = remove1 c (lineConns n h); hw = coHardwareID (hstore h c) in
      h\<lparr>hstore := (hstore h)(c := (hstore h c)\<lparr>coClosed := True\<rparr>),
        conns := (if rest = [] then mdel n (mput n rest (conns h)) else mput n rest (conns h)),
        hwConns := (if hw \<noteq> [] \<and> map_of (hwConns h) hw = Some c then mdel hw (hwConns h) else hwConns h)\<rparr>)"

lemma removeLocked_no: "c \<notin> set (lineConns n h) \<Longrightarrow> removeLocked n c h = (False, h)"
  by (simp add: removeLocked_def)

lemma removeLocked_yes:
  assumes "c \<in> set (lineConns n h)" "\<not> coClosed (hstore h c)"
  shows "fst (removeLocked n c h) \<and> hub_view (snd (removeLocked n c h)) = hub_view (dropped n c h)"
proof -
  let ?h1 = "updConn c (\<lambda>k. k\<lparr>coClosed := True\<rparr>) h"
  have c1: "closeChan c h = ?h1" using assms(2) by (simp add: closeChan_def)
  have [simp]: "conns ?h1 = conns h" "hwConns ?h1 = hwConns h"
      "hstore ?h1 = (hstore h)(c := (hstore h c)\<lparr>coClosed := True\<rparr>)" "hpanic ?h1 = hpanic h"
      "hnext ?h1 = hnext h" "voicemailUnheard ?h1 = voicemailUnheard h"
    by (simp_all add: updConn_def)
  show ?thesis
    using assms(1) by (simp add: removeLocked_def c1 Let_def dropped_def hub_view_def fun_eq_iff
        split: option.splits)
qed

lemma dropped_sel:
  "lineConns m (dropped n c h) = (if m = n then remove1 c (lineConns n h) else lineConns m h)"
  "hstore (dropped n c h) = (hstore h)(c := (hstore h c)\<lparr>coClosed := True\<rparr>)"
  "hnext (dropped n c h) = hnext h" "hpanic (dropped n c h) = hpanic h"
  by (simp_all add: dropped_def Let_def lineConns_def)

lemma dropped_hw:
  assumes "hub_ok h" "c \<in> set (lineConns n h)"
  shows "map_of (hwConns (dropped n c h)) hw =
    (if hw = coHardwareID (hstore h c) then None else map_of (hwConns h) hw)"
proof -
  have "map_of (hwConns h) [] = None" using hub_okD(7) [OF assms(1), of "[]"] by fastforce
  with hub_okD(8) [OF assms] show ?thesis
    by (cases "coHardwareID (hstore h c) = []") (auto simp: dropped_def Let_def)
qed

lemma dropped_ok:
  assumes ok: "hub_ok h" and c: "c \<in> set (lineConns n h)"
  shows "hub_ok (dropped n c h)"
proof -
  note L = hub_okD(1-4) [OF ok]
  have num: "coNumber (hstore h c) = n" using L(1) [OF c] .
  have mem: "x \<in> set (lineConns m (dropped n c h)) \<longleftrightarrow> x \<in> set (lineConns m h) \<and> x \<noteq> c" for x m
    using L(1) [of c m] num L(4) [of n] by (auto simp: dropped_sel)
  have "mwf (conns (dropped n c h))" "mwf (hwConns (dropped n c h))"
    using ok by (simp_all add: hub_ok_def dropped_def Let_def)
  moreover have "\<not> hpanic (dropped n c h)" using ok by (simp add: hub_ok_def dropped_sel)
  moreover have "map_of (conns (dropped n c h)) m \<noteq> Some []" for m
    using ok by (simp add: hub_ok_def dropped_def Let_def)
  moreover have "distinct (lineConns m (dropped n c h))" for m
    using L(4) by (simp add: dropped_sel)
  moreover have "coNumber (hstore (dropped n c h) x) = m \<and> \<not> coClosed (hstore (dropped n c h) x)
      \<and> x < hnext (dropped n c h)" if "x \<in> set (lineConns m (dropped n c h))" for m x
    using that L(1-3) [of x m] unfolding mem by (simp add: dropped_sel)
  moreover have "map_of (hwConns (dropped n c h)) hw = Some x \<longleftrightarrow>
      hw \<noteq> [] \<and> coHardwareID (hstore (dropped n c h) x) = hw \<and> connIsCurrentLocked x (dropped n c h)"
    for hw x
  proof -
    have "map_of (hwConns h) hw = Some x \<longleftrightarrow>
        hw \<noteq> [] \<and> coHardwareID (hstore h x) = hw \<and> x \<in> set (lineConns (coNumber (hstore h x)) h)"
      using ok by (simp add: hub_ok_def connIsCurrentLocked_def)
    moreover have "x = c" if "map_of (hwConns h) (coHardwareID (hstore h c)) = Some x"
      using hub_okD(8) [OF ok c] hub_okD(7) [OF ok that] that by simp
    ultimately show ?thesis
      unfolding dropped_hw [OF ok c] connIsCurrentLocked_def mem
      by (auto simp: dropped_sel(2))
  qed
  ultimately show ?thesis by (simp add: hub_ok_def)
qed

lemma removeLocked_ok: "hub_ok h \<Longrightarrow> hub_ok (snd (removeLocked n c h))"
proof (cases "c \<in> set (lineConns n h)")
  case True
  assume ok: "hub_ok h"
  with True have "hub_view (snd (removeLocked n c h)) = hub_view (dropped n c h)"
    using removeLocked_yes [OF True hub_okD(2) [OF ok True]] by simp
  from hub_ok_cong [OF this] show ?thesis using dropped_ok [OF ok True] by simp
qed (simp add: removeLocked_no)

lemma Unregister_view: "hub_view (Unregister n c h) = hub_view (snd (removeLocked n c h))"
  by (simp add: Unregister_def Let_def split: prod.splits)

lemma Unregister_ok: "hub_ok h \<Longrightarrow> hub_ok (Unregister n c h)"
  using removeLocked_ok hub_ok_cong [OF Unregister_view] by simp

text \<open>A connection that is not registered yet, and the tables with it.\<close>

definition fresh :: "nat \<Rightarrow> Hub \<Rightarrow> bool" where
  "fresh c h \<longleftrightarrow> c < hnext h \<and> \<not> coClosed (hstore h c) \<and> (\<forall>n. c \<notin> set (lineConns n h))"

definition setNum :: "string \<Rightarrow> nat \<Rightarrow> Hub \<Rightarrow> Hub" where
  "setNum n c h = updConn c (\<lambda>k. k\<lparr>coNumber := n\<rparr>) h"

definition evict :: "string \<Rightarrow> Hub \<Rightarrow> Hub" where
  "evict hw h = (case map_of (hwConns h) hw of None \<Rightarrow> h
     | Some old \<Rightarrow> snd (removeLocked (coNumber (hstore h old)) old h))"

definition added :: "string \<Rightarrow> nat \<Rightarrow> Hub \<Rightarrow> Hub" where
  "added n c h = (let hw = coHardwareID (hstore h c) in
     h\<lparr>conns := mput n (lineConns n h @ [c]) (conns h),
       hwConns := (if hw \<noteq> [] then mput hw c (hwConns h) else hwConns h)\<rparr>)"

lemma setNum_ok:
  assumes "hub_ok h" "fresh c h"
  shows "hub_ok (setNum n c h) \<and> fresh c (setNum n c h)"
proof -
  have [simp]: "conns (setNum n c h) = conns h" "hwConns (setNum n c h) = hwConns h"
    "hpanic (setNum n c h) = hpanic h" "hnext (setNum n c h) = hnext h"
    "hstore (setNum n c h) = (hstore h)(c := (hstore h c)\<lparr>coNumber := n\<rparr>)"
    "\<And>m. lineConns m (setNum n c h) = lineConns m h"
    by (simp_all add: setNum_def) (simp_all add: updConn_def)
  have "c \<notin> set (lineConns m h)" for m using assms(2) by (simp add: fresh_def)
  with assms show ?thesis by (auto simp: hub_ok_def fresh_def connIsCurrentLocked_def)
qed

lemma removeLocked_frame:
  assumes "hub_ok h" "x \<notin> set (lineConns n h) \<or> x \<noteq> c"
  shows "coNumber (hstore (snd (removeLocked n c h)) y) = coNumber (hstore h y)"
    "coHardwareID (hstore (snd (removeLocked n c h)) y) = coHardwareID (hstore h y)"
    "coClosed (hstore (snd (removeLocked n c h)) x) = coClosed (hstore h x)"
    "hnext (snd (removeLocked n c h)) = hnext h"
    "x \<in> set (lineConns m (snd (removeLocked n c h))) \<longleftrightarrow> x \<in> set (lineConns m h)"
proof -
  consider "c \<notin> set (lineConns n h)"
    | "c \<in> set (lineConns n h)" "hub_view (snd (removeLocked n c h)) = hub_view (dropped n c h)" "x \<noteq> c"
    using removeLocked_yes [OF _ hub_okD(2) [OF assms(1)]] assms(2) by blast
  then have "coNumber (hstore (snd (removeLocked n c h)) y) = coNumber (hstore h y)
    \<and> coHardwareID (hstore (snd (removeLocked n c h)) y) = coHardwareID (hstore h y)
    \<and> coClosed (hstore (snd (removeLocked n c h)) x) = coClosed (hstore h x)
    \<and> hnext (snd (removeLocked n c h)) = hnext h
    \<and> (x \<in> set (lineConns m (snd (removeLocked n c h))) \<longleftrightarrow> x \<in> set (lineConns m h))"
  proof cases
    case 2
    from 2(3) have "x \<in> set (remove1 c cs) \<longleftrightarrow> x \<in> set cs" for cs by simp
    with 2(3) show ?thesis by (simp add: hub_view_sel [OF 2(2)] dropped_sel)
  qed (simp add: removeLocked_no)
  then show "coNumber (hstore (snd (removeLocked n c h)) y) = coNumber (hstore h y)"
    "coHardwareID (hstore (snd (removeLocked n c h)) y) = coHardwareID (hstore h y)"
    "coClosed (hstore (snd (removeLocked n c h)) x) = coClosed (hstore h x)"
    "hnext (snd (removeLocked n c h)) = hnext h"
    "x \<in> set (lineConns m (snd (removeLocked n c h))) \<longleftrightarrow> x \<in> set (lineConns m h)"
    by simp_all
qed

lemma evict_ok:
  assumes ok: "hub_ok h" and fr: "fresh c h"
  shows "hub_ok (evict hw h) \<and> fresh c (evict hw h) \<and> map_of (hwConns (evict hw h)) hw = None
    \<and> coNumber (hstore (evict hw h) c) = coNumber (hstore h c)
    \<and> coHardwareID (hstore (evict hw h) c) = coHardwareID (hstore h c)"
proof (cases "map_of (hwConns h) hw")
  case None
  then show ?thesis using ok fr by (simp add: evict_def)
next
  case (Some old)
  let ?n = "coNumber (hstore h old)"
  have mem: "old \<in> set (lineConns ?n h)" using hub_okD(5) [OF ok Some] .
  have ev: "evict hw h = snd (removeLocked ?n old h)" by (simp add: evict_def Some)
  have "\<forall>n. c \<notin> set (lineConns n h)" using fr by (simp add: fresh_def)
  then have c: "c \<notin> set (lineConns ?n h) \<or> c \<noteq> old" by simp
  note F = removeLocked_frame [OF ok c]
  have v: "hub_view (evict hw h) = hub_view (dropped ?n old h)"
    using removeLocked_yes [OF mem hub_okD(2) [OF ok mem]] by (simp add: ev)
  have "map_of (hwConns (evict hw h)) hw = None"
    using dropped_hw [OF ok mem, of hw] hub_okD(6) [OF ok Some] by (simp add: hub_view_sel(2) [OF v])
  then show ?thesis using removeLocked_ok [OF ok] fr unfolding fresh_def ev by (simp add: F)
qed

lemma added_ok:
  assumes ok: "hub_ok h" and fr: "fresh c h" and num: "coNumber (hstore h c) = n"
    and hw: "map_of (hwConns h) (coHardwareID (hstore h c)) = None"
  shows "hub_ok (added n c h)"
proof -
  note L = hub_okD(1-4) [OF ok]
  have nc: "c \<notin> set (lineConns m h)" for m using fr by (simp add: fresh_def)
  have [simp]: "hstore (added n c h) = hstore h" "hnext (added n c h) = hnext h"
    "hpanic (added n c h) = hpanic h" by (simp_all add: added_def Let_def)
  have lines: "lineConns m (added n c h) = (if m = n then lineConns n h @ [c] else lineConns m h)" for m
    by (simp add: added_def Let_def lineConns_def)
  have mem: "x \<in> set (lineConns m (added n c h)) \<longleftrightarrow> x \<in> set (lineConns m h) \<or> x = c \<and> m = n" for x m
    by (auto simp: lines)
  have "mwf (conns (added n c h))" "mwf (hwConns (added n c h))"
    using ok by (simp_all add: hub_ok_def added_def Let_def)
  moreover have "\<not> hpanic (added n c h)" using ok by (simp add: hub_ok_def)
  moreover have "map_of (conns (added n c h)) m \<noteq> Some []" for m
    using ok by (simp add: hub_ok_def added_def Let_def)
  moreover have "distinct (lineConns m (added n c h))" for m using L(4) nc by (simp add: lines)
  moreover have "coNumber (hstore h x) = m \<and> \<not> coClosed (hstore h x) \<and> x < hnext h"
    if "x \<in> set (lineConns m (added n c h))" for m x
    using that L(1-3) [of x m] num fr unfolding mem by (auto simp: fresh_def)
  moreover have "map_of (hwConns (added n c h)) k = Some x \<longleftrightarrow>
      k \<noteq> [] \<and> coHardwareID (hstore h x) = k \<and> connIsCurrentLocked x (added n c h)" for k x
  proof -
    have old: "map_of (hwConns h) k = Some x \<longleftrightarrow>
        k \<noteq> [] \<and> coHardwareID (hstore h x) = k \<and> x \<in> set (lineConns (coNumber (hstore h x)) h)" for k x
      using ok by (simp add: hub_ok_def connIsCurrentLocked_def)
    have new: "map_of (hwConns (added n c h)) k =
        (if k = coHardwareID (hstore h c) \<and> k \<noteq> [] then Some c else map_of (hwConns h) k)"
      by (auto simp: added_def Let_def)
    have "connIsCurrentLocked x (added n c h) \<longleftrightarrow> x \<in> set (lineConns (coNumber (hstore h x)) h) \<or> x = c"
      using num by (auto simp: connIsCurrentLocked_def mem)
    moreover have "\<not> (coHardwareID (hstore h c) \<noteq> [] \<and> coHardwareID (hstore h x) = coHardwareID (hstore h c)
        \<and> x \<in> set (lineConns (coNumber (hstore h x)) h))"
      using old [of "coHardwareID (hstore h c)" x] hw by simp
    ultimately show ?thesis unfolding new using old [of k x] nc by auto
  qed
  ultimately show ?thesis by (simp add: hub_ok_def)
qed

lemma hub_view_pre:
  assumes "hub_view h1 = hub_view h2"
  shows "hub_view (added n c h1) = hub_view (added n c h2)"
  using hub_view_sel [OF assms] by (simp add: hub_view_def added_def Let_def fun_eq_iff)

lemma emit_commutes:
  "closeChan c (hubEmit es h) = hubEmit es (closeChan c h)"
  "(hubEmit es h)\<lparr>conns := x\<rparr> = hubEmit es (h\<lparr>conns := x\<rparr>)"
  "(hubEmit es h)\<lparr>hwConns := y\<rparr> = hubEmit es (h\<lparr>hwConns := y\<rparr>)"
  "(hubEmit es h)\<lparr>voicemailUnheard := z\<rparr> = hubEmit es (h\<lparr>voicemailUnheard := z\<rparr>)"
  by (simp_all add: hubEmit_def closeChan_def updConn_def)

lemma hubEmit_sel [simp]:
  "conns (hubEmit es h) = conns h" "hwConns (hubEmit es h) = hwConns h" "hstore (hubEmit es h) = hstore h"
  "voicemailUnheard (hubEmit es h) = voicemailUnheard h" "dashEvents (hubEmit es h) = dashEvents h"
  "hstate (hubEmit es h) = hstate h" "draining (hubEmit es h) = draining h" "redis (hubEmit es h) = redis h"
  "dropHook (hubEmit es h) = dropHook h" "hnext (hubEmit es h) = hnext h"
  "hlog (hubEmit es h) = hlog h @ es"
  by (simp_all add: hubEmit_def)

lemma removeLocked_emit:
  "removeLocked n c (hubEmit es h) = apsnd (hubEmit es) (removeLocked n c h)"
  by (simp add: removeLocked_def emit_commutes Let_def split: option.splits)

lemma evictStale_view: "hub_view (snd (evictStale n hw h)) = hub_view (evict hw h)"
  by (simp add: evictStale_def evict_def Let_def removeLocked_emit split: option.splits)

lemma removeLocked_hardware:
  "coHardwareID (hstore (snd (removeLocked m d h)) c) = coHardwareID (hstore h c)"
proof -
  have "coHardwareID (hstore (closeChan d h) c) = coHardwareID (hstore h c)"
    by (simp add: closeChan_def updConn_def)
  then show ?thesis by (simp add: removeLocked_def Let_def split: option.splits)
qed

lemma evictStale_hardware: "coHardwareID (hstore (snd (evictStale n hw h)) c) = coHardwareID (hstore h c)"
  by (simp add: evictStale_def Let_def removeLocked_hardware split: option.splits)

lemma announce_view: "hub_view (announce n c e h) = hub_view h"
  by (simp add: announce_def Let_def split: option.splits)

lemma Register_view:
  assumes "\<not> draining h"
  shows "hub_view (snd (Register n c h)) =
    hub_view (added n c (evict (coHardwareID (hstore h c)) (setNum n c h)))
    \<and> fst (Register n c h) = None"
proof -
  let ?h = "setNum n c h" and ?hw = "coHardwareID (hstore h c)"
  have hw: "coHardwareID (hstore ?h c) = ?hw" by (simp add: setNum_def updConn_def)
  obtain e h1 where r: "evictStale n ?hw ?h = (e, h1)" by fastforce
  have "coHardwareID (hstore h1 c) = ?hw" using evictStale_hardware [of n ?hw ?h c] r hw by simp
  then have "snd (Register n c h) = announce n c e (added n c h1)"
    using assms r hw by (simp add: Register_def setNum_def [symmetric] Let_def added_def)
  moreover have "hub_view h1 = hub_view (evict ?hw ?h)" using evictStale_view [of n ?hw ?h] r by simp
  moreover have "fst (Register n c h) = None"
    using assms by (simp add: Register_def Let_def split_beta)
  ultimately show ?thesis using hub_view_pre [of h1] by (simp add: announce_view)
qed

lemma Register_ok:
  assumes ok: "hub_ok h" and fr: "fresh c h"
  shows "hub_ok (snd (Register n c h))"
proof (cases "draining h")
  case False
  have s: "hub_ok (setNum n c h)" "fresh c (setNum n c h)" using setNum_ok [OF ok fr] by auto
  have hw: "coHardwareID (hstore (setNum n c h) c) = coHardwareID (hstore h c)"
    and num: "coNumber (hstore (setNum n c h) c) = n" by (simp_all add: setNum_def updConn_def)
  note e = evict_ok [OF s, of "coHardwareID (hstore h c)"]
  have "hub_ok (added n c (evict (coHardwareID (hstore h c)) (setNum n c h)))"
    by (rule added_ok) (use e hw num in simp_all)
  then show ?thesis using hub_ok_cong [OF conjunct1 [OF Register_view [OF False]]] by simp
qed (use ok in \<open>simp add: Register_def\<close>)

lemma fst_alloc: "fst (allocConn k h) = hnext h"
  by (simp add: allocConn_def)

lemma alloc_ok:
  assumes ok: "hub_ok h" and k: "\<not> coClosed k"
  shows "hub_ok (snd (allocConn k h)) \<and> fresh (hnext h) (snd (allocConn k h))"
proof -
  let ?h = "snd (allocConn k h)"
  have [simp]: "conns ?h = conns h" "hwConns ?h = hwConns h" "hpanic ?h = hpanic h"
    "hnext ?h = hnext h + 1" "hstore ?h = (hstore h)(hnext h := k)" "\<And>n. lineConns n ?h = lineConns n h"
    by (simp_all add: allocConn_def lineConns_def)
  have nl: "hnext h \<notin> set (lineConns n h)" for n using hub_okD(3) [OF ok] by blast
  have up: "(\<forall>c\<in>set (lineConns n h). P ((hstore h)(hnext h := k)) c) \<longleftrightarrow>
      (\<forall>c\<in>set (lineConns n h). c \<noteq> hnext h \<longrightarrow> P ((hstore h)(hnext h := k)) c)" for n P
    using nl by auto
  have cur: "connIsCurrentLocked c ?h \<longleftrightarrow> connIsCurrentLocked c h \<and> c \<noteq> hnext h" for c
    using nl by (auto simp: connIsCurrentLocked_def)
  have "hub_ok ?h"
    using ok nl unfolding hub_ok_def cur
    by (auto simp: connIsCurrentLocked_def intro: less_SucI)
  then show ?thesis using k nl by (simp add: fresh_def)
qed

lemma connectDevice_ok:
  assumes "hub_ok h"
  shows "hub_ok (snd (connectDevice ws hw cap now g n h))"
proof -
  let ?h = "snd (allocConn (newConn ws hw cap now) h)"
  let ?h1 = "case g of None \<Rightarrow> ?h | Some d \<Rightarrow> updConn (hnext h) (\<lambda>k. k\<lparr>coSend := coSend k @ [Some d]\<rparr>) ?h"
  have a: "hub_ok ?h" "fresh (hnext h) ?h" using alloc_ok [OF assms] by (simp_all add: newConn_def)
  have v: "hub_view ?h1 = hub_view ?h" by (simp add: view_updConn split: option.splits)
  have "hub_ok ?h1" using a hub_ok_cong [OF v] by blast
  moreover have "fresh (hnext h) ?h1" using a(2) unfolding fresh_def hub_view_sel [OF v] .
  ultimately have "hub_ok (snd (Register n (hnext h) ?h1))" by (rule Register_ok)
  moreover have "snd (connectDevice ws hw cap now g n h) = snd (Register n (hnext h) ?h1)"
    by (simp add: connectDevice_def Let_def split_beta fst_alloc cong: option.case_cong)
  ultimately show ?thesis by simp
qed

section \<open>Every move keeps the invariant\<close>

lemma hub_step_ok: "hub_ok h \<Longrightarrow> hub_ok (hub_step ms ip m h)"
proof (cases m)
  case (MvReceive c)
  assume "hub_ok h"
  moreover have v: "hub_view (hub_step ms ip m h) = hub_view h"
    by (simp add: MvReceive view_updConn)
  ultimately show ?thesis using hub_ok_cong [OF v] by simp
qed (simp_all add: connectDevice_ok Unregister_ok
      view_SendTo [THEN hub_ok_cong] view_SendToHardware [THEN hub_ok_cong]
      view_Broadcast [THEN hub_ok_cong] view_swtIter [THEN hub_ok_cong] view_Close [THEN hub_ok_cong]
      view_offerClose [THEN hub_ok_cong] view_deliver [THEN hub_ok_cong]
      view_records [THEN hub_ok_cong] view_queries_upd [THEN hub_ok_cong])

interpretation hub: invariant_machine "hub_step ms ip" "\<lambda>_ _. True" hub_ok for ms ip
  by unfold_locales (rule hub_step_ok)

end
