(* ===== verification/Hub_Props.thy ===== *)
theory Hub_Props
  imports Hub_Inv
begin

text \<open>
  What the hub promises: one connection per device, the complete effect of a device
  connecting, the delivery of a line message on one pod and across a fleet, and the two
  retry loops.
\<close>

section \<open>One connection per device\<close>

text \<open>
  C16: In every run of the hub, whatever the devices, the other pods and the callers do, the
  line table and the hardware table describe the same connections: every registered connection
  stands under exactly its own number, its channel is open, a non-empty hardware id is bound
  to exactly the one connection of that device, no line is kept with no connection, and no
  send or close of a closed channel ever happens.
\<close>
theorem one_connection_per_device:
  "hub_ok (fold (hub_step ms ip) moves NewHub)"
  by (rule hub.run_inv_all [OF hub_ok_New]) simp

lemma same_device_same_conn:
  assumes ok: "hub_ok h" and "c \<in> set (lineConns n h)" "d \<in> set (lineConns m h)"
    and "coHardwareID (hstore h c) = coHardwareID (hstore h d)" "coHardwareID (hstore h c) \<noteq> []"
  shows "c = d"
proof -
  have "map_of (hwConns h) (coHardwareID (hstore h c)) = Some c"
    by (rule hub_okD(8) [OF ok assms(2) assms(5)])
  moreover have "map_of (hwConns h) (coHardwareID (hstore h d)) = Some d"
    by (rule hub_okD(8) [OF ok assms(3) assms(5) [unfolded assms(4)]])
  ultimately show ?thesis unfolding assms(4) by (metis option.inject)
qed

section \<open>A device connects\<close>

definition others :: "string \<Rightarrow> Hub \<Rightarrow> nat list \<Rightarrow> nat list" where
  "others hw h cs = filter (\<lambda>d. hw = [] \<or> coHardwareID (hstore h d) \<noteq> hw) cs"

lemma lines_evict:
  assumes ok: "hub_ok h"
  shows "lineConns n (evict hw h) = others hw h (lineConns n h)"
proof (cases "map_of (hwConns h) hw")
  case None
  have "hw = [] \<or> coHardwareID (hstore h d) \<noteq> hw" if "d \<in> set (lineConns n h)" for d
    using hub_okD(8) [OF ok that] None by auto
  then have "others hw h (lineConns n h) = lineConns n h"
    unfolding others_def by (rule filter_True [OF ballI])
  then show ?thesis using None by (simp add: evict_def)
next
  case (Some old)
  let ?m = "coNumber (hstore h old)"
  note mem = hub_okD(5) [OF ok Some] and hw = hub_okD(6,7) [OF ok Some]
  have iff: "coHardwareID (hstore h d) \<noteq> hw \<longleftrightarrow> d \<noteq> old" if "d \<in> set (lineConns n h)" for d
    using same_device_same_conn [OF ok that mem] hw by auto
  have "others hw h (lineConns n h) = filter (\<lambda>d. d \<noteq> old) (lineConns n h)"
    unfolding others_def by (rule filter_cong) (use hw iff in auto)
  also have "\<dots> = remove1 old (lineConns n h)"
    using hub_okD(4) [OF ok] by (simp add: distinct_remove1_removeAll removeAll_filter_not_eq)
      (rule filter_cong, auto)
  also have "\<dots> = lineConns n (dropped ?m old h)"
  proof (cases "n = ?m")
    case False
    then have "old \<notin> set (lineConns n h)" using hub_okD(1) [OF ok] by blast
    then show ?thesis using False by (simp add: dropped_sel remove1_idem)
  qed (simp add: dropped_sel)
  also have "\<dots> = lineConns n (evict hw h)"
    using hub_view_sel(8) [OF conjunct2 [OF removeLocked_yes [OF mem hub_okD(2) [OF ok mem]]]]
    by (simp add: evict_def Some)
  finally show ?thesis by simp
qed

text \<open>The tables after a connection \<open>c\<close> of device \<open>hw\<close> has taken the line \<open>n\<close>.\<close>

lemma connect_tables:
  fixes h :: Hub and ws :: bool and hw n :: string and cap :: nat and now :: int and g :: "string option"
  assumes ok: "hub_ok h" and go: "\<not> draining h"
  defines "h' \<equiv> snd (connectDevice ws hw cap now g n h)"
  shows "fst (connectDevice ws hw cap now g n h) = None"
    and "lineConns m h' = others hw h (lineConns m h) @ (if m = n then [hnext h] else [])"
    and "hw \<noteq> [] \<Longrightarrow> map_of (hwConns h') hw = Some (hnext h)"
proof -
  let ?k = "newConn ws hw cap now" and ?c = "hnext h"
  let ?h = "snd (allocConn ?k h)"
  let ?h1 = "case g of None \<Rightarrow> ?h | Some d \<Rightarrow> updConn ?c (\<lambda>k. k\<lparr>coSend := coSend k @ [Some d]\<rparr>) ?h"
  have con: "connectDevice ws hw cap now g n h = Register n ?c ?h1"
    by (simp add: connectDevice_def Let_def split_beta fst_alloc cong: option.case_cong)
  have v: "hub_view ?h1 = hub_view ?h" by (simp add: view_updConn split: option.splits)
  have a: "hub_ok ?h" "fresh ?c ?h" using alloc_ok [OF ok] by (simp_all add: newConn_def)
  have b: "hub_ok ?h1" using a hub_ok_cong [OF v] by blast
  have f: "fresh ?c ?h1" using a(2) unfolding fresh_def hub_view_sel [OF v] .
  have dr: "\<not> draining ?h1" using go by (simp add: allocConn_def updConn_def split: option.splits)
  have hwc: "coHardwareID (hstore ?h1 ?c) = hw"
    unfolding hub_view_sel(6) [OF v] by (simp add: allocConn_def newConn_def)
  let ?s = "setNum n ?c ?h1"
  have s: "hub_ok ?s" "fresh ?c ?s" using setNum_ok [OF b f] by auto
  have ls: "lineConns m ?s = lineConns m h" for m
  proof -
    have "lineConns m ?s = lineConns m ?h1" by (simp add: setNum_def)
    also have "\<dots> = lineConns m ?h" by (rule hub_view_sel(8) [OF v])
    finally show ?thesis by (simp add: allocConn_def lineConns_def)
  qed
  note V = conjunct1 [OF Register_view [OF dr, of n ?c, unfolded hwc]]
  have V': "hub_view h' = hub_view (added n ?c (evict hw ?s))" using V by (simp add: h'_def con)
  show "fst (connectDevice ws hw cap now g n h) = None"
    using Register_view [OF dr] by (simp add: con)
  have oth: "others hw ?s (lineConns m h) = others hw h (lineConns m h)" for m
  proof -
    have "coHardwareID (hstore ?s d) = coHardwareID (hstore h d)" if "d \<in> set (lineConns m h)" for d
    proof -
      have "d \<noteq> ?c" using hub_okD(3) [OF ok that] by simp
      then show ?thesis by (simp add: setNum_def updConn_def allocConn_def split: option.splits)
    qed
    then show ?thesis unfolding others_def by (intro filter_cong) auto
  qed
  have "lineConns m h' = lineConns m (added n ?c (evict hw ?s))" by (rule hub_view_sel(8) [OF V'])
  also have "\<dots> = (if m = n then lineConns m (evict hw ?s) @ [?c] else lineConns m (evict hw ?s))"
    by (simp add: added_def Let_def lineConns_def)
  also have "lineConns m (evict hw ?s) = others hw h (lineConns m h)"
    by (simp add: lines_evict [OF s(1)] ls oth)
  finally show "lineConns m h' = others hw h (lineConns m h) @ (if m = n then [?c] else [])" by simp
  have "coHardwareID (hstore (evict hw ?s) ?c) = hw"
    using evict_ok [OF s, of hw] hwc by (simp add: setNum_def updConn_def)
  then show "map_of (hwConns h') hw = Some ?c" if "hw \<noteq> []"
    unfolding hub_view_sel(2) [OF V'] using that by (simp add: added_def Let_def)
qed

text \<open>
  The complete effect of a device connecting to a line, when the hub is not draining: the
  new connection is the last of the line, every other connection of the same device is gone
  from every line, all other devices keep their place, and the device's hardware id leads to
  the new connection.  The late \<open>Unregister\<close> of the connection it replaced, from a read loop
  that unwinds afterwards, changes nothing.
\<close>
theorem device_connects:
  fixes h :: Hub and ws :: bool and hw n :: string and cap :: nat and now :: int and g :: "string option"
  assumes "hub_ok h" and "\<not> draining h" and "hw \<noteq> []"
  defines "r \<equiv> connectDevice ws hw cap now g n h"
  shows "fst r = None
    \<and> lineConns n (snd r)
        = filter (\<lambda>d. coHardwareID (hstore h d) \<noteq> hw) (lineConns n h) @ [hnext h]
    \<and> (\<forall>m. m \<noteq> n \<longrightarrow> lineConns m (snd r)
        = filter (\<lambda>d. coHardwareID (hstore h d) \<noteq> hw) (lineConns m h))
    \<and> map_of (hwConns (snd r)) hw = Some (hnext h)
    \<and> (\<forall>old m. map_of (hwConns h) hw = Some old \<longrightarrow> Unregister m old (snd r) = snd r)"
proof -
  note T = connect_tables [OF assms(1,2), where ws = ws and hw = hw and cap = cap and now = now and g = g
      and n = n, folded r_def]
  have "Unregister m old (snd r) = snd r" if "map_of (hwConns h) hw = Some old" for old m
  proof -
    have "coHardwareID (hstore h old) = hw" "old < hnext h"
      using hub_okD(6) [OF assms(1) that] hub_okD(3) [OF assms(1) hub_okD(5) [OF assms(1) that]] by auto
    then have "old \<notin> set (lineConns m (snd r))" by (simp add: T(2) others_def assms(3))
    then show ?thesis by (simp add: Unregister_def removeLocked_no)
  qed
  then show ?thesis using T(1,3) assms(3) by (simp add: T(2) others_def)
qed

theorem device_connects_witness:
  "let h = snd (connectDevice True ''hw1'' 8 5 None ''5550100'' NewHub);
       r = connectDevice True ''hw1'' 8 9 None ''5550199'' h
   in fst r = None \<and> lineConns ''5550199'' (snd r) = [1] \<and> lineConns ''5550100'' (snd r) = []
      \<and> Unregister ''5550100'' 0 (snd r) = snd r"
proof -
  let ?h = "snd (connectDevice True ''hw1'' 8 5 None ''5550100'' NewHub)"
  have ok: "hub_ok ?h" by (rule connectDevice_ok [OF hub_ok_New])
  have e: "\<not> draining ?h" "hnext ?h = 1" "map_of (hwConns ?h) ''hw1'' = Some 0"
    "filter (\<lambda>d. coHardwareID (hstore ?h d) \<noteq> ''hw1'') (lineConns ''5550199'' ?h) = []"
    "filter (\<lambda>d. coHardwareID (hstore ?h d) \<noteq> ''hw1'') (lineConns ''5550100'' ?h) = []"
    by code_simp+
  show ?thesis
    using device_connects [OF ok e(1), where hw = "''hw1''" and ws = True and cap = 8 and now = 9 and g = None
        and n = "''5550199''"] e(2-5)
    by (simp add: Let_def)
qed

section \<open>Sending to a line\<close>

definition room :: "nat \<Rightarrow> Hub \<Rightarrow> bool" where
  "room c h \<longleftrightarrow> length (coSend (hstore h c)) < coCap (hstore h c)"

lemma trySend_open:
  assumes "\<not> coClosed (hstore h c)"
  shows "trySend c d h = (room c h, if room c h then updConn c (\<lambda>k. k\<lparr>coSend := coSend k @ [d]\<rparr>) h else h)"
  using assms by (simp add: trySend_def Let_def room_def)

text \<open>What a loop of sends leaves alone besides the tables.\<close>

lemma sendLoop_effects:
  assumes "distinct cs" "\<forall>c \<in> set cs. \<not> coClosed (hstore h c)"
  shows "(\<forall>x. coSend (hstore (sendLoop hook d cs h) x)
      = coSend (hstore h x) @ (if x \<in> set cs \<and> room x h then [d] else []))
    \<and> hlog (sendLoop hook d cs h)
      = hlog h @ (if hook then replicate (length (filter (\<lambda>c. \<not> room c h) cs)) DropHook else [])
    \<and> redis (sendLoop hook d cs h) = redis h"
  using assms
proof (induction cs arbitrary: h)
  case (Cons c cs)
  let ?h1 = "if room c h then updConn c (\<lambda>k. k\<lparr>coSend := coSend k @ [d]\<rparr>) h
             else if hook then hubEmit [DropHook] h else h"
  have step: "sendLoop hook d (c # cs) h = sendLoop hook d cs ?h1"
    using Cons.prems by (simp add: trySend_open)
  have c: "c \<notin> set cs" "distinct cs" using Cons.prems by simp_all
  have same: "hstore ?h1 y = hstore h y" if "y \<noteq> c" for y using that by (simp add: updConn_def)
  have op: "\<forall>y \<in> set cs. \<not> coClosed (hstore ?h1 y)"
  proof
    fix y assume y: "y \<in> set cs"
    with c have "y \<noteq> c" by blast
    with same have "hstore ?h1 y = hstore h y" by blast
    then show "\<not> coClosed (hstore ?h1 y)" using Cons.prems(2) y by simp
  qed
  have rm: "room y ?h1 = room y h" if "y \<in> set cs" for y
  proof -
    from that c have "y \<noteq> c" by blast
    then show ?thesis by (simp add: room_def updConn_def)
  qed
  have c1: "coSend (hstore ?h1 c) = coSend (hstore h c) @ (if room c h then [d] else [])"
    by (simp add: updConn_def)
  note IH0 = Cons.IH [OF c(2) op]
  note IH = IH0 [THEN conjunct1, THEN spec] IH0 [THEN conjunct2, THEN conjunct1]
    IH0 [THEN conjunct2, THEN conjunct2]
  have coSend: "coSend (hstore (sendLoop hook d (c # cs) h) x)
      = coSend (hstore h x) @ (if x \<in> set (c # cs) \<and> room x h then [d] else [])" for x
  proof (cases "x = c")
    case True
    then show ?thesis unfolding step IH(1) using c c1 by simp
  next
    case False
    then show ?thesis unfolding step IH(1) using same [OF False] rm [of x] by auto
  qed
  have "filter (\<lambda>c. \<not> room c ?h1) cs = filter (\<lambda>c. \<not> room c h) cs" by (rule filter_cong) (simp_all add: rm)
  then have "hlog (sendLoop hook d (c # cs) h)
      = hlog h @ (if hook then replicate (length (filter (\<lambda>c. \<not> room c h) (c # cs))) DropHook else [])"
    unfolding step IH(2) by (simp add: updConn_def)
  moreover have "redis (sendLoop hook d (c # cs) h) = redis h" unfolding step IH(3) by (simp add: updConn_def)
  ultimately show ?case using coSend by blast
qed simp_all

lemmas sendLoop_effect = sendLoop_effects [THEN conjunct1, THEN spec]
  sendLoop_effects [THEN conjunct2, THEN conjunct1] sendLoop_effects [THEN conjunct2, THEN conjunct2]

text \<open>One copy for every connection of the line that has room, on the end of its queue.\<close>

definition got_copy :: "string \<Rightarrow> string option \<Rightarrow> Hub \<Rightarrow> Hub \<Rightarrow> bool" where
  "got_copy n d h h' \<longleftrightarrow> (\<forall>x. coSend (hstore h' x)
     = coSend (hstore h x) @ (if x \<in> set (lineConns n h) \<and> room x h then [d] else []))"

lemma got_copy_loop: "hub_ok h \<Longrightarrow> got_copy n d h (sendLoop hook d (lineConns n h) h)"
  using sendLoop_effect(1) [OF hub_okD(4) line_open] by (simp add: got_copy_def)

lemma got_copy_none: "lineConns n h = [] \<Longrightarrow> got_copy n d h h"
  by (simp add: got_copy_def)

lemma got_copy_emit: "got_copy n d h (hubEmit es h') = got_copy n d h h'"
  by (simp add: got_copy_def)

text \<open>
  Sending to a line: every phone on the line with room in its buffer has the message once,
  at the end of its queue, and no other queue changes; the drop hook is called once per full
  buffer; the message is published to the other pods exactly when Redis is attached, whoever
  is connected here; and the only failures are a message that cannot be encoded and a line
  with nobody here when there is no Redis.
\<close>
theorem send_to_line:
  assumes "hub_ok h"
  shows "case ms msg of
      None \<Rightarrow> SendTo ms n msg h = (Some ErrMarshal, h)
    | Some d \<Rightarrow>
        got_copy n (Some d) h (snd (SendTo ms n msg h))
        \<and> hlog (snd (SendTo ms n msg h)) = hlog h
             @ (if dropHook h then replicate (length (filter (\<lambda>c. \<not> room c h) (lineConns n h))) DropHook else [])
             @ (if redis h then [Publish \<lparr>enPodID = [], enTargetType = ''number'', enTarget = n,
                                         enMessage = Some msg\<rparr>] else [])
        \<and> fst (SendTo ms n msg h)
            = (if lineConns n h = [] \<and> redis h = False then Some ErrNotConnected else None)"
proof (cases "ms msg")
  case (Some d)
  note L = sendLoop_effect [OF hub_okD(4) [OF assms] line_open [OF assms], of "dropHook h" "Some d" n]
  show ?thesis
    using got_copy_loop [OF assms, of n "Some d" "dropHook h"]
    by (simp add: Some SendTo_def Let_def publish_def got_copy_emit got_copy_none L(2))
qed (simp add: SendTo_def)

theorem send_to_line_witness:
  "let h = snd (connectDevice True ''hw1'' 8 5 None ''5550100'' NewHub);
       r = SendTo (\<lambda>m. Some (mType m)) ''5550100'' (zeroMessage\<lparr>mType := TypeRing\<rparr>) h
   in fst r = None \<and> got_copy ''5550100'' (Some TypeRing) h (snd r) \<and> lineConns ''5550100'' h = [0]"
proof -
  let ?h = "snd (connectDevice True ''hw1'' 8 5 None ''5550100'' NewHub)"
  have ok: "hub_ok ?h" by (rule connectDevice_ok [OF hub_ok_New])
  have l: "lineConns ''5550100'' ?h = [0]" by code_simp
  show ?thesis
    using send_to_line [OF ok, where ms = "\<lambda>m. Some (mType m)" and n = "''5550100''"
        and msg = "zeroMessage\<lparr>mType := TypeRing\<rparr>"] l
    by (simp add: Let_def)
qed

section \<open>Sending across a fleet\<close>

lemma published_append: "published (xs @ ys) = published xs @ published ys"
  by (simp add: published_def)

lemma published_drops: "published (replicate k DropHook) = []"
  by (induction k) (simp_all add: published_def)

lemma Run_number:
  assumes "hub_ok g" "redis g" "ms msg = Some d"
  shows "got_copy n (Some d) g (Run ms p [\<lparr>enPodID = q, enTargetType = ''number'', enTarget = n,
           enMessage = Some msg\<rparr>] g) \<longleftrightarrow> q \<noteq> p \<or> got_copy n (Some d) g g"
  using assms got_copy_loop [OF assms(1), of n "Some d" False]
  by (simp add: Run_def bridgeAccepts_def deliverFromRedis_def marshalOptional_def)


definition two_pods :: fleet where
  "two_pods =
     [(''pod-a'', snd (connectDevice True ''hw1'' 8 5 None ''5550100'' (NewHub\<lparr>redis := True\<rparr>))),
      (''pod-b'', snd (connectDevice True ''hw2'' 8 5 None ''5550100'' (NewHub\<lparr>redis := True\<rparr>)))]"


section \<open>The retry loops\<close>

lemma pendLoop_effect:
  assumes "distinct cs" "\<forall>c \<in> set cs. \<not> coClosed (hstore h c)" "distinct dv"
  shows "(case pendLoop d cs dv h of (pending, dv', h') \<Rightarrow>
      distinct dv' \<and> set dv \<subseteq> set dv' \<and> set dv' \<subseteq> set dv \<union> set cs
      \<and> (pending \<longleftrightarrow> \<not> set cs \<subseteq> set dv')
      \<and> (\<forall>x. coSend (hstore h' x) = coSend (hstore h x) @ (if x \<in> set dv' - set dv then [d] else [])))"
  using assms
proof (induction cs arbitrary: dv h)
  case (Cons c cs)
  have c: "c \<notin> set cs" "distinct cs" using Cons.prems by simp_all
  show ?case
  proof (cases "c \<in> set dv")
    case True
    then show ?thesis using Cons.IH [OF c(2), of h dv] Cons.prems by (auto split: prod.splits)
  next
    case False
    note t = trySend_open [of h c d]
    show ?thesis
    proof (cases "room c h")
      case True
      let ?h1 = "updConn c (\<lambda>k. k\<lparr>coSend := coSend k @ [d]\<rparr>) h"
      have op: "\<forall>y \<in> set cs. \<not> coClosed (hstore ?h1 y)" using Cons.prems(2) by (simp add: updConn_def)
      have dv1: "distinct (c # dv)" using Cons.prems(3) False by simp
      have sends: "coSend (hstore ?h1 x) = coSend (hstore h x) @ (if x = c then [d] else [])" for x
        by (simp add: updConn_def)
      obtain pe dv' h' where r: "pendLoop d cs (c # dv) ?h1 = (pe, dv', h')" by (rule prod_cases3)
      have step: "pendLoop d (c # cs) dv h = (pe, dv', h')"
        using False True t Cons.prems(2) r by simp
      have I: "distinct dv'" "set (c # dv) \<subseteq> set dv'" "set dv' \<subseteq> set (c # dv) \<union> set cs"
        "pe \<longleftrightarrow> \<not> set cs \<subseteq> set dv'"
        "\<And>x. coSend (hstore h' x) = coSend (hstore ?h1 x) @ (if x \<in> set dv' - set (c # dv) then [d] else [])"
        using Cons.IH [OF c(2) op dv1] r by simp_all
      have "coSend (hstore h' x) = coSend (hstore h x) @ (if x \<in> set dv' - set dv then [d] else [])" for x
        unfolding I(5) sends using I(2) False by auto
      with I(1-4) show ?thesis unfolding step by auto
    next
      case full: False
      obtain pe dv' h' where r: "pendLoop d cs dv h = (pe, dv', h')" by (rule prod_cases3)
      have step: "pendLoop d (c # cs) dv h = (True, dv', h')"
        using False full t Cons.prems(2) r by simp
      have "c \<notin> set dv'" using Cons.IH [OF c(2) _ Cons.prems(3), of h] Cons.prems(2) r c(1) False by auto
      then show ?thesis using Cons.IH [OF c(2) _ Cons.prems(3), of h] Cons.prems(2) r
        unfolding step by auto
    qed
  qed
qed simp

lemma swtIter_sel:
  "swtIter b n d dl now dv h = (if lineConns n h = []
     then (Some (if b then None else Some ErrNotConnected), dv, h)
     else case pendLoop d (lineConns n h) dv h of (pending, dv', h') \<Rightarrow>
       (if \<not> pending then (Some None, dv', h')
        else if \<not> now < dl
          then (Some (Some ErrSendTimeout), dv', if dropHook h' then hubEmit [DropHook] h' else h')
        else (None, dv', h')))"
  by (simp add: swtIter_def Let_def split: prod.splits)

text \<open>The outcome of the loop, on the hub it ends in.\<close>

definition swt_outcome :: "bool \<Rightarrow> string \<Rightarrow> int \<Rightarrow> (int \<times> hubMove list) list \<Rightarrow> hubError option
    \<Rightarrow> nat list \<Rightarrow> Hub \<Rightarrow> bool" where
  "swt_outcome b n dl sched r dv h \<longleftrightarrow> distinct dv \<and>
     (case r of
        None \<Rightarrow> set (lineConns n h) \<subseteq> set dv \<and> (b \<or> lineConns n h \<noteq> [])
      | Some e \<Rightarrow> e = ErrNotConnected \<and> lineConns n h = [] \<and> \<not> b
          \<or> e = ErrSendTimeout \<and> \<not> set (lineConns n h) \<subseteq> set dv \<and> (\<exists>p \<in> set sched. dl \<le> fst p))"

lemma swtLoop_outcome:
  assumes "hub_ok h" "distinct dv" "swtLoop ms ip b n d dl sched dv h = (Some (r, dv'), h')"
  shows "swt_outcome b n dl sched r dv' h'"
  using assms
proof (induction sched arbitrary: dv h)
  case (Cons p ps)
  show ?case
  proof (cases "lineConns n h = []")
    case True
    then show ?thesis using Cons.prems by (auto simp: swtIter_sel swt_outcome_def)
  next
    case False
    obtain pe dw k where r: "pendLoop d (lineConns n h) dv h = (pe, dw, k)" by (rule prod_cases3)
    note E = pendLoop_effect [OF hub_okD(4) [OF Cons.prems(1)] line_open [OF Cons.prems(1)] Cons.prems(2),
        of n d, unfolded r prod.case]
    have v: "hub_view k = hub_view h" using view_pendLoop [OF line_open [OF Cons.prems(1)], of d n dv] r by simp
    have lk: "lineConns n k = lineConns n h" by (rule hub_view_sel(8) [OF v])
    have ok: "hub_ok k" using hub_ok_cong [OF v] Cons.prems(1) by simp
    consider "\<not> pe" | "pe" "\<not> fst p < dl" | "pe" "fst p < dl" by blast
    then show ?thesis
    proof cases
      case 1
      then show ?thesis using Cons.prems(3) False r E lk by (auto simp: swtIter_sel swt_outcome_def)
    next
      case 2
      then show ?thesis using Cons.prems(3) False r E lk
        by (auto simp: swtIter_sel swt_outcome_def split: if_splits)
    next
      case 3
      have "swt_outcome b n dl ps r dv' h'"
        using Cons.IH [OF hub.run_inv_all [OF ok, of "snd p" ms ip] conjunct1 [OF E]] Cons.prems(3) 3 False r
        by (simp add: swtIter_sel)
      then show ?thesis by (auto simp: swt_outcome_def split: option.splits)
    qed
  qed
qed simp

text \<open>
  A call of \<open>SendToWithTimeout\<close> that returns, whatever the other goroutines do while it
  sleeps: it has queued the message at most once on any connection; a nil error means that
  every connection on the line at that moment has it (or that there is none and it went out
  through Redis), "not connected" that there is none and no Redis, and "timed out" that the
  deadline has passed with a connection still waiting.
\<close>
theorem send_with_timeout_outcome:
  assumes "hub_ok h" and "ms msg = Some d"
    and "SendToWithTimeout ms ip n msg timeout start sched h = (Some (r, delivered), h')"
  shows "swt_outcome (redis h) n (start + timeout) sched r delivered h'"
proof -
  let ?h = "if redis h then publish ''number'' n (Some msg) h else h"
  have v: "hub_view ?h = hub_view h" by simp
  have "hub_ok ?h" using assms(1) hub_ok_cong [OF v] by blast
  from swtLoop_outcome [OF this distinct.simps(1) [THEN iffD2, OF TrueI]] assms(3)
  show ?thesis by (simp add: SendToWithTimeout_def assms(2) Let_def publish_def split: if_splits)
qed

text \<open>A phone whose buffer of one is full at first and drained by its pump during the first sleep.\<close>

definition swt_hub :: Hub where
  "swt_hub = snd (SendTo (\<lambda>m. Some (mType m)) ''5550100'' zeroMessage
     (snd (connectDevice True ''hw1'' 1 5 None ''5550100'' NewHub)))"

definition swt_sched :: "(int \<times> hubMove list) list" where
  "swt_sched = [(0, [MvReceive 0]), (20, [])]"

definition swt_run :: "(hubError option \<times> nat list) option \<times> Hub" where
  "swt_run = SendToWithTimeout (\<lambda>m. Some (mType m)) (\<lambda>_. True) ''5550100''
     (zeroMessage\<lparr>mType := TypeRing\<rparr>) 100 0 swt_sched swt_hub"

lemma swt_hub_ok: "hub_ok swt_hub"
  using connectDevice_ok [OF hub_ok_New] hub_ok_cong [OF view_SendTo] unfolding swt_hub_def by blast

theorem send_with_timeout_witness:
  "fst swt_run = Some (None, [0])
   \<and> swt_outcome (redis swt_hub) ''5550100'' (0 + 100) swt_sched None [0] (snd swt_run)"
proof -
  have r: "fst swt_run = Some (None, [0])" by code_simp
  have s: "SendToWithTimeout (\<lambda>m. Some (mType m)) (\<lambda>_. True) ''5550100''
     (zeroMessage\<lparr>mType := TypeRing\<rparr>) 100 0 swt_sched swt_hub = (Some (None, [0]), snd swt_run)"
    unfolding swt_run_def [symmetric] r [symmetric] by simp
  show ?thesis
    using r send_with_timeout_outcome [OF swt_hub_ok, where ms = "\<lambda>m. Some (mType m)" and d = TypeRing
        and msg = "zeroMessage\<lparr>mType := TypeRing\<rparr>", OF _ s]
    by simp
qed

text \<open>
  A clock that reads at least the time of the start plus all sleeps so far.  The sleeps of
  \<open>retryClose\<close> double from 20 to 500 milliseconds.
\<close>

primrec slept :: "int \<Rightarrow> nat \<Rightarrow> int" where
  "slept interval 0 = 0"
| "slept interval (Suc i) = interval + slept (min (2 * interval) closeRetryMaxInterval) i"

definition clock_ok :: "(nat \<Rightarrow> int) \<Rightarrow> int \<Rightarrow> (int \<times> hubMove list) list \<Rightarrow> bool" where
  "clock_ok sleeps start sched \<longleftrightarrow> list_all (\<lambda>i. start + sleeps i \<le> fst (sched ! i)) [0..<length sched]"

lemma clock_okD: "clock_ok sl start sched \<Longrightarrow> i < length sched \<Longrightarrow> start + sl i \<le> fst (sched ! i)"
  by (simp add: clock_ok_def list_all_iff)

lemma swtLoop_returns:
  "i < length sched \<Longrightarrow> dl \<le> fst (sched ! i) \<Longrightarrow> fst (swtLoop ms ip b n d dl sched dv h) \<noteq> None"
proof (induction sched arbitrary: i dv h)
  case (Cons p ps)
  show ?case
  proof (cases i)
    case 0
    then show ?thesis using Cons.prems(2) by (simp add: swtIter_sel split: prod.splits)
  next
    case (Suc j)
    then show ?thesis using Cons.IH [of j] Cons.prems by (auto split: prod.splits option.splits)
  qed
qed simp

lemma retryLoop_returns:
  "i < length sched \<Longrightarrow> dl \<le> fst (sched ! i) \<Longrightarrow> fst (retryLoop ms ip c dl iv sched h)"
proof (induction sched arbitrary: i iv h)
  case (Cons p ps)
  show ?case
  proof (cases i)
    case 0
    then show ?thesis using Cons.prems(2) by (simp add: Let_def)
  next
    case (Suc j)
    then show ?thesis using Cons.IH [of j] Cons.prems by (auto simp: Let_def split: prod.splits bool.splits)
  qed
qed simp

text \<open>
  Neither retry loop outlives its deadline, whatever the other goroutines do:
  \<open>SendToWithTimeout\<close> returns within \<open>timeout / 20 ms + 1\<close> iterations, and \<open>retryClose\<close>
  within 35, because its sleeps, doubling from 20 to 500 milliseconds, add up to the fifteen
  seconds of its deadline by then.
\<close>
theorem retry_loops_return:
  "(clock_ok (\<lambda>i. sendRetryInterval * int i) start sched
      \<and> 0 < length sched \<and> timeout \<le> sendRetryInterval * (int (length sched) - 1)
      \<longrightarrow> fst (SendToWithTimeout ms ip n msg timeout start sched h) \<noteq> None)
   \<and> (clock_ok (slept sendRetryInterval) start sched' \<and> 35 \<le> length sched'
      \<longrightarrow> fst (retryClose ms ip c start sched' h))"
proof (intro conjI impI)
  assume a: "clock_ok (\<lambda>i. sendRetryInterval * int i) start sched
      \<and> 0 < length sched \<and> timeout \<le> sendRetryInterval * (int (length sched) - 1)"
  let ?i = "length sched - 1"
  have "start + timeout \<le> fst (sched ! ?i)"
    using clock_okD [OF conjunct1 [OF a], of ?i] a by (simp add: of_nat_diff)
  then show "fst (SendToWithTimeout ms ip n msg timeout start sched h) \<noteq> None"
    using a swtLoop_returns [of ?i sched "start + timeout"]
    by (simp add: SendToWithTimeout_def Let_def split: option.splits)
next
  assume a: "clock_ok (slept sendRetryInterval) start sched' \<and> 35 \<le> length sched'"
  have "slept sendRetryInterval 34 = 15120" by code_simp
  then have "start + closeRetryTimeout \<le> fst (sched' ! 34)"
    using clock_okD [OF conjunct1 [OF a], of 34] a by (simp add: closeRetryTimeout_def)
  then show "fst (retryClose ms ip c start sched' h)"
    using a retryLoop_returns [of 34 sched'] by (simp add: retryClose_def)
qed

definition swt_clock :: "(int \<times> hubMove list) list" where
  "swt_clock = [(0, []), (20, []), (40, [])]"

definition retry_clock :: "(int \<times> hubMove list) list" where
  "retry_clock = map (\<lambda>i. (slept 20 i, [])) [0..<35]"

theorem retry_loops_return_witness:
  "fst (SendToWithTimeout (\<lambda>m. Some []) (\<lambda>_. True) ''5550100'' zeroMessage 40 0 swt_clock swt_hub) \<noteq> None
   \<and> fst (retryClose (\<lambda>m. Some []) (\<lambda>_. True) 0 0 retry_clock swt_hub)"
proof -
  have 1: "clock_ok (\<lambda>i. sendRetryInterval * int i) 0 swt_clock \<and> 0 < length swt_clock
      \<and> 40 \<le> sendRetryInterval * (int (length swt_clock) - 1)" by code_simp
  have 2: "clock_ok (slept sendRetryInterval) 0 retry_clock \<and> 35 \<le> length retry_clock"
    by (simp add: clock_ok_def list_all_iff retry_clock_def sendRetryInterval_def)
  show ?thesis
    using retry_loops_return [where start = 0 and sched = swt_clock and timeout = 40
        and sched' = retry_clock and ms = "\<lambda>m. Some []" and ip = "\<lambda>_. True"
        and n = "''5550100''" and msg = zeroMessage and c = 0 and h = swt_hub] 1 2
    by blast
qed

section \<open>A count that outlives its handset\<close>

text \<open>
  \<open>SetVoicemailUnheard\<close> does not ask whether the reporting connection is still current.  A
  report that the read loop of a replaced connection handles after the device has moved to
  another line is counted on the old line, where no later \<open>Unregister\<close> removes it.
\<close>

definition vanished_handset :: Hub where
  "vanished_handset = fold (hub_step (\<lambda>m. Some []) (\<lambda>_. True))
     [MvConnect True ''hw1'' 8 1 None ''5550100'', MvConnect True ''hw1'' 8 2 None ''5550199'',
      MvSetVoicemailUnheard ''5550100'' ''hw1'' 3, MvUnregister ''5550100'' 0,
      MvUnregister ''5550199'' 1] NewHub"

theorem vanished_handset_counted:
  "conns vanished_handset = [] \<and> LineVoicemailUnheard ''5550100'' vanished_handset = 3"
  by code_simp

end
