(* ===== verification/LineSettings.thy ===== *)
theory LineSettings
  imports Protocol
begin

text \<open>
  The per-line settings of signald, \<open>server/internal/line\<close>: \<open>settings.go\<close>, \<open>quiethours.go\<close>,
  the settings part of \<open>store.go\<close>, and their projection onto the wire,
  \<open>signaling/linestore_adapter.go\<close>.

  A local time is its weekday, hour and minute; the conversion to the household's timezone is
  the caller's.  Bytes are characters; \<open>minutesOfDay\<close> computes with Go's wrapping bytes.  JSON
  encoding and decoding of \<open>Settings\<close> are parameters.
\<close>

section \<open>Quiet hours\<close>

record QuietHours =
  qhEnabled :: bool
  qhStart :: string
  qhEnd :: string
  qhDays :: "bool list"  \<comment> \<open>indexed by the weekday, Sunday first\<close>

record localTime =
  ltWeekday :: nat
  ltHour :: nat
  ltMinute :: nat

definition AllDays :: "bool list" where
  "AllDays = [True, True, True, True, True, True, True]"

definition anyDay :: "QuietHours \<Rightarrow> bool" where
  "anyDay q \<longleftrightarrow> True \<in> set (qhDays q)"

text \<open>The pattern \<open>^([01][0-9]|2[0-3]):[0-5][0-9]$\<close>.\<close>

definition quietHoursTimeRe :: "string \<Rightarrow> bool" where
  "quietHoursTimeRe s =
     (case s of
        [a, b, c, d, e] \<Rightarrow>
          (a \<in> set ''01'' \<and> b \<in> set ''0123456789'' \<or> a = CHR ''2'' \<and> b \<in> set ''0123'')
          \<and> c = CHR '':'' \<and> d \<in> set ''012345'' \<and> e \<in> set ''0123456789''
      | _ \<Rightarrow> False)"

definition validQuietTime :: "string \<Rightarrow> bool" where
  "validQuietTime s = quietHoursTimeRe s"

definition byteAt :: "string \<Rightarrow> nat \<Rightarrow> 8 word" where
  "byteAt s i = of_char (s ! i)"

definition minutesOfDay :: "string \<Rightarrow> nat" where
  "minutesOfDay s =
     (let h = unat (byteAt s 0 - 48) * 10 + unat (byteAt s 1 - 48);
          m = unat (byteAt s 3 - 48) * 10 + unat (byteAt s 4 - 48)
      in h * 60 + m)"

definition ActiveAt :: "QuietHours \<Rightarrow> localTime \<Rightarrow> bool" where
  "ActiveAt q t =
     (if \<not> qhEnabled q \<or> \<not> anyDay q then False
      else if \<not> validQuietTime (qhStart q) \<or> \<not> validQuietTime (qhEnd q) then False
      else
        let start = minutesOfDay (qhStart q); en = minutesOfDay (qhEnd q) in
        if start = en then False
        else
          let nowMin = ltHour t * 60 + ltMinute t; today = ltWeekday t in
          if start < en then qhDays q ! today \<and> nowMin \<ge> start \<and> nowMin < en
          else if nowMin \<ge> start then qhDays q ! today
          else if nowMin < en then qhDays q ! ((today + 6) mod 7)
          else False)"

definition NormalizeQH :: "QuietHours \<Rightarrow> QuietHours" where
  "NormalizeQH q =
     (if \<not> qhEnabled q then
        \<lparr>qhEnabled = False,
         qhStart = (if validQuietTime (qhStart q) then qhStart q else []),
         qhEnd = (if validQuietTime (qhEnd q) then qhEnd q else []),
         qhDays = qhDays q\<rparr>
      else if \<not> validQuietTime (qhStart q) \<or> \<not> validQuietTime (qhEnd q)
              \<or> minutesOfDay (qhStart q) = minutesOfDay (qhEnd q) then
        \<lparr>qhEnabled = False, qhStart = [], qhEnd = [], qhDays = qhDays q\<rparr>
      else if \<not> anyDay q then q\<lparr>qhDays := AllDays\<rparr>
      else q)"

definition MergeQH :: "QuietHours \<Rightarrow> QuietHours \<Rightarrow> QuietHours" where
  "MergeQH q patch =
     (let q = q\<lparr>qhEnabled := qhEnabled patch\<rparr>;
          q = q\<lparr>qhDays := qhDays patch\<rparr>;
          q = (if qhStart patch \<noteq> [] then q\<lparr>qhStart := qhStart patch\<rparr> else q)
      in if qhEnd patch \<noteq> [] then q\<lparr>qhEnd := qhEnd patch\<rparr> else q)"

section \<open>Settings\<close>

definition VoiceStyleCopper :: string where "VoiceStyleCopper = ''copper''"
definition VoiceStyleModern :: string where "VoiceStyleModern = ''modern''"
definition VoicemailRingTimeoutMin :: int where "VoicemailRingTimeoutMin = 5"
definition VoicemailRingTimeoutMax :: int where "VoicemailRingTimeoutMax = 60"
definition DefaultVoicemailRingTimeoutSeconds :: int where "DefaultVoicemailRingTimeoutSeconds = 20"

record Voicemail =
  vmEnabled :: bool
  vmRingTimeoutSeconds :: int

record Settings =
  stVoiceStyle :: string
  stSilentMode :: bool
  stAutoUpdate :: bool
  stVoicemail :: Voicemail
  stQuietHours :: QuietHours

definition zeroQuietHours :: QuietHours where
  "zeroQuietHours = \<lparr>qhEnabled = False, qhStart = [], qhEnd = [], qhDays = replicate 7 False\<rparr>"

definition zeroSettings :: Settings where
  "zeroSettings = \<lparr>stVoiceStyle = [], stSilentMode = False, stAutoUpdate = False,
     stVoicemail = \<lparr>vmEnabled = False, vmRingTimeoutSeconds = 0\<rparr>, stQuietHours = zeroQuietHours\<rparr>"

definition DefaultVoicemail :: Voicemail where
  "DefaultVoicemail = \<lparr>vmEnabled = True, vmRingTimeoutSeconds = DefaultVoicemailRingTimeoutSeconds\<rparr>"

definition DefaultSettings :: Settings where
  "DefaultSettings = zeroSettings\<lparr>stVoiceStyle := VoiceStyleCopper, stVoicemail := DefaultVoicemail\<rparr>"

definition MergeVM :: "Voicemail \<Rightarrow> Voicemail \<Rightarrow> Voicemail" where
  "MergeVM v patch =
     (let v = v\<lparr>vmEnabled := vmEnabled patch\<rparr>
      in if vmRingTimeoutSeconds patch \<noteq> 0
         then v\<lparr>vmRingTimeoutSeconds := vmRingTimeoutSeconds patch\<rparr> else v)"

definition NormalizeVM :: "Voicemail \<Rightarrow> Voicemail" where
  "NormalizeVM v =
     (if vmRingTimeoutSeconds v < VoicemailRingTimeoutMin \<or> vmRingTimeoutSeconds v > VoicemailRingTimeoutMax
      then v\<lparr>vmRingTimeoutSeconds := DefaultVoicemailRingTimeoutSeconds\<rparr> else v)"

definition MergeSettings :: "Settings \<Rightarrow> Settings \<Rightarrow> Settings" where
  "MergeSettings s patch =
     (let s = (if stVoiceStyle patch \<noteq> [] then s\<lparr>stVoiceStyle := stVoiceStyle patch\<rparr> else s);
          s = s\<lparr>stSilentMode := stSilentMode patch\<rparr>;
          s = s\<lparr>stAutoUpdate := stAutoUpdate patch\<rparr>;
          s = s\<lparr>stVoicemail := MergeVM (stVoicemail s) (stVoicemail patch)\<rparr>
      in s\<lparr>stQuietHours := MergeQH (stQuietHours s) (stQuietHours patch)\<rparr>)"

definition NormalizeSettings :: "Settings \<Rightarrow> Settings" where
  "NormalizeSettings s =
     (let s = (if stVoiceStyle s = VoiceStyleCopper \<or> stVoiceStyle s = VoiceStyleModern then s
               else s\<lparr>stVoiceStyle := VoiceStyleCopper\<rparr>);
          s = s\<lparr>stVoicemail := NormalizeVM (stVoicemail s)\<rparr>
      in s\<lparr>stQuietHours := NormalizeQH (stQuietHours s)\<rparr>)"

definition SilentNow :: "Settings \<Rightarrow> localTime \<Rightarrow> bool" where
  "SilentNow s t \<longleftrightarrow> stSilentMode s \<or> ActiveAt (stQuietHours s) t"

section \<open>The settings column\<close>

datatype lineError = ErrNotFound | ErrSQL | ErrJSON | ErrNumber

text \<open>
  \<open>json.Unmarshal\<close> into an empty \<open>Settings\<close>; \<^const>\<open>None\<close> is a syntax or type error.
\<close>

definition scanSettings :: "(string \<Rightarrow> Settings option) \<Rightarrow> string \<Rightarrow> lineError + Settings" where
  "scanSettings unmarshal raw =
     (case (if raw \<noteq> [] then unmarshal raw else Some zeroSettings) of
        None \<Rightarrow> Inl ErrJSON
      | Some patch \<Rightarrow> Inr (NormalizeSettings (MergeSettings DefaultSettings patch)))"

text \<open>The rows of the table \<open>lines\<close> that matter here.\<close>

record LineRow =
  lrID :: int
  lrNumber :: string
  lrHousehold :: string
  lrSettings :: string

text \<open>What the first part of \<open>UpdateSettings\<close> encodes and its statement stores.\<close>

definition UpdateSettings ::
  "(Settings \<Rightarrow> string option) \<Rightarrow> bool \<Rightarrow> int \<Rightarrow> Settings \<Rightarrow> LineRow list
     \<Rightarrow> lineError option \<times> LineRow list" where
  "UpdateSettings marshal db i s rows =
     (case marshal (NormalizeSettings s) of None \<Rightarrow> (Some ErrJSON, rows)
      | Some raw \<Rightarrow>
          if \<not> db then (Some ErrSQL, rows)
          else
            let n = length (filter (\<lambda>r. lrID r = i) rows);
                rows = map (\<lambda>r. if lrID r = i then r\<lparr>lrSettings := raw\<rparr> else r) rows
            in (if n = 0 then Some ErrNotFound else None, rows))"

text \<open>
  The query joins the line with its household's timezone; \<open>nowIn\<close> is the present time in a
  timezone, in UTC when the timezone does not load.
\<close>

definition EffectiveSettingsByNumber ::
  "(string \<Rightarrow> Settings option) \<Rightarrow> (string \<Rightarrow> localTime) \<Rightarrow> bool \<Rightarrow> (string \<Rightarrow> string option) \<Rightarrow> string
     \<Rightarrow> LineRow list \<Rightarrow> lineError + Settings" where
  "EffectiveSettingsByNumber unmarshal nowIn db timezone number rows =
     (if \<not> db then Inl ErrSQL
      else case [(lrSettings r, tz). r \<leftarrow> rows, lrNumber r = number,
                   tz \<leftarrow> (case timezone (lrHousehold r) of None \<Rightarrow> [] | Some z \<Rightarrow> [z])] of
        [] \<Rightarrow> Inl ErrNotFound
      | (raw, tz) # _ \<Rightarrow>
          (case scanSettings unmarshal raw of
             Inl e \<Rightarrow> Inl e
           | Inr s \<Rightarrow> Inr (s\<lparr>stSilentMode := SilentNow s (nowIn tz)\<rparr>)))"

section \<open>The wire\<close>

definition voicemailFromLine :: "Voicemail \<Rightarrow> WireVoicemail" where
  "voicemailFromLine v = \<lparr>wvEnabled = vmEnabled v, wvRingTimeoutSeconds = vmRingTimeoutSeconds v\<rparr>"

definition LineSettingsFromLine :: "Settings \<Rightarrow> LineSettings" where
  "LineSettingsFromLine s = \<lparr>lsVoiceStyle = stVoiceStyle s, lsSilentMode = stSilentMode s,
     lsAutoUpdate = stAutoUpdate s, lsVoicemail = Some (voicemailFromLine (stVoicemail s))\<rparr>"

definition EffectiveLineSettings ::
  "(string \<Rightarrow> Settings option) \<Rightarrow> (string \<Rightarrow> localTime) \<Rightarrow> bool \<Rightarrow> (string \<Rightarrow> string option)
     \<Rightarrow> LineRow list \<Rightarrow> string \<Rightarrow> lineError + LineSettings" where
  "EffectiveLineSettings unmarshal nowIn db timezone rows number =
     (case EffectiveSettingsByNumber unmarshal nowIn db timezone number rows of
        Inl e \<Rightarrow> Inl e | Inr s \<Rightarrow> Inr (LineSettingsFromLine s))"

section \<open>Line numbers\<close>

definition isDigit :: "char \<Rightarrow> bool" where
  "isDigit c \<longleftrightarrow> c \<in> set ''0123456789''"

text \<open>The pattern \<open>^\<close>three digits, an optional hyphen, four digits\<open>$\<close>.\<close>

definition ValidateNumber :: "string \<Rightarrow> lineError option" where
  "ValidateNumber num =
     (if length num = 7 \<and> list_all isDigit num
         \<or> length num = 8 \<and> num ! 3 = CHR ''-'' \<and> list_all isDigit (take 3 num @ drop 4 num)
      then None else Some ErrNumber)"

definition StripNumber :: "string \<Rightarrow> string" where
  "StripNumber num = filter (\<lambda>c. c \<noteq> CHR ''-'') num"

definition FormatNumber :: "string \<Rightarrow> string" where
  "FormatNumber num = (if length num \<noteq> 7 then num else take 3 num @ ''-'' @ drop 3 num)"

end
