(* ===== verification/Scheduler.thy ===== *)
theory Scheduler
  imports Hub_Props LineSettings
begin

text \<open>
  The quiet-hours scheduler, \<open>server/internal/signaling/quiethours.go\<close>: one tick over the lines
  connected to this pod, on the model of the hub.  The line store is the argument \<open>eff\<close>: an
  error, no settings, or the effective settings of a number at the time of the tick.
\<close>

datatype storeAnswer = StoreErr | StoreNil | StoreSettings LineSettings

record Sched =
  lastSent :: "(string \<times> bool) list"

definition NewQuietHoursScheduler :: Sched where
  "NewQuietHoursScheduler = \<lparr>lastSent = []\<rparr>"

definition settingsMsg :: "string \<Rightarrow> LineSettings \<Rightarrow> Message" where
  "settingsMsg number s = zeroMessage\<lparr>mType := TypeLineSettings, mTo := number, mLineSettings := Some s\<rparr>"

text \<open>The store as the scheduler has it in production: \<open>linestore_adapter.go\<close>.\<close>

definition adapterAnswer :: "lineError + LineSettings \<Rightarrow> storeAnswer" where
  "adapterAnswer r = (case r of Inl _ \<Rightarrow> StoreErr | Inr s \<Rightarrow> StoreSettings s)"

primrec evalLoop ::
  "(Message \<Rightarrow> string option) \<Rightarrow> (string \<Rightarrow> storeAnswer) \<Rightarrow> string list \<Rightarrow> Sched \<Rightarrow> Hub \<Rightarrow> Sched \<times> Hub" where
  "evalLoop ms eff [] s h = (s, h)"
| "evalLoop ms eff (number # rest) s h =
     (case eff number of
        StoreSettings settings \<Rightarrow>
          let prev = map_of (lastSent s) number;
              s = s\<lparr>lastSent := mput number (lsSilentMode settings) (lastSent s)\<rparr>
          in if prev = Some (lsSilentMode settings) then evalLoop ms eff rest s h
             else evalLoop ms eff rest s (snd (SendTo ms number (settingsMsg number settings) h))
      | _ \<Rightarrow> evalLoop ms eff rest s h)"

definition evaluate ::
  "(Message \<Rightarrow> string option) \<Rightarrow> (string \<Rightarrow> storeAnswer) \<Rightarrow> Sched \<Rightarrow> Hub \<Rightarrow> Sched \<times> Hub" where
  "evaluate ms eff s h =
     (let local = LocalNumbers h;
          s = s\<lparr>lastSent := filter (\<lambda>p. fst p \<in> set local) (lastSent s)\<rparr>
      in evalLoop ms eff local s h)"

section \<open>One tick\<close>

definition answered :: "(string \<Rightarrow> storeAnswer) \<Rightarrow> string \<Rightarrow> bool option" where
  "answered eff n = (case eff n of StoreSettings s \<Rightarrow> Some (lsSilentMode s) | _ \<Rightarrow> None)"

definition flipped :: "(string \<Rightarrow> storeAnswer) \<Rightarrow> Sched \<Rightarrow> string \<Rightarrow> bool" where
  "flipped eff s n \<longleftrightarrow> answered eff n \<noteq> None \<and> map_of (lastSent s) n \<noteq> answered eff n"

definition push :: "(Message \<Rightarrow> string option) \<Rightarrow> (string \<Rightarrow> storeAnswer) \<Rightarrow> string \<Rightarrow> Hub \<Rightarrow> Hub" where
  "push ms eff n h = (case eff n of StoreSettings s \<Rightarrow> snd (SendTo ms n (settingsMsg n s) h) | _ \<Rightarrow> h)"

lemma evalLoop_effect:
  assumes "distinct ns"
  shows "snd (evalLoop ms eff ns s h) = fold (push ms eff) (filter (flipped eff s) ns) h
    \<and> map_of (lastSent (fst (evalLoop ms eff ns s h)))
        = (\<lambda>n. if n \<in> set ns \<and> answered eff n \<noteq> None then answered eff n else map_of (lastSent s) n)"
  using assms
proof (induction ns arbitrary: s h)
  case (Cons n ns)
  then have n: "n \<notin> set ns" "distinct ns" by simp_all
  show ?case
  proof (cases "eff n")
    case (StoreSettings st)
    let ?s = "s\<lparr>lastSent := mput n (lsSilentMode st) (lastSent s)\<rparr>"
    let ?h = "if map_of (lastSent s) n = Some (lsSilentMode st) then h
              else snd (SendTo ms n (settingsMsg n st) h)"
    have step: "evalLoop ms eff (n # ns) s h = evalLoop ms eff ns ?s ?h"
      using StoreSettings by (simp add: Let_def)
    have fl: "filter (flipped eff ?s) ns = filter (flipped eff s) ns"
      by (rule filter_cong) (use n in \<open>auto simp: flipped_def\<close>)
    have "fold (push ms eff) (filter (flipped eff s) (n # ns)) h
        = fold (push ms eff) (filter (flipped eff s) ns) ?h"
      using StoreSettings by (auto simp: flipped_def answered_def push_def)
    then show ?thesis using Cons.IH [OF n(2), of ?s ?h] n(1) StoreSettings
      unfolding step fl by (auto simp: fun_eq_iff answered_def)
  next
    case StoreErr
    then show ?thesis using Cons.IH [OF n(2), of s h] n(1) by (auto simp: flipped_def answered_def fun_eq_iff)
  next
    case StoreNil
    then show ?thesis using Cons.IH [OF n(2), of s h] n(1) by (auto simp: flipped_def answered_def fun_eq_iff)
  qed
qed simp

lemma LocalNumbers_distinct: "hub_ok h \<Longrightarrow> distinct (LocalNumbers h)"
  by (simp add: LocalNumbers_def hub_ok_def mwf_def distinct_map_filter)

lemma map_of_filter_keys: "map_of (filter (\<lambda>p. P (fst p)) m) = (\<lambda>k. if P k then map_of m k else None)"
  by (induction m) (auto simp: fun_eq_iff)

lemma push_view: "hub_ok h \<Longrightarrow> hub_view (push ms eff n h) = hub_view h"
  by (simp add: push_def view_SendTo split: storeAnswer.splits)

lemma pushes_view:
  assumes "hub_ok h"
  shows "hub_view (fold (push ms eff) ns h) = hub_view h"
  using assms
proof (induction ns arbitrary: h)
  case (Cons n ns)
  have v: "hub_view (push ms eff n h) = hub_view h" by (rule push_view [OF Cons.prems])
  show ?case using Cons.IH [of "push ms eff n h"] hub_ok_cong [OF v] Cons.prems v by simp
qed simp

lemma LocalNumbers_view: "hub_view h' = hub_view h \<Longrightarrow> LocalNumbers h' = LocalNumbers h"
  by (simp add: LocalNumbers_def hub_view_def)

lemma evaluate_effect:
  fixes s :: Sched
  assumes "hub_ok h"
  defines "s0 \<equiv> \<lparr>lastSent = filter (\<lambda>p. fst p \<in> set (LocalNumbers h)) (lastSent s)\<rparr>"
  shows "snd (evaluate ms eff s h) = fold (push ms eff) (filter (flipped eff s) (LocalNumbers h)) h"
    and "map_of (lastSent (fst (evaluate ms eff s h)))
      = (\<lambda>n. if n \<in> set (LocalNumbers h)
             then (if answered eff n \<noteq> None then answered eff n else map_of (lastSent s) n) else None)"
proof -
  have ev: "evaluate ms eff s h = evalLoop ms eff (LocalNumbers h) s0 h"
    by (cases s) (simp add: evaluate_def s0_def Let_def)
  note E = evalLoop_effect [OF LocalNumbers_distinct [OF assms(1)], of ms eff s0 h, folded ev]
  have m: "map_of (lastSent s0) = (\<lambda>n. if n \<in> set (LocalNumbers h) then map_of (lastSent s) n else None)"
    using map_of_filter_keys [of "\<lambda>n. n \<in> set (LocalNumbers h)" "lastSent s"] by (simp add: s0_def)
  have "filter (flipped eff s0) (LocalNumbers h) = filter (flipped eff s) (LocalNumbers h)"
    by (rule filter_cong) (auto simp: flipped_def m)
  then show "snd (evaluate ms eff s h) = fold (push ms eff) (filter (flipped eff s) (LocalNumbers h)) h"
    using E by simp
  show "map_of (lastSent (fst (evaluate ms eff s h)))
      = (\<lambda>n. if n \<in> set (LocalNumbers h)
             then (if answered eff n \<noteq> None then answered eff n else map_of (lastSent s) n) else None)"
    using E m by (auto simp: fun_eq_iff)
qed

text \<open>
  One tick of the quiet-hours scheduler pushes the settings to exactly the lines connected
  to this pod whose silent state is new or differs from the one last recorded, in one pass over
  them, records the present state of every line it could read, forgets the lines that left the
  pod, and a second tick with the same answers pushes nothing.
\<close>
theorem quiet_hours_tick:
  fixes s :: Sched and h :: Hub and ms :: "Message \<Rightarrow> string option" and eff :: "string \<Rightarrow> storeAnswer"
  assumes "hub_ok h"
  defines "r \<equiv> evaluate ms eff s h"
  shows "snd r = fold (push ms eff) (filter (flipped eff s) (LocalNumbers h)) h
    \<and> map_of (lastSent (fst r))
        = (\<lambda>n. if n \<in> set (LocalNumbers h)
               then (if answered eff n \<noteq> None then answered eff n else map_of (lastSent s) n) else None)
    \<and> snd (evaluate ms eff (fst r) (snd r)) = snd r"
proof -
  note E = evaluate_effect [OF assms(1), of ms eff s, folded r_def]
  have v: "hub_view (snd r) = hub_view h" unfolding E(1) by (rule pushes_view [OF assms(1)])
  have ok: "hub_ok (snd r)" using hub_ok_cong [OF v] assms(1) by simp
  have loc: "LocalNumbers (snd r) = LocalNumbers h" by (rule LocalNumbers_view [OF v])
  have "filter (flipped eff (fst r)) (LocalNumbers h) = []"
    by (auto simp: filter_empty_conv flipped_def E(2))
  then have "snd (evaluate ms eff (fst r) (snd r)) = snd r"
    using evaluate_effect(1) [OF ok, of ms eff "fst r"] by (simp add: loc)
  with E show ?thesis by blast
qed

definition quiet_line :: Hub where
  "quiet_line = snd (connectDevice True ''hw1'' 1 5 None ''5550100'' NewHub)"

definition silent_now :: "string \<Rightarrow> storeAnswer" where
  "silent_now _ = StoreSettings \<lparr>lsVoiceStyle = VoiceStyleCopper, lsSilentMode = True, lsAutoUpdate = False,
     lsVoicemail = None\<rparr>"

definition quiet_tick :: "Sched \<times> Hub" where
  "quiet_tick = evaluate (\<lambda>m. Some (mType m)) silent_now NewQuietHoursScheduler quiet_line"

theorem quiet_hours_tick_witness:
  "map_of (lastSent (fst quiet_tick)) ''5550100'' = Some True
   \<and> snd (evaluate (\<lambda>m. Some (mType m)) silent_now (fst quiet_tick) (snd quiet_tick)) = snd quiet_tick"
proof -
  have ok: "hub_ok quiet_line" unfolding quiet_line_def by (rule connectDevice_ok [OF hub_ok_New])
  have "''5550100'' \<in> set (LocalNumbers quiet_line)" "answered silent_now ''5550100'' = Some True"
    by code_simp+
  moreover note T = quiet_hours_tick [OF ok, where ms = "\<lambda>m. Some (mType m)" and eff = silent_now
        and s = NewQuietHoursScheduler, folded quiet_tick_def]
  ultimately show ?thesis by (simp only: T if_True not_None_eq) auto
qed

text \<open>
  The state is recorded before the push, whatever becomes of it: a phone whose buffer is full
  at the tick of a transition is not told of it by later ticks.
\<close>

definition full_line :: Hub where
  "full_line = snd (SendTo (\<lambda>m. Some (mType m)) ''5550100'' (zeroMessage\<lparr>mType := TypeRing\<rparr>) quiet_line)"

definition lost_push :: Hub where
  "lost_push =
     (let r = evaluate (\<lambda>m. Some (mType m)) silent_now NewQuietHoursScheduler full_line;
          h = hub_step (\<lambda>m. Some (mType m)) (\<lambda>_. True) (MvReceive 0) (snd r)
      in snd (evaluate (\<lambda>m. Some (mType m)) silent_now (fst r) h))"

theorem lost_push_not_repeated:
  "coSend (hstore full_line 0) = [Some TypeRing] \<and> coSend (hstore lost_push 0) = []"
  by code_simp

end
