(* ===== verification/LineSettings_Props.thy ===== *)
theory LineSettings_Props
  imports LineSettings
begin

text \<open>
  Quiet hours mean the windows they describe, normalisation cannot silence a line, and the
  settings column and the number format round-trip.
\<close>

section \<open>Quiet hours\<close>

definition localTime_ok :: "localTime \<Rightarrow> bool" where
  "localTime_ok t \<longleftrightarrow> ltWeekday t < 7 \<and> ltHour t < 24 \<and> ltMinute t < 60"

definition weekMinute :: "localTime \<Rightarrow> nat" where
  "weekMinute t = ltWeekday t * 1440 + ltHour t * 60 + ltMinute t"

text \<open>
  The windows as a household reads them: on each selected day one opens at \<open>Start\<close> and stays
  open for the minutes up to \<open>End\<close>, across midnight and across the end of the week.
\<close>

definition windowLength :: "QuietHours \<Rightarrow> nat" where
  "windowLength q = nat ((int (minutesOfDay (qhEnd q)) - int (minutesOfDay (qhStart q))) mod 1440)"

definition inWindow :: "QuietHours \<Rightarrow> nat \<Rightarrow> localTime \<Rightarrow> bool" where
  "inWindow q d t \<longleftrightarrow> list_ex (\<lambda>k. (d * 1440 + minutesOfDay (qhStart q) + k) mod 10080 = weekMinute t)
     [0..<windowLength q]"

definition configured :: "QuietHours \<Rightarrow> bool" where
  "configured q \<longleftrightarrow> qhEnabled q \<and> validQuietTime (qhStart q) \<and> validQuietTime (qhEnd q)"

lemma validQuietTime_bound: "validQuietTime s \<Longrightarrow> minutesOfDay s < 1440"
proof -
  assume "validQuietTime s"
  then obtain a b c d e where s: "s = [a, b, c, d, e]"
    and h: "a \<in> set ''01'' \<and> b \<in> set ''0123456789'' \<or> a = CHR ''2'' \<and> b \<in> set ''0123''"
    and m: "d \<in> set ''012345''" "e \<in> set ''0123456789''"
    by (auto simp: validQuietTime_def quietHoursTimeRe_def split: list.splits)
  have "unat (of_char a - 48 :: 8 word) * 10 + unat (of_char b - 48 :: 8 word) \<le> 23"
    using h by auto
  moreover have "unat (of_char d - 48 :: 8 word) * 10 + unat (of_char e - 48 :: 8 word) \<le> 59"
    using m by auto
  ultimately show ?thesis by (simp add: s minutesOfDay_def byteAt_def Let_def)
qed

text \<open>Which opening a minute can belong to: that of its own day or that of the day before.\<close>

lemma opening_day:
  fixes d today now start len :: nat
  assumes "d < 7" "today < 7" "now < 1440" "start < 1440" "len < 1440"
  shows "(\<exists>k<len. (d * 1440 + start + k) mod 10080 = today * 1440 + now)
    \<longleftrightarrow> d = today \<and> start \<le> now \<and> now < start + len
      \<or> (d + 1) mod 7 = today \<and> now + 1440 < start + len" (is "?L \<longleftrightarrow> ?R")
proof
  assume ?L
  then obtain k where k: "k < len" "(d * 1440 + start + k) mod 10080 = today * 1440 + now" by blast
  have "d * 1440 + start + k = today * 1440 + now \<or> d * 1440 + start + k = today * 1440 + now + 10080"
    using k assms by (cases "d * 1440 + start + k < 10080") (auto simp: mod_if split: if_splits)
  then obtain e where e: "e = today \<or> e = today + 7" "d * 1440 + start + k = e * 1440 + now"
    by (elim disjE) (rule that [of today], simp_all, rule that [of "today + 7"], simp_all)
  have "e * 1440 < d * 1440 + 2 * 1440" using e(2) assms(4,5) k(1) by linarith
  moreover have "d * 1440 < e * 1440 + 1440" using e(2) assms(3) by linarith
  ultimately have "e = d \<or> e = d + 1" by linarith
  then consider "d = today" "start + k = now" | "d + 1 = today" "start + k = now + 1440"
    | "d = 6" "today = 0" "start + k = now + 1440"
    using e assms(1,2) by fastforce
  then show ?R using k(1) assms by cases auto
next
  assume ?R
  then show ?L
  proof (elim disjE conjE)
    assume a: "d = today" "start \<le> now" "now < start + len"
    then show ?L using assms by (intro exI [of _ "now - start"]) auto
  next
    assume a: "(d + 1) mod 7 = today" "now + 1440 < start + len"
    have "d + 1 = today \<or> d = 6 \<and> today = 0" using a(1) assms(1) by (auto simp: mod_if split: if_splits)
    then show ?L using a(2) assms by (intro exI [of _ "now + 1440 - start"]) (auto simp: mod_if)
  qed
qed

lemma windowLength_cases:
  assumes "configured q"
  shows "minutesOfDay (qhStart q) < minutesOfDay (qhEnd q)
      \<Longrightarrow> windowLength q = minutesOfDay (qhEnd q) - minutesOfDay (qhStart q)"
    and "minutesOfDay (qhStart q) = minutesOfDay (qhEnd q) \<Longrightarrow> windowLength q = 0"
    and "minutesOfDay (qhEnd q) < minutesOfDay (qhStart q)
      \<Longrightarrow> windowLength q = minutesOfDay (qhEnd q) + 1440 - minutesOfDay (qhStart q)"
proof -
  have b: "minutesOfDay (qhStart q) < 1440" "minutesOfDay (qhEnd q) < 1440"
    using assms validQuietTime_bound by (auto simp: configured_def)
  show "windowLength q = minutesOfDay (qhEnd q) - minutesOfDay (qhStart q)"
    if "minutesOfDay (qhStart q) < minutesOfDay (qhEnd q)"
    using b that unfolding windowLength_def by simp
  show "windowLength q = 0" if "minutesOfDay (qhStart q) = minutesOfDay (qhEnd q)"
    using that by (simp add: windowLength_def)
  show "windowLength q = minutesOfDay (qhEnd q) + 1440 - minutesOfDay (qhStart q)"
    if less: "minutesOfDay (qhEnd q) < minutesOfDay (qhStart q)"
  proof -
    have "(int (minutesOfDay (qhEnd q)) - int (minutesOfDay (qhStart q))) mod 1440
        = (int (minutesOfDay (qhEnd q)) - int (minutesOfDay (qhStart q)) + 1440) mod 1440" by simp
    also have "\<dots> = int (minutesOfDay (qhEnd q)) - int (minutesOfDay (qhStart q)) + 1440"
      using b less by (intro mod_pos_pos_trivial) auto
    finally have "(int (minutesOfDay (qhEnd q)) - int (minutesOfDay (qhStart q))) mod 1440
        = int (minutesOfDay (qhEnd q)) - int (minutesOfDay (qhStart q)) + 1440" .
    then show ?thesis using b less by (simp add: windowLength_def)
  qed
qed

text \<open>
  C18: Quiet hours are active at a local time exactly when the feature is enabled with valid
  times and the minute lies in the window of some selected day, the window that opens that
  day at Start and stays open for the minutes up to End, past midnight and past the end of the
  week if it has to.  Equal times make no window, and with no day selected there is none.
\<close>
theorem quiet_hours_windows:
  assumes "localTime_ok t" and "length (qhDays q) = 7"
  shows "ActiveAt q t \<longleftrightarrow> configured q \<and> list_ex (\<lambda>d. qhDays q ! d \<and> inWindow q d t) [0..<7]"
proof (cases "configured q")
  case True
  let ?s = "minutesOfDay (qhStart q)" and ?e = "minutesOfDay (qhEnd q)"
  let ?now = "ltHour t * 60 + ltMinute t" and ?today = "ltWeekday t"
  have b: "?s < 1440" "?e < 1440" using True validQuietTime_bound by (auto simp: configured_def)
  have t: "?today < 7" "?now < 1440" using assms(1) by (auto simp: localTime_ok_def)
  note len = windowLength_cases [OF True]
  have l: "windowLength q < 1440" using len b by linarith
  have in_iff: "inWindow q d t \<longleftrightarrow> d = ?today \<and> ?s \<le> ?now \<and> ?now < ?s + windowLength q
      \<or> (d + 1) mod 7 = ?today \<and> ?now + 1440 < ?s + windowLength q" if "d < 7" for d
    using opening_day [OF that t b(1) l]
    by (auto simp: inWindow_def list_ex_iff weekMinute_def Bex_def atLeast0LessThan)
  let ?y = "(?today + 6) mod 7"
  have yd: "(d + 1) mod 7 = ?today \<longleftrightarrow> d = ?y" if "d < 7" for d
    using that t(1) by (auto simp: mod_if)
  have y7: "?y < 7" by simp
  have ex: "list_ex (\<lambda>d. qhDays q ! d \<and> inWindow q d t) [0..<7]
      \<longleftrightarrow> qhDays q ! ?today \<and> ?s \<le> ?now \<and> ?now < ?s + windowLength q
        \<or> qhDays q ! ?y \<and> ?now + 1440 < ?s + windowLength q"
    (is "?E \<longleftrightarrow> ?A \<or> ?B")
  proof
    assume ?E
    then obtain d where d: "d < 7" "qhDays q ! d" "inWindow q d t" by (auto simp: list_ex_iff)
    then show "?A \<or> ?B" using in_iff [OF d(1)] yd [OF d(1)] by auto
  next
    assume "?A \<or> ?B"
    then show ?E
    proof
      assume ?A
      then show ?E using in_iff [OF t(1)] t(1) by (auto simp: list_ex_iff intro!: bexI [of _ ?today])
    next
      assume ?B
      then show ?E using in_iff [OF y7] yd [OF y7] y7
        by (auto simp: list_ex_iff intro!: bexI [of _ ?y])
    qed
  qed
  have any: "qhDays q ! d \<Longrightarrow> d < 7 \<Longrightarrow> anyDay q" for d
    using assms(2) nth_mem [of d "qhDays q"] by (auto simp: anyDay_def)
  have act: "ActiveAt q t \<longleftrightarrow> anyDay q \<and> ?s \<noteq> ?e
      \<and> (if ?s < ?e then qhDays q ! ?today \<and> ?s \<le> ?now \<and> ?now < ?e
         else if ?s \<le> ?now then qhDays q ! ?today else ?now < ?e \<and> qhDays q ! ?y)"
    using True by (simp add: ActiveAt_def configured_def Let_def)
  consider "?s < ?e" | "?s = ?e" | "?e < ?s" by linarith
  then show ?thesis
  proof cases
    case 1
    then show ?thesis unfolding act ex len(1) [OF 1] using True b t any [OF _ t(1)] by auto
  next
    case 2
    then show ?thesis unfolding act ex len(2) [OF 2] using True b t by auto
  next
    case 3
    then show ?thesis unfolding act ex len(3) [OF 3] using True b t any [OF _ t(1)] any [OF _ y7] by auto
  qed
qed (auto simp: ActiveAt_def configured_def Let_def)

theorem quiet_hours_windows_witness:
  "let q = \<lparr>qhEnabled = True, qhStart = ''22:00'', qhEnd = ''07:00'',
            qhDays = [False, False, False, False, False, False, True]\<rparr>;
       t = \<lparr>ltWeekday = 0, ltHour = 6, ltMinute = 59\<rparr>
   in ActiveAt q t \<and> (ActiveAt q t \<longleftrightarrow> configured q \<and> list_ex (\<lambda>d. qhDays q ! d \<and> inWindow q d t) [0..<7])"
proof -
  let ?q = "\<lparr>qhEnabled = True, qhStart = ''22:00'', qhEnd = ''07:00'',
            qhDays = [False, False, False, False, False, False, True]\<rparr>"
  let ?t = "\<lparr>ltWeekday = 0, ltHour = 6, ltMinute = 59\<rparr>"
  have "ActiveAt ?q ?t" by code_simp
  then show ?thesis using quiet_hours_windows [of ?t ?q] by (simp add: Let_def localTime_ok_def)
qed

section \<open>Normal settings\<close>

definition quietHours_ok :: "QuietHours \<Rightarrow> bool" where
  "quietHours_ok q \<longleftrightarrow>
     (if qhEnabled q then configured q \<and> minutesOfDay (qhStart q) \<noteq> minutesOfDay (qhEnd q) \<and> anyDay q
      else (qhStart q = [] \<or> validQuietTime (qhStart q)) \<and> (qhEnd q = [] \<or> validQuietTime (qhEnd q)))"

definition settings_ok :: "Settings \<Rightarrow> bool" where
  "settings_ok s \<longleftrightarrow> stVoiceStyle s \<in> {VoiceStyleCopper, VoiceStyleModern}
     \<and> VoicemailRingTimeoutMin \<le> vmRingTimeoutSeconds (stVoicemail s)
     \<and> vmRingTimeoutSeconds (stVoicemail s) \<le> VoicemailRingTimeoutMax
     \<and> quietHours_ok (stQuietHours s)"

lemma not_valid_Nil: "\<not> validQuietTime []"
  by (simp add: validQuietTime_def quietHoursTimeRe_def)

lemma NormalizeQH_ok: "quietHours_ok (NormalizeQH q)"
  by (simp add: NormalizeQH_def quietHours_ok_def configured_def anyDay_def AllDays_def)

lemma NormalizeQH_id: "quietHours_ok q \<Longrightarrow> NormalizeQH q = q"
  by (auto simp: NormalizeQH_def quietHours_ok_def configured_def not_valid_Nil split: if_splits)

lemma NormalizeSettings_ok: "settings_ok (NormalizeSettings s)"
  by (simp add: NormalizeSettings_def settings_ok_def Let_def NormalizeVM_def NormalizeQH_ok
      VoicemailRingTimeoutMin_def VoicemailRingTimeoutMax_def DefaultVoicemailRingTimeoutSeconds_def)

lemma NormalizeSettings_id: "settings_ok s \<Longrightarrow> NormalizeSettings s = s"
  by (auto simp: NormalizeSettings_def settings_ok_def Let_def NormalizeVM_def NormalizeQH_id)

lemma ActiveAt_NormalizeQH:
  "ActiveAt (NormalizeQH q) t \<longleftrightarrow> ActiveAt q t \<or> (anyDay q = False) \<and> ActiveAt (q\<lparr>qhDays := AllDays\<rparr>) t"
proof -
  have all: "anyDay (q\<lparr>qhDays := AllDays\<rparr>)" by (simp add: anyDay_def AllDays_def)
  consider "\<not> qhEnabled q" | "qhEnabled q" "\<not> (validQuietTime (qhStart q) \<and> validQuietTime (qhEnd q))"
    | "qhEnabled q" "validQuietTime (qhStart q) \<and> validQuietTime (qhEnd q)"
      "minutesOfDay (qhStart q) = minutesOfDay (qhEnd q)"
    | "qhEnabled q" "validQuietTime (qhStart q) \<and> validQuietTime (qhEnd q)"
      "minutesOfDay (qhStart q) \<noteq> minutesOfDay (qhEnd q)" by blast
  then show ?thesis
  proof cases
    case 4
    then have "NormalizeQH q = (if anyDay q then q else q\<lparr>qhDays := AllDays\<rparr>)" by (simp add: NormalizeQH_def)
    then show ?thesis by (cases "anyDay q") (simp_all add: ActiveAt_def [of q])
  qed (auto simp: NormalizeQH_def ActiveAt_def Let_def)
qed

text \<open>
  Normalised settings are storable: a known voice style, a ring timeout of 5 to 60 seconds,
  quiet hours that are either off with valid or empty times or on with two different valid
  times and a day.  Normalising again changes nothing, and it silences a line at exactly the
  times it was silent before, except that an enabled window without any day gets every day.
\<close>
theorem normalize_settings:
  "settings_ok (NormalizeSettings s)
   \<and> NormalizeSettings (NormalizeSettings s) = NormalizeSettings s
   \<and> (SilentNow (NormalizeSettings s) t \<longleftrightarrow> SilentNow s t
        \<or> (anyDay (stQuietHours s) = False) \<and> ActiveAt (stQuietHours s\<lparr>qhDays := AllDays\<rparr>) t)"
proof -
  have "stQuietHours (NormalizeSettings s) = NormalizeQH (stQuietHours s)"
    "stSilentMode (NormalizeSettings s) = stSilentMode s"
    by (simp_all add: NormalizeSettings_def Let_def)
  then show ?thesis
    using NormalizeSettings_ok NormalizeSettings_id [OF NormalizeSettings_ok]
    by (auto simp: SilentNow_def ActiveAt_NormalizeQH)
qed

section \<open>The settings column\<close>

lemma scan_normal:
  assumes "settings_ok s"
  shows "NormalizeSettings (MergeSettings DefaultSettings s) = s"
proof -
  have "stVoiceStyle s \<noteq> []" "vmRingTimeoutSeconds (stVoicemail s) \<noteq> 0"
    using assms by (auto simp: settings_ok_def VoiceStyleCopper_def VoiceStyleModern_def
        VoicemailRingTimeoutMin_def)
  then have "MergeSettings DefaultSettings s = s"
    by (simp add: MergeSettings_def MergeVM_def MergeQH_def DefaultSettings_def zeroSettings_def
        zeroQuietHours_def DefaultVoicemail_def Let_def)
  then show ?thesis using NormalizeSettings_id [OF assms] by simp
qed

text \<open>
  C19: Settings written by \<open>UpdateSettings\<close> are read back as their normal form, although reading
  layers them over the defaults, whatever fields they leave empty; the other rows are as they
  were, and the update fails as not found exactly when no row has the id.  The JSON library is
  assumed to decode what it encoded.
\<close>
theorem settings_column_roundtrip:
  assumes "marshal (NormalizeSettings s) = Some raw" and "raw \<noteq> []"
    and "unmarshal raw = Some (NormalizeSettings s)"
  shows "case UpdateSettings marshal True i s rows of (e, rows') \<Rightarrow>
      (e = None \<longleftrightarrow> i \<in> lrID ` set rows)
      \<and> length rows' = length rows
      \<and> (\<forall>k < length rows. lrID (rows' ! k) = lrID (rows ! k)
           \<and> (if lrID (rows ! k) = i
              then scanSettings unmarshal (lrSettings (rows' ! k)) = Inr (NormalizeSettings s)
              else rows' ! k = rows ! k))"
proof -
  have "length (filter (\<lambda>r. lrID r = i) rows) = 0 \<longleftrightarrow> i \<notin> lrID ` set rows"
    by (auto simp: filter_empty_conv)
  moreover have "scanSettings unmarshal raw = Inr (NormalizeSettings s)"
    using assms(2,3) scan_normal [OF NormalizeSettings_ok] by (simp add: scanSettings_def)
  ultimately show ?thesis using assms(1) by (simp add: UpdateSettings_def Let_def)
qed

theorem settings_column_roundtrip_witness:
  "case UpdateSettings (\<lambda>_. Some ''s'') True 7 DefaultSettings
      [\<lparr>lrID = 7, lrNumber = ''5550100'', lrHousehold = ''h'', lrSettings = []\<rparr>] of (e, rows') \<Rightarrow>
    e = None \<and> scanSettings (\<lambda>_. Some (NormalizeSettings DefaultSettings)) (lrSettings (rows' ! 0))
      = Inr (NormalizeSettings DefaultSettings)"
  using settings_column_roundtrip [where marshal = "\<lambda>_. Some ''s''" and s = DefaultSettings and raw = "''s''"
      and unmarshal = "\<lambda>_. Some (NormalizeSettings DefaultSettings)" and i = 7
      and rows = "[\<lparr>lrID = 7, lrNumber = ''5550100'', lrHousehold = ''h'', lrSettings = []\<rparr>]"]
  by (simp split: prod.splits)

text \<open>
  A line whose column is empty, or has no voicemail object, does not get the default of an
  enabled voicemail: the decoded zero value of \<open>Enabled\<close> overwrites it.
\<close>
theorem unset_voicemail_is_disabled:
  "scanSettings u [] = Inr (DefaultSettings\<lparr>stVoicemail := DefaultVoicemail\<lparr>vmEnabled := False\<rparr>\<rparr>)"
proof -
  have "NormalizeSettings (MergeSettings DefaultSettings zeroSettings)
      = DefaultSettings\<lparr>stVoicemail := DefaultVoicemail\<lparr>vmEnabled := False\<rparr>\<rparr>" by code_simp
  then show ?thesis by (simp add: scanSettings_def)
qed

section \<open>Line numbers\<close>

lemma digit_not_hyphen: "isDigit c \<Longrightarrow> c \<noteq> CHR ''-''"
  by (auto simp: isDigit_def)

lemma strip_digits: "list_all isDigit s \<Longrightarrow> StripNumber s = s"
  by (auto simp: StripNumber_def list_all_iff filter_id_conv dest: digit_not_hyphen)

text \<open>
  A number that validates, with or without the hyphen, strips to seven digits; formatting
  those gives a number that validates and strips to the same digits.
\<close>
theorem number_roundtrip:
  assumes "ValidateNumber num = None"
  shows "length (StripNumber num) = 7 \<and> list_all isDigit (StripNumber num)
    \<and> ValidateNumber (FormatNumber (StripNumber num)) = None
    \<and> StripNumber (FormatNumber (StripNumber num)) = StripNumber num"
proof -
  have s: "length (StripNumber num) = 7 \<and> list_all isDigit (StripNumber num)"
  proof (cases "length num = 7 \<and> list_all isDigit num")
    case True
    then show ?thesis by (simp add: strip_digits)
  next
    case False
    then have n: "length num = 8" "num ! 3 = CHR ''-''" "list_all isDigit (take 3 num @ drop 4 num)"
      using assms by (auto simp: ValidateNumber_def split: if_splits)
    have "num = take 3 num @ num ! 3 # drop (Suc 3) num" using n(1) by (intro id_take_nth_drop) simp
    then have "StripNumber num = StripNumber (take 3 num @ ''-'' @ drop 4 num)" using n(2) by simp
    also have "\<dots> = StripNumber (take 3 num @ drop 4 num)" by (simp add: StripNumber_def)
    also have "\<dots> = take 3 num @ drop 4 num" using n(3) by (rule strip_digits)
    finally show ?thesis using n by simp
  qed
  let ?d = "StripNumber num"
  have f: "FormatNumber ?d = take 3 ?d @ CHR ''-'' # drop 3 ?d" using s by (simp add: FormatNumber_def)
  have "ValidateNumber (FormatNumber ?d) = None"
    using s by (simp add: f ValidateNumber_def nth_append list_all_append [symmetric])
  moreover have "StripNumber (FormatNumber ?d) = StripNumber (take 3 ?d @ drop 3 ?d)"
    unfolding f by (simp only: StripNumber_def filter_append filter.simps) simp
  then have "StripNumber (FormatNumber ?d) = StripNumber ?d" by simp
  ultimately show ?thesis using s by (simp add: strip_digits)
qed

theorem number_roundtrip_witness:
  "length (StripNumber ''555-0100'') = 7 \<and> ValidateNumber (FormatNumber (StripNumber ''555-0100'')) = None"
proof -
  have "ValidateNumber ''555-0100'' = None" by code_simp
  from number_roundtrip [OF this] show ?thesis by simp
qed

end
