(* ===== verification/RateLimit.thy ===== *)
theory RateLimit
  imports GoMap
begin

text \<open>
  Rate limiting of sensitive endpoints, \<open>server/internal/ratelimit/ratelimit.go\<close>, with the
  resolution of the client address, \<open>server/internal/httputil/clientip.go\<close>.

  Times and durations are milliseconds; a window is a whole number of them, as every caller
  configures it.  Redis is a parameter: the commands \<open>INCR\<close> and \<open>PEXPIRE\<close> on a store, with
  their documented behaviour as the predicate \<open>redis_ok\<close>.  Address parsing is a parameter.
\<close>

section \<open>The in-memory backend\<close>

record bucket =
  tokens :: int
  lastReset :: int

definition evictInterval :: int where
  "evictInterval = 5 * 60 * 1000"

record memoryChecker =
  buckets :: "(string \<times> bucket) list"
  mcLimit :: int
  mcWindow :: int
  lastEvict :: int

definition newMemoryChecker :: "int \<Rightarrow> int \<Rightarrow> int \<Rightarrow> memoryChecker" where
  "newMemoryChecker limit window now =
     \<lparr>buckets = [], mcLimit = limit, mcWindow = window, lastEvict = now\<rparr>"

definition evictExpiredLocked :: "int \<Rightarrow> memoryChecker \<Rightarrow> memoryChecker" where
  "evictExpiredLocked now c =
     c\<lparr>buckets := filter (\<lambda>p. \<not> now - lastReset (snd p) \<ge> mcWindow c) (buckets c)\<rparr>"

definition memAllow :: "int \<Rightarrow> string \<Rightarrow> memoryChecker \<Rightarrow> bool \<times> memoryChecker" where
  "memAllow now ip c =
     (let c = (if now - lastEvict c \<ge> evictInterval
               then (evictExpiredLocked now c)\<lparr>lastEvict := now\<rparr> else c)
      in case map_of (buckets c) ip of
           None \<Rightarrow> (True, c\<lparr>buckets := mput ip \<lparr>tokens = mcLimit c - 1, lastReset = now\<rparr> (buckets c)\<rparr>)
         | Some b \<Rightarrow>
             if now - lastReset b \<ge> mcWindow c then
               (True, c\<lparr>buckets := mput ip \<lparr>tokens = mcLimit c - 1, lastReset = now\<rparr> (buckets c)\<rparr>)
             else if tokens b \<le> 0 then (False, c)
             else (True, c\<lparr>buckets := mput ip (b\<lparr>tokens := tokens b - 1\<rparr>) (buckets c)\<rparr>))"

section \<open>The Redis backend\<close>

record redisChecker =
  rcName :: string
  keyBase :: string
  rcLimit :: int
  windowMS :: int
  lastLog :: int
  suppressed :: int

definition newRedisChecker :: "string \<Rightarrow> int \<Rightarrow> int \<Rightarrow> redisChecker" where
  "newRedisChecker name limit window =
     \<lparr>rcName = name, keyBase = ''ratelimit:'' @ name @ '':'', rcLimit = limit, windowMS = window,
      lastLog = 0, suppressed = 0\<rparr>"

text \<open>The commands: \<open>INCR\<close> at a time on a key, \<open>PEXPIRE\<close> with a number of milliseconds.\<close>

type_synonym 'r incr = "int \<Rightarrow> string \<Rightarrow> 'r \<Rightarrow> int \<times> 'r"
type_synonym 'r pexpire = "int \<Rightarrow> string \<Rightarrow> int \<Rightarrow> 'r \<Rightarrow> 'r"

definition incrExpireScript :: "'r incr \<Rightarrow> 'r pexpire \<Rightarrow> int \<Rightarrow> string \<Rightarrow> int \<Rightarrow> 'r \<Rightarrow> int \<times> 'r" where
  "incrExpireScript incr pexpire now key arg r =
     (let (current, r) = incr now key r
      in (current, if current = 1 then pexpire now key arg r else r))"

definition redisLogInterval :: int where
  "redisLogInterval = 30 * 1000"

definition claimLog :: "int \<Rightarrow> redisChecker \<Rightarrow> bool \<times> int \<times> redisChecker" where
  "claimLog now c =
     (if lastLog c \<noteq> 0 \<and> now - lastLog c < redisLogInterval
      then (False, 0, c\<lparr>suppressed := suppressed c + 1\<rparr>)
      else (True, suppressed c, c\<lparr>lastLog := now, suppressed := 0\<rparr>))"

text \<open>\<open>up\<close> says whether the script answers within \<open>redisCheckTimeout\<close>; a failing call may or may
  not have run it.\<close>

datatype redisAnswer = RedisUp | RedisErrNotRun | RedisErrRun

definition redisAllow ::
  "'r incr \<Rightarrow> 'r pexpire \<Rightarrow> redisAnswer \<Rightarrow> int \<Rightarrow> string \<Rightarrow> redisChecker \<times> 'r
     \<Rightarrow> bool \<times> redisChecker \<times> 'r" where
  "redisAllow incr pexpire ans now ip s =
     (let (c, r) = s; (n, r1) = incrExpireScript incr pexpire now (keyBase c @ ip) (windowMS c) r in
      case ans of
        RedisUp \<Rightarrow> (n \<le> rcLimit c, c, r1)
      | RedisErrNotRun \<Rightarrow> (True, snd (snd (claimLog now c)), r)
      | RedisErrRun \<Rightarrow> (True, snd (snd (claimLog now c)), r1))"

section \<open>The middleware\<close>

record httpRequest =
  remoteAddr :: string
  xForwardedFor :: string

fun splitOn :: "char \<Rightarrow> string \<Rightarrow> string list" where
  "splitOn sep [] = [[]]"
| "splitOn sep (c # s) =
     (if c = sep then [] # splitOn sep s
      else case splitOn sep s of [] \<Rightarrow> [[c]] | p # ps \<Rightarrow> (c # p) # ps)"

definition ClientIP ::
  "(string \<Rightarrow> string option) \<Rightarrow> (string \<Rightarrow> bool) \<Rightarrow> (string \<Rightarrow> string) \<Rightarrow> httpRequest \<Rightarrow> int \<Rightarrow> string" where
  "ClientIP splitHostPort isPrivate trimSpace r trustedProxies =
     (let remoteHost = (case splitHostPort (remoteAddr r) of None \<Rightarrow> remoteAddr r | Some h \<Rightarrow> h) in
      if trustedProxies \<le> 0 \<or> \<not> isPrivate remoteHost then remoteHost
      else if xForwardedFor r = [] then remoteHost
      else
        let parts = splitOn (CHR '','') (xForwardedFor r);
            idx = int (length parts) - trustedProxies;
            idx = (if idx < 0 then int (length parts) - 1 else idx)
        in trimSpace (parts ! nat idx))"

text \<open>The calls of a request: the rejection metric, the 429 answer, or the guarded handler.\<close>

datatype httpOut = OnReject string | TooManyRequests | ServeNext

definition Middleware ::
  "(string \<Rightarrow> 's \<Rightarrow> bool \<times> 's) \<Rightarrow> string \<Rightarrow> bool \<Rightarrow> string \<Rightarrow> 's \<Rightarrow> httpOut list \<times> 's" where
  "Middleware allow name onReject ip s =
     (let (ok, s) = allow ip s in
      if \<not> ok then ((if onReject then [OnReject name] else []) @ [TooManyRequests], s)
      else ([ServeNext], s))"

section \<open>The contract of a backend\<close>

text \<open>
  What the middleware relies on, for either backend: a fixed window per address.  \<open>win u s ip\<close>
  is the window of \<open>ip\<close> that is live at time \<open>u\<close>, its start and the requests it has passed;
  \<open>good t s\<close> is the backend's own invariant at time \<open>t\<close>.
\<close>

locale rate_checker =
  fixes allow :: "int \<Rightarrow> string \<Rightarrow> 's \<Rightarrow> bool \<times> 's"
    and win :: "int \<Rightarrow> 's \<Rightarrow> string \<Rightarrow> (int \<times> int) option"
    and good :: "int \<Rightarrow> 's \<Rightarrow> bool"
    and limit :: int and window :: int
  assumes window_pos: "0 < window"
    and decision: "good t s \<Longrightarrow> t \<le> now \<Longrightarrow>
      fst (allow now ip s) = (case win now s ip of None \<Rightarrow> True | Some (st, n) \<Rightarrow> n < limit)"
    and own: "good t s \<Longrightarrow> t \<le> now \<Longrightarrow> win now (snd (allow now ip s)) ip =
      Some (case win now s ip of None \<Rightarrow> (now, 1) | Some (st, n) \<Rightarrow> (st, min limit (n + 1)))"
    and other: "good t s \<Longrightarrow> t \<le> now \<Longrightarrow> ip' \<noteq> ip \<Longrightarrow> win now (snd (allow now ip s)) ip' = win now s ip'"
    and aging: "good t s \<Longrightarrow> t \<le> u \<Longrightarrow> win u s ip = (case win t s ip of None \<Rightarrow> None
      | Some (st, n) \<Rightarrow> if u - st < window then Some (st, n) else None)"
    and keeps: "good t s \<Longrightarrow> t \<le> now \<Longrightarrow> good now (snd (allow now ip s))"

text \<open>The abstract limiter: a map from addresses to windows.\<close>

type_synonym windows = "string \<Rightarrow> (int \<times> int) option"

definition liveAt :: "int \<Rightarrow> int \<Rightarrow> (int \<times> int) option \<Rightarrow> (int \<times> int) option" where
  "liveAt window u w = (case w of None \<Rightarrow> None
     | Some (st, n) \<Rightarrow> if u - st < window then Some (st, n) else None)"

definition fixedWindow :: "int \<Rightarrow> int \<Rightarrow> int \<Rightarrow> string \<Rightarrow> windows \<Rightarrow> bool \<times> windows" where
  "fixedWindow limit window now ip W =
     (case liveAt window now (W ip) of
        None \<Rightarrow> (True, W(ip \<mapsto> (now, 1)))
      | Some (st, n) \<Rightarrow> (n < limit, W(ip \<mapsto> (st, min limit (n + 1)))))"

text \<open>The answers to a sequence of requests, each a time and an address.\<close>

primrec decisions :: "(int \<Rightarrow> string \<Rightarrow> 's \<Rightarrow> bool \<times> 's) \<Rightarrow> (int \<times> string) list \<Rightarrow> 's \<Rightarrow> bool list" where
  "decisions allow [] s = []"
| "decisions allow (q # qs) s =
     (case allow (fst q) (snd q) s of (ok, s) \<Rightarrow> ok # decisions allow qs s)"

fun timesFrom :: "int \<Rightarrow> (int \<times> string) list \<Rightarrow> bool" where
  "timesFrom t [] = True"
| "timesFrom t (q # qs) = (t \<le> fst q \<and> timesFrom (fst q) qs)"

context rate_checker begin

lemma refines:
  assumes "good t s" "\<And>ip. win t s ip = liveAt window t (W ip)" "timesFrom t qs"
  shows "decisions allow qs s = decisions (fixedWindow limit window) qs W"
  using assms
proof (induction qs arbitrary: s W t)
  case (Cons q qs)
  obtain now ip where q: "q = (now, ip)" by fastforce
  have t: "t \<le> now" "timesFrom now qs" using Cons.prems(3) by (simp_all add: q)
  have w: "win now s i = liveAt window now (W i)" for i
    using aging [OF Cons.prems(1) t(1), of i] Cons.prems(2) [of i] t(1)
    by (auto simp: liveAt_def split: option.splits if_splits)
  let ?s = "snd (allow now ip s)" and ?W = "snd (fixedWindow limit window now ip W)"
  have "win now ?s i = liveAt window now (?W i)" for i
  proof (cases "i = ip")
    case True
    have "now - (case win now s ip of None \<Rightarrow> now | Some (st, n) \<Rightarrow> st) < window \<or> win now s ip = None"
      using w [of ip] by (auto simp: liveAt_def split: option.splits if_splits)
    then show ?thesis
      using own [OF Cons.prems(1) t(1), of ip] w [of ip] window_pos
      by (auto simp: True fixedWindow_def liveAt_def split: option.splits if_splits)
  next
    case False
    then show ?thesis using other [OF Cons.prems(1) t(1) False] w
      by (auto simp: fixedWindow_def split: option.splits prod.splits)
  qed
  from Cons.IH [OF keeps [OF Cons.prems(1) t(1)] this t(2)]
  have rest: "decisions allow qs ?s = decisions (fixedWindow limit window) qs ?W" .
  have "fst (allow now ip s) = fst (fixedWindow limit window now ip W)"
    using decision [OF Cons.prems(1) t(1), of ip] w [of ip]
    by (simp add: fixedWindow_def split: option.splits prod.splits)
  then show ?case using rest by (simp add: q split_beta)
qed simp

end

section \<open>The in-memory backend meets it\<close>

definition memWin :: "int \<Rightarrow> memoryChecker \<Rightarrow> string \<Rightarrow> (int \<times> int) option" where
  "memWin u c ip = (case map_of (buckets c) ip of None \<Rightarrow> None
     | Some b \<Rightarrow> if u - lastReset b < mcWindow c then Some (lastReset b, mcLimit c - tokens b) else None)"

definition memGood :: "int \<Rightarrow> int \<Rightarrow> int \<Rightarrow> memoryChecker \<Rightarrow> bool" where
  "memGood limit window t c \<longleftrightarrow> mcLimit c = limit \<and> mcWindow c = window \<and> mwf (buckets c)
     \<and> (\<forall>ip b. map_of (buckets c) ip = Some b \<longrightarrow> 0 \<le> tokens b \<and> tokens b < limit \<and> lastReset b \<le> t)"

definition swept :: "int \<Rightarrow> memoryChecker \<Rightarrow> memoryChecker" where
  "swept now c = (if now - lastEvict c \<ge> evictInterval
                  then (evictExpiredLocked now c)\<lparr>lastEvict := now\<rparr> else c)"

lemma map_of_filter_val:
  "mwf m \<Longrightarrow> map_of (filter (\<lambda>p. P (snd p)) m) k
     = (case map_of m k of None \<Rightarrow> None | Some v \<Rightarrow> if P v then Some v else None)"
  by (induction m) (auto simp: mwf_def image_iff split: option.splits dest: map_of_SomeD)

lemma swept_sel:
  "mcLimit (swept now c) = mcLimit c" "mcWindow (swept now c) = mcWindow c"
  "mwf (buckets c) \<Longrightarrow> mwf (buckets (swept now c))"
  by (simp_all add: swept_def evictExpiredLocked_def)

lemma swept_map_of:
  assumes "mwf (buckets c)"
  shows "map_of (buckets (swept now c)) ip = map_of (buckets c) ip
    \<or> map_of (buckets (swept now c)) ip = None \<and> memWin now c ip = None"
  using map_of_filter_val [OF assms, of "\<lambda>b. \<not> mcWindow c \<le> now - lastReset b" ip]
  by (auto simp: swept_def evictExpiredLocked_def memWin_def split: option.splits)

lemma swept_win: "mwf (buckets c) \<Longrightarrow> memWin now (swept now c) ip = memWin now c ip"
  using swept_map_of [of c now ip] by (auto simp: memWin_def swept_sel split: option.splits)

lemma swept_good: "memGood limit window t c \<Longrightarrow> memGood limit window t (swept now c)"
  using swept_map_of [of c now] unfolding memGood_def by (metis option.distinct(1) swept_sel)

lemma memAllow_swept:
  "memAllow now ip c =
     (case memWin now (swept now c) ip of
        None \<Rightarrow> (True, swept now c\<lparr>buckets := mput ip \<lparr>tokens = mcLimit c - 1, lastReset = now\<rparr>
                    (buckets (swept now c))\<rparr>)
      | Some (st, n) \<Rightarrow>
          (case map_of (buckets (swept now c)) ip of None \<Rightarrow> undefined
           | Some b \<Rightarrow> if tokens b \<le> 0 then (False, swept now c)
              else (True, swept now c\<lparr>buckets := mput ip (b\<lparr>tokens := tokens b - 1\<rparr>)
                     (buckets (swept now c))\<rparr>)))"
  by (auto simp: memAllow_def swept_def [symmetric] Let_def memWin_def swept_sel split: option.splits)

lemma memWin_put:
  "memWin u (c\<lparr>buckets := mput ip b (buckets c)\<rparr>) ip' =
     (if ip' = ip then (if u - lastReset b < mcWindow c then Some (lastReset b, mcLimit c - tokens b) else None)
      else memWin u c ip')"
  by (simp add: memWin_def split: option.splits)

lemma memGood_put:
  assumes "memGood limit window t c" "0 \<le> tokens b" "tokens b < limit" "lastReset b \<le> t"
  shows "memGood limit window t (c\<lparr>buckets := mput ip b (buckets c)\<rparr>)"
  using assms by (auto simp: memGood_def)

lemma memGood_mono: "memGood limit window t c \<Longrightarrow> t \<le> u \<Longrightarrow> memGood limit window u c"
  unfolding memGood_def by (meson order_trans)

lemma memAllow_checker:
  assumes "1 \<le> limit" "0 < window"
  shows "rate_checker memAllow memWin (memGood limit window) limit window"
proof
  show "0 < window" by (rule assms(2))
next
  fix t s now ip assume g: "memGood limit window t s" "t \<le> now"
  let ?s = "swept now s"
  have gs: "memGood limit window now ?s" using memGood_mono [OF swept_good [OF g(1)] g(2)] .
  have wf: "mwf (buckets s)" "mcLimit s = limit" "mcWindow s = window" using g(1) by (simp_all add: memGood_def)
  have w: "memWin now ?s i = memWin now s i" for i by (rule swept_win [OF wf(1)])
  have b: "0 \<le> tokens b \<and> tokens b < limit \<and> lastReset b \<le> now"
    if "map_of (buckets ?s) ip = Some b" for b using gs that by (auto simp: memGood_def)
  have res: "fst (memAllow now ip s) = (case memWin now s ip of None \<Rightarrow> True | Some (st, n) \<Rightarrow> n < limit)
    \<and> memWin now (snd (memAllow now ip s)) ip =
        Some (case memWin now s ip of None \<Rightarrow> (now, 1) | Some (st, n) \<Rightarrow> (st, min limit (n + 1)))
    \<and> memGood limit window now (snd (memAllow now ip s))
    \<and> (ip' \<noteq> ip \<longrightarrow> memWin now (snd (memAllow now ip s)) ip' = memWin now s ip')" for ip'
  proof (cases "memWin now ?s ip")
    case None
    then show ?thesis using assms wf(2,3) gs
      by (simp add: memAllow_swept w [symmetric] memWin_put swept_sel memGood_put)
  next
    case (Some p)
    then obtain bk where bk: "map_of (buckets ?s) ip = Some bk" "p = (lastReset bk, limit - tokens bk)"
        "now - lastReset bk < window"
      by (auto simp: memWin_def swept_sel wf split: option.splits if_splits)
    show ?thesis
    proof (cases "tokens bk \<le> 0")
      case True
      then have "tokens bk = 0" using b [OF bk(1)] by simp
      then show ?thesis using Some bk gs w [of ip'] by (simp add: memAllow_swept w [symmetric])
    next
      case False
      then show ?thesis using Some bk gs b [OF bk(1)] wf
        by (simp add: memAllow_swept w [symmetric] memWin_put swept_sel memGood_put)
    qed
  qed
  show "fst (memAllow now ip s) = (case memWin now s ip of None \<Rightarrow> True | Some (st, n) \<Rightarrow> n < limit)"
    "memWin now (snd (memAllow now ip s)) ip =
        Some (case memWin now s ip of None \<Rightarrow> (now, 1) | Some (st, n) \<Rightarrow> (st, min limit (n + 1)))"
    "memGood limit window now (snd (memAllow now ip s))" using res by blast+
  show "memWin now (snd (memAllow now ip s)) ip' = memWin now s ip'" if "ip' \<noteq> ip" for ip'
    using res that by blast
next
  fix t u s ip assume "memGood limit window t s" "t \<le> u"
  then show "memWin u s ip = (case memWin t s ip of None \<Rightarrow> None
      | Some (st, n) \<Rightarrow> if u - st < window then Some (st, n) else None)"
    by (auto simp: memWin_def memGood_def split: option.splits)
qed

section \<open>The Redis backend meets it\<close>

text \<open>
  The documented behaviour of the two commands: a key has a value and perhaps a time at which
  it expires, \<open>INCR\<close> adds one to the value and keeps the expiry, and starts at one without
  expiry on a missing key, \<open>PEXPIRE\<close> sets the expiry of a key that exists, and neither
  touches another key.  \<open>look u k r\<close> is what a reader sees at time \<open>u\<close>.
\<close>

type_synonym 'r look = "int \<Rightarrow> string \<Rightarrow> 'r \<Rightarrow> (int \<times> int option) option"

definition redis_ok :: "'r incr \<Rightarrow> 'r pexpire \<Rightarrow> 'r look \<Rightarrow> bool" where
  "redis_ok incr pexpire look \<longleftrightarrow>
     (\<forall>now u k k' m r. now \<le> u \<longrightarrow>
        look u k r = (case look now k r of None \<Rightarrow> None
          | Some (n, d) \<Rightarrow> if d = None \<or> u < the d then Some (n, d) else None)
      \<and> (let (n, d) = (case look now k r of None \<Rightarrow> (1, None) | Some (n, d) \<Rightarrow> (n + 1, d))
         in fst (incr now k r) = n
            \<and> look u k (snd (incr now k r)) = (if d = None \<or> u < the d then Some (n, d) else None))
      \<and> (case look now k r of None \<Rightarrow> look u k (pexpire now k m r) = None
         | Some (n, d) \<Rightarrow> look u k (pexpire now k m r) = (if u < now + m then Some (n, Some (now + m)) else None))
      \<and> (k' \<noteq> k \<longrightarrow> look u k' (snd (incr now k r)) = look u k' r
                     \<and> look u k' (pexpire now k m r) = look u k' r))"

text \<open>A store that behaves so: a map with the expiry times, which are checked when a key is read.\<close>

type_synonym store = "(string \<times> int \<times> int option) list"

definition storeLook :: "store look" where
  "storeLook u k r = (case map_of r k of None \<Rightarrow> None
     | Some (n, d) \<Rightarrow> if d = None \<or> u < the d then Some (n, d) else None)"

definition storeIncr :: "store incr" where
  "storeIncr now k r = (case storeLook now k r of None \<Rightarrow> (1, mput k (1, None) r)
     | Some (n, d) \<Rightarrow> (n + 1, mput k (n + 1, d) r))"

definition storePexpire :: "store pexpire" where
  "storePexpire now k m r = (case storeLook now k r of None \<Rightarrow> r
     | Some (n, d) \<Rightarrow> mput k (n, Some (now + m)) r)"

lemma store_redis_ok: "redis_ok storeIncr storePexpire storeLook"
  unfolding redis_ok_def
  by (auto simp: storeIncr_def storePexpire_def storeLook_def Let_def split: option.splits if_splits)

lemma redis_okD:
  assumes "redis_ok incr pexpire look" "now \<le> u"
  shows "look u k r = (case look now k r of None \<Rightarrow> None
      | Some (n, d) \<Rightarrow> if d = None \<or> u < the d then Some (n, d) else None)"
    and "look now k r = None \<Longrightarrow> fst (incr now k r) = 1 \<and> look u k (snd (incr now k r)) = Some (1, None)"
    and "look now k r = Some (n, d) \<Longrightarrow> fst (incr now k r) = n + 1
      \<and> look u k (snd (incr now k r)) = (if d = None \<or> u < the d then Some (n + 1, d) else None)"
    and "look now k r = Some (n, d) \<Longrightarrow>
      look u k (pexpire now k m r) = (if u < now + m then Some (n, Some (now + m)) else None)"
    and "k' \<noteq> k \<Longrightarrow> look u k' (snd (incr now k r)) = look u k' r"
    and "k' \<noteq> k \<Longrightarrow> look u k' (pexpire now k m r) = look u k' r"
proof -
  note A = assms(1) [unfolded redis_ok_def, rule_format, OF assms(2)]
  show "look u k r = (case look now k r of None \<Rightarrow> None
      | Some (n, d) \<Rightarrow> if d = None \<or> u < the d then Some (n, d) else None)" using A by blast
  show "look now k r = None \<Longrightarrow> fst (incr now k r) = 1 \<and> look u k (snd (incr now k r)) = Some (1, None)"
    using A [of k r] by simp
  show "look now k r = Some (n, d) \<Longrightarrow> fst (incr now k r) = n + 1
      \<and> look u k (snd (incr now k r)) = (if d = None \<or> u < the d then Some (n + 1, d) else None)"
    using A [of k r] by (simp add: Let_def)
  show "look now k r = Some (n, d) \<Longrightarrow>
      look u k (pexpire now k m r) = (if u < now + m then Some (n, Some (now + m)) else None)"
    using A [of k r m] by simp
  show "k' \<noteq> k \<Longrightarrow> look u k' (snd (incr now k r)) = look u k' r"
    "k' \<noteq> k \<Longrightarrow> look u k' (pexpire now k m r) = look u k' r"
    using A by blast+
qed

text \<open>One run of the script, as a reader sees it afterwards.\<close>

lemma script_effect:
  assumes ok: "redis_ok incr pexpire look" and u: "now \<le> u" and m: "0 < m"
  shows "look now k r = None \<Longrightarrow> fst (incrExpireScript incr pexpire now k m r) = 1
      \<and> look u k (snd (incrExpireScript incr pexpire now k m r))
          = (if u < now + m then Some (1, Some (now + m)) else None)"
    and "look now k r = Some (n, d) \<Longrightarrow> 1 \<le> n \<Longrightarrow> fst (incrExpireScript incr pexpire now k m r) = n + 1
      \<and> look u k (snd (incrExpireScript incr pexpire now k m r))
          = (if d = None \<or> u < the d then Some (n + 1, d) else None)"
    and "k' \<noteq> k \<Longrightarrow> look u k' (snd (incrExpireScript incr pexpire now k m r)) = look u k' r"
proof -
  assume n: "look now k r = None"
  note I = redis_okD(2) [OF ok order_refl n]
  show "fst (incrExpireScript incr pexpire now k m r) = 1
      \<and> look u k (snd (incrExpireScript incr pexpire now k m r))
          = (if u < now + m then Some (1, Some (now + m)) else None)"
    using I redis_okD(4) [OF ok u, of k "snd (incr now k r)" 1 None m]
    by (simp add: incrExpireScript_def split_beta)
next
  assume n: "look now k r = Some (n, d)" "1 \<le> n"
  show "fst (incrExpireScript incr pexpire now k m r) = n + 1
      \<and> look u k (snd (incrExpireScript incr pexpire now k m r))
          = (if d = None \<or> u < the d then Some (n + 1, d) else None)"
    using redis_okD(3) [OF ok u n(1)] n(2) by (simp add: incrExpireScript_def split_beta)
next
  assume "k' \<noteq> k"
  then show "look u k' (snd (incrExpireScript incr pexpire now k m r)) = look u k' r"
    using redis_okD(5,6) [OF ok u] by (simp add: incrExpireScript_def split_beta)
qed

definition redWin :: "'r look \<Rightarrow> int \<Rightarrow> redisChecker \<times> 'r \<Rightarrow> string \<Rightarrow> (int \<times> int) option" where
  "redWin look u s ip = (case look u (keyBase (fst s) @ ip) (snd s) of None \<Rightarrow> None
     | Some (n, d) \<Rightarrow> Some (the d - windowMS (fst s), min (rcLimit (fst s)) n))"

definition redGood :: "'r look \<Rightarrow> int \<Rightarrow> int \<Rightarrow> int \<Rightarrow> redisChecker \<times> 'r \<Rightarrow> bool" where
  "redGood look limit window t s \<longleftrightarrow> rcLimit (fst s) = limit \<and> windowMS (fst s) = window
     \<and> (\<forall>ip n d. look t (keyBase (fst s) @ ip) (snd s) = Some (n, d) \<longrightarrow> 1 \<le> n \<and> d \<noteq> None)"

lemma redisAllow_up:
  "redisAllow incr pexpire RedisUp now ip s =
     (fst (incrExpireScript incr pexpire now (keyBase (fst s) @ ip) (windowMS (fst s)) (snd s)) \<le> rcLimit (fst s),
      fst s, snd (incrExpireScript incr pexpire now (keyBase (fst s) @ ip) (windowMS (fst s)) (snd s)))"
  by (simp add: redisAllow_def Let_def split_beta)

lemma redisAllow_checker:
  assumes ok: "redis_ok incr pexpire look" and l: "1 \<le> limit" and w: "0 < window"
  shows "rate_checker (redisAllow incr pexpire RedisUp) (redWin look) (redGood look limit window) limit window"
proof
  show "0 < window" by (rule w)
next
  fix t s now ip assume g: "redGood look limit window t s" "t \<le> now"
  obtain c r where s: "s = (c, r)" by fastforce
  have c: "rcLimit c = limit" "windowMS c = window" using g(1) by (simp_all add: redGood_def s)
  let ?k = "keyBase c @ ip"
  have live: "1 \<le> n \<and> d \<noteq> None" if "look now (keyBase c @ i) r = Some (n, d)" for i n d
    using g(1) redis_okD(1) [OF ok g(2), of "keyBase c @ i" r] that
    by (auto simp: redGood_def s split: option.splits if_splits)
  let ?r = "snd (incrExpireScript incr pexpire now ?k window r)"
  have sn: "snd (redisAllow incr pexpire RedisUp now ip s) = (c, ?r)" by (simp add: redisAllow_up s c)
  have oth: "look now (keyBase c @ i) ?r = look now (keyBase c @ i) r" if "i \<noteq> ip" for i
    by (rule script_effect(3) [OF ok order_refl w]) (use that in simp)
  note none = script_effect(1) [OF ok order_refl w, of _ ?k r]
  note some = script_effect(2) [OF ok order_refl w, of _ ?k r]
  have exp: "d = None \<or> now < the d" if "look now ?k r = Some (n, d)" for n d
    using redis_okD(1) [OF ok order_refl, of now ?k r] that by (auto split: if_splits)
  show "fst (redisAllow incr pexpire RedisUp now ip s)
      = (case redWin look now s ip of None \<Rightarrow> True | Some (st, n) \<Rightarrow> n < limit)"
    using none some live [of ip] l
    by (auto simp: redisAllow_up s c redWin_def split: option.splits)
  show "redWin look now (snd (redisAllow incr pexpire RedisUp now ip s)) ip =
      Some (case redWin look now s ip of None \<Rightarrow> (now, 1) | Some (st, n) \<Rightarrow> (st, min limit (n + 1)))"
    unfolding sn using none some live [of ip] exp l w
    by (cases "look now ?k r") (auto simp: s c redWin_def)
  show "redWin look now (snd (redisAllow incr pexpire RedisUp now ip s)) ip' = redWin look now s ip'"
    if "ip' \<noteq> ip" for ip'
    unfolding sn by (simp add: redWin_def s oth [OF that] split: option.splits)
  have "1 \<le> n \<and> d \<noteq> None" if "look now (keyBase c @ i) ?r = Some (n, d)" for i n d
  proof (cases "i = ip")
    case True
    then show ?thesis using none some live [of ip] exp w that
      by (cases "look now ?k r") (auto split: if_splits)
  next
    case False
    then show ?thesis using live [of i] that by (simp add: oth)
  qed
  then show "redGood look limit window now (snd (redisAllow incr pexpire RedisUp now ip s))"
    unfolding sn by (simp add: redGood_def c)
next
  fix t u s ip assume g: "redGood look limit window t s" "t \<le> u"
  obtain c r where s: "s = (c, r)" by fastforce
  show "redWin look u s ip = (case redWin look t s ip of None \<Rightarrow> None
      | Some (st, n) \<Rightarrow> if u - st < window then Some (st, n) else None)"
    using g(1) redis_okD(1) [OF ok g(2), of "keyBase c @ ip" r]
    by (auto simp: redGood_def redWin_def s split: option.splits)
qed

end
