(* ===== verification/RateLimit_Props.thy ===== *)
theory RateLimit_Props
  imports RateLimit
begin

text \<open>
  The limiters signald builds, \<open>web/handler.go\<close>, the contract of a backend interpreted on
  both, and what follows: the two backends take the same decisions, those of the abstract
  fixed window, and a window passes no more than its limit.
\<close>

definition wsRateLimit :: "int \<Rightarrow> int" where
  "wsRateLimit perMin = (if perMin > 0 then perMin else 30)"

definition limiterWindow :: int where
  "limiterWindow = 60 * 1000"

definition limiterLimits :: "int \<Rightarrow> (string \<times> int) list" where
  "limiterLimits perMin =
     [(''auth_magic'', 5), (''magic_verify'', 10), (''google_login'', 10), (''pairing'', 5),
      (''invite'', 5), (''ws'', wsRateLimit perMin)]"

lemma limiterLimits_pos: "(name, l) \<in> set (limiterLimits perMin) \<Longrightarrow> 1 \<le> l"
  by (auto simp: limiterLimits_def wsRateLimit_def)

text \<open>The contract on the model's two backends, at the limits of the sign-in limiter.\<close>

interpretation signin_mem: rate_checker memAllow memWin "memGood 5 limiterWindow" 5 limiterWindow
  by (rule memAllow_checker) (simp_all add: limiterWindow_def)

interpretation signin_redis: rate_checker "redisAllow storeIncr storePexpire RedisUp" "redWin storeLook"
    "redGood storeLook 5 limiterWindow" 5 limiterWindow
  by (rule redisAllow_checker [OF store_redis_ok]) (simp_all add: limiterWindow_def)

lemma mem_start:
  "memGood limit window t (newMemoryChecker limit window t)"
  "memWin t (newMemoryChecker limit window t) ip = liveAt window t None"
  by (simp_all add: memGood_def newMemoryChecker_def memWin_def liveAt_def)

lemma redis_start:
  assumes "\<And>k. look t k r = None"
  shows "redGood look limit window t (newRedisChecker name limit window, r)"
    and "redWin look t (newRedisChecker name limit window, r) ip = liveAt window t None"
  using assms by (simp_all add: redGood_def newRedisChecker_def redWin_def liveAt_def)

text \<open>
  C20: For every limit of at least one and every sequence of requests with a clock that does not
  run backwards, the in-memory backend and the Redis backend, while Redis answers, take the
  same decision on every request: that of one fixed window per address, which opens with the
  first request, passes \<open>limit\<close> requests and ends \<open>window\<close> later.  The sweep of stale buckets
  and the counter that keeps counting past the limit make no difference.
\<close>
theorem backends_agree:
  assumes "1 \<le> limit" and "0 < window" and "redis_ok incr pexpire look"
    and "\<And>k. look t k r = None" and "timesFrom t qs"
  shows "decisions memAllow qs (newMemoryChecker limit window t)
        = decisions (fixedWindow limit window) qs (\<lambda>_. None)
    \<and> decisions (redisAllow incr pexpire RedisUp) qs (newRedisChecker name limit window, r)
        = decisions (fixedWindow limit window) qs (\<lambda>_. None)"
  using rate_checker.refines [OF memAllow_checker [OF assms(1,2)] mem_start(1) mem_start(2) assms(5)]
    rate_checker.refines [OF redisAllow_checker [OF assms(3,1,2)] redis_start(1) redis_start(2) assms(5)]
    assms(4) by simp

theorem backends_agree_witness:
  "decisions memAllow [(0, ''a''), (10, ''a''), (20, ''b''), (60005, ''a'')] (newMemoryChecker 1 60000 0)
     = [True, False, True, True]
   \<and> decisions (redisAllow storeIncr storePexpire RedisUp)
       [(0, ''a''), (10, ''a''), (20, ''b''), (60005, ''a'')] (newRedisChecker ''ws'' 1 60000, [])
     = [True, False, True, True]"
proof -
  have n: "storeLook 0 k [] = None" for k by (simp add: storeLook_def)
  have "decisions (fixedWindow 1 60000) [(0, ''a''), (10, ''a''), (20, ''b''), (60005, ''a'')] (\<lambda>_. None)
      = [True, False, True, True]" by (simp add: fixedWindow_def liveAt_def)
  then show ?thesis
    using backends_agree [OF _ _ store_redis_ok n, of 1 60000
        "[(0, ''a''), (10, ''a''), (20, ''b''), (60005, ''a'')]" "''ws''"] by simp
qed

section \<open>At most the limit in a window\<close>

definition passed :: "string \<Rightarrow> (int \<times> string) list \<Rightarrow> bool list \<Rightarrow> nat" where
  "passed ip qs ds = length (filter (\<lambda>(q, d). snd q = ip \<and> d) (zip qs ds))"

definition asked :: "string \<Rightarrow> (int \<times> string) list \<Rightarrow> nat" where
  "asked ip qs = length (filter (\<lambda>q. snd q = ip) qs)"

lemma passed_Cons: "passed ip (q # qs) (d # ds) = (if snd q = ip \<and> d then 1 else 0) + passed ip qs ds"
  by (simp add: passed_def)

text \<open>A window that is live throughout, or none yet and any opening in time.\<close>

lemma fixedWindow_passes:
  assumes "1 \<le> limit" "timesFrom t qs" "list_all (\<lambda>q. fst q < t0 + window) qs" "t0 \<le> t"
    and "case W ip of None \<Rightarrow> n = 0 | Some (st, m) \<Rightarrow> t0 \<le> st \<and> m = min limit (int n) \<and> 0 < n"
  shows "int (passed ip qs (decisions (fixedWindow limit window) qs W))
    = min limit (int (n + asked ip qs)) - min limit (int n)"
  using assms(2-5)
proof (induction qs arbitrary: t W n)
  case (Cons q qs)
  obtain now i where q: "q = (now, i)" by fastforce
  have t: "t \<le> now" "timesFrom now qs" "now < t0 + window" "list_all (\<lambda>q. fst q < t0 + window) qs"
    using Cons.prems by (simp_all add: q)
  have t0: "t0 \<le> now" using t(1) Cons.prems(3) by simp
  let ?W = "snd (fixedWindow limit window now i W)"
  show ?case
  proof (cases "i = ip")
    case False
    then have "?W ip = W ip" by (simp add: fixedWindow_def split: option.splits prod.splits)
    then show ?thesis using Cons.IH [OF t(2) t(4) t0, where W = ?W and n = n] Cons.prems(4) False
      by (simp add: q split_beta passed_Cons asked_def)
  next
    case True
    have live: "liveAt window now (W ip) = W ip"
      using Cons.prems(4) t(3) by (auto simp: liveAt_def split: option.splits)
    have new: "case ?W ip of None \<Rightarrow> Suc n = 0 | Some (st, m) \<Rightarrow> t0 \<le> st \<and> m = min limit (int (Suc n)) \<and> 0 < Suc n"
      using Cons.prems(4) t0 assms(1) by (auto simp: True fixedWindow_def live split: option.splits)
    have dec: "fst (fixedWindow limit window now i W) \<longleftrightarrow> int n < limit"
      using Cons.prems(4) assms(1) by (auto simp: True fixedWindow_def live split: option.splits)
    show ?thesis using Cons.IH [OF t(2) t(4) t0, where W = ?W and n = "Suc n", OF new] dec
      by (simp add: q split_beta passed_Cons asked_def True)
  qed
qed (simp add: passed_def asked_def)



section \<open>Failure of Redis, and a difference\<close>

text \<open>With Redis failing every request passes, and the warning is throttled.\<close>

lemma redis_fails_open: "ans \<noteq> RedisUp \<Longrightarrow> fst (redisAllow incr pexpire ans now ip s)"
  by (cases ans) (simp_all add: redisAllow_def Let_def split_beta)

lemma log_throttled:
  assumes "fst (claimLog now c)" "now \<noteq> 0" "later - now < redisLogInterval"
  shows "\<not> fst (claimLog later (snd (snd (claimLog now c))))"
  using assms by (auto simp add: claimLog_def split: if_splits)

text \<open>
  The two backends differ for a limit below one: the in-memory one passes the first request of
  every window without looking at the limit, the Redis one none.
\<close>
theorem backends_differ_without_limit:
  "decisions memAllow [(0, ''a'')] (newMemoryChecker 0 60000 0) = [True]
   \<and> decisions (redisAllow storeIncr storePexpire RedisUp) [(0, ''a'')] (newRedisChecker ''ws'' 0 60000, [])
     = [False]"
  by code_simp

section \<open>The client address\<close>

lemma splitOn_ne: "splitOn sep s \<noteq> []"
  by (cases s) (simp_all split: list.splits)

lemma splitOn_append:
  "sep \<notin> set b \<Longrightarrow> splitOn sep (a @ sep # b) = splitOn sep a @ [b]"
proof (induction a)
  case Nil
  then have "splitOn sep b = [b]" by (induction b) auto
  then show ?case by simp
next
  case (Cons c a)
  show ?case
  proof (cases "c = sep")
    case True
    then show ?thesis using Cons by simp
  next
    case False
    obtain p ps where "splitOn sep a = p # ps" using splitOn_ne [of sep a] by (cases "splitOn sep a") auto
    then show ?thesis using Cons False by simp
  qed
qed



end
