(* ===== verification/Relay.thy ===== *)
theory Relay
  imports Hub_Ops Tracker
begin

text \<open>
  The relay of signald, \<open>server/internal/signaling/relay.go\<close> and \<open>conference.go\<close>, on top of the
  connection hub (theory \<open>Hub\<close>) and the call tracker (theory \<open>Tracker\<close>).

  One handler is one function on the relay's state and runs without interruption, except that
  the delivery of an ICE restart lets the hub move on between its attempts.  A \<open>World\<close> is what
  the outside answers while a handler runs: the encoder, the clock, the database, the
  authorizer, the line store, the TURN generator, fresh UUIDs.  \<open>rOut\<close> logs what the relay
  hands out (messages to lines and devices, counters, health samples); messages are besides
  delivered through the hub of the state.  \<open>rTracking\<close> is \<open>r.Tracker != nil\<close>.  Log lines, spans
  and the counter of candidate types are left out.
\<close>

section \<open>Data\<close>

definition TypeSDP :: string where "TypeSDP = ''sdp''"
definition TypeICE :: string where "TypeICE = ''ice''"
definition TypeICERestart :: string where "TypeICERestart = ''ice_restart''"
definition TypeAnswer :: string where "TypeAnswer = ''answer''"
definition TypeDTMF :: string where "TypeDTMF = ''dtmf''"
definition TypeRequestICE :: string where "TypeRequestICE = ''request-ice-servers''"
definition TypeICEServers :: string where "TypeICEServers = ''ice-servers''"
definition TypeDeviceInfo :: string where "TypeDeviceInfo = ''device_info''"
definition TypeUpdateStatus :: string where "TypeUpdateStatus = ''update_status''"
definition TypeRestart :: string where "TypeRestart = ''restart''"
definition TypeLinkHealth :: string where "TypeLinkHealth = ''link_health''"
definition TypeCallReturn :: string where "TypeCallReturn = ''call_return''"
definition TypeCallReturnResult :: string where "TypeCallReturnResult = ''call_return_result''"
definition TypeCallReturnRetry :: string where "TypeCallReturnRetry = ''call_return_retry''"
definition TypeCallReturnCancel :: string where "TypeCallReturnCancel = ''call_return_cancel''"
definition TypeCallReturnCancelled :: string where "TypeCallReturnCancelled = ''call_return_cancelled''"
definition TypeCallReturnRing :: string where "TypeCallReturnRing = ''call_return_ring''"
definition TypeExtensionPickup :: string where "TypeExtensionPickup = ''extension_pickup''"
definition TypeExtensionConnect :: string where "TypeExtensionConnect = ''extension_connect''"
definition TypeExtensionActive :: string where "TypeExtensionActive = ''extension_active''"
definition TypeConferenceMerge :: string where "TypeConferenceMerge = ''conference_merge''"
definition TypeConferenceConnect :: string where "TypeConferenceConnect = ''conference_connect''"
definition TypeConferenceMember :: string where "TypeConferenceMember = ''conference_member''"
definition TypeConferenceLeave :: string where "TypeConferenceLeave = ''conference_leave''"
definition TypeConferenceEnd :: string where "TypeConferenceEnd = ''conference_end''"
definition TypeConferenceRejected :: string where "TypeConferenceRejected = ''conference_rejected''"
definition UpdateStatusRebooting :: string where "UpdateStatusRebooting = ''rebooting''"
definition UpdateStatusSuccess :: string where "UpdateStatusSuccess = ''success''"
definition roleHost :: string where "roleHost = ''host''"
definition roleAdded :: string where "roleAdded = ''added''"

text \<open>Seconds, the unit of the tracker's clock.\<close>

definition callReturnExpiry :: int where "callReturnExpiry = 1800"
definition graceWindow :: int where "graceWindow = 20"
definition iceRestartDeliveryTimeout :: int where "iceRestartDeliveryTimeout = 2000"  \<comment> \<open>ms\<close>
definition hangupReasonPeerOffline :: string where "hangupReasonPeerOffline = ''peer_offline''"
definition hangupReasonMaxLen :: nat where "hangupReasonMaxLen = 32"
definition googleSTUN :: string where "googleSTUN = ''stun:stun.l.google.com:19302''"

record ActiveExtension =
  exHardwareID :: string
  exLineNumber :: string
  exPeerNumber :: string

record PendingCallReturn =
  prTarget :: string
  prExpiresAt :: int

text \<open>
  A grace timer: what its callback captured, the time it is due, its cancel flag, and whether
  the runtime has run it (\<open>time.AfterFunc\<close> runs a callback once).
\<close>

record GraceEntry =
  geNumber :: string
  geHardwareID :: string
  gePeer :: string
  geDue :: int
  geCanceled :: bool
  geFired :: bool

record Sample =
  saTS :: int
  saLossPct :: "32 word option"
  saJitterMs :: "32 word option"
  saRttMs :: "32 word option"
  saConnType :: string
  saBytesIn :: "int option"
  saBytesOut :: "int option"

datatype relayOut =
    ToLine string Message
  | ToHardware string Message
  | SignalingError string
  | ICEServersIssued bool
  | HealthRecord int string Sample
  | HealthRecordEdge uuid string string Sample

datatype dbCall =
    DbInitiated | DbAnswered | DbEnded nat | DbCleared | DbCreateConf | DbEndConf | DbDropMember
  | DbLastInbound

record World =
  wMarshal :: "Message \<Rightarrow> string option"
  wPrivate :: "string \<Rightarrow> bool"
  wNow :: int
  wDB :: "dbCall \<Rightarrow> bool"
  wCanCall :: "(string \<Rightarrow> string \<Rightarrow> bool option) option"
  wLineSettings :: "(string \<Rightarrow> LineSettings option option) option"
  wTURNGen :: "(string \<Rightarrow> string \<times> string) option"
  wTURNDomain :: string
  wHealthStore :: bool
  wMetrics :: bool
  wNewUUID :: uuid
  wParseUUID :: "string \<Rightarrow> uuid option"
  wShowUUID :: "uuid \<Rightarrow> string"
  wSched :: "(int \<times> hubMove list) list"

record Relay =
  rHub :: Hub
  rTracking :: bool
  rTr :: Tracker
  rGraceWindow :: int
  extensions :: "(string \<times> ActiveExtension) list"
  pendingReturns :: "(string \<times> PendingCallReturn) list"
  graceTimers :: "(string \<times> nat) list"
  rEntries :: "GraceEntry list"
  rOut :: "relayOut list"
  rPanic :: bool

definition graceKey :: "string \<Rightarrow> string \<Rightarrow> string" where
  "graceKey number hw = number @ [CHR 0x00] @ hw"

definition NewRelay :: "Hub \<Rightarrow> bool \<Rightarrow> Tracker \<Rightarrow> Relay" where
  "NewRelay h tracking t =
     \<lparr>rHub = h, rTracking = tracking, rTr = t, rGraceWindow = graceWindow, extensions = [],
      pendingReturns = [], graceTimers = [], rEntries = [], rOut = [], rPanic = False\<rparr>"

section \<open>Handing out\<close>

definition relayEmit :: "relayOut list \<Rightarrow> Relay \<Rightarrow> Relay" where
  "relayEmit es r = r\<lparr>rOut := rOut r @ es\<rparr>"

definition observeError :: "World \<Rightarrow> string \<Rightarrow> Relay \<Rightarrow> Relay" where
  "observeError w cat r = (if wMetrics w then relayEmit [SignalingError cat] r else r)"

definition sendResult :: "World \<Rightarrow> string \<Rightarrow> Message \<Rightarrow> Relay \<Rightarrow> hubError option \<times> Relay" where
  "sendResult w number msg r =
     (let (e, h) = SendTo (wMarshal w) number msg (rHub r)
      in (e, relayEmit [ToLine number msg] (r\<lparr>rHub := h\<rparr>)))"

definition sendLine :: "World \<Rightarrow> string \<Rightarrow> Message \<Rightarrow> Relay \<Rightarrow> Relay" where
  "sendLine w number msg r = snd (sendResult w number msg r)"

definition sendHardware :: "World \<Rightarrow> string \<Rightarrow> Message \<Rightarrow> Relay \<Rightarrow> Relay" where
  "sendHardware w hw msg r =
     relayEmit [ToHardware hw msg] (r\<lparr>rHub := snd (SendToHardware (wMarshal w) hw msg (rHub r))\<rparr>)"

definition forward :: "World \<Rightarrow> Message \<Rightarrow> Relay \<Rightarrow> Relay" where
  "forward w msg r =
     (let (e, r) = sendResult w (mTo msg) msg r
      in if e \<noteq> None then observeError w ''relay_delivery'' r else r)"

definition sendError :: "World \<Rightarrow> string \<Rightarrow> string \<Rightarrow> Relay \<Rightarrow> Relay" where
  "sendError w number text r =
     sendLine w number (zeroMessage\<lparr>mType := TypeError, mError := text\<rparr>) r"

definition sendBusy :: "World \<Rightarrow> string \<Rightarrow> string \<Rightarrow> Relay \<Rightarrow> Relay" where
  "sendBusy w number busy r =
     sendLine w number (zeroMessage\<lparr>mType := TypeBusy, mFrom := busy\<rparr>) r"

section \<open>Call return\<close>

definition checkPendingReturn :: "World \<Rightarrow> string \<Rightarrow> Relay \<Rightarrow> Relay" where
  "checkPendingReturn w requester r =
     (case map_of (pendingReturns r) requester of None \<Rightarrow> r
      | Some p \<Rightarrow>
          if wNow w > prExpiresAt p then r\<lparr>pendingReturns := mdel requester (pendingReturns r)\<rparr>
          else if rTracking r \<and> \<not> Busy (prTarget p) (rTr r) \<and> \<not> Busy requester (rTr r)
                  \<and> IsOnline requester (rHub r) \<and> IsOnline (prTarget p) (rHub r)
          then sendLine w requester
                 (zeroMessage\<lparr>mType := TypeCallReturnRing, mNumber := prTarget p\<rparr>)
                 (r\<lparr>pendingReturns := mdel requester (pendingReturns r)\<rparr>)
          else r)"

definition returnConcerns :: "string \<Rightarrow> string \<Rightarrow> string \<times> PendingCallReturn \<Rightarrow> bool" where
  "returnConcerns caller callee q \<longleftrightarrow>
     prTarget (snd q) = caller \<or> prTarget (snd q) = callee \<or> fst q = caller \<or> fst q = callee"

definition OnCallEndedNotify :: "World \<Rightarrow> string \<Rightarrow> string \<Rightarrow> Relay \<Rightarrow> Relay" where
  "OnCallEndedNotify w caller callee r =
     (let live = filter (\<lambda>q. \<not> wNow w > prExpiresAt (snd q)) (pendingReturns r);
          toCheck = map fst (filter (returnConcerns caller callee) live);
          r = fold (checkPendingReturn w) toCheck (r\<lparr>pendingReturns := live\<rparr>)
      in if callee = [] then r\<lparr>pendingReturns := mdel caller (pendingReturns r)\<rparr> else r)"

text \<open>An operation of the tracker that may end a call calls the observer before it returns.\<close>

fun observeTracker :: "World \<Rightarrow> trOut list \<Rightarrow> Relay \<Rightarrow> Relay" where
  "observeTracker w [] r = r"
| "observeTracker w (ObsCallEnded a b # es) r = observeTracker w es (OnCallEndedNotify w a b r)"
| "observeTracker w (_ # es) r = observeTracker w es r"

definition observed :: "World \<Rightarrow> Tracker \<Rightarrow> Relay \<Rightarrow> Relay" where
  "observed w t r = observeTracker w (drop (length (trOuts (rTr r))) (trOuts t)) (r\<lparr>rTr := t\<rparr>)"

definition handleCallReturn :: "World \<Rightarrow> string \<Rightarrow> Relay \<Rightarrow> Relay" where
  "handleCallReturn w from r =
     sendLine w from (zeroMessage\<lparr>mType := TypeCallReturnResult,
       mNumber := (if rTracking r \<and> wDB w DbLastInbound then LastInboundCaller from (rTr r) else [])\<rparr>) r"

definition handleCallReturnRetry :: "World \<Rightarrow> string \<Rightarrow> Message \<Rightarrow> Relay \<Rightarrow> Relay" where
  "handleCallReturnRetry w from msg r =
     (if mNumber msg = [] then r
      else checkPendingReturn w from
             (r\<lparr>pendingReturns := mput from \<lparr>prTarget = mNumber msg, prExpiresAt = wNow w + callReturnExpiry\<rparr>
                  (pendingReturns r)\<rparr>))"

definition handleCallReturnCancel :: "World \<Rightarrow> string \<Rightarrow> Relay \<Rightarrow> Relay" where
  "handleCallReturnCancel w from r =
     sendLine w from (zeroMessage\<lparr>mType := TypeCallReturnCancelled\<rparr>)
       (r\<lparr>pendingReturns := mdel from (pendingReturns r)\<rparr>)"

section \<open>Calls\<close>

definition handleCall :: "World \<Rightarrow> string \<Rightarrow> Message \<Rightarrow> Relay \<Rightarrow> Relay" where
  "handleCall w from msg r =
     (let to = mTo msg in
      if \<not> IsOnline to (rHub r) then
        (if rTracking r \<and> Busy to (rTr r) then sendBusy w from to r
         else sendError w from ''phone not connected'' r)
      else if (case wCanCall w of None \<Rightarrow> False | Some f \<Rightarrow> f from to \<noteq> Some True) then
        sendError w from ''not_authorized'' (observeError w ''auth_failed'' r)
      else if rTracking r \<and> Busy to (rTr r) then sendBusy w from to r
      else if rTracking r \<and> Busy from (rTr r) \<and> \<not> CanAddAsHost from (rTr r) then sendBusy w from to r
      else
        let r = (if rTracking r then
                   (case OnCallInitiated (wDB w DbInitiated) (wNow w) from to (rTr r) of
                      (Inl e, t) \<Rightarrow> observeError w ''call_setup_failed'' (r\<lparr>rTr := t\<rparr>)
                    | (Inr cid, t) \<Rightarrow> r\<lparr>rTr := t\<rparr>)
                 else r)
        in sendLine w to (zeroMessage\<lparr>mType := TypeRing, mFrom := from\<rparr>) r)"

definition inCallOrConference :: "string \<Rightarrow> string \<Rightarrow> Relay \<Rightarrow> bool" where
  "inCallOrConference from to r =
     (if \<not> rTracking r then True
      else if InCall from to (rTr r) then True
      else case ConferenceByPhone from (trConfs (rTr r)) of
             Some conf \<Rightarrow> ConferenceContains (confId conf) from to (trConfs (rTr r))
           | None \<Rightarrow> False)"

definition rejectNoDest :: "World \<Rightarrow> Message \<Rightarrow> Relay \<Rightarrow> bool \<times> Relay" where
  "rejectNoDest w msg r =
     (if mTo msg \<noteq> [] then (False, r) else (True, observeError w ''invalid_message'' r))"

definition handleDTMF :: "World \<Rightarrow> string \<Rightarrow> Message \<Rightarrow> Relay \<Rightarrow> Relay" where
  "handleDTMF w from msg r =
     (let (stop, r) = rejectNoDest w msg r
      in if stop then r else if \<not> inCallOrConference from (mTo msg) r then r else forward w msg r)"

text \<open>If the attempts of the schedule run out the handler is still waiting.\<close>

definition handleICERestart :: "World \<Rightarrow> string \<Rightarrow> Message \<Rightarrow> Relay \<Rightarrow> Relay" where
  "handleICERestart w from msg r =
     (let (stop, r) = rejectNoDest w msg r
      in if stop then r
         else if \<not> inCallOrConference from (mTo msg) r then sendError w from ''no active call'' r
         else
           let (res, h) = SendToWithTimeout (wMarshal w) (wPrivate w) (mTo msg) msg
                            iceRestartDeliveryTimeout (1000 * wNow w) (wSched w) (rHub r);
               r = relayEmit [ToLine (mTo msg) msg] (r\<lparr>rHub := h\<rparr>)
           in case res of
                Some (Some e, _) \<Rightarrow> observeError w ''relay_delivery'' r
              | _ \<Rightarrow> r)"

text \<open>The other devices of a line.\<close>

definition siblingDevices :: "string \<Rightarrow> string \<Rightarrow> Relay \<Rightarrow> string list" where
  "siblingDevices number hw r =
     filter (\<lambda>h. h \<noteq> hw) (map (\<lambda>c. coHardwareID (hstore (rHub r) c)) (GetAll number (rHub r)))"

definition handleAnswer :: "World \<Rightarrow> string \<Rightarrow> Message \<Rightarrow> Relay \<Rightarrow> Relay" where
  "handleAnswer w from msg r =
     (let (stop, r) = rejectNoDest w msg r
      in if stop then r
         else if \<not> inCallOrConference from (mTo msg) r then r
         else
           let r = (if mHardwareID msg \<noteq> []
                    then fold (\<lambda>hw. sendHardware w hw (zeroMessage\<lparr>mType := TypeHangup, mFrom := mTo msg\<rparr>))
                           (siblingDevices from (mHardwareID msg) r) r
                    else r);
               r = (if rTracking r
                    then r\<lparr>rTr := snd (OnCallAnswered (wDB w DbAnswered) (wNow w) (mTo msg) from (rTr r))\<rparr>
                    else r)
           in forward w msg r)"

section \<open>Extensions\<close>

definition clearExtension :: "World \<Rightarrow> string \<Rightarrow> Relay \<Rightarrow> Relay" where
  "clearExtension w hw r =
     (case map_of (extensions r) hw of None \<Rightarrow> r
      | Some ext \<Rightarrow>
          sendLine w (exPeerNumber ext)
            (zeroMessage\<lparr>mType := TypeHangup, mFrom := exLineNumber ext, mExtension := True\<rparr>)
            (r\<lparr>extensions := mdel hw (extensions r)\<rparr>))"

definition clearExtensionsForCall :: "World \<Rightarrow> string \<Rightarrow> Relay \<Rightarrow> Relay" where
  "clearExtensionsForCall w line r =
     (let toRemove = map fst (filter (\<lambda>q. exLineNumber (snd q) = line) (extensions r))
      in fold (\<lambda>hw. sendHardware w hw (zeroMessage\<lparr>mType := TypeHangup, mFrom := line\<rparr>)) toRemove
           (r\<lparr>extensions := mdels toRemove (extensions r)\<rparr>))"

definition handleExtensionPickup :: "World \<Rightarrow> string \<Rightarrow> Message \<Rightarrow> Relay \<Rightarrow> Relay" where
  "handleExtensionPickup w from msg r =
     (let hw = mHardwareID msg in
      if hw = [] then sendError w from ''hardware_id required for extension pickup'' r
      else if \<not> rTracking r then sendError w from ''no active call on this line'' r
      else
        let peer = PeerOf from (rTr r) in
        if peer = [] then
          (if ConferenceByPhone from (trConfs (rTr r)) \<noteq> None
           then sendError w from ''extension pickup not supported during conferences'' r
           else sendHardware w hw
                  (zeroMessage\<lparr>mType := TypeError, mError := ''no active call on this line''\<rparr>) r)
        else if mhas hw (extensions r) then r
        else
          let r = r\<lparr>extensions := mput hw \<lparr>exHardwareID = hw, exLineNumber = from, exPeerNumber = peer\<rparr>
                     (extensions r)\<rparr>;
              r = sendHardware w hw
                    (zeroMessage\<lparr>mType := TypeExtensionConnect, mPeer := peer, mInitiator := True\<rparr>) r;
              r = sendLine w peer
                    (zeroMessage\<lparr>mType := TypeExtensionConnect, mPeer := from, mInitiator := False,
                       mExtension := True\<rparr>) r
          in fold (\<lambda>h. sendHardware w h (zeroMessage\<lparr>mType := TypeExtensionActive, mHardwareID := hw\<rparr>))
               (siblingDevices from hw r) r)"

text \<open>The destination of a message of an extension leg: a line, a device, or neither.\<close>

definition extensionRoute :: "string \<Rightarrow> Message \<Rightarrow> Relay \<Rightarrow> (string + string) option" where
  "extensionRoute from msg r =
     (let other = (case find (\<lambda>q. exPeerNumber (snd q) = from \<and> exLineNumber (snd q) = mTo msg) (extensions r) of
                     None \<Rightarrow> None | Some q \<Rightarrow> Some (Inr (exHardwareID (snd q))))
      in case map_of (extensions r) (mHardwareID msg) of
           Some ext \<Rightarrow> if mTo msg = exPeerNumber ext then Some (Inl (exPeerNumber ext)) else other
         | None \<Rightarrow> other)"

definition routeExtensionSignaling :: "World \<Rightarrow> string \<Rightarrow> Message \<Rightarrow> Relay \<Rightarrow> bool \<times> Relay" where
  "routeExtensionSignaling w from msg r =
     (case extensionRoute from msg r of
        None \<Rightarrow> (False, r)
      | Some (Inl peer) \<Rightarrow> if peer = [] then (False, r) else (True, sendLine w peer msg r)
      | Some (Inr hw) \<Rightarrow> if hw = [] then (False, r) else (True, sendHardware w hw msg r))"

definition handleSignalingForward :: "World \<Rightarrow> string \<Rightarrow> Message \<Rightarrow> Relay \<Rightarrow> Relay" where
  "handleSignalingForward w from msg r =
     (let (stop, r) = rejectNoDest w msg r
      in if stop then r
         else
           let (handled, r) = (if mExtension msg then routeExtensionSignaling w from msg r else (False, r))
           in if handled then r
              else if mConfID msg \<noteq> []
                      \<and> (case wParseUUID w (mConfID msg) of None \<Rightarrow> False
                         | Some cid \<Rightarrow> rTracking r \<and> ConferenceContains cid from (mTo msg) (trConfs (rTr r)))
              then sendLine w (mTo msg)
                     (zeroMessage\<lparr>mType := mType msg, mFrom := from, mTo := mTo msg, mConfID := mConfID msg,
                        mSDP := mSDP msg, mCandidate := mCandidate msg\<rparr>) r
              else if \<not> inCallOrConference from (mTo msg) r then r
              else forward w msg r)"

section \<open>Hanging up\<close>

definition hangupReason :: "string \<Rightarrow> string" where
  "hangupReason reason =
     (if reason = [] \<or> length reason > hangupReasonMaxLen then []
      else if \<exists>c \<in> set reason. (c < CHR ''a'' \<or> c > CHR ''z'') \<and> c \<noteq> CHR ''_'' then []
      else reason)"

fun endCallsWith :: "World \<Rightarrow> string \<Rightarrow> string \<Rightarrow> string list \<Rightarrow> Relay \<Rightarrow> Relay" where
  "endCallsWith w number reason [] r = r"
| "endCallsWith w number reason (peer # peers) r =
     endCallsWith w number reason peers
       (sendLine w peer
          (zeroMessage\<lparr>mType := TypeHangup, mFrom := number, mTo := peer, mReason := reason\<rparr>)
          (observed w
             (snd (OnCallEndedWithReason (wDB w (DbEnded (length peers))) (wNow w) number peer reason (rTr r)))
             r))"

definition endActiveCallsAsHangup :: "World \<Rightarrow> string \<Rightarrow> string \<Rightarrow> Relay \<Rightarrow> Relay" where
  "endActiveCallsAsHangup w number reason r =
     (if \<not> rTracking r then r
      else
        let peers = AllPeersOf number (rTr r)
        in if peers = [] then r
           else clearExtensionsForCall w number (endCallsWith w number reason peers r))"

definition sendRejection :: "World \<Rightarrow> string \<Rightarrow> string \<Rightarrow> string \<Rightarrow> Relay \<Rightarrow> Relay" where
  "sendRejection w host confID reason r =
     sendLine w host
       (zeroMessage\<lparr>mType := TypeConferenceRejected, mConfID := confID, mReason := reason\<rparr>) r"

definition confEndMsg :: "World \<Rightarrow> uuid \<Rightarrow> string \<Rightarrow> Message" where
  "confEndMsg w cid reason =
     zeroMessage\<lparr>mType := TypeConferenceEnd, mConfID := wShowUUID w cid, mReason := reason\<rparr>"

definition endConference :: "World \<Rightarrow> uuid \<Rightarrow> string \<Rightarrow> Relay \<Rightarrow> Relay" where
  "endConference w cid reason r =
     (case Snapshot cid (trConfs (rTr r)) of None \<Rightarrow> r
      | Some conf \<Rightarrow>
          fold (\<lambda>p. sendLine w p (confEndMsg w cid reason)) (mkeys (Members conf))
            (r\<lparr>rTr := snd (EndConferencePersistent (wDB w DbEndConf) (wNow w) cid reason (rTr r))\<rparr>))"

text \<open>A nil tracker is dereferenced here; the log says so.\<close>

definition dropMemberFromConference :: "World \<Rightarrow> uuid \<Rightarrow> string \<Rightarrow> string \<Rightarrow> Relay \<Rightarrow> Relay" where
  "dropMemberFromConference w cid phone reason r =
     (if \<not> rTracking r then r\<lparr>rPanic := True\<rparr>
      else case Snapshot cid (trConfs (rTr r)) of None \<Rightarrow> r
      | Some conf \<Rightarrow>
          let others = filter (\<lambda>p. p \<noteq> phone) (mkeys (Members conf)) in
          (case DropMemberPersistent (wDB w DbDropMember) (wNow w) cid phone reason (rTr r) of
             (Inl e, t) \<Rightarrow> r\<lparr>rTr := t\<rparr>
           | (Inr remaining, t) \<Rightarrow>
               let r = fold (\<lambda>p. sendLine w p (zeroMessage\<lparr>mType := TypeConferenceLeave,
                           mConfID := wShowUUID w cid, mPeer := phone, mReason := reason\<rparr>))
                         others (r\<lparr>rTr := t\<rparr>)
               in fold (\<lambda>p. sendLine w p (confEndMsg w cid ''member_left'')) remaining r))"

definition KickMember :: "World \<Rightarrow> uuid \<Rightarrow> string \<Rightarrow> string \<Rightarrow> Relay \<Rightarrow> Relay" where
  "KickMember w cid kicked reason r =
     dropMemberFromConference w cid kicked reason (sendLine w kicked (confEndMsg w cid reason) r)"

definition handleHangup :: "World \<Rightarrow> string \<Rightarrow> Message \<Rightarrow> Relay \<Rightarrow> Relay" where
  "handleHangup w from msg r =
     (if mHardwareID msg \<noteq> [] \<and> mhas (mHardwareID msg) (extensions r)
      then clearExtension w (mHardwareID msg) r
      else case (if rTracking r then ConferenceByPhone from (trConfs (rTr r)) else None) of
             Some conf \<Rightarrow>
               if confHost conf = from then endConference w (confId conf) ''host_hangup'' r
               else dropMemberFromConference w (confId conf) from ''hangup'' r
           | None \<Rightarrow> endActiveCallsAsHangup w from (hangupReason (mReason msg)) r)"

definition ForceHangup :: "World \<Rightarrow> string \<Rightarrow> string \<Rightarrow> Relay \<Rightarrow> Relay" where
  "ForceHangup w caller callee r =
     sendLine w callee (zeroMessage\<lparr>mType := TypeHangup\<rparr>)
       (sendLine w caller (zeroMessage\<lparr>mType := TypeHangup\<rparr>) r)"

section \<open>Merging two calls\<close>

definition confMemberMsg :: "World \<Rightarrow> uuid \<Rightarrow> string \<Rightarrow> string \<Rightarrow> string \<Rightarrow> Message" where
  "confMemberMsg w cid host held active =
     zeroMessage\<lparr>mType := TypeConferenceMember, mConfID := wShowUUID w cid,
       mMembers := [\<lparr>cmiPhone = host, cmiRole = roleHost\<rparr>, \<lparr>cmiPhone = held, cmiRole = roleAdded\<rparr>,
                    \<lparr>cmiPhone = active, cmiRole = roleAdded\<rparr>]\<rparr>"

definition confConnectMsg :: "World \<Rightarrow> uuid \<Rightarrow> string \<Rightarrow> bool \<Rightarrow> Message" where
  "confConnectMsg w cid peer initiator =
     zeroMessage\<lparr>mType := TypeConferenceConnect, mConfID := wShowUUID w cid, mPeer := peer,
       mInitiator := initiator\<rparr>"

definition handleConferenceMerge :: "World \<Rightarrow> string \<Rightarrow> Message \<Rightarrow> Relay \<Rightarrow> Relay" where
  "handleConferenceMerge w host msg r =
     (let held = mHeldPeer msg; active = mActivePeer msg; reject = sendRejection w host (mConfID msg) in
      if \<not> rTracking r then r\<lparr>rPanic := True\<rparr>
      else if \<not> InCall host held (rTr r) \<or> \<not> InCall host active (rTr r)
      then reject ''host_not_in_both_calls'' r
      else if ctIsBusy held (trConfs (rTr r)) \<or> ctIsBusy active (trConfs (rTr r))
      then reject ''member_already_in_conference'' r
      else if CallIDForPair host held (rTr r) = 0 then reject ''call_id_unknown'' r
      else
        case CreateConferencePersistent (wDB w DbCreateConf) (wNewUUID w) (wNow w) host
               (CallIDForPair host held (rTr r)) [held, active] (rTr r) of
          (Inl e, t) \<Rightarrow> reject ''create_failed'' (r\<lparr>rTr := t\<rparr>)
        | (Inr conf, t) \<Rightarrow>
            let r = fold (\<lambda>p. sendLine w p (confMemberMsg w (confId conf) host held active))
                      [host, held, active] (r\<lparr>rTr := t\<rparr>);
                r = sendLine w held (confConnectMsg w (confId conf) active (held < active)) r
            in sendLine w active (confConnectMsg w (confId conf) held (\<not> held < active)) r)"

section \<open>The grace window\<close>

definition cancelEntry :: "nat \<Rightarrow> Relay \<Rightarrow> Relay" where
  "cancelEntry i r = r\<lparr>rEntries := (rEntries r)[i := (rEntries r ! i)\<lparr>geCanceled := True\<rparr>]\<rparr>"

definition startGraceTimer :: "World \<Rightarrow> string \<Rightarrow> string \<Rightarrow> string \<Rightarrow> Relay \<Rightarrow> Relay" where
  "startGraceTimer w number hw peer r =
     (let key = graceKey number hw;
          r = (case map_of (graceTimers r) key of None \<Rightarrow> r | Some i \<Rightarrow> cancelEntry i r)
      in r\<lparr>rEntries := rEntries r @ [\<lparr>geNumber = number, geHardwareID = hw, gePeer = peer,
             geDue = wNow w + rGraceWindow r, geCanceled = False, geFired = False\<rparr>],
           graceTimers := mput key (length (rEntries r)) (graceTimers r)\<rparr>)"

definition cancelGraceLocal :: "string \<Rightarrow> string \<Rightarrow> Relay \<Rightarrow> bool \<times> Relay" where
  "cancelGraceLocal number hw r =
     (let key = graceKey number hw in
      case map_of (graceTimers r) key of None \<Rightarrow> (False, r)
      | Some i \<Rightarrow> (True, (cancelEntry i r)\<lparr>graceTimers := mdel key (graceTimers r)\<rparr>))"

text \<open>The callback of timer \<open>i\<close>; the runtime runs it once, not before it is due.\<close>

definition graceFire :: "World \<Rightarrow> nat \<Rightarrow> Relay \<Rightarrow> Relay" where
  "graceFire w i r =
     (if i < length (rEntries r) \<and> \<not> geFired (rEntries r ! i) \<and> geDue (rEntries r ! i) \<le> wNow w then
        let e = rEntries r ! i;
            r = r\<lparr>rEntries := (rEntries r)[i := e\<lparr>geFired := True\<rparr>]\<rparr>
        in if geCanceled e then r
           else
             let r = r\<lparr>graceTimers := mdel (graceKey (geNumber e) (geHardwareID e)) (graceTimers r)\<rparr>
             in if HardwareOnlineOnLine (geNumber e) (geHardwareID e) (rHub r) then r
                else endActiveCallsAsHangup w (geNumber e) hangupReasonPeerOffline r
      else r)"

definition OnReconnect :: "string \<Rightarrow> string \<Rightarrow> Relay \<Rightarrow> Relay" where
  "OnReconnect number hw r =
     (let r = snd (cancelGraceLocal number hw r) in r\<lparr>rHub := PublishReconnect number hw (rHub r)\<rparr>)"

definition HandleRemoteReconnect :: "string \<Rightarrow> string \<Rightarrow> Relay \<Rightarrow> Relay" where
  "HandleRemoteReconnect number hw r = snd (cancelGraceLocal number hw r)"

definition OnDisconnect :: "World \<Rightarrow> string \<Rightarrow> string \<Rightarrow> Relay \<Rightarrow> Relay" where
  "OnDisconnect w number hw r =
     (let r = (if hw \<noteq> [] then clearExtension w hw r else r);
          clear = (\<lambda>r. clearExtensionsForCall w number
                     (observed w (ClearByNumber (wDB w DbCleared) (wNow w) number (rTr r)) r))
      in if \<not> rTracking r then r
         else if ConnectionCount number (rHub r) > 1 then r
         else case ConferenceByPhone number (trConfs (rTr r)) of
                Some conf \<Rightarrow> clear (endConference w (confId conf) ''disconnect'' r)
              | None \<Rightarrow>
                  if PeerOf number (rTr r) \<noteq> [] then startGraceTimer w number hw (PeerOf number (rTr r)) r
                  else clear r)"

definition OnConnClosed :: "World \<Rightarrow> nat option \<Rightarrow> Relay \<Rightarrow> Relay" where
  "OnConnClosed w conn r =
     (case conn of None \<Rightarrow> r
      | Some c \<Rightarrow>
          if \<not> ConnIsCurrent conn (rHub r) then r
          else OnDisconnect w (coNumber (hstore (rHub r) c)) (coHardwareID (hstore (rHub r) c)) r)"

section \<open>The rest of the messages\<close>

definition OnRegistered :: "World \<Rightarrow> string \<Rightarrow> Relay \<Rightarrow> Relay" where
  "OnRegistered w number r =
     (case wLineSettings w of None \<Rightarrow> r
      | Some f \<Rightarrow> (case f number of
          Some (Some settings) \<Rightarrow>
            sendLine w number
              (zeroMessage\<lparr>mType := TypeLineSettings, mTo := number, mLineSettings := Some settings\<rparr>) r
        | _ \<Rightarrow> r))"

definition handleRequestICE :: "World \<Rightarrow> string \<Rightarrow> Relay \<Rightarrow> Relay" where
  "handleRequestICE w from r =
     (let stun = \<lparr>iceURLs = [googleSTUN], iceUsername = [], iceCredential = []\<rparr>;
          turn = (case wTURNGen w of None \<Rightarrow> []
                  | Some gen \<Rightarrow>
                      if wTURNDomain w = [] then []
                      else [\<lparr>iceURLs = [''turn:'' @ wTURNDomain w @ '':3478?transport=udp'',
                                        ''turn:'' @ wTURNDomain w @ '':3478?transport=tcp'',
                                        ''turns:'' @ wTURNDomain w @ '':5349?transport=tcp''],
                             iceUsername = fst (gen from), iceCredential = snd (gen from)\<rparr>]);
          r = (if wMetrics w then relayEmit [ICEServersIssued (turn \<noteq> [])] r else r)
      in sendLine w from (zeroMessage\<lparr>mType := TypeICEServers, mServers := stun # turn\<rparr>) r)"

definition healthSample :: "LinkHealthPayload \<Rightarrow> Sample" where
  "healthSample p = \<lparr>saTS = lhTS p, saLossPct = lhLossPct p, saJitterMs = lhJitterMs p,
     saRttMs = lhRttMs p, saConnType = lhConnType p, saBytesIn = lhBytesIn p, saBytesOut = lhBytesOut p\<rparr>"

definition handleLinkHealth :: "World \<Rightarrow> string \<Rightarrow> Message \<Rightarrow> Relay \<Rightarrow> Relay" where
  "handleLinkHealth w from msg r =
     (case mLinkHealth msg of None \<Rightarrow> r
      | Some p \<Rightarrow>
          if \<not> wHealthStore w \<or> \<not> rTracking r then r
          else if lhPeer p = [] then
            (case CallIDFor from (rTr r) of
               (cid, True) \<Rightarrow> relayEmit [HealthRecord cid from (healthSample p)] r
             | (cid, False) \<Rightarrow> r)
          else case ConferenceByPhone from (trConfs (rTr r)) of None \<Rightarrow> r
               | Some conf \<Rightarrow>
                   if \<not> ConferenceContains (confId conf) from (lhPeer p) (trConfs (rTr r)) then r
                   else relayEmit [HealthRecordEdge (confId conf) from (lhPeer p) (healthSample p)] r)"

definition deviceInfoOf :: "Message \<Rightarrow> DeviceInfo" where
  "deviceInfoOf msg = \<lparr>diPiVersion = mPiVersion msg, diPiCommit = mPiCommit msg,
     diFirmwareVersion = mFirmwareVersion msg, diFirmwareCommit = mFirmwareCommit msg,
     diRemoteAddr = mLocalAddr msg, diDevMode = mDevMode msg\<rparr>"

definition handleDeviceInfo :: "World \<Rightarrow> Message \<Rightarrow> Relay \<Rightarrow> Relay" where
  "handleDeviceInfo w msg r =
     (let hw = mHardwareID msg;
          h = snd (UpdateDeviceInfoByHardware (wPrivate w) hw (deviceInfoOf msg) (rHub r));
          rebooting = (case GetUpdateStatus hw h of None \<Rightarrow> False
                       | Some s \<Rightarrow> usStatus s = UpdateStatusRebooting)
      in r\<lparr>rHub := (if rebooting
             then SetUpdateStatus hw UpdateStatusSuccess (''Updated to '' @ mPiVersion msg) (wNow w) h
             else h)\<rparr>)"

definition HandleMessage :: "World \<Rightarrow> string \<Rightarrow> Message \<Rightarrow> Relay \<Rightarrow> Relay" where
  "HandleMessage w from msg0 r =
     (let msg = msg0\<lparr>mFrom := from\<rparr>; ty = mType msg in
      if ty = TypeCall then handleCall w from msg r
      else if ty = TypeSDP \<or> ty = TypeICE then handleSignalingForward w from msg r
      else if ty = TypeICERestart then handleICERestart w from msg r
      else if ty = TypeAnswer then handleAnswer w from msg r
      else if ty = TypeHangup then handleHangup w from msg r
      else if ty = TypeConferenceMerge then handleConferenceMerge w from msg r
      else if ty = TypeExtensionPickup then handleExtensionPickup w from msg r
      else if ty = TypeDTMF then handleDTMF w from msg r
      else if ty = TypeRequestICE then handleRequestICE w from r
      else if ty = TypeDeviceInfo then handleDeviceInfo w msg r
      else if ty = TypeUpdateStatus then
        r\<lparr>rHub := SetUpdateStatus (mHardwareID msg) (mUpdateStatus msg) (mUpdateDetail msg) (wNow w) (rHub r)\<rparr>
      else if ty = TypeRestart then r
      else if ty = TypeLinkHealth then handleLinkHealth w from msg r
      else if ty = TypeCallReturn then handleCallReturn w from r
      else if ty = TypeCallReturnRetry then handleCallReturnRetry w from msg r
      else if ty = TypeCallReturnCancel then handleCallReturnCancel w from r
      else if ty = TypeVoicemailState then
        (if mHardwareID msg = [] then r
         else r\<lparr>rHub := SetVoicemailUnheard from (mHardwareID msg) (mVoicemailUnheardCount msg) (rHub r)\<rparr>)
      else r)"

end
