(* ===== verification/Call_Book.thy ===== *)
theory Call_Book
  imports Tracker_Ops
begin

text \<open>
  What the relay may rely on when it admits calls: an abstract book of the two-party calls and
  of the phones in conferences, the four kinds of change a tracker makes to it, and the
  admission rule they keep.  The locale \<open>call_book\<close> is the interface; the tracker of
  \<^verbatim>\<open>server/internal/calls\<close> provides it.
\<close>

section \<open>The abstract book\<close>

type_synonym calls = "(string \<times> string) multiset"

definition party :: "string \<Rightarrow> string \<times> string \<Rightarrow> bool" where
  "party p c \<longleftrightarrow> fst c = p \<or> snd c = p"

definition callsOf :: "string \<Rightarrow> calls \<Rightarrow> calls" where
  "callsOf p C = filter_mset (party p) C"

definition idle :: "string \<Rightarrow> calls \<times> string set \<Rightarrow> bool" where
  "idle p B \<longleftrightarrow> p \<notin> snd B \<and> callsOf p (fst B) = {#}"

definition mayAdd :: "string \<Rightarrow> calls \<times> string set \<Rightarrow> bool" where
  "mayAdd p B \<longleftrightarrow> p \<notin> snd B \<and> size (callsOf p (fst B)) = 1 \<and> (\<forall>c \<in># callsOf p (fst B). fst c = p \<and> snd c \<noteq> p)"

text \<open>
  A new call needs an idle callee and a caller that is idle or may add a third party; a merge
  takes all calls of the members away; a split puts two members of a conference that goes into
  a call; and anything may end.
\<close>

inductive book_step :: "calls \<times> string set \<Rightarrow> calls \<times> string set \<Rightarrow> bool" where
  less: "C' \<subseteq># C \<Longrightarrow> S' \<subseteq> S \<Longrightarrow> book_step (C, S) (C', S')"
| call: "idle b (C, S) \<Longrightarrow> idle a (C, S) \<or> mayAdd a (C, S) \<Longrightarrow> book_step (C, S) (add_mset (a, b) C, S)"
| merge: "book_step (C, S) (filter_mset (\<lambda>c. fst c \<notin> M \<and> snd c \<notin> M) C, S \<union> M)"
| split: "a \<in> S \<Longrightarrow> b \<in> S \<Longrightarrow> a \<noteq> b \<Longrightarrow> a \<in> M \<Longrightarrow> b \<in> M
    \<Longrightarrow> book_step (C, S) (add_mset (a, b) C, S - M)"

inductive_cases book_stepE: "book_step B B'"

text \<open>
  The admission rule: a phone in a conference is in no two-party call, and a phone is in at
  most one, or is the caller of two.
\<close>

definition admission :: "calls \<times> string set \<Rightarrow> bool" where
  "admission B \<longleftrightarrow> (\<forall>p. (p \<in> snd B \<longrightarrow> callsOf p (fst B) = {#})
     \<and> (size (callsOf p (fst B)) \<le> 1
        \<or> size (callsOf p (fst B)) = 2 \<and> (\<forall>c \<in># callsOf p (fst B). fst c = p)))"

lemma callsOf_add [simp]:
  "callsOf p (add_mset c C) = (if party p c then add_mset c (callsOf p C) else callsOf p C)"
  by (simp add: callsOf_def)

lemma callsOf_mono: "C' \<subseteq># C \<Longrightarrow> callsOf p C' \<subseteq># callsOf p C"
  unfolding callsOf_def by (rule multiset_filter_mono)

lemma admission_fewer:
  assumes "admission (C, S)" and "\<And>p. callsOf p C' \<subseteq># callsOf p C"
    and "\<And>p. p \<in> S' \<Longrightarrow> callsOf p C' = {#}"
  shows "admission (C', S')"
proof -
  have "size (callsOf p C') \<le> 1 \<or> size (callsOf p C') = 2 \<and> (\<forall>c \<in># callsOf p C'. fst c = p)" for p
  proof -
    have le: "size (callsOf p C') \<le> size (callsOf p C)" using assms(2) by (rule size_mset_mono)
    have sub: "set_mset (callsOf p C') \<subseteq> set_mset (callsOf p C)" using assms(2) by (rule set_mset_mono)
    from assms(1) have "size (callsOf p C) \<le> 1
        \<or> size (callsOf p C) = 2 \<and> (\<forall>c \<in># callsOf p C. fst c = p)"
      by (simp add: admission_def)
    with le sub show ?thesis by (auto simp: le_Suc_eq numeral_2_eq_2)
  qed
  with assms(3) show ?thesis by (simp add: admission_def)
qed

lemma book_step_admission:
  assumes "book_step B B'" and adm: "admission B"
  shows "admission B'"
  using assms(1)
proof (cases rule: book_step.cases)
  case (less C' C S' S)
  have e: "callsOf p C = {#}" if "p \<in> S" for p using adm less(1) that by (simp add: admission_def)
  have none: "callsOf p C' = {#}" if "p \<in> S'" for p
    using callsOf_mono [OF less(3), of p] e [of p] less(4) that by auto
  show ?thesis unfolding less(2)
    by (rule admission_fewer [OF adm [unfolded less(1)] callsOf_mono [OF less(3)] none])
next
  case (call b C S a)
  have b: "b \<notin> S" "callsOf b C = {#}" using call(3) by (simp_all add: idle_def)
  have a: "a \<notin> S" "callsOf a C = {#}
      \<or> size (callsOf a C) = 1 \<and> (\<forall>c \<in># callsOf a C. fst c = a)"
    using call(4) by (auto simp: idle_def mayAdd_def)
  have old: "(p \<in> S \<longrightarrow> callsOf p C = {#}) \<and> (size (callsOf p C) \<le> 1
      \<or> size (callsOf p C) = 2 \<and> (\<forall>c \<in># callsOf p C. fst c = p))" for p
    using adm call(1) by (simp add: admission_def)
  show ?thesis unfolding call(2) admission_def
  proof (intro allI conjI impI)
    fix p
    show "callsOf p (fst (add_mset (a, b) C, S)) = {#}" if "p \<in> snd (add_mset (a, b) C, S)"
      using that old [of p] a(1) b(1) by (auto simp: party_def)
    show "size (callsOf p (fst (add_mset (a, b) C, S))) \<le> 1
      \<or> size (callsOf p (fst (add_mset (a, b) C, S))) = 2
        \<and> (\<forall>c \<in># callsOf p (fst (add_mset (a, b) C, S)). fst c = p)"
      using old [of p] a(2) b(2) by (cases "p = b"; cases "p = a") (auto simp: party_def)
  qed
next
  case (merge C S M)
  let ?C = "filter_mset (\<lambda>c. fst c \<notin> M \<and> snd c \<notin> M) C"
  have sub: "callsOf p ?C \<subseteq># callsOf p C" for p by (rule callsOf_mono) simp
  have none: "callsOf p ?C = {#}" if "p \<in> S \<union> M" for p
  proof (cases "p \<in> M")
    case True
    then show ?thesis by (intro multiset_eqI) (auto simp: callsOf_def party_def)
  next
    case False
    then have "callsOf p C = {#}" using that adm merge(1) by (simp add: admission_def)
    then show ?thesis using sub [of p] by simp
  qed
  show ?thesis unfolding merge(2) by (rule admission_fewer [OF adm [unfolded merge(1)] sub none])
next
  case (split a S b M C)
  have e: "callsOf p C = {#}" if "p \<in> S" for p using adm split(1) that by (simp add: admission_def)
  have old: "(size (callsOf p C) \<le> 1
      \<or> size (callsOf p C) = 2 \<and> (\<forall>c \<in># callsOf p C. fst c = p))" for p
    using adm split(1) by (simp add: admission_def)
  show ?thesis unfolding split(2) admission_def
  proof (intro allI conjI impI)
    fix p
    show "callsOf p (fst (add_mset (a, b) C, S - M)) = {#}" if "p \<in> snd (add_mset (a, b) C, S - M)"
      using that e [of p] split(5-7) by (auto simp: party_def)
    show "size (callsOf p (fst (add_mset (a, b) C, S - M))) \<le> 1
      \<or> size (callsOf p (fst (add_mset (a, b) C, S - M))) = 2
        \<and> (\<forall>c \<in># callsOf p (fst (add_mset (a, b) C, S - M)). fst c = p)"
      using old [of p] e [OF split(3)] e [OF split(4)]
      by (cases "p = b"; cases "p = a") (auto simp: party_def)
  qed
qed

lemma book_steps_admission: "book_step\<^sup>*\<^sup>* B B' \<Longrightarrow> admission B \<Longrightarrow> admission B'"
  by (induction rule: rtranclp_induct) (auto intro: book_step_admission)

lemma book_less: "C' \<subseteq># C \<Longrightarrow> S' \<subseteq> S \<Longrightarrow> book_step\<^sup>*\<^sup>* (C, S) (C', S')"
  by (blast intro: book_step.less)

section \<open>The interface\<close>

text \<open>
  A provider has a book to read off its state, keeps an invariant, and makes only steps of the
  book; its answers \<open>busy\<close> and \<open>canAdd\<close> are those of the book.
\<close>

locale call_book =
  fixes book :: "'t \<Rightarrow> calls \<times> string set"
    and good :: "'t \<Rightarrow> bool"
    and step :: "'m \<Rightarrow> 't \<Rightarrow> 't"
    and allowed :: "'m \<Rightarrow> 't \<Rightarrow> bool"
    and busy :: "string \<Rightarrow> 't \<Rightarrow> bool"
    and canAdd :: "string \<Rightarrow> 't \<Rightarrow> bool"
  assumes keeps: "good t \<Longrightarrow> allowed m t \<Longrightarrow> good (step m t)"
    and refines: "good t \<Longrightarrow> allowed m t \<Longrightarrow> book_step (book t) (book (step m t))"
    and busy_idle: "busy p t \<longleftrightarrow> \<not> idle p (book t)"
    and canAdd_mayAdd: "canAdd p t \<longleftrightarrow> mayAdd p (book t)"
begin

lemma runs:
  assumes "good t" and "allowed_run step allowed ms t"
  shows "good (fold step ms t) \<and> book_step\<^sup>*\<^sup>* (book t) (book (fold step ms t))"
  using assms
proof (induction ms arbitrary: t)
  case (Cons m ms)
  then have "book_step (book t) (book (step m t))" "good (step m t)"
    by (auto intro: refines keeps)
  with Cons.IH [of "step m t"] Cons.prems show ?case
    by (auto intro: converse_rtranclp_into_rtranclp)
qed simp

lemma run_admission:
  assumes "good t" "allowed_run step allowed ms t" "admission (book t)"
  shows "admission (book (fold step ms t))"
  using runs [OF assms(1,2)] assms(3) by (blast intro: book_steps_admission)

end

section \<open>The tracker provides it\<close>

definition trBook :: "Tracker \<Rightarrow> calls \<times> string set" where
  "trBook t = (mset (map (\<lambda>c. (acCaller c, acCallee c)) (activeCalls t)), {p. ctIsBusy p (trConfs t)})"

text \<open>The moves the relay makes: a call is begun only after the admission test.\<close>

fun admits :: "tr_move \<Rightarrow> Tracker \<Rightarrow> bool" where
  "admits (TrInitiated db now a b) t =
     (plain a \<and> plain b \<and> \<not> Busy b t \<and> (\<not> Busy a t \<or> CanAddAsHost a t))"
| "admits m t = tr_move_ok m t"

lemma admits_ok: "admits m t \<Longrightarrow> tr_move_ok m t"
  by (cases m) auto

lemma callsOf_book:
  "callsOf p (fst (trBook t)) = mset (map (\<lambda>c. (acCaller c, acCallee c)) (filter (involves p) (activeCalls t)))"
proof -
  have "filter_mset (party p) (image_mset f (mset cs)) = image_mset f (mset (filter (involves p) cs))"
    if "f = (\<lambda>c. (acCaller c, acCallee c))" for f cs
    using that by (induction cs) (auto simp: party_def involves_def)
  then show ?thesis by (simp add: callsOf_def trBook_def)
qed

lemma Busy_book: "Busy p t \<longleftrightarrow> \<not> idle p (trBook t)"
  unfolding idle_def callsOf_book
  by (auto simp: Busy_def trBook_def list_ex_iff filter_empty_conv)

lemma canAdd_book: "CanAddAsHost p t \<longleftrightarrow> mayAdd p (trBook t)"
proof -
  let ?cs = "activeCalls t"
  have "canAddLoop p cs n \<longleftrightarrow> n + length (filter (involves p) cs) = 1
      \<and> (\<forall>c \<in> set (filter (involves p) cs). acCaller c = p \<and> acCallee c \<noteq> p)" for cs n
  proof -
    have eq: "filter (involves p) cs = filter (\<lambda>c. acCaller c = p) cs" if "\<forall>c \<in> set cs. acCallee c \<noteq> p"
      using that by (intro filter_cong) (auto simp: involves_def)
    show ?thesis
    proof (cases "\<forall>c \<in> set cs. acCallee c \<noteq> p")
      case True
      then show ?thesis by (auto simp: canAddLoop_spec eq)
    next
      case False
      then show ?thesis by (auto simp: canAddLoop_spec involves_def)
    qed
  qed
  then show ?thesis unfolding mayAdd_def callsOf_book
    by (simp add: CanAddAsHost_def trBook_def del: mset_filter mset_map)
qed

lemma book_sub:
  assumes "mset (trActive t') \<subseteq># mset (trActive t)"
    and "\<And>p. ctIsBusy p (trConfs t') \<Longrightarrow> ctIsBusy p (trConfs t)"
  shows "book_step (trBook t) (trBook t')"
proof -
  have "mset (map (\<lambda>c. (acCaller c, acCallee c)) (activeCalls t'))
      \<subseteq># mset (map (\<lambda>c. (acCaller c, acCallee c)) (activeCalls t))"
    unfolding activeCalls_def mset_map by (intro image_mset_subseteq_mono assms(1))
  then show ?thesis unfolding trBook_def by (rule book_step.less) (use assms(2) in auto)
qed

lemma mset_mdel: "mset (mdel k m) \<subseteq># mset m"
  by (simp add: mdel_def AList.delete_eq)

lemma mset_mdels: "mset (mdels ks m) \<subseteq># mset m"
  unfolding mdels_def by (induction ks arbitrary: m) (auto intro: subset_mset.trans mset_mdel)

lemma mput_new: "map_of m k = None \<Longrightarrow> mput k v m = m @ [(k, v)]"
  unfolding mput_def by (induction m) (auto split: if_splits)

lemma mput_same: "map_of m k = Some v \<Longrightarrow> f v' = f v \<Longrightarrow> map f (map snd (mput k v' m)) = map f (map snd m)"
  unfolding mput_def by (induction m) auto

text \<open>Registering a call whose key is free.\<close>

lemma trBook_put:
  assumes "map_of (trActive t) k = None"
  shows "trBook (t\<lparr>trActive := mput k c (trActive t)\<rparr>)
    = (add_mset (acCaller c, acCallee c) (fst (trBook t)), snd (trBook t))"
  by (simp add: trBook_def activeCalls_def mput_new [OF assms])

lemma key_busy:
  assumes "tr_ok t" "map_of (trActive t) (callKey a b) = Some c" "plain a" "plain b"
  shows "acCaller c = a \<and> acCallee c = b \<and> c \<in> set (activeCalls t)"
proof -
  have "callKey (acCaller c) (acCallee c) = callKey a b" using tr_okD(5) [OF assms(1,2)] by simp
  then have "acCaller c = a \<and> acCallee c = b" using callKey_inj tr_okD(7) [OF assms(1,2)] by blast
  moreover have "(callKey a b, c) \<in> set (trActive t)" using assms(2) by (rule map_of_SomeD)
  then have "c \<in> set (activeCalls t)" by (force simp: activeCalls_def)
  ultimately show ?thesis by blast
qed

lemma Initiated_book:
  assumes ok: "tr_ok t" and adm: "admits (TrInitiated db now a b) t"
  shows "book_step (trBook t) (trBook (snd (OnCallInitiated db now a b t)))"
proof (cases db)
  case True
  have free: "map_of (trActive t) (callKey a b) = None"
  proof (rule ccontr)
    assume "map_of (trActive t) (callKey a b) \<noteq> None"
    then obtain c where "map_of (trActive t) (callKey a b) = Some c" by blast
    from key_busy [OF ok this] adm have "c \<in> set (activeCalls t)" "acCallee c = b" by auto
    then have "Busy b t" by (auto simp: Busy_def list_ex_iff involves_def)
    with adm show False by simp
  qed
  obtain C S where B: "trBook t = (C, S)" by (cases "trBook t")
  let ?c = "\<lparr>acID = trNextID t, acCaller = a, acCallee = b, acStartedAt = now\<rparr>"
  have "trBook (snd (OnCallInitiated db now a b t)) = trBook (t\<lparr>trActive := mput (callKey a b) ?c (trActive t)\<rparr>)"
    by (simp add: True OnCallInitiated_def insertCall_def Let_def trEmit_def trBook_def activeCalls_def)
  then have "trBook (snd (OnCallInitiated db now a b t)) = (add_mset (a, b) C, S)"
    by (simp add: trBook_put [OF free] B)
  moreover have "idle b (C, S)" "idle a (C, S) \<or> mayAdd a (C, S)"
    using adm Busy_book [of _ t] canAdd_book [of a t] B by simp_all
  ultimately show ?thesis unfolding B by (simp add: book_step.call)
qed (use book_sub [of t t] in \<open>simp add: OnCallInitiated_def\<close>)

lemma idx_End: "ctIsBusy p (snd (EndConference cid reason cs)) \<Longrightarrow> ctIsBusy p cs"
  by (auto simp: EndConference_def ctIsBusy_def mhas_def map_of_mdels split: option.splits if_splits)

lemma idx_Drop: "ctIsBusy p (snd (DropMember now cid q reason cs)) \<Longrightarrow> ctIsBusy p cs"
  by (auto simp: DropMember_def Let_def ctIsBusy_def mhas_def map_of_mdels split: option.splits if_splits)

lemma same_updates [simp]:
  "trActive (updateCalls P f t) = trActive t" "trConfs (updateCalls P f t) = trConfs t"
  "trActive (updateLatest P f t) = trActive t" "trConfs (updateLatest P f t) = trConfs t"
  "trActive (createConfTx now conf ids t) = trActive t" "trConfs (createConfTx now conf ids t) = trConfs t"
  "trActive (dropMemberTx now cid p reason t) = trActive t" "trConfs (dropMemberTx now cid p reason t) = trConfs t"
  by (simp_all add: updateCalls_def updateLatest_def createConfTx_def dropMemberTx_def Let_def split: option.split)

lemma End_book: "tr_ok t \<Longrightarrow> book_step (trBook t) (trBook (snd (EndConferencePersistent db now cid reason t)))"
  by (cases db; rule book_sub)
    (use idx_End [of _ cid reason "trConfs t"] in \<open>auto simp: EndConferencePersistent_def Let_def
       split: sum.splits prod.splits\<close>)

lemma Create_book:
  assumes ok: "tr_ok t" and fresh: "\<not> mhas newId (ctActive (trConfs t))"
  shows "book_step (trBook t) (trBook (snd (CreateConferencePersistent db newId now host orig added t)))"
proof (cases "CreateConferencePersistent db newId now host orig added t")
  case (Pair res t')
  show ?thesis
  proof (cases res)
    case (Inr conf)
    obtain ids cs where cs: "CreateConference newId now host orig added (trConfs t) = (Inr conf, cs)"
      and t': "trConfs t' = cs" "trActive t' = filter (\<lambda>(k, c). \<not> involvesMember conf c) (trActive t)"
      by (rule Create_persistent_Inr [OF Pair [unfolded Inr]])
    let ?M = "{p. mhas p (Members conf)}"
    have mem: "mhas q (Members conf) \<longleftrightarrow> q = host \<or> q \<in> set added" for q
      using CreateConference_Inr(1) [OF cs] by (simp add: mhas_confMembers)
    have "{p. ctIsBusy p cs} = {p. ctIsBusy p (trConfs t)} \<union> ?M"
      using CreateConference_Inr(2) [OF cs] mem by (auto simp: ctIsBusy_def mhas_def map_of_mputs)
    moreover have "activeCalls t' = filter (\<lambda>c. \<not> involvesMember conf c) (activeCalls t)"
      using t'(2) activeCalls_filter [of "\<lambda>c. \<not> involvesMember conf c" t] by (simp add: activeCalls_def)
    moreover have "mset (map f (filter (\<lambda>c. \<not> involvesMember conf c) cs))
        = filter_mset (\<lambda>c. fst c \<notin> ?M \<and> snd c \<notin> ?M) (mset (map f cs))"
      if "f = (\<lambda>c. (acCaller c, acCallee c))" for f cs
      using that by (induction cs) (auto simp: involvesMember_def)
    ultimately have "trBook t' = (filter_mset (\<lambda>c. fst c \<notin> ?M \<and> snd c \<notin> ?M) (fst (trBook t)), snd (trBook t) \<union> ?M)"
      by (simp add: trBook_def t'(1))
    then show ?thesis using book_step.merge [of "fst (trBook t)" "snd (trBook t)" ?M] Pair by simp
  next
    case (Inl e)
    have act: "trActive t' = trActive t"
      using Pair Inl by (auto simp: CreateConferencePersistent_def Let_def split: sum.splits prod.splits if_splits)
    have "ctIsBusy p (trConfs t)" if "ctIsBusy p (trConfs t')" for p
    proof (cases "trConfs t' = trConfs t")
      case False
      then obtain conf cs where cs: "CreateConference newId now host orig added (trConfs t) = (Inr conf, cs)"
        and t': "trConfs t' = snd (EndConference (confId conf) ''db_error'' cs)"
        using Pair Inl by (auto simp: CreateConferencePersistent_def Let_def split: sum.splits prod.splits if_splits)
      have keys: "set (mkeys (Members conf)) = insert host (set added)"
        using CreateConference_Inr(1) [OF cs] mhas_confMembers [of _ host added now] by (auto simp: mhas_iff)
      have "map_of (ctActive cs) (confId conf) = Some conf"
        using CreateConference_Inr(1,2) [OF cs] by simp
      then have "map_of (memberIndex (trConfs t')) p
          = (if p \<in> insert host (set added) then None else map_of (memberIndex (trConfs t)) p)"
        using t' CreateConference_Inr(2) [OF cs] keys
        by (simp add: EndConference_def map_of_mdels map_of_mputs del: set_map)
      then show ?thesis using that by (auto simp: ctIsBusy_def mhas_def split: if_splits)
    qed (use that in simp)
    then show ?thesis using book_sub [of t' t] act Pair by simp
  qed
qed

lemma Drop_book:
  assumes ok: "tr_ok t"
  shows "book_step (trBook t) (trBook (snd (DropMemberPersistent db now cid phone reason t)))"
proof (cases "DropMember now cid phone reason (trConfs t)")
  case (Pair res cs)
  have less: "book_step (trBook t) (trBook t')" if "trActive t' = trActive t" "trConfs t' = trConfs t \<or> trConfs t' = cs" for t'
    using book_sub [of t' t] that idx_Drop [of _ now cid phone reason "trConfs t"] Pair by auto
  show ?thesis
  proof (cases res)
    case (Inr remaining)
    obtain conf m where c: "map_of (ctActive (trConfs t)) cid = Some conf"
      and m: "map_of (Members conf) phone = Some m"
      and rem: "remaining = stillIn (mput phone (leaveMember now reason m) (Members conf))"
      and cs: "memberIndex cs = mdels remaining (mdel phone (memberIndex (trConfs t)))"
      using Pair Inr by (auto simp: DropMember_def Let_def split: option.splits)
    note wf = ct_okD(3) [OF tr_okD(1) [OF ok] c]
    let ?M = "insert phone (set remaining)"
    have busyM: "ctIsBusy p (trConfs t)" "plain p" if "p \<in> set remaining" for p
    proof -
      have "p \<in> set (mkeys (Members conf))" using stillIn_drop [OF wf m, of now reason] that rem by auto
      then have i: "map_of (memberIndex (trConfs t)) p = Some cid"
        using ct_okD(4) [OF tr_okD(1) [OF ok], of p cid] c by (simp add: mhas_iff)
      then show "ctIsBusy p (trConfs t)" by (simp add: ctIsBusy_def mhas_def)
      show "plain p" using i tr_okD(8) [OF ok] by (simp add: members_plain_def)
    qed
    have S: "{p. ctIsBusy p cs} = {p. ctIsBusy p (trConfs t)} - ?M"
      by (auto simp: ctIsBusy_def mhas_def cs map_of_mdels split: if_splits)
    have dist: "distinct remaining"
      using wf by (simp add: rem stillIn_def conf_wf_def mwf_def [symmetric] distinct_map_filter)
    show ?thesis
    proof (cases "ConferenceByPhone phone (trConfs t) \<noteq> None \<and> db \<and> length remaining = 2")
      case False
      show ?thesis
        by (rule less) (use False Pair Inr in \<open>auto simp: DropMemberPersistent_def Let_def split: list.splits\<close>)
    next
      case True
      then obtain x y where xy: "remaining = [x, y]" by (auto simp: numeral_2_eq_2 length_Suc_conv)
      obtain a b where ab: "sortedPair x y = (a, b)" "{a, b} = {x, y}"
        by (cases "y < x") (auto simp: sortedPair_def)
      have neq: "a \<noteq> b" using dist ab(2) xy by (auto simp: doubleton_eq_iff)
      have in_rem: "a \<in> set remaining" "b \<in> set remaining" using ab(2) xy by auto
      let ?k = "callKey a b" and ?c = "\<lparr>acID = trNextID t, acCaller = a, acCallee = b, acStartedAt = now\<rparr>"
      let ?t = "t\<lparr>trActive := mput ?k ?c (trActive t)\<rparr>"
      have "trBook (snd (DropMemberPersistent db now cid phone reason t)) = (fst (trBook ?t), snd (trBook t) - ?M)"
        using True Pair Inr xy ab S
        by (cases "ConferenceByPhone phone (trConfs t)") (simp_all add: DropMemberPersistent_def Let_def
            insertCall_def dropMemberTx_def trBook_def activeCalls_def)
      moreover have "book_step (trBook t) (fst (trBook ?t), snd (trBook t) - ?M)"
      proof (cases "map_of (trActive t) ?k")
        case None
        have "book_step (fst (trBook t), snd (trBook t)) (add_mset (a, b) (fst (trBook t)), snd (trBook t) - ?M)"
          by (rule book_step.split) (use busyM in_rem neq in \<open>auto simp: trBook_def\<close>)
        then show ?thesis by (simp add: trBook_put [OF None])
      next
        case (Some c)
        have "acCaller c = a \<and> acCallee c = b"
          using key_busy [OF ok Some] busyM(2) in_rem by blast
        then have "fst (trBook ?t) = fst (trBook t)"
          using mput_same [OF Some, of "\<lambda>c. (acCaller c, acCallee c)" ?c]
          by (simp add: trBook_def activeCalls_def flip: mset_map)
        then show ?thesis using book_step.less [of "fst (trBook t)" "fst (trBook t)" "snd (trBook t) - ?M" "snd (trBook t)"]
          by auto
      qed
      ultimately show ?thesis by simp
    qed
  qed (use less [of t] Pair in \<open>simp add: DropMemberPersistent_def\<close>)
qed

lemma ended_confs [simp]:
  "trConfs (snd (OnCallEndedWithReason db now a b reason t)) = trConfs t"
  "trConfs (ClearByNumber db now n t) = trConfs t"
  by (simp_all add: OnCallEndedWithReason_def ClearByNumber_def Let_def)

lemma quiet_ops [simp]:
  "trActive (snd (OnCallAnswered db now a b t)) = trActive t"
  "trConfs (snd (OnCallAnswered db now a b t)) = trConfs t"
  "trActive (snd (RenameNumber db a b t)) = trActive t" "trConfs (snd (RenameNumber db a b t)) = trConfs t"
  "trActive (snd (MarkForceEnded db cid u t)) = trActive t" "trConfs (snd (MarkForceEnded db cid u t)) = trConfs t"
  "trActive (snd (RecordKick db cid2 p u t)) = trActive t" "trConfs (snd (RecordKick db cid2 p u t)) = trConfs t"
  by (cases db; simp add: OnCallAnswered_def RenameNumber_def MarkForceEnded_def RecordKick_def)+

lemma quiet_book: "trActive t' = trActive t \<Longrightarrow> trConfs t' = trConfs t \<Longrightarrow> book_step (trBook t) (trBook t')"
  by (rule book_sub) simp_all

lemma tr_step_book:
  assumes ok: "tr_ok t" and adm: "admits m t"
  shows "book_step (trBook t) (trBook (tr_step m t))"
proof (cases m)
  case (TrInitiated db now a b)
  then show ?thesis using Initiated_book [OF ok] adm by simp
next
  case (TrCreateConf db newId now host orig added)
  then show ?thesis using Create_book [OF ok] adm by simp
next
  case (TrEnded db now a b reason)
  have "mset (trActive (tr_step m t)) \<subseteq># mset (trActive t)"
    unfolding TrEnded tr_step.simps OnCallEndedWithReason_active
    by (rule subset_mset.trans [OF mset_mdel mset_mdel])
  then show ?thesis by (rule book_sub) (simp add: TrEnded)
next
  case (TrClear db now n)
  have "mset (trActive (tr_step m t)) \<subseteq># mset (trActive t)"
    unfolding TrClear tr_step.simps ClearByNumber_trActive by (rule mset_mdels)
  then show ?thesis by (rule book_sub) (simp add: TrClear)
qed (simp_all add: End_book [OF ok] Drop_book [OF ok] quiet_book)

interpretation tracker_book: call_book trBook tr_ok tr_step admits Busy CanAddAsHost
proof
  show "tr_ok (tr_step m t)" if "tr_ok t" "admits m t" for m t
    using tracker.step_inv [OF admits_ok [OF that(2)] that(1)] .
qed (rule tr_step_book Busy_book canAdd_book; assumption?)+

lemma trBook_New: "trBook (NewTracker h d obs) = ({#}, {})"
  by (simp add: trBook_def NewTracker_def activeCalls_def ctIsBusy_def NewConferenceTracker_def mhas_def)

lemma admission_New: "admission (trBook (NewTracker h d obs))"
  by (simp add: trBook_New admission_def callsOf_def)

end
