(* ===== verification/Relay_Inv.thy ===== *)
theory Relay_Inv
  imports Relay Call_Book Hub_Inv
begin

text \<open>
  The relay as a machine and its invariant.  Every move changes the hub and the tracker only
  through their own operations, so their invariants and the admission rule of the call book
  carry over, and the grace table lists exactly the timers that are still pending.
\<close>

section \<open>What the elementary operations leave alone\<close>

lemma emit_frame [simp]:
  "rTr (relayEmit es r) = rTr r" "rTracking (relayEmit es r) = rTracking r" "rGraceWindow (relayEmit es r) = rGraceWindow r"
  "extensions (relayEmit es r) = extensions r" "graceTimers (relayEmit es r) = graceTimers r" "rEntries (relayEmit es r) = rEntries r"
  "rPanic (relayEmit es r) = rPanic r" "pendingReturns (relayEmit es r) = pendingReturns r" "rHub (relayEmit es r) = rHub r"
  by (simp_all add: relayEmit_def)

lemma error_frame [simp]:
  "rTr (observeError w c r) = rTr r" "rTracking (observeError w c r) = rTracking r" "rGraceWindow (observeError w c r) = rGraceWindow r"
  "extensions (observeError w c r) = extensions r" "graceTimers (observeError w c r) = graceTimers r" "rEntries (observeError w c r) = rEntries r"
  "rPanic (observeError w c r) = rPanic r" "pendingReturns (observeError w c r) = pendingReturns r" "rHub (observeError w c r) = rHub r"
  by (simp_all add: observeError_def)

lemma sendResult_frame [simp]:
  "rTr (snd (sendResult w n m r)) = rTr r" "rTracking (snd (sendResult w n m r)) = rTracking r" "rGraceWindow (snd (sendResult w n m r)) = rGraceWindow r"
  "extensions (snd (sendResult w n m r)) = extensions r" "graceTimers (snd (sendResult w n m r)) = graceTimers r" "rEntries (snd (sendResult w n m r)) = rEntries r"
  "rPanic (snd (sendResult w n m r)) = rPanic r" "pendingReturns (snd (sendResult w n m r)) = pendingReturns r"
  by (simp_all add: sendResult_def split_beta)

lemma sendLine_frame [simp]:
  "rTr (sendLine w n m r) = rTr r" "rTracking (sendLine w n m r) = rTracking r" "rGraceWindow (sendLine w n m r) = rGraceWindow r"
  "extensions (sendLine w n m r) = extensions r" "graceTimers (sendLine w n m r) = graceTimers r" "rEntries (sendLine w n m r) = rEntries r"
  "rPanic (sendLine w n m r) = rPanic r" "pendingReturns (sendLine w n m r) = pendingReturns r"
  by (simp_all add: sendLine_def)

lemma sendHardware_frame [simp]:
  "rTr (sendHardware w h m r) = rTr r" "rTracking (sendHardware w h m r) = rTracking r" "rGraceWindow (sendHardware w h m r) = rGraceWindow r"
  "extensions (sendHardware w h m r) = extensions r" "graceTimers (sendHardware w h m r) = graceTimers r" "rEntries (sendHardware w h m r) = rEntries r"
  "rPanic (sendHardware w h m r) = rPanic r" "pendingReturns (sendHardware w h m r) = pendingReturns r"
  by (simp_all add: sendHardware_def)

lemma forward_frame [simp]:
  "rTr (forward w m r) = rTr r" "rTracking (forward w m r) = rTracking r" "rGraceWindow (forward w m r) = rGraceWindow r"
  "extensions (forward w m r) = extensions r" "graceTimers (forward w m r) = graceTimers r" "rEntries (forward w m r) = rEntries r"
  "rPanic (forward w m r) = rPanic r" "pendingReturns (forward w m r) = pendingReturns r"
  by (simp_all add: forward_def split_beta)

lemma reply_frame [simp]:
  "rTr (sendError w n x r) = rTr r" "rTracking (sendError w n x r) = rTracking r" "rGraceWindow (sendError w n x r) = rGraceWindow r"
  "extensions (sendError w n x r) = extensions r" "graceTimers (sendError w n x r) = graceTimers r" "rEntries (sendError w n x r) = rEntries r"
  "rPanic (sendError w n x r) = rPanic r" "pendingReturns (sendError w n x r) = pendingReturns r"
  by (simp_all add: sendError_def)

lemma busy_frame [simp]:
  "rTr (sendBusy w n x r) = rTr r" "rTracking (sendBusy w n x r) = rTracking r" "rGraceWindow (sendBusy w n x r) = rGraceWindow r"
  "extensions (sendBusy w n x r) = extensions r" "graceTimers (sendBusy w n x r) = graceTimers r" "rEntries (sendBusy w n x r) = rEntries r"
  "rPanic (sendBusy w n x r) = rPanic r" "pendingReturns (sendBusy w n x r) = pendingReturns r"
  by (simp_all add: sendBusy_def)

lemma rejection_frame [simp]:
  "rTr (sendRejection w n c x r) = rTr r" "rTracking (sendRejection w n c x r) = rTracking r" "rGraceWindow (sendRejection w n c x r) = rGraceWindow r"
  "extensions (sendRejection w n c x r) = extensions r" "graceTimers (sendRejection w n c x r) = graceTimers r" "rEntries (sendRejection w n c x r) = rEntries r"
  "rPanic (sendRejection w n c x r) = rPanic r" "pendingReturns (sendRejection w n c x r) = pendingReturns r"
  by (simp_all add: sendRejection_def)

lemma fold_keeps: "(\<And>x r. F (g x r) = F r) \<Longrightarrow> F (fold g xs r) = F r"
  by (induction xs arbitrary: r) auto

lemma lines_frame [simp]:
  "rTr (fold (\<lambda>p. sendLine w p (m p)) ps r) = rTr r" "rTracking (fold (\<lambda>p. sendLine w p (m p)) ps r) = rTracking r"
  "rGraceWindow (fold (\<lambda>p. sendLine w p (m p)) ps r) = rGraceWindow r" "extensions (fold (\<lambda>p. sendLine w p (m p)) ps r) = extensions r"
  "graceTimers (fold (\<lambda>p. sendLine w p (m p)) ps r) = graceTimers r" "rEntries (fold (\<lambda>p. sendLine w p (m p)) ps r) = rEntries r"
  "rPanic (fold (\<lambda>p. sendLine w p (m p)) ps r) = rPanic r" "pendingReturns (fold (\<lambda>p. sendLine w p (m p)) ps r) = pendingReturns r"
  by (simp_all add: fold_keeps)

lemma devices_frame [simp]:
  "rTr (fold (\<lambda>h. sendHardware w h (m h)) ps r) = rTr r" "rTracking (fold (\<lambda>h. sendHardware w h (m h)) ps r) = rTracking r"
  "rGraceWindow (fold (\<lambda>h. sendHardware w h (m h)) ps r) = rGraceWindow r" "extensions (fold (\<lambda>h. sendHardware w h (m h)) ps r) = extensions r"
  "graceTimers (fold (\<lambda>h. sendHardware w h (m h)) ps r) = graceTimers r" "rEntries (fold (\<lambda>h. sendHardware w h (m h)) ps r) = rEntries r"
  "rPanic (fold (\<lambda>h. sendHardware w h (m h)) ps r) = rPanic r" "pendingReturns (fold (\<lambda>h. sendHardware w h (m h)) ps r) = pendingReturns r"
  by (simp_all add: fold_keeps)

lemma check_frame [simp]:
  "rTr (checkPendingReturn w q r) = rTr r" "rTracking (checkPendingReturn w q r) = rTracking r" "rGraceWindow (checkPendingReturn w q r) = rGraceWindow r"
  "extensions (checkPendingReturn w q r) = extensions r" "graceTimers (checkPendingReturn w q r) = graceTimers r" "rEntries (checkPendingReturn w q r) = rEntries r"
  "rPanic (checkPendingReturn w q r) = rPanic r"
  by (simp_all add: checkPendingReturn_def split: option.split)

lemma checks_frame [simp]:
  "rTr (fold (checkPendingReturn w) qs r) = rTr r" "rTracking (fold (checkPendingReturn w) qs r) = rTracking r"
  "rGraceWindow (fold (checkPendingReturn w) qs r) = rGraceWindow r" "extensions (fold (checkPendingReturn w) qs r) = extensions r"
  "graceTimers (fold (checkPendingReturn w) qs r) = graceTimers r" "rEntries (fold (checkPendingReturn w) qs r) = rEntries r"
  "rPanic (fold (checkPendingReturn w) qs r) = rPanic r"
  by (simp_all add: fold_keeps)

lemma notify_frame [simp]:
  "rTr (OnCallEndedNotify w a b r) = rTr r" "rTracking (OnCallEndedNotify w a b r) = rTracking r" "rGraceWindow (OnCallEndedNotify w a b r) = rGraceWindow r"
  "extensions (OnCallEndedNotify w a b r) = extensions r" "graceTimers (OnCallEndedNotify w a b r) = graceTimers r" "rEntries (OnCallEndedNotify w a b r) = rEntries r"
  "rPanic (OnCallEndedNotify w a b r) = rPanic r"
  by (simp_all add: OnCallEndedNotify_def Let_def)

lemma observe_frame [simp]:
  "rTr (observeTracker w es r) = rTr r" "rTracking (observeTracker w es r) = rTracking r" "rGraceWindow (observeTracker w es r) = rGraceWindow r"
  "extensions (observeTracker w es r) = extensions r" "graceTimers (observeTracker w es r) = graceTimers r" "rEntries (observeTracker w es r) = rEntries r"
  "rPanic (observeTracker w es r) = rPanic r"
  by (induction w es r rule: observeTracker.induct) auto

lemma observed_frame [simp]:
  "rTr (observed w t r) = t"
  "rTracking (observed w t r) = rTracking r" "rGraceWindow (observed w t r) = rGraceWindow r" "extensions (observed w t r) = extensions r"
  "graceTimers (observed w t r) = graceTimers r" "rEntries (observed w t r) = rEntries r" "rPanic (observed w t r) = rPanic r"
  by (simp_all add: observed_def)

section \<open>The tracker moves only by its operations\<close>

definition via :: "Tracker \<Rightarrow> Tracker \<Rightarrow> bool" where
  "via t t' \<longleftrightarrow> (\<exists>ms. allowed_run tr_step admits ms t \<and> t' = fold tr_step ms t)"

lemma allowed_run_append:
  "allowed_run step ok (ms @ ns) s \<longleftrightarrow> allowed_run step ok ms s \<and> allowed_run step ok ns (fold step ms s)"
  by (induction ms arbitrary: s) auto

lemma via_refl [simp]: "via t t"
  unfolding via_def by (rule exI [of _ "[]"]) simp

lemma via_op: "admits m t \<Longrightarrow> via t (tr_step m t)"
  unfolding via_def by (rule exI [of _ "[m]"]) simp

lemma via_trans: "via t u \<Longrightarrow> via u v \<Longrightarrow> via t v"
  unfolding via_def by (metis allowed_run_append comp_apply fold_append)

lemma via_ops:
  "via t (snd (OnCallAnswered db now a b t))" "via t (snd (OnCallEndedWithReason db now a b reason t))"
  "via t (ClearByNumber db now n t)" "via t (snd (EndConferencePersistent db now cid reason t))"
  "via t (snd (DropMemberPersistent db now cid p reason t))"
  using via_op [of "TrAnswered db now a b" t] via_op [of "TrEnded db now a b reason" t]
    via_op [of "TrClear db now n" t] via_op [of "TrEndConf db now cid reason" t]
    via_op [of "TrDrop db now cid p reason" t]
  by simp_all

lemma via_good: "via t u \<Longrightarrow> tr_ok t \<Longrightarrow> tr_ok u"
  using tracker_book.runs unfolding via_def by blast

lemma via_book: "via t u \<Longrightarrow> tr_ok t \<Longrightarrow> book_step\<^sup>*\<^sup>* (trBook t) (trBook u)"
  using tracker_book.runs unfolding via_def by blast

lemma handleCall_via:
  assumes "plain from" "plain (mTo msg)"
  shows "via (rTr r) (rTr (handleCall w from msg r))"
proof -
  have "via (rTr r) (snd (OnCallInitiated db now from (mTo msg) (rTr r)))"
    if "\<not> Busy (mTo msg) (rTr r)" "\<not> Busy from (rTr r) \<or> CanAddAsHost from (rTr r)" for db now
    using via_op [of "TrInitiated db now from (mTo msg)" "rTr r"] assms that by simp
  then show ?thesis
    by (auto simp: handleCall_def Let_def split: option.splits sum.splits prod.splits) (metis snd_conv)+
qed

lemma handleAnswer_via: "via (rTr r) (rTr (handleAnswer w from msg r))"
  by (auto simp: handleAnswer_def rejectNoDest_def Let_def via_ops)

lemma endCallsWith_frame [simp]:
  "rTracking (endCallsWith w n reason ps r) = rTracking r"
  "extensions (endCallsWith w n reason ps r) = extensions r"
  "graceTimers (endCallsWith w n reason ps r) = graceTimers r"
  "rEntries (endCallsWith w n reason ps r) = rEntries r"
  "rPanic (endCallsWith w n reason ps r) = rPanic r"
  "rGraceWindow (endCallsWith w n reason ps r) = rGraceWindow r"
  by (induction ps arbitrary: r) auto

lemma endCallsWith_via: "via (rTr r) (rTr (endCallsWith w n reason ps r))"
proof (induction ps arbitrary: r)
  case (Cons p ps)
  show ?case unfolding endCallsWith.simps
    by (rule via_trans [OF _ Cons.IH]) (simp add: via_ops)
qed simp

lemma clears_frame [simp]:
  "rTr (clearExtension w hw r) = rTr r" "rTr (clearExtensionsForCall w n r) = rTr r"
  "rTracking (clearExtension w hw r) = rTracking r" "rTracking (clearExtensionsForCall w n r) = rTracking r"
  "graceTimers (clearExtension w hw r) = graceTimers r" "graceTimers (clearExtensionsForCall w n r) = graceTimers r"
  "rEntries (clearExtension w hw r) = rEntries r" "rEntries (clearExtensionsForCall w n r) = rEntries r"
  "rGraceWindow (clearExtension w hw r) = rGraceWindow r"
  "rGraceWindow (clearExtensionsForCall w n r) = rGraceWindow r"
  by (simp_all add: clearExtension_def clearExtensionsForCall_def Let_def split: option.split)

lemma endActive_via: "via (rTr r) (rTr (endActiveCallsAsHangup w n reason r))"
  by (simp add: endActiveCallsAsHangup_def Let_def endCallsWith_via)

lemma endActive_frame [simp]:
  "rTracking (endActiveCallsAsHangup w n reason r) = rTracking r"
  "graceTimers (endActiveCallsAsHangup w n reason r) = graceTimers r"
  "rEntries (endActiveCallsAsHangup w n reason r) = rEntries r"
  "rGraceWindow (endActiveCallsAsHangup w n reason r) = rGraceWindow r"
  by (simp_all add: endActiveCallsAsHangup_def Let_def)

lemma endConference_frame [simp]:
  "rTracking (endConference w cid reason r) = rTracking r"
  "graceTimers (endConference w cid reason r) = graceTimers r"
  "rEntries (endConference w cid reason r) = rEntries r"
  "rGraceWindow (endConference w cid reason r) = rGraceWindow r"
  by (simp_all add: endConference_def split: option.split)

lemma drop_frame [simp]:
  "rTracking (dropMemberFromConference w cid p reason r) = rTracking r"
  "graceTimers (dropMemberFromConference w cid p reason r) = graceTimers r"
  "rEntries (dropMemberFromConference w cid p reason r) = rEntries r"
  "rGraceWindow (dropMemberFromConference w cid p reason r) = rGraceWindow r"
  by (simp_all add: dropMemberFromConference_def Let_def split: option.split sum.split prod.split)

lemma endConference_via: "via (rTr r) (rTr (endConference w cid reason r))"
  by (simp add: endConference_def via_ops split: option.split)

lemma drop_via: "via (rTr r) (rTr (dropMemberFromConference w cid p reason r))"
proof -
  have "via (rTr r) t" if "DropMemberPersistent db now cid p reason (rTr r) = (x, t)" for db now x t
    using via_ops(5) [of "rTr r" db now cid p reason] that by simp
  then show ?thesis
    by (auto simp: dropMemberFromConference_def Let_def split: option.split sum.split prod.split)
qed

lemma Kick_via: "via (rTr r) (rTr (KickMember w cid p reason r))"
  unfolding KickMember_def using drop_via [of "sendLine w p (confEndMsg w cid reason) r"] by simp

lemma handleHangup_via: "via (rTr r) (rTr (handleHangup w from msg r))"
  by (simp add: handleHangup_def endConference_via drop_via endActive_via split: option.split)

lemma merge_via:
  assumes "\<not> mhas (wNewUUID w) (ctActive (trConfs (rTr r)))"
  shows "via (rTr r) (rTr (handleConferenceMerge w host msg r))"
proof -
  let ?orig = "CallIDForPair host (mHeldPeer msg) (rTr r)"
  have "via (rTr r) t" if "CreateConferencePersistent db (wNewUUID w) now host ?orig [mHeldPeer msg, mActivePeer msg] (rTr r) = (x, t)"
    for db now x t
    using via_op [of "TrCreateConf db (wNewUUID w) now host ?orig [mHeldPeer msg, mActivePeer msg]" "rTr r"]
      assms that by (simp add: origin_ok_def)
  then show ?thesis
    by (auto simp: handleConferenceMerge_def Let_def split: sum.split prod.split)
qed

text \<open>The handlers that never touch the tracker.\<close>

lemma route_frame [simp]:
  "rTr (snd (routeExtensionSignaling w from msg r)) = rTr r"
  "extensions (snd (routeExtensionSignaling w from msg r)) = extensions r"
  "graceTimers (snd (routeExtensionSignaling w from msg r)) = graceTimers r"
  "rEntries (snd (routeExtensionSignaling w from msg r)) = rEntries r"
  "rTracking (snd (routeExtensionSignaling w from msg r)) = rTracking r"
  "rGraceWindow (snd (routeExtensionSignaling w from msg r)) = rGraceWindow r"
  by (simp_all add: routeExtensionSignaling_def split: option.split sum.split)

lemma other_frame [simp]:
  "rTr (handleCallReturn w from r) = rTr r" "rTr (handleCallReturnRetry w from msg r) = rTr r"
  "rTr (handleCallReturnCancel w from r) = rTr r" "rTr (handleDTMF w from msg r) = rTr r"
  "rTr (handleICERestart w from msg r) = rTr r" "rTr (handleExtensionPickup w from msg r) = rTr r"
  "rTr (handleSignalingForward w from msg r) = rTr r" "rTr (ForceHangup w a b r) = rTr r"
  "rTr (OnRegistered w n r) = rTr r" "rTr (handleRequestICE w n r) = rTr r"
  "rTr (handleLinkHealth w from msg r) = rTr r" "rTr (handleDeviceInfo w msg r) = rTr r"
  "rTr (startGraceTimer w n hw p r) = rTr r" "rTr (snd (cancelGraceLocal n hw r)) = rTr r"
  "rTr (OnReconnect n hw r) = rTr r" "rTr (HandleRemoteReconnect n hw r) = rTr r"
  subgoal by (simp add: handleCallReturn_def)
  subgoal by (simp add: handleCallReturnRetry_def)
  subgoal by (simp add: handleCallReturnCancel_def)
  subgoal by (simp add: handleDTMF_def rejectNoDest_def)
  subgoal by (simp add: handleICERestart_def rejectNoDest_def Let_def split: prod.split option.split)
  subgoal by (simp add: handleExtensionPickup_def Let_def)
  subgoal by (simp add: handleSignalingForward_def rejectNoDest_def Let_def split_beta)
  subgoal by (simp add: ForceHangup_def)
  subgoal by (simp add: OnRegistered_def split: option.split)
  subgoal by (simp add: handleRequestICE_def Let_def)
  subgoal by (simp add: handleLinkHealth_def split: option.split prod.split bool.split)
  subgoal by (simp add: handleDeviceInfo_def Let_def)
  subgoal by (simp add: startGraceTimer_def cancelEntry_def Let_def split: option.split)
  subgoal by (simp add: cancelGraceLocal_def cancelEntry_def Let_def split: option.split)
  subgoal by (simp add: OnReconnect_def cancelGraceLocal_def cancelEntry_def Let_def split: option.split)
  subgoal by (simp add: HandleRemoteReconnect_def cancelGraceLocal_def cancelEntry_def Let_def split: option.split)
  done

lemma graceFire_via: "via (rTr r) (rTr (graceFire w i r))"
proof -
  have "via (rTr r) (rTr (endActiveCallsAsHangup w n reason (r\<lparr>rEntries := x, graceTimers := y\<rparr>)))" for n reason x y
    using endActive_via [of "r\<lparr>rEntries := x, graceTimers := y\<rparr>" w n reason] by simp
  then show ?thesis by (simp add: graceFire_def Let_def)
qed

lemma Disconnect_via: "via (rTr r) (rTr (OnDisconnect w n hw r))"
proof -
  have conf: "via (rTr r) (ClearByNumber db now n (rTr (endConference w cid reason q)))"
    if "rTr q = rTr r" for db now cid reason q
    using via_trans [OF endConference_via via_ops(3)] that by metis
  show ?thesis by (simp add: OnDisconnect_def Let_def via_ops conf split: option.split)
qed

lemma Closed_via: "via (rTr r) (rTr (OnConnClosed w c r))"
  by (simp add: OnConnClosed_def Disconnect_via split: option.split)

definition message_ok :: "World \<Rightarrow> string \<Rightarrow> Message \<Rightarrow> Relay \<Rightarrow> bool" where
  "message_ok w from msg r \<longleftrightarrow>
     plain from \<and> (mType msg = TypeCall \<longrightarrow> plain (mTo msg))
     \<and> (mType msg = TypeConferenceMerge \<longrightarrow> \<not> mhas (wNewUUID w) (ctActive (trConfs (rTr r))))"

lemma HandleMessage_via:
  assumes "message_ok w from msg r"
  shows "via (rTr r) (rTr (HandleMessage w from msg r))"
  using assms
  by (simp add: HandleMessage_def Let_def message_ok_def handleCall_via handleAnswer_via handleHangup_via merge_via)

section \<open>The hub moves only by its operations\<close>

lemma hub_ok_send [simp]:
  "hub_ok h \<Longrightarrow> hub_ok (snd (SendTo ms n m h))" "hub_ok h \<Longrightarrow> hub_ok (snd (SendToHardware ms n m h))"
  "hub_ok h \<Longrightarrow> hub_ok (PublishReconnect n hw h)" "hub_ok h \<Longrightarrow> hub_ok (SetUpdateStatus hw s d now h)"
  "hub_ok h \<Longrightarrow> hub_ok (SetVoicemailUnheard n hw k h)"
  "hub_ok h \<Longrightarrow> hub_ok (snd (UpdateDeviceInfoByHardware ip hw p h))"
  using hub_step_ok [of h ms undefined "MvSendTo n m"] hub_step_ok [of h ms undefined "MvSendToHardware n m"]
    hub_step_ok [of h ms undefined "MvPublishReconnect n hw"]
    hub_step_ok [of h ms undefined "MvSetUpdateStatus hw s d now"]
    hub_step_ok [of h ms undefined "MvSetVoicemailUnheard n hw k"]
    hub_step_ok [of h ms ip "MvUpdateDeviceInfoByHardware hw p"]
  by simp_all

lemma relay_hub_ok [simp]:
  "hub_ok (rHub r) \<Longrightarrow> hub_ok (rHub (snd (sendResult w n m r)))"
  "hub_ok (rHub r) \<Longrightarrow> hub_ok (rHub (sendLine w n m r))"
  "hub_ok (rHub r) \<Longrightarrow> hub_ok (rHub (sendHardware w n m r))"
  "hub_ok (rHub r) \<Longrightarrow> hub_ok (rHub (forward w m r))"
  by (simp_all add: sendResult_def sendLine_def sendHardware_def forward_def split_beta relayEmit_def
      observeError_def)

end
