(* ===== verification/Relay_Runs.thy ===== *)
theory Relay_Runs
  imports Relay_Inv Hub_Props
begin

text \<open>
  The relay's runs: the moves of the process (messages, devices coming and going, timers,
  administrators), the invariant they keep, and the table of pending grace timers.
\<close>

section \<open>The grace table\<close>

lemma grace_frame [simp]:
  "graceTimers (handleCall w from msg r) = graceTimers r" "rEntries (handleCall w from msg r) = rEntries r"
  "graceTimers (handleAnswer w from msg r) = graceTimers r" "rEntries (handleAnswer w from msg r) = rEntries r"
  "graceTimers (handleHangup w from msg r) = graceTimers r" "rEntries (handleHangup w from msg r) = rEntries r"
  "graceTimers (handleConferenceMerge w from msg r) = graceTimers r" "rEntries (handleConferenceMerge w from msg r) = rEntries r"
  "graceTimers (KickMember w cid p reason r) = graceTimers r" "rEntries (KickMember w cid p reason r) = rEntries r"
  "graceTimers (handleCallReturn w from r) = graceTimers r" "rEntries (handleCallReturn w from r) = rEntries r"
  "graceTimers (handleCallReturnRetry w from msg r) = graceTimers r" "rEntries (handleCallReturnRetry w from msg r) = rEntries r"
  "graceTimers (handleCallReturnCancel w from r) = graceTimers r" "rEntries (handleCallReturnCancel w from r) = rEntries r"
  "graceTimers (handleDTMF w from msg r) = graceTimers r" "rEntries (handleDTMF w from msg r) = rEntries r"
  "graceTimers (handleICERestart w from msg r) = graceTimers r" "rEntries (handleICERestart w from msg r) = rEntries r"
  "graceTimers (handleExtensionPickup w from msg r) = graceTimers r" "rEntries (handleExtensionPickup w from msg r) = rEntries r"
  "graceTimers (handleSignalingForward w from msg r) = graceTimers r" "rEntries (handleSignalingForward w from msg r) = rEntries r"
  "graceTimers (ForceHangup w a b r) = graceTimers r" "rEntries (ForceHangup w a b r) = rEntries r"
  "graceTimers (OnRegistered w n r) = graceTimers r" "rEntries (OnRegistered w n r) = rEntries r"
  "graceTimers (handleRequestICE w n r) = graceTimers r" "rEntries (handleRequestICE w n r) = rEntries r"
  "graceTimers (handleLinkHealth w from msg r) = graceTimers r" "rEntries (handleLinkHealth w from msg r) = rEntries r"
  "graceTimers (handleDeviceInfo w msg r) = graceTimers r" "rEntries (handleDeviceInfo w msg r) = rEntries r"
  subgoal by (simp add: handleCall_def Let_def split: option.split sum.split prod.split)
  subgoal by (simp add: handleCall_def Let_def split: option.split sum.split prod.split)
  subgoal by (simp add: handleAnswer_def rejectNoDest_def Let_def)
  subgoal by (simp add: handleAnswer_def rejectNoDest_def Let_def)
  subgoal by (simp add: handleHangup_def split: option.split)
  subgoal by (simp add: handleHangup_def split: option.split)
  subgoal by (simp add: handleConferenceMerge_def Let_def split: sum.split prod.split)
  subgoal by (simp add: handleConferenceMerge_def Let_def split: sum.split prod.split)
  subgoal by (simp add: KickMember_def)
  subgoal by (simp add: KickMember_def)
  subgoal by (simp add: handleCallReturn_def)
  subgoal by (simp add: handleCallReturn_def)
  subgoal by (simp add: handleCallReturnRetry_def)
  subgoal by (simp add: handleCallReturnRetry_def)
  subgoal by (simp add: handleCallReturnCancel_def)
  subgoal by (simp add: handleCallReturnCancel_def)
  subgoal by (simp add: handleDTMF_def rejectNoDest_def)
  subgoal by (simp add: handleDTMF_def rejectNoDest_def)
  subgoal by (simp add: handleICERestart_def rejectNoDest_def Let_def split: prod.split option.split)
  subgoal by (simp add: handleICERestart_def rejectNoDest_def Let_def split: prod.split option.split)
  subgoal by (simp add: handleExtensionPickup_def Let_def)
  subgoal by (simp add: handleExtensionPickup_def Let_def)
  subgoal by (simp add: handleSignalingForward_def rejectNoDest_def Let_def split_beta)
  subgoal by (simp add: handleSignalingForward_def rejectNoDest_def Let_def split_beta)
  subgoal by (simp add: ForceHangup_def)
  subgoal by (simp add: ForceHangup_def)
  subgoal by (simp add: OnRegistered_def split: option.split)
  subgoal by (simp add: OnRegistered_def split: option.split)
  subgoal by (simp add: handleRequestICE_def Let_def)
  subgoal by (simp add: handleRequestICE_def Let_def)
  subgoal by (simp add: handleLinkHealth_def split: option.split prod.split bool.split)
  subgoal by (simp add: handleLinkHealth_def split: option.split prod.split bool.split)
  subgoal by (simp add: handleDeviceInfo_def Let_def)
  subgoal by (simp add: handleDeviceInfo_def Let_def)
  done

lemma HandleMessage_grace [simp]:
  "graceTimers (HandleMessage w from msg r) = graceTimers r" "rEntries (HandleMessage w from msg r) = rEntries r"
  by (simp_all add: HandleMessage_def Let_def)

text \<open>A timer is pending until it is cancelled or run.\<close>

definition pending :: "GraceEntry \<Rightarrow> bool" where
  "pending e \<longleftrightarrow> \<not> geCanceled e \<and> \<not> geFired e"

definition entryKey :: "GraceEntry \<Rightarrow> string" where
  "entryKey e = graceKey (geNumber e) (geHardwareID e)"

definition grace_ok :: "Relay \<Rightarrow> bool" where
  "grace_ok r \<longleftrightarrow>
     (\<forall>i < length (rEntries r). pending (rEntries r ! i) \<longrightarrow>
         map_of (graceTimers r) (entryKey (rEntries r ! i)) = Some i)
     \<and> (\<forall>k i. map_of (graceTimers r) k = Some i \<longrightarrow>
         i < length (rEntries r) \<and> pending (rEntries r ! i) \<and> entryKey (rEntries r ! i) = k)"

lemma grace_okD:
  assumes "grace_ok r"
  shows "i < length (rEntries r) \<Longrightarrow> pending (rEntries r ! i)
           \<Longrightarrow> map_of (graceTimers r) (entryKey (rEntries r ! i)) = Some i"
    and "map_of (graceTimers r) k = Some i \<Longrightarrow> i < length (rEntries r)"
    and "map_of (graceTimers r) k = Some i \<Longrightarrow> pending (rEntries r ! i)"
    and "map_of (graceTimers r) k = Some i \<Longrightarrow> entryKey (rEntries r ! i) = k"
  using assms by (simp_all add: grace_ok_def)

lemma grace_ok_cong: "graceTimers r' = graceTimers r \<Longrightarrow> rEntries r' = rEntries r \<Longrightarrow> grace_ok r' = grace_ok r"
  by (simp add: grace_ok_def)

text \<open>Timer \<open>i\<close> stops being pending and leaves the table.\<close>

lemma grace_ok_settle:
  assumes ok: "grace_ok r" and i: "i < length (rEntries r)" and e: "\<not> pending e"
    and k: "entryKey (rEntries r ! i) = k" and was: "pending (rEntries r ! i)"
  shows "grace_ok (r\<lparr>rEntries := (rEntries r)[i := e], graceTimers := mdel k (graceTimers r)\<rparr>)"
proof -
  have j: "j = i" if "j < length (rEntries r)" "pending (rEntries r ! j)" "entryKey (rEntries r ! j) = k" for j
    using grace_okD(1) [OF ok that(1,2)] grace_okD(1) [OF ok i was] k that(3) by simp
  show ?thesis
    unfolding grace_ok_def
  proof (intro conjI allI impI)
    fix j assume a: "j < length (rEntries (r\<lparr>rEntries := (rEntries r)[i := e], graceTimers := mdel k (graceTimers r)\<rparr>))"
      and p: "pending (rEntries (r\<lparr>rEntries := (rEntries r)[i := e], graceTimers := mdel k (graceTimers r)\<rparr>) ! j)"
    from p e have ne: "j \<noteq> i" using a by auto
    with a p have "j < length (rEntries r)" "pending (rEntries r ! j)" by simp_all
    with ne j grace_okD(1) [OF ok] show "map_of (graceTimers (r\<lparr>rEntries := (rEntries r)[i := e],
        graceTimers := mdel k (graceTimers r)\<rparr>)) (entryKey (rEntries (r\<lparr>rEntries := (rEntries r)[i := e],
        graceTimers := mdel k (graceTimers r)\<rparr>) ! j)) = Some j" by auto
  next
    fix l j assume a: "map_of (graceTimers (r\<lparr>rEntries := (rEntries r)[i := e], graceTimers := mdel k (graceTimers r)\<rparr>)) l = Some j"
    then have l: "l \<noteq> k" and m: "map_of (graceTimers r) l = Some j" by (auto split: if_splits)
    have "j \<noteq> i" using l k grace_okD(4) [OF ok m] by auto
    then show "j < length (rEntries (r\<lparr>rEntries := (rEntries r)[i := e], graceTimers := mdel k (graceTimers r)\<rparr>))"
      "pending (rEntries (r\<lparr>rEntries := (rEntries r)[i := e], graceTimers := mdel k (graceTimers r)\<rparr>) ! j)"
      "entryKey (rEntries (r\<lparr>rEntries := (rEntries r)[i := e], graceTimers := mdel k (graceTimers r)\<rparr>) ! j) = l"
      using grace_okD(2-4) [OF ok m] by simp_all
  qed
qed

lemma grace_ok_add:
  assumes ok: "grace_ok r" and free: "map_of (graceTimers r) (entryKey e) = None" and e: "pending e"
    and r': "rEntries r' = rEntries r @ [e]"
      "map_of (graceTimers r') = (map_of (graceTimers r))(entryKey e \<mapsto> length (rEntries r))"
  shows "grace_ok r'"
  unfolding grace_ok_def
proof (intro conjI allI impI)
  fix j assume "j < length (rEntries r')" "pending (rEntries r' ! j)"
  then show "map_of (graceTimers r') (entryKey (rEntries r' ! j)) = Some j"
    using grace_okD(1) [OF ok, of j] free r' by (auto simp: nth_append less_Suc_eq)
next
  fix k j assume "map_of (graceTimers r') k = Some j"
  then show "j < length (rEntries r')" "pending (rEntries r' ! j)" "entryKey (rEntries r' ! j) = k"
    using grace_okD(2-4) [OF ok, of k j] e r' by (auto simp: nth_append split: if_splits)
qed

text \<open>Cancelling is settling the entry of the key.\<close>

lemma cancel_ok:
  assumes ok: "grace_ok r"
  shows "grace_ok (snd (cancelGraceLocal n hw r))"
proof (cases "map_of (graceTimers r) (graceKey n hw)")
  case (Some i)
  note D = grace_okD(2-4) [OF ok Some]
  have "grace_ok (r\<lparr>rEntries := (rEntries r)[i := (rEntries r ! i)\<lparr>geCanceled := True\<rparr>],
      graceTimers := mdel (graceKey n hw) (graceTimers r)\<rparr>)"
    by (rule grace_ok_settle [OF ok D(1) _ D(3) D(2)]) (simp add: pending_def)
  then show ?thesis by (simp add: cancelGraceLocal_def Let_def Some cancelEntry_def)
qed (simp add: cancelGraceLocal_def ok)

lemma cancelled_key:
  assumes "grace_ok r"
  shows "map_of (graceTimers (snd (cancelGraceLocal n hw r))) (graceKey n hw) = None"
  by (simp add: cancelGraceLocal_def Let_def cancelEntry_def split: option.split)

lemma start_ok:
  assumes ok: "grace_ok r"
  shows "grace_ok (startGraceTimer w n hw p r)"
proof -
  let ?q = "snd (cancelGraceLocal n hw r)"
  let ?e = "\<lparr>geNumber = n, geHardwareID = hw, gePeer = p, geDue = wNow w + rGraceWindow r,
      geCanceled = False, geFired = False\<rparr>"
  have key: "entryKey ?e = graceKey n hw" by (simp add: entryKey_def)
  show ?thesis
  proof (rule grace_ok_add [OF cancel_ok [OF ok]])
    show "map_of (graceTimers ?q) (entryKey ?e) = None" unfolding key by (rule cancelled_key [OF ok])
    show "pending ?e" by (simp add: pending_def)
  qed (auto simp: startGraceTimer_def cancelGraceLocal_def cancelEntry_def Let_def key split: option.split)
qed

lemma fire_ok:
  assumes ok: "grace_ok r"
  shows "grace_ok (graceFire w i r)"
proof (cases "i < length (rEntries r) \<and> \<not> geFired (rEntries r ! i) \<and> geDue (rEntries r ! i) \<le> wNow w")
  case True
  let ?e = "rEntries r ! i"
  let ?f = "?e\<lparr>geFired := True\<rparr>"
  show ?thesis
  proof (cases "geCanceled ?e")
    case False
    have "pending ?e" using False True by (simp add: pending_def)
    then have "grace_ok (r\<lparr>rEntries := (rEntries r)[i := ?f],
        graceTimers := mdel (entryKey ?e) (graceTimers r)\<rparr>)"
      using True by (intro grace_ok_settle [OF ok]) (simp_all add: pending_def)
    then show ?thesis
      using True False by (auto simp: graceFire_def Let_def entryKey_def grace_ok_def)
  next
    case can: True
    have np: "\<not> pending ?e" "\<not> pending ?f" using can by (simp_all add: pending_def)
    have "grace_ok (r\<lparr>rEntries := (rEntries r)[i := ?f]\<rparr>)"
      unfolding grace_ok_def
    proof (intro conjI allI impI)
      fix j assume a: "j < length (rEntries (r\<lparr>rEntries := (rEntries r)[i := ?f]\<rparr>))"
        and p: "pending (rEntries (r\<lparr>rEntries := (rEntries r)[i := ?f]\<rparr>) ! j)"
      have ji: "j \<noteq> i" using p np(2) a by auto
      with grace_okD(1) [OF ok, of j] a p show "map_of (graceTimers (r\<lparr>rEntries := (rEntries r)[i := ?f]\<rparr>))
          (entryKey (rEntries (r\<lparr>rEntries := (rEntries r)[i := ?f]\<rparr>) ! j)) = Some j" by simp
    next
      fix k j assume "map_of (graceTimers (r\<lparr>rEntries := (rEntries r)[i := ?f]\<rparr>)) k = Some j"
      then have m: "map_of (graceTimers r) k = Some j" by simp
      note D = grace_okD(2-4) [OF ok m]
      have ji: "j \<noteq> i" using D(2) np(1) by auto
      then show "j < length (rEntries (r\<lparr>rEntries := (rEntries r)[i := ?f]\<rparr>))"
        "pending (rEntries (r\<lparr>rEntries := (rEntries r)[i := ?f]\<rparr>) ! j)"
        "entryKey (rEntries (r\<lparr>rEntries := (rEntries r)[i := ?f]\<rparr>) ! j) = k"
        using D by simp_all
    qed
    then show ?thesis using True can by (simp add: graceFire_def Let_def)
  qed
qed (use ok in \<open>auto simp: graceFire_def\<close>)

lemma disconnect_ok:
  assumes ok: "grace_ok r"
  shows "grace_ok (OnDisconnect w n hw r)"
proof -
  let ?r = "if hw \<noteq> [] then clearExtension w hw r else r"
  have okr: "grace_ok ?r" using ok by (simp add: grace_ok_def)
  show ?thesis
    using ok start_ok [OF okr]
    by (auto simp: OnDisconnect_def Let_def grace_ok_def split: option.split)
qed

section \<open>The hub's invariant\<close>

lemma fold_hub_ok:
  "(\<And>x r. hub_ok (rHub r) \<Longrightarrow> hub_ok (rHub (g x r))) \<Longrightarrow> hub_ok (rHub r) \<Longrightarrow> hub_ok (rHub (fold g xs r))"
  by (induction xs arbitrary: r) auto

lemma parts_hub_ok [simp]:
  "hub_ok (rHub r) \<Longrightarrow> hub_ok (rHub (sendError w n x r))" "hub_ok (rHub r) \<Longrightarrow> hub_ok (rHub (sendBusy w n x r))"
  "hub_ok (rHub r) \<Longrightarrow> hub_ok (rHub (sendRejection w n c x r))"
  "hub_ok (rHub r) \<Longrightarrow> hub_ok (rHub (fold (\<lambda>p. sendLine w p (m p)) ps r))"
  "hub_ok (rHub r) \<Longrightarrow> hub_ok (rHub (fold (\<lambda>h. sendHardware w h (m h)) ps r))"
  "hub_ok (rHub r) \<Longrightarrow> hub_ok (rHub (checkPendingReturn w q r))"
  by (simp_all add: sendError_def sendBusy_def sendRejection_def fold_hub_ok checkPendingReturn_def
      split: option.split)

lemma notify_hub_ok [simp]: "hub_ok (rHub r) \<Longrightarrow> hub_ok (rHub (OnCallEndedNotify w a b r))"
  by (simp add: OnCallEndedNotify_def Let_def fold_hub_ok)

lemma observed_hub_ok [simp]: "hub_ok (rHub r) \<Longrightarrow> hub_ok (rHub (observed w t r))"
proof -
  have "hub_ok (rHub r) \<Longrightarrow> hub_ok (rHub (observeTracker w es r))" for es r
    by (induction w es r rule: observeTracker.induct) auto
  then show "hub_ok (rHub r) \<Longrightarrow> ?thesis" by (simp add: observed_def)
qed

lemma endCalls_hub_ok [simp]: "hub_ok (rHub r) \<Longrightarrow> hub_ok (rHub (endCallsWith w n reason ps r))"
  by (induction ps arbitrary: r) simp_all

lemma clears_hub_ok [simp]:
  "hub_ok (rHub r) \<Longrightarrow> hub_ok (rHub (clearExtension w hw r))"
  "hub_ok (rHub r) \<Longrightarrow> hub_ok (rHub (clearExtensionsForCall w n r))"
  by (simp_all add: clearExtension_def clearExtensionsForCall_def Let_def split: option.split)

lemma ends_hub_ok [simp]:
  "hub_ok (rHub r) \<Longrightarrow> hub_ok (rHub (endActiveCallsAsHangup w n reason r))"
  "hub_ok (rHub r) \<Longrightarrow> hub_ok (rHub (endConference w cid reason r))"
  "hub_ok (rHub r) \<Longrightarrow> hub_ok (rHub (dropMemberFromConference w cid p reason r))"
  by (simp_all add: endActiveCallsAsHangup_def endConference_def dropMemberFromConference_def Let_def
      split: option.split sum.split prod.split)

lemma swt_hub_ok_loop: "hub_ok h \<Longrightarrow> hub_ok (snd (swtLoop ms ip b n d dl ps dv h))"
proof (induction ps arbitrary: dv h)
  case (Cons p ps)
  obtain res dv' h' where i: "swtIter b n d dl (fst p) dv h = (res, dv', h')"
    by (cases "swtIter b n d dl (fst p) dv h")
  have "hub_ok h'" using hub_step_ok [OF Cons.prems, of ms ip "MvSwtIter b n d dl (fst p) dv"] by (simp add: i)
  moreover from this have "hub_ok (fold (hub_step ms ip) (snd p) h')"
    by (rule hub.run_inv_all) simp
  ultimately show ?case using Cons.IH by (cases res) (simp_all add: i)
qed simp

lemma swt_hub_ok' [simp]:
  assumes "hub_ok h" shows "hub_ok (snd (SendToWithTimeout ms ip n m tm st sched h))"
proof -
  have "hub_ok (publish ty tg x h)" for ty tg x using assms hub_ok_cong [OF view_publish] by blast
  then show ?thesis using assms by (simp add: SendToWithTimeout_def Let_def swt_hub_ok_loop split: option.split)
qed

lemma route_hub_ok [simp]:
  "hub_ok (rHub r) \<Longrightarrow> hub_ok (rHub (snd (routeExtensionSignaling w from msg r)))"
  by (simp add: routeExtensionSignaling_def split: option.split sum.split)

lemma handlers_hub_ok [simp]:
  "hub_ok (rHub r) \<Longrightarrow> hub_ok (rHub (handleCall w from msg r))"
  "hub_ok (rHub r) \<Longrightarrow> hub_ok (rHub (handleAnswer w from msg r))"
  "hub_ok (rHub r) \<Longrightarrow> hub_ok (rHub (handleHangup w from msg r))"
  "hub_ok (rHub r) \<Longrightarrow> hub_ok (rHub (handleConferenceMerge w from msg r))"
  "hub_ok (rHub r) \<Longrightarrow> hub_ok (rHub (KickMember w cid p reason r))"
  "hub_ok (rHub r) \<Longrightarrow> hub_ok (rHub (handleCallReturn w from r))"
  "hub_ok (rHub r) \<Longrightarrow> hub_ok (rHub (handleCallReturnRetry w from msg r))"
  "hub_ok (rHub r) \<Longrightarrow> hub_ok (rHub (handleCallReturnCancel w from r))"
  "hub_ok (rHub r) \<Longrightarrow> hub_ok (rHub (handleDTMF w from msg r))"
  "hub_ok (rHub r) \<Longrightarrow> hub_ok (rHub (handleICERestart w from msg r))"
  "hub_ok (rHub r) \<Longrightarrow> hub_ok (rHub (handleExtensionPickup w from msg r))"
  "hub_ok (rHub r) \<Longrightarrow> hub_ok (rHub (handleSignalingForward w from msg r))"
  "hub_ok (rHub r) \<Longrightarrow> hub_ok (rHub (ForceHangup w a b r))"
  "hub_ok (rHub r) \<Longrightarrow> hub_ok (rHub (OnRegistered w n r))"
  "hub_ok (rHub r) \<Longrightarrow> hub_ok (rHub (handleRequestICE w n r))"
  "hub_ok (rHub r) \<Longrightarrow> hub_ok (rHub (handleLinkHealth w from msg r))"
  "hub_ok (rHub r) \<Longrightarrow> hub_ok (rHub (handleDeviceInfo w msg r))"
  subgoal by (simp add: handleCall_def Let_def split: option.split sum.split prod.split)
  subgoal by (simp add: handleAnswer_def rejectNoDest_def Let_def)
  subgoal by (simp add: handleHangup_def split: option.split)
  subgoal by (simp add: handleConferenceMerge_def Let_def split: sum.split prod.split)
  subgoal by (simp add: KickMember_def)
  subgoal by (simp add: handleCallReturn_def)
  subgoal by (simp add: handleCallReturnRetry_def)
  subgoal by (simp add: handleCallReturnCancel_def)
  subgoal by (simp add: handleDTMF_def rejectNoDest_def)
  subgoal by (simp add: handleICERestart_def rejectNoDest_def Let_def split_beta split: option.split)
  subgoal by (simp add: handleExtensionPickup_def Let_def)
  subgoal by (simp add: handleSignalingForward_def rejectNoDest_def Let_def split_beta)
  subgoal by (simp add: ForceHangup_def)
  subgoal by (simp add: OnRegistered_def split: option.split)
  subgoal by (simp add: handleRequestICE_def Let_def)
  subgoal by (simp add: handleLinkHealth_def split: option.split prod.split bool.split)
  subgoal by (simp add: handleDeviceInfo_def Let_def)
  done

lemma HandleMessage_hub_ok [simp]: "hub_ok (rHub r) \<Longrightarrow> hub_ok (rHub (HandleMessage w from msg r))"
  by (simp add: HandleMessage_def Let_def)

lemma grace_hub_ok [simp]:
  "hub_ok (rHub r) \<Longrightarrow> hub_ok (rHub (startGraceTimer w n hw p r))"
  "hub_ok (rHub r) \<Longrightarrow> hub_ok (rHub (snd (cancelGraceLocal n hw r)))"
  "hub_ok (rHub r) \<Longrightarrow> hub_ok (rHub (graceFire w i r))"
  "hub_ok (rHub r) \<Longrightarrow> hub_ok (rHub (OnReconnect n hw r))"
  "hub_ok (rHub r) \<Longrightarrow> hub_ok (rHub (HandleRemoteReconnect n hw r))"
  subgoal by (simp add: startGraceTimer_def cancelEntry_def Let_def split: option.split)
  subgoal by (simp add: cancelGraceLocal_def cancelEntry_def Let_def split: option.split)
  subgoal by (simp add: graceFire_def Let_def)
  subgoal by (simp add: OnReconnect_def cancelGraceLocal_def cancelEntry_def Let_def split: option.split)
  subgoal by (simp add: HandleRemoteReconnect_def cancelGraceLocal_def cancelEntry_def Let_def split: option.split)
  done

lemma disconnect_hub_ok [simp]:
  "hub_ok (rHub r) \<Longrightarrow> hub_ok (rHub (OnDisconnect w n hw r))"
  "hub_ok (rHub r) \<Longrightarrow> hub_ok (rHub (OnConnClosed w c r))"
proof -
  show d: "hub_ok (rHub r) \<Longrightarrow> hub_ok (rHub (OnDisconnect w n hw r))" for n hw
    by (simp add: OnDisconnect_def Let_def split: option.split)
  show "hub_ok (rHub r) \<Longrightarrow> hub_ok (rHub (OnConnClosed w c r))"
    by (simp add: OnConnClosed_def d split: option.split)
qed

section \<open>The process\<close>

text \<open>
  The moves of the process: a message from a connection (its number and device are stamped by
  the read loop), a device connecting (\<open>handleWS\<close>; a paired device is announced to the relay),
  a read loop ending, a timer, the reconnect seen by another pod, the two administrators'
  actions (\<open>handleCallDisconnect\<close>, \<open>handleConferenceKick\<close>, from their audit record on and without
  the notification of open pages), and anything else the hub does.
\<close>

datatype relayMove =
    RvMessage World string Message
  | RvConnect World bool string nat int "string option" string bool
  | RvClosed World string nat
  | RvGraceFire World nat
  | RvRemoteReconnect string string
  | RvDisconnectCall World bool int string string string
  | RvKick World bool uuid string string string
  | RvHub World hubMove

definition deviceConnects ::
  "World \<Rightarrow> bool \<Rightarrow> string \<Rightarrow> nat \<Rightarrow> int \<Rightarrow> string option \<Rightarrow> string \<Rightarrow> bool \<Rightarrow> Relay \<Rightarrow> Relay" where
  "deviceConnects w ws hw cap now greeting number paired r =
     (case connectDevice ws hw cap now greeting number (rHub r) of
        (Some e, h) \<Rightarrow> r\<lparr>rHub := h\<rparr>
      | (None, h) \<Rightarrow>
          if paired then OnReconnect number hw (OnRegistered w number (r\<lparr>rHub := h\<rparr>)) else r\<lparr>rHub := h\<rparr>)"

text \<open>The deferred calls of the read loop, last in first out.\<close>

definition readLoopEnds :: "World \<Rightarrow> string \<Rightarrow> nat \<Rightarrow> Relay \<Rightarrow> Relay" where
  "readLoopEnds w number c r =
     (let r = OnConnClosed w (Some c) r in r\<lparr>rHub := Unregister number c (rHub r)\<rparr>)"

definition handleCallDisconnect ::
  "World \<Rightarrow> bool \<Rightarrow> int \<Rightarrow> string \<Rightarrow> string \<Rightarrow> string \<Rightarrow> Relay \<Rightarrow> Relay" where
  "handleCallDisconnect w dbMark cid user caller callee r =
     (case MarkForceEnded dbMark cid user (rTr r) of
        (Inl e, t) \<Rightarrow> r
      | (Inr _, t) \<Rightarrow>
          let r = ForceHangup w caller callee (r\<lparr>rTr := t\<rparr>)
          in observed w (snd (OnCallEnded (wDB w (DbEnded 0)) (wNow w) caller callee (rTr r))) r)"

definition handleConferenceKick ::
  "World \<Rightarrow> bool \<Rightarrow> uuid \<Rightarrow> string \<Rightarrow> string \<Rightarrow> string \<Rightarrow> Relay \<Rightarrow> Relay" where
  "handleConferenceKick w dbKick cid phone user reason r =
     (case RecordKick dbKick cid phone user (rTr r) of
        (Inl e, t) \<Rightarrow> r
      | (Inr _, t) \<Rightarrow> KickMember w cid phone reason (r\<lparr>rTr := t\<rparr>))"

fun relay_step :: "relayMove \<Rightarrow> Relay \<Rightarrow> Relay" where
  "relay_step (RvMessage w from msg) r = HandleMessage w from msg r"
| "relay_step (RvConnect w ws hw cap now g number paired) r = deviceConnects w ws hw cap now g number paired r"
| "relay_step (RvClosed w number c) r = readLoopEnds w number c r"
| "relay_step (RvGraceFire w i) r = graceFire w i r"
| "relay_step (RvRemoteReconnect number hw) r = HandleRemoteReconnect number hw r"
| "relay_step (RvDisconnectCall w db cid user a b) r = handleCallDisconnect w db cid user a b r"
| "relay_step (RvKick w db cid phone user reason) r = handleConferenceKick w db cid phone user reason r"
| "relay_step (RvHub w m) r = r\<lparr>rHub := hub_step (wMarshal w) (wPrivate w) m (rHub r)\<rparr>"

text \<open>Line numbers are without the bytes of the arrow, and new UUIDs are new.\<close>

fun relay_move_ok :: "relayMove \<Rightarrow> Relay \<Rightarrow> bool" where
  "relay_move_ok (RvMessage w from msg) r = message_ok w from msg r"
| "relay_move_ok _ r = True"

definition relay_ok :: "Relay \<Rightarrow> bool" where
  "relay_ok r \<longleftrightarrow> hub_ok (rHub r) \<and> tr_ok (rTr r) \<and> admission (trBook (rTr r)) \<and> grace_ok r"

lemma relay_okD:
  assumes "relay_ok r"
  shows "hub_ok (rHub r)" "tr_ok (rTr r)" "admission (trBook (rTr r))" "grace_ok r"
  using assms by (simp_all add: relay_ok_def)

text \<open>Every move is one of the tracker's own sequences of operations.\<close>

lemma relay_step_via:
  assumes "relay_move_ok m r"
  shows "via (rTr r) (rTr (relay_step m r))"
proof (cases m)
  case (RvMessage w fr msg)
  then show ?thesis using assms by (simp add: HandleMessage_via)
next
  case (RvConnect w ws hw cap now g number paired)
  then show ?thesis by (simp add: deviceConnects_def split: prod.split option.split)
next
  case (RvClosed w number c)
  then show ?thesis by (simp add: readLoopEnds_def Let_def Closed_via)
next
  case (RvDisconnectCall w db cid user a b)
  have "via (rTr r) (snd (OnCallEnded d n a b (snd (MarkForceEnded db cid user (rTr r)))))" for d n
    using via_trans [OF via_op [of "TrForceEnded db cid user" "rTr r"] via_ops(2)]
    by (simp add: OnCallEnded_def)
  then show ?thesis
    by (simp add: RvDisconnectCall handleCallDisconnect_def Let_def split: prod.split sum.split) (metis snd_conv)
next
  case (RvKick w db cid phone user reason)
  have "via (rTr r) (snd (RecordKick db cid phone user (rTr r)))"
    using via_op [of "TrKick db cid phone user" "rTr r"] by simp
  then have "via (rTr r) (rTr (KickMember w cid phone reason (r\<lparr>rTr := snd (RecordKick db cid phone user (rTr r))\<rparr>)))"
    using via_trans [OF _ Kick_via] by fastforce
  then show ?thesis
    by (simp add: RvKick handleConferenceKick_def split: prod.split sum.split) (metis snd_conv)
qed (simp_all add: graceFire_via)

lemma relay_step_hub: "hub_ok (rHub r) \<Longrightarrow> hub_ok (rHub (relay_step m r))"
proof (cases m)
  case (RvConnect w ws hw cap now g number paired)
  assume "hub_ok (rHub r)"
  from connectDevice_ok [OF this, of ws hw cap now g number] show ?thesis
    by (cases "connectDevice ws hw cap now g number (rHub r)")
      (simp add: RvConnect deviceConnects_def split: option.split)
qed (simp_all add: readLoopEnds_def Let_def Unregister_ok handleCallDisconnect_def handleConferenceKick_def
    hub_step_ok split: prod.split sum.split)

lemma relay_step_grace: "grace_ok r \<Longrightarrow> grace_ok (relay_step m r)"
proof (cases m)
  case (RvConnect w ws hw cap now g number paired)
  assume ok: "grace_ok r"
  have "grace_ok (OnReconnect number hw (OnRegistered w number (r\<lparr>rHub := h\<rparr>)))" for h
  proof -
    have "grace_ok (OnRegistered w number (r\<lparr>rHub := h\<rparr>))" using ok by (simp add: grace_ok_def)
    from cancel_ok [OF this, of number hw] show ?thesis by (simp add: OnReconnect_def Let_def grace_ok_def)
  qed
  with ok show ?thesis
    by (simp add: RvConnect deviceConnects_def grace_ok_def split: prod.split option.split)
next
  case (RvClosed w number c)
  assume ok: "grace_ok r"
  then have "grace_ok (OnConnClosed w (Some c) r)" by (simp add: OnConnClosed_def disconnect_ok)
  then show ?thesis by (simp add: RvClosed readLoopEnds_def Let_def grace_ok_def)
next
  case (RvRemoteReconnect number hw)
  then show "grace_ok r \<Longrightarrow> ?thesis" using cancel_ok by (simp add: HandleRemoteReconnect_def)
next
  case (RvGraceFire w i)
  then show "grace_ok r \<Longrightarrow> ?thesis" by (simp add: fire_ok)
qed (simp_all add: grace_ok_def handleCallDisconnect_def handleConferenceKick_def Let_def
    split: prod.split sum.split)

interpretation relay: invariant_machine relay_step relay_move_ok relay_ok
proof
  fix m r assume ok: "relay_move_ok m r" "relay_ok r"
  note D = relay_okD [OF ok(2)] and v = relay_step_via [OF ok(1)]
  show "relay_ok (relay_step m r)"
    unfolding relay_ok_def
    using relay_step_hub [OF D(1)] via_good [OF v D(2)] book_steps_admission [OF via_book [OF v D(2)] D(3)]
      relay_step_grace [OF D(4)] by blast
qed

lemma relay_ok_New: "hub_ok h \<Longrightarrow> relay_ok (NewRelay h tracking (NewTracker x y z))"
  by (simp add: relay_ok_def NewRelay_def tr_ok_New admission_New grace_ok_def)

end
