(* ===== verification/Relay_Props.thy ===== *)
theory Relay_Props
  imports Relay_Runs
begin

text \<open>
  What the relay promises: which calls it admits, to whom signalling can go, what a hangup and
  a merge do, that a phone that comes back in time keeps its call, and when a call return rings.
\<close>

section \<open>Admission\<close>

lemma relay_run_via:
  "allowed_run relay_step relay_move_ok ms r \<Longrightarrow> via (rTr r) (rTr (fold relay_step ms r))"
  by (induction ms arbitrary: r) (auto intro: via_trans [OF relay_step_via])

lemma admission_tracker:
  assumes "admission (trBook t)"
  shows "(ctIsBusy p (trConfs t) \<longrightarrow> filter (involves p) (activeCalls t) = [])
    \<and> (length (filter (involves p) (activeCalls t)) \<le> 1
       \<or> length (filter (involves p) (activeCalls t)) = 2
         \<and> list_all (\<lambda>c. acCaller c = p) (filter (involves p) (activeCalls t)))"
proof -
  have "(p \<in> snd (trBook t) \<longrightarrow> callsOf p (fst (trBook t)) = {#})
     \<and> (size (callsOf p (fst (trBook t))) \<le> 1
        \<or> size (callsOf p (fst (trBook t))) = 2 \<and> (\<forall>c \<in># callsOf p (fst (trBook t)). fst c = p))"
    using assms unfolding admission_def by blast
  then show ?thesis unfolding callsOf_book
    by (auto simp: trBook_def list_all_iff simp del: mset_filter mset_map)
qed

definition freshRelay :: "bool \<Rightarrow> bool \<Rightarrow> bool \<Rightarrow> Relay" where
  "freshRelay health dash obs = NewRelay NewHub True (NewTracker health dash obs)"

text \<open>
  C1: Calls are admitted one at a time.  In every run of signald, whatever the phones send and
  whenever they come and go, the calls in memory change only by steps of the abstract book: a
  call is begun only to an idle phone, by a phone that is idle or the caller of its only call;
  a merge takes all calls of its members; the rest only ends calls.  So a phone in a
  conference is in no two-party call, no phone is called while it is in a call, and a phone in
  two calls made both.
\<close>
theorem calls_admitted:
  assumes "allowed_run relay_step relay_move_ok ms (freshRelay health dash obs)"
    and "t = rTr (fold relay_step ms (freshRelay health dash obs))"
  shows "book_step\<^sup>*\<^sup>* ({#}, {}) (trBook t)
    \<and> (ctIsBusy p (trConfs t) \<longrightarrow> filter (involves p) (activeCalls t) = [])
    \<and> (length (filter (involves p) (activeCalls t)) \<le> 1
       \<or> length (filter (involves p) (activeCalls t)) = 2
         \<and> list_all (\<lambda>c. acCaller c = p) (filter (involves p) (activeCalls t)))"
proof -
  have v: "via (NewTracker health dash obs) t"
    using relay_run_via [OF assms(1)] assms(2) by (simp add: freshRelay_def NewRelay_def)
  have "relay_ok (fold relay_step ms (freshRelay health dash obs))"
    using relay.run_inv [OF relay_ok_New [OF hub_ok_New] assms(1) [unfolded freshRelay_def]]
    by (simp add: freshRelay_def)
  then have "admission (trBook t)" using relay_okD(3) assms(2) by blast
  then show ?thesis
    using admission_tracker [of t p] via_book [OF v tr_ok_New] by (simp add: trBook_New)
qed

text \<open>A world in which everything answers, and three phones on it.\<close>

definition calmWorld :: World where
  "calmWorld = \<lparr>wMarshal = (\<lambda>m. Some (mType m)), wPrivate = (\<lambda>_. True), wNow = 100, wDB = (\<lambda>_. True),
     wCanCall = None, wLineSettings = None, wTURNGen = None, wTURNDomain = [], wHealthStore = True,
     wMetrics = True, wNewUUID = 7, wParseUUID = (\<lambda>s. if s = ''7'' then Some 7 else None),
     wShowUUID = (\<lambda>i. if i = 7 then ''7'' else []), wSched = []\<rparr>"

definition plug :: "string \<Rightarrow> string \<Rightarrow> relayMove" where
  "plug hw number = RvConnect calmWorld True hw 8 100 None number True"

definition says :: "string \<Rightarrow> Message \<Rightarrow> relayMove" where
  "says number m = RvMessage calmWorld number m"

definition dials :: "string \<Rightarrow> string \<Rightarrow> relayMove" where
  "dials from to = says from (zeroMessage\<lparr>mType := TypeCall, mTo := to, mHardwareID := from\<rparr>)"

definition threeWay :: "relayMove list" where
  "threeWay = [plug ''a'' ''100'', plug ''b'' ''200'', plug ''c'' ''300'',
     dials ''100'' ''200'', dials ''300'' ''200'', dials ''100'' ''300'',
     says ''100'' (zeroMessage\<lparr>mType := TypeConferenceMerge, mHeldPeer := ''200'', mActivePeer := ''300''\<rparr>),
     dials ''200'' ''100'']"

theorem calls_admitted_witness:
  "ctIsBusy ''100'' (trConfs (rTr (fold relay_step threeWay (freshRelay True True True))))
   \<and> length (activeCalls (rTr (fold relay_step (take 6 threeWay) (freshRelay True True True)))) = 2
   \<and> filter (involves ''100'') (activeCalls (rTr (fold relay_step threeWay (freshRelay True True True)))) = []"
proof -
  have a: "allowed_run relay_step relay_move_ok threeWay (freshRelay True True True)" by code_simp
  have b: "ctIsBusy ''100'' (trConfs (rTr (fold relay_step threeWay (freshRelay True True True))))" by code_simp
  have c: "length (activeCalls (rTr (fold relay_step (take 6 threeWay) (freshRelay True True True)))) = 2" by code_simp
  show ?thesis using calls_admitted [OF a refl, of "''100''"] b c by blast
qed

section \<open>Coming back in time\<close>

text \<open>A timer keeps what it captured, and once settled it stays settled.\<close>

definition settled :: "nat \<Rightarrow> Relay \<Rightarrow> bool" where
  "settled i r \<longleftrightarrow> i < length (rEntries r) \<and> \<not> pending (rEntries r ! i)"

definition later :: "Relay \<Rightarrow> Relay \<Rightarrow> bool" where
  "later r s \<longleftrightarrow> length (rEntries r) \<le> length (rEntries s)
     \<and> (\<forall>i < length (rEntries r). entryKey (rEntries s ! i) = entryKey (rEntries r ! i)
          \<and> (\<not> pending (rEntries r ! i) \<longrightarrow> \<not> pending (rEntries s ! i)))"

lemma later_same [simp]: "rEntries s = rEntries r \<Longrightarrow> later r s"
  by (simp add: later_def)

lemma later_trans: "later r s \<Longrightarrow> later s u \<Longrightarrow> later r u"
  unfolding later_def by fastforce

lemma later_update:
  assumes "rEntries s = (rEntries r)[i := e]" "entryKey e = entryKey (rEntries r ! i)"
    and "\<not> pending (rEntries r ! i) \<longrightarrow> \<not> pending e"
  shows "later r s"
proof -
  have "entryKey (rEntries s ! j) = entryKey (rEntries r ! j)
      \<and> (\<not> pending (rEntries r ! j) \<longrightarrow> \<not> pending (rEntries s ! j))" if "j < length (rEntries r)" for j
    using assms that by (cases "j = i") auto
  then show ?thesis using assms(1) by (simp add: later_def)
qed

lemma later_cancelEntry: "later r (cancelEntry i r)"
  by (rule later_update [where i = i and e = "(rEntries r ! i)\<lparr>geCanceled := True\<rparr>"])
    (simp_all add: cancelEntry_def entryKey_def pending_def)

lemma later_cancel: "later r (snd (cancelGraceLocal n hw r))"
proof (cases "map_of (graceTimers r) (graceKey n hw)")
  case (Some i)
  then show ?thesis
    using later_trans [OF later_cancelEntry [of r i] later_same] by (simp add: cancelGraceLocal_def Let_def)
qed (simp add: cancelGraceLocal_def)

lemma later_start: "later r (startGraceTimer w n hw p r)"
proof -
  let ?q = "case map_of (graceTimers r) (graceKey n hw) of None \<Rightarrow> r | Some i \<Rightarrow> cancelEntry i r"
  have "later r ?q" by (simp add: later_cancelEntry split: option.split)
  moreover have "later ?q (startGraceTimer w n hw p r)"
    by (simp add: later_def startGraceTimer_def Let_def nth_append)
  ultimately show ?thesis by (rule later_trans)
qed

lemma later_fire: "later r (graceFire w i r)"
proof (cases "i < length (rEntries r) \<and> \<not> geFired (rEntries r ! i) \<and> geDue (rEntries r ! i) \<le> wNow w")
  case True
  then have "rEntries (graceFire w i r) = (rEntries r)[i := (rEntries r ! i)\<lparr>geFired := True\<rparr>]"
    by (simp add: graceFire_def Let_def)
  then show ?thesis by (rule later_update) (simp_all add: entryKey_def pending_def)
qed (auto simp: graceFire_def)

lemma later_disconnect: "later r (OnDisconnect w n hw r)"
proof -
  have "later r (startGraceTimer w n hw p (clearExtension w hw r))" for p
    by (rule later_trans [OF later_same later_start]) simp
  then show ?thesis using later_start by (simp add: OnDisconnect_def Let_def split: option.split)
qed

lemma later_step: "later r (relay_step m r)"
proof (cases m)
  case (RvConnect w ws hw cap now g number paired)
  have "later r (OnReconnect number hw (OnRegistered w number (r\<lparr>rHub := h\<rparr>)))" for h
  proof -
    let ?q = "OnRegistered w number (r\<lparr>rHub := h\<rparr>)"
    have "later r (snd (cancelGraceLocal number hw ?q))"
      by (rule later_trans [OF later_same later_cancel]) simp
    then show ?thesis by (rule later_trans) (simp add: OnReconnect_def Let_def)
  qed
  then show ?thesis by (simp add: RvConnect deviceConnects_def split: prod.split option.split)
next
  case (RvClosed w number c)
  have "later r (OnConnClosed w (Some c) r)" by (simp add: OnConnClosed_def later_disconnect)
  then show ?thesis unfolding RvClosed relay_step.simps readLoopEnds_def Let_def
    by (rule later_trans) simp
next
  case (RvRemoteReconnect number hw)
  then show ?thesis by (simp add: HandleRemoteReconnect_def later_cancel)
qed (simp_all add: later_fire handleCallDisconnect_def handleConferenceKick_def Let_def
    split: prod.split sum.split)

lemma later_run: "later r (fold relay_step ms r)"
  by (induction ms arbitrary: r) (auto intro: later_trans [OF later_step])

lemma fire_settled:
  assumes "\<not> pending (rEntries r ! i)"
  shows "rTr (graceFire w i r) = rTr r \<and> rOut (graceFire w i r) = rOut r \<and> rHub (graceFire w i r) = rHub r
    \<and> extensions (graceFire w i r) = extensions r"
  using assms by (auto simp: graceFire_def pending_def Let_def)

lemma fire_online:
  assumes "HardwareOnlineOnLine (geNumber (rEntries r ! i)) (geHardwareID (rEntries r ! i)) (rHub r)"
  shows "rTr (graceFire w i r) = rTr r \<and> rOut (graceFire w i r) = rOut r \<and> rHub (graceFire w i r) = rHub r
    \<and> extensions (graceFire w i r) = extensions r"
  using assms by (simp add: graceFire_def Let_def)

text \<open>
  C2: A phone that comes back in time keeps its call.  In every run, once a device has
  reconnected to its line, every grace timer armed for it before is settled for good: whenever
  its callback runs, in any later run, no call, extension or connection changes and no message
  leaves.  And a timer of any device that is back on its line when the callback runs has as
  little effect, even if the reconnect was missed.
\<close>
theorem reconnect_keeps_the_call:
  assumes "allowed_run relay_step relay_move_ok before (freshRelay health dash obs)"
    and "r = fold relay_step before (freshRelay health dash obs)"
    and "s = fold relay_step after (OnReconnect n hw r)"
    and "i < length (rEntries r) \<and> geNumber (rEntries r ! i) = n \<and> geHardwareID (rEntries r ! i) = hw
         \<or> i < length (rEntries s)
           \<and> HardwareOnlineOnLine (geNumber (rEntries s ! i)) (geHardwareID (rEntries s ! i)) (rHub s)"
  shows "rTr (graceFire w i s) = rTr s \<and> rOut (graceFire w i s) = rOut s \<and> rHub (graceFire w i s) = rHub s
    \<and> extensions (graceFire w i s) = extensions s"
  using assms(4)
proof
  assume i: "i < length (rEntries r) \<and> geNumber (rEntries r ! i) = n \<and> geHardwareID (rEntries r ! i) = hw"
  let ?c = "snd (cancelGraceLocal n hw r)"
  have "relay_ok r"
    using relay.run_inv [OF relay_ok_New [OF hub_ok_New] assms(1) [unfolded freshRelay_def]]
    by (simp add: freshRelay_def assms(2))
  then have ok: "grace_ok r" by (rule relay_okD)
  have key: "entryKey (rEntries r ! i) = graceKey n hw" using i by (simp add: entryKey_def)
  have l: "later r ?c" by (rule later_cancel)
  have ic: "i < length (rEntries ?c)" "entryKey (rEntries ?c ! i) = graceKey n hw"
    using l i key by (auto simp: later_def)
  have "\<not> pending (rEntries ?c ! i)"
    using grace_okD(1) [OF cancel_ok [OF ok], of i n hw] cancelled_key [OF ok, of n hw] ic by auto
  moreover have "rEntries (OnReconnect n hw r) = rEntries ?c" by (simp add: OnReconnect_def Let_def)
  ultimately have "\<not> pending (rEntries s ! i)"
    using later_run [of "OnReconnect n hw r" "after"] ic(1) by (simp add: later_def assms(3))
  then show ?thesis by (rule fire_settled)
qed (use fire_online in blast)

definition dropsOff :: "relayMove list" where
  "dropsOff = [plug ''a'' ''100'', plug ''b'' ''200'', dials ''100'' ''200'', RvClosed calmWorld ''100'' 0]"

definition lateWorld :: World where
  "lateWorld = calmWorld\<lparr>wNow := 120\<rparr>"

theorem reconnect_keeps_the_call_witness:
  "let r = fold relay_step dropsOff (freshRelay True True True) in
     length (activeCalls (rTr (graceFire lateWorld 0 (OnReconnect ''100'' ''a'' r)))) = 1
     \<and> activeCalls (rTr (graceFire lateWorld 0 r)) = []"
proof -
  let ?r = "fold relay_step dropsOff (freshRelay True True True)"
  have a: "allowed_run relay_step relay_move_ok dropsOff (freshRelay True True True)" by code_simp
  have i: "0 < length (rEntries ?r) \<and> geNumber (rEntries ?r ! 0) = ''100'' \<and> geHardwareID (rEntries ?r ! 0) = ''a''"
    by code_simp
  have "rTr (graceFire lateWorld 0 (OnReconnect ''100'' ''a'' ?r)) = rTr (OnReconnect ''100'' ''a'' ?r)"
    using reconnect_keeps_the_call [OF a refl, of "OnReconnect ''100'' ''a'' ?r" "[]" "''100''" "''a''" 0 lateWorld] i
    by simp
  moreover have "length (activeCalls (rTr ?r)) = 1" "activeCalls (rTr (graceFire lateWorld 0 ?r)) = []" by code_simp+
  ultimately show ?thesis by (simp add: Let_def)
qed

section \<open>Hanging up\<close>

lemma out_sel [simp]:
  "rOut (relayEmit es r) = rOut r @ es" "rOut (sendLine w n m r) = rOut r @ [ToLine n m]"
  "rOut (snd (sendResult w n m r)) = rOut r @ [ToLine n m]"
  "rOut (sendHardware w h m r) = rOut r @ [ToHardware h m]"
  "rOut (observeError w c r) = rOut r @ (if wMetrics w then [SignalingError c] else [])"
  by (simp_all add: relayEmit_def sendLine_def sendResult_def sendHardware_def observeError_def split_beta)

lemma out_folds [simp]:
  "rOut (fold (\<lambda>p. sendLine w p (m p)) ps r) = rOut r @ map (\<lambda>p. ToLine p (m p)) ps"
  "rOut (fold (\<lambda>h. sendHardware w h (m h)) ps r) = rOut r @ map (\<lambda>h. ToHardware h (m h)) ps"
  by (induction ps arbitrary: r) simp_all

definition returnRing :: "relayOut \<Rightarrow> bool" where
  "returnRing e \<longleftrightarrow> (case e of ToLine q m \<Rightarrow> mType m = TypeCallReturnRing | _ \<Rightarrow> False)"

text \<open>The observer of an ended call only ever rings for a call return.\<close>

definition ringsOnly :: "Relay \<Rightarrow> Relay \<Rightarrow> bool" where
  "ringsOnly r r' \<longleftrightarrow> (\<exists>es. rOut r' = rOut r @ es \<and> list_all returnRing es)"

lemma ringsOnly_same: "rOut r' = rOut r \<Longrightarrow> ringsOnly r r'"
  by (simp add: ringsOnly_def)

lemma ringsOnly_upd [simp]:
  "ringsOnly (r\<lparr>pendingReturns := x\<rparr>) s = ringsOnly r s" "ringsOnly r (s\<lparr>pendingReturns := x\<rparr>) = ringsOnly r s"
  "ringsOnly (r\<lparr>rTr := t\<rparr>) s = ringsOnly r s"
  by (simp_all add: ringsOnly_def)

lemma ringsOnly_trans: "ringsOnly r s \<Longrightarrow> ringsOnly s u \<Longrightarrow> ringsOnly r u"
  unfolding ringsOnly_def by (metis append.assoc list_all_append)

lemma check_rings: "ringsOnly r (checkPendingReturn w q r)"
  by (simp add: checkPendingReturn_def ringsOnly_def returnRing_def split: option.split)

lemma checks_ring: "ringsOnly r (fold (checkPendingReturn w) qs r)"
  by (induction qs arbitrary: r) (auto intro: ringsOnly_trans [OF check_rings] ringsOnly_same)

lemma notify_rings: "ringsOnly r (OnCallEndedNotify w a b r)"
  using checks_ring [of "r\<lparr>pendingReturns := x\<rparr>" w for x] by (simp add: OnCallEndedNotify_def Let_def)

lemma observed_rings: "ringsOnly r (observed w t r)"
proof -
  have "ringsOnly r (observeTracker w es r)" for es r
    by (induction w es r rule: observeTracker.induct) (auto intro: ringsOnly_trans [OF notify_rings] ringsOnly_same)
  from this [of "r\<lparr>rTr := t\<rparr>"] show ?thesis by (simp add: observed_def)
qed

definition hangupMsg :: "string \<Rightarrow> string \<Rightarrow> string \<Rightarrow> Message" where
  "hangupMsg n reason p = zeroMessage\<lparr>mType := TypeHangup, mFrom := n, mTo := p, mReason := reason\<rparr>"

lemma endCallsWith_out:
  "\<exists>es. rOut (endCallsWith w n reason ps r) = rOut r @ es
     \<and> filter (\<lambda>e. \<not> returnRing e) es = map (\<lambda>p. ToLine p (hangupMsg n reason p)) ps"
proof (induction ps arbitrary: r)
  case (Cons p ps)
  let ?o = "observed w (snd (OnCallEndedWithReason (wDB w (DbEnded (length ps))) (wNow w) n p reason (rTr r))) r"
  obtain rs where o: "rOut ?o = rOut r @ rs" "list_all returnRing rs"
    using observed_rings [of r w] by (auto simp: ringsOnly_def)
  obtain es where es: "rOut (endCallsWith w n reason ps (sendLine w p (hangupMsg n reason p) ?o))
      = rOut (sendLine w p (hangupMsg n reason p) ?o) @ es"
    "filter (\<lambda>e. \<not> returnRing e) es = map (\<lambda>p. ToLine p (hangupMsg n reason p)) ps"
    using Cons.IH by blast
  have "filter (\<lambda>e. \<not> returnRing e) rs = []" using o(2) by (simp add: filter_empty_conv list_all_iff)
  moreover have "\<not> returnRing (ToLine p (hangupMsg n reason p))"
    by (simp add: returnRing_def hangupMsg_def TypeHangup_def TypeCallReturnRing_def)
  ultimately show ?case using es o(1)
    by (intro exI [of _ "rs @ [ToLine p (hangupMsg n reason p)] @ es"]) (simp add: hangupMsg_def)
qed simp

lemma endCallsWith_active:
  "map_of (trActive (rTr (endCallsWith w n reason ps r))) =
     (\<lambda>k. if \<exists>p \<in> set ps. k = callKey n p \<or> k = callKey p n then None else map_of (trActive (rTr r)) k)"
proof (induction ps arbitrary: r)
  case (Cons p ps)
  show ?case unfolding endCallsWith.simps Cons.IH
    by (auto simp: fun_eq_iff OnCallEndedWithReason_active)
qed simp

lemma endCallsWith_mwf:
  "mwf (trActive (rTr r)) \<Longrightarrow> mwf (trActive (rTr (endCallsWith w n reason ps r)))"
  by (induction ps arbitrary: r) (simp_all add: OnCallEndedWithReason_active)

lemma peersIn_set: "set (peersIn n cs) = (\<lambda>c. if acCaller c = n then acCallee c else acCaller c) ` {c \<in> set cs. involves n c}"
  by (induction cs) (auto simp: involves_def)

lemma activeCalls_iff:
  assumes "mwf (trActive t)"
  shows "c \<in> set (activeCalls t) \<longleftrightarrow> (\<exists>k. map_of (trActive t) k = Some c)"
  using mwf_in_set [OF assms] by (force simp: activeCalls_def)

lemma endCallsWith_calls:
  assumes "tr_ok t" and "t = rTr r" and "ps = AllPeersOf n t"
  shows "map_of (trActive (rTr (endCallsWith w n reason ps r))) k = Some c
    \<longleftrightarrow> map_of (trActive t) k = Some c \<and> \<not> involves n c"
proof -
  have "(\<exists>p \<in> set ps. k = callKey n p \<or> k = callKey p n) \<longleftrightarrow> involves n c"
    if m: "map_of (trActive t) k = Some c"
  proof
    assume "involves n c"
    moreover have "c \<in> set (activeCalls t)" using activeCalls_iff [OF tr_okD(4) [OF assms(1)]] m by blast
    ultimately have "(if acCaller c = n then acCallee c else acCaller c) \<in> set ps"
      unfolding assms(3) AllPeersOf_def peersIn_set by blast
    moreover have "k = callKey (acCaller c) (acCallee c)" using tr_okD(5) [OF assms(1) m] .
    ultimately show "\<exists>p \<in> set ps. k = callKey n p \<or> k = callKey p n"
      using \<open>involves n c\<close> by (auto simp: involves_def split: if_splits)
  next
    assume "\<exists>p \<in> set ps. k = callKey n p \<or> k = callKey p n"
    then obtain p where "callKey (acCaller c) (acCallee c) = callKey n p
        \<or> callKey (acCaller c) (acCallee c) = callKey p n"
      using tr_okD(5) [OF assms(1) m] by auto
    then show "involves n c" using callKey_inj tr_okD(7) [OF assms(1) m] by (auto simp: involves_def)
  qed
  then show ?thesis unfolding endCallsWith_active assms(2) by auto
qed

lemma in_mdels: "q \<in> set (mdels ks m) \<Longrightarrow> q \<in> set m \<and> fst q \<notin> set ks"
  unfolding mdels_def by (induction ks arbitrary: m rule: rev_induct) (auto simp: mdel_def AList.delete_eq)

lemma mdels_filter_none: "filter P (mdels (map fst (filter P m)) m) = []"
proof -
  have "\<not> P q" if "q \<in> set (mdels (map fst (filter P m)) m)" for q
    using in_mdels [OF that] by auto
  then show ?thesis by (simp add: filter_empty_conv)
qed

text \<open>
  C3: Hanging up ends every call of the phone and tells every peer once.  Whatever database
  statements fail, afterwards the phone is in no two-party call, every call of others is still
  in memory, no extension of its line is left, and the messages that left are one hangup with
  the reason to each peer, in order, followed by one to every extension device of the line;
  the only others are rings of call returns that were waiting for one of the phones.
\<close>
theorem hangup_ends_all_calls:
  assumes "tr_ok (rTr r)" and "rTracking r" and "AllPeersOf n (rTr r) \<noteq> []"
    and "r' = endActiveCallsAsHangup w n reason r"
  shows "AllPeersOf n (rTr r') = []
    \<and> (map_of (trActive (rTr r')) k = Some c \<longleftrightarrow> map_of (trActive (rTr r)) k = Some c \<and> \<not> involves n c)
    \<and> filter (\<lambda>q. exLineNumber (snd q) = n) (extensions r') = []
    \<and> filter (\<lambda>e. \<not> returnRing e) (drop (length (rOut r)) (rOut r'))
        = map (\<lambda>p. ToLine p (hangupMsg n reason p)) (AllPeersOf n (rTr r))
          @ map (\<lambda>q. ToHardware (fst q) (zeroMessage\<lparr>mType := TypeHangup, mFrom := n\<rparr>))
              (filter (\<lambda>q. exLineNumber (snd q) = n) (extensions r))"
proof -
  let ?t = "rTr r" and ?ps = "AllPeersOf n (rTr r)"
  let ?q = "endCallsWith w n reason ?ps r"
  note wf = tr_okD(4) [OF assms(1)]
  have r': "r' = clearExtensionsForCall w n ?q"
    using assms(2-4) by (simp add: endActiveCallsAsHangup_def Let_def)
  have t': "rTr r' = rTr ?q" by (simp add: r')
  have act: "map_of (trActive (rTr r')) k = Some c \<longleftrightarrow> map_of (trActive ?t) k = Some c \<and> \<not> involves n c" for k c
    unfolding t' by (rule endCallsWith_calls [OF assms(1) refl refl])
  have "mwf (trActive (rTr r'))" unfolding t' by (rule endCallsWith_mwf [OF wf])
  then have "\<not> involves n c" if "c \<in> set (activeCalls (rTr r'))" for c
    using that act activeCalls_iff by blast
  then have none: "AllPeersOf n (rTr r') = []" unfolding AllPeersOf_def by (rule peersIn_none)
  let ?ext = "filter (\<lambda>q. exLineNumber (snd q) = n) (extensions r)"
  have "filter (\<lambda>q. exLineNumber (snd q) = n) (mdels (map fst ?ext) (extensions r)) = []"
    by (rule mdels_filter_none)
  then have ext: "filter (\<lambda>q. exLineNumber (snd q) = n) (extensions r') = []"
    by (simp add: r' clearExtensionsForCall_def Let_def)
  obtain es where es: "rOut ?q = rOut r @ es"
    "filter (\<lambda>e. \<not> returnRing e) es = map (\<lambda>p. ToLine p (hangupMsg n reason p)) ?ps"
    using endCallsWith_out by blast
  have "filter (\<lambda>e. \<not> returnRing e) (map (\<lambda>q. ToHardware (fst q) m) qs) = map (\<lambda>q. ToHardware (fst q) m) qs"
    for m and qs :: "(string \<times> ActiveExtension) list"
    by (rule filter_True) (auto simp: returnRing_def)
  then have "filter (\<lambda>e. \<not> returnRing e) (drop (length (rOut r)) (rOut r'))
      = map (\<lambda>p. ToLine p (hangupMsg n reason p)) ?ps
        @ map (\<lambda>q. ToHardware (fst q) (zeroMessage\<lparr>mType := TypeHangup, mFrom := n\<rparr>)) ?ext"
    using es by (simp add: r' clearExtensionsForCall_def Let_def comp_def)
  then show ?thesis using none act ext by blast
qed

theorem hangup_ends_all_calls_witness:
  "let r = fold relay_step (take 6 threeWay) (freshRelay True True True);
       r' = endActiveCallsAsHangup calmWorld ''100'' [] r
   in AllPeersOf ''100'' (rTr r') = []
      \<and> filter (\<lambda>e. \<not> returnRing e) (drop (length (rOut r)) (rOut r'))
          = [ToLine ''200'' (hangupMsg ''100'' [] ''200''), ToLine ''300'' (hangupMsg ''100'' [] ''300'')]"
proof -
  let ?r = "fold relay_step (take 6 threeWay) (freshRelay True True True)"
  have "allowed_run relay_step relay_move_ok (take 6 threeWay) (freshRelay True True True)" by code_simp
  then have "relay_ok ?r"
    unfolding freshRelay_def by (rule relay.run_inv [OF relay_ok_New [OF hub_ok_New]])
  then have t: "tr_ok (rTr ?r)" by (rule relay_okD)
  have e: "rTracking ?r" "AllPeersOf ''100'' (rTr ?r) = [''200'', ''300'']"
    "filter (\<lambda>q. exLineNumber (snd q) = ''100'') (extensions ?r) = []" by code_simp+
  show ?thesis
    using hangup_ends_all_calls [OF t e(1) _ refl, where n = "''100''" and w = calmWorld and reason = "[]"] e(2,3)
    by (simp add: Let_def)
qed

end
