(* ===== verification/Relay_Signals.thy ===== *)
theory Relay_Signals
  imports Relay_Props
begin

text \<open>
  Where signalling can go, what a merge request leads to, and when a call return rings; and
  runs that show where the relay's bookkeeping outlives the call it belongs to.
\<close>

section \<open>Signalling\<close>

text \<open>
  What may leave the relay for a media message of the phone \<open>from\<close>: the message itself to the
  phone it names, or to the leg of an extension; a hangup to the phone's other devices when one
  of them answers; an error back to the phone.
\<close>

definition carries :: "string \<Rightarrow> Message \<Rightarrow> Message \<Rightarrow> bool" where
  "carries from msg m \<longleftrightarrow> mFrom m = from \<and> mType m = mType msg \<and> mSDP m = mSDP msg
     \<and> mCandidate m = mCandidate msg"

definition mayReach :: "string \<Rightarrow> Message \<Rightarrow> Relay \<Rightarrow> relayOut \<Rightarrow> bool" where
  "mayReach from msg r e \<longleftrightarrow> (case e of
     ToLine p m \<Rightarrow>
       p = mTo msg \<and> carries from msg m
         \<and> (inCallOrConference from p r
            \<or> mExtension msg \<and> (\<exists>x. map_of (extensions r) (mHardwareID msg) = Some x \<and> exPeerNumber x = p))
       \<or> p = from \<and> mType m = TypeError
   | ToHardware h m \<Rightarrow>
       mType msg = TypeAnswer \<and> mType m = TypeHangup \<and> h \<in> set (siblingDevices from (mHardwareID msg) r)
         \<and> inCallOrConference from (mTo msg) r
       \<or> mExtension msg \<and> carries from msg m
         \<and> list_ex (\<lambda>q. exHardwareID (snd q) = h \<and> exPeerNumber (snd q) = from \<and> exLineNumber (snd q) = mTo msg)
             (extensions r)
   | SignalingError _ \<Rightarrow> True
   | _ \<Rightarrow> False)"

definition news :: "Relay \<Rightarrow> Relay \<Rightarrow> relayOut list" where
  "news r r' = drop (length (rOut r)) (rOut r')"

lemma contains_in_call:
  assumes "ct_ok (trConfs (rTr r))" "ConferenceContains cid from p (trConfs (rTr r))"
  shows "inCallOrConference from p r"
proof -
  obtain conf where c: "map_of (ctActive (trConfs (rTr r))) cid = Some conf" "mhas from (Members conf)"
    using assms(2) by (auto simp: ConferenceContains_def split: option.splits)
  then have "map_of (memberIndex (trConfs (rTr r))) from = Some cid" using ct_okD(4) [OF assms(1)] by blast
  moreover have "confId conf = cid" using ct_okD(3) [OF assms(1) c(1)] by (simp add: conf_wf_def)
  ultimately show ?thesis using c(1) assms(2) by (simp add: inCallOrConference_def ConferenceByPhone_def Snapshot_def)
qed

lemma news_forward [simp]:
  "news r (forward w m r) = ToLine (mTo m) m
     # (if fst (sendResult w (mTo m) m r) \<noteq> None \<and> wMetrics w then [SignalingError ''relay_delivery''] else [])"
  by (simp add: news_def forward_def split_beta)

lemma news_same [simp]: "news r r = []"
  by (simp add: news_def)

lemma forward_reaches:
  assumes "inCallOrConference from (mTo msg) r" "mFrom msg = from"
  shows "list_all (mayReach from msg r) (news r (forward w msg r))"
  using assms by (auto simp: mayReach_def carries_def)

lemma noDest_reaches: "mTo msg = [] \<Longrightarrow> list_all (mayReach from msg r) (news r (snd (rejectNoDest w msg r)))"
  by (simp add: rejectNoDest_def news_def mayReach_def)

lemma DTMF_reaches:
  assumes "mFrom msg = from"
  shows "list_all (mayReach from msg r) (news r (handleDTMF w from msg r))"
  using forward_reaches [OF _ assms] noDest_reaches [of msg "from" r w]
  by (auto simp: handleDTMF_def Let_def split_beta rejectNoDest_def)

lemma ICERestart_reaches:
  assumes "mFrom msg = from"
  shows "list_all (mayReach from msg r) (news r (handleICERestart w from msg r))"
proof -
  have "\<exists>es. rOut (handleICERestart w from msg r) = rOut r @ es \<and> list_all (mayReach from msg r) es"
    using assms by (auto simp: handleICERestart_def rejectNoDest_def Let_def split_beta sendError_def mayReach_def
        carries_def split: option.split)
  then show ?thesis by (auto simp: news_def)
qed

lemma Answer_reaches:
  assumes "mFrom msg = from" "mType msg = TypeAnswer"
  shows "list_all (mayReach from msg r) (news r (handleAnswer w from msg r))"
  using assms
  by (auto simp: handleAnswer_def rejectNoDest_def Let_def split_beta forward_def news_def mayReach_def
      carries_def list_all_iff)

lemma extension_reaches:
  assumes "mFrom msg = from" "mTo msg \<noteq> []" "mExtension msg"
  shows "list_all (mayReach from msg r) (news r (snd (routeExtensionSignaling w from msg r)))"
proof -
  have "list_ex (\<lambda>q. exHardwareID (snd q) = h \<and> exPeerNumber (snd q) = from \<and> exLineNumber (snd q) = mTo msg) (extensions r)"
    if "extensionRoute from msg r = Some (Inr h)" for h
    using that by (auto simp: extensionRoute_def Let_def list_ex_iff find_Some_iff split: option.splits if_splits)
  then show ?thesis using assms
    by (auto simp: routeExtensionSignaling_def news_def mayReach_def carries_def extensionRoute_def
        split: option.split sum.split if_splits)
qed

lemma Forward_reaches:
  assumes ok: "ct_ok (trConfs (rTr r))" and "mFrom msg = from"
  shows "list_all (mayReach from msg r) (news r (handleSignalingForward w from msg r))"
proof (cases "mTo msg = []")
  case False
  have unhandled: "snd (routeExtensionSignaling w from msg r) = r" if "\<not> fst (routeExtensionSignaling w from msg r)"
    using that by (auto simp: routeExtensionSignaling_def split: option.splits sum.splits if_splits)
  have conf: "list_all (mayReach from msg r) (news r (sendLine w (mTo msg)
      (zeroMessage\<lparr>mType := mType msg, mFrom := from, mTo := mTo msg, mConfID := mConfID msg,
         mSDP := mSDP msg, mCandidate := mCandidate msg\<rparr>) r))"
    if "ConferenceContains cid from (mTo msg) (trConfs (rTr r))" for cid
    using contains_in_call [OF ok that] by (simp add: news_def mayReach_def carries_def)
  show ?thesis
    using False extension_reaches [OF assms(2) False] forward_reaches [OF _ assms(2)] unhandled conf
    by (auto simp: handleSignalingForward_def rejectNoDest_def Let_def split_beta split: option.splits)
qed (use noDest_reaches [of msg "from" r w] in \<open>simp add: handleSignalingForward_def Let_def split_beta rejectNoDest_def\<close>)


definition oneCall :: "relayMove list" where
  "oneCall = [plug ''a'' ''100'', plug ''b'' ''200'', dials ''100'' ''200'']"


section \<open>Merging\<close>

text \<open>A pair in a call is backed by an entry with the two numbers, in one order or the other.\<close>

lemma InCall_entry:
  assumes ok: "tr_ok t" and "InCall a b t"
  obtains c where "c \<in> set (activeCalls t)" "{acCaller c, acCallee c} = {a, b}" "CallIDForPair a b t \<noteq> 0"
proof -
  obtain k c where k: "map_of (trActive t) k = Some c" "k = callKey a b \<or> k = callKey b a"
    using assms(2) by (auto simp: InCall_def mhas_def)
  have id: "acID d \<noteq> 0" if "map_of (trActive t) l = Some d" for l d
    using tr_okD(6) [OF ok that] rows_okD(2) [OF tr_okD(2) [OF ok]] by (fastforce simp: backs_def)
  have "callKey (acCaller c) (acCallee c) = callKey a b \<or> callKey (acCaller c) (acCallee c) = callKey b a"
    using tr_okD(5) [OF ok k(1)] k(2) by simp
  then have "{acCaller c, acCallee c} = {a, b}"
    using callKey_inj tr_okD(7) [OF ok k(1)] by blast
  moreover have "c \<in> set (activeCalls t)" using k(1) activeCalls_iff [OF tr_okD(4) [OF ok]] by blast
  moreover have "CallIDForPair a b t \<noteq> 0"
    using k id by (auto simp: CallIDForPair_def split: option.splits)
  ultimately show thesis using that by blast
qed

lemma InCall_no_conf:
  assumes "relay_ok r" "InCall a b (rTr r)"
  shows "\<not> ctIsBusy a (trConfs (rTr r)) \<and> \<not> ctIsBusy b (trConfs (rTr r))"
proof -
  obtain c where c: "c \<in> set (activeCalls (rTr r))" "{acCaller c, acCallee c} = {a, b}"
    using InCall_entry [OF relay_okD(2) [OF assms(1)] assms(2)] by blast
  then have "involves a c" "involves b c" by (auto simp: involves_def doubleton_eq_iff)
  then have "filter (involves a) (activeCalls (rTr r)) \<noteq> []" "filter (involves b) (activeCalls (rTr r)) \<noteq> []"
    using c(1) by (auto simp: filter_empty_conv)
  then show ?thesis
    using admission_tracker [OF relay_okD(3) [OF assms(1)], of a] admission_tracker [OF relay_okD(3) [OF assms(1)], of b]
    by blast
qed

definition rejection :: "string \<Rightarrow> string \<Rightarrow> Message" where
  "rejection confID reason = zeroMessage\<lparr>mType := TypeConferenceRejected, mConfID := confID, mReason := reason\<rparr>"

lemma rejection_out [simp]:
  "rOut (sendRejection w host cid reason r) = rOut r @ [ToLine host (rejection cid reason)]"
  by (simp add: sendRejection_def rejection_def)

text \<open>Creating the conference when both calls exist: it fails only with the database.\<close>

lemma merge_creates:
  assumes ok: "relay_ok r" and calls: "InCall host held (rTr r)" "InCall host active (rTr r)"
    and fresh: "\<not> mhas newId (ctActive (trConfs (rTr r)))"
  shows "(db \<longrightarrow> (\<exists>conf t'. CreateConferencePersistent db newId now host orig [held, active] (rTr r) = (Inr conf, t')
              \<and> confId conf = newId))
    \<and> (\<not> db \<longrightarrow> (\<exists>e t'. CreateConferencePersistent db newId now host orig [held, active] (rTr r) = (Inl e, t')
              \<and> trActive t' = trActive (rTr r)
              \<and> (\<forall>p. ConferenceByPhone p (trConfs t') = ConferenceByPhone p (trConfs (rTr r)))))"
proof -
  let ?t = "rTr r"
  note no = InCall_no_conf [OF ok calls(1)] InCall_no_conf [OF ok calls(2)]
  note t = relay_okD(2) [OF ok]
  have ids: "CallIDForPair host held ?t \<noteq> 0" "CallIDForPair host active ?t \<noteq> 0"
    using InCall_entry [OF t calls(1)] InCall_entry [OF t calls(2)] by blast+
  let ?conf = "\<lparr>confId = newId, confHost = host, OriginatingCallID = orig,
      Members = confMembers host [held, active] now, confState = ConferenceStateActive,
      confCreatedAt = now, confEndedAt = None, confEndReason = []\<rparr>"
  let ?cs = "(trConfs ?t)\<lparr>ctActive := mput newId ?conf (ctActive (trConfs ?t)),
      memberIndex := mputs [held, active] newId (mput host newId (memberIndex (trConfs ?t)))\<rparr>"
  have create: "CreateConference newId now host orig [held, active] (trConfs ?t) = (Inr ?conf, ?cs)"
    using no by (simp add: CreateConference_def Let_def ctIsBusy_def)
  let ?cs' = "snd (EndConference newId ''db_error'' ?cs)"
  have keys: "set (mkeys (confMembers host [held, active] now)) = {host, held, active}"
    using mhas_confMembers [of _ host "[held, active]" now] by (auto simp: mhas_iff)
  have free: "map_of (memberIndex (trConfs ?t)) p = None" if "p \<in> {host, held, active}" for p
    using no that by (auto simp: ctIsBusy_def mhas_def)
  have "map_of (memberIndex ?cs') = map_of (memberIndex (trConfs ?t))"
    using keys free by (auto simp: EndConference_def map_of_mdels map_of_mputs fun_eq_iff simp del: set_map)
  moreover have "map_of (ctActive ?cs') = map_of (ctActive (trConfs ?t))"
    using fresh by (auto simp: EndConference_def mhas_def fun_eq_iff)
  ultimately have "ConferenceByPhone p ?cs' = ConferenceByPhone p (trConfs ?t)" for p
    by (simp add: ConferenceByPhone_def Snapshot_def cong: option.case_cong)
  then show ?thesis using ids create
    by (auto simp: CreateConferencePersistent_def Let_def)
qed

lemma merged_members:
  assumes "CreateConferencePersistent db newId now host orig ms t = (Inr conf, t')"
    and "p = host \<or> p \<in> set ms"
  shows "ConferenceByPhone p (trConfs t') = Some conf \<and> AllPeersOf p t' = [] \<and> ctIsBusy p (trConfs t')"
proof -
  obtain ids cs where cs: "CreateConference newId now host orig ms (trConfs t) = (Inr conf, cs)"
    and t': "trConfs t' = cs" "trActive t' = filter (\<lambda>(k, c). \<not> involvesMember conf c) (trActive t)"
    by (rule Create_persistent_Inr [OF assms(1)])
  have mem: "mhas q (Members conf) \<longleftrightarrow> q = host \<or> q \<in> set ms" for q
    using CreateConference_Inr(1) [OF cs] by (simp add: mhas_confMembers)
  have "activeCalls t' = filter (\<lambda>c. \<not> involvesMember conf c) (activeCalls t)"
    using t'(2) activeCalls_filter [of "\<lambda>c. \<not> involvesMember conf c" t] by (simp add: activeCalls_def)
  then have "AllPeersOf p t' = []"
    unfolding AllPeersOf_def
    by (simp only:) (rule peersIn_none, use mem assms(2) in \<open>auto simp: involves_def involvesMember_def\<close>)
  then show ?thesis using CreateConference_Inr(2) [OF cs] assms(2) t'(1)
    by (auto simp: ctIsBusy_def mhas_def map_of_mputs ConferenceByPhone_def Snapshot_def)
qed

text \<open>
  C5: A merge request does all or nothing.  In every reachable state it succeeds exactly when
  the requester is in a call with both phones and the database answers.  Then all three are in
  the new conference and in no two-party call, each is sent the same list of members, and the
  two others are told to connect to each other with exactly one of them as the initiator.
  Otherwise the requester alone is sent one rejection, and calls and conferences are as they were.
\<close>
theorem merge_all_or_nothing:
  assumes ok: "relay_ok r" and "rTracking r" and "\<not> mhas (wNewUUID w) (ctActive (trConfs (rTr r)))"
    and "held = mHeldPeer msg" and "active = mActivePeer msg"
    and "r' = handleConferenceMerge w host msg r"
  shows "if InCall host held (rTr r) \<and> InCall host active (rTr r) \<and> wDB w DbCreateConf
    then (\<exists>conf. confId conf = wNewUUID w
            \<and> (\<forall>p \<in> {host, held, active}. ConferenceByPhone p (trConfs (rTr r')) = Some conf
                  \<and> filter (involves p) (activeCalls (rTr r')) = []))
         \<and> news r r' = map (\<lambda>p. ToLine p (confMemberMsg w (wNewUUID w) host held active)) [host, held, active]
             @ [ToLine held (confConnectMsg w (wNewUUID w) active (held < active)),
                ToLine active (confConnectMsg w (wNewUUID w) held (\<not> held < active))]
    else (\<exists>reason. news r r' = [ToLine host (rejection (mConfID msg) reason)])
         \<and> trActive (rTr r') = trActive (rTr r)
         \<and> (\<forall>p. ConferenceByPhone p (trConfs (rTr r')) = ConferenceByPhone p (trConfs (rTr r)))"
proof (cases "InCall host held (rTr r) \<and> InCall host active (rTr r)")
  case calls: True
  let ?t = "rTr r" and ?orig = "CallIDForPair host held (rTr r)"
  let ?create = "CreateConferencePersistent (wDB w DbCreateConf) (wNewUUID w) (wNow w) host ?orig [held, active] ?t"
  note no = InCall_no_conf [OF ok conjunct1 [OF calls]] InCall_no_conf [OF ok conjunct2 [OF calls]]
  have orig: "?orig \<noteq> 0" using InCall_entry [OF relay_okD(2) [OF ok] conjunct1 [OF calls]] by blast
  note new = merge_creates [OF ok conjunct1 [OF calls] conjunct2 [OF calls] assms(3)]
  show ?thesis
  proof (cases "wDB w DbCreateConf")
    case True
    obtain conf t' where c: "?create = (Inr conf, t')" "confId conf = wNewUUID w"
      using new [of "wDB w DbCreateConf" "wNow w" ?orig] True by blast
    have r': "rTr r' = t'" using calls no orig c assms(2,4-6) by (simp add: handleConferenceMerge_def Let_def)
    have conf: "ConferenceByPhone p (trConfs t') = Some conf" "AllPeersOf p t' = []" "ctIsBusy p (trConfs t')"
      if "p \<in> {host, held, active}" for p
      using merged_members [OF c(1), of p] that by auto
    have "filter (involves p) (activeCalls t') = []" if "p \<in> {host, held, active}" for p
    proof -
      have "\<not> involves p d" if "d \<in> set (activeCalls t')" for d
      proof
        assume "involves p d"
        then have "set (peersIn p (activeCalls t')) \<noteq> {}" using that unfolding peersIn_set by blast
        then show False using conf(2) [OF \<open>p \<in> {host, held, active}\<close>] by (simp add: AllPeersOf_def)
      qed
      then show ?thesis by (simp add: filter_empty_conv)
    qed
    moreover have "news r r' = map (\<lambda>p. ToLine p (confMemberMsg w (wNewUUID w) host held active)) [host, held, active]
             @ [ToLine held (confConnectMsg w (wNewUUID w) active (held < active)),
                ToLine active (confConnectMsg w (wNewUUID w) held (\<not> held < active))]"
      using calls no orig c assms(2,4-6) by (simp add: handleConferenceMerge_def Let_def news_def)
    ultimately show ?thesis using calls True conf(1) c(2) r' by (auto simp del: map_map)
  next
    case False
    obtain e t' where c: "?create = (Inl e, t')" "trActive t' = trActive ?t"
      "\<forall>p. ConferenceByPhone p (trConfs t') = ConferenceByPhone p (trConfs ?t)"
      using new [of "wDB w DbCreateConf" "wNow w" ?orig] False by blast
    have "r' = sendRejection w host (mConfID msg) ''create_failed'' (r\<lparr>rTr := t'\<rparr>)"
      using calls no orig c assms(2,4-6) by (simp add: handleConferenceMerge_def Let_def)
    then show ?thesis using False c(2,3) by (auto simp: news_def)
  qed
next
  case False
  then have "r' = sendRejection w host (mConfID msg) ''host_not_in_both_calls'' r"
    using assms(2,4-6) by (auto simp: handleConferenceMerge_def Let_def)
  then show ?thesis using False by (auto simp: news_def)
qed

definition mergeMsg :: Message where
  "mergeMsg = zeroMessage\<lparr>mType := TypeConferenceMerge, mHeldPeer := ''200'', mActivePeer := ''300''\<rparr>"

theorem merge_all_or_nothing_witness:
  "let r = fold relay_step (take 6 threeWay) (freshRelay True True True);
       r' = handleConferenceMerge calmWorld ''100'' mergeMsg r
   in (\<exists>conf. confId conf = 7 \<and> ConferenceByPhone ''200'' (trConfs (rTr r')) = Some conf)
      \<and> map (\<lambda>e. case e of ToLine p m \<Rightarrow> (p, mInitiator m)) (drop 3 (news r r')) = [(''200'', True), (''300'', False)]"
proof -
  let ?r = "fold relay_step (take 6 threeWay) (freshRelay True True True)"
  have "allowed_run relay_step relay_move_ok (take 6 threeWay) (freshRelay True True True)" by code_simp
  then have ok: "relay_ok ?r"
    unfolding freshRelay_def by (rule relay.run_inv [OF relay_ok_New [OF hub_ok_New]])
  have e: "rTracking ?r" "\<not> mhas (wNewUUID calmWorld) (ctActive (trConfs (rTr ?r)))"
    "InCall ''100'' ''200'' (rTr ?r) \<and> InCall ''100'' ''300'' (rTr ?r) \<and> wDB calmWorld DbCreateConf"
    "wNewUUID calmWorld = 7"
    by code_simp+
  have m: "''200'' = mHeldPeer mergeMsg" "''300'' = mActivePeer mergeMsg" by (simp_all add: mergeMsg_def)
  have "(''200'' :: string) < ''300''" by code_simp
  with merge_all_or_nothing [OF ok e(1,2) m refl, of "''100''"] e(3,4)
  show ?thesis by (auto simp: Let_def confConnectMsg_def)
qed

end
