(* ===== verification/Relay_Returns.thy ===== *)
theory Relay_Returns
  imports Relay_Props
begin

text \<open>
  When a call return rings: the observer of an ended call, and runs that show where the relay's
  bookkeeping (extensions, grace timers, rings, dropped members) outlives the call it belongs to.
\<close>

section \<open>Call returns\<close>

lemma online_send [simp]:
  "IsOnline n (snd (SendTo ms m x h)) = IsOnline n h"
proof -
  have t: "conns (snd (trySend c d h)) = conns h \<and> hstate (snd (trySend c d h)) = hstate h" for c d h
    by (simp add: trySend_def Let_def updConn_def)
  have "conns (sendLoop hook d cs h) = conns h \<and> hstate (sendLoop hook d cs h) = hstate h" for hook d cs h
  proof (induction cs arbitrary: h)
    case (Cons c cs)
    then show ?case using t [of c d h] by (cases "trySend c d h") (simp add: Let_def hubEmit_def)
  qed simp
  then show ?thesis
    by (simp add: SendTo_def Let_def publish_def hubEmit_def IsOnline_def Get_def lineConns_def split: option.split)
qed

lemma online_sendLine [simp]: "IsOnline n (rHub (sendLine w m x r)) = IsOnline n (rHub r)"
  by (simp add: sendLine_def sendResult_def split_beta)

text \<open>The number a requester would be rung for now.\<close>

definition returnTarget :: "World \<Rightarrow> string \<Rightarrow> Relay \<Rightarrow> string option" where
  "returnTarget w q r = (case map_of (pendingReturns r) q of None \<Rightarrow> None
     | Some p \<Rightarrow> if wNow w \<le> prExpiresAt p \<and> rTracking r \<and> \<not> Busy (prTarget p) (rTr r) \<and> \<not> Busy q (rTr r)
                    \<and> IsOnline q (rHub r) \<and> IsOnline (prTarget p) (rHub r)
                 then Some (prTarget p) else None)"

definition expired :: "World \<Rightarrow> string \<Rightarrow> Relay \<Rightarrow> bool" where
  "expired w q r \<longleftrightarrow> (case map_of (pendingReturns r) q of None \<Rightarrow> False | Some p \<Rightarrow> wNow w > prExpiresAt p)"

definition ringBack :: "string \<Rightarrow> Message" where
  "ringBack target = zeroMessage\<lparr>mType := TypeCallReturnRing, mNumber := target\<rparr>"

lemma check_effect:
  "map_of (pendingReturns (checkPendingReturn w q r)) x
     = (if x = q \<and> (returnTarget w q r \<noteq> None \<or> expired w q r) then None else map_of (pendingReturns r) x)"
  "rOut (checkPendingReturn w q r)
     = rOut r @ (case returnTarget w q r of None \<Rightarrow> [] | Some tg \<Rightarrow> [ToLine q (ringBack tg)])"
  "x \<noteq> q \<Longrightarrow> returnTarget w x (checkPendingReturn w q r) = returnTarget w x r"
  "x \<noteq> q \<Longrightarrow> expired w x (checkPendingReturn w q r) = expired w x r"
  by (auto simp: checkPendingReturn_def returnTarget_def expired_def ringBack_def split: option.split)

lemma checks_effect:
  assumes "distinct qs"
  shows "rOut (fold (checkPendingReturn w) qs r) = rOut r @ concat (map (\<lambda>q. case returnTarget w q r of
            None \<Rightarrow> [] | Some tg \<Rightarrow> [ToLine q (ringBack tg)]) qs)
    \<and> (\<forall>x. map_of (pendingReturns (fold (checkPendingReturn w) qs r)) x
        = (if x \<in> set qs \<and> (returnTarget w x r \<noteq> None \<or> expired w x r) then None else map_of (pendingReturns r) x))"
  using assms
proof (induction qs arbitrary: r)
  case (Cons q qs)
  let ?r = "checkPendingReturn w q r"
  have ne: "x \<noteq> q" if "x \<in> set qs" for x using Cons.prems that by auto
  have same: "returnTarget w x ?r = returnTarget w x r" "expired w x ?r = expired w x r" if "x \<in> set qs" for x
    using check_effect(3,4) [OF ne [OF that]] by auto
  have M: "map (\<lambda>q. case returnTarget w q ?r of None \<Rightarrow> [] | Some tg \<Rightarrow> [ToLine q (ringBack tg)]) qs
      = map (\<lambda>q. case returnTarget w q r of None \<Rightarrow> [] | Some tg \<Rightarrow> [ToLine q (ringBack tg)]) qs"
    by (rule map_cong) (simp_all add: same)
  have "rOut (fold (checkPendingReturn w) (q # qs) r) = rOut ?r @ concat (map (\<lambda>q. case returnTarget w q r of
            None \<Rightarrow> [] | Some tg \<Rightarrow> [ToLine q (ringBack tg)]) qs)"
    using Cons.IH [of ?r, THEN conjunct1] Cons.prems unfolding M by simp
  then have "rOut (fold (checkPendingReturn w) (q # qs) r) = rOut r @ concat (map (\<lambda>q. case returnTarget w q r of
            None \<Rightarrow> [] | Some tg \<Rightarrow> [ToLine q (ringBack tg)]) (q # qs))"
    unfolding check_effect(2) by simp
  moreover have "map_of (pendingReturns (fold (checkPendingReturn w) (q # qs) r)) x
        = (if x \<in> set (q # qs) \<and> (returnTarget w x r \<noteq> None \<or> expired w x r) then None
           else map_of (pendingReturns r) x)" for x
    using Cons.IH [of ?r] Cons.prems same [of x] check_effect(1) [of w q r x] by auto
  ultimately show ?case by blast
qed simp

definition forLine :: "string \<Rightarrow> relayOut \<Rightarrow> bool" where
  "forLine q e \<longleftrightarrow> (case e of ToLine p m \<Rightarrow> p = q | _ \<Rightarrow> False)"

lemma rings_of_one:
  assumes "distinct qs"
  shows "filter (forLine q) (concat (map (\<lambda>p. case f p of None \<Rightarrow> [] | Some tg \<Rightarrow> [ToLine p (ringBack tg)]) qs))
    = (if q \<in> set qs then case f q of None \<Rightarrow> [] | Some tg \<Rightarrow> [ToLine q (ringBack tg)] else [])"
  using assms by (induction qs) (auto simp: forLine_def split: option.split)

definition waitsFor :: "string \<Rightarrow> string \<Rightarrow> string \<Rightarrow> Relay \<Rightarrow> bool" where
  "waitsFor a b q r \<longleftrightarrow> (case map_of (pendingReturns r) q of None \<Rightarrow> False | Some p \<Rightarrow> returnConcerns a b (q, p))"

lemma map_of_filter_snd:
  assumes "mwf m"
  shows "map_of (filter (\<lambda>p. P (snd p)) m) k = (case map_of m k of None \<Rightarrow> None | Some v \<Rightarrow> if P v then Some v else None)"
proof (cases "map_of m k")
  case None
  then have "map_of (filter (\<lambda>p. P (snd p)) m) k = None" by (auto simp: map_of_eq_None_iff)
  then show ?thesis using None by simp
next
  case (Some v)
  show ?thesis
  proof (cases "P v")
    case True
    then show ?thesis using Some map_of_filter [OF assms, of "\<lambda>p. P (snd p)" k v] by simp
  next
    case False
    have "map_of (filter (\<lambda>p. P (snd p)) m) k \<noteq> Some u" for u
      using map_of_filter [OF assms, of "\<lambda>p. P (snd p)" k u] Some False by auto
    then show ?thesis using Some False by (cases "map_of (filter (\<lambda>p. P (snd p)) m) k") auto
  qed
qed

lemma notify_effect:
  assumes wf: "mwf (pendingReturns r)" and r': "r' = OnCallEndedNotify w a b r"
  shows "filter (forLine q) (drop (length (rOut r)) (rOut r'))
      = (if waitsFor a b q r then case returnTarget w q r of None \<Rightarrow> [] | Some tg \<Rightarrow> [ToLine q (ringBack tg)] else [])"
    and "map_of (pendingReturns r') q
      = (if expired w q r \<or> waitsFor a b q r \<and> returnTarget w q r \<noteq> None \<or> b = [] \<and> q = a then None
         else map_of (pendingReturns r) q)"
proof -
  let ?live = "filter (\<lambda>q. \<not> wNow w > prExpiresAt (snd q)) (pendingReturns r)"
  let ?qs = "map fst (filter (returnConcerns a b) ?live)"
  let ?r = "r\<lparr>pendingReturns := ?live\<rparr>"
  have wl: "mwf ?live" using wf by (rule mwf_filter)
  have dist: "distinct ?qs" using wl unfolding mwf_def by (rule distinct_map_filter)
  have live: "map_of ?live x = (if expired w x r then None else map_of (pendingReturns r) x)" for x
    using map_of_filter_snd [OF wf, of "\<lambda>v. \<not> wNow w > prExpiresAt v" x]
    by (simp add: expired_def split: option.split)
  have tgt: "returnTarget w x ?r = returnTarget w x r" for x
    using live [of x] by (auto simp: returnTarget_def expired_def split: option.splits)
  have exp: "\<not> expired w x ?r" for x
    using live [of x] by (auto simp: expired_def split: option.splits)
  have inqs: "x \<in> set ?qs \<longleftrightarrow> waitsFor a b x r \<and> \<not> expired w x r" for x
  proof -
    have "x \<in> set ?qs \<longleftrightarrow> (\<exists>p. map_of ?live x = Some p \<and> returnConcerns a b (x, p))"
      using mwf_in_set [OF wl, of x] by force
    then show ?thesis unfolding live by (auto simp: waitsFor_def split: option.splits)
  qed
  have dead: "returnTarget w x r = None" if "expired w x r" for x
    using that by (auto simp: expired_def returnTarget_def split: option.splits)
  note E = checks_effect [OF dist, of w ?r]
  have pr: "pendingReturns ?r = ?live" by simp
  let ?f = "fold (checkPendingReturn w) ?qs ?r"
  have ends: "rOut r' = rOut ?f"
    "map_of (pendingReturns r') q = (if b = [] \<and> q = a then None else map_of (pendingReturns ?f) q)"
    unfolding r' OnCallEndedNotify_def Let_def by (cases "b = []"; simp)+
  have out: "rOut r' = rOut r @ concat (map (\<lambda>q. case returnTarget w q r of
      None \<Rightarrow> [] | Some tg \<Rightarrow> [ToLine q (ringBack tg)]) ?qs)"
    using E [THEN conjunct1] unfolding tgt by (simp add: ends(1))
  show "filter (forLine q) (drop (length (rOut r)) (rOut r'))
      = (if waitsFor a b q r then case returnTarget w q r of None \<Rightarrow> [] | Some tg \<Rightarrow> [ToLine q (ringBack tg)] else [])"
    using rings_of_one [OF dist, of q "\<lambda>q. returnTarget w q r"] inqs [of q] dead [of q] unfolding out by auto
  have "map_of (pendingReturns ?f) q
      = (if q \<in> set ?qs \<and> returnTarget w q r \<noteq> None then None else map_of ?live q)"
    using E [THEN conjunct2, THEN spec, of q] by (simp only: tgt pr exp simp_thms)
  then show "map_of (pendingReturns r') q
      = (if expired w q r \<or> waitsFor a b q r \<and> returnTarget w q r \<noteq> None \<or> b = [] \<and> q = a then None
         else map_of (pendingReturns r) q)"
    unfolding ends(2) inqs live by auto
qed

lemma ended_observed:
  assumes "hasObs (rTr r)" and "db"
  shows "observed w (snd (OnCallEndedWithReason db now a b reason (rTr r))) r
    = OnCallEndedNotify w a b (r\<lparr>rTr := snd (OnCallEndedWithReason db now a b reason (rTr r))\<rparr>)"
proof -
  have outs: "trOuts (updateLatest P f t) = trOuts t" "hasObs (updateLatest P f t) = hasObs t" for P f t
    by (simp_all add: updateLatest_def updateCalls_def split: option.split)
  let ?i = "CallIDForPair a b (rTr r)"
  have "trOuts (snd (OnCallEndedWithReason db now a b reason (rTr r))) = trOuts (rTr r)
      @ whenTr (hasHealth (rTr r) \<and> ?i \<noteq> 0) (HealthEvict ?i) @ whenTr (hasDash (rTr r) \<and> ?i \<noteq> 0) DashNotify
      @ [ObsCallEnded a b]"
    using assms by (simp add: OnCallEndedWithReason_def CallIDForPair_def Let_def outs trEmit_def whenTr_def)
  moreover have "observeTracker w (whenTr x (HealthEvict i) @ whenTr y DashNotify @ [ObsCallEnded a b]) q
      = OnCallEndedNotify w a b q" for x y i q
    by (simp add: whenTr_def)
  ultimately show ?thesis by (simp add: observed_def)
qed

definition oneCallMoves :: "relayMove list" where
  "oneCallMoves = [plug ''a'' ''100'', plug ''b'' ''200'', dials ''100'' ''200'']"


definition busyReturn :: "relayMove list" where
  "busyReturn = oneCallMoves @ [plug ''c'' ''300'',
     says ''300'' (zeroMessage\<lparr>mType := TypeCallReturnRetry, mNumber := ''200''\<rparr>)]"


section \<open>Bookkeeping that outlives its call\<close>

text \<open>
  A grace timer does not remember which call it holds.  The device of line 100 drops out of its
  call, the peer hangs up, another device of the line calls a third phone, and the timer of the
  first device then ends that call.
\<close>

definition staleGrace :: "relayMove list" where
  "staleGrace = oneCallMoves @ [RvClosed calmWorld ''100'' 0,
     says ''200'' (zeroMessage\<lparr>mType := TypeHangup, mHardwareID := ''b''\<rparr>),
     plug ''d'' ''100'', plug ''c'' ''300'', dials ''100'' ''300'']"

theorem stale_grace_ends_new_call:
  "let r = fold relay_step staleGrace (freshRelay True True True); r' = graceFire lateWorld 0 r
   in AllPeersOf ''100'' (rTr r) = [''300''] \<and> AllPeersOf ''100'' (rTr r') = []
      \<and> drop (length (rOut r)) (rOut r') = [ToLine ''300'' (hangupMsg ''100'' hangupReasonPeerOffline ''300'')]"
proof -
  let ?r = "fold relay_step staleGrace (freshRelay True True True)"
  have "AllPeersOf ''100'' (rTr ?r) = [''300'']" "AllPeersOf ''100'' (rTr (graceFire lateWorld 0 ?r)) = []"
    "drop (length (rOut ?r)) (rOut (graceFire lateWorld 0 ?r))
       = [ToLine ''300'' (hangupMsg ''100'' hangupReasonPeerOffline ''300'')]"
    by code_simp+
  then show ?thesis by (simp add: Let_def)
qed

text \<open>
  An extension survives the call when the other line hangs up.  The device that had joined as an
  extension then answers the next call, and its hangup is taken for that of the extension: the
  call stays.
\<close>

definition staleExtension :: "relayMove list" where
  "staleExtension = [plug ''a'' ''100'', plug ''x'' ''100'', plug ''b'' ''200'', dials ''200'' ''100'',
     says ''100'' (zeroMessage\<lparr>mType := TypeAnswer, mTo := ''200'', mHardwareID := ''a''\<rparr>),
     says ''100'' (zeroMessage\<lparr>mType := TypeExtensionPickup, mHardwareID := ''x''\<rparr>),
     says ''200'' (zeroMessage\<lparr>mType := TypeHangup, mHardwareID := ''b''\<rparr>),
     dials ''200'' ''100'',
     says ''100'' (zeroMessage\<lparr>mType := TypeAnswer, mTo := ''200'', mHardwareID := ''x''\<rparr>),
     says ''100'' (zeroMessage\<lparr>mType := TypeHangup, mHardwareID := ''x''\<rparr>)]"

theorem extension_survives_the_call:
  "let before = rTr (fold relay_step (take 7 staleExtension) (freshRelay True True True));
       after = rTr (fold relay_step staleExtension (freshRelay True True True))
   in activeCalls before = [] \<and> length (activeCalls after) = 1 \<and> InCall ''200'' ''100'' after"
proof -
  have "activeCalls (rTr (fold relay_step (take 7 staleExtension) (freshRelay True True True))) = []"
    "length (activeCalls (rTr (fold relay_step staleExtension (freshRelay True True True)))) = 1"
    "InCall ''200'' ''100'' (rTr (fold relay_step staleExtension (freshRelay True True True)))"
    by code_simp+
  then show ?thesis by (simp add: Let_def)
qed

text \<open>
  When a call cannot be recorded the callee is rung all the same, and its answer is dropped.
\<close>

theorem unrecorded_call_rings:
  "let w = calmWorld\<lparr>wDB := (\<lambda>_. False)\<rparr>;
       r = fold relay_step (take 2 oneCallMoves) (freshRelay True True True);
       r1 = HandleMessage w ''100'' (zeroMessage\<lparr>mType := TypeCall, mTo := ''200''\<rparr>) r;
       r2 = HandleMessage w ''200'' (zeroMessage\<lparr>mType := TypeAnswer, mTo := ''100''\<rparr>) r1
   in drop (length (rOut r)) (rOut r1)
        = [SignalingError ''call_setup_failed'', ToLine ''200'' (zeroMessage\<lparr>mType := TypeRing, mFrom := ''100''\<rparr>)]
      \<and> rOut r2 = rOut r1"
  by code_simp

text \<open>
  When the database fails while a member leaves, the conference is gone from memory and nobody
  is told: the two that stay can no longer exchange signalling.
\<close>

theorem unrecorded_drop_is_silent:
  "let w = calmWorld\<lparr>wDB := (\<lambda>_. False)\<rparr>;
       r = fold relay_step (take 7 threeWay) (freshRelay True True True);
       r' = HandleMessage w ''200'' (zeroMessage\<lparr>mType := TypeHangup\<rparr>) r
   in inCallOrConference ''100'' ''300'' r \<and> \<not> inCallOrConference ''100'' ''300'' r' \<and> rOut r' = rOut r"
proof -
  let ?w = "calmWorld\<lparr>wDB := (\<lambda>_. False)\<rparr>"
  let ?r = "fold relay_step (take 7 threeWay) (freshRelay True True True)"
  let ?r' = "HandleMessage ?w ''200'' (zeroMessage\<lparr>mType := TypeHangup\<rparr>) ?r"
  have "inCallOrConference ''100'' ''300'' ?r" "\<not> inCallOrConference ''100'' ''300'' ?r'"
    "drop (length (rOut ?r)) (rOut ?r') = []" "length (rOut ?r') = length (rOut ?r)"
    by code_simp+
  moreover have "take (length (rOut ?r)) (rOut ?r') = rOut ?r" by code_simp
  ultimately show ?thesis by (simp add: Let_def)
qed

end
