(* ===== verification/AccessDB.thy ===== *)
theory AccessDB
  imports Prelude "HOL-Library.Char_ord" "HOL-Library.List_Lexorder"
begin

text \<open>
  The relational state of signald behind accounts, households and devices: the tables that
  \<^verbatim>\<open>server/internal/db/db.go\<close> creates and that the packages \<open>auth\<close>, \<open>household\<close>, \<open>line\<close>, \<open>device\<close>
  and \<open>pairing\<close> read and write, with the keys, checks and cascades the statements rely on.

  A table is the list of its rows in insertion order; a query without \<open>ORDER BY\<close> answers in that
  order.  A nullable column is an option.  UUIDs and serials are arguments, and one that is
  already in use violates the primary key.  \<open>f i\<close> tells whether the \<open>i\<close>-th statement of a call
  reaches the database (\<open>f 0\<close> the begin and \<open>f 1\<close> the commit of a transaction).  Times are in
  seconds; \<open>now\<close> is \<open>NOW()\<close> and Go's clock.
\<close>

section \<open>Rows\<close>

record UserRow =
  usID :: string
  usEmail :: string
  usName :: string
  usGoogleID :: "string option"
  usTheme :: string
  usThemeChosen :: bool
  usCreatedAt :: int
  usLastLogin :: "int option"
  usDisabledAt :: "int option"

record SessionRow =
  seID :: string
  seUser :: string
  seHash :: string
  seExpires :: int
  seCreatedAt :: int
  seHousehold :: "string option"

record MagicRow =
  mgEmail :: string
  mgHash :: string
  mgExpires :: int
  mgUsed :: bool
  mgCreatedAt :: int
  mgReturnTo :: "string option"

record HouseholdRow =
  hhID :: string
  hhName :: string
  hhHistory :: bool
  hhTimezone :: string
  hhCreatedAt :: int

record MembershipRow =
  mbUser :: string
  mbHousehold :: string
  mbRole :: string

record InviteRow =
  ivID :: string
  ivHousehold :: string
  ivEmail :: string
  ivInvitedBy :: "string option"
  ivToken :: string
  ivStatus :: string
  ivCreatedAt :: int
  ivAcceptedAt :: "int option"
  ivExpires :: int

record LinkRow =
  lkID :: string
  lkA :: string
  lkB :: "string option"
  lkStatus :: string
  lkCode :: string
  lkInvitedBy :: "string option"
  lkAcceptedBy :: "string option"
  lkCreatedAt :: int
  lkAcceptedAt :: "int option"
  lkRevokedAt :: "int option"
  lkRevokedBy :: "string option"

record LineRow =
  lnID :: int
  lnNumber :: string
  lnName :: string
  lnHousehold :: string

record DeviceRow =
  dvID :: int
  dvLine :: "int option"
  dvName :: string
  dvHardwareID :: string
  dvToken :: "string option"
  dvCode :: "string option"
  dvCodeExpires :: "int option"
  dvPairedAt :: "int option"
  dvCreatedAt :: int
  dvLastSeen :: "int option"

record DB =
  dbUsers :: "UserRow list"
  dbSessions :: "SessionRow list"
  dbMagic :: "MagicRow list"
  dbHouseholds :: "HouseholdRow list"
  dbMembers :: "MembershipRow list"
  dbInvites :: "InviteRow list"
  dbLinks :: "LinkRow list"
  dbLines :: "LineRow list"
  dbDevices :: "DeviceRow list"

definition emptyDB :: DB where
  "emptyDB = \<lparr>dbUsers = [], dbSessions = [], dbMagic = [], dbHouseholds = [], dbMembers = [], dbInvites = [],
     dbLinks = [], dbLines = [], dbDevices = []\<rparr>"

section \<open>Errors and statements\<close>

datatype dbErr =
    DbFail | ErrRandom | ErrInvalidTheme
  | ErrUserNotFound | ErrInvalidSession | ErrInvalidMagicLink | ErrAccountDisabled | ErrMagicLinkRateLimited
  | ErrHouseholdNotFound | ErrNotMember | ErrBadTimezone
  | ErrInviteNotFound | ErrInviteExpiredOrUsed | ErrInviteEmailMismatch | ErrInviteNotPending
  | ErrInviteCodeUsed | ErrSelfLink | ErrAlreadyLinked | ErrLinkNotRevocable | ErrLinkNotFound
  | ErrLineNotFound | ErrInvalidCode | ErrAlreadyPaired | ErrNumberTaken | ErrLineNotOwned | ErrDeviceNotFound

type_synonym stmts = "nat \<Rightarrow> bool"

text \<open>\<open>UPDATE t SET g WHERE p\<close>.\<close>

definition updRows :: "('r \<Rightarrow> bool) \<Rightarrow> ('r \<Rightarrow> 'r) \<Rightarrow> 'r list \<Rightarrow> 'r list" where
  "updRows p g rows = map (\<lambda>r. if p r then g r else r) rows"

text \<open>\<open>dbutil.WithTx\<close>: an error of the body or of the commit leaves the tables as they were.\<close>

definition WithTx :: "stmts \<Rightarrow> (DB \<Rightarrow> dbErr + 'a \<times> DB) \<Rightarrow> DB \<Rightarrow> (dbErr + 'a) \<times> DB" where
  "WithTx f body d =
     (if \<not> f 0 then (Inl DbFail, d)
      else case body d of
          Inl e \<Rightarrow> (Inl e, d)
        | Inr (a, d') \<Rightarrow> if f 1 then (Inr a, d') else (Inl DbFail, d))"

section \<open>Cascades\<close>

text \<open>\<open>DELETE\<close> of dbLines takes their dbDevices along.\<close>

definition deleteLines :: "(LineRow \<Rightarrow> bool) \<Rightarrow> DB \<Rightarrow> DB" where
  "deleteLines p d =
     d\<lparr>dbLines := filter (\<lambda>l. \<not> p l) (dbLines d),
       dbDevices := filter (\<lambda>v. \<not> (case dvLine v of None \<Rightarrow> False
                                 | Some i \<Rightarrow> list_ex (\<lambda>l. p l \<and> lnID l = i) (dbLines d))) (dbDevices d)\<rparr>"

text \<open>\<open>DELETE\<close> of a household: dbMembers, dbInvites, dbLinks and dbLines go; dbSessions forget it.\<close>

definition deleteHouseholdRow :: "string \<Rightarrow> DB \<Rightarrow> DB" where
  "deleteHouseholdRow h d =
     (let d = deleteLines (\<lambda>l. lnHousehold l = h) d
      in d\<lparr>dbHouseholds := filter (\<lambda>r. hhID r \<noteq> h) (dbHouseholds d),
           dbMembers := filter (\<lambda>m. mbHousehold m \<noteq> h) (dbMembers d),
           dbInvites := filter (\<lambda>i. ivHousehold i \<noteq> h) (dbInvites d),
           dbLinks := filter (\<lambda>l. lkA l \<noteq> h \<and> lkB l \<noteq> Some h) (dbLinks d),
           dbSessions := updRows (\<lambda>s. seHousehold s = Some h) (\<lambda>s. s\<lparr>seHousehold := None\<rparr>) (dbSessions d)\<rparr>)"

text \<open>\<open>DELETE\<close> of a user: dbSessions and memberships go; migration 28 sets the other references null.\<close>

definition unref :: "string \<Rightarrow> string option \<Rightarrow> string option" where
  "unref u r = (if r = Some u then None else r)"

definition deleteUserRow :: "string \<Rightarrow> DB \<Rightarrow> DB" where
  "deleteUserRow u d =
     d\<lparr>dbUsers := filter (\<lambda>r. usID r \<noteq> u) (dbUsers d),
       dbSessions := filter (\<lambda>s. seUser s \<noteq> u) (dbSessions d),
       dbMembers := filter (\<lambda>m. mbUser m \<noteq> u) (dbMembers d),
       dbInvites := map (\<lambda>i. i\<lparr>ivInvitedBy := unref u (ivInvitedBy i)\<rparr>) (dbInvites d),
       dbLinks := map (\<lambda>l. l\<lparr>lkInvitedBy := unref u (lkInvitedBy l), lkAcceptedBy := unref u (lkAcceptedBy l),
                           lkRevokedBy := unref u (lkRevokedBy l)\<rparr>) (dbLinks d)\<rparr>"

abbreviation userIDs :: "DB \<Rightarrow> string list" where "userIDs d \<equiv> map usID (dbUsers d)"
abbreviation householdIDs :: "DB \<Rightarrow> string list" where "householdIDs d \<equiv> map hhID (dbHouseholds d)"
abbreviation lineIDs :: "DB \<Rightarrow> int list" where "lineIDs d \<equiv> map lnID (dbLines d)"

section \<open>Addresses\<close>

text \<open>\<open>strings.TrimSpace\<close> and \<open>strings.ToLower\<close> on ASCII text, and \<open>email.Normalize\<close>.\<close>

definition isSpaceByte :: "char \<Rightarrow> bool" where
  "isSpaceByte c \<longleftrightarrow> c \<in> {CHR 0x09, CHR 0x0A, CHR 0x0B, CHR 0x0C, CHR 0x0D, CHR '' ''}"

definition TrimSpace :: "string \<Rightarrow> string" where
  "TrimSpace s = rev (dropWhile isSpaceByte (rev (dropWhile isSpaceByte s)))"

definition lowerByte :: "char \<Rightarrow> char" where
  "lowerByte c = (let n = of_char c :: nat in if 65 \<le> n \<and> n \<le> 90 then char_of (n + 32) else c)"

definition ToLower :: "string \<Rightarrow> string" where
  "ToLower s = map lowerByte s"

definition emailNormalize :: "string \<Rightarrow> string" where
  "emailNormalize a = ToLower (TrimSpace a)"

definition EqualFold :: "string \<Rightarrow> string \<Rightarrow> bool" where
  "EqualFold a b \<longleftrightarrow> ToLower a = ToLower b"

section \<open>Lemmas on tables\<close>

lemma length_updRows [simp]: "length (updRows p g rows) = length rows"
  by (simp add: updRows_def)

lemma updRows_Nil [simp]: "updRows p g [] = []"
  by (simp add: updRows_def)

lemma updRows_key [simp]: "(\<And>r. k (g r) = k r) \<Longrightarrow> map k (updRows p g rows) = map k rows"
  by (simp add: updRows_def)

lemma in_updRows: "r \<in> set (updRows p g rows) \<longleftrightarrow> (\<exists>q \<in> set rows. r = (if p q then g q else q))"
  by (auto simp: updRows_def)

lemma WithTx_cases:
  obtains (failed) e where "WithTx f body d = (Inl e, d)"
  | (committed) a d' where "f 0" "f 1" "body d = Inr (a, d')" "WithTx f body d = (Inr a, d')"
proof (cases "f 0 \<and> f 1 \<and> (\<exists>a d'. body d = Inr (a, d'))")
  case True
  then obtain a d' where "f 0" "f 1" "body d = Inr (a, d')" by blast
  then show ?thesis by (intro committed) (simp_all add: WithTx_def)
next
  case False
  then have "\<exists>e. WithTx f body d = (Inl e, d)"
    by (auto simp: WithTx_def simp del: One_nat_def split: sum.split)
  then show ?thesis using failed by blast
qed

lemma WithTx_Inl: "fst (WithTx f body d) = Inl e \<Longrightarrow> snd (WithTx f body d) = d"
  by (auto simp: WithTx_def split: if_splits sum.splits prod.splits)

lemma WithTx_Inr:
  "WithTx f body d = (Inr a, d') \<longleftrightarrow> f 0 \<and> f 1 \<and> body d = Inr (a, d')"
  by (auto simp: WithTx_def split: if_splits sum.splits prod.splits)

end
