(* ===== verification/Accounts.thy ===== *)
theory Accounts
  imports AccessDB
begin

text \<open>
  \<^verbatim>\<open>server/internal/auth/store.go\<close>: user accounts, browser dbSessions and magic dbLinks, on the tables
  of \<open>AccessDB\<close>.  A \<open>tok\<close> is what \<open>tokens.RandomHex\<close> answers (\<^const>\<open>None\<close> an error) and \<open>hash\<close> is
  \<open>tokens.Hash\<close>, the digest under which tokens are stored.  The columns \<open>crt_mode\<close> and
  \<open>appearance\<close> of a user, which only pages read, are left out.
\<close>

section \<open>Users\<close>

definition ThemeIntercom :: string where "ThemeIntercom = ''intercom''"
definition ThemeDialup :: string where "ThemeDialup = ''dialup''"
definition ThemeAnsweringMachine :: string where "ThemeAnsweringMachine = ''answering-machine''"

definition themeValid :: "string \<Rightarrow> bool" where
  "themeValid t \<longleftrightarrow> t = ThemeIntercom \<or> t = ThemeDialup \<or> t = ThemeAnsweringMachine"

definition userDisabled :: "UserRow \<Rightarrow> bool" where
  "userDisabled u \<longleftrightarrow> usDisabledAt u \<noteq> None"

definition CreateUser ::
  "stmts \<Rightarrow> string \<Rightarrow> int \<Rightarrow> string \<Rightarrow> string \<Rightarrow> string option \<Rightarrow> DB \<Rightarrow> (dbErr + UserRow) \<times> DB" where
  "CreateUser f uid now addr name google d =
     (let addr = emailNormalize addr;
          u = \<lparr>usID = uid, usEmail = addr, usName = name, usGoogleID = google, usTheme = ThemeIntercom,
               usThemeChosen = False, usCreatedAt = now, usLastLogin = None, usDisabledAt = None\<rparr>
      in if \<not> f 0 \<or> list_ex (\<lambda>r. usID r = uid \<or> usEmail r = addr
                              \<or> google \<noteq> None \<and> usGoogleID r = google) (dbUsers d)
         then (Inl DbFail, d)
         else (Inr u, d\<lparr>dbUsers := dbUsers d @ [u]\<rparr>))"

definition queryUser :: "bool \<Rightarrow> (UserRow \<Rightarrow> bool) \<Rightarrow> DB \<Rightarrow> dbErr + UserRow" where
  "queryUser ok p d =
     (if \<not> ok then Inl DbFail
      else case find p (dbUsers d) of None \<Rightarrow> Inl ErrUserNotFound | Some u \<Rightarrow> Inr u)"

definition GetUserByEmail :: "bool \<Rightarrow> string \<Rightarrow> DB \<Rightarrow> dbErr + UserRow" where
  "GetUserByEmail ok addr = queryUser ok (\<lambda>u. usEmail u = emailNormalize addr)"

definition GetUserByGoogleID :: "bool \<Rightarrow> string \<Rightarrow> DB \<Rightarrow> dbErr + UserRow" where
  "GetUserByGoogleID ok g = queryUser ok (\<lambda>u. usGoogleID u = Some g)"

definition GetUserByID :: "bool \<Rightarrow> string \<Rightarrow> DB \<Rightarrow> dbErr + UserRow" where
  "GetUserByID ok i = queryUser ok (\<lambda>u. usID u = i)"

definition GetOrCreateUserByEmail ::
  "stmts \<Rightarrow> string \<Rightarrow> int \<Rightarrow> string \<Rightarrow> DB \<Rightarrow> (dbErr + UserRow \<times> bool) \<times> DB" where
  "GetOrCreateUserByEmail f uid now addr d =
     (case GetUserByEmail (f 0) addr d of
        Inr u \<Rightarrow> (Inr (u, False), d)
      | Inl ErrUserNotFound \<Rightarrow>
          (case CreateUser (\<lambda>i. f (i + 1)) uid now addr [] None d of
             (Inl e, d) \<Rightarrow> (Inl e, d)
           | (Inr u, d) \<Rightarrow> (Inr (u, True), d))
      | Inl e \<Rightarrow> (Inl e, d))"

definition updUser :: "bool \<Rightarrow> string \<Rightarrow> (UserRow \<Rightarrow> UserRow) \<Rightarrow> DB \<Rightarrow> (dbErr + unit) \<times> DB" where
  "updUser ok uid g d =
     (if \<not> ok then (Inl DbFail, d) else (Inr (), d\<lparr>dbUsers := updRows (\<lambda>u. usID u = uid) g (dbUsers d)\<rparr>))"

definition UpdateLastLogin :: "bool \<Rightarrow> int \<Rightarrow> string \<Rightarrow> DB \<Rightarrow> (dbErr + unit) \<times> DB" where
  "UpdateLastLogin ok now uid = updUser ok uid (\<lambda>u. u\<lparr>usLastLogin := Some now\<rparr>)"

definition LinkGoogleID :: "bool \<Rightarrow> string \<Rightarrow> string \<Rightarrow> DB \<Rightarrow> (dbErr + unit) \<times> DB" where
  "LinkGoogleID ok uid g d =
     (if list_ex (\<lambda>u. usID u \<noteq> uid \<and> usGoogleID u = Some g) (dbUsers d) \<and> uid \<in> set (userIDs d)
      then (Inl DbFail, d) else updUser ok uid (\<lambda>u. u\<lparr>usGoogleID := Some g\<rparr>) d)"

definition SetTheme :: "bool \<Rightarrow> string \<Rightarrow> string \<Rightarrow> DB \<Rightarrow> (dbErr + unit) \<times> DB" where
  "SetTheme ok uid theme d =
     (if \<not> themeValid theme then (Inl ErrInvalidTheme, d) else updUser ok uid (\<lambda>u. u\<lparr>usTheme := theme\<rparr>) d)"

definition MarkThemeChosen :: "bool \<Rightarrow> string \<Rightarrow> DB \<Rightarrow> (dbErr + unit) \<times> DB" where
  "MarkThemeChosen ok uid = updUser ok uid (\<lambda>u. u\<lparr>usThemeChosen := True\<rparr>)"

definition SetThemeAndMarkChosen :: "bool \<Rightarrow> string \<Rightarrow> string \<Rightarrow> DB \<Rightarrow> (dbErr + UserRow) \<times> DB" where
  "SetThemeAndMarkChosen ok uid theme d =
     (if \<not> themeValid theme then (Inl ErrInvalidTheme, d)
      else case updUser ok uid (\<lambda>u. u\<lparr>usTheme := theme, usThemeChosen := True\<rparr>) d of
          (Inl e, d) \<Rightarrow> (Inl e, d)
        | (Inr _, d) \<Rightarrow> (case find (\<lambda>u. usID u = uid) (dbUsers d) of
              None \<Rightarrow> (Inl DbFail, d) | Some u \<Rightarrow> (Inr u, d)))"

text \<open>The memberships, sessions and references of the user go with the row.\<close>

definition DeleteUser :: "bool \<Rightarrow> string \<Rightarrow> DB \<Rightarrow> (dbErr + unit) \<times> DB" where
  "DeleteUser ok uid d =
     (if \<not> ok then (Inl DbFail, d)
      else if uid \<notin> set (userIDs d) then (Inl ErrUserNotFound, d)
      else (Inr (), deleteUserRow uid d))"

section \<open>Sessions\<close>

definition CreateSession ::
  "stmts \<Rightarrow> (string \<Rightarrow> string) \<Rightarrow> string option \<Rightarrow> string \<Rightarrow> int \<Rightarrow> string \<Rightarrow> int \<Rightarrow> DB
     \<Rightarrow> (dbErr + string \<times> SessionRow) \<times> DB" where
  "CreateSession f hash tok sid now uid ttl d =
     (case tok of
        None \<Rightarrow> (Inl ErrRandom, d)
      | Some t \<Rightarrow>
          if \<not> f 0 then (Inl DbFail, d)
          else if \<not> list_ex (\<lambda>u. usID u = uid \<and> usDisabledAt u = None) (dbUsers d) then (Inl ErrAccountDisabled, d)
          else if list_ex (\<lambda>s. seID s = sid \<or> seHash s = hash t) (dbSessions d) then (Inl DbFail, d)
          else
            let s = \<lparr>seID = sid, seUser = uid, seHash = hash t, seExpires = now + ttl, seCreatedAt = now,
                     seHousehold = None\<rparr>
            in (Inr (t, s), d\<lparr>dbSessions := dbSessions d @ [s]\<rparr>))"

definition SetDisabled :: "stmts \<Rightarrow> int \<Rightarrow> string \<Rightarrow> bool \<Rightarrow> DB \<Rightarrow> (dbErr + unit) \<times> DB" where
  "SetDisabled f now uid disabled =
     WithTx f (\<lambda>d.
       if \<not> f 2 then Inl DbFail
       else
         let p = (\<lambda>u. usID u = uid \<and> (disabled \<longrightarrow> usDisabledAt u = None));
             n = length (filter p (dbUsers d));
             d' = d\<lparr>dbUsers := updRows p (\<lambda>u. u\<lparr>usDisabledAt := if disabled then Some now else None\<rparr>) (dbUsers d)\<rparr>
         in if n = 0 \<and> \<not> f 3 then Inl DbFail
            else if n = 0 \<and> uid \<notin> set (userIDs d) then Inl ErrUserNotFound
            else if \<not> disabled then Inr ((), d')
            else if \<not> f 4 then Inl DbFail
            else Inr ((), d'\<lparr>dbSessions := filter (\<lambda>s. seUser s \<noteq> uid) (dbSessions d')\<rparr>))"

definition liveSession :: "string \<Rightarrow> int \<Rightarrow> SessionRow \<Rightarrow> bool" where
  "liveSession h now s \<longleftrightarrow> seHash s = h \<and> seExpires s > now"

definition ValidateSession :: "bool \<Rightarrow> (string \<Rightarrow> string) \<Rightarrow> int \<Rightarrow> string \<Rightarrow> DB \<Rightarrow> dbErr + SessionRow" where
  "ValidateSession ok hash now t d =
     (if \<not> ok then Inl DbFail
      else case find (liveSession (hash t) now) (dbSessions d) of None \<Rightarrow> Inl ErrInvalidSession | Some s \<Rightarrow> Inr s)"

definition DeleteSession :: "bool \<Rightarrow> (string \<Rightarrow> string) \<Rightarrow> string \<Rightarrow> DB \<Rightarrow> (dbErr + unit) \<times> DB" where
  "DeleteSession ok hash t d =
     (if \<not> ok then (Inl DbFail, d)
      else (Inr (), d\<lparr>dbSessions := filter (\<lambda>s. seHash s \<noteq> hash t) (dbSessions d)\<rparr>))"

definition ValidateAndRefreshSession ::
  "bool \<Rightarrow> (string \<Rightarrow> string) \<Rightarrow> int \<Rightarrow> string \<Rightarrow> int \<Rightarrow> DB \<Rightarrow> (dbErr + SessionRow) \<times> DB" where
  "ValidateAndRefreshSession ok hash now t ttl d =
     (if \<not> ok then (Inl DbFail, d)
      else case find (liveSession (hash t) now) (dbSessions d) of
          None \<Rightarrow> (Inl ErrInvalidSession, d)
        | Some s \<Rightarrow> (Inr (s\<lparr>seExpires := now + ttl\<rparr>),
            d\<lparr>dbSessions := updRows (liveSession (hash t) now) (\<lambda>s. s\<lparr>seExpires := now + ttl\<rparr>) (dbSessions d)\<rparr>))"

definition SetActiveHousehold ::
  "bool \<Rightarrow> (string \<Rightarrow> string) \<Rightarrow> int \<Rightarrow> string \<Rightarrow> string \<Rightarrow> DB \<Rightarrow> (dbErr + unit) \<times> DB" where
  "SetActiveHousehold ok hash now t h d =
     (if \<not> ok \<or> list_ex (liveSession (hash t) now) (dbSessions d) \<and> h \<notin> set (householdIDs d) then (Inl DbFail, d)
      else (Inr (), d\<lparr>dbSessions := updRows (liveSession (hash t) now) (\<lambda>s. s\<lparr>seHousehold := Some h\<rparr>) (dbSessions d)\<rparr>))"

definition ActiveHouseholdID :: "bool \<Rightarrow> (string \<Rightarrow> string) \<Rightarrow> int \<Rightarrow> string \<Rightarrow> DB \<Rightarrow> dbErr + string" where
  "ActiveHouseholdID ok hash now t d =
     (if \<not> ok then Inl DbFail
      else case find (liveSession (hash t) now) (dbSessions d) of
          None \<Rightarrow> Inr []
        | Some s \<Rightarrow> Inr (case seHousehold s of None \<Rightarrow> [] | Some h \<Rightarrow> h))"

section \<open>Magic links\<close>

definition magicLinksPerHour :: nat where "magicLinksPerHour = 3"

definition CreateMagicLink ::
  "bool \<Rightarrow> (string \<Rightarrow> string) \<Rightarrow> string option \<Rightarrow> int \<Rightarrow> string \<Rightarrow> int \<Rightarrow> string \<Rightarrow> DB \<Rightarrow> (dbErr + string) \<times> DB" where
  "CreateMagicLink ok hash tok now addr ttl returnTo d =
     (case tok of
        None \<Rightarrow> (Inl ErrRandom, d)
      | Some t \<Rightarrow>
          let addr = emailNormalize addr in
          if \<not> ok then (Inl DbFail, d)
          else if length (filter (\<lambda>m. mgEmail m = addr \<and> \<not> mgUsed m \<and> mgCreatedAt m > now - 3600) (dbMagic d))
                  \<ge> magicLinksPerHour
          then (Inl ErrMagicLinkRateLimited, d)
          else if list_ex (\<lambda>m. mgHash m = hash t) (dbMagic d) then (Inl DbFail, d)
          else (Inr t, d\<lparr>dbMagic := dbMagic d @
                 [\<lparr>mgEmail = addr, mgHash = hash t, mgExpires = now + ttl, mgUsed = False, mgCreatedAt = now,
                   mgReturnTo = (if returnTo = [] then None else Some returnTo)\<rparr>]\<rparr>))"

definition liveMagic :: "string \<Rightarrow> int \<Rightarrow> MagicRow \<Rightarrow> bool" where
  "liveMagic h now m \<longleftrightarrow> mgHash m = h \<and> mgExpires m > now \<and> \<not> mgUsed m"

definition ValidateMagicLink ::
  "bool \<Rightarrow> (string \<Rightarrow> string) \<Rightarrow> int \<Rightarrow> string \<Rightarrow> DB \<Rightarrow> (dbErr + string \<times> string) \<times> DB" where
  "ValidateMagicLink ok hash now t d =
     (if \<not> ok then (Inl DbFail, d)
      else case find (liveMagic (hash t) now) (dbMagic d) of
          None \<Rightarrow> (Inl ErrInvalidMagicLink, d)
        | Some m \<Rightarrow> (Inr (mgEmail m, case mgReturnTo m of None \<Rightarrow> [] | Some r \<Rightarrow> r),
            d\<lparr>dbMagic := updRows (liveMagic (hash t) now) (\<lambda>m. m\<lparr>mgUsed := True\<rparr>) (dbMagic d)\<rparr>))"

definition cleanupExpiredAuth :: "stmts \<Rightarrow> int \<Rightarrow> DB \<Rightarrow> (dbErr + unit) \<times> DB" where
  "cleanupExpiredAuth f now d =
     (if \<not> f 0 then (Inl DbFail, d)
      else
        let d = d\<lparr>dbSessions := filter (\<lambda>s. \<not> seExpires s < now) (dbSessions d)\<rparr>
        in if \<not> f 1 then (Inl DbFail, d)
           else (Inr (), d\<lparr>dbMagic := filter (\<lambda>m. \<not> ((mgExpires m < now \<or> mgUsed m) \<and> mgCreatedAt m < now - 3600))
                                           (dbMagic d)\<rparr>))"

end
