(* ===== verification/Households.thy ===== *)
theory Households
  imports AccessDB
begin

text \<open>
  \<^verbatim>\<open>server/internal/household\<close> (households, members, e-mail invites, links between households),
  \<^verbatim>\<open>server/internal/line/authorizer.go\<close> (who may call whom) and the rows of
  \<^verbatim>\<open>server/internal/line/store.go\<close>, on the tables of \<open>AccessDB\<close>.  \<open>HStore\<close> is the household
  store: the database with the in-memory cache \<open>hasHousehold\<close> of one replica.  The settings
  column of a line is the subject of theory \<open>LineSettings\<close> and left out here.
\<close>

section \<open>Households and members\<close>

record HStore =
  hsDB :: DB
  hsCache :: "string list"

definition markHasHousehold :: "string \<Rightarrow> HStore \<Rightarrow> HStore" where
  "markHasHousehold u s = s\<lparr>hsCache := List.insert u (hsCache s)\<rparr>"

definition forgetHousehold :: "string \<Rightarrow> HStore \<Rightarrow> HStore" where
  "forgetHousehold u s = s\<lparr>hsCache := removeAll u (hsCache s)\<rparr>"

definition roleAdmin :: string where "roleAdmin = ''admin''"

text \<open>\<open>INSERT INTO household_members \<dots> ON CONFLICT DO UPDATE SET role\<close>; both ends must exist.\<close>

definition isMember :: "string \<Rightarrow> string \<Rightarrow> DB \<Rightarrow> bool" where
  "isMember u h d \<longleftrightarrow> list_ex (\<lambda>m. mbUser m = u \<and> mbHousehold m = h) (dbMembers d)"

definition upsertMember :: "string \<Rightarrow> string \<Rightarrow> string \<Rightarrow> DB \<Rightarrow> DB option" where
  "upsertMember u h role d =
     (if u \<notin> set (userIDs d) \<or> h \<notin> set (householdIDs d) then None
      else if isMember u h d
      then Some (d\<lparr>dbMembers := updRows (\<lambda>m. mbUser m = u \<and> mbHousehold m = h) (\<lambda>m. m\<lparr>mbRole := role\<rparr>) (dbMembers d)\<rparr>)
      else Some (d\<lparr>dbMembers := dbMembers d @ [\<lparr>mbUser = u, mbHousehold = h, mbRole = role\<rparr>]\<rparr>))"

definition CreateHousehold ::
  "stmts \<Rightarrow> string \<Rightarrow> int \<Rightarrow> string \<Rightarrow> string \<Rightarrow> HStore \<Rightarrow> (dbErr + HouseholdRow) \<times> HStore" where
  "CreateHousehold f hid now name owner s =
     (case WithTx f (\<lambda>d.
         if \<not> f 2 \<or> hid \<in> set (householdIDs d) then Inl DbFail
         else
           let h = \<lparr>hhID = hid, hhName = name, hhHistory = False, hhTimezone = ''UTC'', hhCreatedAt = now\<rparr>;
               d = d\<lparr>dbHouseholds := dbHouseholds d @ [h]\<rparr>
           in if \<not> f 3 \<or> isMember owner hid d then Inl DbFail
              else case upsertMember owner hid roleAdmin d of
                  None \<Rightarrow> Inl DbFail | Some d \<Rightarrow> Inr (h, d)) (hsDB s) of
        (Inl e, d) \<Rightarrow> (Inl e, s\<lparr>hsDB := d\<rparr>)
      | (Inr h, d) \<Rightarrow> (Inr h, markHasHousehold owner (s\<lparr>hsDB := d\<rparr>)))"

definition GetHousehold :: "bool \<Rightarrow> string \<Rightarrow> DB \<Rightarrow> dbErr + HouseholdRow" where
  "GetHousehold ok h d =
     (if \<not> ok then Inl DbFail
      else case find (\<lambda>r. hhID r = h) (dbHouseholds d) of None \<Rightarrow> Inl ErrHouseholdNotFound | Some r \<Rightarrow> Inr r)"

text \<open>The join of households and members, ordered by the creation of the household.\<close>

definition GetForUserWithRoles :: "bool \<Rightarrow> string \<Rightarrow> DB \<Rightarrow> dbErr + (HouseholdRow \<times> string) list" where
  "GetForUserWithRoles ok u d =
     (if \<not> ok then Inl DbFail
      else Inr (sort_key (\<lambda>p. hhCreatedAt (fst p))
        [(h, mbRole m). h \<leftarrow> dbHouseholds d, m \<leftarrow> dbMembers d, mbHousehold m = hhID h \<and> mbUser m = u]))"

definition GetForUser :: "bool \<Rightarrow> string \<Rightarrow> DB \<Rightarrow> dbErr + HouseholdRow list" where
  "GetForUser ok u d = map_sum id (map fst) (GetForUserWithRoles ok u d)"

definition GetRole :: "bool \<Rightarrow> string \<Rightarrow> string \<Rightarrow> DB \<Rightarrow> dbErr + string" where
  "GetRole ok u h d =
     (if \<not> ok then Inl DbFail
      else case find (\<lambda>m. mbUser m = u \<and> mbHousehold m = h) (dbMembers d) of
          None \<Rightarrow> Inl ErrNotMember | Some m \<Rightarrow> Inr (mbRole m))"

definition AddMember :: "bool \<Rightarrow> string \<Rightarrow> string \<Rightarrow> string \<Rightarrow> HStore \<Rightarrow> (dbErr + unit) \<times> HStore" where
  "AddMember ok u h role s =
     (if \<not> ok then (Inl DbFail, s)
      else case upsertMember u h role (hsDB s) of
          None \<Rightarrow> (Inl DbFail, s)
        | Some d \<Rightarrow> (Inr (), markHasHousehold u (s\<lparr>hsDB := d\<rparr>)))"

definition RemoveMember :: "bool \<Rightarrow> string \<Rightarrow> string \<Rightarrow> HStore \<Rightarrow> (dbErr + unit) \<times> HStore" where
  "RemoveMember ok u h s =
     (if \<not> ok then (Inl DbFail, s)
      else if \<not> isMember u h (hsDB s) then (Inl ErrNotMember, s)
      else (Inr (), forgetHousehold u
             (s\<lparr>hsDB := (hsDB s)\<lparr>dbMembers := filter (\<lambda>m. \<not> (mbUser m = u \<and> mbHousehold m = h)) (dbMembers (hsDB s))\<rparr>\<rparr>)))"

definition memberIDs :: "string \<Rightarrow> DB \<Rightarrow> string list" where
  "memberIDs h d = map mbUser (filter (\<lambda>m. mbHousehold m = h) (dbMembers d))"

definition MemberCount :: "bool \<Rightarrow> string \<Rightarrow> DB \<Rightarrow> dbErr + nat" where
  "MemberCount ok h d = (if \<not> ok then Inl DbFail else Inr (length (memberIDs h d)))"

text \<open>The members are deleted first, so that their ids come back, then the household with its cascade.\<close>

definition DeleteHousehold :: "stmts \<Rightarrow> string \<Rightarrow> HStore \<Rightarrow> (dbErr + unit) \<times> HStore" where
  "DeleteHousehold f h s =
     (case WithTx f (\<lambda>d.
         if \<not> f 2 then Inl DbFail
         else
           let ids = memberIDs h d;
               d = d\<lparr>dbMembers := filter (\<lambda>m. mbHousehold m \<noteq> h) (dbMembers d)\<rparr>
           in if \<not> f 3 then Inl DbFail
              else if h \<notin> set (householdIDs d) then Inl ErrHouseholdNotFound
              else Inr (ids, deleteHouseholdRow h d)) (hsDB s) of
        (Inl e, d) \<Rightarrow> (Inl e, s\<lparr>hsDB := d\<rparr>)
      | (Inr ids, d) \<Rightarrow> (Inr (), fold forgetHousehold ids (s\<lparr>hsDB := d\<rparr>)))"

definition updHousehold :: "bool \<Rightarrow> string \<Rightarrow> (HouseholdRow \<Rightarrow> HouseholdRow) \<Rightarrow> DB \<Rightarrow> (dbErr + unit) \<times> DB" where
  "updHousehold ok h g d =
     (if \<not> ok then (Inl DbFail, d) else (Inr (), d\<lparr>dbHouseholds := updRows (\<lambda>r. hhID r = h) g (dbHouseholds d)\<rparr>))"

definition UpdateName :: "bool \<Rightarrow> string \<Rightarrow> string \<Rightarrow> DB \<Rightarrow> (dbErr + unit) \<times> DB" where
  "UpdateName ok h name = updHousehold ok h (\<lambda>r. r\<lparr>hhName := name\<rparr>)"

definition SetCallHistoryEnabled :: "bool \<Rightarrow> string \<Rightarrow> bool \<Rightarrow> DB \<Rightarrow> (dbErr + unit) \<times> DB" where
  "SetCallHistoryEnabled ok h on = updHousehold ok h (\<lambda>r. r\<lparr>hhHistory := on\<rparr>)"

definition SetTimezone :: "bool \<Rightarrow> (string \<Rightarrow> bool) \<Rightarrow> string \<Rightarrow> string \<Rightarrow> DB \<Rightarrow> (dbErr + unit) \<times> DB" where
  "SetTimezone ok loadLocation h tz d =
     (if \<not> loadLocation tz then (Inl ErrBadTimezone, d) else updHousehold ok h (\<lambda>r. r\<lparr>hhTimezone := tz\<rparr>) d)"

text \<open>\<open>NeedsOnboarding\<close>: \<open>ok\<close> is whether the count of memberships succeeds.\<close>

definition countMemberships :: "bool \<Rightarrow> string \<Rightarrow> DB \<Rightarrow> dbErr + nat" where
  "countMemberships ok u d =
     (if \<not> ok then Inl DbFail else Inr (length (filter (\<lambda>m. mbUser m = u) (dbMembers d))))"

definition NeedsOnboarding :: "bool \<Rightarrow> string \<Rightarrow> HStore \<Rightarrow> bool \<times> HStore" where
  "NeedsOnboarding ok u s =
     (if u \<in> set (hsCache s) then (False, s)
      else case countMemberships ok u (hsDB s) of
          Inl e \<Rightarrow> (False, s)
        | Inr n \<Rightarrow> if n > 0 then (False, markHasHousehold u s) else (True, s))"

section \<open>E-mail invites\<close>

definition inviteTTL :: int where "inviteTTL = 7 * 24 * 3600"
definition InviteStatusPending :: string where "InviteStatusPending = ''pending''"

text \<open>\<open>InvitedBy\<close> is scanned into a Go string, which a NULL does not fit.\<close>

definition scanInvite :: "InviteRow \<Rightarrow> dbErr + InviteRow" where
  "scanInvite i = (if ivInvitedBy i = None then Inl DbFail else Inr i)"

primrec scanAll :: "('r \<Rightarrow> dbErr + 'r) \<Rightarrow> 'r list \<Rightarrow> dbErr + 'r list" where
  "scanAll scan [] = Inr []"
| "scanAll scan (r # rs) =
     (case scan r of Inl e \<Rightarrow> Inl e
      | Inr x \<Rightarrow> (case scanAll scan rs of Inl e \<Rightarrow> Inl e | Inr xs \<Rightarrow> Inr (x # xs)))"

definition liveInvite :: "int \<Rightarrow> InviteRow \<Rightarrow> bool" where
  "liveInvite now i \<longleftrightarrow> ivStatus i = InviteStatusPending \<and> ivExpires i > now"

definition CreateInvite ::
  "bool \<Rightarrow> string option \<Rightarrow> string \<Rightarrow> int \<Rightarrow> string \<Rightarrow> string \<Rightarrow> string \<Rightarrow> DB \<Rightarrow> (dbErr + InviteRow) \<times> DB" where
  "CreateInvite ok tok iid now h addr inviter d =
     (case tok of
        None \<Rightarrow> (Inl ErrRandom, d)
      | Some t \<Rightarrow>
          let addr = emailNormalize addr;
              i = \<lparr>ivID = iid, ivHousehold = h, ivEmail = addr, ivInvitedBy = Some inviter, ivToken = t,
                   ivStatus = InviteStatusPending, ivCreatedAt = now, ivAcceptedAt = None,
                   ivExpires = now + inviteTTL\<rparr>
          in if \<not> ok \<or> h \<notin> set (householdIDs d) \<or> inviter \<notin> set (userIDs d)
                \<or> list_ex (\<lambda>r. ivID r = iid \<or> ivToken r = t
                     \<or> ivStatus r = InviteStatusPending \<and> ivHousehold r = h \<and> ivEmail r = addr) (dbInvites d)
             then (Inl DbFail, d)
             else (Inr i, d\<lparr>dbInvites := dbInvites d @ [i]\<rparr>))"

definition getInvite :: "bool \<Rightarrow> (InviteRow \<Rightarrow> bool) \<Rightarrow> DB \<Rightarrow> dbErr + InviteRow" where
  "getInvite ok p d =
     (if \<not> ok then Inl DbFail
      else case find p (dbInvites d) of None \<Rightarrow> Inl ErrInviteNotFound | Some i \<Rightarrow> scanInvite i)"

definition GetInviteByID :: "bool \<Rightarrow> string \<Rightarrow> DB \<Rightarrow> dbErr + InviteRow" where
  "GetInviteByID ok iid = getInvite ok (\<lambda>i. ivID i = iid)"

definition GetInviteByToken :: "bool \<Rightarrow> string \<Rightarrow> DB \<Rightarrow> dbErr + InviteRow" where
  "GetInviteByToken ok t = getInvite ok (\<lambda>i. ivToken i = t)"

text \<open>\<open>UPDATE \<dots> RETURNING\<close> outside a transaction: the row is written even when the scan fails.\<close>

definition accepted :: "int \<Rightarrow> InviteRow \<Rightarrow> InviteRow" where
  "accepted now i = i\<lparr>ivStatus := ''accepted'', ivAcceptedAt := Some now\<rparr>"

definition AcceptInvite :: "bool \<Rightarrow> int \<Rightarrow> string \<Rightarrow> DB \<Rightarrow> (dbErr + InviteRow) \<times> DB" where
  "AcceptInvite ok now t d =
     (let p = (\<lambda>i. ivToken i = t \<and> liveInvite now i) in
      if \<not> ok then (Inl DbFail, d)
      else case find p (dbInvites d) of
          None \<Rightarrow> (Inl ErrInviteExpiredOrUsed, d)
        | Some i \<Rightarrow> (scanInvite (accepted now i), d\<lparr>dbInvites := updRows p (accepted now) (dbInvites d)\<rparr>))"

definition CancelInvite :: "bool \<Rightarrow> string \<Rightarrow> DB \<Rightarrow> (dbErr + unit) \<times> DB" where
  "CancelInvite ok iid d =
     (let p = (\<lambda>i. ivID i = iid \<and> ivStatus i = InviteStatusPending) in
      if \<not> ok then (Inl DbFail, d)
      else if \<not> list_ex p (dbInvites d) then (Inl ErrInviteNotPending, d)
      else (Inr (), d\<lparr>dbInvites := updRows p (\<lambda>i. i\<lparr>ivStatus := ''cancelled''\<rparr>) (dbInvites d)\<rparr>))"

definition GetPendingInvites :: "bool \<Rightarrow> int \<Rightarrow> string \<Rightarrow> DB \<Rightarrow> dbErr + InviteRow list" where
  "GetPendingInvites ok now h d =
     (if \<not> ok then Inl DbFail
      else scanAll scanInvite
        (sort_key (\<lambda>i. - ivCreatedAt i) (filter (\<lambda>i. ivHousehold i = h \<and> liveInvite now i) (dbInvites d))))"

definition HasPendingInvite :: "bool \<Rightarrow> int \<Rightarrow> string \<Rightarrow> DB \<Rightarrow> dbErr + bool" where
  "HasPendingInvite ok now addr d =
     (if \<not> ok then Inl DbFail
      else Inr (list_ex (\<lambda>i. ivEmail i = emailNormalize addr \<and> liveInvite now i) (dbInvites d)))"

definition IsPendingForHouseholdEmail :: "bool \<Rightarrow> int \<Rightarrow> string \<Rightarrow> string \<Rightarrow> DB \<Rightarrow> dbErr + bool" where
  "IsPendingForHouseholdEmail ok now h addr d =
     (if \<not> ok then Inl DbFail
      else Inr (list_ex (\<lambda>i. ivHousehold i = h \<and> ivEmail i = emailNormalize addr \<and> liveInvite now i) (dbInvites d)))"

definition RedeemInvite ::
  "stmts \<Rightarrow> int \<Rightarrow> string \<Rightarrow> string \<Rightarrow> string \<Rightarrow> HStore \<Rightarrow> (dbErr + InviteRow) \<times> HStore" where
  "RedeemInvite f now t u email s =
     (case WithTx f (\<lambda>d.
         if \<not> f 2 then Inl DbFail
         else case find (\<lambda>i. ivToken i = t \<and> liveInvite now i) (dbInvites d) of
             None \<Rightarrow> Inl ErrInviteExpiredOrUsed
           | Some i \<Rightarrow>
               (case scanInvite i of Inl e \<Rightarrow> Inl e
                | Inr i \<Rightarrow>
                    if emailNormalize email \<noteq> ivEmail i then Inl ErrInviteEmailMismatch
                    else if \<not> f 3 then Inl DbFail
                    else case upsertMember u (ivHousehold i) roleAdmin d of
                        None \<Rightarrow> Inl DbFail
                      | Some d \<Rightarrow>
                          if \<not> f 4 then Inl DbFail
                          else Inr (accepted now i,
                            d\<lparr>dbInvites := updRows (\<lambda>r. ivID r = ivID i \<and> ivStatus r = InviteStatusPending)
                                            (accepted now) (dbInvites d)\<rparr>))) (hsDB s) of
        (Inl e, d) \<Rightarrow> (Inl e, s\<lparr>hsDB := d\<rparr>)
      | (Inr i, d) \<Rightarrow> (Inr i, markHasHousehold u (s\<lparr>hsDB := d\<rparr>)))"

section \<open>Links between households\<close>

definition LinkStatusPending :: string where "LinkStatusPending = ''pending''"
definition LinkStatusActive :: string where "LinkStatusActive = ''active''"
definition LinkStatusRevoked :: string where "LinkStatusRevoked = ''revoked''"

definition scanLink :: "LinkRow \<Rightarrow> dbErr + LinkRow" where
  "scanLink l = (if lkInvitedBy l = None then Inl DbFail else Inr l)"

text \<open>\<open>code\<close> is the answer of \<open>generateInviteCode\<close>.\<close>

definition CreateLinkInvite ::
  "bool \<Rightarrow> string option \<Rightarrow> string \<Rightarrow> int \<Rightarrow> string \<Rightarrow> string \<Rightarrow> DB \<Rightarrow> (dbErr + LinkRow) \<times> DB" where
  "CreateLinkInvite ok code lid now h u d =
     (case code of
        None \<Rightarrow> (Inl ErrRandom, d)
      | Some c \<Rightarrow>
          let l = \<lparr>lkID = lid, lkA = h, lkB = None, lkStatus = LinkStatusPending, lkCode = c,
                   lkInvitedBy = Some u, lkAcceptedBy = None, lkCreatedAt = now, lkAcceptedAt = None,
                   lkRevokedAt = None, lkRevokedBy = None\<rparr>
          in if \<not> ok \<or> h \<notin> set (householdIDs d) \<or> u \<notin> set (userIDs d)
                \<or> list_ex (\<lambda>r. lkID r = lid \<or> lkCode r = c) (dbLinks d)
             then (Inl DbFail, d)
             else (Inr l, d\<lparr>dbLinks := dbLinks d @ [l]\<rparr>))"

definition ordered :: "string \<Rightarrow> string \<Rightarrow> string \<times> string" where
  "ordered a b = (if b < a then (b, a) else (a, b))"

definition activeLink :: "string \<Rightarrow> string \<Rightarrow> LinkRow \<Rightarrow> bool" where
  "activeLink a b l \<longleftrightarrow> lkA l = a \<and> lkB l = Some b \<and> lkStatus l = LinkStatusActive"

definition AreLinked :: "bool \<Rightarrow> string \<Rightarrow> string \<Rightarrow> DB \<Rightarrow> dbErr + bool" where
  "AreLinked ok x y d =
     (if \<not> ok then Inl DbFail
      else let (a, b) = ordered x y in Inr (list_ex (activeLink a b) (dbLinks d)))"

text \<open>The check \<open>household_a_id < household_b_id\<close> of the table is \<open>a < b\<close>.\<close>

definition AcceptLinkInvite ::
  "stmts \<Rightarrow> int \<Rightarrow> string \<Rightarrow> string \<Rightarrow> string \<Rightarrow> DB \<Rightarrow> (dbErr + LinkRow) \<times> DB" where
  "AcceptLinkInvite f now code u h =
     WithTx f (\<lambda>d.
       if \<not> f 2 then Inl DbFail
       else case find (\<lambda>l. lkCode l = code \<and> lkStatus l = LinkStatusPending) (dbLinks d) of
           None \<Rightarrow> Inl ErrInviteCodeUsed
         | Some l \<Rightarrow>
             (case scanLink l of Inl e \<Rightarrow> Inl e
              | Inr l \<Rightarrow>
                  if lkA l = h then Inl ErrSelfLink
                  else case AreLinked (f 3) (lkA l) h d of
                      Inl e \<Rightarrow> Inl e
                    | Inr True \<Rightarrow> Inl ErrAlreadyLinked
                    | Inr False \<Rightarrow>
                        let (a, b) = ordered (lkA l) h;
                            l' = l\<lparr>lkA := a, lkB := Some b, lkStatus := LinkStatusActive,
                                   lkAcceptedBy := Some u, lkAcceptedAt := Some now\<rparr>
                        in if \<not> f 4 \<or> \<not> a < b \<or> h \<notin> set (householdIDs d) \<or> u \<notin> set (userIDs d) then Inl DbFail
                           else Inr (l', d\<lparr>dbLinks := updRows (\<lambda>r. lkID r = lkID l) (\<lambda>_. l') (dbLinks d)\<rparr>)))"

definition GetLinkedHouseholds :: "bool \<Rightarrow> string \<Rightarrow> DB \<Rightarrow> dbErr + LinkRow list" where
  "GetLinkedHouseholds ok h d =
     (if \<not> ok then Inl DbFail
      else scanAll scanLink (filter (\<lambda>l. lkStatus l = LinkStatusActive \<and> (lkA l = h \<or> lkB l = Some h)) (dbLinks d)))"

definition RevokeLink :: "bool \<Rightarrow> int \<Rightarrow> string \<Rightarrow> string \<Rightarrow> DB \<Rightarrow> (dbErr + unit) \<times> DB" where
  "RevokeLink ok now lid u d =
     (let p = (\<lambda>l. lkID l = lid \<and> lkStatus l \<noteq> LinkStatusRevoked) in
      if \<not> ok \<or> list_ex p (dbLinks d) \<and> u \<notin> set (userIDs d) then (Inl DbFail, d)
      else if \<not> list_ex p (dbLinks d) then (Inl ErrLinkNotRevocable, d)
      else (Inr (), d\<lparr>dbLinks := updRows p
             (\<lambda>l. l\<lparr>lkStatus := LinkStatusRevoked, lkRevokedAt := Some now, lkRevokedBy := Some u\<rparr>) (dbLinks d)\<rparr>))"

definition GetLinkByID :: "bool \<Rightarrow> string \<Rightarrow> DB \<Rightarrow> dbErr + LinkRow" where
  "GetLinkByID ok lid d =
     (if \<not> ok then Inl DbFail
      else case find (\<lambda>l. lkID l = lid) (dbLinks d) of None \<Rightarrow> Inl ErrLinkNotFound | Some l \<Rightarrow> scanLink l)"

definition GetPendingLinks :: "bool \<Rightarrow> string \<Rightarrow> DB \<Rightarrow> dbErr + LinkRow list" where
  "GetPendingLinks ok h d =
     (if \<not> ok then Inl DbFail
      else scanAll scanLink (filter (\<lambda>l. lkStatus l = LinkStatusPending \<and> lkA l = h) (dbLinks d)))"

definition FindNumberConflicts :: "bool \<Rightarrow> string \<Rightarrow> string \<Rightarrow> DB \<Rightarrow> dbErr + (string \<times> string \<times> string) list" where
  "FindNumberConflicts ok x y d =
     (if \<not> ok then Inl DbFail
      else Inr [(lnNumber a, lnName a, lnName b). a \<leftarrow> dbLines d, b \<leftarrow> dbLines d,
                  lnNumber a = lnNumber b \<and> lnID a \<noteq> lnID b \<and> lnHousehold a = x \<and> lnHousehold b = y
                  \<and> lnNumber a \<noteq> [] \<and> lnNumber b \<noteq> []])"

text \<open>\<open>handleLinksRevokePost\<close> from the lookup on: only an administrator of one of the two sides
  revokes.  \<open>admin h\<close> is the answer of \<open>isHouseholdAdmin\<close>; the result is the page or the error.\<close>

datatype linkPage = PageNotFound | PageForbidden | PageLinksError dbErr | PageRevoked | PageCanceled

definition handleLinksRevokePost ::
  "stmts \<Rightarrow> int \<Rightarrow> (string \<Rightarrow> bool) \<Rightarrow> string \<Rightarrow> string \<Rightarrow> DB \<Rightarrow> linkPage \<times> DB" where
  "handleLinksRevokePost f now admin lid u d =
     (case GetLinkByID (f 0) lid d of
        Inl e \<Rightarrow> (PageNotFound, d)
      | Inr l \<Rightarrow>
          (case GetForUser (f 1) u d of
             Inl e \<Rightarrow> (PageNotFound, d)
           | Inr hs \<Rightarrow>
               if hs = [] then (PageNotFound, d)
               else if \<not> list_ex (\<lambda>h. (hhID h = lkA l \<or> lkB l = Some (hhID h)) \<and> admin (hhID h)) hs
               then (PageForbidden, d)
               else case RevokeLink (f 2) now lid u d of
                   (Inl e, d) \<Rightarrow> (PageLinksError e, d)
                 | (Inr _, d) \<Rightarrow> (if lkStatus l = LinkStatusPending then PageCanceled else PageRevoked, d)))"

section \<open>Lines\<close>

definition AddLine :: "bool \<Rightarrow> int \<Rightarrow> string \<Rightarrow> string \<Rightarrow> string \<Rightarrow> DB \<Rightarrow> (dbErr + LineRow) \<times> DB" where
  "AddLine ok lid number name h d =
     (let l = \<lparr>lnID = lid, lnNumber = number, lnName = name, lnHousehold = h\<rparr> in
      if \<not> ok \<or> h \<notin> set (householdIDs d) \<or> list_ex (\<lambda>r. lnID r = lid \<or> lnNumber r = number) (dbLines d)
      then (Inl DbFail, d)
      else (Inr l, d\<lparr>dbLines := dbLines d @ [l]\<rparr>))"

definition getLine :: "bool \<Rightarrow> (LineRow \<Rightarrow> bool) \<Rightarrow> DB \<Rightarrow> dbErr + LineRow" where
  "getLine ok p d =
     (if \<not> ok then Inl DbFail
      else case find p (dbLines d) of None \<Rightarrow> Inl ErrLineNotFound | Some l \<Rightarrow> Inr l)"

definition GetLineByID :: "bool \<Rightarrow> int \<Rightarrow> DB \<Rightarrow> dbErr + LineRow" where
  "GetLineByID ok i = getLine ok (\<lambda>l. lnID l = i)"

definition GetLineByNumber :: "bool \<Rightarrow> string \<Rightarrow> DB \<Rightarrow> dbErr + LineRow" where
  "GetLineByNumber ok n = getLine ok (\<lambda>l. lnNumber l = n)"

definition ListByHousehold :: "bool \<Rightarrow> string \<Rightarrow> DB \<Rightarrow> dbErr + LineRow list" where
  "ListByHousehold ok h d =
     (if \<not> ok then Inl DbFail
      else Inr (sort_key lnNumber (filter (\<lambda>l. lnHousehold l = h) (dbLines d))))"

definition UpdateLine :: "bool \<Rightarrow> int \<Rightarrow> string \<Rightarrow> string \<Rightarrow> DB \<Rightarrow> (dbErr + unit) \<times> DB" where
  "UpdateLine ok lid number name d =
     (if \<not> ok \<or> lid \<in> set (lineIDs d) \<and> list_ex (\<lambda>l. lnID l \<noteq> lid \<and> lnNumber l = number) (dbLines d)
      then (Inl DbFail, d)
      else if lid \<notin> set (lineIDs d) then (Inl ErrLineNotFound, d)
      else (Inr (), d\<lparr>dbLines := updRows (\<lambda>l. lnID l = lid) (\<lambda>l. l\<lparr>lnNumber := number, lnName := name\<rparr>) (dbLines d)\<rparr>))"

definition DeleteLine :: "bool \<Rightarrow> int \<Rightarrow> DB \<Rightarrow> (dbErr + unit) \<times> DB" where
  "DeleteLine ok lid d =
     (if \<not> ok then (Inl DbFail, d)
      else if lid \<notin> set (lineIDs d) then (Inl ErrLineNotFound, d)
      else (Inr (), deleteLines (\<lambda>l. lnID l = lid) d))"

definition NumberExistsExcluding :: "bool \<Rightarrow> string \<Rightarrow> int \<Rightarrow> DB \<Rightarrow> dbErr + bool" where
  "NumberExistsExcluding ok n lid d =
     (if \<not> ok then Inl DbFail else Inr (list_ex (\<lambda>l. lnNumber l = n \<and> lnID l \<noteq> lid) (dbLines d)))"

definition NumberExists :: "bool \<Rightarrow> string \<Rightarrow> DB \<Rightarrow> dbErr + bool" where
  "NumberExists ok n d = (if \<not> ok then Inl DbFail else Inr (list_ex (\<lambda>l. lnNumber l = n) (dbLines d)))"

section \<open>The authorizer\<close>

definition householdsOfLine :: "string \<Rightarrow> DB \<Rightarrow> string list" where
  "householdsOfLine n d = map lnHousehold (filter (\<lambda>l. lnNumber l = n) (dbLines d))"

definition joins :: "string \<Rightarrow> string \<Rightarrow> LinkRow \<Rightarrow> bool" where
  "joins a b l \<longleftrightarrow> lkStatus l = LinkStatusActive \<and> (lkA l = a \<and> lkB l = Some b \<or> lkA l = b \<and> lkB l = Some a)"

definition CanCall :: "bool \<Rightarrow> DB \<Rightarrow> string \<Rightarrow> string \<Rightarrow> bool option" where
  "CanCall ok d src dst =
     (if \<not> ok then None
      else Some (list_ex (\<lambda>a. list_ex (\<lambda>b. a = b \<or> list_ex (joins a b) (dbLinks d)) (householdsOfLine dst d))
                   (householdsOfLine src d)))"

end
