(* ===== verification/SignIn.thy ===== *)
theory SignIn
  imports Accounts Households
begin

text \<open>
  Signing in: \<^verbatim>\<open>server/internal/auth/handlers.go\<close>, \<^verbatim>\<open>google.go\<close> and \<^verbatim>\<open>middleware.go\<close>.  A handler is a
  function on the database that lists what it does to the outside in order: mail sent, cookies
  set or cleared, the final redirect or error.  Metrics and log lines are left out.
\<close>

definition SessionTTL :: int where "SessionTTL = 30 * 24 * 3600"
definition MagicLinkTTL :: int where "MagicLinkTTL = 900"

datatype webOut =
    MailLink string string
  | SetCookie string
  | ClearCookie
  | Redirect string
  | HttpErr nat

text \<open>The page after a form that was accepted, sent or suppressed: always the same.\<close>

definition checkYourEmail :: string where
  "checkYourEmail = ''/auth/login?success=check+your+email''"

definition isSafeRedirect :: "string \<Rightarrow> bool" where
  "isSafeRedirect path \<longleftrightarrow> path \<noteq> [] \<and> hasPrefix path ''/'' \<and> \<not> hasPrefix path ''//''
     \<and> \<not> hasPrefix path [CHR ''/'', CHR 0x5C]"

definition LoginRedirectFor :: "UserRow option \<Rightarrow> string" where
  "LoginRedirectFor u = (case u of None \<Rightarrow> ''/'' | Some u \<Rightarrow> if usTheme u = ThemeDialup then ''/connecting'' else ''/'')"

definition safeReturnTo :: "string \<Rightarrow> UserRow option \<Rightarrow> string" where
  "safeReturnTo r u = (if isSafeRedirect r then r else LoginRedirectFor u)"

text \<open>\<open>checker\<close> is \<open>h.invites != nil\<close>; \<open>allowed\<close> the always-allowed addresses.\<close>

definition mayReceiveMagicLink :: "stmts \<Rightarrow> int \<Rightarrow> string list \<Rightarrow> bool \<Rightarrow> string \<Rightarrow> DB \<Rightarrow> dbErr + bool" where
  "mayReceiveMagicLink f now allowed checker addr d =
     (if list_ex (\<lambda>a. EqualFold a addr) allowed then Inr True
      else case GetUserByEmail (f 0) addr d of
          Inr _ \<Rightarrow> Inr True
        | Inl ErrUserNotFound \<Rightarrow> if checker then HasPendingInvite (f 1) now addr d else Inr False
        | Inl e \<Rightarrow> Inl e)"

text \<open>The form's fields are arguments; the mail carries the token in its link.\<close>

definition HandleMagicLinkRequest ::
  "stmts \<Rightarrow> (string \<Rightarrow> string) \<Rightarrow> string option \<Rightarrow> int \<Rightarrow> string list \<Rightarrow> bool \<Rightarrow> string \<Rightarrow> string \<Rightarrow> string \<Rightarrow> DB
     \<Rightarrow> webOut list \<times> DB" where
  "HandleMagicLinkRequest f hash tok now allowed checker email returnTo honeypot d =
     (let addr = emailNormalize email in
      if addr = [] then ([Redirect ''/auth/login?error=email+required''], d)
      else if honeypot \<noteq> [] then ([Redirect checkYourEmail], d)
      else case mayReceiveMagicLink f now allowed checker addr d of
          Inl e \<Rightarrow> ([Redirect ''/auth/login?error=try+again''], d)
        | Inr False \<Rightarrow> ([Redirect checkYourEmail], d)
        | Inr True \<Rightarrow>
            (case CreateMagicLink (f 2) hash tok now addr MagicLinkTTL returnTo d of
               (Inl ErrMagicLinkRateLimited, d) \<Rightarrow> ([Redirect checkYourEmail], d)
             | (Inl e, d) \<Rightarrow> ([Redirect ''/auth/login?error=try+again''], d)
             | (Inr t, d) \<Rightarrow> ([MailLink addr t, Redirect checkYourEmail], d)))"

definition HandleMagicLinkVerify ::
  "stmts \<Rightarrow> (string \<Rightarrow> string) \<Rightarrow> string option \<Rightarrow> string \<Rightarrow> string \<Rightarrow> int \<Rightarrow> string \<Rightarrow> DB \<Rightarrow> webOut list \<times> DB" where
  "HandleMagicLinkVerify f hash tok uid sid now t d =
     (case ValidateMagicLink (f 0) hash now t d of
        (Inl e, d) \<Rightarrow> ([Redirect ''/auth/login?error=invalid+or+expired+link''], d)
      | (Inr (addr, returnTo), d) \<Rightarrow>
          (case GetOrCreateUserByEmail (\<lambda>i. f (i + 1)) uid now addr d of
             (Inl e, d) \<Rightarrow> ([HttpErr 500], d)
           | (Inr (u, _), d) \<Rightarrow>
               let d = snd (UpdateLastLogin (f 3) now (usID u) d) in
               (case CreateSession (\<lambda>i. f (i + 4)) hash tok sid now (usID u) SessionTTL d of
                  (Inl ErrAccountDisabled, d) \<Rightarrow> ([Redirect ''/auth/login?error=account+disabled''], d)
                | (Inl e, d) \<Rightarrow> ([HttpErr 500], d)
                | (Inr (s, _), d) \<Rightarrow> ([SetCookie s, Redirect (safeReturnTo returnTo (Some u))], d))))"

text \<open>Google's answer after the exchange of the code, decoded.\<close>

record googleUserinfo =
  guID :: string
  guEmail :: string
  guName :: string
  guVerified :: bool

definition googleUser :: "stmts \<Rightarrow> string \<Rightarrow> int \<Rightarrow> googleUserinfo \<Rightarrow> DB \<Rightarrow> (nat + UserRow) \<times> DB" where
  "googleUser f uid now info d =
     (case GetUserByGoogleID (f 0) (guID info) d of
        Inr u \<Rightarrow> (Inr u, d)
      | Inl ErrUserNotFound \<Rightarrow>
          (case GetUserByEmail (f 1) (guEmail info) d of
             Inr u \<Rightarrow> (Inr u, snd (LinkGoogleID (f 2) (usID u) (guID info) d))
           | Inl ErrUserNotFound \<Rightarrow>
               (case CreateUser (\<lambda>i. f (i + 3)) uid now (guEmail info) (guName info) (Some (guID info)) d of
                  (Inl e, d) \<Rightarrow> (Inl 500, d) | (Inr u, d) \<Rightarrow> (Inr u, d))
           | Inl e \<Rightarrow> (Inl 500, d))
      | Inl e \<Rightarrow> (Inl 500, d))"

text \<open>\<open>cookie\<close> is the state cookie (without its \<open>|return_to\<close> part), \<open>info\<close> the user info or \<^const>\<open>None\<close>
  when the exchange or the fetch fails.\<close>

definition HandleCallback ::
  "stmts \<Rightarrow> (string \<Rightarrow> string) \<Rightarrow> string option \<Rightarrow> string \<Rightarrow> string \<Rightarrow> int \<Rightarrow> string option \<Rightarrow> string \<Rightarrow> string
     \<Rightarrow> googleUserinfo option \<Rightarrow> DB \<Rightarrow> webOut list \<times> DB" where
  "HandleCallback f hash tok uid sid now cookie returnTo state info d =
     (if cookie \<noteq> Some state then ([HttpErr 400], d)
      else case info of
          None \<Rightarrow> ([HttpErr 500], d)
        | Some info \<Rightarrow>
            if \<not> guVerified info then ([HttpErr 403], d)
            else case googleUser f uid now info d of
                (Inl e, d) \<Rightarrow> ([HttpErr e], d)
              | (Inr u, d) \<Rightarrow>
                  let d = snd (UpdateLastLogin (f 4) now (usID u) d) in
                  (case CreateSession (\<lambda>i. f (i + 5)) hash tok sid now (usID u) SessionTTL d of
                     (Inl ErrAccountDisabled, d) \<Rightarrow> ([Redirect ''/auth/login?error=account+disabled''], d)
                   | (Inl e, d) \<Rightarrow> ([HttpErr 500], d)
                   | (Inr (s, _), d) \<Rightarrow> ([SetCookie s, Redirect (safeReturnTo returnTo (Some u))], d)))"

text \<open>\<open>RequireAuth\<close>: the user under whom the next handler runs, or the answer instead.\<close>

definition RequireAuth ::
  "stmts \<Rightarrow> (string \<Rightarrow> string) \<Rightarrow> int \<Rightarrow> string option \<Rightarrow> DB \<Rightarrow> (webOut list + UserRow) \<times> DB" where
  "RequireAuth f hash now cookie d =
     (case cookie of
        None \<Rightarrow> (Inl [Redirect ''/auth/login''], d)
      | Some t \<Rightarrow>
          (case ValidateAndRefreshSession (f 0) hash now t SessionTTL d of
             (Inl e, d) \<Rightarrow> (Inl [ClearCookie, Redirect ''/auth/login''], d)
           | (Inr s, d) \<Rightarrow>
               (case GetUserByID (f 1) (seUser s) d of
                  Inl e \<Rightarrow> (Inl [Redirect ''/auth/login''], d)
                | Inr u \<Rightarrow> if userDisabled u then (Inl [ClearCookie, Redirect ''/auth/login''], d)
                           else (Inr u, d))))"

definition HandleLogout :: "bool \<Rightarrow> (string \<Rightarrow> string) \<Rightarrow> string option \<Rightarrow> string \<Rightarrow> DB \<Rightarrow> webOut list \<times> DB" where
  "HandleLogout ok hash cookie redirect d =
     (let d = (case cookie of None \<Rightarrow> d | Some t \<Rightarrow> snd (DeleteSession ok hash t d))
      in ([ClearCookie, Redirect (if isSafeRedirect redirect then redirect else ''/auth/login'')], d))"

end
