(* ===== verification/Devices.thy ===== *)
theory Devices
  imports Households
begin

text \<open>
  \<^verbatim>\<open>server/internal/pairing/pairing.go\<close> and \<^verbatim>\<open>server/internal/device/store.go\<close>: pairing codes, the
  binding of a handset to a line and the authentication of a handset, on the tables of
  \<open>AccessDB\<close>.  \<open>randomCode\<close> (digits of \<open>crypto/rand\<close>) and \<open>tokens.RandomHex\<close> are arguments.
\<close>

section \<open>Pairing codes\<close>

definition CodeLength :: nat where "CodeLength = 6"
definition CodeTTL :: int where "CodeTTL = 600"

text \<open>\<open>INSERT \<dots> ON CONFLICT (hardware_id) DO UPDATE \<dots> WHERE paired_at IS NULL\<close>.\<close>

definition GenerateCode ::
  "bool \<Rightarrow> string option \<Rightarrow> int \<Rightarrow> int \<Rightarrow> string \<Rightarrow> DB \<Rightarrow> (dbErr + string) \<times> DB" where
  "GenerateCode ok code did now hw d =
     (case code of
        None \<Rightarrow> (Inl ErrRandom, d)
      | Some c \<Rightarrow>
          let p = (\<lambda>v. dvHardwareID v = hw \<and> dvPairedAt v = None) in
          if \<not> ok then (Inl DbFail, d)
          else if \<not> list_ex (\<lambda>v. dvHardwareID v = hw) (dbDevices d) then
            (if list_ex (\<lambda>v. dvID v = did) (dbDevices d) then (Inl DbFail, d)
             else (Inr c, d\<lparr>dbDevices := dbDevices d @
               [\<lparr>dvID = did, dvLine = None, dvName = [], dvHardwareID = hw, dvToken = None, dvCode = Some c,
                 dvCodeExpires = Some (now + CodeTTL), dvPairedAt = None, dvCreatedAt = now, dvLastSeen = None\<rparr>]\<rparr>))
          else if \<not> list_ex p (dbDevices d) then (Inl ErrAlreadyPaired, d)
          else (Inr c, d\<lparr>dbDevices := updRows p (\<lambda>v. v\<lparr>dvCode := Some c, dvCodeExpires := Some (now + CodeTTL)\<rparr>) (dbDevices d)\<rparr>))"

definition claimable :: "string \<Rightarrow> int \<Rightarrow> DeviceRow \<Rightarrow> bool" where
  "claimable code now v \<longleftrightarrow> dvCode v = Some code \<and> dvPairedAt v = None
     \<and> (case dvCodeExpires v of None \<Rightarrow> False | Some e \<Rightarrow> e > now)"

definition lookupPairingCode :: "bool \<Rightarrow> int \<Rightarrow> string \<Rightarrow> DB \<Rightarrow> dbErr + int \<times> string" where
  "lookupPairingCode ok now code d =
     (if \<not> ok then Inl DbFail
      else case find (claimable code now) (dbDevices d) of
          None \<Rightarrow> Inl ErrInvalidCode | Some v \<Rightarrow> Inr (dvID v, dvHardwareID v))"

definition bound :: "int \<Rightarrow> int \<Rightarrow> string \<Rightarrow> string \<Rightarrow> DeviceRow \<Rightarrow> DeviceRow" where
  "bound now lid tokenHash name v =
     v\<lparr>dvLine := Some lid, dvToken := Some tokenHash, dvName := name, dvPairedAt := Some now,
       dvCode := None, dvCodeExpires := None\<rparr>"

definition bindDeviceToLine ::
  "bool \<Rightarrow> int \<Rightarrow> int \<Rightarrow> int \<Rightarrow> string \<Rightarrow> string \<Rightarrow> DB \<Rightarrow> dbErr + unit \<times> DB" where
  "bindDeviceToLine ok now did lid tokenHash name d =
     (let p = (\<lambda>v. dvID v = did \<and> dvPairedAt v = None) in
      if \<not> ok \<or> list_ex p (dbDevices d) \<and> lid \<notin> set (lineIDs d) then Inl DbFail
      else if \<not> list_ex p (dbDevices d) then Inl ErrInvalidCode
      else Inr ((), d\<lparr>dbDevices := updRows p (bound now lid tokenHash name) (dbDevices d)\<rparr>))"

text \<open>\<open>lid\<close> is the next value of the serial of \<open>lines\<close>; the result is the token and the hardware id.\<close>

definition ClaimDevice ::
  "stmts \<Rightarrow> (string \<Rightarrow> string) \<Rightarrow> string option \<Rightarrow> int \<Rightarrow> int \<Rightarrow> string \<Rightarrow> string \<Rightarrow> string \<Rightarrow> string \<Rightarrow> string
     \<Rightarrow> DB \<Rightarrow> (dbErr + string \<times> string) \<times> DB" where
  "ClaimDevice f hash tok lid now code lineNumber lineName deviceName h d =
     (case tok of
        None \<Rightarrow> (Inl ErrRandom, d)
      | Some t \<Rightarrow>
          WithTx f (\<lambda>d.
            case lookupPairingCode (f 2) now code d of
              Inl e \<Rightarrow> Inl e
            | Inr (did, hw) \<Rightarrow>
                if f 3 \<and> list_ex (\<lambda>l. lnNumber l = lineNumber) (dbLines d) then Inl ErrNumberTaken
                else case AddLine (f 3) lid lineNumber lineName h d of
                    (Inl e, _) \<Rightarrow> Inl e
                  | (Inr l, d) \<Rightarrow>
                      (case bindDeviceToLine (f 4) now did (lnID l) (hash t) deviceName d of
                         Inl e \<Rightarrow> Inl e | Inr (_, d) \<Rightarrow> Inr ((t, hw), d))) d)"

definition ClaimDeviceToLine ::
  "stmts \<Rightarrow> (string \<Rightarrow> string) \<Rightarrow> string option \<Rightarrow> int \<Rightarrow> string \<Rightarrow> int \<Rightarrow> string \<Rightarrow> string
     \<Rightarrow> DB \<Rightarrow> (dbErr + string \<times> string) \<times> DB" where
  "ClaimDeviceToLine f hash tok now code lid deviceName h d =
     (case tok of
        None \<Rightarrow> (Inl ErrRandom, d)
      | Some t \<Rightarrow>
          WithTx f (\<lambda>d.
            case lookupPairingCode (f 2) now code d of
              Inl e \<Rightarrow> Inl e
            | Inr (did, hw) \<Rightarrow>
                (case GetLineByID (f 3) lid d of
                   Inl e \<Rightarrow> Inl e
                 | Inr l \<Rightarrow>
                     if lnHousehold l \<noteq> h then Inl ErrLineNotOwned
                     else case bindDeviceToLine (f 4) now did lid (hash t) deviceName d of
                         Inl e \<Rightarrow> Inl e | Inr (_, d) \<Rightarrow> Inr ((t, hw), d))) d)"

definition cleanupExpiredCodes :: "bool \<Rightarrow> int \<Rightarrow> DB \<Rightarrow> (dbErr + nat) \<times> DB" where
  "cleanupExpiredCodes ok now d =
     (let p = (\<lambda>v. dvCode v \<noteq> None \<and> dvPairedAt v = None
                   \<and> (case dvCodeExpires v of None \<Rightarrow> False | Some e \<Rightarrow> e < now)) in
      if \<not> ok then (Inl DbFail, d)
      else (Inr (length (filter p (dbDevices d))),
            d\<lparr>dbDevices := updRows p (\<lambda>v. v\<lparr>dvCode := None, dvCodeExpires := None\<rparr>) (dbDevices d)\<rparr>))"

section \<open>Handsets\<close>

definition ListByLine :: "bool \<Rightarrow> int \<Rightarrow> DB \<Rightarrow> dbErr + DeviceRow list" where
  "ListByLine ok lid d =
     (if \<not> ok then Inl DbFail
      else Inr (sort_key dvCreatedAt (filter (\<lambda>v. dvLine v = Some lid) (dbDevices d))))"

definition Unpair :: "bool \<Rightarrow> string \<Rightarrow> DB \<Rightarrow> (dbErr + unit) \<times> DB" where
  "Unpair ok hw d =
     (if \<not> ok then (Inl DbFail, d)
      else (Inr (), d\<lparr>dbDevices := updRows (\<lambda>v. dvHardwareID v = hw)
                      (\<lambda>v. v\<lparr>dvPairedAt := None, dvToken := None\<rparr>) (dbDevices d)\<rparr>))"

definition Reassign :: "bool \<Rightarrow> int \<Rightarrow> int \<Rightarrow> DB \<Rightarrow> (dbErr + unit) \<times> DB" where
  "Reassign ok did lid d =
     (let p = (\<lambda>v. dvID v = did) in
      if \<not> ok \<or> list_ex p (dbDevices d) \<and> lid \<notin> set (lineIDs d) then (Inl DbFail, d)
      else if \<not> list_ex p (dbDevices d) then (Inl ErrDeviceNotFound, d)
      else (Inr (), d\<lparr>dbDevices := updRows p (\<lambda>v. v\<lparr>dvLine := Some lid\<rparr>) (dbDevices d)\<rparr>))"

definition TouchLastSeenDB :: "bool \<Rightarrow> int \<Rightarrow> string \<Rightarrow> DB \<Rightarrow> (dbErr + unit) \<times> DB" where
  "TouchLastSeenDB ok now hw d =
     (if \<not> ok then (Inl DbFail, d)
      else (Inr (), d\<lparr>dbDevices := updRows (\<lambda>v. dvHardwareID v = hw) (\<lambda>v. v\<lparr>dvLastSeen := Some now\<rparr>) (dbDevices d)\<rparr>))"

text \<open>Paired, and whether the token is the one handed out.\<close>

definition AuthStatus :: "bool \<Rightarrow> (string \<Rightarrow> string) \<Rightarrow> string \<Rightarrow> string \<Rightarrow> DB \<Rightarrow> dbErr + bool \<times> bool" where
  "AuthStatus ok hash hw token d =
     (if \<not> ok then Inl DbFail
      else case find (\<lambda>v. dvHardwareID v = hw) (dbDevices d) of
          None \<Rightarrow> Inr (False, False)
        | Some v \<Rightarrow>
            if dvPairedAt v = None then Inr (False, False)
            else if token = [] \<or> dvToken v = None then Inr (True, False)
            else Inr (True, dvToken v = Some (hash token)))"

definition BoundLineNumber :: "bool \<Rightarrow> string \<Rightarrow> DB \<Rightarrow> dbErr + string" where
  "BoundLineNumber ok hw d =
     (if \<not> ok then Inl DbFail
      else case [lnNumber l. v \<leftarrow> dbDevices d, l \<leftarrow> dbLines d,
                  dvLine v = Some (lnID l) \<and> dvHardwareID v = hw \<and> dvPairedAt v \<noteq> None] of
          [] \<Rightarrow> Inr [] | n # _ \<Rightarrow> Inr n)"

end
