(* ===== verification/Access_Inv.thy ===== *)
theory Access_Inv
  imports SignIn Devices
begin

text \<open>
  The database as a machine.  The invariant has one part per group of tables: links between
  households, lines and handsets, members and the onboarding cache, sessions, magic links and
  e-mail invites.
\<close>

section \<open>Moves\<close>

datatype accessMove =
    AmMagicRequest stmts "string option" int "string list" bool string string string
  | AmMagicVerify stmts "string option" string string int string
  | AmGoogle stmts "string option" string string int "string option" string string "googleUserinfo option"
  | AmRequireAuth stmts int "string option"
  | AmLogout bool "string option" string
  | AmSetDisabled stmts int string bool
  | AmDeleteUser bool string
  | AmSetActive bool int string string
  | AmTheme bool string string
  | AmCleanupAuth stmts int
  | AmCreateHousehold stmts string int string string
  | AmAddMember bool string string string
  | AmRemoveMember bool string string
  | AmDeleteHousehold stmts string
  | AmUpdateName bool string string
  | AmHistory bool string bool
  | AmTimezone bool bool string string
  | AmNeedsOnboarding bool string
  | AmInvite bool "string option" string int string string string
  | AmAcceptInvite bool int string
  | AmCancelInvite bool string
  | AmRedeem stmts int string string string
  | AmLinkInvite bool "string option" string int string string
  | AmAcceptLink stmts int string string string
  | AmRevokeLink bool int string string
  | AmAddLine bool int string string string
  | AmUpdateLine bool int string string
  | AmDeleteLine bool int
  | AmGenerateCode bool "string option" int int string
  | AmClaim stmts "string option" int int string string string string string
  | AmClaimToLine stmts "string option" int string int string string
  | AmCleanupCodes bool int
  | AmUnpair bool string
  | AmReassign bool int int
  | AmTouch bool int string

definition onDB :: "('a \<times> DB) \<Rightarrow> HStore \<Rightarrow> HStore" where
  "onDB r s = s\<lparr>hsDB := snd r\<rparr>"

fun access_step :: "(string \<Rightarrow> string) \<Rightarrow> accessMove \<Rightarrow> HStore \<Rightarrow> HStore" where
  "access_step hash (AmMagicRequest f tok now allowed ck email r hp) s =
     onDB (HandleMagicLinkRequest f hash tok now allowed ck email r hp (hsDB s)) s"
| "access_step hash (AmMagicVerify f tok uid sid now t) s = onDB (HandleMagicLinkVerify f hash tok uid sid now t (hsDB s)) s"
| "access_step hash (AmGoogle f tok uid sid now cookie r st info) s =
     onDB (HandleCallback f hash tok uid sid now cookie r st info (hsDB s)) s"
| "access_step hash (AmRequireAuth f now cookie) s = onDB (RequireAuth f hash now cookie (hsDB s)) s"
| "access_step hash (AmLogout ok cookie r) s = onDB (HandleLogout ok hash cookie r (hsDB s)) s"
| "access_step hash (AmSetDisabled f now u b) s = onDB (SetDisabled f now u b (hsDB s)) s"
| "access_step hash (AmDeleteUser ok u) s = onDB (DeleteUser ok u (hsDB s)) s"
| "access_step hash (AmSetActive ok now t h) s = onDB (SetActiveHousehold ok hash now t h (hsDB s)) s"
| "access_step hash (AmTheme ok u t) s = onDB (SetThemeAndMarkChosen ok u t (hsDB s)) s"
| "access_step hash (AmCleanupAuth f now) s = onDB (cleanupExpiredAuth f now (hsDB s)) s"
| "access_step hash (AmCreateHousehold f h now name u) s = snd (CreateHousehold f h now name u s)"
| "access_step hash (AmAddMember ok u h role) s = snd (AddMember ok u h role s)"
| "access_step hash (AmRemoveMember ok u h) s = snd (RemoveMember ok u h s)"
| "access_step hash (AmDeleteHousehold f h) s = snd (DeleteHousehold f h s)"
| "access_step hash (AmUpdateName ok h n) s = onDB (UpdateName ok h n (hsDB s)) s"
| "access_step hash (AmHistory ok h b) s = onDB (SetCallHistoryEnabled ok h b (hsDB s)) s"
| "access_step hash (AmTimezone ok valid h tz) s = onDB (SetTimezone ok (\<lambda>_. valid) h tz (hsDB s)) s"
| "access_step hash (AmNeedsOnboarding ok u) s = snd (NeedsOnboarding ok u s)"
| "access_step hash (AmInvite ok tok i now h addr u) s = onDB (CreateInvite ok tok i now h addr u (hsDB s)) s"
| "access_step hash (AmAcceptInvite ok now t) s = onDB (AcceptInvite ok now t (hsDB s)) s"
| "access_step hash (AmCancelInvite ok i) s = onDB (CancelInvite ok i (hsDB s)) s"
| "access_step hash (AmRedeem f now t u email) s = snd (RedeemInvite f now t u email s)"
| "access_step hash (AmLinkInvite ok c l now h u) s = onDB (CreateLinkInvite ok c l now h u (hsDB s)) s"
| "access_step hash (AmAcceptLink f now c u h) s = onDB (AcceptLinkInvite f now c u h (hsDB s)) s"
| "access_step hash (AmRevokeLink ok now l u) s = onDB (RevokeLink ok now l u (hsDB s)) s"
| "access_step hash (AmAddLine ok l n name h) s = onDB (AddLine ok l n name h (hsDB s)) s"
| "access_step hash (AmUpdateLine ok l n name) s = onDB (UpdateLine ok l n name (hsDB s)) s"
| "access_step hash (AmDeleteLine ok l) s = onDB (DeleteLine ok l (hsDB s)) s"
| "access_step hash (AmGenerateCode ok c dv now hw) s = onDB (GenerateCode ok c dv now hw (hsDB s)) s"
| "access_step hash (AmClaim f tok l now c n lname dname h) s =
     onDB (ClaimDevice f hash tok l now c n lname dname h (hsDB s)) s"
| "access_step hash (AmClaimToLine f tok now c l dname h) s =
     onDB (ClaimDeviceToLine f hash tok now c l dname h (hsDB s)) s"
| "access_step hash (AmCleanupCodes ok now) s = onDB (cleanupExpiredCodes ok now (hsDB s)) s"
| "access_step hash (AmUnpair ok hw) s = onDB (Unpair ok hw (hsDB s)) s"
| "access_step hash (AmReassign ok dv l) s = onDB (Reassign ok dv l (hsDB s)) s"
| "access_step hash (AmTouch ok now hw) s = onDB (TouchLastSeenDB ok now hw (hsDB s)) s"

text \<open>A new user has an id that no user had before.\<close>

fun access_move_ok :: "accessMove \<Rightarrow> HStore \<Rightarrow> bool" where
  "access_move_ok (AmMagicVerify f tok uid sid now t) s \<longleftrightarrow> uid \<notin> set (hsCache s)"
| "access_move_ok (AmGoogle f tok uid sid now cookie r st info) s \<longleftrightarrow> uid \<notin> set (hsCache s)"
| "access_move_ok _ _ \<longleftrightarrow> True"

section \<open>What each operation leaves alone\<close>

text \<open>The tables other than accounts, sessions and magic links.\<close>

definition tel :: "DB \<Rightarrow> LinkRow list \<times> LineRow list \<times> DeviceRow list \<times> MembershipRow list \<times> InviteRow list
    \<times> HouseholdRow list" where
  "tel d = (dbLinks d, dbLines d, dbDevices d, dbMembers d, dbInvites d, dbHouseholds d)"

definition untouched :: "DB \<Rightarrow> DB \<Rightarrow> bool" where
  "untouched d d' \<longleftrightarrow> tel d' = tel d \<and> userIDs d' = userIDs d"

lemma untouched_refl [simp, intro]: "untouched d d"
  by (simp add: untouched_def)

lemma untouched_trans [trans]: "untouched d d' \<Longrightarrow> untouched d' d'' \<Longrightarrow> untouched d d''"
  by (simp add: untouched_def)

lemma untouchedD: "untouched d (snd x) \<Longrightarrow> x = (r, d') \<Longrightarrow> untouched d d'"
  by simp

named_theorems db_frame \<open>operations on accounts, sessions and magic links\<close>

lemma updUser_frame [db_frame]: "(\<And>u. usID (g u) = usID u) \<Longrightarrow> untouched d (snd (updUser ok uid g d))"
  by (simp add: updUser_def untouched_def tel_def)

lemma session_frame [db_frame]:
  "untouched d (snd (CreateSession f hash tok sid now uid ttl d))"
  "untouched d (snd (ValidateAndRefreshSession ok hash now t ttl d))"
  "untouched d (snd (DeleteSession ok hash t d))"
  "untouched d (snd (SetActiveHousehold ok hash now t h d))"
  by (simp_all add: CreateSession_def ValidateAndRefreshSession_def DeleteSession_def SetActiveHousehold_def
      untouched_def tel_def Let_def split: option.split)

lemma magic_frame [db_frame]:
  "untouched d (snd (CreateMagicLink ok hash tok now addr ttl r d))"
  "untouched d (snd (ValidateMagicLink ok hash now t d))"
  "untouched d (snd (cleanupExpiredAuth f now d))"
  by (simp_all add: CreateMagicLink_def ValidateMagicLink_def cleanupExpiredAuth_def
      untouched_def tel_def Let_def split: option.split)

lemma SetDisabled_frame [db_frame]: "untouched d (snd (SetDisabled f now uid b d))"
  by (cases b) (auto simp: SetDisabled_def WithTx_def Let_def untouched_def tel_def split: if_splits sum.split)

lemma user_frame [db_frame]:
  "untouched d (snd (UpdateLastLogin ok now uid d))"
  "untouched d (snd (LinkGoogleID ok uid g d))"
  "untouched d (snd (SetThemeAndMarkChosen ok uid th d))"
proof -
  have "snd (SetThemeAndMarkChosen ok uid th d)
      = (if themeValid th then snd (updUser ok uid (\<lambda>u. u\<lparr>usTheme := th, usThemeChosen := True\<rparr>) d) else d)"
    by (simp add: SetThemeAndMarkChosen_def split: prod.split sum.split option.split)
  then show "untouched d (snd (SetThemeAndMarkChosen ok uid th d))" by (simp add: updUser_frame)
qed (simp_all add: UpdateLastLogin_def LinkGoogleID_def updUser_frame)

text \<open>What an operation that may create the user \<open>uid\<close> leaves alone.\<close>

definition adds_user :: "string \<Rightarrow> DB \<Rightarrow> DB \<Rightarrow> bool" where
  "adds_user uid d d' \<longleftrightarrow> tel d' = tel d \<and> set (userIDs d) \<subseteq> set (userIDs d') \<and> set (userIDs d') \<subseteq> insert uid (set (userIDs d))"

lemma adds_userI [intro]: "untouched d d' \<Longrightarrow> adds_user uid d d'"
  by (auto simp: untouched_def adds_user_def)

lemma adds_user_trans1: "adds_user uid d d' \<Longrightarrow> untouched d' d'' \<Longrightarrow> adds_user uid d d''"
  by (simp add: adds_user_def untouched_def)

lemma adds_user_trans2: "untouched d d' \<Longrightarrow> adds_user uid d' d'' \<Longrightarrow> adds_user uid d d''"
  by (simp add: adds_user_def untouched_def)

lemma CreateUser_frame: "adds_user uid d (snd (CreateUser f uid now a n g d))"
  by (auto simp: CreateUser_def Let_def tel_def adds_user_def)

lemma GetOrCreate_frame: "adds_user uid d (snd (GetOrCreateUserByEmail f uid now a d))"
  using CreateUser_frame [of uid d "\<lambda>i. f (i + 1)" now a "[]" None]
  by (auto simp: GetOrCreateUserByEmail_def split: sum.split dbErr.split prod.split)

lemma MagicRequest_frame [db_frame]:
  "untouched d (snd (HandleMagicLinkRequest f hash tok now allowed ck email r hp d))"
  by (auto simp: HandleMagicLinkRequest_def Let_def split: prod.split sum.split bool.split dbErr.split
      dest: magic_frame(1) [THEN untouchedD])

text \<open>The end of every sign-in: the login time and the session.\<close>

lemma session_tail:
  "untouched d (snd (CreateSession f hash tok sid now uid ttl (snd (UpdateLastLogin ok now uid d))))"
  using user_frame(1) session_frame(1) by (blast intro: untouched_trans)

lemma snd_case_session:
  "snd (case r of (Inl ErrAccountDisabled, d) \<Rightarrow> (a, d) | (Inl e, d) \<Rightarrow> (b, d) | (Inr (s, x), d) \<Rightarrow> (k s, d)) = snd r"
  by (auto split: prod.split sum.split dbErr.split)

lemma MagicVerify_frame: "adds_user uid d (snd (HandleMagicLinkVerify f hash tok uid sid now t d))"
proof (cases "ValidateMagicLink (f 0) hash now t d")
  case V: (Pair v d1)
  then have 1: "untouched d d1" by (rule untouchedD [OF magic_frame(2)])
  show ?thesis
  proof (cases v)
    case (Inr p)
    obtain a r where p: "p = (a, r)" by (cases p)
    obtain g d2 where G: "GetOrCreateUserByEmail (\<lambda>i. f (i + 1)) uid now a d1 = (g, d2)" by fastforce
    have "adds_user uid d1 d2" using GetOrCreate_frame [of uid d1 "\<lambda>i. f (i + 1)" now a] G by simp
    then have 2: "adds_user uid d d2" by (rule adds_user_trans2 [OF 1])
    have "snd (HandleMagicLinkVerify f hash tok uid sid now t d)
        = (case g of Inl e \<Rightarrow> d2 | Inr (u, b) \<Rightarrow> snd (CreateSession (\<lambda>i. f (i + 4)) hash tok sid now (usID u) SessionTTL
             (snd (UpdateLastLogin (f 3) now (usID u) d2))))"
      using V Inr p G by (simp add: HandleMagicLinkVerify_def Let_def snd_case_session split: sum.split prod.split)
    then show ?thesis using 2 session_tail [of d2] by (auto split: sum.split intro: adds_user_trans1)
  qed (use V 1 in \<open>auto simp: HandleMagicLinkVerify_def\<close>)
qed

lemma case_not_found: "(case e of ErrUserNotFound \<Rightarrow> x | _ \<Rightarrow> y) = (if e = ErrUserNotFound then x else y)"
  by (cases e) simp_all

lemma googleUser_frame: "adds_user uid d (snd (googleUser f uid now info d))"
  using CreateUser_frame [of uid d "\<lambda>i. f (i + 3)" now "guEmail info" "guName info" "Some (guID info)"]
  by (auto simp: googleUser_def user_frame case_not_found split: sum.split if_splits prod.split)

lemma Callback_frame: "adds_user uid d (snd (HandleCallback f hash tok uid sid now cookie r st info d))"
proof (cases info)
  case (Some i)
  obtain g d2 where G: "googleUser f uid now i d = (g, d2)" by fastforce
  then have 2: "adds_user uid d d2" using googleUser_frame [of uid d f now i] by simp
  have "snd (HandleCallback f hash tok uid sid now cookie r st info d)
      = (if cookie \<noteq> Some st \<or> \<not> guVerified i then d
         else case g of Inl e \<Rightarrow> d2 | Inr u \<Rightarrow> snd (CreateSession (\<lambda>i. f (i + 5)) hash tok sid now (usID u) SessionTTL
             (snd (UpdateLastLogin (f 4) now (usID u) d2))))"
    using Some G by (simp add: HandleCallback_def Let_def snd_case_session split: sum.split prod.split)
  then show ?thesis using 2 session_tail [of d2] by (auto split: sum.split intro: adds_user_trans1)
qed (auto simp: HandleCallback_def)

lemma RequireAuth_frame [db_frame]: "untouched d (snd (RequireAuth f hash now cookie d))"
  by (auto simp: RequireAuth_def split: option.split prod.split sum.split dest: session_frame(2) [THEN untouchedD])

lemma Logout_frame [db_frame]: "untouched d (snd (HandleLogout ok hash cookie r d))"
  by (simp add: HandleLogout_def Let_def session_frame split: option.split)


section \<open>Frames of the other operations\<close>

lemmas tx_splits = option.split sum.split prod.split if_split bool.split

lemma invite_frame [simp]:
  "dbLinks (snd (CreateInvite ok tok i now h a u d)) = dbLinks d" "dbLines (snd (CreateInvite ok tok i now h a u d)) = dbLines d"
  "dbDevices (snd (CreateInvite ok tok i now h a u d)) = dbDevices d" "dbMembers (snd (CreateInvite ok tok i now h a u d)) = dbMembers d"
  "dbUsers (snd (CreateInvite ok tok i now h a u d)) = dbUsers d"
  "dbLinks (snd (AcceptInvite ok now t d)) = dbLinks d" "dbLines (snd (AcceptInvite ok now t d)) = dbLines d"
  "dbDevices (snd (AcceptInvite ok now t d)) = dbDevices d" "dbMembers (snd (AcceptInvite ok now t d)) = dbMembers d"
  "dbUsers (snd (AcceptInvite ok now t d)) = dbUsers d"
  "dbLinks (snd (CancelInvite ok i d)) = dbLinks d" "dbLines (snd (CancelInvite ok i d)) = dbLines d"
  "dbDevices (snd (CancelInvite ok i d)) = dbDevices d" "dbMembers (snd (CancelInvite ok i d)) = dbMembers d"
  "dbUsers (snd (CancelInvite ok i d)) = dbUsers d"
  by (simp_all add: CreateInvite_def AcceptInvite_def CancelInvite_def Let_def split: option.split)

lemma linkop_frame [simp]:
  "dbLines (snd (CreateLinkInvite ok c l now h u d)) = dbLines d" "dbDevices (snd (CreateLinkInvite ok c l now h u d)) = dbDevices d"
  "dbMembers (snd (CreateLinkInvite ok c l now h u d)) = dbMembers d" "dbUsers (snd (CreateLinkInvite ok c l now h u d)) = dbUsers d"
  "dbInvites (snd (CreateLinkInvite ok c l now h u d)) = dbInvites d"
  "dbLines (snd (RevokeLink ok now l u d)) = dbLines d" "dbDevices (snd (RevokeLink ok now l u d)) = dbDevices d"
  "dbMembers (snd (RevokeLink ok now l u d)) = dbMembers d" "dbUsers (snd (RevokeLink ok now l u d)) = dbUsers d"
  "dbInvites (snd (RevokeLink ok now l u d)) = dbInvites d"
  by (simp_all add: CreateLinkInvite_def RevokeLink_def Let_def split: option.split)

text \<open>Accepting a link: nothing, or one pending row becomes active.\<close>

lemma AcceptLinkInvite_cases:
  obtains (failed) e where "AcceptLinkInvite f now code u h d = (Inl e, d)"
  | (linked) l a b where "l \<in> set (dbLinks d)" "lkCode l = code" "lkStatus l = LinkStatusPending" "lkA l \<noteq> h"
      "(a, b) = ordered (lkA l) h" "a < b" "\<not> list_ex (activeLink a b) (dbLinks d)"
      "h \<in> set (householdIDs d)" "u \<in> set (userIDs d)" "lkInvitedBy l \<noteq> None"
      "AcceptLinkInvite f now code u h d
         = (Inr (l\<lparr>lkA := a, lkB := Some b, lkStatus := LinkStatusActive, lkAcceptedBy := Some u, lkAcceptedAt := Some now\<rparr>),
            d\<lparr>dbLinks := updRows (\<lambda>r. lkID r = lkID l)
               (\<lambda>_. l\<lparr>lkA := a, lkB := Some b, lkStatus := LinkStatusActive, lkAcceptedBy := Some u, lkAcceptedAt := Some now\<rparr>)
               (dbLinks d)\<rparr>)"
proof (cases "\<exists>l. find (\<lambda>l. lkCode l = code \<and> lkStatus l = LinkStatusPending) (dbLinks d) = Some l")
  case False
  then have "\<exists>e. AcceptLinkInvite f now code u h d = (Inl e, d)"
    by (simp add: AcceptLinkInvite_def WithTx_def)
  then show ?thesis using failed by blast
next
  case True
  then obtain l where l: "find (\<lambda>l. lkCode l = code \<and> lkStatus l = LinkStatusPending) (dbLinks d) = Some l" by blast
  obtain a b where ab: "(a, b) = ordered (lkA l) h" by (metis surj_pair)
  have in_l: "l \<in> set (dbLinks d)" "lkCode l = code" "lkStatus l = LinkStatusPending"
    using l by (auto simp: find_Some_iff)
  show ?thesis
  proof (cases "f 0 \<and> f 1 \<and> f 2 \<and> f 3 \<and> f 4 \<and> lkInvitedBy l \<noteq> None \<and> lkA l \<noteq> h \<and> a < b
      \<and> \<not> list_ex (activeLink a b) (dbLinks d) \<and> h \<in> set (householdIDs d) \<and> u \<in> set (userIDs d)")
    case True
    then show ?thesis
      using l in_l ab by (intro linked [of l a b]) (simp_all add: AcceptLinkInvite_def WithTx_def scanLink_def AreLinked_def Let_def
          flip: ab del: One_nat_def)
  next
    case False
    then have "\<exists>e. AcceptLinkInvite f now code u h d = (Inl e, d)"
      using l by (auto simp: AcceptLinkInvite_def WithTx_def scanLink_def AreLinked_def Let_def simp flip: ab
          simp del: One_nat_def split: sum.split bool.splits if_splits)
    then show ?thesis using failed by blast
  qed
qed

lemma AcceptLink_frame [simp]:
  "dbLines (snd (AcceptLinkInvite f now c u h d)) = dbLines d" "dbDevices (snd (AcceptLinkInvite f now c u h d)) = dbDevices d"
  "dbMembers (snd (AcceptLinkInvite f now c u h d)) = dbMembers d" "dbUsers (snd (AcceptLinkInvite f now c u h d)) = dbUsers d"
  "dbInvites (snd (AcceptLinkInvite f now c u h d)) = dbInvites d"
  by (cases rule: AcceptLinkInvite_cases [of f now c u h d]; simp)+

lemma line_frame [simp]:
  "dbLinks (snd (AddLine ok l n nm h d)) = dbLinks d" "dbMembers (snd (AddLine ok l n nm h d)) = dbMembers d"
  "dbUsers (snd (AddLine ok l n nm h d)) = dbUsers d" "dbInvites (snd (AddLine ok l n nm h d)) = dbInvites d"
  "dbDevices (snd (AddLine ok l n nm h d)) = dbDevices d"
  "dbLinks (snd (UpdateLine ok l n nm d)) = dbLinks d" "dbMembers (snd (UpdateLine ok l n nm d)) = dbMembers d"
  "dbUsers (snd (UpdateLine ok l n nm d)) = dbUsers d" "dbInvites (snd (UpdateLine ok l n nm d)) = dbInvites d"
  "dbDevices (snd (UpdateLine ok l n nm d)) = dbDevices d"
  "dbLinks (snd (DeleteLine ok l d)) = dbLinks d" "dbMembers (snd (DeleteLine ok l d)) = dbMembers d"
  "dbUsers (snd (DeleteLine ok l d)) = dbUsers d" "dbInvites (snd (DeleteLine ok l d)) = dbInvites d"
  by (simp_all add: AddLine_def UpdateLine_def DeleteLine_def deleteLines_def Let_def)

lemma device_frame [simp]:
  "dbLinks (snd (GenerateCode ok c dv now hw d)) = dbLinks d" "dbMembers (snd (GenerateCode ok c dv now hw d)) = dbMembers d"
  "dbUsers (snd (GenerateCode ok c dv now hw d)) = dbUsers d" "dbInvites (snd (GenerateCode ok c dv now hw d)) = dbInvites d"
  "dbLines (snd (GenerateCode ok c dv now hw d)) = dbLines d"
  "dbLinks (snd (cleanupExpiredCodes ok now d)) = dbLinks d" "dbMembers (snd (cleanupExpiredCodes ok now d)) = dbMembers d"
  "dbUsers (snd (cleanupExpiredCodes ok now d)) = dbUsers d" "dbInvites (snd (cleanupExpiredCodes ok now d)) = dbInvites d"
  "dbLines (snd (cleanupExpiredCodes ok now d)) = dbLines d"
  "dbLinks (snd (Unpair ok hw d)) = dbLinks d" "dbMembers (snd (Unpair ok hw d)) = dbMembers d"
  "dbUsers (snd (Unpair ok hw d)) = dbUsers d" "dbInvites (snd (Unpair ok hw d)) = dbInvites d"
  "dbLines (snd (Unpair ok hw d)) = dbLines d"
  "dbLinks (snd (Reassign ok dv l d)) = dbLinks d" "dbMembers (snd (Reassign ok dv l d)) = dbMembers d"
  "dbUsers (snd (Reassign ok dv l d)) = dbUsers d" "dbInvites (snd (Reassign ok dv l d)) = dbInvites d"
  "dbLines (snd (Reassign ok dv l d)) = dbLines d"
  "dbLinks (snd (TouchLastSeenDB ok now hw d)) = dbLinks d" "dbMembers (snd (TouchLastSeenDB ok now hw d)) = dbMembers d"
  "dbUsers (snd (TouchLastSeenDB ok now hw d)) = dbUsers d" "dbInvites (snd (TouchLastSeenDB ok now hw d)) = dbInvites d"
  "dbLines (snd (TouchLastSeenDB ok now hw d)) = dbLines d"
  by (simp_all add: GenerateCode_def cleanupExpiredCodes_def Unpair_def Reassign_def TouchLastSeenDB_def Let_def split: option.split)

lemma bindDevice_Inr:
  "bindDeviceToLine ok now did lid th nm d = Inr (x, d') \<longleftrightarrow>
     ok \<and> lid \<in> set (lineIDs d) \<and> list_ex (\<lambda>v. dvID v = did \<and> dvPairedAt v = None) (dbDevices d)
     \<and> d' = d\<lparr>dbDevices := updRows (\<lambda>v. dvID v = did \<and> dvPairedAt v = None) (bound now lid th nm) (dbDevices d)\<rparr>"
  by (auto simp: bindDeviceToLine_def Let_def)

text \<open>Claiming: nothing, or the device of the code bound to the line.\<close>

lemma lookup_Inr:
  assumes "lookupPairingCode ok now code d = Inr (did, hw)"
  obtains v where "find (claimable code now) (dbDevices d) = Some v" "dvID v = did" "dvHardwareID v = hw"
    "v \<in> set (dbDevices d)" "claimable code now v"
  using assms by (auto simp: lookupPairingCode_def find_Some_iff in_set_conv_nth split: if_splits option.splits)

lemma ClaimDevice_cases:
  obtains (failed) e where "ClaimDevice f hash tok lid now code n ln dn h d = (Inl e, d)"
  | (claimed) t v where "tok = Some t" "find (claimable code now) (dbDevices d) = Some v" "v \<in> set (dbDevices d)" "claimable code now v"
      "lid \<notin> set (lineIDs d)" "n \<notin> set (map lnNumber (dbLines d))" "h \<in> set (householdIDs d)"
      "ClaimDevice f hash tok lid now code n ln dn h d
        = (Inr (t, dvHardwareID v), d\<lparr>dbLines := dbLines d @ [\<lparr>lnID = lid, lnNumber = n, lnName = ln, lnHousehold = h\<rparr>],
             dbDevices := updRows (\<lambda>w. dvID w = dvID v \<and> dvPairedAt w = None) (bound now lid (hash t) dn) (dbDevices d)\<rparr>)"
proof (cases "ClaimDevice f hash tok lid now code n ln dn h d")
  case (Pair r d')
  show ?thesis
  proof (cases r)
    case (Inl e)
    have "snd (ClaimDevice f hash tok lid now code n ln dn h d) = d"
    proof (cases tok)
      case (Some t)
      show ?thesis using Pair Inl unfolding ClaimDevice_def Some option.case by (intro WithTx_Inl) simp
    qed (simp add: ClaimDevice_def)
    then have "d' = d" using Pair by simp
    then show ?thesis using Pair Inl failed by blast
  next
    case (Inr p)
    then obtain t where t: "tok = Some t" using Pair by (auto simp: ClaimDevice_def split: option.splits)
    then obtain did hw where L: "lookupPairingCode (f 2) now code d = Inr (did, hw)"
      using Pair Inr by (auto simp: ClaimDevice_def WithTx_Inr split: sum.splits prod.splits)
    then obtain v where v: "find (claimable code now) (dbDevices d) = Some v" "dvID v = did" "dvHardwareID v = hw"
      "v \<in> set (dbDevices d)" "claimable code now v" by (rule lookup_Inr)
    have R: "p = (t, hw)" "d' = d\<lparr>dbLines := dbLines d @ [\<lparr>lnID = lid, lnNumber = n, lnName = ln, lnHousehold = h\<rparr>],
             dbDevices := updRows (\<lambda>w. dvID w = did \<and> dvPairedAt w = None) (bound now lid (hash t) dn) (dbDevices d)\<rparr>"
      and F: "lid \<notin> set (lineIDs d)" "n \<notin> set (map lnNumber (dbLines d))" "h \<in> set (householdIDs d)"
      using Pair Inr L t
      by (auto simp: ClaimDevice_def WithTx_Inr AddLine_def Let_def bindDevice_Inr list_ex_iff
          split: sum.splits prod.splits if_splits)
    then show ?thesis using claimed [of t v] t v Pair Inr by simp
  qed
qed


lemma ClaimDeviceToLine_cases:
  obtains (failed) e where "ClaimDeviceToLine f hash tok now code lid dn h d = (Inl e, d)"
  | (claimed) t v l where "tok = Some t" "find (claimable code now) (dbDevices d) = Some v" "v \<in> set (dbDevices d)" "claimable code now v"
      "find (\<lambda>l. lnID l = lid) (dbLines d) = Some l" "lnHousehold l = h" "lid \<in> set (lineIDs d)"
      "ClaimDeviceToLine f hash tok now code lid dn h d
        = (Inr (t, dvHardwareID v), d\<lparr>dbDevices :=
             updRows (\<lambda>w. dvID w = dvID v \<and> dvPairedAt w = None) (bound now lid (hash t) dn) (dbDevices d)\<rparr>)"
proof (cases "ClaimDeviceToLine f hash tok now code lid dn h d")
  case (Pair r d')
  show ?thesis
  proof (cases r)
    case (Inl e)
    have "snd (ClaimDeviceToLine f hash tok now code lid dn h d) = d"
    proof (cases tok)
      case (Some t)
      show ?thesis using Pair Inl unfolding ClaimDeviceToLine_def Some option.case by (intro WithTx_Inl) simp
    qed (simp add: ClaimDeviceToLine_def)
    then have "d' = d" using Pair by simp
    then show ?thesis using Pair Inl failed by blast
  next
    case (Inr p)
    then obtain t where t: "tok = Some t" using Pair by (auto simp: ClaimDeviceToLine_def split: option.splits)
    then obtain did hw where L: "lookupPairingCode (f 2) now code d = Inr (did, hw)"
      using Pair Inr by (auto simp: ClaimDeviceToLine_def WithTx_Inr split: sum.splits prod.splits)
    then obtain v where v: "find (claimable code now) (dbDevices d) = Some v" "dvID v = did" "dvHardwareID v = hw"
      "v \<in> set (dbDevices d)" "claimable code now v" by (rule lookup_Inr)
    obtain l where l: "GetLineByID (f 3) lid d = Inr l"
      using Pair Inr L t by (auto simp: ClaimDeviceToLine_def WithTx_Inr split: sum.splits prod.splits)
    then have l': "find (\<lambda>l. lnID l = lid) (dbLines d) = Some l"
      by (auto simp: GetLineByID_def getLine_def split: if_splits option.splits)
    have R: "p = (t, hw)" "lnHousehold l = h" "lid \<in> set (lineIDs d)"
      "d' = d\<lparr>dbDevices := updRows (\<lambda>w. dvID w = did \<and> dvPairedAt w = None) (bound now lid (hash t) dn) (dbDevices d)\<rparr>"
      using Pair Inr L t l
      by (auto simp: ClaimDeviceToLine_def WithTx_Inr bindDevice_Inr split: sum.splits prod.splits if_splits)
    then show ?thesis using claimed [of t v l] t v l' Pair Inr by simp
  qed
qed

section \<open>Links\<close>

definition links_ok :: "LinkRow list \<Rightarrow> bool" where
  "links_ok ls \<longleftrightarrow> distinct (map lkID ls) \<and> distinct (map lkCode ls)
     \<and> (\<forall>l \<in> set ls. (lkStatus l = LinkStatusPending \<longrightarrow> lkB l = None)
                     \<and> (lkStatus l = LinkStatusActive \<longrightarrow> (\<exists>b. lkB l = Some b \<and> lkA l < b)))
     \<and> (\<forall>l \<in> set ls. \<forall>l' \<in> set ls. lkStatus l = LinkStatusActive \<longrightarrow> lkStatus l' = LinkStatusActive
           \<longrightarrow> lkA l = lkA l' \<longrightarrow> lkB l = lkB l' \<longrightarrow> l = l')"

lemmas link_status = LinkStatusPending_def LinkStatusActive_def LinkStatusRevoked_def

lemma links_ok_Nil [simp]: "links_ok []"
  by (simp add: links_ok_def)

lemma links_ok_filter: "links_ok ls \<Longrightarrow> links_ok (filter p ls)"
  by (auto simp: links_ok_def distinct_map_filter)

text \<open>A change that keeps keys, ends and status.\<close>

lemma links_ok_map:
  assumes ok: "links_ok ls"
    and g: "\<And>l. lkID (g l) = lkID l" "\<And>l. lkCode (g l) = lkCode l" "\<And>l. lkA (g l) = lkA l"
      "\<And>l. lkB (g l) = lkB l" "\<And>l. lkStatus (g l) = lkStatus l"
  shows "links_ok (map g ls)"
proof -
  have "map lkID (map g ls) = map lkID ls" "map lkCode (map g ls) = map lkCode ls" by (simp_all add: g comp_def)
  then show ?thesis using ok unfolding links_ok_def
    by (simp only:) (auto simp: g simp del: map_map)
qed

lemma links_ok_insert:
  assumes "links_ok ls" "lkID l \<notin> lkID ` set ls" "lkCode l \<notin> lkCode ` set ls" "lkStatus l = LinkStatusPending" "lkB l = None"
  shows "links_ok (ls @ [l])"
  using assms by (auto simp: links_ok_def link_status)

lemma links_ok_revoke:
  assumes ok: "links_ok ls"
  shows "links_ok (updRows p (\<lambda>l. l\<lparr>lkStatus := LinkStatusRevoked, lkRevokedAt := t, lkRevokedBy := u\<rparr>) ls)"
  using ok unfolding links_ok_def by (auto simp: in_updRows link_status split: if_splits)

lemma links_ok_accept:
  assumes ok: "links_ok ls" and l: "l \<in> set ls" and new: "\<not> list_ex (activeLink a b) ls" and ab: "a < b"
    and l': "lkID l' = lkID l" "lkCode l' = lkCode l" "lkA l' = a" "lkB l' = Some b" "lkStatus l' = LinkStatusActive"
  shows "links_ok (updRows (\<lambda>r. lkID r = lkID l) (\<lambda>_. l') ls)"
proof -
  have one: "r = l" if "r \<in> set ls" "lkID r = lkID l" for r
    using ok l that by (auto simp: links_ok_def distinct_map dest: inj_onD)
  have "map lkID (updRows (\<lambda>r. lkID r = lkID l) (\<lambda>_. l') ls) = map lkID ls"
    "map lkCode (updRows (\<lambda>r. lkID r = lkID l) (\<lambda>_. l') ls) = map lkCode ls"
    by (auto simp: updRows_def l' dest: one)
  moreover have "\<not> (lkA r = a \<and> lkB r = Some b \<and> lkStatus r = LinkStatusActive)" if "r \<in> set ls" for r
    using new that by (auto simp: list_ex_iff activeLink_def)
  ultimately show ?thesis
    using ok ab l' unfolding links_ok_def by (auto simp: in_updRows link_status)
qed

lemma link_ops_ok:
  assumes "links_ok (dbLinks d)"
  shows "links_ok (dbLinks (snd (CreateLinkInvite ok c l now h u d)))" "links_ok (dbLinks (snd (AcceptLinkInvite f now code u h d)))"
    "links_ok (dbLinks (snd (RevokeLink ok now lid u d)))" "links_ok (dbLinks (snd (DeleteUser ok u d)))"
    "links_ok (dbLinks (deleteHouseholdRow h d))"
proof -
  show "links_ok (dbLinks (snd (CreateLinkInvite ok c l now h u d)))"
    using assms by (auto simp: CreateLinkInvite_def Let_def list_ex_iff split: option.split intro!: links_ok_insert)
  show "links_ok (dbLinks (snd (AcceptLinkInvite f now code u h d)))"
    by (cases rule: AcceptLinkInvite_cases [of f now code u h d]) (use assms in \<open>auto intro!: links_ok_accept\<close>)
  show "links_ok (dbLinks (snd (RevokeLink ok now lid u d)))"
    using assms by (simp add: RevokeLink_def Let_def links_ok_revoke)
  show "links_ok (dbLinks (snd (DeleteUser ok u d)))"
    using assms by (simp add: DeleteUser_def deleteUserRow_def links_ok_map)
  show "links_ok (dbLinks (deleteHouseholdRow h d))"
    using assms by (simp add: deleteHouseholdRow_def deleteLines_def Let_def links_ok_filter)
qed

section \<open>Lines and handsets\<close>

definition devices_ok :: "LineRow list \<Rightarrow> DeviceRow list \<Rightarrow> bool" where
  "devices_ok ls vs \<longleftrightarrow> distinct (map lnID ls) \<and> distinct (map lnNumber ls)
     \<and> distinct (map dvID vs) \<and> distinct (map dvHardwareID vs)
     \<and> (\<forall>v \<in> set vs. (dvPairedAt v = None \<longleftrightarrow> dvToken v = None)
          \<and> (dvPairedAt v \<noteq> None \<longrightarrow> dvLine v \<noteq> None \<and> dvCode v = None)
          \<and> (\<forall>i. dvLine v = Some i \<longrightarrow> i \<in> lnID ` set ls))"

lemma devices_ok_Nil [simp]: "devices_ok [] []"
  by (simp add: devices_ok_def)

text \<open>A change of handsets that keeps their keys.\<close>

lemma devices_ok_upd:
  assumes ok: "devices_ok ls vs" and g: "\<And>v. dvID (g v) = dvID v" "\<And>v. dvHardwareID (g v) = dvHardwareID v"
    and row: "\<And>v. v \<in> set vs \<Longrightarrow> p v \<Longrightarrow> (dvPairedAt (g v) = None \<longleftrightarrow> dvToken (g v) = None)
        \<and> (dvPairedAt (g v) \<noteq> None \<longrightarrow> dvLine (g v) \<noteq> None \<and> dvCode (g v) = None)
        \<and> (\<forall>i. dvLine (g v) = Some i \<longrightarrow> i \<in> lnID ` set ls)"
  shows "devices_ok ls (updRows p g vs)"
  using ok row unfolding devices_ok_def by (auto simp: in_updRows g split: if_splits)

lemma devices_ok_lines:
  assumes "devices_ok ls vs" "distinct (map lnID ls')" "distinct (map lnNumber ls')" "lnID ` set ls \<subseteq> lnID ` set ls'"
  shows "devices_ok ls' vs"
  using assms unfolding devices_ok_def by blast

lemma AddLine_ok:
  assumes "devices_ok (dbLines d) (dbDevices d)"
  shows "devices_ok (dbLines (snd (AddLine ok l n nm h d))) (dbDevices d)"
  by (rule devices_ok_lines [OF assms]) (use assms in \<open>auto simp: AddLine_def Let_def devices_ok_def list_ex_iff\<close>)

lemma renamed_numbers:
  assumes "distinct (map lnNumber ls)" "distinct (map lnID ls)" "\<forall>r \<in> set ls. lnID r \<noteq> l \<longrightarrow> lnNumber r \<noteq> n"
  shows "distinct (map lnNumber (updRows (\<lambda>r. lnID r = l) (\<lambda>r. r\<lparr>lnNumber := n, lnName := nm\<rparr>) ls))"
  using assms
proof (induction ls)
  case (Cons r ls)
  then show ?case by (auto simp: updRows_def image_iff split: if_splits)
qed simp

lemma UpdateLine_ok:
  assumes "devices_ok (dbLines d) (dbDevices d)"
  shows "devices_ok (dbLines (snd (UpdateLine ok l n nm d))) (dbDevices d)"
proof (cases "snd (UpdateLine ok l n nm d) = d")
  case False
  let ?ls = "updRows (\<lambda>r. lnID r = l) (\<lambda>r. r\<lparr>lnNumber := n, lnName := nm\<rparr>) (dbLines d)"
  have u: "dbLines (snd (UpdateLine ok l n nm d)) = ?ls" "\<forall>r \<in> set (dbLines d). lnID r \<noteq> l \<longrightarrow> lnNumber r \<noteq> n"
    using False by (auto simp: UpdateLine_def list_ex_iff split: if_splits)
  have k: "map lnID ?ls = map lnID (dbLines d)" by simp
  show ?thesis unfolding u
  proof (rule devices_ok_lines [OF assms])
    show "distinct (map lnNumber ?ls)" using assms u(2) by (intro renamed_numbers) (simp_all add: devices_ok_def)
    show "lnID ` set (dbLines d) \<subseteq> lnID ` set ?ls" using k by (metis set_map subset_refl)
  qed (use assms in \<open>simp add: devices_ok_def\<close>)
qed (use assms in simp)

lemma deleteLines_ok:
  assumes "devices_ok (dbLines d) (dbDevices d)"
  shows "devices_ok (dbLines (deleteLines p d)) (dbDevices (deleteLines p d))"
proof -
  have "i \<in> lnID ` set (dbLines (deleteLines p d))" if "v \<in> set (dbDevices (deleteLines p d))" "dvLine v = Some i" for v i
  proof -
    have "i \<in> lnID ` set (dbLines d)" using assms that by (auto simp: devices_ok_def deleteLines_def)
    then obtain r where "r \<in> set (dbLines d)" "lnID r = i" by auto
    then show ?thesis using that by (force simp: deleteLines_def list_ex_iff)
  qed
  moreover have "distinct (lineIDs (deleteLines p d))" "distinct (map lnNumber (dbLines (deleteLines p d)))"
    "distinct (map dvID (dbDevices (deleteLines p d)))" "distinct (map dvHardwareID (dbDevices (deleteLines p d)))"
    using assms by (simp_all add: devices_ok_def deleteLines_def distinct_map_filter)
  moreover have "set (dbDevices (deleteLines p d)) \<subseteq> set (dbDevices d)" by (auto simp: deleteLines_def)
  ultimately show ?thesis using assms unfolding devices_ok_def by blast
qed

lemma device_ops_ok:
  assumes "devices_ok (dbLines d) (dbDevices d)"
  shows "devices_ok (dbLines d) (dbDevices (snd (GenerateCode ok c dv now hw d)))"
    "devices_ok (dbLines d) (dbDevices (snd (cleanupExpiredCodes ok now d)))"
    "devices_ok (dbLines d) (dbDevices (snd (Unpair ok hw d)))"
    "devices_ok (dbLines d) (dbDevices (snd (Reassign ok dv l d)))"
    "devices_ok (dbLines d) (dbDevices (snd (TouchLastSeenDB ok now hw d)))"
proof -
  have row: "(dvPairedAt v = None \<longleftrightarrow> dvToken v = None) \<and> (dvPairedAt v \<noteq> None \<longrightarrow> dvLine v \<noteq> None \<and> dvCode v = None)
      \<and> (\<forall>i. dvLine v = Some i \<longrightarrow> i \<in> lnID ` set (dbLines d))" if "v \<in> set (dbDevices d)" for v
    using assms that unfolding devices_ok_def by blast
  show "devices_ok (dbLines d) (dbDevices (snd (cleanupExpiredCodes ok now d)))"
    using assms row by (auto simp: cleanupExpiredCodes_def Let_def intro!: devices_ok_upd)
  show "devices_ok (dbLines d) (dbDevices (snd (Unpair ok hw d)))"
    using assms row by (auto simp: Unpair_def intro!: devices_ok_upd)
  show "devices_ok (dbLines d) (dbDevices (snd (Reassign ok dv l d)))"
    using assms row by (auto simp: Reassign_def Let_def list_ex_iff intro!: devices_ok_upd)
  show "devices_ok (dbLines d) (dbDevices (snd (TouchLastSeenDB ok now hw d)))"
    using assms row by (auto simp: TouchLastSeenDB_def intro!: devices_ok_upd)
  show "devices_ok (dbLines d) (dbDevices (snd (GenerateCode ok c dv now hw d)))"
  proof (cases "list_ex (\<lambda>v. dvHardwareID v = hw) (dbDevices d)")
    case True
    have "devices_ok (dbLines d) (updRows (\<lambda>v. dvHardwareID v = hw \<and> dvPairedAt v = None)
        (\<lambda>v. v\<lparr>dvCode := x, dvCodeExpires := y\<rparr>) (dbDevices d))" for x y
      by (rule devices_ok_upd [OF assms]) (use row in auto)
    then show ?thesis using assms True by (simp add: GenerateCode_def Let_def split: option.split)
  next
    case False
    then show ?thesis using assms by (auto simp: GenerateCode_def Let_def devices_ok_def list_ex_iff split: option.split)
  qed
qed

lemma claim_ok:
  assumes "devices_ok ls vs" "i \<in> lnID ` set ls"
  shows "devices_ok ls (updRows (\<lambda>w. dvID w = dv \<and> dvPairedAt w = None) (bound now i th nm) vs)"
  using assms by (intro devices_ok_upd) (auto simp: bound_def)

lemma claims_ok:
  assumes "devices_ok (dbLines d) (dbDevices d)"
  shows "devices_ok (dbLines (snd (ClaimDevice f hash tok lid now code n ln dn h d)))
           (dbDevices (snd (ClaimDevice f hash tok lid now code n ln dn h d)))"
    "devices_ok (dbLines (snd (ClaimDeviceToLine f hash tok now code lid dn h d)))
           (dbDevices (snd (ClaimDeviceToLine f hash tok now code lid dn h d)))"
proof -
  show "devices_ok (dbLines (snd (ClaimDevice f hash tok lid now code n ln dn h d)))
           (dbDevices (snd (ClaimDevice f hash tok lid now code n ln dn h d)))"
  proof (cases rule: ClaimDevice_cases [of f hash tok lid now code n ln dn h d])
    case (claimed t v)
    have "devices_ok (dbLines d @ [\<lparr>lnID = lid, lnNumber = n, lnName = ln, lnHousehold = h\<rparr>]) (dbDevices d)"
      using assms claimed by (auto simp: devices_ok_def)
    then show ?thesis using claimed by (simp add: claim_ok)
  qed (use assms in simp)
  show "devices_ok (dbLines (snd (ClaimDeviceToLine f hash tok now code lid dn h d)))
           (dbDevices (snd (ClaimDeviceToLine f hash tok now code lid dn h d)))"
    by (cases rule: ClaimDeviceToLine_cases [of f hash tok now code lid dn h d]) (use assms in \<open>auto intro!: claim_ok\<close>)
qed

end
