(* ===== verification/Access_Runs.thy ===== *)
theory Access_Runs
  imports Access_Inv
begin

text \<open>
  The runs of the database: members and the onboarding cache, the invariant of every run, and
  tokens that are spent once and for all.
\<close>

section \<open>Members and the cache\<close>

definition members_ok :: "HStore \<Rightarrow> bool" where
  "members_ok s \<longleftrightarrow> mbUser ` set (dbMembers (hsDB s)) \<subseteq> set (userIDs (hsDB s))
     \<and> (\<forall>u \<in> set (hsCache s). u \<in> set (userIDs (hsDB s)) \<longrightarrow> u \<in> mbUser ` set (dbMembers (hsDB s)))"

lemma members_okI:
  assumes "members_ok s" "mbUser ` set (dbMembers (hsDB s')) = mbUser ` set (dbMembers (hsDB s))"
    "set (userIDs (hsDB s')) = set (userIDs (hsDB s))" "set (hsCache s') \<subseteq> set (hsCache s)"
  shows "members_ok s'"
proof -
  have "u \<in> mbUser ` set (dbMembers (hsDB s))" if "u \<in> set (hsCache s')" "u \<in> set (userIDs (hsDB s'))" for u
    using assms(1) that subsetD [OF assms(4)] unfolding assms(3) members_ok_def by simp
  then show ?thesis using assms(1) unfolding members_ok_def assms(2,3) by simp
qed

lemma onDB_sel [simp]: "hsDB (onDB r s) = snd r" "hsCache (onDB r s) = hsCache s"
  by (simp_all add: onDB_def)

lemma cache_sel [simp]:
  "hsDB (markHasHousehold u s) = hsDB s" "hsDB (forgetHousehold u s) = hsDB s"
  "set (hsCache (markHasHousehold u s)) = insert u (set (hsCache s))"
  "set (hsCache (forgetHousehold u s)) = set (hsCache s) - {u}"
  by (simp_all add: markHasHousehold_def forgetHousehold_def)

lemma fold_forget [simp]:
  "hsDB (fold forgetHousehold us s) = hsDB s" "set (hsCache (fold forgetHousehold us s)) = set (hsCache s) - set us"
  by (induction us arbitrary: s) auto

lemma members_ok_untouched: "members_ok s \<Longrightarrow> untouched (hsDB s) (snd r) \<Longrightarrow> members_ok (onDB r s)"
  by (rule members_okI) (auto simp: untouched_def tel_def)

lemma members_ok_adds:
  assumes "members_ok s" "adds_user uid (hsDB s) (snd r)" "uid \<notin> set (hsCache s)"
  shows "members_ok (onDB r s)"
proof -
  have a: "dbMembers (snd r) = dbMembers (hsDB s)" "set (userIDs (hsDB s)) \<subseteq> set (userIDs (snd r))"
    "set (userIDs (snd r)) \<subseteq> insert uid (set (userIDs (hsDB s)))"
    using assms(2) by (simp_all add: adds_user_def tel_def)
  have "u \<in> mbUser ` set (dbMembers (hsDB s))" if "u \<in> set (hsCache s)" "u \<in> set (userIDs (snd r))" for u
    using assms(1,3) that subsetD [OF a(3) that(2)] unfolding members_ok_def by auto
  moreover have "mbUser ` set (dbMembers (hsDB s)) \<subseteq> set (userIDs (snd r))"
    using assms(1) a(2) unfolding members_ok_def by (metis subset_trans)
  ultimately show ?thesis unfolding members_ok_def onDB_sel a(1) by blast
qed

lemma upsert_members:
  assumes "upsertMember u h role d = Some d'"
  shows "mbUser ` set (dbMembers d') = insert u (mbUser ` set (dbMembers d))" "u \<in> set (userIDs d)" "h \<in> set (householdIDs d)"
    "dbUsers d' = dbUsers d" "isMember v g d' \<longleftrightarrow> isMember v g d \<or> v = u \<and> g = h"
    "dbLinks d' = dbLinks d" "dbLines d' = dbLines d" "dbDevices d' = dbDevices d" "dbInvites d' = dbInvites d"
    "dbHouseholds d' = dbHouseholds d"
proof -
  have m: "u \<in> set (userIDs d)" "h \<in> set (householdIDs d)"
    "d' = d\<lparr>dbMembers := (if isMember u h d
       then updRows (\<lambda>m. mbUser m = u \<and> mbHousehold m = h) (\<lambda>m. m\<lparr>mbRole := role\<rparr>) (dbMembers d)
       else dbMembers d @ [\<lparr>mbUser = u, mbHousehold = h, mbRole = role\<rparr>])\<rparr>"
    using assms by (simp_all add: upsertMember_def split: if_splits)
  show "u \<in> set (userIDs d)" "h \<in> set (householdIDs d)" using m by simp_all
  show "dbUsers d' = dbUsers d" "dbLinks d' = dbLinks d" "dbLines d' = dbLines d" "dbDevices d' = dbDevices d" "dbInvites d' = dbInvites d"
    "dbHouseholds d' = dbHouseholds d" by (simp_all add: m(3))
  have k: "map mbUser (updRows p (\<lambda>m. m\<lparr>mbRole := role\<rparr>) ms) = map mbUser ms"
    "map mbHousehold (updRows p (\<lambda>m. m\<lparr>mbRole := role\<rparr>) ms) = map mbHousehold ms" for p ms
    by (simp_all add: updRows_def)
  have e: "list_ex (\<lambda>m. mbUser m = v \<and> mbHousehold m = g) (updRows p (\<lambda>m. m\<lparr>mbRole := role\<rparr>) ms)
      = list_ex (\<lambda>m. mbUser m = v \<and> mbHousehold m = g) ms" for p ms by (induction ms) (auto simp: updRows_def)
  show "mbUser ` set (dbMembers d') = insert u (mbUser ` set (dbMembers d))"
  proof (cases "isMember u h d")
    case True
    have "mbUser ` set (dbMembers d') = mbUser ` set (dbMembers d)" using True by (simp add: m(3) flip: set_map add: k)
    then show ?thesis using True by (auto simp: isMember_def list_ex_iff)
  qed (simp add: m(3))
  show "isMember v g d' \<longleftrightarrow> isMember v g d \<or> v = u \<and> g = h"
    by (cases "isMember u h d") (auto simp: m(3) isMember_def e)
qed

text \<open>A transaction of the store, written out.\<close>

lemma WithTx_store:
  "(case WithTx f body (hsDB s) of (Inl e, d) \<Rightarrow> (Inl e, s\<lparr>hsDB := d\<rparr>) | (Inr a, d) \<Rightarrow> k a d)
     = (if f 0
        then case body (hsDB s) of Inl e \<Rightarrow> (Inl e, s)
          | Inr (a, d) \<Rightarrow> if f 1 then k a d else (Inl DbFail, s)
        else (Inl DbFail, s))"
  by (cases s) (simp add: WithTx_def split: sum.split prod.split)

lemma CreateHousehold_cases:
  obtains (failed) e where "CreateHousehold f h now nm u s = (Inl e, s)"
  | (created) d' r where "h \<notin> set (householdIDs (hsDB s))" "hhID r = h"
      "upsertMember u h roleAdmin ((hsDB s)\<lparr>dbHouseholds := dbHouseholds (hsDB s) @ [r]\<rparr>) = Some d'"
      "CreateHousehold f h now nm u s = (Inr r, markHasHousehold u (s\<lparr>hsDB := d'\<rparr>))"
proof -
  let ?r = "\<lparr>hhID = h, hhName = nm, hhHistory = False, hhTimezone = ''UTC'', hhCreatedAt = now\<rparr>"
  let ?d = "(hsDB s)\<lparr>dbHouseholds := dbHouseholds (hsDB s) @ [?r]\<rparr>"
  show ?thesis
  proof (cases "f 0 \<and> f 1 \<and> f 2 \<and> f 3 \<and> h \<notin> set (householdIDs (hsDB s)) \<and> \<not> isMember u h ?d \<and> upsertMember u h roleAdmin ?d \<noteq> None")
    case True
    then obtain d' where "upsertMember u h roleAdmin ?d = Some d'" by blast
    then show ?thesis using True
      by (intro created [of ?r d']) (simp_all add: CreateHousehold_def WithTx_store Let_def del: One_nat_def)
  next
    case False
    then have "\<exists>e. CreateHousehold f h now nm u s = (Inl e, s)"
      by (auto simp: CreateHousehold_def WithTx_store Let_def simp del: One_nat_def split: option.split)
    then show ?thesis using failed by blast
  qed
qed

lemma RedeemInvite_cases:
  obtains (failed) e where "RedeemInvite f now t u email s = (Inl e, s)"
  | (redeemed) i d' where "find (\<lambda>i. ivToken i = t \<and> liveInvite now i) (dbInvites (hsDB s)) = Some i"
      "i \<in> set (dbInvites (hsDB s))" "ivToken i = t" "liveInvite now i" "emailNormalize email = ivEmail i" "ivInvitedBy i \<noteq> None"
      "upsertMember u (ivHousehold i) roleAdmin (hsDB s) = Some d'"
      "RedeemInvite f now t u email s = (Inr (accepted now i), markHasHousehold u (s\<lparr>hsDB := d'\<lparr>dbInvites :=
         updRows (\<lambda>r. ivID r = ivID i \<and> ivStatus r = InviteStatusPending) (accepted now) (dbInvites d')\<rparr>\<rparr>))"
proof (cases "find (\<lambda>i. ivToken i = t \<and> liveInvite now i) (dbInvites (hsDB s))")
  case None
  then have "\<exists>e. RedeemInvite f now t u email s = (Inl e, s)"
    by (simp add: RedeemInvite_def WithTx_store)
  then show ?thesis using failed by blast
next
  case (Some i)
  then have i: "i \<in> set (dbInvites (hsDB s))" "ivToken i = t" "liveInvite now i" by (auto simp: find_Some_iff)
  show ?thesis
  proof (cases "f 0 \<and> f 1 \<and> f 2 \<and> f 3 \<and> f 4 \<and> ivInvitedBy i \<noteq> None \<and> emailNormalize email = ivEmail i
      \<and> upsertMember u (ivHousehold i) roleAdmin (hsDB s) \<noteq> None")
    case True
    then obtain d' where "upsertMember u (ivHousehold i) roleAdmin (hsDB s) = Some d'" by blast
    then show ?thesis using True i Some
      by (intro redeemed [of i d']) (simp_all add: RedeemInvite_def WithTx_store scanInvite_def del: One_nat_def)
  next
    case False
    then have "\<exists>e. RedeemInvite f now t u email s = (Inl e, s)"
      using Some by (auto simp: RedeemInvite_def WithTx_store scanInvite_def simp del: One_nat_def split: option.split)
    then show ?thesis using failed by blast
  qed
qed

lemma DeleteHousehold_cases:
  obtains (failed) e where "DeleteHousehold f h s = (Inl e, s)"
  | (deleted) "h \<in> set (householdIDs (hsDB s))"
      "DeleteHousehold f h s = (Inr (), fold forgetHousehold (memberIDs h (hsDB s)) (s\<lparr>hsDB := deleteHouseholdRow h (hsDB s)\<rparr>))"
proof (cases "f 0 \<and> f 1 \<and> f 2 \<and> f 3 \<and> h \<in> set (householdIDs (hsDB s))")
  case True
  have "deleteHouseholdRow h (d\<lparr>dbMembers := filter (\<lambda>m. mbHousehold m \<noteq> h) (dbMembers d)\<rparr>) = deleteHouseholdRow h d" for d
    by (simp add: deleteHouseholdRow_def deleteLines_def Let_def cong: option.case_cong)
  then show ?thesis using True
    by (intro deleted) (simp_all add: DeleteHousehold_def WithTx_store Let_def del: One_nat_def)
next
  case False
  then have "\<exists>e. DeleteHousehold f h s = (Inl e, s)"
    by (auto simp: DeleteHousehold_def WithTx_store Let_def simp del: One_nat_def)
  then show ?thesis using failed by blast
qed

lemma member_ops_ok:
  assumes "members_ok s"
  shows "members_ok (snd (CreateHousehold f h now nm u s))" "members_ok (snd (RedeemInvite f now t u email s))"
    "members_ok (snd (AddMember ok u h role s))" "members_ok (snd (RemoveMember ok u h s))"
    "members_ok (snd (DeleteHousehold f h s))" "members_ok (snd (NeedsOnboarding ok u s))"
    "members_ok (onDB (DeleteUser ok u (hsDB s)) s)"
proof -
  have grow: "members_ok s'" if "upsertMember u h role d = Some d'" "dbMembers d = dbMembers (hsDB s)" "dbUsers d = dbUsers (hsDB s)"
    "dbMembers (hsDB s') = dbMembers d'" "dbUsers (hsDB s') = dbUsers d'" "set (hsCache s') = insert u (set (hsCache s))"
    for u h role d d' s'
    using assms upsert_members(1,2,4) [OF that(1)] that(2-) unfolding members_ok_def by auto
  show "members_ok (snd (CreateHousehold f h now nm u s))"
    by (cases rule: CreateHousehold_cases [of f h now nm u s]) (use assms in \<open>auto intro: grow\<close>)
  show "members_ok (snd (RedeemInvite f now t u email s))"
    by (cases rule: RedeemInvite_cases [of f now t u email s]) (use assms in \<open>auto intro: grow\<close>)
  show "members_ok (snd (AddMember ok u h role s))"
    using assms by (auto simp: AddMember_def split: option.split intro: grow)
  show "members_ok (snd (RemoveMember ok u h s))"
    using assms unfolding members_ok_def RemoveMember_def by (auto simp: image_iff)
  show "members_ok (snd (DeleteHousehold f h s))"
  proof (cases rule: DeleteHousehold_cases [of f h s])
    case deleted
    let ?d = "deleteHouseholdRow h (hsDB s)"
    have d: "dbMembers ?d = filter (\<lambda>m. mbHousehold m \<noteq> h) (dbMembers (hsDB s))" "dbUsers ?d = dbUsers (hsDB s)"
      by (simp_all add: deleteHouseholdRow_def deleteLines_def Let_def)
    have c: "u \<in> mbUser ` set (dbMembers ?d)"
      if "u \<in> mbUser ` set (dbMembers (hsDB s))" "u \<notin> set (memberIDs h (hsDB s))" for u
      using that by (force simp: d memberIDs_def)
    have "mbUser ` set (dbMembers ?d) \<subseteq> mbUser ` set (dbMembers (hsDB s))" by (auto simp: d)
    then have 1: "mbUser ` set (dbMembers ?d) \<subseteq> set (userIDs (hsDB s))" using assms unfolding members_ok_def by (metis subset_trans)
    have 2: "u \<in> mbUser ` set (dbMembers ?d)"
      if "u \<in> set (hsCache s) - set (memberIDs h (hsDB s))" "u \<in> set (userIDs (hsDB s))" for u
      using assms that c [of u] unfolding members_ok_def by blast
    show ?thesis unfolding deleted(2) members_ok_def fold_forget snd_conv using 1 2 by (simp add: d(2))
  qed (use assms in simp)
  show "members_ok (snd (NeedsOnboarding ok u s))"
  proof (cases "snd (NeedsOnboarding ok u s) = s")
    case False
    then have "snd (NeedsOnboarding ok u s) = markHasHousehold u s" "filter (\<lambda>m. mbUser m = u) (dbMembers (hsDB s)) \<noteq> []"
      by (auto simp: NeedsOnboarding_def countMemberships_def split: if_splits)
    then show ?thesis using assms by (force simp: members_ok_def filter_empty_conv)
  qed (use assms in simp)
  show "members_ok (onDB (DeleteUser ok u (hsDB s)) s)"
  proof (cases "snd (DeleteUser ok u (hsDB s)) = hsDB s")
    case True
    then show ?thesis using assms by (simp add: members_ok_def)
  next
    case False
    then have "snd (DeleteUser ok u (hsDB s)) = deleteUserRow u (hsDB s)" by (auto simp: DeleteUser_def split: if_splits)
    then show ?thesis using assms by (force simp: members_ok_def deleteUserRow_def)
  qed
qed

section \<open>The machine\<close>

definition access_ok :: "HStore \<Rightarrow> bool" where
  "access_ok s \<longleftrightarrow> links_ok (dbLinks (hsDB s)) \<and> devices_ok (dbLines (hsDB s)) (dbDevices (hsDB s)) \<and> members_ok s"

definition newHStore :: HStore where
  "newHStore = \<lparr>hsDB = emptyDB, hsCache = []\<rparr>"

lemma access_ok_new [simp]: "access_ok newHStore"
  by (simp add: access_ok_def newHStore_def emptyDB_def members_ok_def)

text \<open>Moves of one group leave the tables of the others.\<close>

lemma access_frame:
  assumes "adds_user uid (hsDB s) (snd r)" "uid \<notin> set (hsCache s)" "access_ok s"
  shows "access_ok (onDB r s)"
  using assms members_ok_adds [OF _ assms(1,2)] by (simp add: access_ok_def adds_user_def tel_def)

lemma access_frame0: "untouched (hsDB s) (snd r) \<Longrightarrow> access_ok s \<Longrightarrow> access_ok (onDB r s)"
  using members_ok_untouched [of s r] by (simp add: access_ok_def untouched_def tel_def)

lemma access_part:
  assumes "access_ok s" "links_ok (dbLinks (snd r))" "devices_ok (dbLines (snd r)) (dbDevices (snd r))"
    "dbMembers (snd r) = dbMembers (hsDB s)" "dbUsers (snd r) = dbUsers (hsDB s)"
  shows "access_ok (onDB r s)"
  using assms members_okI [of s "onDB r s"] by (simp add: access_ok_def)

lemma access_store:
  assumes "access_ok s" "members_ok s'" "dbLinks (hsDB s') = dbLinks (hsDB s)" "dbLines (hsDB s') = dbLines (hsDB s)"
    "dbDevices (hsDB s') = dbDevices (hsDB s)"
  shows "access_ok s'"
  using assms by (simp add: access_ok_def)

definition tel3 :: "DB \<Rightarrow> LinkRow list \<times> LineRow list \<times> DeviceRow list" where
  "tel3 d = (dbLinks d, dbLines d, dbDevices d)"

lemma access_store3: "access_ok s \<Longrightarrow> members_ok s' \<Longrightarrow> tel3 (hsDB s') = tel3 (hsDB s) \<Longrightarrow> access_ok s'"
  by (auto simp: tel3_def intro: access_store)

lemma access_hh_deleted:
  assumes "access_ok s"
  shows "access_ok (snd (DeleteHousehold f h s))"
proof (cases rule: DeleteHousehold_cases [of f h s])
  case deleted
  let ?d = "deleteHouseholdRow h (hsDB s)"
  have d: "dbLines ?d = dbLines (deleteLines (\<lambda>l. lnHousehold l = h) (hsDB s))"
    "dbDevices ?d = dbDevices (deleteLines (\<lambda>l. lnHousehold l = h) (hsDB s))"
    by (simp_all add: deleteHouseholdRow_def Let_def)
  have "members_ok (snd (DeleteHousehold f h s))" using assms by (simp add: access_ok_def member_ops_ok(5))
  then show ?thesis using assms deleted(2)
    by (simp add: access_ok_def link_ops_ok(5) d deleteLines_ok)
qed (use assms in simp)

lemma store_frame:
  "tel3 (hsDB (snd (CreateHousehold f h now nm u s))) = tel3 (hsDB s)"
  "tel3 (hsDB (snd (RedeemInvite f now t u email s))) = tel3 (hsDB s)"
  "tel3 (hsDB (snd (AddMember ok u h role s))) = tel3 (hsDB s)"
  "tel3 (hsDB (snd (RemoveMember ok u h s))) = tel3 (hsDB s)"
  "tel3 (hsDB (snd (NeedsOnboarding ok u s))) = tel3 (hsDB s)"
proof -
  show "tel3 (hsDB (snd (CreateHousehold f h now nm u s))) = tel3 (hsDB s)"
  proof (cases rule: CreateHousehold_cases [of f h now nm u s])
    case (created d' r)
    then show ?thesis using upsert_members(6,7,8) [OF created(3)] by (simp add: tel3_def)
  qed simp
  show "tel3 (hsDB (snd (RedeemInvite f now t u email s))) = tel3 (hsDB s)"
  proof (cases rule: RedeemInvite_cases [of f now t u email s])
    case (redeemed i d')
    then show ?thesis using upsert_members(6,7,8) [OF redeemed(7)] by (simp add: tel3_def)
  qed simp
  show "tel3 (hsDB (snd (AddMember ok u h role s))) = tel3 (hsDB s)"
    by (auto simp: AddMember_def tel3_def upsert_members split: option.split)
  show "tel3 (hsDB (snd (RemoveMember ok u h s))) = tel3 (hsDB s)"
    by (simp add: RemoveMember_def tel3_def)
  show "tel3 (hsDB (snd (NeedsOnboarding ok u s))) = tel3 (hsDB s)"
    by (simp add: NeedsOnboarding_def tel3_def split: sum.split)
qed

lemma DeleteLine_ok:
  assumes "devices_ok (dbLines d) (dbDevices d)"
  shows "devices_ok (dbLines (snd (DeleteLine ok l d))) (dbDevices (snd (DeleteLine ok l d)))"
  using assms by (simp add: DeleteLine_def deleteLines_ok)

lemma claim_frame [simp]:
  "dbLinks (snd (ClaimDevice f hash tok lid now code n ln dn h d)) = dbLinks d"
  "dbMembers (snd (ClaimDevice f hash tok lid now code n ln dn h d)) = dbMembers d"
  "dbUsers (snd (ClaimDevice f hash tok lid now code n ln dn h d)) = dbUsers d"
  "dbInvites (snd (ClaimDevice f hash tok lid now code n ln dn h d)) = dbInvites d"
  "dbLinks (snd (ClaimDeviceToLine f hash tok now code lid dn h d)) = dbLinks d"
  "dbMembers (snd (ClaimDeviceToLine f hash tok now code lid dn h d)) = dbMembers d"
  "dbUsers (snd (ClaimDeviceToLine f hash tok now code lid dn h d)) = dbUsers d"
  "dbInvites (snd (ClaimDeviceToLine f hash tok now code lid dn h d)) = dbInvites d"
  by (cases rule: ClaimDevice_cases [of f hash tok lid now code n ln dn h d]; simp)+
    (cases rule: ClaimDeviceToLine_cases [of f hash tok now code lid dn h d]; simp)+

definition hhOnly :: "DB \<Rightarrow> DB \<Rightarrow> bool" where
  "hhOnly d d' \<longleftrightarrow> tel3 d' = tel3 d \<and> dbMembers d' = dbMembers d \<and> dbUsers d' = dbUsers d"

lemma hh_frame: "hhOnly d (snd (updHousehold ok h g d))"
  by (simp add: updHousehold_def hhOnly_def tel3_def)

lemma access_hhOnly: "access_ok s \<Longrightarrow> hhOnly (hsDB s) (snd r) \<Longrightarrow> access_ok (onDB r s)"
  by (rule access_part) (simp_all add: access_ok_def hhOnly_def tel3_def)

lemma SetTimezone_frame: "hhOnly d (snd (SetTimezone ok ld h tz d))"
  by (simp add: SetTimezone_def hh_frame) (simp add: hhOnly_def)

lemma access_step_ok:
  assumes ok: "access_ok s" and fresh: "access_move_ok m s"
  shows "access_ok (access_step hash m s)"
proof -
  have parts: "links_ok (dbLinks (hsDB s))" "devices_ok (dbLines (hsDB s)) (dbDevices (hsDB s))" "members_ok s"
    using ok by (simp_all add: access_ok_def)
  note mo = member_ops_ok [OF parts(3)] and lo = link_ops_ok [OF parts(1)]
    and dvo = device_ops_ok [OF parts(2)]
  show ?thesis
  proof (cases m)
    case (AmMagicVerify f tok uid sid now t)
    then show ?thesis using access_frame [OF MagicVerify_frame] ok fresh by simp
  next
    case (AmGoogle f tok uid sid now cookie r st info)
    then show ?thesis using access_frame [OF Callback_frame] ok fresh by simp
  next
    case (AmDeleteUser k u)
    have "dbLines (snd (DeleteUser k u (hsDB s))) = dbLines (hsDB s)" "dbDevices (snd (DeleteUser k u (hsDB s))) = dbDevices (hsDB s)"
      by (simp_all add: DeleteUser_def deleteUserRow_def)
    then show ?thesis using AmDeleteUser parts lo(4) mo(7) by (simp add: access_ok_def)
  next
    case (AmDeleteHousehold f h)
    then show ?thesis using access_hh_deleted [OF ok] by simp
  qed (simp_all add: access_frame0 [OF db_frame(1)] access_frame0 [OF db_frame(2)] access_frame0 [OF db_frame(3)]
    access_frame0 db_frame access_store3 [OF ok] store_frame mo lo dvo access_part [OF ok] parts UpdateLine_ok AddLine_ok
    DeleteLine_ok claims_ok access_hhOnly [OF ok] hh_frame UpdateName_def SetCallHistoryEnabled_def SetTimezone_frame ok)
qed

end
