(* ===== verification/Access_Links.thy ===== *)
theory Access_Links
  imports Access_Runs Relay_Props "HOL-Library.Sublist"
begin

text \<open>
  Who may call whom.  The query of the authorizer agrees with the link store in every reachable
  state, households come to be linked by an invitation of one and an acceptance of the other,
  and a revoked link cuts the calls off at once.
\<close>

interpretation access: invariant_machine "access_step hash" access_move_ok access_ok
  by unfold_locales (rule access_step_ok)

definition runAccess :: "(string \<Rightarrow> string) \<Rightarrow> accessMove list \<Rightarrow> HStore" where
  "runAccess hash ms = fold (access_step hash) ms newHStore"

definition accessRun :: "(string \<Rightarrow> string) \<Rightarrow> accessMove list \<Rightarrow> bool" where
  "accessRun hash ms \<longleftrightarrow> allowed_run (access_step hash) access_move_ok ms newHStore"

lemma accessRun_ok: "accessRun hash ms \<Longrightarrow> access_ok (runAccess hash ms)"
  unfolding accessRun_def runAccess_def by (rule access.run_inv [OF access_ok_new])

lemma access_okD:
  assumes "access_ok s"
  shows "links_ok (dbLinks (hsDB s))" "devices_ok (dbLines (hsDB s)) (dbDevices (hsDB s))" "members_ok s"
    "distinct (map lnNumber (dbLines (hsDB s)))" "distinct (map lkID (dbLinks (hsDB s)))"
proof -
  show 1: "links_ok (dbLinks (hsDB s))" and 2: "devices_ok (dbLines (hsDB s)) (dbDevices (hsDB s))" and "members_ok s"
    using assms by (simp_all add: access_ok_def)
  show "distinct (map lnNumber (dbLines (hsDB s)))" using 2 unfolding devices_ok_def by blast
  show "distinct (map lkID (dbLinks (hsDB s)))" using 1 unfolding links_ok_def by blast
qed

section \<open>The authorizer and the link store\<close>

lemma filter_key:
  "distinct (map k xs) \<Longrightarrow> filter (\<lambda>x. k x = n) xs = (case find (\<lambda>x. k x = n) xs of None \<Rightarrow> [] | Some x \<Rightarrow> [x])"
proof (induction xs)
  case (Cons x xs)
  have "find (\<lambda>y. k y = k x) xs = None" if "k x \<notin> k ` set xs" using that by (simp add: find_None_iff) (metis image_eqI)
  then show ?case using Cons by (cases "k x = n") auto
qed simp

lemma line_of_number:
  assumes "distinct (map lnNumber (dbLines d))"
  shows "householdsOfLine n d = (case GetLineByNumber True n d of Inl _ \<Rightarrow> [] | Inr l \<Rightarrow> [lnHousehold l])"
  unfolding householdsOfLine_def filter_key [OF assms] by (simp add: GetLineByNumber_def getLine_def split: option.split)

lemma joins_ordered:
  assumes "links_ok ls" "l \<in> set ls"
  shows "joins x y l \<longleftrightarrow> activeLink (fst (ordered x y)) (snd (ordered x y)) l"
proof -
  have "lkA l < b" if "lkStatus l = LinkStatusActive" "lkB l = Some b" for b
    using assms that unfolding links_ok_def by fastforce
  then show ?thesis by (auto simp: joins_def activeLink_def ordered_def dest: less_asym split: if_splits)
qed

lemma joins_AreLinked:
  assumes "links_ok (dbLinks d)"
  shows "list_ex (joins x y) (dbLinks d) \<longleftrightarrow> AreLinked True x y d = Inr True"
  using joins_ordered [OF assms, of _ x y] by (auto simp: AreLinked_def list_ex_iff split: prod.split)

definition mayCall :: "DB \<Rightarrow> string \<Rightarrow> string \<Rightarrow> bool" where
  "mayCall d src dst =
     (case (GetLineByNumber True src d, GetLineByNumber True dst d) of
        (Inr a, Inr b) \<Rightarrow> lnHousehold a = lnHousehold b \<or> AreLinked True (lnHousehold a) (lnHousehold b) d = Inr True
      | _ \<Rightarrow> False)"

lemma CanCall_ok:
  assumes "access_ok s"
  shows "CanCall True (hsDB s) src dst = Some (mayCall (hsDB s) src dst)"
  using line_of_number [OF access_okD(4) [OF assms]] joins_AreLinked [OF access_okD(1) [OF assms]]
  by (simp add: CanCall_def mayCall_def split: sum.split)

text \<open>
  C23: The authorizer asks the right question.  In every state that the operations of the stores
  can reach, its one SQL query over lines and links answers exactly what the line store and the
  link store say: both numbers are lines, and the lines are of one household or of two that are
  linked.  It needs the uniqueness of numbers and the order of a link's ends, which the query
  does not check.
\<close>
theorem authorizer_agrees_with_the_stores:
  assumes "accessRun hash ms"
  shows "CanCall True (hsDB (runAccess hash ms)) src dst = Some (mayCall (hsDB (runAccess hash ms)) src dst)"
  by (rule CanCall_ok [OF accessRun_ok [OF assms]])

text \<open>Two families; the second enters the code of the first.\<close>

definition familyMoves :: "accessMove list" where
  "familyMoves =
    [AmMagicRequest (\<lambda>_. True) (Some ''m1'') 0 [''a@x''] True ''a@x'' [] [],
     AmMagicVerify (\<lambda>_. True) (Some ''s1'') ''ua'' ''sa'' 1 ''m1'',
     AmMagicRequest (\<lambda>_. True) (Some ''m2'') 0 [''b@x''] True ''b@x'' [] [],
     AmMagicVerify (\<lambda>_. True) (Some ''s2'') ''ub'' ''sb'' 1 ''m2'',
     AmCreateHousehold (\<lambda>_. True) ''hb'' 2 ''B'' ''ub'',
     AmCreateHousehold (\<lambda>_. True) ''ha'' 2 ''A'' ''ua'',
     AmAddLine True 1 ''100'' ''kitchen'' ''ha'', AmAddLine True 2 ''200'' ''hall'' ''hb'',
     AmLinkInvite True (Some ''code'') ''l1'' 3 ''hb'' ''ub'',
     AmAcceptLink (\<lambda>_. True) 4 ''code'' ''ua'' ''ha'']"

lemma family_run: "accessRun id familyMoves"
  unfolding accessRun_def by code_simp

theorem authorizer_agrees_with_the_stores_witness:
  "CanCall True (hsDB (runAccess id familyMoves)) ''100'' ''200'' = Some True
   \<and> CanCall True (hsDB (runAccess id (take 9 familyMoves))) ''100'' ''200'' = Some False
   \<and> mayCall (hsDB (runAccess id familyMoves)) ''100'' ''200''"
proof -
  have "accessRun id (take 9 familyMoves)" unfolding accessRun_def by code_simp
  moreover have "mayCall (hsDB (runAccess id familyMoves)) ''100'' ''200''" by code_simp
  moreover have "\<not> mayCall (hsDB (runAccess id (take 9 familyMoves))) ''100'' ''200''" by code_simp
  ultimately show ?thesis
    using authorizer_agrees_with_the_stores [OF family_run, of "''100''" "''200''"]
      authorizer_agrees_with_the_stores [of id "take 9 familyMoves" "''100''" "''200''"] by simp
qed

section \<open>How households come to be linked\<close>

fun invitesWith :: "accessMove \<Rightarrow> (string \<times> string) option" where
  "invitesWith (AmLinkInvite ok (Some c) l now h u) = Some (c, h)"
| "invitesWith _ = None"

fun acceptsWith :: "accessMove \<Rightarrow> (string \<times> string) option" where
  "acceptsWith (AmAcceptLink f now c u h) = Some (c, h)"
| "acceptsWith _ = None"

fun linkMove :: "accessMove \<Rightarrow> bool" where
  "linkMove (AmLinkInvite ok c l now h u) = True"
| "linkMove (AmAcceptLink f now c u h) = True"
| "linkMove (AmRevokeLink ok now l u) = True"
| "linkMove (AmDeleteUser ok u) = True"
| "linkMove (AmDeleteHousehold f h) = True"
| "linkMove _ = False"

lemma untouched_links: "untouched d (snd r) \<Longrightarrow> dbLinks (snd r) = dbLinks d"
  by (simp add: untouched_def tel_def)

lemma adds_links: "adds_user uid d (snd r) \<Longrightarrow> dbLinks (snd r) = dbLinks d"
  by (simp add: adds_user_def tel_def)

lemma hhOnly_links: "hhOnly d (snd r) \<Longrightarrow> dbLinks (snd r) = dbLinks d"
  by (simp add: hhOnly_def tel3_def)

lemma tel3_links: "tel3 d' = tel3 d \<Longrightarrow> dbLinks d' = dbLinks d"
  by (simp add: tel3_def)

lemma other_moves_links: "\<not> linkMove m \<Longrightarrow> dbLinks (hsDB (access_step hash m s)) = dbLinks (hsDB s)"
  by (cases m) (simp_all add: db_frame [THEN untouched_links] MagicVerify_frame [THEN adds_links] Callback_frame [THEN adds_links]
      store_frame [THEN tel3_links] hh_frame [THEN hhOnly_links] SetTimezone_frame [THEN hhOnly_links]
      UpdateName_def SetCallHistoryEnabled_def)

text \<open>Where a row comes from in one step.\<close>

definition sameLink :: "LinkRow \<Rightarrow> LinkRow \<Rightarrow> bool" where
  "sameLink l l' \<longleftrightarrow> lkCode l' = lkCode l \<and> lkA l' = lkA l \<and> lkB l' = lkB l \<and> lkStatus l' = lkStatus l"

lemma step_link:
  assumes l': "l' \<in> set (dbLinks (hsDB (access_step hash m s)))"
  obtains (kept) l where "l \<in> set (dbLinks (hsDB s))" "sameLink l l'"
    | (revoked) "lkStatus l' = LinkStatusRevoked"
    | (invited) "lkStatus l' = LinkStatusPending" "invitesWith m = Some (lkCode l', lkA l')"
    | (linked) l h where "l \<in> set (dbLinks (hsDB s))" "lkStatus l = LinkStatusPending" "lkCode l' = lkCode l"
        "acceptsWith m = Some (lkCode l, h)" "lkStatus l' = LinkStatusActive" "(lkA l', the (lkB l')) = ordered (lkA l) h"
proof (cases "linkMove m")
  case False
  then show ?thesis using l' kept [of l'] by (simp add: other_moves_links sameLink_def)
next
  case True
  then show ?thesis
  proof (cases m)
    case (AmLinkInvite ok c l now h u)
    then show ?thesis using l' kept [of l'] invited
      by (auto simp: CreateLinkInvite_def Let_def sameLink_def split: option.splits if_splits)
  next
    case (AmAcceptLink f now c u h)
    show ?thesis
    proof (cases rule: AcceptLinkInvite_cases [of f now c u h "hsDB s"])
      case (failed e)
      then show ?thesis using l' AmAcceptLink kept [of l'] by (simp add: sameLink_def)
    next
      case (linked l a b)
      then obtain q where q: "q \<in> set (dbLinks (hsDB s))" "l' = (if lkID q = lkID l then
          l\<lparr>lkA := a, lkB := Some b, lkStatus := LinkStatusActive, lkAcceptedBy := Some u, lkAcceptedAt := Some now\<rparr> else q)"
        using l' AmAcceptLink by (auto simp: in_updRows)
      show ?thesis
      proof (cases "lkID q = lkID l")
        case True
        then show ?thesis using q linked AmAcceptLink that(4) [of l h] by simp
      next
        case False
        then show ?thesis using q kept [of q] by (simp add: sameLink_def)
      qed
    qed
  next
    case (AmRevokeLink ok now l u)
    then show ?thesis using l' kept [of l'] revoked
      by (auto simp: RevokeLink_def Let_def sameLink_def in_updRows split: if_splits)
  next
    case (AmDeleteUser ok u)
    then show ?thesis using l' kept
      by (auto simp: DeleteUser_def deleteUserRow_def sameLink_def split: if_splits)
  next
    case (AmDeleteHousehold f h)
    have "l' \<in> set (dbLinks (hsDB s))"
      by (cases rule: DeleteHousehold_cases [of f h s])
        (use l' AmDeleteHousehold in \<open>auto simp: deleteHouseholdRow_def deleteLines_def Let_def\<close>)
    then show ?thesis using kept [of l'] by (simp add: sameLink_def)
  qed simp_all
qed

definition linkOrigin :: "accessMove list \<Rightarrow> LinkRow \<Rightarrow> bool" where
  "linkOrigin ms l \<longleftrightarrow>
     (lkStatus l = LinkStatusPending \<longrightarrow> (\<exists>m \<in> set ms. invitesWith m = Some (lkCode l, lkA l)))
   \<and> (lkStatus l = LinkStatusActive \<longrightarrow> (\<exists>m1 m2 h h'. subseq [m1, m2] ms \<and> invitesWith m1 = Some (lkCode l, h)
        \<and> acceptsWith m2 = Some (lkCode l, h') \<and> {h, h'} = {lkA l, the (lkB l)}))"

lemma subseq_later: "subseq xs ys \<Longrightarrow> subseq xs (ys @ zs)"
  using subseq_order.trans by (metis subseq_rev_drop_many)

lemma subseq_pair: "m1 \<in> set ms \<Longrightarrow> subseq [m1, m2] (ms @ [m2])"
  by (induction ms) auto

lemma runAccess_snoc: "runAccess hash (ms @ [m]) = access_step hash m (runAccess hash ms)"
  by (simp add: runAccess_def)

lemma link_origin: "l \<in> set (dbLinks (hsDB (runAccess hash ms))) \<Longrightarrow> linkOrigin ms l"
proof (induction ms arbitrary: l rule: rev_induct)
  case Nil
  then show ?case by (simp add: runAccess_def newHStore_def emptyDB_def)
next
  case (snoc m ms)
  from snoc.prems show ?case unfolding runAccess_snoc
  proof (cases rule: step_link)
    case (kept l0)
    then show ?thesis using snoc.IH [OF kept(1)] unfolding linkOrigin_def sameLink_def
      by (fastforce intro: subseq_later)
  next
    case revoked
    then show ?thesis by (simp add: linkOrigin_def link_status)
  next
    case invited
    then show ?thesis by (simp add: linkOrigin_def link_status)
  next
    case (linked l0 h)
    obtain m1 where m1: "m1 \<in> set ms" "invitesWith m1 = Some (lkCode l0, lkA l0)"
      using snoc.IH [OF linked(1)] linked(2) by (auto simp: linkOrigin_def)
    have "{lkA l0, h} = {lkA l, the (lkB l)}" using linked(6) by (auto simp: ordered_def split: if_splits)
    moreover have "subseq [m1, m] (ms @ [m])" by (rule subseq_pair [OF m1(1)])
    moreover have "invitesWith m1 = Some (lkCode l, lkA l0)" "acceptsWith m = Some (lkCode l, h)" "lkStatus l \<noteq> LinkStatusPending"
      using linked m1 by (simp_all add: link_status)
    ultimately show ?thesis unfolding linkOrigin_def by blast
  qed
qed

lemma link_statuses:
  "l \<in> set (dbLinks (hsDB (runAccess hash ms)))
     \<Longrightarrow> lkStatus l = LinkStatusPending \<or> lkStatus l = LinkStatusActive \<or> lkStatus l = LinkStatusRevoked"
proof (induction ms arbitrary: l rule: rev_induct)
  case Nil
  then show ?case by (simp add: runAccess_def newHStore_def emptyDB_def)
next
  case (snoc m ms)
  from snoc.prems show ?case unfolding runAccess_snoc
  proof (cases rule: step_link)
    case (kept l0)
    then show ?thesis using snoc.IH [OF kept(1)] by (simp add: sameLink_def)
  qed simp_all
qed



section \<open>Revoking\<close>

lemma find_key: "distinct (map k xs) \<Longrightarrow> find (\<lambda>x. k x = n) xs = Some y \<Longrightarrow> y \<in> set xs \<and> k y = n"
  by (auto simp: find_Some_iff)

lemma Revoke_Inr:
  assumes "RevokeLink ok now lid u d = (Inr x, d')"
  shows "d' = d\<lparr>dbLinks := updRows (\<lambda>l. lkID l = lid \<and> lkStatus l \<noteq> LinkStatusRevoked)
      (\<lambda>l. l\<lparr>lkStatus := LinkStatusRevoked, lkRevokedAt := Some now, lkRevokedBy := Some u\<rparr>) (dbLinks d)\<rparr>"
  using assms by (simp add: RevokeLink_def Let_def split: if_splits)

lemma revoked_none:
  assumes ok: "links_ok (dbLinks d)" and l: "l \<in> set (dbLinks d)" "lkID l = lid" "lkB l = Some b"
    and r: "RevokeLink k now lid u d = (Inr x, d')" "lkStatus l = LinkStatusActive"
  shows "\<not> list_ex (joins (lkA l) b) (dbLinks d')"
proof
  have kB: "lkA l < b" using ok l r(2) unfolding links_ok_def by force
  assume "list_ex (joins (lkA l) b) (dbLinks d')"
  then obtain q where q: "q \<in> set (dbLinks d)" "lkStatus q = LinkStatusActive" "\<not> lkID q = lid"
    "joins (lkA l) b q"
  proof -
    obtain q' q where q: "q \<in> set (dbLinks d)" "joins (lkA l) b q'"
      "q' = (if lkID q = lid \<and> lkStatus q \<noteq> LinkStatusRevoked
         then q\<lparr>lkStatus := LinkStatusRevoked, lkRevokedAt := Some now, lkRevokedBy := Some u\<rparr> else q)"
      using \<open>list_ex (joins (lkA l) b) (dbLinks d')\<close> unfolding Revoke_Inr [OF r(1)] by (auto simp: list_ex_iff in_updRows)
    then have "\<not> (lkID q = lid \<and> lkStatus q \<noteq> LinkStatusRevoked)"
      by (cases "lkID q = lid \<and> lkStatus q \<noteq> LinkStatusRevoked") (simp_all add: joins_def link_status)
    then have "q' = q" "lkID q \<noteq> lid" using q by (auto simp: joins_def link_status)
    then show ?thesis using q that by (auto simp: joins_def)
  qed
  then have "lkA q = lkA l" "lkB q = Some b" using joins_ordered [OF ok q(1)] kB by (auto simp: activeLink_def ordered_def)
  then have "q = l" using ok l q r(2) unfolding links_ok_def by metis
  then show False using q l by simp
qed

text \<open>
  A revoked link cuts the calls off at once.  In a reachable state, when the web page reports
  a link as revoked, the user is an administrator of a household on one of its two ends, and from
  then on the authorizer refuses every call between the two, in both directions.
\<close>
theorem revoked_link_cuts_off:
  assumes "accessRun hash ms" and "d = hsDB (runAccess hash ms)"
    and "find (\<lambda>l. lkID l = lid) (dbLinks d) = Some l" and "lkB l = Some b"
    and "handleLinksRevokePost f now admin lid u d = (PageRevoked, d')"
    and "GetLineByNumber True n1 d' = Inr l1" and "lnHousehold l1 = lkA l"
    and "GetLineByNumber True n2 d' = Inr l2" and "lnHousehold l2 = b"
  shows "CanCall True d' n1 n2 = Some False \<and> CanCall True d' n2 n1 = Some False
    \<and> (isMember u (lkA l) d \<and> admin (lkA l) \<or> isMember u b d \<and> admin b)"
proof -
  have ok: "access_ok (runAccess hash ms)" by (rule accessRun_ok [OF assms(1)])
  note L = access_okD(1) [OF ok, folded assms(2)]
  have l: "l \<in> set (dbLinks d)" "lkID l = lid" using assms(3) by (auto simp: find_Some_iff)
  have get: "GetLinkByID (f 0) lid d = Inr l"
    using assms(3,5) by (auto simp: handleLinksRevokePost_def GetLinkByID_def scanLink_def split: if_splits)
  obtain hs where hs: "GetForUser (f 1) u d = Inr hs" "list_ex (\<lambda>h. (hhID h = lkA l \<or> lkB l = Some (hhID h)) \<and> admin (hhID h)) hs"
    and rv: "RevokeLink (f 2) now lid u d = (Inr (), d')" and np: "lkStatus l \<noteq> LinkStatusPending"
    using assms(5) get by (auto simp: handleLinksRevokePost_def split: sum.splits prod.splits if_splits)
  obtain q where q: "q \<in> set (dbLinks d)" "lkID q = lid" "lkStatus q \<noteq> LinkStatusRevoked"
    using rv by (auto simp: RevokeLink_def Let_def list_ex_iff split: if_splits)
  have "q = l" using q l access_okD(5) [OF ok, folded assms(2)] by (auto simp: distinct_map dest: inj_onD)
  then have act: "lkStatus l = LinkStatusActive" using q(3) np link_statuses l(1) assms(2) by blast
  note none = revoked_none [OF L l assms(4) rv act]
  have lines: "dbLines d' = dbLines d" using Revoke_Inr [OF rv] by simp
  have dist: "distinct (map lnNumber (dbLines d'))" using access_okD(4) [OF ok] assms(2) lines by simp
  have ne: "lkA l \<noteq> b" using L l(1) assms(4) act unfolding links_ok_def by force
  have sym: "list_ex (joins b (lkA l)) ls = list_ex (joins (lkA l) b) ls" for ls
    by (rule list_ex_cong [OF refl]) (auto simp: joins_def)
  have "CanCall True d' n1 n2 = Some False" "CanCall True d' n2 n1 = Some False"
    using none ne by (simp_all add: CanCall_def line_of_number [OF dist] assms(6-9) sym)
  moreover have "isMember u (hhID h) d" if "h \<in> set hs" for h
    using hs(1) that by (fastforce simp: GetForUser_def GetForUserWithRoles_def isMember_def list_ex_iff split: if_splits)
  ultimately show ?thesis using hs(2) assms(4) unfolding list_ex_iff by (metis option.inject)
qed

theorem revoked_link_cuts_off_witness:
  "\<exists>d'. handleLinksRevokePost (\<lambda>_. True) 9 (\<lambda>h. h = ''hb'') ''l1'' ''ub'' (hsDB (runAccess id familyMoves)) = (PageRevoked, d')
     \<and> CanCall True d' ''100'' ''200'' = Some False \<and> CanCall True d' ''200'' ''100'' = Some False"
proof -
  let ?d = "hsDB (runAccess id familyMoves)" and ?l = "hd (dbLinks (hsDB (runAccess id familyMoves)))"
  let ?r = "handleLinksRevokePost (\<lambda>_. True) 9 (\<lambda>h. h = ''hb'') ''l1'' ''ub'' ?d"
  have "fst ?r = PageRevoked" by code_simp
  then have r: "?r = (PageRevoked, snd ?r)" by (metis prod.collapse)
  have l: "find (\<lambda>l. lkID l = ''l1'') (dbLinks ?d) = Some ?l" "lkB ?l = Some ''hb''" by code_simp+
  have n: "GetLineByNumber True ''100'' (snd ?r) = Inr \<lparr>lnID = 1, lnNumber = ''100'', lnName = ''kitchen'', lnHousehold = ''ha''\<rparr>"
    "GetLineByNumber True ''200'' (snd ?r) = Inr \<lparr>lnID = 2, lnNumber = ''200'', lnName = ''hall'', lnHousehold = ''hb''\<rparr>"
    "''ha'' = lkA ?l" by code_simp+
  show ?thesis using revoked_link_cuts_off [OF family_run refl l r n(1) _ n(2)] n(3) r by auto
qed

section \<open>Calls through the relay\<close>

text \<open>What the relay sends besides: nothing but to the caller, and no ring.\<close>

definition tellsOnly :: "string \<Rightarrow> relayOut \<Rightarrow> bool" where
  "tellsOnly n e = (case e of ToLine m msg \<Rightarrow> m = n \<and> mType msg \<noteq> TypeRing | ToHardware _ _ \<Rightarrow> False | _ \<Rightarrow> True)"

text \<open>
  C25: Strangers cannot ring.  With the authorizer of the stores in the relay, a call from one
  number to another that is neither in the same household nor in a linked one, or whose check
  fails, starts no call and rings nobody: the tracker stays as it is, and the only messages go
  back to the caller.
\<close>
theorem strangers_cannot_ring:
  assumes "accessRun hash ms" and "d = hsDB (runAccess hash ms)" and "wCanCall w = Some (CanCall ok d)"
    and "\<not> mayCall d src (mTo msg)"
  shows "rTr (handleCall w src msg r) = rTr r
    \<and> (\<exists>es. rOut (handleCall w src msg r) = rOut r @ es \<and> list_all (tellsOnly src) es)"
proof -
  have no: "CanCall ok d src (mTo msg) \<noteq> Some True"
    using CanCall_ok [OF accessRun_ok [OF assms(1)], of src "mTo msg"] assms(2,4)
    by (cases ok) (simp_all add: CanCall_def)
  have sends: "rTr (sendLine w n m r) = rTr r" "rOut (sendLine w n m r) = rOut r @ [ToLine n m]" for n m r
    by (simp_all add: sendLine_def sendResult_def relayEmit_def split: prod.split)
  have "handleCall w src msg r = sendError w src ''phone not connected'' r
      \<or> handleCall w src msg r = sendBusy w src (mTo msg) r
      \<or> handleCall w src msg r = sendError w src ''not_authorized'' (observeError w ''auth_failed'' r)"
    using no by (simp add: handleCall_def assms(3) Let_def)
  then show ?thesis
    by (elim disjE) (auto simp: sendError_def sendBusy_def sends tellsOnly_def observeError_def relayEmit_def
        TypeRing_def TypeBusy_def TypeError_def)
qed

theorem strangers_cannot_ring_witness:
  "let w = calmWorld\<lparr>wCanCall := Some (CanCall True (hsDB (runAccess id (take 9 familyMoves))))\<rparr>;
       r = fold relay_step [plug ''a'' ''100'', plug ''b'' ''200''] (freshRelay True True True)
   in rTr (handleCall w ''100'' (zeroMessage\<lparr>mType := TypeCall, mTo := ''200''\<rparr>) r) = rTr r
    \<and> list_ex (\<lambda>e. case e of ToLine n m \<Rightarrow> n = ''100'' \<and> mError m = ''not_authorized'' | _ \<Rightarrow> False)
        (rOut (handleCall w ''100'' (zeroMessage\<lparr>mType := TypeCall, mTo := ''200''\<rparr>) r))"
proof -
  let ?w = "calmWorld\<lparr>wCanCall := Some (CanCall True (hsDB (runAccess id (take 9 familyMoves))))\<rparr>"
  let ?r = "fold relay_step [plug ''a'' ''100'', plug ''b'' ''200''] (freshRelay True True True)"
  let ?m = "zeroMessage\<lparr>mType := TypeCall, mTo := ''200''\<rparr>"
  have run: "accessRun id (take 9 familyMoves)" unfolding accessRun_def by code_simp
  have may: "\<not> mayCall (hsDB (runAccess id (take 9 familyMoves))) ''100'' (mTo ?m)" by code_simp
  have out: "list_ex (\<lambda>e. case e of ToLine n m \<Rightarrow> n = ''100'' \<and> mError m = ''not_authorized'' | _ \<Rightarrow> False)
        (rOut (handleCall ?w ''100'' ?m ?r))" by code_simp
  have "wCanCall ?w = Some (CanCall True (hsDB (runAccess id (take 9 familyMoves))))" by simp
  from strangers_cannot_ring [OF run refl this may, of ?r] out show ?thesis by (simp add: Let_def)
qed

end
