(* ===== verification/Access_Tokens.thy ===== *)
theory Access_Tokens
  imports Access_Links
begin

text \<open>
  Tokens that work once, accounts that stay shut.  A handler that signs a user in is a chain of
  store operations; what each of them keeps, the handlers keep (locale \<open>sign_in_keeps\<close>).
\<close>

section \<open>What the sign-in handlers keep\<close>

locale sign_in_keeps =
  fixes P :: "DB \<Rightarrow> bool" and newUid :: "string \<Rightarrow> bool"
  assumes keeps_create: "newUid uid \<Longrightarrow> P d \<Longrightarrow> P (snd (CreateUser f uid now a n g d))"
    and keeps_login: "P d \<Longrightarrow> P (snd (UpdateLastLogin ok now u d))"
    and keeps_google: "P d \<Longrightarrow> P (snd (LinkGoogleID ok u gid d))"
    and keeps_session: "P d \<Longrightarrow> P (snd (CreateSession f hash tok sid now u ttl d))"
    and keeps_magic: "P d \<Longrightarrow> P (snd (ValidateMagicLink ok hash now t d))"
begin

lemma get_or_create: "newUid uid \<Longrightarrow> P d \<Longrightarrow> P (snd (GetOrCreateUserByEmail f uid now a d))"
  using keeps_create [of uid d "\<lambda>i. f (i + 1)" now a "[]" None]
  by (auto simp: GetOrCreateUserByEmail_def split: sum.split dbErr.split prod.split)

lemma sign_in_tail: "P d \<Longrightarrow> P (snd (CreateSession f hash tok sid now u ttl (snd (UpdateLastLogin ok now u d))))"
  by (intro keeps_session keeps_login)

lemma verify: "newUid uid \<Longrightarrow> P d \<Longrightarrow> P (snd (HandleMagicLinkVerify f hash tok uid sid now t d))"
proof (cases "ValidateMagicLink (f 0) hash now t d")
  case V: (Pair v d1)
  assume new: "newUid uid" and "P d"
  then have 1: "P d1" using keeps_magic [of d "f 0" hash now t] V by simp
  show ?thesis
  proof (cases v)
    case (Inr p)
    obtain a r where p: "p = (a, r)" by (cases p)
    obtain g d2 where G: "GetOrCreateUserByEmail (\<lambda>i. f (i + 1)) uid now a d1 = (g, d2)" by fastforce
    then have 2: "P d2" using get_or_create [OF new 1, of "\<lambda>i. f (i + 1)" now a] by simp
    have "snd (HandleMagicLinkVerify f hash tok uid sid now t d)
        = (case g of Inl e \<Rightarrow> d2 | Inr (u, b) \<Rightarrow> snd (CreateSession (\<lambda>i. f (i + 4)) hash tok sid now (usID u) SessionTTL
             (snd (UpdateLastLogin (f 3) now (usID u) d2))))"
      using V Inr p G by (simp add: HandleMagicLinkVerify_def Let_def snd_case_session split: sum.split prod.split)
    then show ?thesis using 2 by (auto split: sum.split intro: sign_in_tail)
  qed (use V 1 in \<open>auto simp: HandleMagicLinkVerify_def\<close>)
qed

lemma google_user: "newUid uid \<Longrightarrow> P d \<Longrightarrow> P (snd (googleUser f uid now info d))"
  using keeps_create [of uid d "\<lambda>i. f (i + 3)" now "guEmail info" "guName info" "Some (guID info)"]
  by (auto simp: googleUser_def keeps_google case_not_found split: sum.split if_splits prod.split)

lemma callback: "newUid uid \<Longrightarrow> P d \<Longrightarrow> P (snd (HandleCallback f hash tok uid sid now cookie r st info d))"
proof (cases info)
  case (Some i)
  assume new: "newUid uid" and d: "P d"
  obtain g d2 where G: "googleUser f uid now i d = (g, d2)" by fastforce
  then have 2: "P d2" using google_user [OF new d, of f now i] by simp
  have "snd (HandleCallback f hash tok uid sid now cookie r st info d)
      = (if cookie \<noteq> Some st \<or> \<not> guVerified i then d
         else case g of Inl e \<Rightarrow> d2 | Inr u \<Rightarrow> snd (CreateSession (\<lambda>i. f (i + 5)) hash tok sid now (usID u) SessionTTL
             (snd (UpdateLastLogin (f 4) now (usID u) d2))))"
    using Some G by (simp add: HandleCallback_def Let_def snd_case_session split: sum.split prod.split)
  then show ?thesis using 2 d by (auto split: sum.split intro: sign_in_tail)
qed (simp add: HandleCallback_def)

end

section \<open>Disabled accounts\<close>

definition shut :: "string \<Rightarrow> DB \<Rightarrow> bool" where
  "shut u d \<longleftrightarrow> (\<forall>r \<in> set (dbUsers d). usID r = u \<longrightarrow> usDisabledAt r \<noteq> None) \<and> (\<forall>s \<in> set (dbSessions d). seUser s \<noteq> u)"

lemma shut_upd:
  assumes "shut u d" "\<And>r. usID (g r) = usID r" "\<And>r. usDisabledAt (g r) = usDisabledAt r"
  shows "shut u (snd (updUser ok v g d))"
  using assms by (auto simp: shut_def updUser_def in_updRows)

lemma shut_sessions:
  assumes "shut u d" "dbUsers d' = dbUsers d" "map seUser (dbSessions d') = map seUser (dbSessions d)"
  shows "shut u d'"
proof -
  have "seUser ` set (dbSessions d') = seUser ` set (dbSessions d)" using arg_cong [OF assms(3), of set] by simp
  then have "v \<in> seUser ` set (dbSessions d)" if "v \<in> seUser ` set (dbSessions d')" for v using that by simp
  then show ?thesis using assms(1,2) unfolding shut_def by (metis imageE image_eqI)
qed

lemma shut_session: "shut u d \<Longrightarrow> shut u (snd (CreateSession f hash tok sid now v ttl d))"
  by (auto simp: shut_def CreateSession_def Let_def list_ex_iff split: option.split)

interpretation shut: sign_in_keeps "shut u" "\<lambda>uid. uid \<noteq> u"
proof
  show "shut u (snd (CreateUser f uid now a n g d))" if "uid \<noteq> u" "shut u d" for uid d f now a n g
    using that by (auto simp: CreateUser_def Let_def shut_def)
  show "shut u (snd (LinkGoogleID ok v gid d))" if "shut u d" for ok v gid d
    using that by (simp add: LinkGoogleID_def shut_upd)
  show "shut u (snd (CreateSession f hash tok sid now v ttl d))" if "shut u d" for f hash tok sid now v ttl d
    using that by (rule shut_session)
  show "shut u (snd (ValidateMagicLink ok hash now t d))" if "shut u d" for ok hash now t d
    using that by (simp add: ValidateMagicLink_def shut_def split: option.split)
qed (simp add: UpdateLastLogin_def shut_upd)

text \<open>The moves that could let a user in again.\<close>

fun readmits :: "string \<Rightarrow> accessMove \<Rightarrow> bool" where
  "readmits u (AmSetDisabled f now v b) \<longleftrightarrow> v = u \<and> \<not> b"
| "readmits u (AmMagicVerify f tok uid sid now t) \<longleftrightarrow> uid = u"
| "readmits u (AmGoogle f tok uid sid now cookie r st info) \<longleftrightarrow> uid = u"
| "readmits u _ \<longleftrightarrow> False"

lemma shut_SetDisabled:
  assumes "shut u d" "v = u \<longrightarrow> b"
  shows "shut u (snd (SetDisabled f now v b d))"
proof (cases "snd (SetDisabled f now v b d) = d")
  case False
  let ?g = "\<lambda>r. r\<lparr>usDisabledAt := if b then Some now else None\<rparr>"
  have "\<exists>p. dbUsers (snd (SetDisabled f now v b d)) = updRows p ?g (dbUsers d) \<and> (\<forall>r. p r \<longrightarrow> usID r = v)"
    "set (dbSessions (snd (SetDisabled f now v b d))) \<subseteq> set (dbSessions d)"
    using False unfolding SetDisabled_def by (auto simp: WithTx_def Let_def split: if_splits)
  then show ?thesis using assms by (fastforce simp: shut_def in_updRows)
qed (use assms in simp)

lemma shut_magic_request: "shut u d \<Longrightarrow> shut u (snd (HandleMagicLinkRequest f hash tok now allowed ck email r hp d))"
  by (auto simp: HandleMagicLinkRequest_def CreateMagicLink_def Let_def shut_def split: option.split sum.split bool.split dbErr.split)

lemma shut_steps:
  assumes "shut u d"
  shows "shut u (snd (RequireAuth f hash now cookie d))" "shut u (snd (HandleLogout ok hash cookie r d))"
    "shut u (snd (DeleteUser ok v d))" "shut u (snd (SetActiveHousehold ok hash now t h d))"
    "shut u (snd (SetThemeAndMarkChosen ok v th d))" "shut u (snd (cleanupExpiredAuth f now d))"
    "shut u (deleteHouseholdRow h d)"
proof -
  have ref: "shut u (snd (ValidateAndRefreshSession ok hash now t ttl d))" for ok t ttl
    using assms by (auto simp: ValidateAndRefreshSession_def intro!: shut_sessions [OF assms] split: option.split)
  show "shut u (snd (RequireAuth f hash now cookie d))"
  proof (cases cookie)
    case (Some t)
    have "snd (RequireAuth f hash now cookie d) = snd (ValidateAndRefreshSession (f 0) hash now t SessionTTL d)"
      using Some by (simp add: RequireAuth_def split: prod.split sum.split)
    then show ?thesis using ref by simp
  qed (use assms in \<open>simp add: RequireAuth_def\<close>)
  show "shut u (snd (HandleLogout ok hash cookie r d))"
    using assms by (auto simp: HandleLogout_def DeleteSession_def shut_def split: option.split)
  show "shut u (snd (DeleteUser ok v d))" using assms by (auto simp: DeleteUser_def deleteUserRow_def shut_def)
  show "shut u (snd (SetActiveHousehold ok hash now t h d))"
    using assms by (auto simp: SetActiveHousehold_def intro!: shut_sessions [OF assms])
  have "snd (SetThemeAndMarkChosen ok v th d)
      = (if themeValid th then snd (updUser ok v (\<lambda>u. u\<lparr>usTheme := th, usThemeChosen := True\<rparr>) d) else d)"
    by (simp add: SetThemeAndMarkChosen_def split: prod.split sum.split option.split)
  then show "shut u (snd (SetThemeAndMarkChosen ok v th d))" using assms by (simp add: shut_upd)
  show "shut u (snd (cleanupExpiredAuth f now d))" using assms by (auto simp: cleanupExpiredAuth_def Let_def shut_def)
  show "shut u (deleteHouseholdRow h d)"
    using assms by (auto simp: deleteHouseholdRow_def deleteLines_def Let_def intro!: shut_sessions [OF assms])
qed

section \<open>Moves that leave the accounts alone\<close>

definition acct :: "DB \<Rightarrow> UserRow list \<times> SessionRow list \<times> MagicRow list" where
  "acct d = (dbUsers d, dbSessions d, dbMagic d)"

fun acctMove :: "accessMove \<Rightarrow> bool" where
  "acctMove (AmMagicRequest f tok now allowed ck email r hp) = True"
| "acctMove (AmMagicVerify f tok uid sid now t) = True"
| "acctMove (AmGoogle f tok uid sid now cookie r st info) = True"
| "acctMove (AmRequireAuth f now cookie) = True"
| "acctMove (AmLogout ok cookie r) = True"
| "acctMove (AmSetDisabled f now u b) = True"
| "acctMove (AmDeleteUser ok u) = True"
| "acctMove (AmSetActive ok now t h) = True"
| "acctMove (AmTheme ok u t) = True"
| "acctMove (AmCleanupAuth f now) = True"
| "acctMove (AmDeleteHousehold f h) = True"
| "acctMove _ = False"

lemma upsert_acct: "upsertMember u h role d = Some d' \<Longrightarrow> acct d' = acct d"
  by (auto simp: upsertMember_def acct_def split: if_splits)

lemma acct_more [simp]:
  "acct (d\<lparr>dbHouseholds := hs\<rparr>) = acct d" "acct (d\<lparr>dbInvites := is\<rparr>) = acct d" "acct (d\<lparr>dbLinks := ls\<rparr>) = acct d"
  "acct (d\<lparr>dbLines := ns\<rparr>) = acct d" "acct (d\<lparr>dbDevices := vs\<rparr>) = acct d" "acct (d\<lparr>dbMembers := ms\<rparr>) = acct d"
  by (simp_all add: acct_def)

lemma store_acct:
  "acct (hsDB (snd (CreateHousehold f h now nm u s))) = acct (hsDB s)"
  "acct (hsDB (snd (RedeemInvite f now t u email s))) = acct (hsDB s)"
  "acct (hsDB (snd (AddMember ok u h role s))) = acct (hsDB s)"
  "acct (hsDB (snd (RemoveMember ok u h s))) = acct (hsDB s)"
  "acct (hsDB (snd (NeedsOnboarding ok u s))) = acct (hsDB s)"
proof -
  show "acct (hsDB (snd (CreateHousehold f h now nm u s))) = acct (hsDB s)"
    by (cases rule: CreateHousehold_cases [of f h now nm u s]) (auto dest: upsert_acct)
  show "acct (hsDB (snd (RedeemInvite f now t u email s))) = acct (hsDB s)"
    by (cases rule: RedeemInvite_cases [of f now t u email s]) (auto dest: upsert_acct)
  show "acct (hsDB (snd (AddMember ok u h role s))) = acct (hsDB s)"
    by (auto simp: AddMember_def upsert_acct split: option.split)
qed (auto simp: RemoveMember_def NeedsOnboarding_def split: sum.split)

lemma row_acct:
  "acct (snd (updHousehold ok h hg d)) = acct d" "acct (snd (SetTimezone ok ld h tz d)) = acct d"
  "acct (snd (CreateInvite ok tok i now h a u d)) = acct d" "acct (snd (AcceptInvite ok now t d)) = acct d"
  "acct (snd (CancelInvite ok i d)) = acct d" "acct (snd (CreateLinkInvite ok c l now h u d)) = acct d"
  "acct (snd (RevokeLink ok now l u d)) = acct d" "acct (snd (AddLine ok ln n nm h d)) = acct d"
  "acct (snd (UpdateLine ok ln n nm d)) = acct d" "acct (snd (DeleteLine ok ln d)) = acct d"
  "acct (snd (GenerateCode ok c dv now hw d)) = acct d" "acct (snd (cleanupExpiredCodes ok now d)) = acct d"
  "acct (snd (Unpair ok hw d)) = acct d" "acct (snd (Reassign ok dv ln d)) = acct d"
  "acct (snd (TouchLastSeenDB ok now hw d)) = acct d"
  by (simp_all add: SetTimezone_def updHousehold_def CreateInvite_def AcceptInvite_def CancelInvite_def CreateLinkInvite_def
      RevokeLink_def AddLine_def UpdateLine_def DeleteLine_def deleteLines_def GenerateCode_def cleanupExpiredCodes_def
      Unpair_def Reassign_def TouchLastSeenDB_def Let_def split: option.split)

lemma tx_acct:
  "acct (snd (AcceptLinkInvite f now c u h d)) = acct d"
  "acct (snd (ClaimDevice f hash tok lid now code n ln dn h d)) = acct d"
  "acct (snd (ClaimDeviceToLine f hash tok now code lid dn h d)) = acct d"
  subgoal by (cases rule: AcceptLinkInvite_cases [of f now c u h d]; simp)
  subgoal by (cases rule: ClaimDevice_cases [of f hash tok lid now code n ln dn h d]; simp)
  subgoal by (cases rule: ClaimDeviceToLine_cases [of f hash tok now code lid dn h d]; simp)
  done

lemma other_acct: "\<not> acctMove m \<Longrightarrow> acct (hsDB (access_step hash m s)) = acct (hsDB s)"
  by (cases m) (simp_all add: store_acct row_acct tx_acct UpdateName_def SetCallHistoryEnabled_def)

lemma shut_kept: "shut u d \<Longrightarrow> acct d' = acct d \<Longrightarrow> shut u d'"
  by (simp add: shut_def acct_def)

lemma shut_step:
  assumes "shut u (hsDB s)" "\<not> readmits u m"
  shows "shut u (hsDB (access_step hash m s))"
proof (cases "acctMove m")
  case False
  then show ?thesis using assms(1) other_acct by (blast intro: shut_kept)
next
  case True
  have del: "shut u (hsDB (snd (DeleteHousehold f h s)))" for f h
    by (cases rule: DeleteHousehold_cases [of f h s]) (use assms(1) in \<open>simp_all add: shut_steps\<close>)
  show ?thesis using True assms
    by (cases m) (simp_all add: shut.verify shut.callback shut_SetDisabled shut_magic_request shut_steps del)
qed

lemma shut_run: "shut u (hsDB s) \<Longrightarrow> list_all (\<lambda>m. \<not> readmits u m) ms \<Longrightarrow> shut u (hsDB (fold (access_step hash) ms s))"
  by (induction ms arbitrary: s) (auto intro: shut_step)

lemma SetDisabled_shuts:
  assumes "SetDisabled f now u True d = (Inr x, d')"
  shows "shut u d'"
proof -
  have "d' = d\<lparr>dbUsers := updRows (\<lambda>r. usID r = u \<and> usDisabledAt r = None) (\<lambda>r. r\<lparr>usDisabledAt := Some now\<rparr>) (dbUsers d),
      dbSessions := filter (\<lambda>s. seUser s \<noteq> u) (dbSessions d)\<rparr>"
    using assms by (simp add: SetDisabled_def WithTx_Inr Let_def split: if_splits)
  then have u: "dbUsers d' = map (\<lambda>r. if usID r = u \<and> usDisabledAt r = None then r\<lparr>usDisabledAt := Some now\<rparr> else r) (dbUsers d)"
    and s: "dbSessions d' = filter (\<lambda>s. seUser s \<noteq> u) (dbSessions d)" by (simp_all add: updRows_def)
  have "usDisabledAt r \<noteq> None" if r: "r \<in> set (dbUsers d')" "usID r = u" for r
  proof -
    obtain q where q: "r = (if usID q = u \<and> usDisabledAt q = None then q\<lparr>usDisabledAt := Some now\<rparr> else q)"
      using r(1) unfolding u set_map by blast
    then show ?thesis using r(2) by (cases "usID q = u \<and> usDisabledAt q = None") auto
  qed
  then show ?thesis by (simp add: shut_def s)
qed

lemma find_in: "find p xs = Some x \<Longrightarrow> x \<in> set xs \<and> p x"
  by (auto simp: find_Some_iff)

lemma RequireAuth_Inr:
  assumes "fst (RequireAuth f hash now cookie d) = Inr v"
  obtains s where "s \<in> set (dbSessions d)" "usID v = seUser s"
proof -
  obtain t s where t: "cookie = Some t" "fst (ValidateAndRefreshSession (f 0) hash now t SessionTTL d) = Inr s"
    "\<exists>d'. GetUserByID (f 1) (seUser s) d' = Inr v"
    using assms by (fastforce simp: RequireAuth_def split: option.splits prod.splits sum.splits if_splits)
  then obtain q where "find (liveSession (hash t) now) (dbSessions d) = Some q" "s = q\<lparr>seExpires := now + SessionTTL\<rparr>"
    by (auto simp: ValidateAndRefreshSession_def split: if_splits option.splits)
  then have "q \<in> set (dbSessions d)" "seUser s = seUser q" by (auto dest: find_in)
  moreover have "usID v = seUser s"
    using t(3) by (auto simp: GetUserByID_def queryUser_def find_Some_iff split: if_splits option.splits)
  ultimately show ?thesis using that by simp
qed

text \<open>
  C26: A disabled account is shut out for good.  After an account is disabled, whatever the
  stores and the sign-in handlers do, short of enabling it again, there is never again a session
  of that user, so no browser is let in under it, whatever cookie it presents and whatever
  statement of the check fails.
\<close>
theorem disabled_user_shut_out:
  assumes "SetDisabled f now u True (hsDB s) = (Inr x, d)" and "list_all (\<lambda>m. \<not> readmits u m) ms"
    and "d' = hsDB (fold (access_step hash) ms (s\<lparr>hsDB := d\<rparr>))"
  shows "filter (\<lambda>s. seUser s = u) (dbSessions d') = []
    \<and> (case fst (RequireAuth g hash now' cookie d') of Inl outs \<Rightarrow> True | Inr v \<Rightarrow> usID v \<noteq> u)"
proof -
  have "shut u d'" unfolding assms(3) by (rule shut_run) (simp_all add: assms(2) SetDisabled_shuts [OF assms(1)])
  then show ?thesis
    by (auto simp: shut_def filter_empty_conv split: sum.split elim!: RequireAuth_Inr)
qed

theorem disabled_user_shut_out_witness:
  "let s = runAccess id familyMoves; d = snd (SetDisabled (\<lambda>_. True) 20 ''ua'' True (hsDB s));
       later = [AmMagicRequest (\<lambda>_. True) (Some ''m3'') 30 [''a@x''] True ''a@x'' [] [],
                AmMagicVerify (\<lambda>_. True) (Some ''s3'') ''uz'' ''sz'' 31 ''m3''];
       d' = hsDB (fold (access_step id) later (s\<lparr>hsDB := d\<rparr>))
   in filter (\<lambda>s. seUser s = ''ua'') (dbSessions d') = []
    \<and> map usID (dbUsers d') = [''ua'', ''ub'']
    \<and> (case fst (RequireAuth (\<lambda>_. True) id 32 (Some ''s1'') d') of Inl outs \<Rightarrow> True | Inr v \<Rightarrow> usID v \<noteq> ''ua'')
    \<and> map_sum id usID (fst (RequireAuth (\<lambda>_. True) id 32 (Some ''s1'') (hsDB s))) = Inr ''ua''"
proof -
  let ?s = "runAccess id familyMoves" and ?later = "[AmMagicRequest (\<lambda>_. True) (Some ''m3'') 30 [''a@x''] True ''a@x'' [] [],
                AmMagicVerify (\<lambda>_. True) (Some ''s3'') ''uz'' ''sz'' 31 ''m3'']"
  let ?r = "SetDisabled (\<lambda>_. True) 20 ''ua'' True (hsDB ?s)"
  have "fst ?r = Inr ()" by code_simp
  then have r: "?r = (Inr (), snd ?r)" by (metis prod.collapse)
  have l: "list_all (\<lambda>m. \<not> readmits ''ua'' m) ?later" by simp
  have u: "map usID (dbUsers (hsDB (fold (access_step id) ?later (?s\<lparr>hsDB := snd ?r\<rparr>)))) = [''ua'', ''ub'']" by code_simp
  have b: "map_sum id usID (fst (RequireAuth (\<lambda>_. True) id 32 (Some ''s1'') (hsDB ?s))) = Inr ''ua''" by code_simp
  show ?thesis
    using disabled_user_shut_out [OF r l refl, where hash = id and g = "\<lambda>_. True" and now' = 32 and cookie = "Some ''s1''"] u b
    by (simp add: Let_def del: access_step.simps fold.simps)
qed

end
