(* ===== verification/Access_Once.thy ===== *)
theory Access_Once
  imports Access_Tokens
begin

text \<open>
  Magic links and e-mail invites work once, for the address they were sent to.
\<close>

section \<open>Addresses\<close>

lemma lowerByte_char: "lowerByte c = (if 65 \<le> (of_char c :: nat) \<and> (of_char c :: nat) \<le> 90 then char_of ((of_char c :: nat) + 32) else c)"
  by (simp add: lowerByte_def Let_def)

lemma of_char_lower: "(of_char (lowerByte c) :: nat) = (let n = of_char c in if 65 \<le> n \<and> n \<le> 90 then n + 32 else n)"
  by (simp add: lowerByte_char Let_def)

lemma lowerByte_idem [simp]: "lowerByte (lowerByte c) = lowerByte c"
proof (cases "65 \<le> (of_char c :: nat) \<and> (of_char c :: nat) \<le> 90")
  case True
  then have "\<not> (of_char (lowerByte c) :: nat) \<le> 90" by (simp add: of_char_lower Let_def)
  then show ?thesis by (simp add: lowerByte_char [of "lowerByte c"])
next
  case False
  then have "lowerByte c = c" by (auto simp: lowerByte_char)
  then show ?thesis by simp
qed

lemma isSpace_of_char: "isSpaceByte c \<longleftrightarrow> (of_char c :: nat) \<in> {9, 10, 11, 12, 13, 32}"
proof -
  have eq: "c = d \<longleftrightarrow> (of_char c :: nat) = of_char d" for d by simp
  show ?thesis unfolding isSpaceByte_def eq insert_iff empty_iff by simp
qed

lemma isSpace_lower [simp]: "isSpaceByte (lowerByte c) = isSpaceByte c"
  by (auto simp: isSpace_of_char of_char_lower Let_def)

lemma trim_lower: "TrimSpace (ToLower s) = ToLower (TrimSpace s)"
proof -
  have dw: "dropWhile isSpaceByte (map lowerByte xs) = map lowerByte (dropWhile isSpaceByte xs)" for xs
    by (simp add: dropWhile_map comp_def)
  show ?thesis by (simp add: TrimSpace_def ToLower_def dw rev_map)
qed

lemma trim_idem: "TrimSpace (TrimSpace s) = TrimSpace s"
proof -
  let ?t = "dropWhile isSpaceByte s" and ?p = isSpaceByte
  let ?r = "rev (dropWhile ?p (rev ?t))"
  have "dropWhile ?p ?r = ?r"
  proof (cases "?r = []")
    case False
    then have "?t \<noteq> []" by (metis dropWhile.simps(1) rev.simps(1))
    then have h: "\<not> ?p (hd ?t)" by (rule hd_dropWhile)
    obtain ys where "rev ?t = ys @ dropWhile ?p (rev ?t)" by (metis takeWhile_dropWhile_id)
    then have "?t = ?r @ rev ys" by (metis rev_append rev_rev_ident)
    then have "hd ?r = hd ?t" using False by (metis hd_append2)
    then show ?thesis using h False by (metis dropWhile_eq_self_iff)
  qed (metis dropWhile.simps(1))
  then show ?thesis by (simp add: TrimSpace_def)
qed

lemma emailNormalize_idem [simp]: "emailNormalize (emailNormalize a) = emailNormalize a"
  by (simp add: emailNormalize_def trim_lower trim_idem) (simp add: ToLower_def comp_def)

lemma ball_updRows: "(\<forall>r \<in> set (updRows p g xs). P r) \<longleftrightarrow> (\<forall>q \<in> set xs. (p q \<longrightarrow> P (g q)) \<and> (\<not> p q \<longrightarrow> P q))"
  by (auto simp: updRows_def)

section \<open>Magic links\<close>

fun issuesMagic :: "(string \<Rightarrow> string) \<Rightarrow> accessMove \<Rightarrow> (string \<times> string) option" where
  "issuesMagic hash (AmMagicRequest f (Some t) now allowed ck email r hp) = Some (hash t, emailNormalize email)"
| "issuesMagic hash _ = None"

definition magicSpent :: "string \<Rightarrow> DB \<Rightarrow> bool" where
  "magicSpent h d \<longleftrightarrow> (\<forall>m \<in> set (dbMagic d). mgHash m = h \<longrightarrow> mgUsed m)"

definition magicKeys :: "DB \<Rightarrow> bool" where
  "magicKeys d \<longleftrightarrow> distinct (map mgHash (dbMagic d))"

definition magicOrigin :: "(string \<Rightarrow> string) \<Rightarrow> accessMove list \<Rightarrow> DB \<Rightarrow> bool" where
  "magicOrigin hash ms d \<longleftrightarrow> (\<forall>r \<in> set (dbMagic d). \<exists>m \<in> set ms. issuesMagic hash m = Some (mgHash r, mgEmail r))"

lemma magic_same:
  "dbMagic (snd (CreateUser f uid now a n g d)) = dbMagic d" "dbMagic (snd (updUser ok u gg d)) = dbMagic d"
  "dbMagic (snd (UpdateLastLogin ok now u d)) = dbMagic d" "dbMagic (snd (LinkGoogleID ok u gid d)) = dbMagic d"
  "dbMagic (snd (CreateSession f hash tok sid now u ttl d)) = dbMagic d"
  by (simp_all add: CreateUser_def updUser_def UpdateLastLogin_def LinkGoogleID_def CreateSession_def Let_def split: option.split)

lemma magic_validate:
  "dbMagic (snd (ValidateMagicLink ok hash now t d)) = dbMagic d
   \<or> dbMagic (snd (ValidateMagicLink ok hash now t d)) = updRows (liveMagic (hash t) now) (\<lambda>m. m\<lparr>mgUsed := True\<rparr>) (dbMagic d)"
  by (simp add: ValidateMagicLink_def split: option.split)

text \<open>Predicates of the magic links alone that using one keeps.\<close>

locale magic_predicate =
  fixes Q :: "MagicRow list \<Rightarrow> bool"
  assumes use: "Q ms \<Longrightarrow> Q (updRows p (\<lambda>m. m\<lparr>mgUsed := True\<rparr>) ms)"
    and drop: "Q ms \<Longrightarrow> Q (filter p ms)"
begin

lemma sign_in: "sign_in_keeps (\<lambda>d. Q (dbMagic d)) (\<lambda>_. True)"
proof
  show "Q (dbMagic (snd (ValidateMagicLink ok hash now t d)))" if "Q (dbMagic d)" for ok hash now t d
    using magic_validate [of ok hash now t d] use [OF that] that by (metis (no_types))
qed (simp_all add: magic_same)

lemma step:
  assumes "Q (dbMagic (hsDB s))" "\<And>f tok now al ck e r hp. m = AmMagicRequest f tok now al ck e r hp
      \<Longrightarrow> Q (dbMagic (snd (HandleMagicLinkRequest f hash tok now al ck e r hp (hsDB s))))"
  shows "Q (dbMagic (hsDB (access_step hash m s)))"
proof (cases "acctMove m")
  case False
  then show ?thesis using assms(1) other_acct [of m hash s] by (simp add: acct_def)
next
  case True
  have same: "dbMagic (snd (RequireAuth f hash now cookie d)) = dbMagic d" "dbMagic (snd (HandleLogout ok hash cookie r d)) = dbMagic d"
    "dbMagic (snd (SetDisabled f now u b d)) = dbMagic d" "dbMagic (snd (DeleteUser ok u d)) = dbMagic d"
    "dbMagic (snd (SetActiveHousehold ok hash now t h d)) = dbMagic d" "dbMagic (snd (SetThemeAndMarkChosen ok u th d)) = dbMagic d"
    "dbMagic (deleteHouseholdRow h d) = dbMagic d" for f now cookie d ok r u b t h th
    by (auto simp: RequireAuth_def ValidateAndRefreshSession_def HandleLogout_def DeleteSession_def SetDisabled_def WithTx_def
        DeleteUser_def deleteUserRow_def SetActiveHousehold_def SetThemeAndMarkChosen_def updUser_def deleteHouseholdRow_def
        deleteLines_def Let_def split: option.split sum.split prod.split)
  have del: "dbMagic (hsDB (snd (DeleteHousehold f h s))) = dbMagic (hsDB s)" for f h
    by (cases rule: DeleteHousehold_cases [of f h s]) (simp_all add: same)
  have clean: "Q (dbMagic (snd (cleanupExpiredAuth f now (hsDB s))))" for f now
    using assms(1) by (simp add: cleanupExpiredAuth_def Let_def drop)
  show ?thesis using True assms
    by (cases m) (simp_all add: same del clean sign_in_keeps.verify [OF sign_in] sign_in_keeps.callback [OF sign_in])
qed

end

definition spentRows :: "string \<Rightarrow> MagicRow list \<Rightarrow> bool" where
  "spentRows h ms \<longleftrightarrow> (\<forall>m \<in> set ms. mgHash m = h \<longrightarrow> mgUsed m)"

interpretation spent: magic_predicate "spentRows h"
  by unfold_locales (auto simp: spentRows_def in_updRows)

interpretation keys: magic_predicate "\<lambda>ms. distinct (map mgHash ms)"
  by unfold_locales (simp_all add: distinct_map_filter)

interpretation origin: magic_predicate "\<lambda>ms. \<forall>r \<in> set ms. (mgHash r, mgEmail r) \<in> K"
  by unfold_locales (auto simp: in_updRows)

lemma issues_normal: "issuesMagic hash m = Some (h, a) \<Longrightarrow> emailNormalize a = a"
  by (cases "(hash, m)" rule: issuesMagic.cases) auto

lemma magic_request:
  obtains (same) "dbMagic (snd (HandleMagicLinkRequest f hash tok now al ck e r hp d)) = dbMagic d"
  | (sent) t row where "tok = Some t" "mgHash row = hash t" "mgEmail row = emailNormalize e"
      "hash t \<notin> mgHash ` set (dbMagic d)"
      "dbMagic (snd (HandleMagicLinkRequest f hash tok now al ck e r hp d)) = dbMagic d @ [row]"
proof (cases "dbMagic (snd (HandleMagicLinkRequest f hash tok now al ck e r hp d)) = dbMagic d")
  case False
  have "dbMagic (snd (HandleMagicLinkRequest f hash tok now al ck e r hp d)) = dbMagic d
      \<or> dbMagic (snd (HandleMagicLinkRequest f hash tok now al ck e r hp d))
          = dbMagic (snd (CreateMagicLink (f 2) hash tok now (emailNormalize e) MagicLinkTTL r d))"
    by (auto simp: HandleMagicLinkRequest_def Let_def split: sum.split bool.split dbErr.split prod.split)
  then have c: "dbMagic (snd (HandleMagicLinkRequest f hash tok now al ck e r hp d))
          = dbMagic (snd (CreateMagicLink (f 2) hash tok now (emailNormalize e) MagicLinkTTL r d))" using False by blast
  obtain t where t: "tok = Some t" using False c by (cases tok) (simp_all add: CreateMagicLink_def)
  let ?row = "\<lparr>mgEmail = emailNormalize e, mgHash = hash t, mgExpires = now + MagicLinkTTL, mgUsed = False, mgCreatedAt = now,
                   mgReturnTo = (if r = [] then None else Some r)\<rparr>"
  have "hash t \<notin> mgHash ` set (dbMagic d)"
    "dbMagic (snd (CreateMagicLink (f 2) hash tok now (emailNormalize e) MagicLinkTTL r d)) = dbMagic d @ [?row]"
    using False c t by (auto simp: CreateMagicLink_def Let_def list_ex_iff split: if_splits)
  then show ?thesis using sent [of t ?row] t c by simp
qed (rule same)

lemma magic_run:
  assumes "accessRun hash ms"
  shows "distinct (map mgHash (dbMagic (hsDB (runAccess hash ms))))"
    "\<forall>r \<in> set (dbMagic (hsDB (runAccess hash ms))). Some (mgHash r, mgEmail r) \<in> issuesMagic hash ` set ms"
proof -
  have new: "dbMagic (hsDB newHStore) = []" by (simp add: newHStore_def emptyDB_def)
  show "distinct (map mgHash (dbMagic (hsDB (runAccess hash ms))))"
  proof (induction ms rule: rev_induct)
    case (snoc m ms)
    show ?case unfolding runAccess_snoc
    proof (rule keys.step [OF snoc])
      fix f tok now al ck e r hp
      show "distinct (map mgHash (dbMagic (snd (HandleMagicLinkRequest f hash tok now al ck e r hp (hsDB (runAccess hash ms))))))"
        by (cases rule: magic_request [of f hash tok now al ck e r hp "hsDB (runAccess hash ms)"]) (use snoc in simp_all)
    qed
  qed (simp add: runAccess_def new)
  show "\<forall>r \<in> set (dbMagic (hsDB (runAccess hash ms))). Some (mgHash r, mgEmail r) \<in> issuesMagic hash ` set ms"
  proof (induction ms rule: rev_induct)
    case (snoc m ms)
    let ?K = "{p. Some p \<in> issuesMagic hash ` set (ms @ [m])}"
    have old: "\<forall>r \<in> set (dbMagic (hsDB (runAccess hash ms))). (mgHash r, mgEmail r) \<in> ?K" using snoc by auto
    then have "\<forall>r \<in> set (dbMagic (hsDB (access_step hash m (runAccess hash ms)))). (mgHash r, mgEmail r) \<in> ?K"
    proof (rule origin.step)
      fix f tok now al ck e r hp
      assume m: "m = AmMagicRequest f tok now al ck e r hp"
      show "\<forall>r' \<in> set (dbMagic (snd (HandleMagicLinkRequest f hash tok now al ck e r hp (hsDB (runAccess hash ms))))). (mgHash r', mgEmail r') \<in> ?K"
        by (cases rule: magic_request [of f hash tok now al ck e r hp "hsDB (runAccess hash ms)"]) (use old m in auto)
    qed
    then show ?case unfolding runAccess_snoc by simp
  qed (simp add: runAccess_def new)
qed

lemma spent_run:
  "spentRows h (dbMagic (hsDB s)) \<Longrightarrow> list_all (\<lambda>m. issuesMagic hash m = None \<or> fst (the (issuesMagic hash m)) \<noteq> h) ms
    \<Longrightarrow> spentRows h (dbMagic (hsDB (fold (access_step hash) ms s)))"
proof (induction ms arbitrary: s)
  case (Cons m ms)
  have "spentRows h (dbMagic (hsDB (access_step hash m s)))"
  proof (rule spent.step [OF Cons.prems(1)])
    fix f tok now al ck e r hp
    assume m: "m = AmMagicRequest f tok now al ck e r hp"
    show "spentRows h (dbMagic (snd (HandleMagicLinkRequest f hash tok now al ck e r hp (hsDB s))))"
      by (cases rule: magic_request [of f hash tok now al ck e r hp "hsDB s"])
        (use Cons.prems m in \<open>auto simp: spentRows_def\<close>)
  qed
  then show ?case using Cons by simp
qed simp

text \<open>What a handler that ends in a cookie did.\<close>

lemma verify_cookie:
  assumes "HandleMagicLinkVerify f hash tok uid sid now t d = ([SetCookie c, pg], d')"
  obtains r u where "r \<in> set (dbMagic d)" "mgHash r = hash t" "\<not> mgUsed r" "now < mgExpires r"
    "dbMagic d' = updRows (liveMagic (hash t) now) (\<lambda>m. m\<lparr>mgUsed := True\<rparr>) (dbMagic d)"
    "u \<in> set (dbUsers d')" "usEmail u = emailNormalize (mgEmail r)"
    "list_ex (\<lambda>s. seUser s = usID u \<and> seHash s = hash c) (dbSessions d')"
proof -
  obtain a rt d1 where V: "ValidateMagicLink (f 0) hash now t d = (Inr (a, rt), d1)"
    using assms by (auto simp: HandleMagicLinkVerify_def split: prod.splits sum.splits)
  then obtain r where r: "find (liveMagic (hash t) now) (dbMagic d) = Some r" "a = mgEmail r"
    "d1 = d\<lparr>dbMagic := updRows (liveMagic (hash t) now) (\<lambda>m. m\<lparr>mgUsed := True\<rparr>) (dbMagic d)\<rparr>"
    by (auto simp: ValidateMagicLink_def split: if_splits option.splits)
  obtain u b d2 where G: "GetOrCreateUserByEmail (\<lambda>i. f (i + 1)) uid now a d1 = (Inr (u, b), d2)"
    using assms V by (auto simp: HandleMagicLinkVerify_def split: prod.splits sum.splits)
  then have u: "u \<in> set (dbUsers d2)" "usEmail u = emailNormalize a" "dbMagic d2 = dbMagic d1"
    by (auto simp: GetOrCreateUserByEmail_def GetUserByEmail_def queryUser_def CreateUser_def Let_def
        split: sum.splits prod.splits if_splits option.splits dbErr.splits dest: find_in)
  let ?d3 = "snd (UpdateLastLogin (f 3) now (usID u) d2)"
  have S: "\<exists>s. CreateSession (\<lambda>i. f (i + 4)) hash tok sid now (usID u) SessionTTL ?d3 = (Inr (c, s), d')"
    using assms V G by (auto simp: HandleMagicLinkVerify_def Let_def split: prod.splits sum.splits dbErr.splits)
  then have s: "dbUsers d' = dbUsers ?d3" "dbMagic d' = dbMagic ?d3" "list_ex (\<lambda>s. seUser s = usID u \<and> seHash s = hash c) (dbSessions d')"
    by (auto simp: CreateSession_def Let_def split: option.splits if_splits)
  have "\<exists>u' \<in> set (dbUsers ?d3). usID u' = usID u \<and> usEmail u' = usEmail u"
    using u(1) by (intro bexI [of _ "if f 3 then u\<lparr>usLastLogin := Some now\<rparr> else u"])
      (auto simp: UpdateLastLogin_def updUser_def in_updRows)
  then obtain u' where "u' \<in> set (dbUsers d')" "usID u' = usID u" "usEmail u' = usEmail u" using s(1) by auto
  then show ?thesis using that [of r u'] r find_in [OF r(1)] u s magic_same(3) [of "f 3" now "usID u" d2] by (simp add: liveMagic_def)
qed

lemma verify_spent:
  assumes "spentRows (hash t) (dbMagic d)"
  shows "HandleMagicLinkVerify f hash tok uid sid now t d = ([Redirect ''/auth/login?error=invalid+or+expired+link''], d)"
proof -
  have "find (liveMagic (hash t) now) (dbMagic d) = None" using assms by (auto simp: spentRows_def liveMagic_def find_None_iff)
  then show ?thesis by (simp add: HandleMagicLinkVerify_def ValidateMagicLink_def)
qed

text \<open>
  C27: A magic link signs in the owner of the address it was sent to, once.  In a reachable state,
  a link that signs a browser in was issued earlier in the run, by a request for an address, and
  the session it opens is that of a user with that address; and after that, whatever happens, as
  long as no new token has the same hash, the link only leads back to the login page and changes
  nothing, at any time and whatever statement fails.
\<close>
theorem magic_link_signs_in_once:
  assumes "accessRun hash ms" and "s = runAccess hash ms"
    and "HandleMagicLinkVerify f hash tok uid sid now t (hsDB s) = ([SetCookie c, pg], d)"
    and "list_all (\<lambda>m. issuesMagic hash m = None \<or> fst (the (issuesMagic hash m)) \<noteq> hash t) ms'"
    and "d' = hsDB (fold (access_step hash) ms' (s\<lparr>hsDB := d\<rparr>))"
  shows "(\<exists>addr. list_ex (\<lambda>m. issuesMagic hash m = Some (hash t, addr)) ms
      \<and> list_ex (\<lambda>u. usEmail u = addr
            \<and> list_ex (\<lambda>e. seUser e = usID u \<and> seHash e = hash c) (dbSessions d)) (dbUsers d))
    \<and> HandleMagicLinkVerify f' hash tok' uid' sid' now' t d'
        = ([Redirect ''/auth/login?error=invalid+or+expired+link''], d')"
proof -
  obtain r u where r: "r \<in> set (dbMagic (hsDB s))" "mgHash r = hash t" "\<not> mgUsed r" "now < mgExpires r"
    "dbMagic d = updRows (liveMagic (hash t) now) (\<lambda>m. m\<lparr>mgUsed := True\<rparr>) (dbMagic (hsDB s))"
    and u: "u \<in> set (dbUsers d)" "usEmail u = emailNormalize (mgEmail r)"
      "list_ex (\<lambda>e. seUser e = usID u \<and> seHash e = hash c) (dbSessions d)"
    by (rule verify_cookie [OF assms(3)])
  obtain m where m: "m \<in> set ms" "issuesMagic hash m = Some (hash t, mgEmail r)"
    using magic_run(2) [OF assms(1)] r(1,2) assms(2) by fastforce
  then have "emailNormalize (mgEmail r) = mgEmail r" by (intro issues_normal)
  then have owner: "list_ex (\<lambda>u. usEmail u = mgEmail r
            \<and> list_ex (\<lambda>e. seUser e = usID u \<and> seHash e = hash c) (dbSessions d)) (dbUsers d)"
    using u unfolding list_ex_iff [of _ "dbUsers d"] by metis
  have issued: "list_ex (\<lambda>m. issuesMagic hash m = Some (hash t, mgEmail r)) ms" using m unfolding list_ex_iff by blast
  have "spentRows (hash t) (dbMagic d)"
  proof -
    have "q = r" if "q \<in> set (dbMagic (hsDB s))" "mgHash q = hash t" for q
      using magic_run(1) [OF assms(1)] assms(2) that r(1,2) by (metis distinct_map inj_onD)
    then show ?thesis using r(2,3,4) unfolding spentRows_def r(5) ball_updRows by (auto simp: liveMagic_def)
  qed
  then have "spentRows (hash t) (dbMagic d')" unfolding assms(5) by (intro spent_run assms(4)) simp
  then show ?thesis by (intro conjI exI [of _ "mgEmail r"] issued owner verify_spent)
qed

theorem magic_link_signs_in_once_witness:
  "let s = runAccess id (take 1 familyMoves);
       d = snd (HandleMagicLinkVerify (\<lambda>_. True) id (Some ''s1'') ''ua'' ''sa'' 1 ''m1'' (hsDB s));
       d' = hsDB (fold (access_step id) (drop 2 familyMoves) (s\<lparr>hsDB := d\<rparr>))
   in HandleMagicLinkVerify (\<lambda>_. True) id (Some ''s9'') ''u9'' ''se9'' 2 ''m1'' d'
        = ([Redirect ''/auth/login?error=invalid+or+expired+link''], d')
    \<and> map usEmail (dbUsers d') = [''a@x'', ''b@x'']"
proof -
  let ?s = "runAccess id (take 1 familyMoves)"
  let ?r = "HandleMagicLinkVerify (\<lambda>_. True) id (Some ''s1'') ''ua'' ''sa'' 1 ''m1'' (hsDB ?s)"
  have run: "accessRun id (take 1 familyMoves)" unfolding accessRun_def by code_simp
  have "fst ?r = [SetCookie ''s1'', Redirect ''/'']" by code_simp
  then have r: "?r = ([SetCookie ''s1'', Redirect ''/''], snd ?r)" by (metis prod.collapse)
  have l: "list_all (\<lambda>m. issuesMagic id m = None \<or> fst (the (issuesMagic id m)) \<noteq> id ''m1'') (drop 2 familyMoves)" by code_simp
  have u: "map usEmail (dbUsers (hsDB (fold (access_step id) (drop 2 familyMoves) (?s\<lparr>hsDB := snd ?r\<rparr>)))) = [''a@x'', ''b@x'']" by code_simp
  show ?thesis
    using magic_link_signs_in_once [OF run refl r l refl, where f' = "\<lambda>_. True" and tok' = "Some ''s9''" and uid' = "''u9''"
        and sid' = "''se9''" and now' = 2] u
    by (simp only: Let_def)
qed

section \<open>E-mail invites\<close>

fun issuesInvite :: "accessMove \<Rightarrow> (string \<times> string \<times> string) option" where
  "issuesInvite (AmInvite ok (Some t) i now h addr u) = Some (t, h, emailNormalize addr)"
| "issuesInvite _ = None"

definition inviteKey :: "InviteRow \<Rightarrow> string \<times> string \<times> string" where
  "inviteKey i = (ivToken i, ivHousehold i, ivEmail i)"

text \<open>A change of status or inviter that does not make an invite pending again.\<close>

definition settles :: "(InviteRow \<Rightarrow> InviteRow) \<Rightarrow> bool" where
  "settles g \<longleftrightarrow> (\<forall>i. ivID (g i) = ivID i \<and> inviteKey (g i) = inviteKey i
     \<and> (ivStatus (g i) = InviteStatusPending \<longrightarrow> ivStatus i = InviteStatusPending))"

lemma settles_ops [simp]:
  "settles (accepted now)" "settles (\<lambda>i. i\<lparr>ivStatus := ''cancelled''\<rparr>)" "settles (\<lambda>i. i\<lparr>ivInvitedBy := x i\<rparr>)"
  by (simp_all add: settles_def accepted_def inviteKey_def InviteStatusPending_def)

locale invite_predicate =
  fixes Q :: "InviteRow list \<Rightarrow> bool"
  assumes settle: "settles g \<Longrightarrow> Q is \<Longrightarrow> Q (updRows p g is)"
    and drop: "Q is \<Longrightarrow> Q (filter p is)"
begin

lemma step:
  assumes q: "Q (dbInvites (hsDB s))" and new: "\<And>ok tok i now h a u. m = AmInvite ok tok i now h a u
      \<Longrightarrow> Q (dbInvites (snd (CreateInvite ok tok i now h a u (hsDB s))))"
  shows "Q (dbInvites (hsDB (access_step hash m s)))"
proof -
  have acc: "dbInvites (snd r) = dbInvites (hsDB s)" if "tel (snd r) = tel (hsDB s)" for r :: "'z \<times> DB"
    using that by (simp add: tel_def)
  note same = db_frame [unfolded untouched_def, THEN conjunct1, THEN acc]
    MagicVerify_frame [unfolded adds_user_def, THEN conjunct1, THEN acc] Callback_frame [unfolded adds_user_def, THEN conjunct1, THEN acc]
  have hh: "dbInvites (snd (updHousehold ok h g d)) = dbInvites d" "dbInvites (snd (SetTimezone ok ld h tz d)) = dbInvites d" for ok h g d ld tz
    by (simp_all add: updHousehold_def SetTimezone_def)
  have ops: "Q (dbInvites (snd (AcceptInvite ok now t (hsDB s))))" "Q (dbInvites (snd (CancelInvite ok i (hsDB s))))" for ok now t i
    using q by (simp_all add: AcceptInvite_def CancelInvite_def Let_def settle split: option.split)
  have del: "Q (dbInvites (snd (DeleteUser ok u (hsDB s))))" for ok u
    using q settle [of "\<lambda>i. i\<lparr>ivInvitedBy := unref u (ivInvitedBy i)\<rparr>" "dbInvites (hsDB s)" "\<lambda>_. True"]
    by (simp add: DeleteUser_def deleteUserRow_def updRows_def)
  have delh: "Q (dbInvites (hsDB (snd (DeleteHousehold f h s))))" for f h
    by (cases rule: DeleteHousehold_cases [of f h s])
      (use q in \<open>simp_all add: deleteHouseholdRow_def deleteLines_def Let_def drop\<close>)
  have red: "Q (dbInvites (hsDB (snd (RedeemInvite f now t u email s))))" for f now t u email
  proof (cases rule: RedeemInvite_cases [of f now t u email s])
    case (redeemed i d')
    then show ?thesis using q upsert_members(9) [OF redeemed(7)] by (simp add: settle)
  qed (use q in simp)
  have cre: "dbInvites (hsDB (snd (CreateHousehold f h now nm u s))) = dbInvites (hsDB s)" for f h now nm u
  proof (cases rule: CreateHousehold_cases [of f h now nm u s])
    case (created d' r)
    then show ?thesis using upsert_members(9) [OF created(3)] by simp
  qed simp
  have mem: "dbInvites (hsDB (snd (AddMember ok u h role s))) = dbInvites (hsDB s)"
    "dbInvites (hsDB (snd (RemoveMember ok u h s))) = dbInvites (hsDB s)"
    "dbInvites (hsDB (snd (NeedsOnboarding ok u s))) = dbInvites (hsDB s)" for ok u h role
    by (auto simp: AddMember_def RemoveMember_def NeedsOnboarding_def upsert_members(9) split: option.split sum.split)
  show ?thesis
    using q new by (cases m) (simp_all add: same hh ops del delh red cre mem UpdateName_def SetCallHistoryEnabled_def)
qed

end

interpretation tokens: invite_predicate "\<lambda>is. distinct (map ivToken is) \<and> distinct (map ivID is)"
proof
  show "distinct (map ivToken (updRows p g is)) \<and> distinct (map ivID (updRows p g is))"
    if "settles g" "distinct (map ivToken is) \<and> distinct (map ivID is)" for g "is" p
    using that by (simp add: settles_def inviteKey_def)
qed (simp add: distinct_map_filter)

interpretation origins: invite_predicate "\<lambda>is. \<forall>i \<in> set is. inviteKey i \<in> K"
  by unfold_locales (auto simp: in_updRows settles_def)

definition spentInvite :: "string \<Rightarrow> InviteRow list \<Rightarrow> bool" where
  "spentInvite t is \<longleftrightarrow> (\<forall>i \<in> set is. ivToken i = t \<longrightarrow> ivStatus i \<noteq> InviteStatusPending)"

interpretation spentInv: invite_predicate "spentInvite t"
proof
  show "spentInvite t (updRows p g is)" if g: "settles g" and "is": "spentInvite t is" for g "is" p
  proof -
    have "ivStatus (g q) \<noteq> InviteStatusPending" if "q \<in> set is" "ivToken (g q) = t" for q
      using g "is" that unfolding settles_def spentInvite_def inviteKey_def by (metis prod.inject)
    then show ?thesis using "is" by (simp add: spentInvite_def ball_updRows)
  qed
qed (auto simp: spentInvite_def)

lemma invite_created:
  obtains (same) "dbInvites (snd (CreateInvite ok tok i now h a u d)) = dbInvites d"
  | (sent) t row where "tok = Some t" "inviteKey row = (t, h, emailNormalize a)" "ivID row \<notin> ivID ` set (dbInvites d)"
      "t \<notin> ivToken ` set (dbInvites d)" "dbInvites (snd (CreateInvite ok tok i now h a u d)) = dbInvites d @ [row]"
proof (cases "dbInvites (snd (CreateInvite ok tok i now h a u d)) = dbInvites d")
  case False
  obtain t where t: "tok = Some t" using False by (cases tok) (simp_all add: CreateInvite_def)
  let ?row = "\<lparr>ivID = i, ivHousehold = h, ivEmail = emailNormalize a, ivInvitedBy = Some u, ivToken = t,
                   ivStatus = InviteStatusPending, ivCreatedAt = now, ivAcceptedAt = None, ivExpires = now + inviteTTL\<rparr>"
  have "i \<notin> ivID ` set (dbInvites d)" "t \<notin> ivToken ` set (dbInvites d)"
    "dbInvites (snd (CreateInvite ok tok i now h a u d)) = dbInvites d @ [?row]"
    using False t by (auto simp: CreateInvite_def Let_def list_ex_iff split: if_splits)
  then show ?thesis using sent [of t ?row] t by (simp add: inviteKey_def)
qed (rule same)

lemma invite_run:
  "distinct (map ivToken (dbInvites (hsDB (runAccess hash ms)))) \<and> distinct (map ivID (dbInvites (hsDB (runAccess hash ms))))"
  "\<forall>i \<in> set (dbInvites (hsDB (runAccess hash ms))). Some (inviteKey i) \<in> issuesInvite ` set ms"
proof -
  have none: "dbInvites (hsDB newHStore) = []" by (simp add: newHStore_def emptyDB_def)
  show "distinct (map ivToken (dbInvites (hsDB (runAccess hash ms)))) \<and> distinct (map ivID (dbInvites (hsDB (runAccess hash ms))))"
  proof (induction ms rule: rev_induct)
    case (snoc m ms)
    show ?case unfolding runAccess_snoc
    proof (rule tokens.step [OF snoc])
      fix ok tok i now h a u
      show "distinct (map ivToken (dbInvites (snd (CreateInvite ok tok i now h a u (hsDB (runAccess hash ms))))))
          \<and> distinct (map ivID (dbInvites (snd (CreateInvite ok tok i now h a u (hsDB (runAccess hash ms))))))"
        by (cases rule: invite_created [of ok tok i now h a u "hsDB (runAccess hash ms)"]) (use snoc in \<open>auto simp: inviteKey_def\<close>)
    qed
  qed (simp add: runAccess_def none)
  show "\<forall>i \<in> set (dbInvites (hsDB (runAccess hash ms))). Some (inviteKey i) \<in> issuesInvite ` set ms"
  proof (induction ms rule: rev_induct)
    case (snoc m ms)
    let ?K = "{p. Some p \<in> issuesInvite ` set (ms @ [m])}"
    have old: "\<forall>i \<in> set (dbInvites (hsDB (runAccess hash ms))). inviteKey i \<in> ?K" using snoc by auto
    then have "\<forall>i \<in> set (dbInvites (hsDB (access_step hash m (runAccess hash ms)))). inviteKey i \<in> ?K"
    proof (rule origins.step)
      fix ok tok i now h a u
      assume m: "m = AmInvite ok tok i now h a u"
      show "\<forall>q \<in> set (dbInvites (snd (CreateInvite ok tok i now h a u (hsDB (runAccess hash ms))))). inviteKey q \<in> ?K"
        by (cases rule: invite_created [of ok tok i now h a u "hsDB (runAccess hash ms)"]) (use old m in auto)
    qed
    then show ?case unfolding runAccess_snoc by simp
  qed (simp add: runAccess_def none)
qed

lemma spentInvite_run:
  "spentInvite t (dbInvites (hsDB s)) \<Longrightarrow> list_all (\<lambda>m. issuesInvite m = None \<or> fst (the (issuesInvite m)) \<noteq> t) ms
    \<Longrightarrow> spentInvite t (dbInvites (hsDB (fold (access_step hash) ms s)))"
proof (induction ms arbitrary: s)
  case (Cons m ms)
  have "spentInvite t (dbInvites (hsDB (access_step hash m s)))"
  proof (rule spentInv.step [OF Cons.prems(1)])
    fix ok tok i now h a u
    assume m: "m = AmInvite ok tok i now h a u"
    show "spentInvite t (dbInvites (snd (CreateInvite ok tok i now h a u (hsDB s))))"
      by (cases rule: invite_created [of ok tok i now h a u "hsDB s"])
        (use Cons.prems m in \<open>auto simp: spentInvite_def inviteKey_def\<close>)
  qed
  then show ?case using Cons by simp
qed simp

text \<open>
  C28: An e-mail invite admits the invited address to the inviting household, once.  In a
  reachable state, a user who redeems a token with success has the address some earlier move of
  the run invited with that token, into the very household the user is now a member of; and from
  then on, as long as the token is not drawn again, redeeming it fails for everybody and changes
  nothing.
\<close>
theorem invite_redeemed_once:
  assumes "accessRun hash ms" and "s = runAccess hash ms"
    and "RedeemInvite f now t u email s = (Inr i, s')"
    and "list_all (\<lambda>m. issuesInvite m = None \<or> fst (the (issuesInvite m)) \<noteq> t) ms'"
    and "r = fold (access_step hash) ms' s'"
  shows "list_ex (\<lambda>m. issuesInvite m = Some (t, ivHousehold i, emailNormalize email)) ms
    \<and> isMember u (ivHousehold i) (hsDB s')
    \<and> (\<exists>e. RedeemInvite f' now' t u' email' r = (Inl e, r))"
proof (cases rule: RedeemInvite_cases [of f now t u email s])
  case (redeemed q d')
  then have i: "i = accepted now q" and s': "dbInvites (hsDB s')
      = updRows (\<lambda>r. ivID r = ivID q \<and> ivStatus r = InviteStatusPending) (accepted now) (dbInvites (hsDB s))"
    "dbMembers (hsDB s') = dbMembers d'"
    using assms(3) upsert_members(9) [OF redeemed(7)] by auto
  have q: "ivHousehold i = ivHousehold q" "ivStatus q = InviteStatusPending" using i redeemed(4) by (simp_all add: accepted_def liveInvite_def)
  have "Some (inviteKey q) \<in> issuesInvite ` set ms" using invite_run(2) redeemed(2) assms(2) by blast
  then have issued: "list_ex (\<lambda>m. issuesInvite m = Some (t, ivHousehold i, emailNormalize email)) ms"
    using redeemed(3,5) q(1) by (auto simp: list_ex_iff inviteKey_def image_iff)
  have mem: "isMember u (ivHousehold i) (hsDB s')"
    using upsert_members(5) [OF redeemed(7)] q(1) s'(2) by (simp add: isMember_def)
  have "p = q" if "p \<in> set (dbInvites (hsDB s))" "ivToken p = t" for p
    using invite_run(1) assms(2) that redeemed(2,3) by (metis distinct_map inj_onD)
  then have "spentInvite t (dbInvites (hsDB s'))"
    using q(2) by (auto simp: s' spentInvite_def ball_updRows accepted_def InviteStatusPending_def)
  then have "spentInvite t (dbInvites (hsDB r))" unfolding assms(5) by (intro spentInvite_run assms(4))
  then have "find (\<lambda>i. ivToken i = t \<and> liveInvite now' i) (dbInvites (hsDB r)) = None"
    by (auto simp: find_None_iff spentInvite_def liveInvite_def)
  then have "\<exists>e. RedeemInvite f' now' t u' email' r = (Inl e, r)" by (simp add: RedeemInvite_def WithTx_store)
  then show ?thesis using issued mem by blast
qed (use assms(3) in simp)

definition inviteMoves :: "accessMove list" where
  "inviteMoves = take 6 familyMoves @ [AmInvite True (Some ''tk'') ''i1'' 5 ''ha'' '' B@x'' ''ua'']"

theorem invite_redeemed_once_witness:
  "let s = runAccess id inviteMoves; s' = snd (RedeemInvite (\<lambda>_. True) 6 ''tk'' ''ub'' ''b@X'' s);
       r = fold (access_step id) [AmNeedsOnboarding True ''ub'', AmRemoveMember True ''ub'' ''ha''] s'
   in isMember ''ub'' ''ha'' (hsDB s') \<and> (\<exists>e. RedeemInvite (\<lambda>_. True) 7 ''tk'' ''ub'' ''b@x'' r = (Inl e, r))"
proof -
  let ?s = "runAccess id inviteMoves"
  let ?r = "RedeemInvite (\<lambda>_. True) 6 ''tk'' ''ub'' ''b@X'' ?s"
  let ?later = "[AmNeedsOnboarding True ''ub'', AmRemoveMember True ''ub'' ''ha'']"
  have run: "accessRun id inviteMoves" unfolding accessRun_def by code_simp
  have "map_sum id ivHousehold (fst ?r) = Inr ''ha''" by code_simp
  then obtain i where i: "fst ?r = Inr i" "ivHousehold i = ''ha''" by (cases "fst ?r") auto
  then have r: "?r = (Inr i, snd ?r)" by (metis prod.collapse)
  have l: "list_all (\<lambda>m. issuesInvite m = None \<or> fst (the (issuesInvite m)) \<noteq> ''tk'') ?later" by simp
  show ?thesis
    using invite_redeemed_once [OF run refl r l refl, where f' = "\<lambda>_. True" and now' = 7 and u' = "''ub''" and email' = "''b@x''"] i
    by (simp only: Let_def)
qed

end
