(* ===== verification/Admission.thy ===== *)
theory Admission
  imports Access_Once
begin

text \<open>
  A handset on the websocket, \<^verbatim>\<open>server/internal/web/handler_ws.go\<close>: which line it is registered on,
  and what its messages reach.  The register handler works on the database of \<open>AccessDB\<close> and ends
  in the hub and the relay (\<open>deviceConnects\<close>); deadlines, pings and the write pump are the
  connection's own input and output.
\<close>

definition TypePairingCode :: string where "TypePairingCode = ''pairing_code''"
definition TypeRepair :: string where "TypeRepair = ''repair''"

definition wsSendBuf :: nat where "wsSendBuf = 32"

text \<open>\<open>WsRegister number paired reconciled code\<close>: go on with that number; the line number to send
  back, if the device's was stale; the pairing code to show, if one was made.\<close>

datatype wsAnswer = WsReject string | WsRegister string bool "string option" "string option"

text \<open>Statements: 0 the device's row, 1 the code, 2 the bound line.  \<open>msg\<close> is \<^const>\<open>None\<close> when it does
  not parse; \<open>pairing\<close> is \<open>h.pairingStore != nil\<close>.\<close>

definition registerDevice ::
  "stmts \<Rightarrow> (string \<Rightarrow> string) \<Rightarrow> string option \<Rightarrow> int \<Rightarrow> int \<Rightarrow> bool \<Rightarrow> Message option \<Rightarrow> DB \<Rightarrow> wsAnswer \<times> DB" where
  "registerDevice f hash code did now pairing msg d =
     (case msg of
        None \<Rightarrow> (WsReject ''must send register message first'', d)
      | Some m \<Rightarrow>
          if mType m \<noteq> TypeRegister \<or> mNumber m = [] then (WsReject ''must send register message first'', d)
          else if mHardwareID m = [] then (WsReject ''hardware_id required'', d)
          else if \<not> pairing then (WsRegister (mNumber m) False None None, d)
          else case AuthStatus (f 0) hash (mHardwareID m) (mDeviceToken m) d of
              Inl e \<Rightarrow> (WsReject ''internal error'', d)
            | Inr (paired, tokenValid) \<Rightarrow>
                if \<not> paired then
                  (case GenerateCode (f 1) code did now (mHardwareID m) d of
                     (Inl e, d) \<Rightarrow> (WsRegister (UnpairedPrefix @ mHardwareID m) False None None, d)
                   | (Inr c, d) \<Rightarrow> (WsRegister (UnpairedPrefix @ mHardwareID m) False None (Some c), d))
                else if mDeviceToken m = [] then (WsReject ''device_token required'', d)
                else if \<not> tokenValid then (WsReject ''invalid device_token'', d)
                else case BoundLineNumber (f 2) (mHardwareID m) d of
                    Inl e \<Rightarrow> (WsReject ''internal error'', d)
                  | Inr n \<Rightarrow>
                      if n = [] then (WsReject ''device has no assigned line'', d)
                      else if n \<noteq> mNumber m then (WsRegister n True (Some n) None, d)
                      else (WsRegister (mNumber m) True None None, d))"

text \<open>The whole handler up to the read loop.  \<open>ws\<close> says that the socket is not nil.\<close>

definition handleWS ::
  "World \<Rightarrow> bool \<Rightarrow> stmts \<Rightarrow> (string \<Rightarrow> string) \<Rightarrow> string option \<Rightarrow> int \<Rightarrow> int \<Rightarrow> bool \<Rightarrow> Message option \<Rightarrow> Relay \<times> DB
     \<Rightarrow> wsAnswer option \<times> Relay \<times> DB" where
  "handleWS w ws f hash code did now pairing msg rd =
     (let (r, d) = rd in
      if IsDraining (rHub r) then (None, r, d)
      else case registerDevice f hash code did now pairing msg d of
          (WsReject e, d) \<Rightarrow> (Some (WsReject e), r, d)
        | (WsRegister number paired reconciled c, d) \<Rightarrow>
            let greeting = (case reconciled of None \<Rightarrow> None
                            | Some n \<Rightarrow> wMarshal w (zeroMessage\<lparr>mType := TypeLineRenumber, mNumber := n\<rparr>));
                hw = (case msg of None \<Rightarrow> [] | Some m \<Rightarrow> mHardwareID m)
            in (Some (WsRegister number paired reconciled c),
                deviceConnects w ws hw wsSendBuf now greeting number paired r, d))"

text \<open>One message in the read loop; a repair request is served here.\<close>

definition readMessage :: "World \<Rightarrow> bool \<Rightarrow> string \<Rightarrow> string \<Rightarrow> Message option \<Rightarrow> Relay \<times> DB \<Rightarrow> Relay \<times> DB" where
  "readMessage w ok number hw msg rd =
     (case msg of
        None \<Rightarrow> rd
      | Some m \<Rightarrow>
          if mType m = TypeRepair then (fst rd, snd (Unpair ok hw (snd rd)))
          else (HandleMessage w number (m\<lparr>mHardwareID := hw\<rparr>) (fst rd), snd rd))"

text \<open>The end of the read loop.\<close>

definition readEnds :: "World \<Rightarrow> bool \<Rightarrow> int \<Rightarrow> string \<Rightarrow> string \<Rightarrow> nat \<Rightarrow> Relay \<times> DB \<Rightarrow> Relay \<times> DB" where
  "readEnds w ok now number hw c rd =
     (readLoopEnds w number c (fst rd), if hw = [] then snd rd else snd (TouchLastSeenDB ok now hw (snd rd)))"

section \<open>The row of a handset\<close>

lemma find_hw:
  assumes "distinct (map k xs)" "v \<in> set xs"
  shows "find (\<lambda>x. k x = k v) xs = Some v"
  using assms
proof (induction xs)
  case (Cons x xs)
  then show ?case by (cases "k x = k v") (auto simp: image_iff)
qed simp

lemma concat_single:
  assumes "distinct xs" "v \<in> set xs" "\<And>x. x \<in> set xs \<Longrightarrow> x \<noteq> v \<Longrightarrow> g x = []"
  shows "concat (map g xs) = g v"
  using assms
proof (induction xs)
  case (Cons x xs)
  show ?case
  proof (cases "x = v")
    case True
    then have "concat (map g xs) = []" using Cons.prems by auto
    then show ?thesis using True by simp
  qed (use Cons in auto)
qed simp

lemma bound_line:
  assumes ok: "devices_ok (dbLines d) (dbDevices d)" and v: "v \<in> set (dbDevices d)" "dvPairedAt v \<noteq> None"
    and l: "l \<in> set (dbLines d)" "dvLine v = Some (lnID l)"
  shows "BoundLineNumber True (dvHardwareID v) d = Inr (lnNumber l)"
proof -
  have k: "distinct (map lnID (dbLines d))" "distinct (map dvHardwareID (dbDevices d))" using ok by (simp_all add: devices_ok_def)
  then have dl: "distinct (dbLines d)" "distinct (dbDevices d)" by (simp_all add: distinct_map)
  have one: "x = v" if "x \<in> set (dbDevices d)" "dvHardwareID x = dvHardwareID v" for x
    using k(2) v(1) that by (auto simp: distinct_map dest: inj_onD)
  have onel: "x = l" if "x \<in> set (dbLines d)" "lnID x = lnID l" for x
    using k(1) l(1) that by (auto simp: distinct_map dest: inj_onD)
  let ?row = "\<lambda>x y. if dvLine x = Some (lnID y) \<and> dvHardwareID x = dvHardwareID v \<and> dvPairedAt x \<noteq> None then [lnNumber y] else []"
  have inner: "concat (map (?row v) (dbLines d)) = [lnNumber l]"
    using concat_single [OF dl(1) l(1), of "?row v"] l(2) v(2) onel by fastforce
  have "concat (map (\<lambda>x. concat (map (?row x) (dbLines d))) (dbDevices d)) = concat (map (?row v) (dbLines d))"
    by (rule concat_single [OF dl(2) v(1)]) (use one in auto)
  then have "[lnNumber l. x \<leftarrow> dbDevices d, l \<leftarrow> dbLines d, dvLine x = Some (lnID l) \<and> dvHardwareID x = dvHardwareID v \<and> dvPairedAt x \<noteq> None] = [lnNumber l]"
    using inner by simp
  then show ?thesis unfolding BoundLineNumber_def by simp
qed

lemma paired_row:
  assumes ok: "devices_ok (dbLines d) (dbDevices d)" and v: "v \<in> set (dbDevices d)" "dvPairedAt v \<noteq> None"
  obtains l where "l \<in> set (dbLines d)" "dvLine v = Some (lnID l)"
proof -
  obtain i where "dvLine v = Some i" "i \<in> lnID ` set (dbLines d)" using assms unfolding devices_ok_def by blast
  then show ?thesis using that by auto
qed

section \<open>Where a handset lands\<close>

text \<open>The rows that prove a claim to a line.\<close>

definition holdsLine :: "(string \<Rightarrow> string) \<Rightarrow> DB \<Rightarrow> string \<Rightarrow> string \<Rightarrow> string \<Rightarrow> bool" where
  "holdsLine hash d hw token n \<longleftrightarrow>
     list_ex (\<lambda>v. dvHardwareID v = hw \<and> dvPairedAt v \<noteq> None \<and> dvToken v = Some (hash token)
       \<and> list_ex (\<lambda>l. dvLine v = Some (lnID l) \<and> lnNumber l = n) (dbLines d)) (dbDevices d)"

lemma AuthStatus_row:
  assumes ok: "devices_ok (dbLines d) (dbDevices d)" and v: "v \<in> set (dbDevices d)"
  shows "AuthStatus True hash (dvHardwareID v) token d
    = Inr (dvPairedAt v \<noteq> None, dvPairedAt v \<noteq> None \<and> token \<noteq> [] \<and> dvToken v = Some (hash token))"
proof -
  have "distinct (map dvHardwareID (dbDevices d))" using ok by (simp add: devices_ok_def)
  then show ?thesis using find_hw [of dvHardwareID "dbDevices d" v] v by (auto simp: AuthStatus_def)
qed

text \<open>
  C29: A handset lands on the line it is bound to and on no other.  In a reachable state, whatever
  number and token it presents and whatever statement fails, a device that is registered as
  paired is registered under the number of the very line its row is bound to, it presented the
  token whose digest the row holds, and it is told the number exactly if it claimed another; a
  device registered as unpaired has no paired row and goes under its hardware id, marked unpaired.
\<close>
theorem handset_lands_on_its_line:
  assumes "accessRun hash ms" and "d = hsDB (runAccess hash ms)"
    and "registerDevice f hash code did now True (Some m) d = (WsRegister n paired told c, d')"
  shows "(if paired then d' = d \<and> holdsLine hash d (mHardwareID m) (mDeviceToken m) n
                 \<and> told = (if n = mNumber m then None else Some n)
          else n = UnpairedPrefix @ mHardwareID m \<and> told = None
             \<and> filter (\<lambda>v. dvHardwareID v = mHardwareID m \<and> dvPairedAt v \<noteq> None) (dbDevices d) = [])"
proof -
  have ok: "devices_ok (dbLines d) (dbDevices d)" using access_okD(2) [OF accessRun_ok [OF assms(1)]] assms(2) by simp
  have k: "distinct (map dvHardwareID (dbDevices d))" using ok by (simp add: devices_ok_def)
  obtain p tv where A: "AuthStatus (f 0) hash (mHardwareID m) (mDeviceToken m) d = Inr (p, tv)"
    using assms(3) by (auto simp: registerDevice_def split: if_splits sum.splits)
  then have f0: "f 0" by (auto simp: AuthStatus_def split: if_splits)
  show ?thesis
  proof (cases p)
    case False
    have "dvPairedAt v = None" if "v \<in> set (dbDevices d)" "dvHardwareID v = mHardwareID m" for v
      using A False f0 AuthStatus_row [OF ok that(1), of hash "mDeviceToken m"] that(2) by auto
    then show ?thesis using assms(3) A False
      by (auto simp: registerDevice_def filter_empty_conv split: if_splits sum.splits prod.splits)
  next
    case True
    then obtain v where v: "v \<in> set (dbDevices d)" "dvHardwareID v = mHardwareID m"
      using A f0 by (auto simp: AuthStatus_def split: if_splits option.splits dest: find_in)
    have pv: "dvPairedAt v \<noteq> None" "tv = (mDeviceToken m \<noteq> [] \<and> dvToken v = Some (hash (mDeviceToken m)))"
      using A f0 True AuthStatus_row [OF ok v(1), of hash "mDeviceToken m"] v(2) by auto
    obtain l where l: "l \<in> set (dbLines d)" "dvLine v = Some (lnID l)" using paired_row [OF ok v(1) pv(1)] .
    have B: "BoundLineNumber (f 2) (mHardwareID m) d = (if f 2 then Inr (lnNumber l) else Inl DbFail)"
      using bound_line [OF ok v(1) pv(1) l] v(2) by (simp add: BoundLineNumber_def)
    have "holdsLine hash d (mHardwareID m) (mDeviceToken m) (lnNumber l)" if tv
      using v l pv that unfolding holdsLine_def list_ex_iff by blast
    then show ?thesis using assms(3) A True B
      by (auto simp: registerDevice_def split: if_splits)
  qed
qed

text \<open>
  Pairing hands over the line.  In a reachable state, after a claim that succeeds with a new
  line and a token, a handset with the claimed hardware id that presents this token is
  registered on that line, whatever number it says, and with a token of another digest it is
  turned away; once it is unpaired, the old token is worth nothing: the handset is registered as
  unpaired and shown a new code.
\<close>
theorem pairing_hands_over_the_line:
  assumes "accessRun hash ms" and "d = hsDB (runAccess hash ms)"
    and "ClaimDevice f hash tok lid now pin n ln dn h d = (Inr (t, hw), d')"
    and "n \<noteq> []" and "hw \<noteq> []" and "t \<noteq> []" and "t' \<noteq> []" and "hash t' \<noteq> hash t"
    and "mType m = TypeRegister" and "mNumber m \<noteq> []" and "mHardwareID m = hw" and "mDeviceToken m = t"
  shows "registerDevice (\<lambda>_. True) hash code did now' True (Some m) d'
      = (WsRegister n True (if n = mNumber m then None else Some n) None, d')
    \<and> registerDevice (\<lambda>_. True) hash code did now' True (Some (m\<lparr>mDeviceToken := t'\<rparr>)) d'
      = (WsReject ''invalid device_token'', d')
    \<and> fst (registerDevice (\<lambda>_. True) hash (Some c) did now' True (Some m) (snd (Unpair True hw d')))
      = WsRegister (UnpairedPrefix @ hw) False None (Some c)"
proof -
  have ok: "devices_ok (dbLines d) (dbDevices d)" using access_okD(2) [OF accessRun_ok [OF assms(1)]] assms(2) by simp
  note ok' = claims_ok(1) [OF ok, of f hash tok lid now pin n ln dn h, unfolded assms(3) snd_conv]
  show ?thesis
  proof (cases rule: ClaimDevice_cases [of f hash tok lid now pin n ln dn h d])
    case (claimed t0 v)
    let ?l = "\<lparr>lnID = lid, lnNumber = n, lnName = ln, lnHousehold = h\<rparr>" and ?v = "bound now lid (hash t) dn v"
    have t0: "t0 = t" "dvHardwareID v = hw" and d': "d' = d\<lparr>dbLines := dbLines d @ [?l],
             dbDevices := updRows (\<lambda>w. dvID w = dvID v \<and> dvPairedAt w = None) (bound now lid (hash t) dn) (dbDevices d)\<rparr>"
      using claimed(8) assms(3) by auto
    have unp: "dvPairedAt v = None" using claimed(4) by (simp add: claimable_def)
    have v: "?v \<in> set (dbDevices d')" "dvPairedAt ?v \<noteq> None" "dvHardwareID ?v = hw" "dvToken ?v = Some (hash t)"
      "dvLine ?v = Some (lnID ?l)" "?l \<in> set (dbLines d')"
      using claimed(3) unp t0 by (auto simp: d' in_updRows bound_def)
    have A: "AuthStatus True hash hw token d' = Inr (True, token \<noteq> [] \<and> hash token = hash t)" for token
      using AuthStatus_row [OF ok' v(1), of hash token] v(2,3,4) by auto
    have B: "BoundLineNumber True hw d' = Inr n" using bound_line [OF ok' v(1,2,6,5)] v(3) by simp
    let ?u = "snd (Unpair True hw d')"
    have u: "devices_ok (dbLines ?u) (dbDevices ?u)" using device_ops_ok(3) [OF ok', of True hw] by (simp add: Unpair_def)
    let ?w = "?v\<lparr>dvPairedAt := None, dvToken := None\<rparr>"
    have w: "?w \<in> set (dbDevices ?u)" "dvHardwareID ?w = hw" "dvPairedAt ?w = None"
      using v(1,3) by (force simp: Unpair_def in_updRows)+
    have U: "AuthStatus True hash hw token ?u = Inr (False, False)" for token
      using AuthStatus_row [OF u w(1), of hash token] w(2,3) by simp
    have G: "fst (GenerateCode True (Some c) did now' hw ?u) = Inr c"
      using w by (auto simp: GenerateCode_def Let_def list_ex_iff)
    then obtain g where G: "GenerateCode True (Some c) did now' hw ?u = (Inr c, g)" by (metis prod.collapse)
    show ?thesis using A B U G assms(4-12) by (simp add: registerDevice_def split: prod.split sum.split)
  qed (use assms(3) in simp)
qed

definition pairMoves :: "accessMove list" where
  "pairMoves = familyMoves @ [AmGenerateCode True (Some ''123456'') 7 10 ''hw7'']"

definition claimed7 :: "(dbErr + string \<times> string) \<times> DB" where
  "claimed7 = ClaimDevice (\<lambda>_. True) id (Some ''tok7'') 3 20 ''123456'' ''300'' ''attic'' ''pi'' ''ha'' (hsDB (runAccess id pairMoves))"

definition register7 :: Message where
  "register7 = zeroMessage\<lparr>mType := TypeRegister, mNumber := ''999'', mHardwareID := ''hw7'', mDeviceToken := ''tok7''\<rparr>"

lemma pair_run: "accessRun id (pairMoves @ [AmClaim (\<lambda>_. True) (Some ''tok7'') 3 20 ''123456'' ''300'' ''attic'' ''pi'' ''ha''])"
  "accessRun id pairMoves"
  unfolding accessRun_def by code_simp+

theorem handset_lands_on_its_line_witness:
  "let d = hsDB (runAccess id (pairMoves @ [AmClaim (\<lambda>_. True) (Some ''tok7'') 3 20 ''123456'' ''300'' ''attic'' ''pi'' ''ha'']))
   in fst (registerDevice (\<lambda>_. True) id None 8 30 True (Some register7) d) = WsRegister ''300'' True (Some ''300'') None
    \<and> holdsLine id d ''hw7'' ''tok7'' ''300''"
proof -
  let ?ms = "pairMoves @ [AmClaim (\<lambda>_. True) (Some ''tok7'') 3 20 ''123456'' ''300'' ''attic'' ''pi'' ''ha'']"
  let ?r = "registerDevice (\<lambda>_. True) id None 8 30 True (Some register7) (hsDB (runAccess id ?ms))"
  have f: "fst ?r = WsRegister ''300'' True (Some ''300'') None" by code_simp
  then have r: "?r = (WsRegister ''300'' True (Some ''300'') None, snd ?r)" by (metis prod.collapse)
  have "mHardwareID register7 = ''hw7''" "mDeviceToken register7 = ''tok7''" by code_simp+
  then show ?thesis using handset_lands_on_its_line [OF pair_run(1) refl r] f by (simp add: Let_def)
qed

theorem pairing_hands_over_the_line_witness:
  "let d' = snd claimed7
   in registerDevice (\<lambda>_. True) id None 8 30 True (Some register7) d' = (WsRegister ''300'' True (Some ''300'') None, d')
    \<and> fst (registerDevice (\<lambda>_. True) id (Some ''654321'') 8 30 True (Some register7) (snd (Unpair True ''hw7'' d')))
      = WsRegister (UnpairedPrefix @ ''hw7'') False None (Some ''654321'')"
proof -
  have "fst claimed7 = Inr (''tok7'', ''hw7'')" by code_simp
  then have c: "claimed7 = (Inr (''tok7'', ''hw7''), snd claimed7)" by (metis prod.collapse)
  have m: "mType register7 = TypeRegister" "mNumber register7 \<noteq> []" "mHardwareID register7 = ''hw7''" "mDeviceToken register7 = ''tok7''"
    "mNumber register7 = ''999''"
    by code_simp+
  show ?thesis
    using pairing_hands_over_the_line [OF pair_run(2) refl c [unfolded claimed7_def] _ _ _ _ _ m(1-4),
        of "''other''" None 8 30 "''654321''", folded claimed7_def] m(5)
    by (simp add: Let_def)
qed

end
