(* ===== verification/WebGuards.thy ===== *)
theory WebGuards
  imports Admission
begin

text \<open>
  The guards of the web layer: \<^verbatim>\<open>server/internal/web/handler_helpers.go\<close> (the household a browser acts
  in, ownership of a line, administrators), \<^verbatim>\<open>handler.go\<close> and \<^verbatim>\<open>middleware.go\<close> (the gates in front of the
  protected pages, the origin check) and \<^verbatim>\<open>handler_admin.go\<close>.  A guard answers with the page that
  ends the request, or with what it found; \<open>f\<close> says which of its statements succeed.
\<close>

section \<open>Pages\<close>

text \<open>\<open>WpNumberError\<close> is a redirect to the line's page with a message; the other pages are rendered.\<close>

datatype webPage =
    WpPage
  | WpRedirect string
  | WpNumberError string string
  | WpPairError dbErr
  | WpPairRefused string
  | WpCode string
  | WpStatus nat
  | WpCommand bool

definition notFound :: webPage where "notFound = WpStatus 404"
definition forbidden :: webPage where "forbidden = WpStatus 403"

section \<open>The gates\<close>

definition isGateExempt :: "string \<Rightarrow> string list \<Rightarrow> bool" where
  "isGateExempt path extra \<longleftrightarrow> path \<in> set extra \<or> hasPrefix path ''/auth/'' \<or> hasPrefix path ''/api/''
     \<or> path = ''/ws'' \<or> hasPrefix path ''/ws/''"

text \<open>The protected handler after \<open>RequireAuth\<close>: \<^const>\<open>None\<close> lets the request through.\<close>

definition protectedGates :: "bool \<Rightarrow> string \<Rightarrow> UserRow \<Rightarrow> HStore \<Rightarrow> webPage option \<times> HStore" where
  "protectedGates ok path u s =
     (if \<not> isGateExempt path [''/welcome''] \<and> \<not> usThemeChosen u then (Some (WpRedirect ''/welcome''), s)
      else if \<not> isGateExempt path [''/welcome'', ''/onboard''] then
        (let (needs, s) = NeedsOnboarding ok (usID u) s
         in if needs then (Some (WpRedirect ''/onboard''), s) else (None, s))
      else (None, s))"

definition csrfOriginCheck :: "string \<Rightarrow> string \<Rightarrow> string \<Rightarrow> bool" where
  "csrfOriginCheck baseURL method origin \<longleftrightarrow>
     baseURL = [] \<or> method \<in> {''GET'', ''HEAD'', ''OPTIONS''} \<or> origin = [] \<or> origin = baseURL"

definition isAdminEmail :: "string list \<Rightarrow> string \<Rightarrow> bool" where
  "isAdminEmail allow email \<longleftrightarrow> list_ex (\<lambda>a. EqualFold a email) allow"

definition requireAdmin :: "string list \<Rightarrow> UserRow option \<Rightarrow> bool" where
  "requireAdmin allow user \<longleftrightarrow> (case user of None \<Rightarrow> False | Some u \<Rightarrow> isAdminEmail allow (usEmail u))"

section \<open>The household of a browser\<close>

definition resolveActiveHousehold ::
  "stmts \<Rightarrow> (string \<Rightarrow> string) \<Rightarrow> int \<Rightarrow> UserRow option \<Rightarrow> string option \<Rightarrow> DB \<Rightarrow> HouseholdRow option" where
  "resolveActiveHousehold f hash now user cookie d =
     (case user of None \<Rightarrow> None
      | Some u \<Rightarrow>
          (case GetForUser (f 0) (usID u) d of
             Inl e \<Rightarrow> None
           | Inr [] \<Rightarrow> None
           | Inr (h # hs) \<Rightarrow>
               (case cookie of None \<Rightarrow> Some h
                | Some t \<Rightarrow>
                    (case ActiveHouseholdID (f 1) hash now t d of
                       Inl e \<Rightarrow> Some h
                     | Inr i \<Rightarrow>
                         if i = [] then Some h
                         else case find (\<lambda>r. hhID r = i) (h # hs) of None \<Rightarrow> Some h | Some r \<Rightarrow> Some r))))"

definition requireHouseholdMember ::
  "stmts \<Rightarrow> (string \<Rightarrow> string) \<Rightarrow> int \<Rightarrow> UserRow option \<Rightarrow> string option \<Rightarrow> DB \<Rightarrow> webPage + UserRow \<times> HouseholdRow" where
  "requireHouseholdMember f hash now user cookie d =
     (case user of None \<Rightarrow> Inl (WpRedirect ''/auth/login'')
      | Some u \<Rightarrow>
          (case resolveActiveHousehold f hash now user cookie d of
             None \<Rightarrow> Inl (WpRedirect ''/onboard'')
           | Some h \<Rightarrow> Inr (u, h)))"

definition requireHouseholdAdmin ::
  "stmts \<Rightarrow> (string \<Rightarrow> string) \<Rightarrow> int \<Rightarrow> UserRow option \<Rightarrow> string option \<Rightarrow> DB \<Rightarrow> webPage + UserRow \<times> HouseholdRow" where
  "requireHouseholdAdmin f hash now user cookie d =
     (case requireHouseholdMember f hash now user cookie d of
        Inl p \<Rightarrow> Inl p
      | Inr (u, h) \<Rightarrow>
          (case GetRole (f 2) (usID u) (hhID h) d of
             Inl e \<Rightarrow> Inl forbidden
           | Inr role \<Rightarrow> if role = roleAdmin then Inr (u, h) else Inl forbidden))"

definition isHouseholdAdmin :: "bool \<Rightarrow> UserRow option \<Rightarrow> string \<Rightarrow> DB \<Rightarrow> bool" where
  "isHouseholdAdmin ok user h d \<longleftrightarrow>
     (case user of None \<Rightarrow> False | Some u \<Rightarrow> GetRole ok (usID u) h d = Inr roleAdmin)"

section \<open>Ownership of a line\<close>

definition matchMembership :: "(HouseholdRow \<times> string) list \<Rightarrow> string \<Rightarrow> (HouseholdRow \<times> string) option" where
  "matchMembership ms h = find (\<lambda>p. hhID (fst p) = h) ms"

definition requireLineOwnershipWithHousehold ::
  "stmts \<Rightarrow> UserRow option \<Rightarrow> string \<Rightarrow> DB \<Rightarrow> webPage + LineRow \<times> HouseholdRow \<times> string" where
  "requireLineOwnershipWithHousehold f user number d =
     (case GetLineByNumber (f 0) number d of
        Inl e \<Rightarrow> Inl notFound
      | Inr l \<Rightarrow>
          (case user of None \<Rightarrow> Inl notFound
           | Some u \<Rightarrow>
               (case GetForUserWithRoles (f 1) (usID u) d of
                  Inl e \<Rightarrow> Inl notFound
                | Inr ms \<Rightarrow>
                    (case matchMembership ms (lnHousehold l) of
                       None \<Rightarrow> Inl notFound | Some (h, role) \<Rightarrow> Inr (l, h, role)))))"

definition requireLineOwnership :: "stmts \<Rightarrow> UserRow option \<Rightarrow> string \<Rightarrow> DB \<Rightarrow> webPage + LineRow" where
  "requireLineOwnership f user number d = map_sum id fst (requireLineOwnershipWithHousehold f user number d)"

definition requireLineOwnershipAdmin :: "stmts \<Rightarrow> UserRow option \<Rightarrow> string \<Rightarrow> DB \<Rightarrow> webPage + LineRow" where
  "requireLineOwnershipAdmin f user number d =
     (case requireLineOwnershipWithHousehold f user number d of
        Inl p \<Rightarrow> Inl p
      | Inr (l, h, role) \<Rightarrow> if role \<noteq> roleAdmin then Inl forbidden else Inr l)"

text \<open>The device a command is for: the one asked for, else the first of the line, else none.\<close>

definition requireLineDevice :: "bool \<Rightarrow> string \<Rightarrow> LineRow \<Rightarrow> DB \<Rightarrow> webPage + string \<times> DeviceRow list" where
  "requireLineDevice ok want l d =
     (case ListByLine ok (lnID l) d of
        Inl e \<Rightarrow> Inl (WpStatus 400)
      | Inr [] \<Rightarrow> if want \<noteq> [] then Inl (WpStatus 400) else Inr ([], [])
      | Inr (v # vs) \<Rightarrow>
          if want = [] then Inr (dvHardwareID v, v # vs)
          else if list_ex (\<lambda>w. dvHardwareID w = want) (v # vs) then Inr (want, v # vs)
          else Inl (WpStatus 400))"

definition requireDeviceCommand ::
  "stmts \<Rightarrow> UserRow option \<Rightarrow> string \<Rightarrow> string \<Rightarrow> bool \<Rightarrow> DB \<Rightarrow> webPage + string" where
  "requireDeviceCommand f user number want adminOnly d =
     (case (if adminOnly then requireLineOwnershipAdmin f user number d else requireLineOwnership f user number d) of
        Inl p \<Rightarrow> Inl p
      | Inr l \<Rightarrow> map_sum id fst (requireLineDevice (f 2) (TrimSpace want) l d))"

text \<open>The lines of all households of a user; any failing statement gives none.\<close>

primrec linesOfAll :: "stmts \<Rightarrow> nat \<Rightarrow> HouseholdRow list \<Rightarrow> DB \<Rightarrow> LineRow list option" where
  "linesOfAll f i [] d = Some []"
| "linesOfAll f i (h # hs) d =
     (case ListByHousehold (f i) (hhID h) d of
        Inl e \<Rightarrow> None
      | Inr ls \<Rightarrow> map_option (\<lambda>rest. ls @ rest) (linesOfAll f (Suc i) hs d))"

definition ownedLinesForUser :: "stmts \<Rightarrow> string \<Rightarrow> DB \<Rightarrow> (LineRow list \<times> HouseholdRow) option" where
  "ownedLinesForUser f u d =
     (case GetForUser (f 0) u d of
        Inl e \<Rightarrow> None
      | Inr [] \<Rightarrow> None
      | Inr (h # hs) \<Rightarrow> map_option (\<lambda>ls. (ls, h)) (linesOfAll f 1 (h # hs) d))"

section \<open>Facts about the guards\<close>

lemma GetForUserWithRoles_member:
  assumes "GetForUserWithRoles ok u d = Inr ms" "p \<in> set ms"
  shows "isMember u (hhID (fst p)) d" "fst p \<in> set (dbHouseholds d)"
  using assms by (fastforce simp: GetForUserWithRoles_def isMember_def list_ex_iff split: if_splits)+

lemma GetForUser_member:
  assumes "GetForUser ok u d = Inr hs" "h \<in> set hs"
  shows "isMember u (hhID h) d" "h \<in> set (dbHouseholds d)"
proof -
  obtain ms where "GetForUserWithRoles ok u d = Inr ms" "hs = map fst ms"
    using assms(1) by (cases "GetForUserWithRoles ok u d") (auto simp: GetForUser_def)
  then show "isMember u (hhID h) d" "h \<in> set (dbHouseholds d)"
    using assms(2) GetForUserWithRoles_member [of ok u d ms] by auto
qed

lemma active_member:
  assumes "resolveActiveHousehold f hash now (Some u) cookie d = Some h"
  shows "isMember (usID u) (hhID h) d" "h \<in> set (dbHouseholds d)"
proof -
  obtain g gs where g: "GetForUser (f 0) (usID u) d = Inr (g # gs)"
    using assms by (auto simp: resolveActiveHousehold_def split: sum.splits list.splits)
  have "h \<in> set (g # gs)"
    using assms g by (auto simp: resolveActiveHousehold_def split: option.splits sum.splits if_splits dest: find_in)
  then show "isMember (usID u) (hhID h) d" "h \<in> set (dbHouseholds d)" using GetForUser_member [OF g] by blast+
qed

lemma household_guard:
  assumes "requireHouseholdMember f hash now user cookie d = Inr (u, h)"
  shows "user = Some u" "isMember (usID u) (hhID h) d" "h \<in> set (dbHouseholds d)"
  using assms active_member [of f hash now u cookie d h]
  by (auto simp: requireHouseholdMember_def split: option.splits)

lemma admin_guard:
  assumes "requireHouseholdAdmin f hash now user cookie d = Inr (u, h)"
  shows "user = Some u" "isMember (usID u) (hhID h) d" "h \<in> set (dbHouseholds d)" "GetRole True (usID u) (hhID h) d = Inr roleAdmin"
  using assms household_guard [of f hash now user cookie d u h]
  by (auto simp: requireHouseholdAdmin_def GetRole_def split: sum.splits if_splits option.splits)

lemma line_guard:
  assumes "requireLineOwnershipWithHousehold f user number d = Inr (l, h, role)"
  obtains u where "user = Some u" "l \<in> set (dbLines d)" "lnNumber l = number" "isMember (usID u) (lnHousehold l) d"
    "hhID h = lnHousehold l"
proof -
  obtain u ms where u: "user = Some u" "GetLineByNumber (f 0) number d = Inr l"
    "GetForUserWithRoles (f 1) (usID u) d = Inr ms" "find (\<lambda>p. hhID (fst p) = lnHousehold l) ms = Some (h, role)"
    using assms by (auto simp: requireLineOwnershipWithHousehold_def matchMembership_def split: sum.splits option.splits prod.splits)
  have "l \<in> set (dbLines d)" "lnNumber l = number"
    using u(2) by (auto simp: GetLineByNumber_def getLine_def split: if_splits option.splits dest: find_in)
  moreover have "(h, role) \<in> set ms" "hhID h = lnHousehold l" using find_in [OF u(4)] by auto
  ultimately show ?thesis using that u(1) GetForUserWithRoles_member(1) [OF u(3)] by (metis fst_conv)
qed

lemma owner_guard:
  assumes "requireLineOwnership f user number d = Inr l"
  obtains u where "user = Some u" "l \<in> set (dbLines d)" "lnNumber l = number" "isMember (usID u) (lnHousehold l) d"
  using assms by (cases "requireLineOwnershipWithHousehold f user number d")
    (auto simp: requireLineOwnership_def elim!: line_guard)

lemma owner_admin_guard:
  assumes "requireLineOwnershipAdmin f user number d = Inr l"
  obtains u where "user = Some u" "l \<in> set (dbLines d)" "lnNumber l = number" "isMember (usID u) (lnHousehold l) d"
  using assms by (auto simp: requireLineOwnershipAdmin_def elim!: line_guard split: sum.splits if_splits)

end
