(* ===== verification/WebHousehold.thy ===== *)
theory WebHousehold
  imports WebGuards
begin

text \<open>
  The pages that change accounts, households, invites and links:
  \<^verbatim>\<open>server/internal/web/handler_settings.go\<close>, \<^verbatim>\<open>handler_onboard.go\<close>, \<^verbatim>\<open>handler_invite.go\<close>,
  \<^verbatim>\<open>handler_links.go\<close>, \<^verbatim>\<open>handler_welcome.go\<close> and the account actions of \<^verbatim>\<open>handler_admin.go\<close>.  A handler is a
  function on the state \<open>Web\<close> of the server: household store, hub, call tracker and the mail
  sent.  Forms parse, all stores are present; \<open>f\<close> numbers the statements of a request.
\<close>

record Web =
  wbS :: HStore
  wbHub :: Hub
  wbTr :: Tracker
  wbMail :: "(string \<times> string) list"

abbreviation wbDB :: "Web \<Rightarrow> DB" where "wbDB w \<equiv> hsDB (wbS w)"

definition setDB :: "DB \<Rightarrow> Web \<Rightarrow> Web" where
  "setDB d w = w\<lparr>wbS := (wbS w)\<lparr>hsDB := d\<rparr>\<rparr>"

definition shift :: "nat \<Rightarrow> stmts \<Rightarrow> stmts" where
  "shift k f = (\<lambda>i. f (i + k))"

section \<open>Coming in\<close>

definition handleOnboardPost :: "stmts \<Rightarrow> string \<Rightarrow> int \<Rightarrow> UserRow option \<Rightarrow> string \<Rightarrow> Web \<Rightarrow> webPage \<times> Web" where
  "handleOnboardPost f hid now user name w =
     (case user of None \<Rightarrow> (WpRedirect ''/auth/login'', w)
      | Some u \<Rightarrow>
          let name = TrimSpace name;
              (r, s) = CreateHousehold f hid now (if name = [] then ''My Family'' else name) (usID u) (wbS w)
          in (case r of Inl e \<Rightarrow> WpStatus 500 | Inr h \<Rightarrow> WpRedirect (LoginRedirectFor user), w\<lparr>wbS := s\<rparr>))"

definition handleWelcomePost :: "bool \<Rightarrow> UserRow option \<Rightarrow> string \<Rightarrow> Web \<Rightarrow> webPage \<times> Web" where
  "handleWelcomePost ok user theme w =
     (case user of None \<Rightarrow> (WpRedirect ''/auth/login'', w)
      | Some u \<Rightarrow>
          if \<not> themeValid theme then (WpRedirect ''/welcome'', w)
          else case SetThemeAndMarkChosen ok (usID u) theme (wbDB w) of
              (Inl e, d) \<Rightarrow> (WpStatus 500, setDB d w)
            | (Inr u', d) \<Rightarrow> (WpRedirect (LoginRedirectFor (Some u')), setDB d w))"

text \<open>The session cookie of a browser that need not be signed in; \<open>f\<close>: 0 the session, 1 the user.\<close>

definition userFromSessionCookie ::
  "stmts \<Rightarrow> (string \<Rightarrow> string) \<Rightarrow> int \<Rightarrow> string option \<Rightarrow> DB \<Rightarrow> (UserRow \<times> string) option" where
  "userFromSessionCookie f hash now cookie d =
     (case cookie of None \<Rightarrow> None
      | Some t \<Rightarrow>
          (case ValidateSession (f 0) hash now t d of
             Inl e \<Rightarrow> None
           | Inr s \<Rightarrow> (case GetUserByID (f 1) (seUser s) d of Inl e \<Rightarrow> None | Inr u \<Rightarrow> Some (u, t))))"

definition handleInviteAcceptPost ::
  "stmts \<Rightarrow> (string \<Rightarrow> string) \<Rightarrow> int \<Rightarrow> string option \<Rightarrow> string \<Rightarrow> Web \<Rightarrow> webPage \<times> Web" where
  "handleInviteAcceptPost f hash now cookie token w =
     (case userFromSessionCookie f hash now cookie (wbDB w) of
        None \<Rightarrow> (WpRedirect (''/invite/'' @ token), w)
      | Some (u, t) \<Rightarrow>
          (case RedeemInvite (shift 3 f) now token (usID u) (usEmail u) (wbS w) of
             (Inl e, s) \<Rightarrow> (WpRedirect (''/invite/'' @ token), w\<lparr>wbS := s\<rparr>)
           | (Inr i, s) \<Rightarrow>
               (WpRedirect ''/'', setDB (snd (SetActiveHousehold (f 2) hash now t (ivHousehold i) (hsDB s))) (w\<lparr>wbS := s\<rparr>))))"

section \<open>The household's settings\<close>

definition handleHouseholdAdminPost ::
  "stmts \<Rightarrow> (string \<Rightarrow> string) \<Rightarrow> int \<Rightarrow> UserRow option \<Rightarrow> string option
     \<Rightarrow> (HouseholdRow \<Rightarrow> DB \<Rightarrow> (dbErr + unit) \<times> DB) \<Rightarrow> Web \<Rightarrow> webPage \<times> Web" where
  "handleHouseholdAdminPost f hash now user cookie save w =
     (case requireHouseholdAdmin f hash now user cookie (wbDB w) of
        Inl p \<Rightarrow> (p, w)
      | Inr (u, h) \<Rightarrow>
          (case save h (wbDB w) of
             (Inl e, d) \<Rightarrow> (WpRedirect ''/settings'', setDB d w)
           | (Inr _, d) \<Rightarrow> (WpRedirect ''/settings?saved=1'', setDB d w)))"

datatype householdSetting = SaveName string | SaveHistory bool | SaveTimezone bool string

text \<open>\<open>SaveTimezone valid\<close>: whether the zone loads.\<close>

definition saveSetting :: "bool \<Rightarrow> householdSetting \<Rightarrow> HouseholdRow \<Rightarrow> DB \<Rightarrow> (dbErr + unit) \<times> DB" where
  "saveSetting ok q h d =
     (case q of
        SaveName n \<Rightarrow> if TrimSpace n = [] then (Inr (), d) else UpdateName ok (hhID h) (TrimSpace n) d
      | SaveHistory b \<Rightarrow> SetCallHistoryEnabled ok (hhID h) b d
      | SaveTimezone valid tz \<Rightarrow>
          if TrimSpace tz = [] then (Inr (), d) else SetTimezone ok (\<lambda>_. valid) (hhID h) (TrimSpace tz) d)"

definition IsMemberByEmail :: "bool \<Rightarrow> string \<Rightarrow> string \<Rightarrow> DB \<Rightarrow> dbErr + bool" where
  "IsMemberByEmail ok h email d =
     (if \<not> ok then Inl DbFail
      else Inr (list_ex (\<lambda>m. mbHousehold m = h
             \<and> list_ex (\<lambda>u. usID u = mbUser m \<and> ToLower (usEmail u) = ToLower email) (dbUsers d)) (dbMembers d)))"

text \<open>\<open>addr\<close> is what \<open>mail.ParseAddress\<close> makes of the trimmed field.\<close>

definition handleHouseholdInvitePost ::
  "stmts \<Rightarrow> (string \<Rightarrow> string) \<Rightarrow> string option \<Rightarrow> string \<Rightarrow> int \<Rightarrow> UserRow option \<Rightarrow> string option
     \<Rightarrow> string option \<Rightarrow> Web \<Rightarrow> webPage \<times> Web" where
  "handleHouseholdInvitePost f hash tok iid now user cookie addr w =
     (case requireHouseholdAdmin f hash now user cookie (wbDB w) of
        Inl p \<Rightarrow> (p, w)
      | Inr (u, h) \<Rightarrow>
          (case addr of None \<Rightarrow> (WpRedirect ''/settings?error=invalid+email'', w)
           | Some a \<Rightarrow>
               let email = emailNormalize a in
               case IsMemberByEmail (f 3) (hhID h) email (wbDB w) of
                 Inl e \<Rightarrow> (WpRedirect ''/settings'', w)
               | Inr True \<Rightarrow> (WpRedirect ''/settings?error=already+a+member'', w)
               | Inr False \<Rightarrow>
                   (case IsPendingForHouseholdEmail (f 4) now (hhID h) email (wbDB w) of
                      Inl e \<Rightarrow> (WpRedirect ''/settings'', w)
                    | Inr True \<Rightarrow> (WpRedirect ''/settings?error=already+invited'', w)
                    | Inr False \<Rightarrow>
                        (case CreateInvite (f 5) tok iid now (hhID h) email (usID u) (wbDB w) of
                           (Inl e, d) \<Rightarrow> (WpRedirect ''/settings?error=invite+failed'', setDB d w)
                         | (Inr i, d) \<Rightarrow> (WpRedirect ''/settings?saved=1'',
                             setDB d (w\<lparr>wbMail := wbMail w @ [(email, ivToken i)]\<rparr>))))))"

definition handleHouseholdInviteCancelPost ::
  "stmts \<Rightarrow> (string \<Rightarrow> string) \<Rightarrow> int \<Rightarrow> UserRow option \<Rightarrow> string option \<Rightarrow> string \<Rightarrow> Web \<Rightarrow> webPage \<times> Web" where
  "handleHouseholdInviteCancelPost f hash now user cookie iid w =
     (case requireHouseholdAdmin f hash now user cookie (wbDB w) of
        Inl p \<Rightarrow> (p, w)
      | Inr (u, h) \<Rightarrow>
          (case GetInviteByID (f 3) iid (wbDB w) of
             Inl e \<Rightarrow> (WpRedirect ''/settings'', w)
           | Inr i \<Rightarrow>
               if ivHousehold i \<noteq> hhID h then (WpRedirect ''/settings'', w)
               else (WpRedirect ''/settings?saved=1'', setDB (snd (CancelInvite (f 4) iid (wbDB w))) w)))"

definition handleHouseholdMemberRemovePost ::
  "stmts \<Rightarrow> (string \<Rightarrow> string) \<Rightarrow> int \<Rightarrow> UserRow option \<Rightarrow> string option \<Rightarrow> string \<Rightarrow> Web \<Rightarrow> webPage \<times> Web" where
  "handleHouseholdMemberRemovePost f hash now user cookie target w =
     (case requireHouseholdAdmin f hash now user cookie (wbDB w) of
        Inl p \<Rightarrow> (p, w)
      | Inr (u, h) \<Rightarrow>
          (case MemberCount (f 3) (hhID h) (wbDB w) of
             Inl e \<Rightarrow> (WpRedirect ''/settings'', w)
           | Inr n \<Rightarrow>
               if n \<le> 1 then (WpRedirect ''/settings?error=last+member'', w)
               else (if target = usID u then WpRedirect ''/'' else WpRedirect ''/settings?saved=1'',
                     w\<lparr>wbS := snd (RemoveMember (f 4) target (hhID h) (wbS w))\<rparr>)))"

definition handleHouseholdSwitchPost ::
  "stmts \<Rightarrow> (string \<Rightarrow> string) \<Rightarrow> int \<Rightarrow> UserRow option \<Rightarrow> string option \<Rightarrow> string \<Rightarrow> Web \<Rightarrow> webPage \<times> Web" where
  "handleHouseholdSwitchPost f hash now user cookie h w =
     (case user of None \<Rightarrow> (WpRedirect ''/auth/login'', w)
      | Some u \<Rightarrow>
          (case GetRole (f 0) (usID u) h (wbDB w) of
             Inl e \<Rightarrow> (WpRedirect ''/'', w)
           | Inr role \<Rightarrow>
               (case cookie of None \<Rightarrow> (WpRedirect ''/'', w)
                | Some t \<Rightarrow> (WpRedirect ''/'', setDB (snd (SetActiveHousehold (f 1) hash now t h (wbDB w))) w))))"

section \<open>Deleting an account\<close>

text \<open>The calls and the connections of a line that is about to go.\<close>

definition clearLine :: "bool \<Rightarrow> int \<Rightarrow> string \<Rightarrow> Web \<Rightarrow> Web" where
  "clearLine ok now number w =
     (let w = w\<lparr>wbTr := ClearByNumber ok now number (wbTr w)\<rparr>
      in w\<lparr>wbHub := fold (Unregister number) (GetAll number (wbHub w)) (wbHub w)\<rparr>)"

text \<open>The loop over the households of the user; \<open>fs i\<close> are the statements of the \<open>i\<close>-th round:
  0 the count, 1 the lines or the removal, 2 to 5 the deletion, 6 the calls.\<close>

primrec leaveHouseholds :: "(nat \<Rightarrow> stmts) \<Rightarrow> int \<Rightarrow> string \<Rightarrow> nat \<Rightarrow> HouseholdRow list \<Rightarrow> Web \<Rightarrow> bool \<times> Web" where
  "leaveHouseholds fs now u i [] w = (True, w)"
| "leaveHouseholds fs now u i (h # hs) w =
     (case MemberCount (fs i 0) (hhID h) (wbDB w) of
        Inl e \<Rightarrow> (False, w)
      | Inr n \<Rightarrow>
          if n \<le> 1 then
            (case ListByHousehold (fs i 1) (hhID h) (wbDB w) of
               Inl e \<Rightarrow> (False, w)
             | Inr ls \<Rightarrow>
                 let w = fold (\<lambda>l. clearLine (fs i 6) now (lnNumber l)) ls w in
                 (case DeleteHousehold (shift 2 (fs i)) (hhID h) (wbS w) of
                    (Inl e, s) \<Rightarrow> (False, w\<lparr>wbS := s\<rparr>)
                  | (Inr _, s) \<Rightarrow> leaveHouseholds fs now u (Suc i) hs (w\<lparr>wbS := s\<rparr>)))
          else leaveHouseholds fs now u (Suc i) hs (w\<lparr>wbS := snd (RemoveMember (fs i 1) u (hhID h) (wbS w))\<rparr>))"

definition handleAccountDeletePost ::
  "stmts \<Rightarrow> (nat \<Rightarrow> stmts) \<Rightarrow> int \<Rightarrow> UserRow option \<Rightarrow> Web \<Rightarrow> webPage \<times> Web" where
  "handleAccountDeletePost f fs now user w =
     (case user of None \<Rightarrow> (WpRedirect ''/auth/login'', w)
      | Some u \<Rightarrow>
          (case GetForUser (f 0) (usID u) (wbDB w) of
             Inl e \<Rightarrow> (WpRedirect ''/settings?error=deletion+failed'', w)
           | Inr hs \<Rightarrow>
               (case leaveHouseholds fs now (usID u) 0 hs w of
                  (False, w) \<Rightarrow> (WpRedirect ''/settings?error=deletion+failed'', w)
                | (True, w) \<Rightarrow>
                    (case DeleteUser (f 1) (usID u) (wbDB w) of
                       (Inl e, d) \<Rightarrow> (WpRedirect ''/settings?error=deletion+failed'', setDB d w)
                     | (Inr _, d) \<Rightarrow> (WpRedirect ''/auth/login'', setDB d w)))))"

section \<open>Links and accounts\<close>

definition handleLinksInvitePost ::
  "stmts \<Rightarrow> (string \<Rightarrow> string) \<Rightarrow> string option \<Rightarrow> string \<Rightarrow> int \<Rightarrow> UserRow option \<Rightarrow> string option \<Rightarrow> Web \<Rightarrow> webPage \<times> Web" where
  "handleLinksInvitePost f hash code lid now user cookie w =
     (case requireHouseholdAdmin f hash now user cookie (wbDB w) of
        Inl p \<Rightarrow> (p, w)
      | Inr (u, h) \<Rightarrow>
          (case CreateLinkInvite (f 3) code lid now (hhID h) (usID u) (wbDB w) of
             (Inl e, d) \<Rightarrow> (WpRedirect ''/links?error='', setDB d w)
           | (Inr l, d) \<Rightarrow> (WpCode (lkCode l), setDB d w)))"

text \<open>\<open>strings.ToUpper\<close> on ASCII text.\<close>

definition upperByte :: "char \<Rightarrow> char" where
  "upperByte c = (let n = of_char c :: nat in if 97 \<le> n \<and> n \<le> 122 then char_of (n - 32) else c)"

definition handleLinksAcceptPost ::
  "stmts \<Rightarrow> (string \<Rightarrow> string) \<Rightarrow> int \<Rightarrow> UserRow option \<Rightarrow> string option \<Rightarrow> string \<Rightarrow> Web \<Rightarrow> webPage \<times> Web" where
  "handleLinksAcceptPost f hash now user cookie field w =
     (case requireHouseholdMember f hash now user cookie (wbDB w) of
        Inl p \<Rightarrow> (p, w)
      | Inr (u, h) \<Rightarrow>
          let code = TrimSpace (map upperByte field) in
          if code = [] then (WpRedirect ''/links?error=invite+code+required'', w)
          else case AcceptLinkInvite (shift 3 f) now code (usID u) (hhID h) (wbDB w) of
              (Inl e, d) \<Rightarrow> (WpRedirect ''/links?error='', setDB d w)
            | (Inr l, d) \<Rightarrow>
                (case FindNumberConflicts (f 2) (lkA l) (case lkB l of None \<Rightarrow> [] | Some b \<Rightarrow> b) d of
                   Inr (c # cs) \<Rightarrow> (WpRedirect ''/links?accepted=1&conflicts='', setDB d w)
                 | _ \<Rightarrow> (WpRedirect ''/links?accepted=1'', setDB d w)))"

definition linksRevoke :: "stmts \<Rightarrow> int \<Rightarrow> UserRow option \<Rightarrow> string \<Rightarrow> Web \<Rightarrow> webPage \<times> Web" where
  "linksRevoke f now user lid w =
     (case user of None \<Rightarrow> (WpRedirect ''/auth/login'', w)
      | Some u \<Rightarrow>
          let (p, d) = handleLinksRevokePost f now (\<lambda>h. isHouseholdAdmin (f 3) user h (wbDB w)) lid (usID u) (wbDB w)
          in (case p of
                PageNotFound \<Rightarrow> notFound
              | PageForbidden \<Rightarrow> forbidden
              | PageLinksError e \<Rightarrow> WpRedirect ''/links?error=''
              | PageRevoked \<Rightarrow> WpRedirect ''/links?revoked=1''
              | PageCanceled \<Rightarrow> WpRedirect ''/links?canceled=1'', setDB d w))"

definition setAccountDisabled ::
  "stmts \<Rightarrow> int \<Rightarrow> string list \<Rightarrow> UserRow option \<Rightarrow> string \<Rightarrow> bool \<Rightarrow> Web \<Rightarrow> webPage \<times> Web" where
  "setAccountDisabled f now allow user target disabled w =
     (if \<not> requireAdmin allow user then (notFound, w)
      else if disabled \<and> map_option usID user = Some target then (WpStatus 400, w)
      else case SetDisabled f now target disabled (wbDB w) of
          (Inl e, d) \<Rightarrow> (if e = ErrUserNotFound then notFound else WpStatus 500, setDB d w)
        | (Inr _, d) \<Rightarrow> (WpRedirect ''/admin'', setDB d w))"

end
