(* ===== verification/WebPhones.thy ===== *)
theory WebPhones
  imports LineSettings WebHousehold
begin

text \<open>
  The pages that change lines and handsets, \<^verbatim>\<open>server/internal/web/handler_phones.go\<close>: pairing,
  renaming, changing the number, moving a handset, deleting a line and the commands to a
  handset.  \<open>mar\<close> is \<open>Message.Marshal\<close>.  The tracker may move while a handler runs: \<open>tr'\<close> is the
  tracker at the second look of \<open>lineBusy\<close>.
\<close>

definition TypePaired :: string where "TypePaired = ''paired''"
definition TypeFactoryReset :: string where "TypeFactoryReset = ''factory_reset''"
definition TypeRingTest :: string where "TypeRingTest = ''ring_test''"
definition TypeDevMode :: string where "TypeDevMode = ''dev_mode''"
definition TypeUpdateTrigger :: string where "TypeUpdateTrigger = ''update_trigger''"

section \<open>Names\<close>

text \<open>\<open>utf8.RuneCountInString\<close> on the bytes of a string: an invalid byte counts as one rune.\<close>

definition contByte :: "nat \<Rightarrow> nat \<Rightarrow> nat option \<Rightarrow> bool" where
  "contByte lo hi b \<longleftrightarrow> (case b of None \<Rightarrow> False | Some n \<Rightarrow> lo \<le> n \<and> n \<le> hi)"

definition nthByte :: "nat list \<Rightarrow> nat \<Rightarrow> nat option" where
  "nthByte bs i = (if i < length bs then Some (bs ! i) else None)"

text \<open>The length of the rune at the head.\<close>

definition runeLen :: "nat list \<Rightarrow> nat" where
  "runeLen bs =
     (let b = hd bs; c = nthByte bs;
          ok2 = contByte 0x80 0xBF (c 2); ok3 = contByte 0x80 0xBF (c 3)
      in if 0xC2 \<le> b \<and> b \<le> 0xDF then (if contByte 0x80 0xBF (c 1) then 2 else 1)
         else if b = 0xE0 then (if contByte 0xA0 0xBF (c 1) \<and> ok2 then 3 else 1)
         else if b = 0xED then (if contByte 0x80 0x9F (c 1) \<and> ok2 then 3 else 1)
         else if 0xE1 \<le> b \<and> b \<le> 0xEF then (if contByte 0x80 0xBF (c 1) \<and> ok2 then 3 else 1)
         else if b = 0xF0 then (if contByte 0x90 0xBF (c 1) \<and> ok2 \<and> ok3 then 4 else 1)
         else if 0xF1 \<le> b \<and> b \<le> 0xF3 then (if contByte 0x80 0xBF (c 1) \<and> ok2 \<and> ok3 then 4 else 1)
         else if b = 0xF4 then (if contByte 0x80 0x8F (c 1) \<and> ok2 \<and> ok3 then 4 else 1)
         else 1)"

lemma runeLen_pos: "runeLen bs > 0"
  by (simp add: runeLen_def Let_def)

function runeCount :: "nat list \<Rightarrow> nat" where
  "runeCount bs = (if bs = [] then 0 else Suc (runeCount (drop (runeLen bs) bs)))"
  by auto
termination by (relation "measure length") (use runeLen_pos in auto)

declare runeCount.simps [simp del]

definition RuneCountInString :: "string \<Rightarrow> nat" where
  "RuneCountInString s = runeCount (map of_char s)"

definition maxLineNameRunes :: nat where "maxLineNameRunes = 50"

definition validateLineName :: "string \<Rightarrow> string + string" where
  "validateLineName raw =
     (let name = TrimSpace raw
      in if name = [] then Inl ''name is required''
         else if RuneCountInString name > maxLineNameRunes then Inl ''name too long''
         else Inr name)"

definition devModePasswordMin :: nat where "devModePasswordMin = 8"
definition devModePasswordMax :: nat where "devModePasswordMax = 72"

definition validateDevModePassword :: "string \<Rightarrow> string option" where
  "validateDevModePassword pw =
     (if TrimSpace pw = [] then Some ''password is required''
      else let n = RuneCountInString pw
           in if n < devModePasswordMin then Some ''password must be at least 8 characters''
              else if n > devModePasswordMax then Some ''password must be at most 72 characters''
              else None)"

section \<open>Pairing\<close>

text \<open>\<open>parseInt\<close> is \<open>strconv.ParseInt\<close>; \<open>lid\<close> the id of a new line.\<close>

definition pairClaim ::
  "stmts \<Rightarrow> (string \<Rightarrow> string) \<Rightarrow> (string \<Rightarrow> int option) \<Rightarrow> string option \<Rightarrow> int \<Rightarrow> int \<Rightarrow> HouseholdRow
     \<Rightarrow> string \<Rightarrow> string \<Rightarrow> string \<Rightarrow> string \<Rightarrow> string \<Rightarrow> DB \<Rightarrow> (webPage + string \<times> string \<times> string) \<times> DB" where
  "pairClaim f hash parseInt tok lid now h code name mode existing number d =
     (if mode = ''existing'' \<and> existing \<noteq> [] then
        (case parseInt existing of None \<Rightarrow> (Inl (WpPairRefused ''invalid line selection''), d)
         | Some l \<Rightarrow>
             (case ClaimDeviceToLine (shift 4 f) hash tok now code l name (hhID h) d of
                (Inl e, d) \<Rightarrow> (Inl (WpPairError e), d)
              | (Inr (t, hw), d) \<Rightarrow>
                  (Inr (t, hw, case GetLineByID (f 3) l d of Inl e \<Rightarrow> [] | Inr r \<Rightarrow> lnNumber r), d)))
      else
        let n = StripNumber (TrimSpace number) in
        if ValidateNumber n \<noteq> None then (Inl (WpPairRefused ''invalid phone number''), d)
        else case validateLineName name of Inl e \<Rightarrow> (Inl (WpPairRefused e), d)
           | Inr label \<Rightarrow>
               (case ClaimDevice (shift 4 f) hash tok lid now code n label name (hhID h) d of
                  (Inl e, d) \<Rightarrow> (Inl (WpPairError e), d)
                | (Inr (t, hw), d) \<Rightarrow> (Inr (t, hw, n), d)))"

definition handlePhonesPairPost ::
  "(Message \<Rightarrow> string option) \<Rightarrow> stmts \<Rightarrow> (string \<Rightarrow> string) \<Rightarrow> (string \<Rightarrow> int option) \<Rightarrow> string option \<Rightarrow> int \<Rightarrow> int
     \<Rightarrow> UserRow option \<Rightarrow> string option \<Rightarrow> string \<Rightarrow> string \<Rightarrow> string \<Rightarrow> string \<Rightarrow> string \<Rightarrow> Web \<Rightarrow> webPage \<times> Web" where
  "handlePhonesPairPost mar f hash parseInt tok lid now user cookie code name mode existing number w =
     (case requireHouseholdAdmin f hash now user cookie (wbDB w) of
        Inl p \<Rightarrow> (p, w)
      | Inr (u, h) \<Rightarrow>
          (case pairClaim f hash parseInt tok lid now h (TrimSpace code) (TrimSpace name) (TrimSpace mode)
                  (TrimSpace existing) number (wbDB w) of
             (Inl p, d) \<Rightarrow> (p, setDB d w)
           | (Inr (t, hw, n), d) \<Rightarrow>
               let w = setDB d w;
                   w = (if hw \<noteq> [] \<and> n \<noteq> []
                        then w\<lparr>wbHub := snd (SendToHardware mar hw
                               (zeroMessage\<lparr>mType := TypePaired, mDeviceToken := t, mNumber := n\<rparr>) (wbHub w))\<rparr>
                        else w)
               in (WpRedirect ''/?paired'', w)))"

section \<open>Lines\<close>

definition lineBusy :: "string \<Rightarrow> Tracker \<Rightarrow> bool" where
  "lineBusy number t = Busy number t"

definition phonePage :: "string \<Rightarrow> webPage" where
  "phonePage number = WpRedirect (''/phones/'' @ number)"

definition handlePhoneNamePost :: "stmts \<Rightarrow> UserRow option \<Rightarrow> string \<Rightarrow> string \<Rightarrow> Web \<Rightarrow> webPage \<times> Web" where
  "handlePhoneNamePost f user number raw w =
     (case requireLineOwnership f user number (wbDB w) of
        Inl p \<Rightarrow> (p, w)
      | Inr l \<Rightarrow>
          (case validateLineName raw of Inl e \<Rightarrow> (WpStatus 400, w)
           | Inr name \<Rightarrow>
               if name \<noteq> lnName l then
                 (case UpdateLine (f 2) (lnID l) number name (wbDB w) of
                    (Inl e, d) \<Rightarrow> (WpStatus 500, setDB d w)
                  | (Inr _, d) \<Rightarrow> (phonePage number, setDB d w))
               else (phonePage number, w)))"

definition lineRenumber :: "string \<Rightarrow> Message" where
  "lineRenumber n = zeroMessage\<lparr>mType := TypeLineRenumber, mNumber := n\<rparr>"

text \<open>The tail of a number change that stands: the history follows, the sockets go.\<close>

definition renumbered :: "(Message \<Rightarrow> string option) \<Rightarrow> bool \<Rightarrow> string \<Rightarrow> string \<Rightarrow> Web \<Rightarrow> webPage \<times> Web" where
  "renumbered mar ok old new w =
     (phonePage new, w\<lparr>wbTr := snd (RenameNumber ok old new (wbTr w)),
                       wbHub := CloseLine mar old (Some (lineRenumber new)) (wbHub w)\<rparr>)"

definition handlePhoneNumberPost ::
  "(Message \<Rightarrow> string option) \<Rightarrow> stmts \<Rightarrow> UserRow option \<Rightarrow> string \<Rightarrow> string \<Rightarrow> Tracker \<Rightarrow> Web \<Rightarrow> webPage \<times> Web" where
  "handlePhoneNumberPost mar f user old field tr' w =
     (case requireLineOwnershipAdmin f user old (wbDB w) of
        Inl p \<Rightarrow> (p, w)
      | Inr l \<Rightarrow>
          let new = StripNumber field;
              busyMsg = ''cannot change number while on an active call''
          in if lineBusy old (wbTr w) then (WpNumberError old busyMsg, w)
             else if ValidateNumber new \<noteq> None then (WpNumberError old ''invalid number'', w)
             else if new = old then (phonePage old, w)
             else case NumberExistsExcluding (f 2) new (lnID l) (wbDB w) of
                 Inl e \<Rightarrow> (WpStatus 500, w)
               | Inr True \<Rightarrow> (WpNumberError old ''that number is already in use'', w)
               | Inr False \<Rightarrow>
                   (case UpdateLine (f 3) (lnID l) new (lnName l) (wbDB w) of
                      (Inl e, d) \<Rightarrow> (WpStatus 500, setDB d w)
                    | (Inr _, d) \<Rightarrow>
                        let w = setDB d (w\<lparr>wbTr := tr'\<rparr>) in
                        if lineBusy old (wbTr w) then
                          (case UpdateLine (f 4) (lnID l) old (lnName l) (wbDB w) of
                             (Inr _, d) \<Rightarrow> (WpNumberError old busyMsg, setDB d w)
                           | (Inl e, d) \<Rightarrow> renumbered mar (f 5) old new (setDB d w))
                        else renumbered mar (f 5) old new w))"

definition handlePhoneDelete ::
  "(Message \<Rightarrow> string option) \<Rightarrow> stmts \<Rightarrow> UserRow option \<Rightarrow> string \<Rightarrow> Web \<Rightarrow> webPage \<times> Web" where
  "handlePhoneDelete mar f user number w =
     (case requireLineOwnershipAdmin f user number (wbDB w) of
        Inl p \<Rightarrow> (p, w)
      | Inr l \<Rightarrow>
          if lineBusy number (wbTr w) then (WpStatus 409, w)
          else case DeleteLine (f 2) (lnID l) (wbDB w) of
              (Inl e, d) \<Rightarrow> (WpStatus 500, setDB d w)
            | (Inr _, d) \<Rightarrow> (WpRedirect ''/'', setDB d (w\<lparr>wbHub := CloseLine mar number None (wbHub w)\<rparr>)))"

text \<open>The handset a move is about.\<close>

definition chosenDevice :: "(string \<Rightarrow> int option) \<Rightarrow> string \<Rightarrow> DeviceRow list \<Rightarrow> DeviceRow option" where
  "chosenDevice parseInt field vs =
     (if field \<noteq> [] then (case parseInt field of None \<Rightarrow> None | Some i \<Rightarrow> find (\<lambda>v. dvID v = i) vs)
      else if length vs \<noteq> 1 then None else Some (hd vs))"

text \<open>After a move that stands: the handset's socket goes, and an empty line with it.\<close>

definition converted ::
  "(Message \<Rightarrow> string option) \<Rightarrow> stmts \<Rightarrow> string \<Rightarrow> AccessDB.LineRow \<Rightarrow> AccessDB.LineRow \<Rightarrow> DeviceRow \<Rightarrow> Web \<Rightarrow> webPage \<times> Web" where
  "converted mar f number src tgt v w =
     (let w = w\<lparr>wbHub := CloseHardware mar (dvHardwareID v) (Some (lineRenumber (lnNumber tgt))) (wbHub w)\<rparr>
      in case ListByLine (f 6) (lnID src) (wbDB w) of
           Inl e \<Rightarrow> (phonePage number, w)
         | Inr [] \<Rightarrow> (WpRedirect ''/phones'', setDB (snd (DeleteLine (f 7) (lnID src) (wbDB w))) w)
         | Inr (_ # _) \<Rightarrow> (phonePage number, w))"

definition handlePhoneConvert ::
  "(Message \<Rightarrow> string option) \<Rightarrow> stmts \<Rightarrow> (string \<Rightarrow> int option) \<Rightarrow> UserRow option \<Rightarrow> string \<Rightarrow> string \<Rightarrow> string \<Rightarrow> Tracker
     \<Rightarrow> Web \<Rightarrow> webPage \<times> Web" where
  "handlePhoneConvert mar f parseInt user number targetField deviceField tr' w =
     (case requireLineOwnershipAdmin f user number (wbDB w) of
        Inl p \<Rightarrow> (p, w)
      | Inr src \<Rightarrow>
          let busyMsg = ''cannot move a handset while its line is on an active call'' in
          if lineBusy number (wbTr w) then (WpNumberError number busyMsg, w)
          else case parseInt (TrimSpace targetField) of
              None \<Rightarrow> (WpStatus 400, w)
            | Some t \<Rightarrow>
                if lnID src = t then (WpStatus 400, w)
                else case GetLineByID (f 2) t (wbDB w) of
                    Inl e \<Rightarrow> (notFound, w)
                  | Inr tgt \<Rightarrow>
                      if lnHousehold tgt \<noteq> lnHousehold src then (forbidden, w)
                      else case ListByLine (f 3) (lnID src) (wbDB w) of
                          Inl e \<Rightarrow> (WpStatus 500, w)
                        | Inr vs \<Rightarrow>
                            (case chosenDevice parseInt (TrimSpace deviceField) vs of
                               None \<Rightarrow> (WpStatus 400, w)
                             | Some v \<Rightarrow>
                                 (case Reassign (f 4) (dvID v) t (wbDB w) of
                                    (Inl e, d) \<Rightarrow> (WpStatus 500, setDB d w)
                                  | (Inr _, d) \<Rightarrow>
                                      let w = setDB d (w\<lparr>wbTr := tr'\<rparr>) in
                                      if lineBusy number (wbTr w) then
                                        (case Reassign (f 5) (dvID v) (lnID src) (wbDB w) of
                                           (Inr _, d) \<Rightarrow> (WpNumberError number busyMsg, setDB d w)
                                         | (Inl e, d) \<Rightarrow> converted mar f number src tgt v (setDB d w))
                                      else converted mar f number src tgt v w)))"

section \<open>Commands to a handset\<close>

datatype phoneCommand =
    CmdUpdate string string
  | CmdRingTest
  | CmdFactoryReset
  | CmdRestart string
  | CmdDevMode bool string

definition sendDeviceCommand ::
  "(Message \<Rightarrow> string option) \<Rightarrow> string \<Rightarrow> string \<Rightarrow> Message \<Rightarrow> Web \<Rightarrow> webPage \<times> Web" where
  "sendDeviceCommand mar number hw msg w =
     (let (e, h) = (if hw \<noteq> [] then SendToHardware mar hw msg (wbHub w) else SendTo mar number msg (wbHub w))
      in (WpCommand (e = None), w\<lparr>wbHub := h\<rparr>))"

text \<open>Updating and resetting forget the last status; restarting and developer mode check their
  fields between the guard and the choice of the handset.\<close>

definition handlePhoneUpdate ::
  "(Message \<Rightarrow> string option) \<Rightarrow> stmts \<Rightarrow> UserRow option \<Rightarrow> string \<Rightarrow> string \<Rightarrow> string \<Rightarrow> string \<Rightarrow> Web \<Rightarrow> webPage \<times> Web" where
  "handlePhoneUpdate mar f user number want pi fw w =
     (case requireDeviceCommand f user number want True (wbDB w) of
        Inl p \<Rightarrow> (p, w)
      | Inr hw \<Rightarrow> sendDeviceCommand mar number hw
          (zeroMessage\<lparr>mType := TypeUpdateTrigger, mTargetPiVersion := TrimSpace pi, mTargetFWVersion := TrimSpace fw\<rparr>)
          (w\<lparr>wbHub := ClearUpdateStatus hw (wbHub w)\<rparr>))"

definition handlePhoneRingTest ::
  "(Message \<Rightarrow> string option) \<Rightarrow> stmts \<Rightarrow> UserRow option \<Rightarrow> string \<Rightarrow> string \<Rightarrow> Web \<Rightarrow> webPage \<times> Web" where
  "handlePhoneRingTest mar f user number want w =
     (case requireDeviceCommand f user number want False (wbDB w) of
        Inl p \<Rightarrow> (p, w)
      | Inr hw \<Rightarrow> sendDeviceCommand mar number hw (zeroMessage\<lparr>mType := TypeRingTest\<rparr>) w)"

definition handlePhoneFactoryReset ::
  "(Message \<Rightarrow> string option) \<Rightarrow> stmts \<Rightarrow> UserRow option \<Rightarrow> string \<Rightarrow> string \<Rightarrow> Web \<Rightarrow> webPage \<times> Web" where
  "handlePhoneFactoryReset mar f user number want w =
     (case requireDeviceCommand f user number want True (wbDB w) of
        Inl p \<Rightarrow> (p, w)
      | Inr hw \<Rightarrow> sendDeviceCommand mar number hw (zeroMessage\<lparr>mType := TypeFactoryReset\<rparr>)
          (w\<lparr>wbHub := ClearUpdateStatus hw (wbHub w)\<rparr>))"

definition handlePhoneRestart ::
  "(Message \<Rightarrow> string option) \<Rightarrow> stmts \<Rightarrow> UserRow option \<Rightarrow> string \<Rightarrow> string \<Rightarrow> string \<Rightarrow> Web \<Rightarrow> webPage \<times> Web" where
  "handlePhoneRestart mar f user number want mode w =
     (case requireLineOwnershipAdmin f user number (wbDB w) of
        Inl p \<Rightarrow> (p, w)
      | Inr l \<Rightarrow>
          if TrimSpace mode \<noteq> ''service'' \<and> TrimSpace mode \<noteq> ''reboot'' then (WpStatus 400, w)
          else case requireLineDevice (f 2) (TrimSpace want) l (wbDB w) of
              Inl p \<Rightarrow> (p, w)
            | Inr (hw, _) \<Rightarrow> sendDeviceCommand mar number hw
                (zeroMessage\<lparr>mType := TypeRestart, mRestartMode := TrimSpace mode\<rparr>) w)"

definition handlePhoneDevMode ::
  "(Message \<Rightarrow> string option) \<Rightarrow> stmts \<Rightarrow> UserRow option \<Rightarrow> string \<Rightarrow> string \<Rightarrow> bool \<Rightarrow> string \<Rightarrow> Web \<Rightarrow> webPage \<times> Web" where
  "handlePhoneDevMode mar f user number want on pw w =
     (case requireLineOwnershipAdmin f user number (wbDB w) of
        Inl p \<Rightarrow> (p, w)
      | Inr l \<Rightarrow>
          if on \<and> validateDevModePassword pw \<noteq> None then (WpStatus 400, w)
          else case requireLineDevice (f 2) (TrimSpace want) l (wbDB w) of
              Inl p \<Rightarrow> (p, w)
            | Inr (hw, _) \<Rightarrow> sendDeviceCommand mar number hw
                (zeroMessage\<lparr>mType := TypeDevMode, mDevMode := on,
                   mDevModePassword := (if on then pw else [])\<rparr>) w)"

definition handlePhoneCommand ::
  "(Message \<Rightarrow> string option) \<Rightarrow> stmts \<Rightarrow> UserRow option \<Rightarrow> string \<Rightarrow> string \<Rightarrow> phoneCommand \<Rightarrow> Web \<Rightarrow> webPage \<times> Web" where
  "handlePhoneCommand mar f user number want cmd w =
     (case cmd of
        CmdUpdate pi fw \<Rightarrow> handlePhoneUpdate mar f user number want pi fw w
      | CmdRingTest \<Rightarrow> handlePhoneRingTest mar f user number want w
      | CmdFactoryReset \<Rightarrow> handlePhoneFactoryReset mar f user number want w
      | CmdRestart mode \<Rightarrow> handlePhoneRestart mar f user number want mode w
      | CmdDevMode on pw \<Rightarrow> handlePhoneDevMode mar f user number want on pw w)"

lemmas handlePhoneCommand_defs = handlePhoneCommand_def handlePhoneUpdate_def handlePhoneRingTest_def
  handlePhoneFactoryReset_def handlePhoneRestart_def handlePhoneDevMode_def

end
