(* ===== verification/WebRuns.thy ===== *)
theory WebRuns
  imports WebPhones
begin

text \<open>
  The web layer as a machine.  A request is made by the user whom \<open>RequireAuth\<close> found; sign-in
  requests are moves of \<open>access_step\<close>.
\<close>

section \<open>Requests\<close>

datatype webMove =
    WmSignIn accessMove
  | WmOnboard stmts string int "UserRow option" string
  | WmWelcome bool "UserRow option" string
  | WmInviteAccept stmts int "string option" string
  | WmSetting stmts int "UserRow option" "string option" householdSetting
  | WmInvite stmts "string option" string int "UserRow option" "string option" "string option"
  | WmInviteCancel stmts int "UserRow option" "string option" string
  | WmMemberRemove stmts int "UserRow option" "string option" string
  | WmSwitch stmts int "UserRow option" "string option" string
  | WmAccountDelete stmts "nat \<Rightarrow> stmts" int "UserRow option"
  | WmLinkInvite stmts "string option" string int "UserRow option" "string option"
  | WmLinkAccept stmts int "UserRow option" "string option" string
  | WmLinkRevoke stmts int "UserRow option" string
  | WmSetDisabled stmts int "string list" "UserRow option" string bool
  | WmPair stmts "string option" int int "UserRow option" "string option" string string string string string
  | WmName stmts "UserRow option" string string
  | WmNumber stmts "UserRow option" string string Tracker
  | WmDelete stmts "UserRow option" string
  | WmConvert stmts "UserRow option" string string string Tracker
  | WmCommand stmts "UserRow option" string string phoneCommand

text \<open>What the machine takes from outside: the digest, the encoder of messages, the reader of integers.\<close>

record Outside =
  oHash :: "string \<Rightarrow> string"
  oMarshal :: "Message \<Rightarrow> string option"
  oParseInt :: "string \<Rightarrow> int option"

fun web_handle :: "Outside \<Rightarrow> webMove \<Rightarrow> Web \<Rightarrow> webPage \<times> Web" where
  "web_handle o' (WmSignIn m) w = (WpPage, w\<lparr>wbS := access_step (oHash o') m (wbS w)\<rparr>)"
| "web_handle o' (WmOnboard f hid now user name) w = handleOnboardPost f hid now user name w"
| "web_handle o' (WmWelcome ok user theme) w = handleWelcomePost ok user theme w"
| "web_handle o' (WmInviteAccept f now cookie tok) w = handleInviteAcceptPost f (oHash o') now cookie tok w"
| "web_handle o' (WmSetting f now user cookie q) w =
     handleHouseholdAdminPost f (oHash o') now user cookie (saveSetting (f 3) q) w"
| "web_handle o' (WmInvite f tok i now user cookie addr) w =
     handleHouseholdInvitePost f (oHash o') tok i now user cookie addr w"
| "web_handle o' (WmInviteCancel f now user cookie i) w = handleHouseholdInviteCancelPost f (oHash o') now user cookie i w"
| "web_handle o' (WmMemberRemove f now user cookie v) w = handleHouseholdMemberRemovePost f (oHash o') now user cookie v w"
| "web_handle o' (WmSwitch f now user cookie h) w = handleHouseholdSwitchPost f (oHash o') now user cookie h w"
| "web_handle o' (WmAccountDelete f fs now user) w = handleAccountDeletePost f fs now user w"
| "web_handle o' (WmLinkInvite f code l now user cookie) w = handleLinksInvitePost f (oHash o') code l now user cookie w"
| "web_handle o' (WmLinkAccept f now user cookie code) w = handleLinksAcceptPost f (oHash o') now user cookie code w"
| "web_handle o' (WmLinkRevoke f now user l) w = linksRevoke f now user l w"
| "web_handle o' (WmSetDisabled f now allow user v b) w = setAccountDisabled f now allow user v b w"
| "web_handle o' (WmPair f tok lid now user cookie code name mode existing number) w =
     handlePhonesPairPost (oMarshal o') f (oHash o') (oParseInt o') tok lid now user cookie code name mode existing number w"
| "web_handle o' (WmName f user number name) w = handlePhoneNamePost f user number name w"
| "web_handle o' (WmNumber f user old new tr) w = handlePhoneNumberPost (oMarshal o') f user old new tr w"
| "web_handle o' (WmDelete f user number) w = handlePhoneDelete (oMarshal o') f user number w"
| "web_handle o' (WmConvert f user number tgt dev tr) w =
     handlePhoneConvert (oMarshal o') f (oParseInt o') user number tgt dev tr w"
| "web_handle o' (WmCommand f user number want cmd) w = handlePhoneCommand (oMarshal o') f user number want cmd w"

definition web_step :: "Outside \<Rightarrow> webMove \<Rightarrow> Web \<Rightarrow> Web" where
  "web_step o' m w = snd (web_handle o' m w)"

text \<open>The sign-in requests: what browsers that are not signed in, and the middleware, do.\<close>

fun signInMove :: "accessMove \<Rightarrow> bool" where
  "signInMove (AmMagicRequest f tok now allowed ck email r hp) = True"
| "signInMove (AmMagicVerify f tok uid sid now t) = True"
| "signInMove (AmGoogle f tok uid sid now cookie r st info) = True"
| "signInMove (AmRequireAuth f now cookie) = True"
| "signInMove (AmLogout ok cookie r) = True"
| "signInMove (AmCleanupAuth f now) = True"
| "signInMove (AmNeedsOnboarding ok u) = True"
| "signInMove (AmGenerateCode ok c dv now hw) = True"
| "signInMove (AmCleanupCodes ok now) = True"
| "signInMove (AmUnpair ok hw) = True"
| "signInMove (AmTouch ok now hw) = True"
| "signInMove _ = False"

fun web_move_ok :: "webMove \<Rightarrow> Web \<Rightarrow> bool" where
  "web_move_ok (WmSignIn m) w \<longleftrightarrow> signInMove m \<and> access_move_ok m (wbS w)"
| "web_move_ok _ w \<longleftrightarrow> True"

text \<open>The id of the user a request acts for.\<close>

fun actor :: "Outside \<Rightarrow> webMove \<Rightarrow> Web \<Rightarrow> string option" where
  "actor o' (WmSignIn m) w = None"
| "actor o' (WmOnboard f hid now user name) w = map_option usID user"
| "actor o' (WmWelcome ok user theme) w = map_option usID user"
| "actor o' (WmInviteAccept f now cookie tok) w = map_option (usID \<circ> fst) (userFromSessionCookie f (oHash o') now cookie (wbDB w))"
| "actor o' (WmSetting f now user cookie q) w = map_option usID user"
| "actor o' (WmInvite f tok i now user cookie addr) w = map_option usID user"
| "actor o' (WmInviteCancel f now user cookie i) w = map_option usID user"
| "actor o' (WmMemberRemove f now user cookie v) w = map_option usID user"
| "actor o' (WmSwitch f now user cookie h) w = map_option usID user"
| "actor o' (WmAccountDelete f fs now user) w = map_option usID user"
| "actor o' (WmLinkInvite f code l now user cookie) w = map_option usID user"
| "actor o' (WmLinkAccept f now user cookie code) w = map_option usID user"
| "actor o' (WmLinkRevoke f now user l) w = map_option usID user"
| "actor o' (WmSetDisabled f now allow user v b) w = map_option usID user"
| "actor o' (WmPair f tok lid now user cookie code name mode existing number) w = map_option usID user"
| "actor o' (WmName f user number name) w = map_option usID user"
| "actor o' (WmNumber f user old new tr) w = map_option usID user"
| "actor o' (WmDelete f user number) w = map_option usID user"
| "actor o' (WmConvert f user number tgt dev tr) w = map_option usID user"
| "actor o' (WmCommand f user number want cmd) w = map_option usID user"

section \<open>The state stays well-formed\<close>

lemma setDB_sel [simp]:
  "hsDB (wbS (setDB d w)) = d" "hsCache (wbS (setDB d w)) = hsCache (wbS w)" "wbHub (setDB d w) = wbHub w"
  "wbTr (setDB d w) = wbTr w"
  by (simp_all add: setDB_def)

text \<open>Every request is a run of store operations.\<close>

definition storeRun :: "(string \<Rightarrow> string) \<Rightarrow> HStore \<Rightarrow> HStore \<Rightarrow> bool" where
  "storeRun hash s s' \<longleftrightarrow> (\<exists>ms. allowed_run (access_step hash) access_move_ok ms s \<and> fold (access_step hash) ms s = s')"

lemma storeRun_refl [simp, intro]: "storeRun hash s s"
  unfolding storeRun_def by (rule exI [of _ "[]"]) simp

lemma storeRun_step: "access_move_ok m s \<Longrightarrow> storeRun hash s (access_step hash m s)"
  unfolding storeRun_def by (rule exI [of _ "[m]"]) simp

lemma allowed_append: "allowed_run st ok (xs @ ys) s \<longleftrightarrow> allowed_run st ok xs s \<and> allowed_run st ok ys (fold st xs s)"
  by (induction xs arbitrary: s) auto

lemma storeRun_trans [trans]: "storeRun hash s s' \<Longrightarrow> storeRun hash s' s'' \<Longrightarrow> storeRun hash s s''"
  unfolding storeRun_def by (metis allowed_append fold_append comp_apply)

text \<open>Each store operation a handler uses is one step.\<close>

lemma store_ops:
  "storeRun hash s (snd (CreateHousehold f h now nm u s))"
  "storeRun hash s (snd (RedeemInvite f now t u email s))"
  "storeRun hash s (snd (RemoveMember ok u h s))"
  "storeRun hash s (snd (DeleteHousehold f h s))"
  "storeRun hash s (s\<lparr>hsDB := snd (SetThemeAndMarkChosen ok u th (hsDB s))\<rparr>)"
  "storeRun hash s (s\<lparr>hsDB := snd (SetActiveHousehold ok hash now t h (hsDB s))\<rparr>)"
  "storeRun hash s (s\<lparr>hsDB := snd (UpdateName ok h nm (hsDB s))\<rparr>)"
  "storeRun hash s (s\<lparr>hsDB := snd (SetCallHistoryEnabled ok h b (hsDB s))\<rparr>)"
  "storeRun hash s (s\<lparr>hsDB := snd (SetTimezone ok (\<lambda>_. b) h tz (hsDB s))\<rparr>)"
  "storeRun hash s (s\<lparr>hsDB := snd (CreateInvite ok tok i now h a u (hsDB s))\<rparr>)"
  "storeRun hash s (s\<lparr>hsDB := snd (CancelInvite ok i (hsDB s))\<rparr>)"
  "storeRun hash s (s\<lparr>hsDB := snd (DeleteUser ok u (hsDB s))\<rparr>)"
  "storeRun hash s (s\<lparr>hsDB := snd (CreateLinkInvite ok tok l now h u (hsDB s))\<rparr>)"
  "storeRun hash s (s\<lparr>hsDB := snd (AcceptLinkInvite f now c u h (hsDB s))\<rparr>)"
  "storeRun hash s (s\<lparr>hsDB := snd (RevokeLink ok now l u (hsDB s))\<rparr>)"
  "storeRun hash s (s\<lparr>hsDB := snd (SetDisabled f now u b (hsDB s))\<rparr>)"
  "storeRun hash s (s\<lparr>hsDB := snd (UpdateLine ok ln n nm (hsDB s))\<rparr>)"
  "storeRun hash s (s\<lparr>hsDB := snd (DeleteLine ok ln (hsDB s))\<rparr>)"
  "storeRun hash s (s\<lparr>hsDB := snd (Reassign ok dv ln (hsDB s))\<rparr>)"
  "storeRun hash s (s\<lparr>hsDB := snd (ClaimDevice f hash tok ln now c n lnm dn h (hsDB s))\<rparr>)"
  "storeRun hash s (s\<lparr>hsDB := snd (ClaimDeviceToLine f hash tok now c ln dn h (hsDB s))\<rparr>)"
  using storeRun_step [of "AmCreateHousehold f h now nm u" s hash] storeRun_step [of "AmRedeem f now t u email" s hash]
    storeRun_step [of "AmRemoveMember ok u h" s hash] storeRun_step [of "AmDeleteHousehold f h" s hash]
    storeRun_step [of "AmTheme ok u th" s hash] storeRun_step [of "AmSetActive ok now t h" s hash]
    storeRun_step [of "AmUpdateName ok h nm" s hash] storeRun_step [of "AmHistory ok h b" s hash]
    storeRun_step [of "AmTimezone ok b h tz" s hash] storeRun_step [of "AmInvite ok tok i now h a u" s hash]
    storeRun_step [of "AmCancelInvite ok i" s hash] storeRun_step [of "AmDeleteUser ok u" s hash]
    storeRun_step [of "AmLinkInvite ok tok l now h u" s hash] storeRun_step [of "AmAcceptLink f now c u h" s hash]
    storeRun_step [of "AmRevokeLink ok now l u" s hash] storeRun_step [of "AmSetDisabled f now u b" s hash]
    storeRun_step [of "AmUpdateLine ok ln n nm" s hash] storeRun_step [of "AmDeleteLine ok ln" s hash]
    storeRun_step [of "AmReassign ok dv ln" s hash] storeRun_step [of "AmClaim f tok ln now c n lnm dn h" s hash]
    storeRun_step [of "AmClaimToLine f tok now c ln dn h" s hash]
  by (simp_all only: access_step.simps access_move_ok.simps onDB_def simp_thms)

text \<open>The same for the database in the state of the server.\<close>

definition webRun :: "(string \<Rightarrow> string) \<Rightarrow> Web \<Rightarrow> Web \<Rightarrow> bool" where
  "webRun hash w w' \<longleftrightarrow> storeRun hash (wbS w) (wbS w')"

lemma webRun_refl: "wbS w' = wbS w \<Longrightarrow> webRun hash w w'"
  by (simp add: webRun_def)

lemma webRun_trans: "webRun hash w w' \<Longrightarrow> webRun hash w' w'' \<Longrightarrow> webRun hash w w''"
  unfolding webRun_def by (rule storeRun_trans)

lemma webRun_more [simp]:
  "webRun hash w (w'\<lparr>wbHub := h\<rparr>) = webRun hash w w'" "webRun hash w (w'\<lparr>wbTr := t\<rparr>) = webRun hash w w'"
  "webRun hash w (w'\<lparr>wbMail := m\<rparr>) = webRun hash w w'" "webRun hash (w\<lparr>wbHub := h\<rparr>) w' = webRun hash w w'"
  "webRun hash (w\<lparr>wbTr := t\<rparr>) w' = webRun hash w w'" "webRun hash (w\<lparr>wbMail := m\<rparr>) w' = webRun hash w w'"
  by (simp_all add: webRun_def)

lemma setDB_more [simp]: "setDB d (w\<lparr>wbHub := h\<rparr>) = (setDB d w)\<lparr>wbHub := h\<rparr>" "setDB d (w\<lparr>wbTr := t\<rparr>) = (setDB d w)\<lparr>wbTr := t\<rparr>"
  "setDB d (w\<lparr>wbMail := m\<rparr>) = (setDB d w)\<lparr>wbMail := m\<rparr>" "setDB d (setDB d' w) = setDB d w" "setDB (hsDB (wbS w)) w = w"
  by (simp_all add: setDB_def)

lemma webRun_DB: "storeRun hash (wbS w) ((wbS w)\<lparr>hsDB := snd r\<rparr>) \<Longrightarrow> r = (x, d) \<Longrightarrow> webRun hash w (setDB d w)"
  by (simp add: webRun_def setDB_def)

lemma webRun_S: "storeRun hash (wbS w) (snd r) \<Longrightarrow> r = (x, s) \<Longrightarrow> webRun hash w (w\<lparr>wbS := s\<rparr>)"
  by (simp add: webRun_def)

lemmas webRun_ops = store_ops(1-4) [THEN webRun_S] store_ops(5-21) [THEN webRun_DB]

lemma webRun_id [simp, intro]: "webRun hash w w"
  by (rule webRun_refl) simp

lemma clearLine_S: "wbS (clearLine ok now n w) = wbS w"
  by (simp add: clearLine_def Let_def)

lemma clearLines_S: "wbS (fold (\<lambda>l. clearLine ok now (lnNumber l)) ls w) = wbS w"
  by (induction ls arbitrary: w) (simp_all add: clearLine_S)

lemma leave_run: "webRun hash w (snd (leaveHouseholds fs now u i hs w))"
proof (induction hs arbitrary: i w)
  case (Cons h hs)
  show ?case
  proof (cases "MemberCount (fs i 0) (hhID h) (wbDB w)")
    case (Inr n)
    show ?thesis
    proof (cases "n \<le> 1")
      case True
      show ?thesis
      proof (cases "ListByHousehold (fs i 1) (hhID h) (wbDB w)")
        case ls: (Inr ls)
        let ?w = "fold (\<lambda>l. clearLine (fs i 6) now (lnNumber l)) ls w"
        obtain r s where d: "DeleteHousehold (shift 2 (fs i)) (hhID h) (wbS ?w) = (r, s)" by fastforce
        then have 1: "webRun hash w (?w\<lparr>wbS := s\<rparr>)"
          using webRun_ops(4) [OF d, of hash] by (simp add: webRun_def clearLines_S)
        show ?thesis using Inr True ls d 1 webRun_trans [OF 1 Cons.IH]
          by (cases r) (simp_all add: Let_def del: One_nat_def)
      qed (use Inr True in \<open>simp del: One_nat_def\<close>)
    next
      case False
      have "webRun hash w (w\<lparr>wbS := snd (RemoveMember (fs i 1) u (hhID h) (wbS w))\<rparr>)"
        by (simp add: webRun_def store_ops(3))
      from webRun_trans [OF this Cons.IH] show ?thesis using Inr False by (simp del: One_nat_def)
    qed
  qed simp
qed simp

text \<open>Every handler.\<close>

lemma household_runs:
  "webRun hash w (snd (handleOnboardPost f hid now user nm w))"
  "webRun hash w (snd (handleWelcomePost ok user th w))"
  "webRun hash w (snd (handleInviteAcceptPost f hash now cookie tok w))"
  "webRun hash w (snd (handleHouseholdAdminPost f hash now user cookie (saveSetting ok q) w))"
  "webRun hash w (snd (handleHouseholdInvitePost f hash rtok i now user cookie addr w))"
  "webRun hash w (snd (handleHouseholdInviteCancelPost f hash now user cookie i w))"
  "webRun hash w (snd (handleHouseholdMemberRemovePost f hash now user cookie v w))"
  "webRun hash w (snd (handleHouseholdSwitchPost f hash now user cookie h w))"
  "webRun hash w (snd (handleAccountDeletePost f fs now user w))"
proof -
  show "webRun hash w (snd (handleOnboardPost f hid now user nm w))"
    by (auto simp: handleOnboardPost_def Let_def split: option.split prod.split intro: webRun_ops)
  show "webRun hash w (snd (handleWelcomePost ok user th w))"
    by (auto simp: handleWelcomePost_def split: option.split prod.split sum.split intro: webRun_ops)
  show "webRun hash w (snd (handleInviteAcceptPost f hash now cookie tok w))"
  proof (cases "userFromSessionCookie f hash now cookie (wbDB w)")
    case (Some ut)
    obtain u t where ut: "ut = (u, t)" by (cases ut)
    obtain r s where R: "RedeemInvite (shift 3 f) now tok (usID u) (usEmail u) (wbS w) = (r, s)" by fastforce
    have 1: "webRun hash w (w\<lparr>wbS := s\<rparr>)" by (rule webRun_ops(2) [OF R])
    have "webRun hash (w\<lparr>wbS := s\<rparr>) (setDB (snd (SetActiveHousehold (f 2) hash now t h (hsDB s))) (w\<lparr>wbS := s\<rparr>))" for h
      by (simp add: webRun_def setDB_def store_ops)
    then show ?thesis using Some ut R 1 by (auto simp: handleInviteAcceptPost_def split: sum.split intro: webRun_trans)
  qed (simp add: handleInviteAcceptPost_def)
  have save: "storeRun hash (wbS w) ((wbS w)\<lparr>hsDB := snd (saveSetting ok q h (wbDB w))\<rparr>)" for h
    by (auto simp: saveSetting_def store_ops split: householdSetting.split)
  show "webRun hash w (snd (handleHouseholdAdminPost f hash now user cookie (saveSetting ok q) w))"
    by (auto simp: handleHouseholdAdminPost_def split: sum.split prod.split intro: webRun_DB [OF save])
  show "webRun hash w (snd (handleHouseholdInvitePost f hash rtok i now user cookie addr w))"
    by (auto simp: handleHouseholdInvitePost_def Let_def split: sum.split prod.split option.split bool.split intro: webRun_ops)
  show "webRun hash w (snd (handleHouseholdInviteCancelPost f hash now user cookie i w))"
    by (auto simp: handleHouseholdInviteCancelPost_def webRun_def setDB_def store_ops split: sum.split)
  show "webRun hash w (snd (handleHouseholdMemberRemovePost f hash now user cookie v w))"
    by (auto simp: handleHouseholdMemberRemovePost_def webRun_def store_ops split: sum.split)
  show "webRun hash w (snd (handleHouseholdSwitchPost f hash now user cookie h w))"
    by (auto simp: handleHouseholdSwitchPost_def webRun_def setDB_def store_ops split: sum.split option.split)
  show "webRun hash w (snd (handleAccountDeletePost f fs now user w))"
  proof (cases user)
    case (Some u)
    show ?thesis
    proof (cases "GetForUser (f 0) (usID u) (wbDB w)")
      case (Inr hs)
      obtain b w1 where L: "leaveHouseholds fs now (usID u) 0 hs w = (b, w1)" by fastforce
      then have 1: "webRun hash w w1" using leave_run [of hash w fs now "usID u" 0 hs] by simp
      have "webRun hash w1 (setDB (snd (DeleteUser (f 1) (usID u) (wbDB w1))) w1)" by (simp add: webRun_def setDB_def store_ops)
      with 1 have "webRun hash w (setDB (snd (DeleteUser (f 1) (usID u) (wbDB w1))) w1)" by (rule webRun_trans)
      then show ?thesis using Some Inr L 1 by (cases b) (auto simp: handleAccountDeletePost_def split: sum.split prod.split)
    qed (simp add: Some handleAccountDeletePost_def)
  qed (simp add: handleAccountDeletePost_def)
qed

lemma link_runs:
  "webRun hash w (snd (handleLinksInvitePost f hash code l now user cookie w))"
  "webRun hash w (snd (handleLinksAcceptPost f hash now user cookie field w))"
  "webRun hash w (snd (linksRevoke f now user l w))"
  "webRun hash w (snd (setAccountDisabled f now allow user v b w))"
proof -
  show "webRun hash w (snd (handleLinksInvitePost f hash code l now user cookie w))"
    by (auto simp: handleLinksInvitePost_def split: sum.split prod.split intro: webRun_ops)
  show "webRun hash w (snd (handleLinksAcceptPost f hash now user cookie field w))"
    by (auto simp: handleLinksAcceptPost_def Let_def split: sum.split prod.split list.split intro: webRun_ops)
  have "snd (handleLinksRevokePost f now admin l u d) = d
      \<or> snd (handleLinksRevokePost f now admin l u d) = snd (RevokeLink (f 2) now l u d)" for admin u d
    by (auto simp: handleLinksRevokePost_def split: sum.split prod.split)
  then have "storeRun hash (wbS w) ((wbS w)\<lparr>hsDB := snd (handleLinksRevokePost f now admin l u (wbDB w))\<rparr>)" for admin u
    using store_ops(15) [of hash "wbS w" "f 2" now l u] by (metis HStore.surjective HStore.update_convs(1) storeRun_refl)
  then show "webRun hash w (snd (linksRevoke f now user l w))"
    by (auto simp: linksRevoke_def Let_def split: option.split prod.split intro: webRun_DB)
  show "webRun hash w (snd (setAccountDisabled f now allow user v b w))"
    by (auto simp: setAccountDisabled_def split: sum.split prod.split intro: webRun_ops)
qed

lemma phone_runs:
  "webRun hash w (snd (handlePhonesPairPost mar f hash pint tok lid now user cookie code name mode existing number w))"
  "webRun hash w (snd (handlePhoneNamePost f user number name w))"
  "webRun hash w (snd (handlePhoneNumberPost mar f user number new tr w))"
  "webRun hash w (snd (handlePhoneDelete mar f user number w))"
  "webRun hash w (snd (handlePhoneConvert mar f pint user number tgt dev tr w))"
  "webRun hash w (snd (handlePhoneCommand mar f user number want cmd w))"
proof -
  have claim: "storeRun hash (wbS w) ((wbS w)\<lparr>hsDB := snd (pairClaim f hash pint tok lid now h code name mode existing number (wbDB w))\<rparr>)"
    for h code name mode existing
  proof -
    let ?P = "\<lambda>d. storeRun hash (wbS w) ((wbS w)\<lparr>hsDB := d\<rparr>)"
    have id: "?P (wbDB w)" by simp
    show ?thesis
    proof (cases "mode = ''existing'' \<and> existing \<noteq> []")
      case True
      show ?thesis
      proof (cases "pint existing")
        case (Some l)
        have "snd (pairClaim f hash pint tok lid now h code name mode existing number (wbDB w))
            = snd (ClaimDeviceToLine (shift 4 f) hash tok now code l name (hhID h) (wbDB w))"
          using True Some by (simp add: pairClaim_def split: sum.split prod.split)
        then show ?thesis using store_ops(21) by simp
      qed (use True id in \<open>simp add: pairClaim_def\<close>)
    next
      case False
      let ?n = "StripNumber (TrimSpace number)"
      show ?thesis
      proof (cases "validateLineName name")
        case (Inr nm)
        have "snd (pairClaim f hash pint tok lid now h code name mode existing number (wbDB w))
            = (if ValidateNumber ?n \<noteq> None then wbDB w
               else snd (ClaimDevice (shift 4 f) hash tok lid now code ?n nm name (hhID h) (wbDB w)))"
          using False Inr by (auto simp: pairClaim_def Let_def split: sum.split prod.split)
        then show ?thesis using store_ops(20) id by simp
      qed (use False id in \<open>auto simp: pairClaim_def Let_def\<close>)
    qed
  qed
  show "webRun hash w (snd (handlePhonesPairPost mar f hash pint tok lid now user cookie code name mode existing number w))"
    by (auto simp: handlePhonesPairPost_def Let_def split: sum.split prod.split intro: webRun_DB [OF claim])
  show "webRun hash w (snd (handlePhoneNamePost f user number name w))"
    by (auto simp: handlePhoneNamePost_def split: sum.split prod.split intro: webRun_ops)
  show "webRun hash w (snd (handlePhoneDelete mar f user number w))"
    by (auto simp: handlePhoneDelete_def split: sum.split prod.split intro: webRun_ops)
  have send: "wbS (snd (sendDeviceCommand mar number hw msg w)) = wbS w" for hw msg w
    by (simp add: sendDeviceCommand_def Let_def split: prod.split)
  show "webRun hash w (snd (handlePhoneCommand mar f user number want cmd w))"
    by (auto simp: handlePhoneCommand_defs webRun_def send split: phoneCommand.split sum.split prod.split)
  have up: "webRun hash v (setDB (snd (UpdateLine ok ln n nm (wbDB v))) v)" "webRun hash v (setDB (snd (Reassign ok dv ln (wbDB v))) v)"
    "webRun hash v (setDB (snd (DeleteLine ok ln (wbDB v))) v)" for v ok ln n nm dv
    by (simp_all add: webRun_def setDB_def store_ops)
  show "webRun hash w (snd (handlePhoneNumberPost mar f user number new tr w))"
  proof -
    have "wbS (snd (renumbered mar ok o' n v)) = wbS v" for ok o' n v by (simp add: renumbered_def)
    then have r: "webRun hash u (snd (renumbered mar ok o' n v)) = webRun hash u v" for ok o' n u v by (simp add: webRun_def)
    have 1: "webRun hash w (setDB d w)" if "UpdateLine ok ln n nm (wbDB w) = (x, d)" for ok ln n nm x d
      using up(1) [of w ok ln n nm] that by simp
    have 2: "webRun hash w (setDB d' w)" if "UpdateLine ok ln n nm (wbDB w) = (x, d)" "UpdateLine ok' ln' n' nm' d = (x', d')"
      for ok ln n nm x d ok' ln' n' nm' x' d'
      using webRun_trans [OF 1 [OF that(1)] up(1) [of "setDB d w" ok' ln' n' nm']] that(2) by simp
    show ?thesis
      by (auto simp: handlePhoneNumberPost_def Let_def r split: sum.split prod.split bool.split intro: 1 2)
  qed
  show "webRun hash w (snd (handlePhoneConvert mar f pint user number tgt dev tr w))"
  proof -
    have c: "webRun hash v (snd (converted mar f number s t x v))" for s t x v
      using up(3) [of v] by (auto simp: converted_def Let_def split: sum.split list.split)
    have 1: "webRun hash w (setDB d w)" if "Reassign ok ln n (wbDB w) = (x, d)" for ok ln n x d
      using up(2) [of w ok ln n] that by simp
    have 2: "webRun hash w (setDB d' w)" if "Reassign ok ln n (wbDB w) = (x, d)" "Reassign ok' ln' n' d = (x', d')"
      for ok ln n x d ok' ln' n' x' d'
      using webRun_trans [OF 1 [OF that(1)] up(2) [of "setDB d w" ok' ln' n']] that(2) by simp
    have 3: "webRun hash w (snd (converted mar f number s t x (v\<lparr>wbTr := tr\<rparr>)))" if "webRun hash w v" for s t x v
      using webRun_trans [OF _ c] that by (metis webRun_more(2))
    show ?thesis
      by (auto simp: handlePhoneConvert_def Let_def split: sum.split prod.split option.split intro: 1 2 3)
  qed
qed

theorem web_step_run:
  assumes "web_move_ok m w"
  shows "webRun (oHash o') w (web_step o' m w)"
proof (cases m)
  case (WmSignIn x)
  then show ?thesis using assms storeRun_step by (simp add: web_step_def webRun_def)
qed (simp_all add: web_step_def household_runs link_runs phone_runs)

end
