(* ===== verification/WebIsolation.thy ===== *)
theory WebIsolation
  imports WebRuns
begin

text \<open>
  What a request can change: the household row, the lines and the paired handsets of a household
  are out of reach of everybody who is not a member of it.
\<close>

section \<open>Well-formed runs\<close>

lemma webRun_ok: "webRun hash w w' \<Longrightarrow> access_ok (wbS w) \<Longrightarrow> access_ok (wbS w')"
proof -
  assume "webRun hash w w'" and ok: "access_ok (wbS w)"
  then obtain ms where "allowed_run (access_step hash) access_move_ok ms (wbS w)" "fold (access_step hash) ms (wbS w) = wbS w'"
    unfolding webRun_def storeRun_def by blast
  then show ?thesis using access.run_inv [OF ok] by metis
qed

interpretation web: invariant_machine "web_step o'" web_move_ok "\<lambda>w. access_ok (wbS w)"
  by unfold_locales (rule webRun_ok [OF web_step_run])

section \<open>What belongs to a household\<close>

definition linesOf :: "string \<Rightarrow> DB \<Rightarrow> AccessDB.LineRow list" where
  "linesOf h d = filter (\<lambda>l. lnHousehold l = h) (dbLines d)"

definition onLines :: "AccessDB.LineRow list \<Rightarrow> DeviceRow \<Rightarrow> bool" where
  "onLines ls v \<longleftrightarrow> dvPairedAt v \<noteq> None \<and> (case dvLine v of None \<Rightarrow> False | Some i \<Rightarrow> list_ex (\<lambda>l. lnID l = i) ls)"

definition estate :: "string \<Rightarrow> DB \<Rightarrow> HouseholdRow list \<times> AccessDB.LineRow list \<times> DeviceRow list" where
  "estate h d = (filter (\<lambda>r. hhID r = h) (dbHouseholds d), linesOf h d, filter (onLines (linesOf h d)) (dbDevices d))"

lemma estate_same:
  "dbHouseholds d' = dbHouseholds d \<Longrightarrow> dbLines d' = dbLines d \<Longrightarrow> dbDevices d' = dbDevices d \<Longrightarrow> estate h d' = estate h d"
  by (simp add: estate_def linesOf_def)

lemma filter_updRows:
  "(\<And>r. r \<in> set xs \<Longrightarrow> p r \<Longrightarrow> \<not> P r \<and> \<not> P (g r)) \<Longrightarrow> filter P (updRows p g xs) = filter P xs"
  by (induction xs) (auto simp: updRows_def)

lemma line_ids:
  assumes "access_ok s" "l \<in> set (dbLines (hsDB s))" "l' \<in> set (dbLines (hsDB s))" "lnID l = lnID l'"
  shows "l = l'"
proof -
  have "distinct (map lnID (dbLines (hsDB s)))" using access_okD(2) [OF assms(1)] by (simp add: devices_ok_def)
  then show ?thesis using assms(2-4) by (auto simp: distinct_map dest: inj_onD)
qed

lemma device_ids:
  assumes "access_ok s" "v \<in> set (dbDevices (hsDB s))" "v' \<in> set (dbDevices (hsDB s))" "dvID v = dvID v'"
  shows "v = v'"
proof -
  have "distinct (map dvID (dbDevices (hsDB s)))" using access_okD(2) [OF assms(1)] by (simp add: devices_ok_def)
  then show ?thesis using assms(2-4) by (auto simp: distinct_map dest: inj_onD)
qed

lemma not_mine:
  assumes "access_ok s" "l \<in> set (dbLines (hsDB s))" "lnHousehold l \<noteq> h" "dvLine v = Some (lnID l)"
  shows "\<not> onLines (linesOf h (hsDB s)) v"
  using assms(3,4) line_ids [OF assms(1) _ assms(2)] by (auto simp: onLines_def linesOf_def list_ex_iff)

text \<open>The operations on lines and handsets, one by one.\<close>

lemma estate_UpdateLine:
  assumes ok: "access_ok s" and l: "l \<in> set (dbLines (hsDB s))" "lnHousehold l \<noteq> h"
  shows "estate h (snd (UpdateLine k (lnID l) n nm (hsDB s))) = estate h (hsDB s)"
proof -
  have "filter (\<lambda>l. lnHousehold l = h) (updRows (\<lambda>r. lnID r = lnID l) (\<lambda>r. r\<lparr>lnNumber := n, lnName := nm\<rparr>) (dbLines (hsDB s)))
      = filter (\<lambda>l. lnHousehold l = h) (dbLines (hsDB s))"
    by (rule filter_updRows) (use line_ids [OF ok _ l(1)] l(2) in auto)
  then show ?thesis by (simp add: estate_def linesOf_def UpdateLine_def)
qed

lemma estate_deleteLines:
  assumes ok: "access_ok s" and p: "\<And>l. l \<in> set (dbLines (hsDB s)) \<Longrightarrow> p l \<Longrightarrow> lnHousehold l \<noteq> h"
  shows "estate h (deleteLines p (hsDB s)) = estate h (hsDB s)"
proof -
  have L: "linesOf h (deleteLines p (hsDB s)) = linesOf h (hsDB s)"
    using p by (auto simp: linesOf_def deleteLines_def intro!: filter_cong)
  have "onLines (linesOf h (hsDB s)) v
      \<longleftrightarrow> onLines (linesOf h (hsDB s)) v \<and> \<not> (case dvLine v of None \<Rightarrow> False | Some i \<Rightarrow> list_ex (\<lambda>l. p l \<and> lnID l = i) (dbLines (hsDB s)))"
    for v using not_mine [OF ok _ p, of _ v] by (auto simp: list_ex_iff split: option.splits)
  then have "filter (onLines (linesOf h (hsDB s))) (dbDevices (deleteLines p (hsDB s)))
      = filter (onLines (linesOf h (hsDB s))) (dbDevices (hsDB s))"
    by (simp add: deleteLines_def conj_commute cong: filter_cong)
  then show ?thesis unfolding estate_def L by (simp add: deleteLines_def)
qed

lemma estate_DeleteLine:
  assumes ok: "access_ok s" and l: "l \<in> set (dbLines (hsDB s))" "lnHousehold l \<noteq> h"
  shows "estate h (snd (DeleteLine k (lnID l) (hsDB s))) = estate h (hsDB s)"
  using estate_deleteLines [OF ok, of "\<lambda>r. lnID r = lnID l" h] line_ids [OF ok _ l(1)] l(2)
  by (auto simp: DeleteLine_def)

lemma estate_DeleteHousehold:
  assumes ok: "access_ok s" and g: "g \<noteq> h"
  shows "estate h (hsDB (snd (DeleteHousehold f g s))) = estate h (hsDB s)"
proof (cases rule: DeleteHousehold_cases [of f g s])
  case deleted
  have "estate h (deleteHouseholdRow g (hsDB s)) = estate h (deleteLines (\<lambda>l. lnHousehold l = g) (hsDB s))"
    using g by (auto simp: estate_def linesOf_def deleteHouseholdRow_def deleteLines_def Let_def intro!: filter_cong)
  then show ?thesis using estate_deleteLines [OF ok, of "\<lambda>l. lnHousehold l = g" h] g deleted(2) by simp
qed simp

lemma estate_Reassign:
  assumes ok: "access_ok s" and v: "v \<in> set (dbDevices (hsDB s))" "\<not> onLines (linesOf h (hsDB s)) v"
    and t: "l \<in> set (dbLines (hsDB s))" "lnHousehold l \<noteq> h"
  shows "estate h (snd (Reassign k (dvID v) (lnID l) (hsDB s))) = estate h (hsDB s)"
proof -
  have "filter (onLines (linesOf h (hsDB s))) (updRows (\<lambda>x. dvID x = dvID v) (\<lambda>x. x\<lparr>dvLine := Some (lnID l)\<rparr>) (dbDevices (hsDB s)))
      = filter (onLines (linesOf h (hsDB s))) (dbDevices (hsDB s))"
    by (rule filter_updRows) (use device_ids [OF ok _ v(1)] v(2) not_mine [OF ok t] in auto)
  then show ?thesis by (simp add: estate_def linesOf_def Reassign_def Let_def)
qed

lemma estate_ClaimDevice:
  assumes ok: "access_ok s" and g: "g \<noteq> h"
  shows "estate h (snd (ClaimDevice f hash tok lid now code n ln dn g (hsDB s))) = estate h (hsDB s)"
proof (cases rule: ClaimDevice_cases [of f hash tok lid now code n ln dn g "hsDB s"])
  case (claimed t v)
  let ?d = "snd (ClaimDevice f hash tok lid now code n ln dn g (hsDB s))"
  have L: "linesOf h ?d = linesOf h (hsDB s)" using claimed(8) g by (simp add: linesOf_def)
  have "\<not> onLines (linesOf h (hsDB s)) (bound now lid (hash t) dn x)" for x
    using claimed(5) by (auto simp: onLines_def bound_def linesOf_def list_ex_iff)
  then have "filter (onLines (linesOf h (hsDB s))) (dbDevices ?d) = filter (onLines (linesOf h (hsDB s))) (dbDevices (hsDB s))"
    using claimed(8) by (simp, intro filter_updRows) (simp add: onLines_def)
  then show ?thesis using claimed(8) L by (simp add: estate_def)
qed simp

lemma estate_ClaimDeviceToLine:
  assumes ok: "access_ok s" and g: "g \<noteq> h"
  shows "estate h (snd (ClaimDeviceToLine f hash tok now code lid dn g (hsDB s))) = estate h (hsDB s)"
proof (cases rule: ClaimDeviceToLine_cases [of f hash tok now code lid dn g "hsDB s"])
  case (claimed t v l)
  let ?d = "snd (ClaimDeviceToLine f hash tok now code lid dn g (hsDB s))"
  have l: "l \<in> set (dbLines (hsDB s))" "lnID l = lid" using claimed(5) by (auto dest: find_in)
  have "\<not> onLines (linesOf h (hsDB s)) (bound now lid (hash t) dn x)" for x
    by (rule not_mine [OF ok l(1)]) (use claimed(6) g l(2) in \<open>auto simp: bound_def\<close>)
  then have "filter (onLines (linesOf h (hsDB s))) (dbDevices ?d) = filter (onLines (linesOf h (hsDB s))) (dbDevices (hsDB s))"
    using claimed(8) by (simp, intro filter_updRows) (simp add: onLines_def)
  then show ?thesis using claimed(8) by (simp add: estate_def linesOf_def)
qed simp

section \<open>Every request\<close>

lemma view_ops:
  "estate h (snd (SetThemeAndMarkChosen ok u th d)) = estate h d" "estate h (snd (SetActiveHousehold ok hash now t g d)) = estate h d"
  "estate h (snd (CreateInvite ok tok i now g a u d)) = estate h d" "estate h (snd (CancelInvite ok i d)) = estate h d"
  "estate h (snd (DeleteUser ok u d)) = estate h d" "estate h (snd (CreateLinkInvite ok tok l now g u d)) = estate h d"
  "estate h (snd (RevokeLink ok now l u d)) = estate h d" "estate h (snd (SetDisabled f now u b d)) = estate h d"
  "estate h (snd (AcceptLinkInvite f now c u g d)) = estate h d"
proof -
  show "estate h (snd (SetThemeAndMarkChosen ok u th d)) = estate h d"
    by (rule estate_same; auto simp: SetThemeAndMarkChosen_def updUser_def split: prod.split sum.split option.split)
  show "estate h (snd (SetDisabled f now u b d)) = estate h d"
    by (rule estate_same; auto simp: SetDisabled_def WithTx_def Let_def)
  show "estate h (snd (AcceptLinkInvite f now c u g d)) = estate h d"
    by (cases rule: AcceptLinkInvite_cases [of f now c u g d]) (auto intro: estate_same)
qed (rule estate_same; simp add: SetActiveHousehold_def CreateInvite_def CancelInvite_def DeleteUser_def deleteUserRow_def
    CreateLinkInvite_def RevokeLink_def Let_def split: option.split)+

lemma view_store:
  "h \<in> set (householdIDs (hsDB s)) \<Longrightarrow> estate h (hsDB (snd (CreateHousehold f g now nm u s))) = estate h (hsDB s)"
  "estate h (hsDB (snd (RedeemInvite f now t u email s))) = estate h (hsDB s)"
  "estate h (hsDB (snd (RemoveMember ok u g s))) = estate h (hsDB s)"
proof -
  show "estate h (hsDB (snd (RemoveMember ok u g s))) = estate h (hsDB s)"
    by (rule estate_same; simp add: RemoveMember_def)
  show "estate h (hsDB (snd (RedeemInvite f now t u email s))) = estate h (hsDB s)"
  proof (cases rule: RedeemInvite_cases [of f now t u email s])
    case (redeemed i d')
    then show ?thesis using upsert_members(7,8,10) [OF redeemed(7)] by (intro estate_same) simp_all
  qed simp
  show "estate h (hsDB (snd (CreateHousehold f g now nm u s))) = estate h (hsDB s)" if h: "h \<in> set (householdIDs (hsDB s))"
  proof (cases rule: CreateHousehold_cases [of f g now nm u s])
    case (created d' r)
    then have "hhID r \<noteq> h" using h by auto
    then show ?thesis using created upsert_members(7,8,10) [OF created(3)] by (simp add: estate_def linesOf_def)
  qed simp
qed

lemma view_setting: "hhID g \<noteq> h \<Longrightarrow> estate h (snd (saveSetting ok q g d)) = estate h d"
proof -
  assume g: "hhID g \<noteq> h"
  have "estate h (snd (updHousehold ok (hhID g) k d)) = estate h d" if "\<And>r. hhID (k r) = hhID r" for ok k
    using g that by (auto simp: updHousehold_def estate_def linesOf_def intro: filter_updRows)
  then show ?thesis
    by (simp add: saveSetting_def UpdateName_def SetCallHistoryEnabled_def SetTimezone_def split: householdSetting.split)
qed

lemma view_leave:
  "access_ok (wbS w) \<Longrightarrow> h \<notin> hhID ` set hs \<Longrightarrow> estate h (wbDB (snd (leaveHouseholds fs now u i hs w))) = estate h (wbDB w)"
proof (induction hs arbitrary: i w)
  case (Cons g hs)
  show ?case
  proof (cases "MemberCount (fs i 0) (hhID g) (wbDB w)")
    case (Inr n)
    show ?thesis
    proof (cases "n \<le> 1")
      case True
      show ?thesis
      proof (cases "ListByHousehold (fs i 1) (hhID g) (wbDB w)")
        case ls: (Inr ls)
        let ?w = "fold (\<lambda>l. clearLine (fs i 6) now (lnNumber l)) ls w"
        obtain r s where d: "DeleteHousehold (shift 2 (fs i)) (hhID g) (wbS w) = (r, s)" by fastforce
        have s: "access_ok s" "estate h (hsDB s) = estate h (wbDB w)"
          using access_hh_deleted [OF Cons.prems(1), of "shift 2 (fs i)" "hhID g"] d
            estate_DeleteHousehold [OF Cons.prems(1), of "hhID g" h "shift 2 (fs i)"] Cons.prems(2) by auto
        show ?thesis using Inr True ls d s Cons.IH [of "?w\<lparr>wbS := s\<rparr>"] Cons.prems(2)
          by (cases r) (simp_all add: Let_def clearLines_S del: One_nat_def)
      qed (use Inr True in \<open>simp del: One_nat_def\<close>)
    next
      case False
      have "access_ok (snd (RemoveMember (fs i 1) u (hhID g) (wbS w)))"
        using webRun_ok [of id w "w\<lparr>wbS := snd (RemoveMember (fs i 1) u (hhID g) (wbS w))\<rparr>"] Cons.prems(1)
        by (simp add: webRun_def store_ops)
      then show ?thesis using Inr False Cons.IH [of "w\<lparr>wbS := snd (RemoveMember (fs i 1) u (hhID g) (wbS w))\<rparr>"] Cons.prems(2)
        by (simp add: view_store del: One_nat_def)
    qed
  qed simp
qed simp

text \<open>A request of somebody who is not a member of \<open>h\<close>.\<close>

definition stranger :: "UserRow option \<Rightarrow> string \<Rightarrow> DB \<Rightarrow> bool" where
  "stranger user h d \<longleftrightarrow> (case user of None \<Rightarrow> True | Some u \<Rightarrow> \<not> isMember (usID u) h d)"

lemma stranger_household:
  assumes "stranger user h d" "requireHouseholdMember f hash now user cookie d = Inr (u, g)"
  shows "hhID g \<noteq> h"
  using assms household_guard [OF assms(2)] by (auto simp: stranger_def)

lemma stranger_admin:
  assumes "stranger user h d" "requireHouseholdAdmin f hash now user cookie d = Inr (u, g)"
  shows "hhID g \<noteq> h"
  using assms admin_guard [OF assms(2)] by (auto simp: stranger_def)

lemma stranger_owner:
  assumes "stranger user h d" "requireLineOwnership f user number d = Inr l"
  shows "l \<in> set (dbLines d)" "lnHousehold l \<noteq> h"
  by (rule owner_guard [OF assms(2)]; use assms(1) in \<open>auto simp: stranger_def\<close>)+

lemma stranger_owner_admin:
  assumes "stranger user h d" "requireLineOwnershipAdmin f user number d = Inr l"
  shows "l \<in> set (dbLines d)" "lnHousehold l \<noteq> h"
  by (rule owner_admin_guard [OF assms(2)]; use assms(1) in \<open>auto simp: stranger_def\<close>)+

lemma household_isolated:
  assumes "access_ok (wbS w)" "stranger user h (wbDB w)" "h \<in> set (householdIDs (wbDB w))"
  shows "estate h (wbDB (snd (handleOnboardPost f hid now user nm w))) = estate h (wbDB w)"
    "estate h (wbDB (snd (handleWelcomePost ok user th w))) = estate h (wbDB w)"
    "estate h (wbDB (snd (handleInviteAcceptPost f hash now cookie tok w))) = estate h (wbDB w)"
    "estate h (wbDB (snd (handleHouseholdAdminPost f hash now user cookie (saveSetting ok q) w))) = estate h (wbDB w)"
    "estate h (wbDB (snd (handleHouseholdInvitePost f hash rtok i now user cookie addr w))) = estate h (wbDB w)"
    "estate h (wbDB (snd (handleHouseholdInviteCancelPost f hash now user cookie i w))) = estate h (wbDB w)"
    "estate h (wbDB (snd (handleHouseholdMemberRemovePost f hash now user cookie v w))) = estate h (wbDB w)"
    "estate h (wbDB (snd (handleHouseholdSwitchPost f hash now user cookie g w))) = estate h (wbDB w)"
    "estate h (wbDB (snd (handleAccountDeletePost f fs now user w))) = estate h (wbDB w)"
    "estate h (wbDB (snd (handleLinksInvitePost f hash code i now user cookie w))) = estate h (wbDB w)"
    "estate h (wbDB (snd (handleLinksAcceptPost f hash now user cookie field w))) = estate h (wbDB w)"
    "estate h (wbDB (snd (linksRevoke f now user i w))) = estate h (wbDB w)"
    "estate h (wbDB (snd (setAccountDisabled f now allow user v b w))) = estate h (wbDB w)"
proof -
  note V = view_ops view_store(2,3) view_store(1) [OF assms(3)]
  have snds: "estate h d = x" if "r = (y, d)" "estate h (snd r) = x" for r :: "'z \<times> DB" and y d x using that by simp
  have sndS: "estate h (hsDB s) = x" if "r = (y, s)" "estate h (hsDB (snd r)) = x" for r :: "'z \<times> HStore" and y s x using that by simp
  show "estate h (wbDB (snd (handleOnboardPost f hid now user nm w))) = estate h (wbDB w)"
    by (auto simp: handleOnboardPost_def Let_def V split: option.split prod.split elim!: sndS)
  show "estate h (wbDB (snd (handleWelcomePost ok user th w))) = estate h (wbDB w)"
    by (auto simp: handleWelcomePost_def V split: option.split prod.split sum.split elim!: snds)
  show "estate h (wbDB (snd (handleInviteAcceptPost f hash now cookie tok w))) = estate h (wbDB w)"
    by (auto simp: handleInviteAcceptPost_def V split: option.split prod.split sum.split elim!: sndS)
  show "estate h (wbDB (snd (handleHouseholdAdminPost f hash now user cookie (saveSetting ok q) w))) = estate h (wbDB w)"
  proof (cases "requireHouseholdAdmin f hash now user cookie (wbDB w)")
    case (Inr p)
    obtain u g where p: "p = (u, g)" by (cases p)
    have "estate h (snd (saveSetting ok q g (wbDB w))) = estate h (wbDB w)"
      by (rule view_setting) (use stranger_admin [OF assms(2)] Inr p in blast)
    then show ?thesis using Inr p by (auto simp: handleHouseholdAdminPost_def split: sum.split prod.split)
  qed (simp add: handleHouseholdAdminPost_def)
  show "estate h (wbDB (snd (handleHouseholdInvitePost f hash rtok i now user cookie addr w))) = estate h (wbDB w)"
    by (auto simp: handleHouseholdInvitePost_def Let_def V split: option.split prod.split sum.split bool.split elim!: snds)
  show "estate h (wbDB (snd (handleHouseholdInviteCancelPost f hash now user cookie i w))) = estate h (wbDB w)"
    by (auto simp: handleHouseholdInviteCancelPost_def V split: sum.split)
  show "estate h (wbDB (snd (handleHouseholdMemberRemovePost f hash now user cookie v w))) = estate h (wbDB w)"
    by (auto simp: handleHouseholdMemberRemovePost_def V split: sum.split)
  show "estate h (wbDB (snd (handleHouseholdSwitchPost f hash now user cookie g w))) = estate h (wbDB w)"
    by (auto simp: handleHouseholdSwitchPost_def V split: sum.split option.split)
  show "estate h (wbDB (snd (handleAccountDeletePost f fs now user w))) = estate h (wbDB w)"
  proof (cases user)
    case (Some u)
    show ?thesis
    proof (cases "GetForUser (f 0) (usID u) (wbDB w)")
      case (Inr hs)
      have "h \<notin> hhID ` set hs" using GetForUser_member(1) [OF Inr] assms(2) Some by (auto simp: stranger_def)
      from view_leave [OF assms(1) this, of fs now "usID u" 0] Some Inr show ?thesis
        by (auto simp: handleAccountDeletePost_def V split: sum.split prod.split bool.split elim!: snds)
    qed (simp add: Some handleAccountDeletePost_def)
  qed (simp add: handleAccountDeletePost_def)
  show "estate h (wbDB (snd (handleLinksInvitePost f hash code i now user cookie w))) = estate h (wbDB w)"
    by (auto simp: handleLinksInvitePost_def V split: prod.split sum.split elim!: snds)
  show "estate h (wbDB (snd (handleLinksAcceptPost f hash now user cookie field w))) = estate h (wbDB w)"
    by (auto simp: handleLinksAcceptPost_def Let_def V split: prod.split sum.split list.split elim!: snds)
  have "estate h (snd (handleLinksRevokePost f now admin i u d)) = estate h d" for admin u d
    by (auto simp: handleLinksRevokePost_def V split: sum.split prod.split elim!: snds)
  then show "estate h (wbDB (snd (linksRevoke f now user i w))) = estate h (wbDB w)"
    by (auto simp: linksRevoke_def Let_def split: option.split prod.split elim!: snds)
  show "estate h (wbDB (snd (setAccountDisabled f now allow user v b w))) = estate h (wbDB w)"
    by (auto simp: setAccountDisabled_def V split: prod.split sum.split elim!: snds)
qed

text \<open>A line after an update: the row is there, with its household.\<close>

lemma line_after_update:
  assumes "access_ok s" "l \<in> set (dbLines (hsDB s))"
  shows "access_ok (s\<lparr>hsDB := snd (UpdateLine k i n nm (hsDB s))\<rparr>)"
    "\<exists>l' \<in> set (dbLines (snd (UpdateLine k i n nm (hsDB s)))). lnID l' = lnID l \<and> lnHousehold l' = lnHousehold l"
proof -
  show "access_ok (s\<lparr>hsDB := snd (UpdateLine k i n nm (hsDB s))\<rparr>)"
    using access_step_ok [OF assms(1), of "AmUpdateLine k i n nm"] by (simp add: onDB_def)
  show "\<exists>l' \<in> set (dbLines (snd (UpdateLine k i n nm (hsDB s)))). lnID l' = lnID l \<and> lnHousehold l' = lnHousehold l"
  proof (cases "snd (UpdateLine k i n nm (hsDB s)) = hsDB s")
    case True
    then show ?thesis using assms(2) by auto
  next
    case False
    then have d: "dbLines (snd (UpdateLine k i n nm (hsDB s)))
        = updRows (\<lambda>l. lnID l = i) (\<lambda>l. l\<lparr>lnNumber := n, lnName := nm\<rparr>) (dbLines (hsDB s))"
      by (auto simp: UpdateLine_def Let_def split: if_splits)
    show ?thesis unfolding d using assms(2)
      by (intro bexI [of _ "if lnID l = i then l\<lparr>lnNumber := n, lnName := nm\<rparr> else l"]) (auto simp: in_updRows)
  qed
qed

lemma estate_UpdateLine2:
  assumes ok: "access_ok s" and l: "l \<in> set (dbLines (hsDB s))" "lnHousehold l \<noteq> h"
  shows "estate h (snd (UpdateLine k' (lnID l) n' nm' (snd (UpdateLine k (lnID l) n nm (hsDB s))))) = estate h (hsDB s)"
proof -
  let ?s = "s\<lparr>hsDB := snd (UpdateLine k (lnID l) n nm (hsDB s))\<rparr>"
  obtain l' where l': "l' \<in> set (dbLines (hsDB ?s))" "lnID l' = lnID l" "lnHousehold l' = lnHousehold l"
    using line_after_update(2) [OF ok l(1), of k "lnID l" n nm] by auto
  show ?thesis using estate_UpdateLine [OF line_after_update(1) [OF ok l(1)] l'(1), of h k' n' nm'] l' l(2)
      estate_UpdateLine [OF ok l, of k n nm] by simp
qed

lemma device_after_move:
  assumes ok: "access_ok s" and v: "v \<in> set (dbDevices (hsDB s))" "\<not> onLines (linesOf h (hsDB s)) v"
    and t: "l \<in> set (dbLines (hsDB s))" "lnHousehold l \<noteq> h"
    and l: "l' \<in> set (dbLines (hsDB s))" "lnHousehold l' \<noteq> h"
  shows "estate h (snd (Reassign k' (dvID v) (lnID l') (snd (Reassign k (dvID v) (lnID l) (hsDB s))))) = estate h (hsDB s)"
    "access_ok (s\<lparr>hsDB := snd (Reassign k (dvID v) (lnID l) (hsDB s))\<rparr>)"
proof -
  let ?d = "snd (Reassign k (dvID v) (lnID l) (hsDB s))"
  show ok': "access_ok (s\<lparr>hsDB := ?d\<rparr>)"
    using access_step_ok [OF ok, of "AmReassign k (dvID v) (lnID l)"] by (simp add: onDB_def)
  have L: "dbLines ?d = dbLines (hsDB s)" by simp
  have nv: "\<not> onLines (linesOf h (hsDB s)) (v\<lparr>dvLine := Some (lnID l)\<rparr>)" by (rule not_mine [OF ok t]) simp
  let ?v = "if ?d = hsDB s then v else v\<lparr>dvLine := Some (lnID l)\<rparr>"
  have v': "?v \<in> set (dbDevices ?d)" "dvID ?v = dvID v" "\<not> onLines (linesOf h ?d) ?v"
    using v nv by (auto simp: Reassign_def Let_def in_updRows linesOf_def)
  show "estate h (snd (Reassign k' (dvID v) (lnID l') ?d)) = estate h (hsDB s)"
    using estate_Reassign [OF ok', of ?v h l' k'] v' l L estate_Reassign [OF ok v t, of k] by simp
qed

lemma line_devices: "ListByLine ok i d = Inr vs \<Longrightarrow> v \<in> set vs \<Longrightarrow> v \<in> set (dbDevices d) \<and> dvLine v = Some i"
  by (auto simp: ListByLine_def split: if_splits)

lemma chosen_in: "chosenDevice pint field vs = Some v \<Longrightarrow> v \<in> set vs"
  by (auto simp: chosenDevice_def split: if_splits option.splits dest: find_in intro: hd_in_set)

lemma phone_isolated:
  assumes ok: "access_ok (wbS w)" and u: "stranger user h (wbDB w)"
  shows "estate h (wbDB (snd (handlePhonesPairPost mar f hash pint tok lid now user cookie code name mode existing number w))) = estate h (wbDB w)"
    "estate h (wbDB (snd (handlePhoneNamePost f user number name w))) = estate h (wbDB w)"
    "estate h (wbDB (snd (handlePhoneNumberPost mar f user number new tr w))) = estate h (wbDB w)"
    "estate h (wbDB (snd (handlePhoneDelete mar f user number w))) = estate h (wbDB w)"
    "estate h (wbDB (snd (handlePhoneConvert mar f pint user number tgt dev tr w))) = estate h (wbDB w)"
    "estate h (wbDB (snd (handlePhoneCommand mar f user number want cmd w))) = estate h (wbDB w)"
proof -
  have snds: "estate h d = x" if "r = (y, d)" "estate h (snd r) = x" for r :: "'z \<times> DB" and y d x using that by simp
  have claim: "estate h (snd (pairClaim f hash pint tok lid now g c nm md ex number (wbDB w))) = estate h (wbDB w)"
    if g: "hhID g \<noteq> h" for g c nm md ex
    by (auto simp: pairClaim_def Let_def estate_ClaimDevice [OF ok g] estate_ClaimDeviceToLine [OF ok g]
        split: option.split sum.split prod.split elim!: snds)
  show "estate h (wbDB (snd (handlePhonesPairPost mar f hash pint tok lid now user cookie code name mode existing number w))) = estate h (wbDB w)"
  proof (cases "requireHouseholdAdmin f hash now user cookie (wbDB w)")
    case (Inr p)
    obtain v g where p: "p = (v, g)" by (cases p)
    have "hhID g \<noteq> h" using stranger_admin [OF u] Inr p by blast
    then show ?thesis using Inr p by (auto simp: handlePhonesPairPost_def Let_def claim split: sum.split prod.split elim!: snds)
  qed (simp add: handlePhonesPairPost_def)
  show "estate h (wbDB (snd (handlePhoneNamePost f user number name w))) = estate h (wbDB w)"
  proof (cases "requireLineOwnership f user number (wbDB w)")
    case (Inr l)
    show ?thesis using Inr estate_UpdateLine [OF ok stranger_owner [OF u Inr]]
      by (auto simp: handlePhoneNamePost_def split: sum.split prod.split elim!: snds)
  qed (simp add: handlePhoneNamePost_def)
  show "estate h (wbDB (snd (handlePhoneDelete mar f user number w))) = estate h (wbDB w)"
  proof (cases "requireLineOwnershipAdmin f user number (wbDB w)")
    case (Inr l)
    show ?thesis using Inr estate_DeleteLine [OF ok stranger_owner_admin [OF u Inr]]
      by (auto simp: handlePhoneDelete_def split: sum.split prod.split elim!: snds)
  qed (simp add: handlePhoneDelete_def)
  show "estate h (wbDB (snd (handlePhoneNumberPost mar f user number new tr w))) = estate h (wbDB w)"
  proof (cases "requireLineOwnershipAdmin f user number (wbDB w)")
    case (Inr l)
    note l = stranger_owner_admin [OF u Inr]
    have E1: "estate h d = estate h (wbDB w)" if "UpdateLine k (lnID l) n nm (wbDB w) = (x, d)" for k n nm x d
      using estate_UpdateLine [OF ok l, of k n nm] that by simp
    have E2: "estate h d' = estate h (wbDB w)"
      if "UpdateLine k (lnID l) n nm (wbDB w) = (x, d)" "UpdateLine k' (lnID l) n' nm' d = (x', d')" for k n nm x d k' n' nm' x' d'
      using estate_UpdateLine2 [OF ok l, of k' n' nm' k n nm] that by simp
    show ?thesis using Inr
      by (auto simp: handlePhoneNumberPost_def Let_def renumbered_def split: sum.split prod.split bool.split intro: E1 E2)
  qed (simp add: handlePhoneNumberPost_def)
  have send: "wbDB (snd (sendDeviceCommand mar number hw msg w)) = wbDB w" for hw msg w
    by (simp add: sendDeviceCommand_def Let_def split: prod.split)
  show "estate h (wbDB (snd (handlePhoneCommand mar f user number want cmd w))) = estate h (wbDB w)"
    by (auto simp: handlePhoneCommand_defs send split: phoneCommand.split sum.split prod.split)
  show "estate h (wbDB (snd (handlePhoneConvert mar f pint user number tgt dev tr w))) = estate h (wbDB w)"
  proof (cases "requireLineOwnershipAdmin f user number (wbDB w)")
    case (Inr src)
    note src = stranger_owner_admin [OF u Inr]
    have conv: "estate h (wbDB (snd (converted mar f number src t v x))) = estate h (wbDB w)"
      if x: "access_ok (wbS x)" "src \<in> set (dbLines (wbDB x))" "estate h (wbDB x) = estate h (wbDB w)" for t v x
      using estate_DeleteLine [OF x(1,2) src(2), of "f 7"] x(3)
      by (auto simp: converted_def Let_def split: sum.split list.split)
    show ?thesis
    proof (cases "\<exists>t l vs v. pint (TrimSpace tgt) = Some t \<and> GetLineByID (f 2) t (wbDB w) = Inr l \<and> lnHousehold l = lnHousehold src
        \<and> ListByLine (f 3) (lnID src) (wbDB w) = Inr vs \<and> chosenDevice pint (TrimSpace dev) vs = Some v")
      case True
      then obtain t l vs v where A: "pint (TrimSpace tgt) = Some t" "GetLineByID (f 2) t (wbDB w) = Inr l" "lnHousehold l = lnHousehold src"
        "ListByLine (f 3) (lnID src) (wbDB w) = Inr vs" "chosenDevice pint (TrimSpace dev) vs = Some v" by blast
      have l: "l \<in> set (dbLines (wbDB w))" "lnID l = t" "lnHousehold l \<noteq> h"
        using A(2,3) src(2) by (auto simp: GetLineByID_def getLine_def split: if_splits option.splits dest: find_in)
      have v: "v \<in> set (dbDevices (wbDB w))" "\<not> onLines (linesOf h (wbDB w)) v"
        using line_devices [OF A(4) chosen_in [OF A(5)]] not_mine [OF ok src] by auto
      have R1: "estate h d = estate h (wbDB w) \<and> access_ok ((wbS w)\<lparr>hsDB := d\<rparr>) \<and> src \<in> set (dbLines d)"
        if "Reassign k (dvID v) t (wbDB w) = (x, d)" for k x d
        using device_after_move(2) [OF ok v l(1,3) src, of k] estate_Reassign [OF ok v l(1,3), of k] that l(2) src(1)
          device_frame(20) [of k "dvID v" t "wbDB w"] by simp
      have R2: "estate h d' = estate h (wbDB w) \<and> access_ok ((wbS w)\<lparr>hsDB := d'\<rparr>) \<and> src \<in> set (dbLines d')"
        if "Reassign k (dvID v) t (wbDB w) = (x, d)" "Reassign k' (dvID v) (lnID src) d = (x', d')" for k x d k' x' d'
        using device_after_move(1) [OF ok v l(1,3) src, of k' k] that l(2) R1 [OF that(1)]
          access_step_ok [of "(wbS w)\<lparr>hsDB := d\<rparr>" "AmReassign k' (dvID v) (lnID src)"]
          device_frame(20) [of k' "dvID v" "lnID src" d] by (simp add: onDB_def)
      show ?thesis using Inr A R1 R2
        by (auto simp: handlePhoneConvert_def Let_def setDB_def split: sum.split prod.split intro!: conv)
    next
      case False
      then have "snd (handlePhoneConvert mar f pint user number tgt dev tr w) = w" using Inr
        by (auto simp: handlePhoneConvert_def Let_def split: sum.split prod.split option.split)
      then show ?thesis by simp
    qed
  qed (simp add: handlePhoneConvert_def)
qed

section \<open>Runs of strangers\<close>

text \<open>Requests that only touch accounts, sessions and magic links.\<close>

fun authMove :: "accessMove \<Rightarrow> bool" where
  "authMove (AmMagicRequest f tok now allowed ck email r hp) = True"
| "authMove (AmMagicVerify f tok uid sid now t) = True"
| "authMove (AmGoogle f tok uid sid now cookie r st info) = True"
| "authMove (AmRequireAuth f now cookie) = True"
| "authMove (AmLogout ok cookie r) = True"
| "authMove (AmCleanupAuth f now) = True"
| "authMove (AmNeedsOnboarding ok u) = True"
| "authMove _ = False"

lemma estate_tel: "tel d' = tel d \<Longrightarrow> estate h d' = estate h d"
  by (rule estate_same) (simp_all add: tel_def)

lemma estate_untouched: "untouched d (snd r) \<Longrightarrow> estate h (snd r) = estate h d"
  by (rule estate_tel) (simp add: untouched_def)

lemma estate_adds: "adds_user uid d (snd r) \<Longrightarrow> estate h (snd r) = estate h d"
  by (rule estate_tel) (simp add: adds_user_def)

lemma auth_isolated: "authMove m \<Longrightarrow> estate h (hsDB (access_step hash m s)) = estate h (hsDB s)"
  by (cases m) (simp_all add: db_frame [THEN estate_untouched] MagicVerify_frame [THEN estate_adds]
      Callback_frame [THEN estate_adds] NeedsOnboarding_def split: sum.split)

text \<open>A run in which nobody who makes a request is, at that moment, a member of \<open>h\<close>.\<close>

fun outsider :: "string \<Rightarrow> Outside \<Rightarrow> webMove \<Rightarrow> Web \<Rightarrow> bool" where
  "outsider h o' (WmSignIn m) w \<longleftrightarrow> authMove m"
| "outsider h o' m w \<longleftrightarrow> (case actor o' m w of None \<Rightarrow> True | Some u \<Rightarrow> \<not> isMember u h (wbDB w))"

lemma outsider_stranger:
  "(case user of None \<Rightarrow> True | Some x \<Rightarrow> ((\<lambda>u. \<not> isMember u h d) \<circ> usID) x) \<longleftrightarrow> stranger user h d"
  by (cases user) (simp_all add: stranger_def)

lemma outsider_step:
  assumes ok: "access_ok (wbS w)" and h: "h \<in> set (householdIDs (wbDB w))" and out: "outsider h o' m w"
  shows "estate h (wbDB (web_step o' m w)) = estate h (wbDB w)"
proof (cases m)
  case (WmInviteAccept f now cookie tok)
  show ?thesis using household_isolated(3) [OF ok _ h, of None] by (simp add: WmInviteAccept web_step_def stranger_def)
qed (use out in \<open>simp_all add: web_step_def auth_isolated household_isolated [OF ok _ h] phone_isolated [OF ok]
    outsider_stranger\<close>)

lemma estate_lives: "estate h d' = estate h d \<Longrightarrow> h \<in> set (householdIDs d') \<longleftrightarrow> h \<in> set (householdIDs d)"
proof -
  have "h \<in> set (householdIDs d) \<longleftrightarrow> fst (estate h d) \<noteq> []" for d
    by (auto simp: estate_def filter_empty_conv)
  then show "estate h d' = estate h d \<Longrightarrow> h \<in> set (householdIDs d') \<longleftrightarrow> h \<in> set (householdIDs d)" by simp
qed

text \<open>
  C30: households are isolated in the web interface: whatever requests are made by people who are not
  members of a household at that moment (and by browsers that are signing in), in whatever order
  and whatever statements fail, its row, its lines and the handsets paired to them are what
  they were.
\<close>

theorem households_are_isolated:
  assumes "access_ok (wbS w)" "h \<in> set (householdIDs (wbDB w))"
    and "allowed_run (web_step o') (\<lambda>m v. web_move_ok m v \<and> outsider h o' m v) ms w"
  shows "estate h (wbDB (fold (web_step o') ms w)) = estate h (wbDB w)"
  using assms
proof (induction ms arbitrary: w)
  case (Cons m ms)
  have e: "estate h (wbDB (web_step o' m w)) = estate h (wbDB w)" using Cons.prems outsider_step by simp
  have ok: "access_ok (wbS (web_step o' m w))" using Cons.prems web.step_inv by simp
  show ?case using Cons.IH [OF ok] Cons.prems e estate_lives [OF e] by simp
qed simp

text \<open>The second family goes after the phone of the first, then closes its own.\<close>

definition familyWeb :: Web where
  "familyWeb = \<lparr>wbS = runAccess id familyMoves, wbHub = NewHub, wbTr = NewTracker True True True, wbMail = []\<rparr>"

definition familyOutside :: Outside where
  "familyOutside = \<lparr>oHash = id, oMarshal = \<lambda>_. None, oParseInt = \<lambda>_. None\<rparr>"

definition userUb :: "UserRow option" where
  "userUb = find (\<lambda>u. usID u = ''ub'') (dbUsers (wbDB familyWeb))"

definition raid :: "webMove list" where
  "raid = [WmDelete (\<lambda>_. True) userUb ''100'', WmName (\<lambda>_. True) userUb ''100'' ''mine'',
     WmNumber (\<lambda>_. True) userUb ''200'' ''100'' (NewTracker True True True), WmAccountDelete (\<lambda>_. True) (\<lambda>_ _. True) 9 userUb]"

theorem households_are_isolated_witness:
  "estate ''ha'' (wbDB (fold (web_step familyOutside) raid familyWeb)) = estate ''ha'' (wbDB familyWeb)
   \<and> length (fst (snd (estate ''ha'' (wbDB familyWeb)))) = 1
   \<and> householdIDs (wbDB (fold (web_step familyOutside) raid familyWeb)) = [''ha'']"
proof -
  have "access_ok (wbS familyWeb)" using accessRun_ok [OF family_run] by (simp add: familyWeb_def)
  moreover have "''ha'' \<in> set (householdIDs (wbDB familyWeb))" by code_simp
  moreover have "allowed_run (web_step familyOutside) (\<lambda>m v. web_move_ok m v \<and> outsider ''ha'' familyOutside m v) raid familyWeb"
    by code_simp
  moreover have "length (fst (snd (estate ''ha'' (wbDB familyWeb)))) = 1" by code_simp
  moreover have "householdIDs (wbDB (fold (web_step familyOutside) raid familyWeb)) = [''ha'']" by code_simp
  ultimately show ?thesis using households_are_isolated [of familyWeb "''ha''" familyOutside raid] by blast
qed

end
