(* ===== verification/WebPeople.thy ===== *)
theory WebPeople
  imports WebIsolation
begin

text \<open>
  Who belongs to whom, over the requests: no household is left without a member, no membership is
  doubled or hangs in the air; and what a change of a line's number does.
\<close>

section \<open>Households and memberships\<close>

definition membership :: "MembershipRow \<Rightarrow> string \<times> string" where
  "membership m = (mbUser m, mbHousehold m)"

definition people :: "DB \<Rightarrow> string list \<times> (string \<times> string) list" where
  "people d = (householdIDs d, map membership (dbMembers d))"

definition peopled :: "DB \<Rightarrow> bool" where
  "peopled d \<longleftrightarrow> (case people d of (hs, ms) \<Rightarrow>
     distinct hs \<and> distinct ms \<and> snd ` set ms = set hs)"

lemma peopled_same: "people d' = people d \<Longrightarrow> peopled d \<Longrightarrow> peopled d'"
  by (simp add: peopled_def)

lemma people_updRows [simp]:
  "(\<And>m. membership (g m) = membership m) \<Longrightarrow> map membership (updRows p g ms) = map membership ms"
  by (simp add: updRows_def)

lemma ids_updRows: "(\<And>m. k (g m) = k m) \<Longrightarrow> map k (updRows p g ms) = map k ms"
  by (simp add: updRows_def)

lemma people_ops:
  "people (snd (SetThemeAndMarkChosen ok u th d)) = people d" "people (snd (SetActiveHousehold ok hash now t g d)) = people d"
  "people (snd (CreateInvite ok tok i now g a u d)) = people d" "people (snd (CancelInvite ok i d)) = people d"
  "people (snd (CreateLinkInvite ok tok l now g u d)) = people d" "people (snd (RevokeLink ok now l u d)) = people d"
  "people (snd (SetDisabled f now u b d)) = people d" "people (snd (AcceptLinkInvite f now c u g d)) = people d"
  "people (snd (UpdateLine ok ln n nm d)) = people d" "people (snd (DeleteLine ok ln d)) = people d"
  "people (snd (Reassign ok dv ln d)) = people d"
  "people (snd (ClaimDevice f hash tok ln' now c n lnm dn h d)) = people d"
  "people (snd (ClaimDeviceToLine f hash tok now c ln' dn h d)) = people d"
  "people (snd (saveSetting ok q r d)) = people d"
proof -
  show "people (snd (SetThemeAndMarkChosen ok u th d)) = people d"
    by (auto simp: people_def SetThemeAndMarkChosen_def updUser_def split: prod.split sum.split option.split)
  show "people (snd (SetDisabled f now u b d)) = people d"
    by (auto simp: people_def SetDisabled_def WithTx_def Let_def)
  show "people (snd (AcceptLinkInvite f now c u g d)) = people d"
    by (cases rule: AcceptLinkInvite_cases [of f now c u g d]) (auto simp: people_def)
  show "people (snd (ClaimDevice f hash tok ln' now c n lnm dn h d)) = people d"
    by (cases rule: ClaimDevice_cases [of f hash tok ln' now c n lnm dn h d]) (auto simp: people_def)
  show "people (snd (ClaimDeviceToLine f hash tok now c ln' dn h d)) = people d"
    by (cases rule: ClaimDeviceToLine_cases [of f hash tok now c ln' dn h d]) (auto simp: people_def)
  show "people (snd (saveSetting ok q r d)) = people d"
    by (simp add: people_def saveSetting_def UpdateName_def SetCallHistoryEnabled_def SetTimezone_def updHousehold_def ids_updRows
        split: householdSetting.split)
qed (simp add: people_def SetActiveHousehold_def CreateInvite_def CancelInvite_def CreateLinkInvite_def RevokeLink_def UpdateLine_def
    DeleteLine_def deleteLines_def Reassign_def Let_def split: option.split)+

text \<open>The operations that move people.\<close>

lemma peopled_upsert:
  assumes "upsertMember u h role d = Some d'" "snd ` set (snd (people d)) \<subseteq> set (householdIDs d)"
    "distinct (snd (people d))"
  shows "distinct (snd (people d'))" "snd ` set (snd (people d')) = insert h (snd ` set (snd (people d)))"
proof -
  have d': "dbMembers d' = (if isMember u h d
       then updRows (\<lambda>m. mbUser m = u \<and> mbHousehold m = h) (\<lambda>m. m\<lparr>mbRole := role\<rparr>) (dbMembers d)
       else dbMembers d @ [\<lparr>mbUser = u, mbHousehold = h, mbRole = role\<rparr>])"
    using assms(1) by (auto simp: upsertMember_def split: if_splits)
  have "map membership (dbMembers d') = (if isMember u h d then map membership (dbMembers d) else map membership (dbMembers d) @ [(u, h)])"
    using people_updRows [of "\<lambda>m. m\<lparr>mbRole := role\<rparr>"] by (simp add: d' membership_def)
  moreover have "isMember u h d \<longleftrightarrow> (u, h) \<in> set (map membership (dbMembers d))"
    by (auto simp: isMember_def list_ex_iff membership_def)
  ultimately have e: "snd (people d') = (if (u, h) \<in> set (snd (people d)) then snd (people d) else snd (people d) @ [(u, h)])"
    by (simp add: people_def)
  show "distinct (snd (people d'))" using assms(3) by (simp add: e)
  show "snd ` set (snd (people d')) = insert h (snd ` set (snd (people d)))" by (force simp: e)
qed

lemma peopledI:
  "distinct (householdIDs d) \<Longrightarrow> distinct (snd (people d)) \<Longrightarrow> snd ` set (snd (people d)) = set (householdIDs d) \<Longrightarrow> peopled d"
  by (simp add: peopled_def people_def)

lemma peopledD:
  assumes "peopled d"
  shows "distinct (householdIDs d)" "distinct (snd (people d))" "snd ` set (snd (people d)) = set (householdIDs d)"
  using assms by (simp_all add: peopled_def people_def)

lemma peopled_CreateHousehold: "peopled (hsDB s) \<Longrightarrow> peopled (hsDB (snd (CreateHousehold f h now nm u s)))"
proof (cases rule: CreateHousehold_cases [of f h now nm u s])
  case (created d' r)
  assume p: "peopled (hsDB s)"
  let ?d = "(hsDB s)\<lparr>dbHouseholds := dbHouseholds (hsDB s) @ [r]\<rparr>"
  have P: "snd (people ?d) = snd (people (hsDB s))" by (simp add: people_def)
  have u: "distinct (snd (people d'))" "snd ` set (snd (people d')) = insert h (set (householdIDs (hsDB s)))"
    using peopled_upsert [OF created(3)] peopledD [OF p] unfolding P by auto
  have "householdIDs d' = householdIDs (hsDB s) @ [h]" using upsert_members(10) [OF created(3)] created(2) by simp
  then show ?thesis using created(1,4) u peopledD(1) [OF p] by (simp, intro peopledI) auto
qed simp

lemma peopled_RedeemInvite: "peopled (hsDB s) \<Longrightarrow> peopled (hsDB (snd (RedeemInvite f now t u email s)))"
proof (cases rule: RedeemInvite_cases [of f now t u email s])
  case (redeemed i d')
  assume p: "peopled (hsDB s)"
  have "distinct (snd (people d'))" "snd ` set (snd (people d')) = set (householdIDs d')"
    "distinct (householdIDs d')"
    using peopled_upsert [OF redeemed(7)] peopledD [OF p] upsert_members(3,10) [OF redeemed(7)] by auto
  then have "peopled d'" by (intro peopledI)
  then show ?thesis using redeemed(8) by (auto simp: people_def elim: peopled_same [rotated])
qed simp

text \<open>Members may go as long as their household keeps one.\<close>

lemma peopled_filter:
  assumes "peopled d" "dbHouseholds d' = dbHouseholds d" "dbMembers d' = filter P (dbMembers d)"
    and "\<And>h. h \<in> set (householdIDs d) \<Longrightarrow> \<exists>m \<in> set (dbMembers d). mbHousehold m = h \<and> P m"
  shows "peopled d'"
proof (rule peopledI)
  show "distinct (snd (people d'))"
    using peopledD(2) [OF assms(1)] by (simp add: people_def assms(3) distinct_map_filter)
  have "h \<in> mbHousehold ` {m \<in> set (dbMembers d). P m}" if "h \<in> set (householdIDs d)" for h
    using assms(4) [OF that] by auto
  then show "snd ` set (snd (people d')) = set (householdIDs d')"
    using peopledD(3) [OF assms(1)] by (auto simp: people_def assms(2,3) membership_def image_image)
qed (use peopledD(1) [OF assms(1)] assms(2) in simp)

lemma two_members:
  assumes "distinct (snd (people d))" "length (memberIDs h d) > 1"
  shows "\<exists>m \<in> set (dbMembers d). mbHousehold m = h \<and> mbUser m \<noteq> u"
proof (rule ccontr)
  assume "\<not> ?thesis"
  then have "set (map membership (filter (\<lambda>m. mbHousehold m = h) (dbMembers d))) \<subseteq> {(u, h)}"
    by (auto simp: membership_def)
  moreover have "distinct (map membership (filter (\<lambda>m. mbHousehold m = h) (dbMembers d)))"
    using assms(1) by (simp add: people_def distinct_map_filter)
  ultimately have "length (filter (\<lambda>m. mbHousehold m = h) (dbMembers d)) \<le> 1"
    using card_mono [of "{(u, h)}" "set (map membership (filter (\<lambda>m. mbHousehold m = h) (dbMembers d)))"]
    using distinct_card [of "map membership (filter (\<lambda>m. mbHousehold m = h) (dbMembers d))"] by simp
  then show False using assms(2) by (simp add: memberIDs_def)
qed

lemma one_each:
  assumes "peopled d" "h \<in> set (householdIDs d)"
  shows "\<exists>m \<in> set (dbMembers d). mbHousehold m = h"
  using peopledD(3) [OF assms(1)] assms(2) by (force simp: people_def membership_def)

lemma peopled_RemoveMember:
  assumes "peopled (hsDB s)" "length (memberIDs h (hsDB s)) > 1"
  shows "peopled (hsDB (snd (RemoveMember ok u h s)))"
proof (cases "ok \<and> isMember u h (hsDB s)")
  case True
  then have "hsDB (snd (RemoveMember ok u h s))
      = (hsDB s)\<lparr>dbMembers := filter (\<lambda>m. \<not> (mbUser m = u \<and> mbHousehold m = h)) (dbMembers (hsDB s))\<rparr>"
    by (simp add: RemoveMember_def)
  moreover have "\<exists>m \<in> set (dbMembers (hsDB s)). mbHousehold m = g \<and> \<not> (mbUser m = u \<and> mbHousehold m = h)"
    if "g \<in> set (householdIDs (hsDB s))" for g
    using two_members [OF peopledD(2) [OF assms(1)] assms(2), of u] one_each [OF assms(1) that] by (cases "g = h") auto
  ultimately show ?thesis by (intro peopled_filter [OF assms(1)]) simp_all
qed (use assms in \<open>auto simp: RemoveMember_def\<close>)

lemma peopled_DeleteHousehold:
  assumes "peopled (hsDB s)"
  shows "peopled (hsDB (snd (DeleteHousehold f h s)))"
proof (cases rule: DeleteHousehold_cases [of f h s])
  case deleted
  let ?d = "deleteHouseholdRow h (hsDB s)"
  note P = peopledD [OF assms]
  have "snd (people ?d) = map membership (filter (\<lambda>m. mbHousehold m \<noteq> h) (dbMembers (hsDB s)))"
    "householdIDs ?d = map hhID (filter (\<lambda>r. hhID r \<noteq> h) (dbHouseholds (hsDB s)))"
    by (simp_all add: deleteHouseholdRow_def deleteLines_def Let_def people_def)
  moreover have "snd ` set (map membership (filter (\<lambda>m. mbHousehold m \<noteq> h) ms)) = snd ` set (map membership ms) - {h}" for ms
    by (force simp: membership_def)
  moreover have "set (map hhID (filter (\<lambda>r. hhID r \<noteq> h) hs)) = set (map hhID hs) - {h}" for hs :: "HouseholdRow list" by auto
  ultimately have "peopled ?d" using P by (intro peopledI) (simp_all add: people_def distinct_map_filter)
  then show ?thesis using deleted(2) by simp
qed (use assms in simp)

section \<open>Leaving\<close>

text \<open>Every household keeps somebody when \<open>u\<close> goes, but for those in \<open>hs\<close>.\<close>

definition goodbye :: "string \<Rightarrow> string set \<Rightarrow> DB \<Rightarrow> bool" where
  "goodbye u hs d \<longleftrightarrow> (\<forall>h \<in> set (householdIDs d) - hs. \<exists>m \<in> set (dbMembers d). mbHousehold m = h \<and> mbUser m \<noteq> u)"

lemma goodbye_start:
  assumes "peopled d" "GetForUser ok u d = Inr hs"
  shows "goodbye u (hhID ` set hs) d"
proof -
  have "\<exists>m' \<in> set (dbMembers d). mbHousehold m' = h \<and> mbUser m' \<noteq> u" if h: "h \<in> set (householdIDs d)" "h \<notin> hhID ` set hs" for h
  proof -
    obtain m where m: "m \<in> set (dbMembers d)" "mbHousehold m = h" using one_each [OF assms(1) h(1)] by blast
    obtain r where r: "r \<in> set (dbHouseholds d)" "hhID r = h" using h(1) by auto
    have "mbUser m \<noteq> u"
    proof
      assume "mbUser m = u"
      then have "r \<in> set hs" using assms(2) m r
        by (force simp: GetForUser_def GetForUserWithRoles_def split: if_splits)
      then show False using h(2) r(2) by auto
    qed
    then show ?thesis using m by blast
  qed
  then show ?thesis by (simp add: goodbye_def)
qed

lemma goodbye_removed:
  assumes "goodbye u (insert h hs) (hsDB s)" "distinct (snd (people (hsDB s)))" "length (memberIDs h (hsDB s)) > 1"
  shows "goodbye u hs (hsDB (snd (RemoveMember ok u h s)))"
proof -
  have "\<exists>m \<in> set (dbMembers (hsDB s)). mbHousehold m = g \<and> mbUser m \<noteq> u" if "g \<in> set (householdIDs (hsDB s)) - hs" for g
    using assms(1) two_members [OF assms(2,3), of u] that by (cases "g = h") (auto simp: goodbye_def)
  then have "goodbye u hs (hsDB s)" by (simp add: goodbye_def)
  then show ?thesis by (auto simp: goodbye_def RemoveMember_def)
qed

lemma goodbye_deleted:
  assumes "goodbye u (insert h hs) (hsDB s)" "DeleteHousehold f h s = (Inr (), s')"
  shows "goodbye u hs (hsDB s')"
proof (cases rule: DeleteHousehold_cases [of f h s])
  case deleted
  then have d: "hsDB s' = deleteHouseholdRow h (hsDB s)" using assms(2) by simp
  have m: "dbMembers (hsDB s') = filter (\<lambda>m. mbHousehold m \<noteq> h) (dbMembers (hsDB s))"
    "dbHouseholds (hsDB s') = filter (\<lambda>r. hhID r \<noteq> h) (dbHouseholds (hsDB s))"
    by (simp_all add: d deleteHouseholdRow_def deleteLines_def Let_def)
  have "\<exists>m \<in> set (dbMembers (hsDB s)). (mbHousehold m = k \<and> mbUser m \<noteq> u) \<and> mbHousehold m \<noteq> h"
    if "k \<in> set (householdIDs (hsDB s)) - insert h hs" for k
    using bspec [OF assms(1) [unfolded goodbye_def] that] that by auto
  then show ?thesis by (auto simp: goodbye_def m)
next
  case (failed e)
  then show ?thesis using assms(2) by simp
qed

lemma leave_peopled:
  "peopled (wbDB w) \<Longrightarrow> goodbye u (hhID ` set hs) (wbDB w) \<Longrightarrow> leaveHouseholds fs now u i hs w = (b, w')
    \<Longrightarrow> peopled (wbDB w') \<and> (b \<longrightarrow> goodbye u {} (wbDB w'))"
proof (induction hs arbitrary: i w)
  case (Cons g hs)
  show ?case
  proof (cases "MemberCount (fs i 0) (hhID g) (wbDB w)")
    case (Inr n)
    have n: "n = length (memberIDs (hhID g) (wbDB w))" using Inr by (auto simp: MemberCount_def split: if_splits)
    show ?thesis
    proof (cases "n \<le> 1")
      case True
      show ?thesis
      proof (cases "ListByHousehold (fs i 1) (hhID g) (wbDB w)")
        case ls: (Inr ls)
        obtain r s where d: "DeleteHousehold (shift 2 (fs i)) (hhID g) (wbS w) = (r, s)" by fastforce
        have p: "peopled (hsDB s)" using peopled_DeleteHousehold [OF Cons.prems(1), of "shift 2 (fs i)" "hhID g"] d by simp
        show ?thesis
        proof (cases r)
          case ok: (Inr x)
          have d': "DeleteHousehold (shift 2 (fs i)) (hhID g) (wbS w) = (Inr (), s)" using d ok by simp
          have "goodbye u (hhID ` set hs) (hsDB s)"
            by (rule goodbye_deleted [OF _ d']) (use Cons.prems(2) in simp)
          then show ?thesis using Inr True ls d ok p Cons.prems(3)
              Cons.IH [of "(fold (\<lambda>l. clearLine (fs i 6) now (lnNumber l)) ls w)\<lparr>wbS := s\<rparr>" "Suc i"]
            by (simp add: Let_def clearLines_S del: One_nat_def)
        qed (use Inr True ls d p Cons.prems in \<open>auto simp: Let_def clearLines_S simp del: One_nat_def\<close>)
      qed (use Inr True Cons.prems in \<open>auto simp del: One_nat_def\<close>)
    next
      case False
      then have l: "length (memberIDs (hhID g) (wbDB w)) > 1" using n by simp
      show ?thesis using Inr False Cons.prems
          Cons.IH [of "w\<lparr>wbS := snd (RemoveMember (fs i 1) u (hhID g) (wbS w))\<rparr>" "Suc i"]
          peopled_RemoveMember [OF Cons.prems(1) l, of "fs i 1" u]
          goodbye_removed [OF _ peopledD(2) [OF Cons.prems(1)] l, of u "hhID ` set hs" "fs i 1"]
        by (simp del: One_nat_def)
    qed
  qed (use Cons.prems in auto)
qed simp

lemma peopled_DeleteUser: "peopled d \<Longrightarrow> goodbye u {} d \<Longrightarrow> peopled (snd (DeleteUser ok u d))"
proof (cases "ok \<and> u \<in> set (userIDs d)")
  case True
  assume p: "peopled d" and g: "goodbye u {} d"
  have "snd (DeleteUser ok u d) = deleteUserRow u d" using True by (simp add: DeleteUser_def)
  then show ?thesis using g
    by (intro peopled_filter [OF p, of _ "\<lambda>m. mbUser m \<noteq> u"]) (auto simp: deleteUserRow_def goodbye_def)
qed (auto simp: DeleteUser_def)

section \<open>Every request\<close>

lemma people_web:
  "people (wbDB (snd (handleWelcomePost ok user th w))) = people (wbDB w)"
  "people (wbDB (snd (handleHouseholdAdminPost f hash now user cookie (saveSetting ok q) w))) = people (wbDB w)"
  "people (wbDB (snd (handleHouseholdInvitePost f hash rtok i now user cookie addr w))) = people (wbDB w)"
  "people (wbDB (snd (handleHouseholdInviteCancelPost f hash now user cookie i w))) = people (wbDB w)"
  "people (wbDB (snd (handleHouseholdSwitchPost f hash now user cookie g w))) = people (wbDB w)"
  "people (wbDB (snd (handleLinksInvitePost f hash code i now user cookie w))) = people (wbDB w)"
  "people (wbDB (snd (handleLinksAcceptPost f hash now user cookie field w))) = people (wbDB w)"
  "people (wbDB (snd (linksRevoke f now user i w))) = people (wbDB w)"
  "people (wbDB (snd (setAccountDisabled f now allow user v b w))) = people (wbDB w)"
proof -
  note V = people_ops
  have snds: "people d = x" if "r = (y, d)" "people (snd r) = x" for r :: "'z \<times> DB" and y d x using that by simp
  show "people (wbDB (snd (handleWelcomePost ok user th w))) = people (wbDB w)"
    by (auto simp: handleWelcomePost_def V split: option.split prod.split sum.split elim!: snds)
  show "people (wbDB (snd (handleHouseholdAdminPost f hash now user cookie (saveSetting ok q) w))) = people (wbDB w)"
    by (auto simp: handleHouseholdAdminPost_def V split: sum.split prod.split elim!: snds)
  show "people (wbDB (snd (handleHouseholdInvitePost f hash rtok i now user cookie addr w))) = people (wbDB w)"
    by (auto simp: handleHouseholdInvitePost_def Let_def V split: option.split prod.split sum.split bool.split elim!: snds)
  show "people (wbDB (snd (handleHouseholdInviteCancelPost f hash now user cookie i w))) = people (wbDB w)"
    by (auto simp: handleHouseholdInviteCancelPost_def V split: sum.split)
  show "people (wbDB (snd (handleHouseholdSwitchPost f hash now user cookie g w))) = people (wbDB w)"
    by (auto simp: handleHouseholdSwitchPost_def V split: sum.split option.split)
  show "people (wbDB (snd (handleLinksInvitePost f hash code i now user cookie w))) = people (wbDB w)"
    by (auto simp: handleLinksInvitePost_def V split: prod.split sum.split elim!: snds)
  show "people (wbDB (snd (handleLinksAcceptPost f hash now user cookie field w))) = people (wbDB w)"
    by (auto simp: handleLinksAcceptPost_def Let_def V split: prod.split sum.split list.split elim!: snds)
  have "people (snd (handleLinksRevokePost f now admin i u d)) = people d" for admin u d
    by (auto simp: handleLinksRevokePost_def V split: sum.split prod.split elim!: snds)
  then show "people (wbDB (snd (linksRevoke f now user i w))) = people (wbDB w)"
    by (auto simp: linksRevoke_def Let_def split: option.split prod.split elim!: snds)
  show "people (wbDB (snd (setAccountDisabled f now allow user v b w))) = people (wbDB w)"
    by (auto simp: setAccountDisabled_def V split: prod.split sum.split elim!: snds)
qed

lemma people_phones:
  "people (wbDB (snd (handlePhonesPairPost mar f hash pint tok lid now user cookie code name mode existing number w))) = people (wbDB w)"
  "people (wbDB (snd (handlePhoneNamePost f user number name w))) = people (wbDB w)"
  "people (wbDB (snd (handlePhoneNumberPost mar f user number new tr w))) = people (wbDB w)"
  "people (wbDB (snd (handlePhoneDelete mar f user number w))) = people (wbDB w)"
  "people (wbDB (snd (handlePhoneConvert mar f pint user number tgt dev tr w))) = people (wbDB w)"
  "people (wbDB (snd (handlePhoneCommand mar f user number want cmd w))) = people (wbDB w)"
proof -
  note V = people_ops
  have snds: "people d = x" if "r = (y, d)" "people (snd r) = x" for r :: "'z \<times> DB" and y d x using that by simp
  have claim: "people (snd (pairClaim f hash pint tok lid now g c nm md ex number d)) = people d" for g c nm md ex d
    by (auto simp: pairClaim_def Let_def V split: option.split sum.split prod.split elim!: snds)
  show "people (wbDB (snd (handlePhonesPairPost mar f hash pint tok lid now user cookie code name mode existing number w))) = people (wbDB w)"
    by (auto simp: handlePhonesPairPost_def Let_def claim split: sum.split prod.split elim!: snds)
  show "people (wbDB (snd (handlePhoneNamePost f user number name w))) = people (wbDB w)"
    by (auto simp: handlePhoneNamePost_def V split: sum.split prod.split elim!: snds)
  show "people (wbDB (snd (handlePhoneDelete mar f user number w))) = people (wbDB w)"
    by (auto simp: handlePhoneDelete_def V split: sum.split prod.split elim!: snds)
  have E: "people d = people d0" if "UpdateLine k i n nm d0 = (x, d)" for k i n nm x d d0
    using V(9) [of k i n nm d0] that by simp
  have R: "people d = people d0" if "Reassign k i n d0 = (x, d)" for k i n x d d0
    using V(11) [of k i n d0] that by simp
  show "people (wbDB (snd (handlePhoneNumberPost mar f user number new tr w))) = people (wbDB w)"
    by (auto simp: handlePhoneNumberPost_def Let_def renumbered_def split: sum.split prod.split bool.split dest!: E)
  have send: "wbDB (snd (sendDeviceCommand mar number hw msg w)) = wbDB w" for hw msg w
    by (simp add: sendDeviceCommand_def Let_def split: prod.split)
  show "people (wbDB (snd (handlePhoneCommand mar f user number want cmd w))) = people (wbDB w)"
    by (auto simp: handlePhoneCommand_defs send split: phoneCommand.split sum.split prod.split)
  have conv: "people (wbDB (snd (converted mar f number src t v x))) = people (wbDB x)" for src t v x
    by (simp add: converted_def Let_def V split: sum.split list.split)
  show "people (wbDB (snd (handlePhoneConvert mar f pint user number tgt dev tr w))) = people (wbDB w)"
    by (auto simp: handlePhoneConvert_def Let_def conv split: sum.split prod.split option.split dest!: R)
qed

lemma people_tel: "tel d' = tel d \<Longrightarrow> people d' = people d"
  by (simp add: tel_def people_def)

lemma people_untouched: "untouched d (snd r) \<Longrightarrow> people (snd r) = people d"
  by (rule people_tel) (simp add: untouched_def)

lemma people_adds: "adds_user uid d (snd r) \<Longrightarrow> people (snd r) = people d"
  by (rule people_tel) (simp add: adds_user_def)

lemma people_device:
  "people (snd (GenerateCode ok c dv now hw d)) = people d" "people (snd (cleanupExpiredCodes ok now d)) = people d"
  "people (snd (Unpair ok hw d)) = people d" "people (snd (TouchLastSeenDB ok now hw d)) = people d"
  by (auto simp: people_def GenerateCode_def cleanupExpiredCodes_def Unpair_def TouchLastSeenDB_def Let_def split: option.split)

lemma people_sign_in: "signInMove m \<Longrightarrow> people (hsDB (access_step hash m s)) = people (hsDB s)"
  by (cases m) (simp_all add: db_frame [THEN people_untouched] MagicVerify_frame [THEN people_adds]
      Callback_frame [THEN people_adds] NeedsOnboarding_def people_device split: sum.split)

lemma peopled_moves:
  assumes "peopled (wbDB w)"
  shows "peopled (wbDB (snd (handleOnboardPost f hid now user nm w)))"
    "peopled (wbDB (snd (handleInviteAcceptPost f hash now cookie tok w)))"
    "peopled (wbDB (snd (handleHouseholdMemberRemovePost f hash now user cookie v w)))"
    "peopled (wbDB (snd (handleAccountDeletePost f fs now user w)))"
proof -
  have C: "peopled (hsDB s)" if "CreateHousehold g h' n' nm' u (wbS w) = (r, s)" for g h' n' nm' u r s
    using peopled_CreateHousehold [OF assms, of g h' n' nm' u] that by simp
  show "peopled (wbDB (snd (handleOnboardPost f hid now user nm w)))"
    using assms by (auto simp: handleOnboardPost_def Let_def split: option.split prod.split dest: C)
  have R: "peopled (hsDB s)" if "RedeemInvite g n' t u e (wbS w) = (r, s)" for g n' t u e r s
    using peopled_RedeemInvite [OF assms, of g n' t u e] that by simp
  show "peopled (wbDB (snd (handleInviteAcceptPost f hash now cookie tok w)))"
    using assms by (auto simp: handleInviteAcceptPost_def split: option.split prod.split sum.split
        dest!: R intro: peopled_same [OF people_ops(2)])
  show "peopled (wbDB (snd (handleHouseholdMemberRemovePost f hash now user cookie v w)))"
    using assms by (auto simp: handleHouseholdMemberRemovePost_def MemberCount_def not_le split: sum.split
        intro!: peopled_RemoveMember)
  show "peopled (wbDB (snd (handleAccountDeletePost f fs now user w)))"
  proof (cases user)
    case (Some u)
    show ?thesis
    proof (cases "GetForUser (f 0) (usID u) (wbDB w)")
      case (Inr hs)
      obtain b w' where l: "leaveHouseholds fs now (usID u) 0 hs w = (b, w')" by fastforce
      have p: "peopled (wbDB w')" "b \<longrightarrow> goodbye (usID u) {} (wbDB w')"
        using leave_peopled [OF assms goodbye_start [OF assms Inr] l] by simp_all
      have "peopled d" if "b" "DeleteUser (f 1) (usID u) (wbDB w') = (x, d)" for x d
        using peopled_DeleteUser [OF p(1), of "usID u" "f 1"] p(2) that by simp
      then show ?thesis using Some Inr l p(1)
        by (auto simp: handleAccountDeletePost_def split: sum.split prod.split bool.split)
    qed (use assms Some in \<open>simp add: handleAccountDeletePost_def\<close>)
  qed (use assms in \<open>simp add: handleAccountDeletePost_def\<close>)
qed

interpretation peopled: invariant_machine "web_step o'" web_move_ok "\<lambda>w. peopled (wbDB w)"
proof
  fix m w
  assume ok: "web_move_ok m w" and p: "peopled (wbDB w)"
  show "peopled (wbDB (web_step o' m w))"
  proof (cases m)
    case (WmSignIn x)
    then show ?thesis using ok peopled_same [OF people_sign_in p] by (simp add: web_step_def)
  qed (simp_all add: web_step_def peopled_moves p peopled_same [OF people_web(1) p] peopled_same [OF people_web(2) p]
      peopled_same [OF people_web(3) p] peopled_same [OF people_web(4) p] peopled_same [OF people_web(5) p]
      peopled_same [OF people_web(6) p] peopled_same [OF people_web(7) p] peopled_same [OF people_web(8) p]
      peopled_same [OF people_web(9) p] peopled_same [OF people_phones(1) p] peopled_same [OF people_phones(2) p]
      peopled_same [OF people_phones(3) p] peopled_same [OF people_phones(4) p] peopled_same [OF people_phones(5) p]
      peopled_same [OF people_phones(6) p])
qed

text \<open>The server as it is set up: no account, no household.\<close>

definition freshWeb :: "Hub \<Rightarrow> Tracker \<Rightarrow> Web" where
  "freshWeb h t = \<lparr>wbS = newHStore, wbHub = h, wbTr = t, wbMail = []\<rparr>"

text \<open>
  C31: nobody is left behind.  Whatever people do in the web interface, one request after the
  other and whatever statements fail: every household has a member, every membership is of a
  household that exists and of a user that exists, and nobody is a member twice.  The last
  member cannot be removed; an account that goes takes with it the households that would be empty.
\<close>

theorem no_household_is_orphaned:
  assumes "allowed_run (web_step o') web_move_ok ms (freshWeb h t)"
    and "d = wbDB (fold (web_step o') ms (freshWeb h t))"
  shows "distinct (map membership (dbMembers d))
    \<and> snd ` membership ` set (dbMembers d) = set (householdIDs d)
    \<and> fst ` membership ` set (dbMembers d) \<subseteq> set (userIDs d)"
proof -
  have "peopled (wbDB (freshWeb h t))" by (simp add: freshWeb_def newHStore_def peopled_def people_def emptyDB_def)
  then have p: "peopled d" using peopled.run_inv [OF _ assms(1)] assms(2) by simp
  have "access_ok (wbS (freshWeb h t))" by (simp add: freshWeb_def)
  then have "members_ok (wbS (fold (web_step o') ms (freshWeb h t)))"
    using web.run_inv [OF _ assms(1)] by (simp add: access_ok_def)
  then have "mbUser ` set (dbMembers d) \<subseteq> set (userIDs d)" using assms(2) by (simp add: members_ok_def)
  then show ?thesis using peopledD(2,3) [OF p] by (simp add: people_def membership_def image_image)
qed

text \<open>Two people sign in and start households; the first invites the second and leaves.\<close>

definition whoIs :: "string \<Rightarrow> UserRow option" where
  "whoIs u = find (\<lambda>r. usID r = u) (dbUsers (hsDB (runAccess id (take 4 familyMoves))))"

definition movingIn :: "webMove list" where
  "movingIn = map WmSignIn (take 4 familyMoves) @
     [WmOnboard (\<lambda>_. True) ''ha'' 5 (whoIs ''ua'') ''A'', WmOnboard (\<lambda>_. True) ''hb'' 6 (whoIs ''ub'') ''B'',
      WmMemberRemove (\<lambda>_. True) 7 (whoIs ''ua'') None ''ua'',
      WmInvite (\<lambda>_. True) (Some ''tok'') ''i1'' 7 (whoIs ''ua'') None (Some ''b@x''),
      WmInviteAccept (\<lambda>_. True) 8 (Some ''s2'') ''tok'',
      WmAccountDelete (\<lambda>_. True) (\<lambda>_ _. True) 9 (whoIs ''ua'')]"

theorem no_household_is_orphaned_witness:
  "let d = wbDB (fold (web_step familyOutside) movingIn (freshWeb NewHub (NewTracker True True True)))
   in map membership (dbMembers d) = [(''ub'', ''hb''), (''ub'', ''ha'')] \<and> householdIDs d = [''ha'', ''hb'']
    \<and> fst ` membership ` set (dbMembers d) \<subseteq> set (userIDs d)"
proof -
  let ?w = "freshWeb NewHub (NewTracker True True True)"
  have "allowed_run (web_step familyOutside) web_move_ok movingIn ?w" by code_simp
  moreover have "map membership (dbMembers (wbDB (fold (web_step familyOutside) movingIn ?w))) = [(''ub'', ''hb''), (''ub'', ''ha'')]"
    "householdIDs (wbDB (fold (web_step familyOutside) movingIn ?w)) = [''ha'', ''hb'']" by code_simp+
  ultimately show ?thesis using no_household_is_orphaned [OF _ refl] by (simp add: Let_def)
qed

end
