(* ===== verification/WebNumbers.thy ===== *)
theory WebNumbers
  imports WebPeople
begin

text \<open>Changing the number of a line: \<^verbatim>\<open>handlePhoneNumberPost\<close>.\<close>

section \<open>A row that changes its number\<close>

lemma UpdateLine_Inr:
  assumes "UpdateLine k i n nm d = (Inr x, d')"
  shows "k" "d' = d\<lparr>dbLines := updRows (\<lambda>l. lnID l = i) (\<lambda>l. l\<lparr>lnNumber := n, lnName := nm\<rparr>) (dbLines d)\<rparr>"
    "\<not> list_ex (\<lambda>l. lnID l \<noteq> i \<and> lnNumber l = n) (dbLines d)"
  using assms by (auto simp: UpdateLine_def split: if_splits)

lemma UpdateLine_Inl: "UpdateLine k i n nm d = (Inl e, d') \<Longrightarrow> d' = d"
  by (auto simp: UpdateLine_def split: if_splits)

lemma UpdateLine_back:
  assumes ok: "access_ok s" and l: "l \<in> set (dbLines (hsDB s))"
    and "UpdateLine k (lnID l) n (lnName l) (hsDB s) = (Inr x, d)"
    and "UpdateLine k' (lnID l) (lnNumber l) (lnName l) d = (Inr y, d')"
  shows "d' = hsDB s"
proof -
  have r: "r\<lparr>lnNumber := lnNumber l, lnName := lnName l\<rparr> = r" if "r \<in> set (dbLines (hsDB s))" "lnID r = lnID l" for r
    using line_ids [OF ok that(1) l that(2)] by simp
  have "dbLines d' = dbLines (hsDB s)"
    using r by (simp add: UpdateLine_Inr(2) [OF assms(3)] UpdateLine_Inr(2) [OF assms(4)] updRows_def map_idI)
  then show ?thesis by (simp add: UpdateLine_Inr(2) [OF assms(3)] UpdateLine_Inr(2) [OF assms(4)])
qed

text \<open>When the way back is open, it works.\<close>

lemma UpdateLine_back_ok:
  assumes ok: "access_ok s" and l: "l \<in> set (dbLines (hsDB s))"
    and "UpdateLine k (lnID l) n (lnName l) (hsDB s) = (Inr x, d)" "k'"
  shows "\<exists>y. UpdateLine k' (lnID l) (lnNumber l) (lnName l) d = (Inr (), y)"
proof -
  have "distinct (map lnNumber (dbLines (hsDB s)))" using access_okD(2) [OF ok] by (simp add: devices_ok_def)
  then have "r = l" if "r \<in> set (dbLines (hsDB s))" "lnNumber r = lnNumber l" for r
    using that l by (auto simp: distinct_map dest: inj_onD)
  then have "\<forall>r \<in> set (dbLines d). lnNumber r = lnNumber l \<longrightarrow> lnID r = lnID l"
    unfolding UpdateLine_Inr(2) [OF assms(3)] by (auto simp: ball_updRows)
  then have "\<not> list_ex (\<lambda>r. lnID r \<noteq> lnID l \<and> lnNumber r = lnNumber l) (dbLines d)" by (auto simp: list_ex_iff)
  moreover have "lnID l \<in> set (lineIDs d)"
    using l by (auto simp: UpdateLine_Inr(2) [OF assms(3)] updRows_def image_iff)
  ultimately show ?thesis using assms(4) by (simp add: UpdateLine_def)
qed

lemma old_number_gone:
  assumes ok: "access_ok s" and l: "l \<in> set (dbLines (hsDB s))" and n: "n \<noteq> lnNumber l"
    and "UpdateLine k (lnID l) n nm (hsDB s) = (Inr x, d)"
  shows "lnNumber l \<notin> lnNumber ` set (dbLines d)"
proof -
  have "distinct (map lnNumber (dbLines (hsDB s)))" using access_okD(2) [OF ok] by (simp add: devices_ok_def)
  then have "r = l" if "r \<in> set (dbLines (hsDB s))" "lnNumber r = lnNumber l" for r
    using that l by (auto simp: distinct_map dest: inj_onD)
  then have "\<forall>r \<in> set (dbLines d). lnNumber r \<noteq> lnNumber l"
    using n unfolding UpdateLine_Inr(2) [OF assms(4)] by (auto simp: ball_updRows)
  then show ?thesis by force
qed

lemma no_line_no_call: "n \<notin> lnNumber ` set (dbLines d) \<Longrightarrow> CanCall ok d n m \<noteq> Some True \<and> CanCall ok d m n \<noteq> Some True"
  by (force simp: CanCall_def householdsOfLine_def list_ex_iff)

section \<open>All or nothing\<close>

text \<open>
  C32: changing a line's number is all or nothing.  Either the tables and the hub are as before, or the line
  alone carries the new number, its handsets are told and cut off, nobody calls or is called under
  the old number any more, and no call on it was seen: neither at the first look nor, unless handing
  the number back failed, at the second.
\<close>

theorem number_change_all_or_nothing:
  assumes ok: "access_ok (wbS w)"
    and own: "requireLineOwnershipAdmin f user old (wbDB w) = Inr l"
    and run: "handlePhoneNumberPost mar f user old field tr' w = (p, w')"
    and new: "new = StripNumber field"
  shows "wbDB w' = wbDB w \<and> wbHub w' = wbHub w \<and> (p = phonePage new \<longrightarrow> new = old)
    \<or> p = phonePage new \<and> \<not> lineBusy old (wbTr w) \<and> (lineBusy old tr' \<longrightarrow> \<not> f 4)
      \<and> wbDB w' = (wbDB w)\<lparr>dbLines := updRows (\<lambda>r. lnID r = lnID l) (\<lambda>r. r\<lparr>lnNumber := new, lnName := lnName l\<rparr>) (dbLines (wbDB w))\<rparr>
      \<and> wbHub w' = CloseLine mar old (Some (lineRenumber new)) (wbHub w)
      \<and> CanCall True (wbDB w') old n = Some False \<and> CanCall True (wbDB w') n old = Some False"
proof -
  obtain u where l: "l \<in> set (dbLines (wbDB w))" "lnNumber l = old" by (rule owner_admin_guard [OF own])
  show ?thesis
  proof (cases "\<not> lineBusy old (wbTr w) \<and> ValidateNumber new = None \<and> new \<noteq> old \<and> NumberExistsExcluding (f 2) new (lnID l) (wbDB w) = Inr False")
    case False
    then show ?thesis using run own new
      by (auto simp: handlePhoneNumberPost_def Let_def phonePage_def split: sum.splits bool.splits if_splits)
  next
    case True
    obtain x d where U: "UpdateLine (f 3) (lnID l) new (lnName l) (wbDB w) = (x, d)" by fastforce
    have start: "handlePhoneNumberPost mar f user old field tr' w
        = (case x of Inl e \<Rightarrow> (WpStatus 500, setDB d w)
           | Inr _ \<Rightarrow> let w = setDB d (w\<lparr>wbTr := tr'\<rparr>) in
               if lineBusy old (wbTr w) then
                 (case UpdateLine (f 4) (lnID l) old (lnName l) (wbDB w) of
                    (Inr _, d) \<Rightarrow> (WpNumberError old ''cannot change number while on an active call'', setDB d w)
                  | (Inl e, d) \<Rightarrow> renumbered mar (f 5) old new (setDB d w))
               else renumbered mar (f 5) old new w)"
      using True own U unfolding new by (simp add: handlePhoneNumberPost_def Let_def split: sum.split)
    show ?thesis
    proof (cases x)
      case (Inl e)
      then show ?thesis using UpdateLine_Inl [of "f 3" "lnID l" new "lnName l" "wbDB w" e d] U run start
        by (auto simp: setDB_def phonePage_def)
    next
      case (Inr y)
      note U' = U [unfolded Inr]
      have gone: "old \<notin> lnNumber ` set (dbLines d)"
        using old_number_gone [OF ok l(1) _ U'] True l(2) by simp
      show ?thesis
      proof (cases "lineBusy old tr' \<and> f 4")
        case True
        obtain d' where B: "UpdateLine (f 4) (lnID l) old (lnName l) d = (Inr (), d')"
          using UpdateLine_back_ok [OF ok l(1) U'] True l(2) by blast
        then have "d' = wbDB w" using UpdateLine_back [OF ok l(1) U'] l(2) by simp
        then show ?thesis using run start Inr True B by (auto simp: Let_def phonePage_def)
      next
        case False
        have "UpdateLine (f 4) (lnID l) old (lnName l) d = (Inl DbFail, d)" if "\<not> f 4"
          using that by (simp add: UpdateLine_def)
        then have "(p, w') = renumbered mar (f 5) old new (setDB d (w\<lparr>wbTr := tr'\<rparr>))"
          using run start Inr False by (auto simp: Let_def setDB_def split: if_splits)
        then show ?thesis
          using True False UpdateLine_Inr(2) [OF U'] no_line_no_call [OF gone, of True n]
          by (auto simp: renumbered_def setDB_def CanCall_def)
      qed
    qed
  qed
qed

text \<open>The kitchen phone of the first family gets a new number; under the number of a call, it does not.\<close>

definition userUa :: "UserRow option" where
  "userUa = find (\<lambda>u. usID u = ''ua'') (dbUsers (wbDB familyWeb))"

definition renumberKitchen :: "Tracker \<Rightarrow> webPage \<times> Web" where
  "renumberKitchen tr = handlePhoneNumberPost (\<lambda>_. Some []) (\<lambda>_. True) userUa ''100'' ''555-1000'' tr familyWeb"

definition busyTracker :: Tracker where
  "busyTracker = rTr (fold relay_step [plug ''a'' ''100'', plug ''b'' ''200'', dials ''100'' ''200''] (freshRelay True True True))"

theorem number_change_all_or_nothing_witness:
  "CanCall True (wbDB (snd (renumberKitchen (NewTracker True True True)))) ''100'' ''200'' = Some False
   \<and> CanCall True (wbDB (snd (renumberKitchen (NewTracker True True True)))) ''5551000'' ''200'' = Some True
   \<and> wbDB (snd (renumberKitchen busyTracker)) = wbDB familyWeb"
proof -
  let ?r = "renumberKitchen (NewTracker True True True)" and ?b = "renumberKitchen busyTracker"
  let ?l = "hd (dbLines (wbDB familyWeb))"
  have ok: "access_ok (wbS familyWeb)" using accessRun_ok [OF family_run] by (simp add: familyWeb_def)
  have own: "requireLineOwnershipAdmin (\<lambda>_. True) userUa ''100'' (wbDB familyWeb) = Inr ?l" by code_simp
  have n: "''5551000'' = StripNumber ''555-1000''" by code_simp
  have page: "fst ?r = phonePage ''5551000''" "lineBusy ''100'' busyTracker" by code_simp+
  have can: "CanCall True (wbDB (snd ?r)) ''5551000'' ''200'' = Some True" by code_simp
  have b: "handlePhoneNumberPost (\<lambda>_. Some []) (\<lambda>_. True) userUa ''100'' ''555-1000'' busyTracker familyWeb = (fst ?b, snd ?b)"
    by (simp add: renumberKitchen_def)
  have r: "handlePhoneNumberPost (\<lambda>_. Some []) (\<lambda>_. True) userUa ''100'' ''555-1000'' (NewTracker True True True) familyWeb
      = (phonePage ''5551000'', snd ?r)" using page(1) by (metis prod.collapse renumberKitchen_def)
  show ?thesis using number_change_all_or_nothing [OF ok own b n, of "''200''"] page(2)
      number_change_all_or_nothing [OF ok own r n, of "''200''"] can by auto
qed

end
