(* ===== verification/LinkHealth.thy ===== *)
theory LinkHealth
  imports Conference GoMap "HOL-Library.Word"
begin

text \<open>
  Link health, \<^verbatim>\<open>server/internal/calls/linkhealth.go\<close> and \<^verbatim>\<open>linkhealth_redis.go\<close>: rings of the
  latest samples of each endpoint, live subscribers, the flush to the database, the idle
  sweep, and the fan-out between pods.  A \<open>*sessionRings\<close> and a \<open>*subscriber\<close> are indices into
  heaps, so a session that left the map lives on for whoever holds it; a channel is a bounded
  queue with a closed flag, and a send or close on a closed channel sets \<open>hlPanic\<close>.  Times are
  nanoseconds, floats bit patterns; \<open>now\<close> and the failures of statements are arguments, and a statement that fails loses nothing that was there.
\<close>

section \<open>Data\<close>

record Sample =
  smTS :: int
  smLossPct :: "32 word option"
  smJitterMs :: "32 word option"
  smRttMs :: "32 word option"
  smConnType :: string
  smBytesIn :: "int option"
  smBytesOut :: "int option"

datatype EventKind = SampleKind | DisconnectKind | EndedKind

record Event =
  evKind :: EventKind
  evEndpoint :: string
  evPeer :: string
  evSample :: "Sample option"
  evEndedBy :: string

text \<open>\<open>uuid.Nil\<close> is 0.\<close>

record SessionKey =
  skCallID :: int
  skConfID :: uuid

definition IsConf :: "SessionKey \<Rightarrow> bool" where
  "IsConf k \<longleftrightarrow> skConfID k \<noteq> 0"

definition callSession :: "int \<Rightarrow> SessionKey" where
  "callSession i = \<lparr>skCallID = i, skConfID = 0\<rparr>"

definition confSession :: "uuid \<Rightarrow> SessionKey" where
  "confSession c = \<lparr>skCallID = 0, skConfID = c\<rparr>"

record endpointKey =
  ekFrom :: string
  ekPeer :: string

definition RingCapacity :: nat where "RingCapacity = 60"

text \<open>The zero \<open>time.Time\<close>.\<close>

definition zeroTime :: int where "zeroTime = -62135596800000000000"

record ring =
  rgSamples :: "Sample list"
  rgLastFlushed :: int

definition emptyRing :: ring where
  "emptyRing = \<lparr>rgSamples = [], rgLastFlushed = zeroTime\<rparr>"

definition ringAppend :: "Sample \<Rightarrow> ring \<Rightarrow> ring" where
  "ringAppend s r =
     (if length (rgSamples r) < RingCapacity then r\<lparr>rgSamples := rgSamples r @ [s]\<rparr>
      else r\<lparr>rgSamples := (take (RingCapacity - 1) (drop 1 (rgSamples r))) @ [s]\<rparr>)"

definition ringLatest :: "ring \<Rightarrow> Sample option" where
  "ringLatest r = (if rgSamples r = [] then None else Some (last (rgSamples r)))"

record sessionRings =
  srByEndpoint :: "(endpointKey \<times> ring) list"
  srSubscribers :: "nat list"
  srLastActivity :: int

record subscriber =
  suCh :: "Event list"
  suClosed :: bool
  suDropped :: "64 word"

definition subscriberBufferSize :: nat where "subscriberBufferSize = 16"

record linkRow =
  lhCallID :: "int option"
  lhConfID :: "uuid option"
  lhEndpoint :: string
  lhPeer :: "string option"
  lhSample :: Sample

record healthEnvelope =
  hePodID :: string
  heKind :: nat
  heCallID :: int
  heConfID :: string
  heFrom :: string
  hePeer :: string
  heEndedBy :: string
  heSample :: "Sample option"

text \<open>\<open>hlClient\<close>: Redis is configured; \<open>hlPub\<close> what was published.\<close>

record HealthStore =
  hlDB :: bool
  hlSessions :: "(SessionKey \<times> nat) list"
  hlRings :: "sessionRings list"
  hlSubs :: "subscriber list"
  hlFlushDisabled :: bool
  hlClient :: bool
  hlPodID :: string
  hlPub :: "healthEnvelope list"
  hlRows :: "linkRow list"
  hlPanic :: bool

definition NewHealthStore :: "bool \<Rightarrow> HealthStore" where
  "NewHealthStore db = \<lparr>hlDB = db, hlSessions = [], hlRings = [], hlSubs = [], hlFlushDisabled = False,
     hlClient = False, hlPodID = [], hlPub = [], hlRows = [], hlPanic = False\<rparr>"

section \<open>Sessions\<close>

definition updRing :: "nat \<Rightarrow> (sessionRings \<Rightarrow> sessionRings) \<Rightarrow> HealthStore \<Rightarrow> HealthStore" where
  "updRing i g h = h\<lparr>hlRings := (hlRings h)[i := g (hlRings h ! i)]\<rparr>"

definition getOrCreateSession :: "int \<Rightarrow> SessionKey \<Rightarrow> HealthStore \<Rightarrow> nat \<times> HealthStore" where
  "getOrCreateSession now key h =
     (case map_of (hlSessions h) key of
        Some i \<Rightarrow> (i, updRing i (\<lambda>r. r\<lparr>srLastActivity := now\<rparr>) h)
      | None \<Rightarrow>
          (length (hlRings h),
           h\<lparr>hlRings := hlRings h @ [\<lparr>srByEndpoint = [], srSubscribers = [], srLastActivity = now\<rparr>],
             hlSessions := mput key (length (hlRings h)) (hlSessions h)\<rparr>))"

text \<open>A non-blocking send; a full buffer counts a drop.\<close>

definition offer :: "Event \<Rightarrow> nat \<Rightarrow> HealthStore \<Rightarrow> HealthStore" where
  "offer ev i h =
     (let su = hlSubs h ! i in
      if suClosed su then h\<lparr>hlPanic := True\<rparr>
      else if length (suCh su) < subscriberBufferSize
      then h\<lparr>hlSubs := (hlSubs h)[i := su\<lparr>suCh := suCh su @ [ev]\<rparr>]\<rparr>
      else h\<lparr>hlSubs := (hlSubs h)[i := su\<lparr>suDropped := suDropped su + 1\<rparr>]\<rparr>)"

definition closeSub :: "nat \<Rightarrow> HealthStore \<Rightarrow> HealthStore" where
  "closeSub i h =
     (let su = hlSubs h ! i in
      if suClosed su then h\<lparr>hlPanic := True\<rparr>
      else h\<lparr>hlSubs := (hlSubs h)[i := su\<lparr>suClosed := True\<rparr>]\<rparr>)"

definition broadcastLocked :: "Event \<Rightarrow> nat list \<Rightarrow> HealthStore \<Rightarrow> HealthStore" where
  "broadcastLocked ev subs h = fold (offer ev) subs h"

definition sampleEvent :: "string \<Rightarrow> string \<Rightarrow> Sample \<Rightarrow> Event" where
  "sampleEvent from peer s = \<lparr>evKind = SampleKind, evEndpoint = from, evPeer = peer, evSample = Some s, evEndedBy = []\<rparr>"

definition endedEvent :: Event where
  "endedEvent = \<lparr>evKind = EndedKind, evEndpoint = [], evPeer = [], evSample = None, evEndedBy = []\<rparr>"

definition disconnectEvent :: "string \<Rightarrow> Event" where
  "disconnectEvent by = \<lparr>evKind = DisconnectKind, evEndpoint = [], evPeer = [], evSample = None, evEndedBy = by\<rparr>"

definition ringOf :: "endpointKey \<Rightarrow> sessionRings \<Rightarrow> ring" where
  "ringOf e r = (case map_of (srByEndpoint r) e of None \<Rightarrow> emptyRing | Some q \<Rightarrow> q)"

text \<open>The second half of \<open>recordSession\<close>, under the lock of a session that was looked up before.\<close>

definition recordOn :: "nat \<Rightarrow> string \<Rightarrow> string \<Rightarrow> Sample \<Rightarrow> bool \<Rightarrow> HealthStore \<Rightarrow> HealthStore" where
  "recordOn i from peer s remote h =
     (let e = \<lparr>ekFrom = from, ekPeer = peer\<rparr>;
          q = ringAppend s (ringOf e (hlRings h ! i));
          q = (if remote \<and> rgLastFlushed q < smTS s then q\<lparr>rgLastFlushed := smTS s\<rparr> else q);
          h = updRing i (\<lambda>r. r\<lparr>srByEndpoint := mput e q (srByEndpoint r)\<rparr>) h
      in broadcastLocked (sampleEvent from peer s) (srSubscribers (hlRings h ! i)) h)"

definition recordSession :: "int \<Rightarrow> SessionKey \<Rightarrow> string \<Rightarrow> string \<Rightarrow> Sample \<Rightarrow> bool \<Rightarrow> HealthStore \<Rightarrow> HealthStore" where
  "recordSession now key from peer s remote h =
     (case getOrCreateSession now key h of (i, h) \<Rightarrow> recordOn i from peer s remote h)"

definition windowSession :: "SessionKey \<Rightarrow> string \<Rightarrow> string \<Rightarrow> HealthStore \<Rightarrow> Sample list" where
  "windowSession key from peer h =
     (case map_of (hlSessions h) key of None \<Rightarrow> []
      | Some i \<Rightarrow> rgSamples (ringOf \<lparr>ekFrom = from, ekPeer = peer\<rparr> (hlRings h ! i)))"

definition evictSession :: "SessionKey \<Rightarrow> HealthStore \<Rightarrow> HealthStore" where
  "evictSession key h =
     (case map_of (hlSessions h) key of None \<Rightarrow> h
      | Some i \<Rightarrow>
          let h = h\<lparr>hlSessions := mdel key (hlSessions h)\<rparr>;
              h = fold (\<lambda>s h. closeSub s (offer endedEvent s h)) (srSubscribers (hlRings h ! i)) h
          in updRing i (\<lambda>r. r\<lparr>srSubscribers := []\<rparr>) h)"

definition subscribeOn :: "nat \<Rightarrow> HealthStore \<Rightarrow> (nat \<times> nat) \<times> HealthStore" where
  "subscribeOn i h =
     (let s = length (hlSubs h);
          h = h\<lparr>hlSubs := hlSubs h @ [\<lparr>suCh = [], suClosed = False, suDropped = 0\<rparr>]\<rparr>
      in ((i, s), updRing i (\<lambda>r. r\<lparr>srSubscribers := srSubscribers r @ [s]\<rparr>) h))"

definition subscribeSession :: "int \<Rightarrow> SessionKey \<Rightarrow> HealthStore \<Rightarrow> (nat \<times> nat) \<times> HealthStore" where
  "subscribeSession now key h = (case getOrCreateSession now key h of (i, h) \<Rightarrow> subscribeOn i h)"

text \<open>\<open>Subscription.Close\<close>: the closure holds the session and the subscriber.\<close>

definition closeSubscription :: "nat \<times> nat \<Rightarrow> HealthStore \<Rightarrow> HealthStore" where
  "closeSubscription c h =
     (let (i, s) = c;
          still = s \<in> set (srSubscribers (hlRings h ! i));
          h = updRing i (\<lambda>r. r\<lparr>srSubscribers := remove1 s (srSubscribers r)\<rparr>) h
      in if still then closeSub s h else h)"

definition notifyDisconnectedSession :: "SessionKey \<Rightarrow> string \<Rightarrow> HealthStore \<Rightarrow> HealthStore" where
  "notifyDisconnectedSession key by h =
     (case map_of (hlSessions h) key of None \<Rightarrow> h
      | Some i \<Rightarrow> broadcastLocked (disconnectEvent by) (srSubscribers (hlRings h ! i)) h)"

section \<open>Between pods\<close>

definition wireKindSample :: nat where "wireKindSample = 0"
definition wireKindDisconnect :: nat where "wireKindDisconnect = 1"
definition wireKindEvict :: nat where "wireKindEvict = 2"

text \<open>On the wire a time is in whole milliseconds.\<close>

definition overWire :: "Sample \<Rightarrow> Sample" where
  "overWire s = s\<lparr>smTS := (smTS s div 1000000) * 1000000\<rparr>"

text \<open>\<open>str\<close> and \<open>parse\<close> are \<open>uuid.String\<close> and \<open>uuid.Parse\<close>.\<close>

definition envelopeForKey :: "(uuid \<Rightarrow> string) \<Rightarrow> SessionKey \<Rightarrow> healthEnvelope" where
  "envelopeForKey str key =
     (let e = \<lparr>hePodID = [], heKind = 0, heCallID = 0, heConfID = [], heFrom = [], hePeer = [], heEndedBy = [], heSample = None\<rparr>
      in if IsConf key then e\<lparr>heConfID := str (skConfID key)\<rparr> else e\<lparr>heCallID := skCallID key\<rparr>)"

definition sessionKeyFromEnvelope :: "(string \<Rightarrow> uuid option) \<Rightarrow> healthEnvelope \<Rightarrow> SessionKey option" where
  "sessionKeyFromEnvelope parse e =
     (if heCallID e \<noteq> 0 then Some (callSession (heCallID e))
      else if heConfID e \<noteq> [] then map_option confSession (parse (heConfID e))
      else None)"

definition SetRedis :: "bool \<Rightarrow> string \<Rightarrow> HealthStore \<Rightarrow> HealthStore" where
  "SetRedis client pod h = h\<lparr>hlClient := client, hlPodID := pod\<rparr>"

definition publishEnv :: "healthEnvelope \<Rightarrow> HealthStore \<Rightarrow> HealthStore" where
  "publishEnv e h = (if hlClient h then h\<lparr>hlPub := hlPub h @ [e\<lparr>hePodID := hlPodID h\<rparr>]\<rparr> else h)"

definition publishSample ::
  "(uuid \<Rightarrow> string) \<Rightarrow> SessionKey \<Rightarrow> string \<Rightarrow> string \<Rightarrow> Sample \<Rightarrow> HealthStore \<Rightarrow> HealthStore" where
  "publishSample str key from peer s h =
     publishEnv ((envelopeForKey str key)\<lparr>heKind := wireKindSample, heFrom := from, hePeer := peer, heSample := Some (overWire s)\<rparr>) h"

definition publishLifecycle :: "(uuid \<Rightarrow> string) \<Rightarrow> nat \<Rightarrow> SessionKey \<Rightarrow> string \<Rightarrow> HealthStore \<Rightarrow> HealthStore" where
  "publishLifecycle str kind key by h = publishEnv ((envelopeForKey str key)\<lparr>heKind := kind, heEndedBy := by\<rparr>) h"

definition applyRemote :: "(string \<Rightarrow> uuid option) \<Rightarrow> int \<Rightarrow> healthEnvelope \<Rightarrow> HealthStore \<Rightarrow> HealthStore" where
  "applyRemote parse now e h =
     (case sessionKeyFromEnvelope parse e of None \<Rightarrow> h
      | Some key \<Rightarrow>
          if heKind e = wireKindSample then
            (case heSample e of None \<Rightarrow> h | Some s \<Rightarrow> recordSession now key (heFrom e) (hePeer e) s True h)
          else if heKind e = wireKindDisconnect then notifyDisconnectedSession key (heEndedBy e) h
          else if heKind e = wireKindEvict then evictSession key h
          else h)"

text \<open>One message of \<open>RunRedis\<close>; \<^const>\<open>None\<close> does not parse.\<close>

definition redisMessage :: "(string \<Rightarrow> uuid option) \<Rightarrow> int \<Rightarrow> healthEnvelope option \<Rightarrow> HealthStore \<Rightarrow> HealthStore" where
  "redisMessage parse now e h =
     (case e of None \<Rightarrow> h | Some e \<Rightarrow> if hePodID e = hlPodID h then h else applyRemote parse now e h)"

section \<open>The public operations\<close>

definition DisableFlush :: "HealthStore \<Rightarrow> HealthStore" where
  "DisableFlush h = h\<lparr>hlFlushDisabled := True\<rparr>"

definition Init :: "int \<Rightarrow> int \<Rightarrow> HealthStore \<Rightarrow> HealthStore" where
  "Init now cid h = snd (getOrCreateSession now (callSession cid) h)"

definition InitConference :: "int \<Rightarrow> uuid \<Rightarrow> HealthStore \<Rightarrow> HealthStore" where
  "InitConference now conf h = snd (getOrCreateSession now (confSession conf) h)"

definition Record :: "(uuid \<Rightarrow> string) \<Rightarrow> int \<Rightarrow> int \<Rightarrow> string \<Rightarrow> Sample \<Rightarrow> HealthStore \<Rightarrow> HealthStore" where
  "Record str now cid endpoint s h =
     publishSample str (callSession cid) endpoint [] s (recordSession now (callSession cid) endpoint [] s False h)"

definition RecordEdge :: "(uuid \<Rightarrow> string) \<Rightarrow> int \<Rightarrow> uuid \<Rightarrow> string \<Rightarrow> string \<Rightarrow> Sample \<Rightarrow> HealthStore \<Rightarrow> HealthStore" where
  "RecordEdge str now conf from peer s h =
     publishSample str (confSession conf) from peer s (recordSession now (confSession conf) from peer s False h)"

definition Window :: "int \<Rightarrow> string \<Rightarrow> HealthStore \<Rightarrow> Sample list" where
  "Window cid endpoint = windowSession (callSession cid) endpoint []"

definition WindowEdge :: "uuid \<Rightarrow> string \<Rightarrow> string \<Rightarrow> HealthStore \<Rightarrow> Sample list" where
  "WindowEdge conf from peer = windowSession (confSession conf) from peer"

definition Evict :: "(uuid \<Rightarrow> string) \<Rightarrow> int \<Rightarrow> HealthStore \<Rightarrow> HealthStore" where
  "Evict str cid h = evictSession (callSession cid) (publishLifecycle str wireKindEvict (callSession cid) [] h)"

definition EvictConference :: "(uuid \<Rightarrow> string) \<Rightarrow> uuid \<Rightarrow> HealthStore \<Rightarrow> HealthStore" where
  "EvictConference str conf h = evictSession (confSession conf) (publishLifecycle str wireKindEvict (confSession conf) [] h)"

definition Subscribe :: "int \<Rightarrow> int \<Rightarrow> HealthStore \<Rightarrow> (nat \<times> nat) \<times> HealthStore" where
  "Subscribe now cid = subscribeSession now (callSession cid)"

definition SubscribeConference :: "int \<Rightarrow> uuid \<Rightarrow> HealthStore \<Rightarrow> (nat \<times> nat) \<times> HealthStore" where
  "SubscribeConference now conf = subscribeSession now (confSession conf)"

definition NotifyDisconnected :: "(uuid \<Rightarrow> string) \<Rightarrow> int \<Rightarrow> string \<Rightarrow> HealthStore \<Rightarrow> HealthStore" where
  "NotifyDisconnected str cid by h =
     notifyDisconnectedSession (callSession cid) by (publishLifecycle str wireKindDisconnect (callSession cid) by h)"

definition NotifyDisconnectedConference :: "(uuid \<Rightarrow> string) \<Rightarrow> uuid \<Rightarrow> string \<Rightarrow> HealthStore \<Rightarrow> HealthStore" where
  "NotifyDisconnectedConference str conf by h =
     notifyDisconnectedSession (confSession conf) by (publishLifecycle str wireKindDisconnect (confSession conf) by h)"

section \<open>The database\<close>

text \<open>Whether two rows collide in one of the partial unique indices.\<close>

definition sameRow :: "linkRow \<Rightarrow> linkRow \<Rightarrow> bool" where
  "sameRow a b \<longleftrightarrow> lhEndpoint a = lhEndpoint b \<and> smTS (lhSample a) = smTS (lhSample b)
     \<and> (lhCallID a \<noteq> None \<and> lhCallID a = lhCallID b
        \<or> lhConfID a \<noteq> None \<and> lhConfID a = lhConfID b \<and> lhPeer a \<noteq> None \<and> lhPeer a = lhPeer b)"

text \<open>A row names exactly one session; the answer says whether the statement was fine.\<close>

definition writeSample :: "bool \<Rightarrow> SessionKey \<Rightarrow> endpointKey \<Rightarrow> Sample \<Rightarrow> HealthStore \<Rightarrow> bool \<times> HealthStore" where
  "writeSample ok key e s h =
     (if IsConf key \<and> ekPeer e = [] then (False, h)
      else
        let row = \<lparr>lhCallID = (if IsConf key \<or> skCallID key = 0 then None else Some (skCallID key)),
                   lhConfID = (if IsConf key then Some (skConfID key) else None),
                   lhEndpoint = ekFrom e, lhPeer = (if IsConf key then Some (ekPeer e) else None), lhSample = s\<rparr>
        in if \<not> ok \<or> (lhCallID row = None \<and> lhConfID row = None) then (False, h)
           else (True, if list_ex (sameRow row) (hlRows h) then h else h\<lparr>hlRows := hlRows h @ [row]\<rparr>))"

fun writeAll :: "(nat \<Rightarrow> bool) \<Rightarrow> nat \<Rightarrow> SessionKey \<Rightarrow> (endpointKey \<times> Sample) list \<Rightarrow> HealthStore \<Rightarrow> bool \<times> HealthStore" where
  "writeAll f n key [] h = (True, h)"
| "writeAll f n key ((e, s) # todo) h =
     (case writeSample (f n) key e s h of
        (False, h) \<Rightarrow> (False, h)
      | (True, h) \<Rightarrow> writeAll f (Suc n) key todo h)"

definition unflushed :: "sessionRings \<Rightarrow> (endpointKey \<times> Sample) list" where
  "unflushed r = concat (map (\<lambda>(e, q). case ringLatest q of
      None \<Rightarrow> [] | Some s \<Rightarrow> if rgLastFlushed q < smTS s then [(e, s)] else []) (srByEndpoint r))"

definition advance :: "(endpointKey \<times> Sample) list \<Rightarrow> sessionRings \<Rightarrow> sessionRings" where
  "advance todo r = r\<lparr>srByEndpoint := map (\<lambda>(e, q).
      (e, case map_of todo e of None \<Rightarrow> q | Some s \<Rightarrow> q\<lparr>rgLastFlushed := smTS s\<rparr>)) (srByEndpoint r)\<rparr>"

definition flushSession :: "(nat \<Rightarrow> bool) \<Rightarrow> SessionKey \<Rightarrow> nat \<Rightarrow> HealthStore \<Rightarrow> bool \<times> HealthStore" where
  "flushSession f key i h =
     (let todo = unflushed (hlRings h ! i) in
      if todo = [] then (True, h)
      else case writeAll f 0 key todo h of
          (False, h) \<Rightarrow> (False, h)
        | (True, h) \<Rightarrow> (True, updRing i (advance todo) h))"

definition sessionKeys :: "HealthStore \<Rightarrow> SessionKey list" where
  "sessionKeys h = mkeys (hlSessions h)"

definition FlushOnce :: "(SessionKey \<Rightarrow> nat \<Rightarrow> bool) \<Rightarrow> HealthStore \<Rightarrow> HealthStore" where
  "FlushOnce f h =
     (if \<not> hlDB h then h
      else fold (\<lambda>k h. case map_of (hlSessions h) k of None \<Rightarrow> h | Some i \<Rightarrow> snd (flushSession (f k) k i h))
             (sessionKeys h) h)"

definition idleSessionTTL :: int where "idleSessionTTL = 900 * 1000000000"
definition subscribedSessionTTL :: int where "subscribedSessionTTL = 4 * idleSessionTTL"

definition sweepable :: "int \<Rightarrow> sessionRings \<Rightarrow> bool" where
  "sweepable now r \<longleftrightarrow> srLastActivity r < now - idleSessionTTL \<and> srSubscribers r = []
     \<or> srLastActivity r < now - subscribedSessionTTL"

definition sweepIdleSessions :: "int \<Rightarrow> HealthStore \<Rightarrow> HealthStore" where
  "sweepIdleSessions now h =
     fold (\<lambda>k h. case map_of (hlSessions h) k of None \<Rightarrow> h
             | Some i \<Rightarrow> if sweepable now (hlRings h ! i) then evictSession k h else h) (sessionKeys h) h"

text \<open>One tick of \<open>Run\<close>, and its end.\<close>

definition healthTick :: "(SessionKey \<Rightarrow> nat \<Rightarrow> bool) \<Rightarrow> int \<Rightarrow> HealthStore \<Rightarrow> HealthStore" where
  "healthTick f now h = sweepIdleSessions now (if \<not> hlFlushDisabled h then FlushOnce f h else h)"

definition healthStops :: "(SessionKey \<Rightarrow> nat \<Rightarrow> bool) \<Rightarrow> HealthStore \<Rightarrow> HealthStore" where
  "healthStops f h = (if hlDB h \<and> \<not> hlFlushDisabled h then FlushOnce f h else h)"

definition readbackSession :: "bool \<Rightarrow> (linkRow \<Rightarrow> bool) \<Rightarrow> HealthStore \<Rightarrow> Sample list option" where
  "readbackSession ok p h =
     (if \<not> ok then None
      else Some (rev (take RingCapacity (rev (sort_key smTS (map lhSample (filter p (hlRows h))))))))"

definition Readback :: "bool \<Rightarrow> int \<Rightarrow> string \<Rightarrow> HealthStore \<Rightarrow> Sample list option" where
  "Readback ok cid endpoint h =
     (if \<not> hlDB h then Some []
      else readbackSession ok (\<lambda>r. lhCallID r = Some cid \<and> lhEndpoint r = endpoint) h)"

definition ReadbackEdge :: "bool \<Rightarrow> uuid \<Rightarrow> string \<Rightarrow> string \<Rightarrow> HealthStore \<Rightarrow> Sample list option" where
  "ReadbackEdge ok conf from peer h =
     (if \<not> hlDB h then Some []
      else readbackSession ok (\<lambda>r. lhConfID r = Some conf \<and> lhEndpoint r = from \<and> lhPeer r = Some peer) h)"

end
