(* ===== verification/LinkHealth_Props.thy ===== *)
theory LinkHealth_Props
  imports LinkHealth
begin

text \<open>Link health: channels are used as they may be, who writes, and what the pods show.\<close>

section \<open>Moves\<close>

text \<open>
  What goroutines do between the points at which they take a lock.  \<open>HmRecordOn\<close> and
  \<open>HmSubscribeOn\<close> are the second halves of recording and subscribing, on a session that may have
  been evicted in between.
\<close>

datatype healthMove =
    HmSession int SessionKey
  | HmRecord int SessionKey string string Sample bool
  | HmRecordOn nat string string Sample bool
  | HmSubscribeOn nat
  | HmEvict SessionKey
  | HmNotify SessionKey string
  | HmClose nat nat
  | HmReceive nat
  | HmTick "SessionKey \<Rightarrow> nat \<Rightarrow> bool" int
  | HmStops "SessionKey \<Rightarrow> nat \<Rightarrow> bool"
  | HmPublish healthEnvelope
  | HmDisableFlush

text \<open>A consumer takes what is first in its channel.\<close>

definition receive :: "nat \<Rightarrow> HealthStore \<Rightarrow> HealthStore" where
  "receive s h = h\<lparr>hlSubs := (hlSubs h)[s := (hlSubs h ! s)\<lparr>suCh := tl (suCh (hlSubs h ! s))\<rparr>]\<rparr>"

fun health_step :: "healthMove \<Rightarrow> HealthStore \<Rightarrow> HealthStore" where
  "health_step (HmSession now k) h = snd (getOrCreateSession now k h)"
| "health_step (HmRecord now k from peer s remote) h = recordSession now k from peer s remote h"
| "health_step (HmRecordOn i from peer s remote) h = recordOn i from peer s remote h"
| "health_step (HmSubscribeOn i) h = snd (subscribeOn i h)"
| "health_step (HmEvict k) h = evictSession k h"
| "health_step (HmNotify k by) h = notifyDisconnectedSession k by h"
| "health_step (HmClose i s) h = closeSubscription (i, s) h"
| "health_step (HmReceive s) h = receive s h"
| "health_step (HmTick f now) h = healthTick f now h"
| "health_step (HmStops f) h = healthStops f h"
| "health_step (HmPublish e) h = publishEnv e h"
| "health_step HmDisableFlush h = DisableFlush h"

text \<open>Only sessions that were made, and channels that were opened, are held by anybody.\<close>

fun health_move_ok :: "healthMove \<Rightarrow> HealthStore \<Rightarrow> bool" where
  "health_move_ok (HmRecordOn i from peer s remote) h \<longleftrightarrow> i < length (hlRings h)"
| "health_move_ok (HmSubscribeOn i) h \<longleftrightarrow> i < length (hlRings h)"
| "health_move_ok (HmClose i s) h \<longleftrightarrow> i < length (hlRings h)"
| "health_move_ok (HmReceive s) h \<longleftrightarrow> s < length (hlSubs h)"
| "health_move_ok _ h \<longleftrightarrow> True"

section \<open>Channels\<close>

definition registered :: "HealthStore \<Rightarrow> nat list" where
  "registered h = concat (map srSubscribers (hlRings h))"

text \<open>What the invariant is about.\<close>

definition chans :: "HealthStore \<Rightarrow> (SessionKey \<times> nat) list \<times> nat list list \<times> bool list \<times> bool" where
  "chans h = (hlSessions h, map srSubscribers (hlRings h), map suClosed (hlSubs h), hlPanic h)"

definition chans_ok :: "(SessionKey \<times> nat) list \<times> nat list list \<times> bool list \<times> bool \<Rightarrow> bool" where
  "chans_ok c \<longleftrightarrow> (case c of (ses, regs, closed, panic) \<Rightarrow>
     \<not> panic \<and> mwf ses \<and> (\<forall>k i. map_of ses k = Some i \<longrightarrow> i < length regs)
     \<and> distinct (concat regs) \<and> set (concat regs) \<subseteq> {..<length closed}
     \<and> (\<forall>s < length closed. closed ! s \<longleftrightarrow> s \<notin> set (concat regs)))"

definition small_buffers :: "HealthStore \<Rightarrow> bool" where
  "small_buffers h \<longleftrightarrow> (\<forall>u \<in> set (hlSubs h). length (suCh u) \<le> subscriberBufferSize)"

definition health_ok :: "HealthStore \<Rightarrow> bool" where
  "health_ok h \<longleftrightarrow> chans_ok (chans h) \<and> small_buffers h"

lemma health_okD:
  assumes "health_ok h"
  shows "\<not> hlPanic h" "mwf (hlSessions h)" "map_of (hlSessions h) k = Some i \<Longrightarrow> i < length (hlRings h)"
    "distinct (registered h)" "set (registered h) \<subseteq> {..<length (hlSubs h)}"
    "s < length (hlSubs h) \<Longrightarrow> suClosed (hlSubs h ! s) \<longleftrightarrow> s \<notin> set (registered h)" "small_buffers h"
  using assms by (auto simp: health_ok_def chans_ok_def chans_def registered_def)

text \<open>Moves that leave channels and registrations alone.\<close>

lemma health_ok_same: "chans h' = chans h \<Longrightarrow> small_buffers h' \<Longrightarrow> health_ok h \<Longrightarrow> health_ok h'"
  by (simp add: health_ok_def)

lemma chans_updRing:
  "i < length (hlRings h) \<Longrightarrow> srSubscribers (g (hlRings h ! i)) = srSubscribers (hlRings h ! i) \<Longrightarrow> chans (updRing i g h) = chans h"
  by (simp add: chans_def updRing_def map_update list_update_same_conv)

lemma updRing_sel [simp]:
  "hlSubs (updRing i g h) = hlSubs h" "hlSessions (updRing i g h) = hlSessions h" "hlPanic (updRing i g h) = hlPanic h"
  "hlRows (updRing i g h) = hlRows h" "hlPub (updRing i g h) = hlPub h" "hlDB (updRing i g h) = hlDB h"
  "hlClient (updRing i g h) = hlClient h" "hlPodID (updRing i g h) = hlPodID h" "hlFlushDisabled (updRing i g h) = hlFlushDisabled h"
  "length (hlRings (updRing i g h)) = length (hlRings h)"
  by (simp_all add: updRing_def)

lemma small_updRing [simp]: "small_buffers (updRing i g h) = small_buffers h"
  by (simp add: small_buffers_def)

text \<open>Offering to an open channel.\<close>

definition offered :: "Event \<Rightarrow> subscriber \<Rightarrow> subscriber" where
  "offered ev u = (if length (suCh u) < subscriberBufferSize then u\<lparr>suCh := suCh u @ [ev]\<rparr> else u\<lparr>suDropped := suDropped u + 1\<rparr>)"

lemma offered_sel [simp]: "suClosed (offered ev u) = suClosed u"
  by (simp add: offered_def)

lemma offer_open: "\<not> suClosed (hlSubs h ! s) \<Longrightarrow> offer ev s h = h\<lparr>hlSubs := (hlSubs h)[s := offered ev (hlSubs h ! s)]\<rparr>"
  by (simp add: offer_def offered_def Let_def)

lemma fold_open:
  assumes "\<And>s h. \<not> suClosed (hlSubs h ! s) \<Longrightarrow> f s h = h\<lparr>hlSubs := (hlSubs h)[s := g (hlSubs h ! s)]\<rparr>"
    and "distinct ss" "\<And>s. s \<in> set ss \<Longrightarrow> s < length (hlSubs h) \<and> \<not> suClosed (hlSubs h ! s)"
  shows "fold f ss h = h\<lparr>hlSubs := map (\<lambda>s. if s \<in> set ss then g (hlSubs h ! s) else hlSubs h ! s) [0..<length (hlSubs h)]\<rparr>"
  using assms(2,3)
proof (induction ss arbitrary: h)
  case Nil
  then show ?case by (simp add: map_nth)
next
  case (Cons s ss)
  let ?h = "h\<lparr>hlSubs := (hlSubs h)[s := g (hlSubs h ! s)]\<rparr>"
  have s: "s < length (hlSubs h)" "\<not> suClosed (hlSubs h ! s)" "s \<notin> set ss" using Cons.prems by auto
  have "fold f (s # ss) h = fold f ss ?h" using assms(1) [OF s(2)] by simp
  also have "\<dots> = ?h\<lparr>hlSubs := map (\<lambda>t. if t \<in> set ss then g (hlSubs ?h ! t) else hlSubs ?h ! t) [0..<length (hlSubs ?h)]\<rparr>"
    by (rule Cons.IH) (use Cons.prems s in \<open>auto simp: nth_list_update\<close>)
  also have "\<dots> = h\<lparr>hlSubs := map (\<lambda>t. if t \<in> set (s # ss) then g (hlSubs h ! t) else hlSubs h ! t) [0..<length (hlSubs h)]\<rparr>"
    using s by (auto simp: nth_list_update)
  finally show ?case .
qed

text \<open>The last event of a channel.\<close>

definition farewell :: "subscriber \<Rightarrow> subscriber" where
  "farewell u = (offered endedEvent u)\<lparr>suClosed := True\<rparr>"

definition onSubs :: "(subscriber \<Rightarrow> subscriber) \<Rightarrow> nat list \<Rightarrow> HealthStore \<Rightarrow> HealthStore" where
  "onSubs g ss h = h\<lparr>hlSubs := map (\<lambda>s. if s \<in> set ss then g (hlSubs h ! s) else hlSubs h ! s) [0..<length (hlSubs h)]\<rparr>"

lemma onSubs_sel [simp]:
  "hlSessions (onSubs g ss h) = hlSessions h" "hlRings (onSubs g ss h) = hlRings h" "hlPanic (onSubs g ss h) = hlPanic h"
  "hlRows (onSubs g ss h) = hlRows h" "hlPub (onSubs g ss h) = hlPub h" "hlDB (onSubs g ss h) = hlDB h"
  "hlClient (onSubs g ss h) = hlClient h" "hlPodID (onSubs g ss h) = hlPodID h"
  "length (hlSubs (onSubs g ss h)) = length (hlSubs h)"
  "s < length (hlSubs h) \<Longrightarrow> hlSubs (onSubs g ss h) ! s = (if s \<in> set ss then g (hlSubs h ! s) else hlSubs h ! s)"
  by (simp_all add: onSubs_def)

lemma broadcast_open:
  assumes "distinct ss" "\<And>s. s \<in> set ss \<Longrightarrow> s < length (hlSubs h) \<and> \<not> suClosed (hlSubs h ! s)"
  shows "broadcastLocked ev ss h = onSubs (offered ev) ss h"
  unfolding broadcastLocked_def onSubs_def by (rule fold_open [OF offer_open assms])

lemma farewell_open:
  assumes "distinct ss" "\<And>s. s \<in> set ss \<Longrightarrow> s < length (hlSubs h) \<and> \<not> suClosed (hlSubs h ! s)"
  shows "fold (\<lambda>s h. closeSub s (offer endedEvent s h)) ss h = onSubs farewell ss h"
  unfolding onSubs_def
proof (rule fold_open [OF _ assms])
  fix s and h :: HealthStore
  assume o: "\<not> suClosed (hlSubs h ! s)"
  show "closeSub s (offer endedEvent s h) = h\<lparr>hlSubs := (hlSubs h)[s := farewell (hlSubs h ! s)]\<rparr>"
    by (cases "s < length (hlSubs h)") (use o in \<open>simp_all add: offer_open closeSub_def Let_def farewell_def list_update_beyond\<close>)
qed

lemma onSubs_small:
  assumes "small_buffers h" "\<And>u. length (suCh u) \<le> subscriberBufferSize \<Longrightarrow> length (suCh (g u)) \<le> subscriberBufferSize"
  shows "small_buffers (onSubs g ss h)"
  using assms by (auto simp: small_buffers_def onSubs_def)

lemma offered_small: "length (suCh u) \<le> subscriberBufferSize \<Longrightarrow> length (suCh (offered ev u)) \<le> subscriberBufferSize"
  by (simp add: offered_def)

lemma chans_onSubs:
  assumes "\<And>u. suClosed (g u) = suClosed u"
  shows "chans (onSubs g ss h) = chans h"
proof -
  have "map suClosed (hlSubs (onSubs g ss h)) = map suClosed (hlSubs h)"
    by (rule nth_equalityI) (simp_all add: assms)
  then show ?thesis by (simp add: chans_def)
qed

text \<open>One registration list among all.\<close>

lemma concat_at:
  assumes "i < length xs"
  obtains A B where "concat xs = A @ xs ! i @ B" "\<And>y. concat (xs[i := y]) = A @ y @ B"
proof (rule that [of "concat (take i xs)" "concat (drop (Suc i) xs)"])
  show "concat xs = concat (take i xs) @ xs ! i @ concat (drop (Suc i) xs)"
    using id_take_nth_drop [OF assms] by (metis concat.simps(2) concat_append)
  show "concat (xs[i := y]) = concat (take i xs) @ y @ concat (drop (Suc i) xs)" for y
    using assms by (simp add: upd_conv_take_nth_drop)
qed

lemma subs_open:
  assumes "health_ok h" "i < length (hlRings h)"
  shows "distinct (srSubscribers (hlRings h ! i))"
    "s \<in> set (srSubscribers (hlRings h ! i)) \<Longrightarrow> s < length (hlSubs h) \<and> \<not> suClosed (hlSubs h ! s)"
proof -
  have l: "i < length (map srSubscribers (hlRings h))" using assms(2) by simp
  obtain A B where "concat (map srSubscribers (hlRings h)) = A @ map srSubscribers (hlRings h) ! i @ B"
    using concat_at [OF l] by metis
  then have r: "registered h = A @ srSubscribers (hlRings h ! i) @ B" using assms(2) by (simp add: registered_def)
  show "distinct (srSubscribers (hlRings h ! i))" using health_okD(4) [OF assms(1)] by (simp add: r)
  show "s \<in> set (srSubscribers (hlRings h ! i)) \<Longrightarrow> s < length (hlSubs h) \<and> \<not> suClosed (hlSubs h ! s)"
    using health_okD(5) [OF assms(1)] health_okD(6) [OF assms(1), of s] by (auto simp: r)
qed

section \<open>Every move\<close>

lemma getOrCreate_ok:
  assumes "health_ok h" "getOrCreateSession now k h = (i, h')"
  shows "health_ok h'" "i < length (hlRings h')"
proof -
  have "health_ok h' \<and> i < length (hlRings h')"
  proof (cases "map_of (hlSessions h) k")
    case (Some j)
    then have "i = j" "h' = updRing j (\<lambda>r. r\<lparr>srLastActivity := now\<rparr>) h" "j < length (hlRings h)"
      using assms health_okD(3) [OF assms(1)] by (auto simp: getOrCreateSession_def)
    then show ?thesis using assms(1) chans_updRing [of j h "\<lambda>r. r\<lparr>srLastActivity := now\<rparr>"]
      by (auto simp: health_ok_def)
  next
    case None
    then show ?thesis using assms
      by (force simp: getOrCreateSession_def health_ok_def chans_ok_def chans_def small_buffers_def less_Suc_eq split: if_splits)
  qed
  then show "health_ok h'" "i < length (hlRings h')" by simp_all
qed

lemma recordOn_ok:
  assumes "health_ok h" "i < length (hlRings h)"
  shows "health_ok (recordOn i from peer s remote h)"
proof -
  obtain q where q: "recordOn i from peer s remote h = broadcastLocked (sampleEvent from peer s)
      (srSubscribers (hlRings (updRing i (\<lambda>r. r\<lparr>srByEndpoint := q r\<rparr>) h) ! i)) (updRing i (\<lambda>r. r\<lparr>srByEndpoint := q r\<rparr>) h)"
    by (simp add: recordOn_def Let_def)
  let ?h = "updRing i (\<lambda>r. r\<lparr>srByEndpoint := q r\<rparr>) h"
  have c: "chans ?h = chans h" by (rule chans_updRing [OF assms(2)]) simp
  have ok: "health_ok ?h" using assms(1) c by (simp add: health_ok_def)
  have "broadcastLocked (sampleEvent from peer s) (srSubscribers (hlRings ?h ! i)) ?h
      = onSubs (offered (sampleEvent from peer s)) (srSubscribers (hlRings ?h ! i)) ?h"
    by (rule broadcast_open) (use subs_open [OF ok, of i] assms(2) in auto)
  then show ?thesis unfolding q using ok
    by (simp add: health_ok_def chans_onSubs onSubs_small offered_small)
qed

lemma notify_ok: "health_ok h \<Longrightarrow> health_ok (notifyDisconnectedSession k by h)"
proof (cases "map_of (hlSessions h) k")
  case (Some i)
  assume ok: "health_ok h"
  have i: "i < length (hlRings h)" using health_okD(3) [OF ok Some] .
  have "broadcastLocked ev (srSubscribers (hlRings h ! i)) h = onSubs (offered ev) (srSubscribers (hlRings h ! i)) h" for ev
    by (rule broadcast_open) (use subs_open [OF ok i] in auto)
  then show ?thesis using Some ok
    by (simp add: notifyDisconnectedSession_def health_ok_def chans_onSubs onSubs_small offered_small)
qed (simp add: notifyDisconnectedSession_def)

lemma chans_okI:
  assumes "\<not> panic" "mwf ses" "\<And>k i. map_of ses k = Some i \<Longrightarrow> i < length regs" "distinct (concat regs)"
    "\<And>s. s \<in> set (concat regs) \<Longrightarrow> s < length closed" "\<And>s. s < length closed \<Longrightarrow> closed ! s \<longleftrightarrow> s \<notin> set (concat regs)"
  shows "chans_ok (ses, regs, closed, panic)"
  using assms by (auto simp: chans_ok_def)

text \<open>Taking registrations off one session and closing their channels.\<close>

lemma unregister_ok:
  assumes ok: "health_ok h" and i: "i < length (hlRings h)"
    and ses: "mwf ses" "map_of ses \<subseteq>\<^sub>m map_of (hlSessions h)"
    and keep: "set keep \<subseteq> set (srSubscribers (hlRings h ! i))" "distinct keep"
    and closed: "closed = map (\<lambda>s. suClosed (hlSubs h ! s) \<or> s \<in> set (srSubscribers (hlRings h ! i)) \<and> s \<notin> set keep) [0..<length (hlSubs h)]"
  shows "chans_ok (ses, (map srSubscribers (hlRings h))[i := keep], closed, False)"
proof -
  have l: "i < length (map srSubscribers (hlRings h))" using i by simp
  obtain A B where AB: "concat (map srSubscribers (hlRings h)) = A @ map srSubscribers (hlRings h) ! i @ B"
    "\<And>y. concat ((map srSubscribers (hlRings h))[i := y]) = A @ y @ B"
    using concat_at [OF l] by metis
  have r: "registered h = A @ srSubscribers (hlRings h ! i) @ B" using AB(1) i by (simp add: registered_def)
  have dom: "j < length (hlRings h)" if "map_of ses k = Some j" for k j
    using health_okD(3) [OF ok, of k j] ses(2) that by (auto simp: map_le_def dom_def)
  show ?thesis
  proof (rule chans_okI)
    show "distinct (concat ((map srSubscribers (hlRings h))[i := keep]))"
      using health_okD(4) [OF ok] keep unfolding AB(2) r by auto
    show "s < length closed" if "s \<in> set (concat ((map srSubscribers (hlRings h))[i := keep]))" for s
      using health_okD(5) [OF ok] that keep(1) unfolding AB(2) r closed by auto
    show "closed ! s \<longleftrightarrow> s \<notin> set (concat ((map srSubscribers (hlRings h))[i := keep]))" if "s < length closed" for s
      using health_okD(4) [OF ok] health_okD(6) [OF ok, of s] that keep(1) unfolding AB(2) r closed by auto
  qed (use ses dom in auto)
qed

lemma evict_effect:
  assumes ok: "health_ok h" and k: "map_of (hlSessions h) k = Some i"
  shows "evictSession k h = updRing i (\<lambda>r. r\<lparr>srSubscribers := []\<rparr>)
      (onSubs farewell (srSubscribers (hlRings h ! i)) (h\<lparr>hlSessions := mdel k (hlSessions h)\<rparr>))"
proof -
  have i: "i < length (hlRings h)" using health_okD(3) [OF ok k] .
  have "fold (\<lambda>s h. closeSub s (offer endedEvent s h)) (srSubscribers (hlRings h ! i)) (h\<lparr>hlSessions := mdel k (hlSessions h)\<rparr>)
      = onSubs farewell (srSubscribers (hlRings h ! i)) (h\<lparr>hlSessions := mdel k (hlSessions h)\<rparr>)"
    by (rule farewell_open) (use subs_open [OF ok i] in auto)
  then show ?thesis using k by (simp add: evictSession_def Let_def)
qed

lemma health_evict_ok:
  assumes ok: "health_ok h"
  shows "health_ok (evictSession k h)"
proof (cases "map_of (hlSessions h) k")
  case (Some i)
  have i: "i < length (hlRings h)" using health_okD(3) [OF ok Some] .
  let ?h = "evictSession k h"
  have c: "chans ?h = (mdel k (hlSessions h), (map srSubscribers (hlRings h))[i := []],
      map (\<lambda>s. suClosed (hlSubs h ! s) \<or> s \<in> set (srSubscribers (hlRings h ! i)) \<and> s \<notin> set []) [0..<length (hlSubs h)], False)"
    unfolding evict_effect [OF ok Some] using health_okD(1) [OF ok]
    by (auto simp: chans_def updRing_def map_update onSubs_def farewell_def)
  have "chans_ok (chans ?h)" unfolding c
    by (rule unregister_ok [OF ok i _ _ _ _ refl]) (use health_okD(2) [OF ok] in \<open>auto simp: map_le_def\<close>)
  moreover have "small_buffers ?h" unfolding evict_effect [OF ok Some]
    using health_okD(7) [OF ok] by (simp add: onSubs_small small_buffers_def [of "h\<lparr>hlSessions := _\<rparr>"] farewell_def offered_small
        flip: small_buffers_def)
  ultimately show ?thesis by (simp add: health_ok_def)
qed (use ok in \<open>simp add: evictSession_def\<close>)

lemma subscribeOn_ok:
  assumes ok: "health_ok h" and i: "i < length (hlRings h)"
  shows "health_ok (snd (subscribeOn i h))"
proof -
  let ?n = "length (hlSubs h)" and ?h = "snd (subscribeOn i h)"
  have l: "i < length (map srSubscribers (hlRings h))" using i by simp
  obtain A B where AB: "concat (map srSubscribers (hlRings h)) = A @ map srSubscribers (hlRings h) ! i @ B"
    "\<And>y. concat ((map srSubscribers (hlRings h))[i := y]) = A @ y @ B"
    using concat_at [OF l] by metis
  have r: "registered h = A @ srSubscribers (hlRings h ! i) @ B" using AB(1) i by (simp add: registered_def)
  have new: "?n \<notin> set (registered h)" using health_okD(5) [OF ok] by auto
  have c: "chans ?h = (hlSessions h, (map srSubscribers (hlRings h))[i := srSubscribers (hlRings h ! i) @ [?n]],
      map suClosed (hlSubs h) @ [False], False)"
    using i health_okD(1) [OF ok] by (simp add: subscribeOn_def Let_def chans_def updRing_def map_update)
  have "chans_ok (chans ?h)" unfolding c
  proof (rule chans_okI)
    show "distinct (concat ((map srSubscribers (hlRings h))[i := srSubscribers (hlRings h ! i) @ [?n]]))"
      using health_okD(4) [OF ok] new unfolding AB(2) r by auto
    show "s < length (map suClosed (hlSubs h) @ [False])"
      if "s \<in> set (concat ((map srSubscribers (hlRings h))[i := srSubscribers (hlRings h ! i) @ [?n]]))" for s
      using health_okD(5) [OF ok] that unfolding AB(2) r by auto
    show "(map suClosed (hlSubs h) @ [False]) ! s \<longleftrightarrow> s \<notin> set (concat ((map srSubscribers (hlRings h))[i := srSubscribers (hlRings h ! i) @ [?n]]))"
      if "s < length (map suClosed (hlSubs h) @ [False])" for s
      using health_okD(6) [OF ok, of s] that unfolding AB(2) r by (auto simp: nth_append less_Suc_eq)
  qed (use health_okD(2,3) [OF ok] in auto)
  moreover have "small_buffers ?h" using health_okD(7) [OF ok]
    by (simp add: subscribeOn_def Let_def small_buffers_def)
  ultimately show ?thesis by (simp add: health_ok_def)
qed

lemma close_ok:
  assumes ok: "health_ok h" and i: "i < length (hlRings h)"
  shows "health_ok (closeSubscription (i, s) h)"
proof (cases "s \<in> set (srSubscribers (hlRings h ! i))")
  case True
  let ?h = "closeSubscription (i, s) h" and ?keep = "remove1 s (srSubscribers (hlRings h ! i))"
  have d: "distinct (srSubscribers (hlRings h ! i))" "s < length (hlSubs h)" "\<not> suClosed (hlSubs h ! s)"
    using subs_open [OF ok i] True by auto
  have "map suClosed ((hlSubs h)[s := (hlSubs h ! s)\<lparr>suClosed := True\<rparr>])
      = map (\<lambda>t. suClosed (hlSubs h ! t) \<or> t \<in> set (srSubscribers (hlRings h ! i)) \<and> t \<notin> set ?keep) [0..<length (hlSubs h)]"
    using d True by (intro nth_equalityI) (auto simp: nth_list_update)
  then have c: "chans ?h = (hlSessions h, (map srSubscribers (hlRings h))[i := ?keep],
      map (\<lambda>t. suClosed (hlSubs h ! t) \<or> t \<in> set (srSubscribers (hlRings h ! i)) \<and> t \<notin> set ?keep) [0..<length (hlSubs h)], False)"
    using True d health_okD(1) [OF ok] by (simp add: closeSubscription_def Let_def closeSub_def chans_def updRing_def map_update)
  have "chans_ok (chans ?h)" unfolding c
    by (rule unregister_ok [OF ok i _ _ _ _ refl]) (use health_okD(2) [OF ok] d(1) in \<open>auto dest: in_set_remove1 [THEN iffD1, rotated]\<close>)
  moreover have "small_buffers ?h" using True d health_okD(7) [OF ok]
    by (auto simp: closeSubscription_def Let_def closeSub_def small_buffers_def dest!: set_update_subset_insert [THEN subsetD])
  ultimately show ?thesis by (simp add: health_ok_def)
next
  case False
  then have "closeSubscription (i, s) h = updRing i (\<lambda>r. r\<lparr>srSubscribers := remove1 s (srSubscribers r)\<rparr>) h"
    by (simp add: closeSubscription_def Let_def)
  then show ?thesis using ok False i
      chans_updRing [of i h "\<lambda>r. r\<lparr>srSubscribers := remove1 s (srSubscribers r)\<rparr>"]
    by (simp add: health_ok_def remove1_idem)
qed

lemma receive_ok: "health_ok h \<Longrightarrow> s < length (hlSubs h) \<Longrightarrow> health_ok (receive s h)"
proof -
  assume ok: "health_ok h" and s: "s < length (hlSubs h)"
  have "chans (receive s h) = chans h" using s by (simp add: chans_def receive_def map_update list_update_same_conv)
  moreover have "length (tl (suCh (hlSubs h ! s))) \<le> subscriberBufferSize"
    using health_okD(7) [OF ok] nth_mem [OF s] by (force simp: small_buffers_def)
  then have "small_buffers (receive s h)" using health_okD(7) [OF ok]
    by (auto simp: receive_def small_buffers_def dest!: set_update_subset_insert [THEN subsetD])
  ultimately show ?thesis using ok by (simp add: health_ok_def)
qed

lemma writeAll_sel [simp]:
  "chans (snd (writeAll f n k todo h)) = chans h" "hlSubs (snd (writeAll f n k todo h)) = hlSubs h"
  "hlRings (snd (writeAll f n k todo h)) = hlRings h" "hlSessions (snd (writeAll f n k todo h)) = hlSessions h"
proof -
  have w: "hlSubs (snd (writeSample ok k e s h)) = hlSubs h" "hlRings (snd (writeSample ok k e s h)) = hlRings h"
    "hlSessions (snd (writeSample ok k e s h)) = hlSessions h" "hlPanic (snd (writeSample ok k e s h)) = hlPanic h" for ok e s h
    by (simp_all add: writeSample_def Let_def)
  have all: "hlSubs (snd (writeAll f n k todo h)) = hlSubs h \<and> hlRings (snd (writeAll f n k todo h)) = hlRings h
    \<and> hlSessions (snd (writeAll f n k todo h)) = hlSessions h \<and> hlPanic (snd (writeAll f n k todo h)) = hlPanic h"
  proof (induction todo arbitrary: n h)
    case (Cons p todo)
    obtain e s where p: "p = (e, s)" by (cases p)
    obtain b h' where b: "writeSample (f n) k e s h = (b, h')" by fastforce
    then show ?case using w [of "f n" e s h] Cons.IH [of "Suc n" h'] by (cases b) (simp_all add: p)
  qed simp
  then show "chans (snd (writeAll f n k todo h)) = chans h" "hlSubs (snd (writeAll f n k todo h)) = hlSubs h"
    "hlRings (snd (writeAll f n k todo h)) = hlRings h" "hlSessions (snd (writeAll f n k todo h)) = hlSessions h"
    by (simp_all add: chans_def)
qed

lemma flushSession_ok: "health_ok h \<Longrightarrow> i < length (hlRings h) \<Longrightarrow> health_ok (snd (flushSession f k i h))"
proof -
  assume ok: "health_ok h" and i: "i < length (hlRings h)"
  obtain b h' where w: "writeAll f 0 k (unflushed (hlRings h ! i)) h = (b, h')" by fastforce
  have h': "chans h' = chans h" "hlSubs h' = hlSubs h" "hlRings h' = hlRings h"
    using writeAll_sel [of f 0 k "unflushed (hlRings h ! i)" h] w by simp_all
  then have ok': "health_ok h'" using ok by (simp add: health_ok_def small_buffers_def)
  have "chans (updRing i (advance t) h') = chans h'" for t
    by (rule chans_updRing) (use i h' in \<open>simp_all add: advance_def\<close>)
  then have "health_ok (updRing i (advance t) h')" for t using ok' by (simp add: health_ok_def)
  then show ?thesis using w ok ok' by (auto simp: flushSession_def Let_def split: bool.split)
qed

lemma FlushOnce_ok: "health_ok h \<Longrightarrow> health_ok (FlushOnce f h)"
proof -
  let ?g = "\<lambda>k h. case map_of (hlSessions h) k of None \<Rightarrow> h | Some i \<Rightarrow> snd (flushSession (f k) k i h)"
  have "health_ok h \<Longrightarrow> health_ok (fold ?g ks h)" for ks
    by (induction ks arbitrary: h) (auto split: option.split intro: flushSession_ok health_okD(3))
  then show "health_ok h \<Longrightarrow> health_ok (FlushOnce f h)" by (simp add: FlushOnce_def)
qed

lemma sweep_ok: "health_ok h \<Longrightarrow> health_ok (sweepIdleSessions now h)"
proof -
  let ?g = "\<lambda>k h. case map_of (hlSessions h) k of None \<Rightarrow> h
    | Some i \<Rightarrow> if sweepable now (hlRings h ! i) then evictSession k h else h"
  have "health_ok h \<Longrightarrow> health_ok (fold ?g ks h)" for ks
    by (induction ks arbitrary: h) (auto split: option.split intro: health_evict_ok)
  then show "health_ok h \<Longrightarrow> health_ok (sweepIdleSessions now h)" by (simp add: sweepIdleSessions_def)
qed

lemma health_ok_more [simp]:
  "health_ok (h\<lparr>hlPub := p\<rparr>) = health_ok h" "health_ok (h\<lparr>hlFlushDisabled := b\<rparr>) = health_ok h"
  by (simp_all add: health_ok_def chans_def small_buffers_def)

lemma getOrCreate_snd: "health_ok h \<Longrightarrow> health_ok (snd (getOrCreateSession now k h))"
  using getOrCreate_ok(1) by (metis prod.collapse)

interpretation health: invariant_machine health_step health_move_ok health_ok
proof
  fix m h
  assume "health_move_ok m h" "health_ok h"
  then show "health_ok (health_step m h)"
    by (cases m) (auto simp: recordSession_def healthTick_def healthStops_def DisableFlush_def publishEnv_def
        intro: recordOn_ok subscribeOn_ok health_evict_ok notify_ok close_ok receive_ok FlushOnce_ok sweep_ok getOrCreate_ok
        getOrCreate_snd split: prod.split)
qed

lemma health_ok_New [simp]: "health_ok (NewHealthStore db)"
  by (simp add: health_ok_def chans_ok_def chans_def NewHealthStore_def small_buffers_def)

text \<open>
  C33: the channels of observers are used as Go allows and the end reaches them.  In every run, also one in
  which samples and subscribers arrive at a session that has just been evicted: nothing is sent
  on or closes a closed channel, no buffer exceeds 16 events, and a channel is closed exactly
  when no session lists it any more.  An eviction closes the channels of that session and of no
  other, each with the final event if it had room.
\<close>

theorem observers_channels:
  assumes "allowed_run health_step health_move_ok ms (NewHealthStore db)"
    and "h = fold health_step ms (NewHealthStore db)"
  shows "\<not> hlPanic h \<and> list_all (\<lambda>u. length (suCh u) \<le> 16) (hlSubs h)
    \<and> list_all (\<lambda>s. suClosed (hlSubs h ! s) \<longleftrightarrow> \<not> list_ex (\<lambda>r. s \<in> set (srSubscribers r)) (hlRings h)) [0..<length (hlSubs h)]
    \<and> (map_of (hlSessions h) k = Some i \<longrightarrow>
        hlSubs (evictSession k h) = map (\<lambda>s. let u = hlSubs h ! s in
            if s \<notin> set (srSubscribers (hlRings h ! i)) then u
            else if length (suCh u) < 16 then u\<lparr>suCh := suCh u @ [endedEvent], suClosed := True\<rparr>
            else u\<lparr>suDropped := suDropped u + 1, suClosed := True\<rparr>) [0..<length (hlSubs h)])"
proof -
  have ok: "health_ok h" using health.run_inv [OF health_ok_New assms(1)] assms(2) by simp
  have small: "list_all (\<lambda>u. length (suCh u) \<le> 16) (hlSubs h)"
    using health_okD(7) [OF ok] by (simp add: small_buffers_def list_all_iff subscriberBufferSize_def)
  have closed: "list_all (\<lambda>s. suClosed (hlSubs h ! s) \<longleftrightarrow> \<not> list_ex (\<lambda>r. s \<in> set (srSubscribers r)) (hlRings h)) [0..<length (hlSubs h)]"
    using health_okD(6) [OF ok] by (auto simp: list_all_iff list_ex_iff registered_def)
  have "hlSubs (evictSession k h) = map (\<lambda>s. let u = hlSubs h ! s in
            if s \<notin> set (srSubscribers (hlRings h ! i)) then u
            else if length (suCh u) < 16 then u\<lparr>suCh := suCh u @ [endedEvent], suClosed := True\<rparr>
            else u\<lparr>suDropped := suDropped u + 1, suClosed := True\<rparr>) [0..<length (hlSubs h)]"
    if "map_of (hlSessions h) k = Some i"
    unfolding evict_effect [OF ok that]
    by (simp add: onSubs_def farewell_def offered_def Let_def subscriberBufferSize_def)
  then show ?thesis using health_okD(1) [OF ok] small closed by blast
qed

definition someSample :: "int \<Rightarrow> Sample" where
  "someSample t = \<lparr>smTS = t, smLossPct = None, smJitterMs = None, smRttMs = Some 0x42480000, smConnType = ''host'',
     smBytesIn = Some 7, smBytesOut = None\<rparr>"

text \<open>Two observers, one gone before the end; a late sample and a late observer after it.\<close>

definition observed :: "healthMove list" where
  "observed = [HmSession 0 (callSession 5), HmSubscribeOn 0, HmSubscribeOn 0,
     HmRecord 1 (callSession 5) ''a'' [] (someSample 1) False, HmClose 0 1, HmEvict (callSession 5),
     HmRecordOn 0 ''b'' [] (someSample 2) False, HmSubscribeOn 0, HmSession 3 (callSession 6), HmSubscribeOn 1]"

theorem observers_channels_witness:
  "let h = fold health_step observed (NewHealthStore True)
   in \<not> hlPanic h \<and> map suClosed (hlSubs h) = [True, True, False, False]
    \<and> map suClosed (hlSubs (evictSession (callSession 6) h)) = [True, True, False, True]
    \<and> map (map evKind \<circ> suCh) (hlSubs h) = [[SampleKind, EndedKind], [SampleKind], [], []]"
proof -
  let ?h = "fold health_step observed (NewHealthStore True)"
  have run: "allowed_run health_step health_move_ok observed (NewHealthStore True)" by code_simp
  have k: "map_of (hlSessions ?h) (callSession 6) = Some 1" by code_simp
  have c: "map suClosed (hlSubs ?h) = [True, True, False, False]" "map (map evKind \<circ> suCh) (hlSubs ?h) = [[SampleKind, EndedKind], [SampleKind], [], []]" by code_simp+
  have "map suClosed (hlSubs (evictSession (callSession 6) ?h))
      = map (\<lambda>s. suClosed (hlSubs ?h ! s) \<or> s \<in> set (srSubscribers (hlRings ?h ! 1))) [0..<length (hlSubs ?h)]"
    using observers_channels [OF run refl, of "callSession 6" 1] k by (auto simp: Let_def)
  moreover have "map (\<lambda>s. suClosed (hlSubs ?h ! s) \<or> s \<in> set (srSubscribers (hlRings ?h ! 1))) [0..<length (hlSubs ?h)]
      = [True, True, False, True]" by code_simp
  ultimately show ?thesis using observers_channels [OF run refl, of "callSession 6" 1] c by (simp add: Let_def)
qed

end
