(* ===== verification/LinkHealth_Pods.thy ===== *)
theory LinkHealth_Pods
  imports LinkHealth_Props
begin

text \<open>Several pods: one of them writes, all of them show the same.\<close>

section \<open>Who writes\<close>

text \<open>Nothing in the ring waits for the flush.\<close>

definition settled :: "ring \<Rightarrow> bool" where
  "settled q \<longleftrightarrow> (\<forall>s \<in> set (rgSamples q). smTS s \<le> rgLastFlushed q)"

definition nothingFrom :: "string \<Rightarrow> HealthStore \<Rightarrow> bool" where
  "nothingFrom from h \<longleftrightarrow> (\<forall>r \<in> set (hlRings h). \<forall>p \<in> set (srByEndpoint r). ekFrom (fst p) = from \<longrightarrow> settled (snd p))
     \<and> (\<forall>row \<in> set (hlRows h). lhEndpoint row \<noteq> from)"

text \<open>A sample of that phone comes in on this pod.\<close>

fun ingests :: "string \<Rightarrow> healthMove \<Rightarrow> bool" where
  "ingests from (HmRecord now k f p s remote) \<longleftrightarrow> f = from \<and> \<not> remote"
| "ingests from (HmRecordOn i f p s remote) \<longleftrightarrow> f = from \<and> \<not> remote"
| "ingests from _ \<longleftrightarrow> False"

lemma in_mput: "p \<in> set (mput k v m) \<Longrightarrow> p = (k, v) \<or> p \<in> set m"
  by (induction m) (auto simp: mput_def split: if_splits)

lemma settled_empty: "settled emptyRing"
  by (simp add: settled_def emptyRing_def)

lemma ringAppend_set: "set (rgSamples (ringAppend s q)) \<subseteq> insert s (set (rgSamples q))"
  by (auto simp: ringAppend_def dest: in_set_takeD in_set_dropD)

lemma ringAppend_flushed [simp]: "rgLastFlushed (ringAppend s q) = rgLastFlushed q"
  by (simp add: ringAppend_def)

lemma nothingFrom_rings:
  assumes "nothingFrom from h" "hlRows h' = hlRows h"
    "\<And>r p. r \<in> set (hlRings h') \<Longrightarrow> p \<in> set (srByEndpoint r) \<Longrightarrow> ekFrom (fst p) = from \<Longrightarrow> settled (snd p)"
  shows "nothingFrom from h'"
  using assms by (auto simp: nothingFrom_def)

lemma nothingFrom_same:
  "nothingFrom from h \<Longrightarrow> hlRows h' = hlRows h \<Longrightarrow> map srByEndpoint (hlRings h') = map srByEndpoint (hlRings h) \<Longrightarrow> nothingFrom from h'"
proof -
  have "nothingFrom from h \<longleftrightarrow> (\<forall>b \<in> set (map srByEndpoint (hlRings h)). \<forall>p \<in> set b. ekFrom (fst p) = from \<longrightarrow> settled (snd p))
     \<and> (\<forall>row \<in> set (hlRows h). lhEndpoint row \<noteq> from)" for h by (simp add: nothingFrom_def)
  then show "nothingFrom from h \<Longrightarrow> hlRows h' = hlRows h \<Longrightarrow> map srByEndpoint (hlRings h') = map srByEndpoint (hlRings h) \<Longrightarrow> nothingFrom from h'"
    by metis
qed

lemma rings_updRing:
  "(\<And>r. srByEndpoint (g r) = srByEndpoint r) \<Longrightarrow> map srByEndpoint (hlRings (updRing i g h)) = map srByEndpoint (hlRings h)"
  by (cases "i < length (hlRings h)") (simp_all add: updRing_def map_update list_update_same_conv list_update_beyond)

lemma offer_rings [simp]: "hlRings (offer ev s h) = hlRings h" "hlRows (offer ev s h) = hlRows h"
  "hlRings (closeSub s h) = hlRings h" "hlRows (closeSub s h) = hlRows h"
  by (simp_all add: offer_def closeSub_def Let_def)

lemma broadcast_rings [simp]: "hlRings (broadcastLocked ev ss h) = hlRings h" "hlRows (broadcastLocked ev ss h) = hlRows h"
  unfolding broadcastLocked_def by (induction ss arbitrary: h) simp_all

lemma closes_rings [simp]:
  "hlRings (fold (\<lambda>s h. closeSub s (offer ev s h)) ss h) = hlRings h"
  "hlRows (fold (\<lambda>s h. closeSub s (offer ev s h)) ss h) = hlRows h"
  by (induction ss arbitrary: h) simp_all

lemma nothing_create: "nothingFrom from h \<Longrightarrow> nothingFrom from (snd (getOrCreateSession now k h))"
proof (cases "map_of (hlSessions h) k")
  case None
  assume "nothingFrom from h"
  then show ?thesis using None by (auto simp: getOrCreateSession_def nothingFrom_def)
next
  case (Some i)
  assume "nothingFrom from h"
  then show ?thesis using Some
    by (auto simp: getOrCreateSession_def intro!: nothingFrom_same [of "from" h] rings_updRing)
qed

lemma nothing_record:
  assumes n: "nothingFrom from h" and i: "i < length (hlRings h)" and own: "f = from \<longrightarrow> remote"
  shows "nothingFrom from (recordOn i f p s remote h)"
proof -
  define e where "e = \<lparr>ekFrom = f, ekPeer = p\<rparr>"
  define q where "q = (let q = ringAppend s (ringOf e (hlRings h ! i)) in
    if remote \<and> rgLastFlushed q < smTS s then q\<lparr>rgLastFlushed := smTS s\<rparr> else q)"
  have old: "settled (ringOf e (hlRings h ! i))" if "f = from"
    using n nth_mem [OF i] that by (fastforce simp: ringOf_def nothingFrom_def e_def settled_empty split: option.split dest: map_of_SomeD)
  have q: "settled q" if "f = from"
    using old [OF that] own that ringAppend_set [of s "ringOf e (hlRings h ! i)"] by (force simp: q_def settled_def Let_def)
  have rings: "hlRings (recordOn i f p s remote h) = (hlRings h)[i := (hlRings h ! i)\<lparr>srByEndpoint := mput e q (srByEndpoint (hlRings h ! i))\<rparr>]"
    by (simp add: recordOn_def Let_def e_def q_def updRing_def cong: if_cong)
  have rows: "hlRows (recordOn i f p s remote h) = hlRows h" by (simp add: recordOn_def Let_def)
  show ?thesis
  proof (rule nothingFrom_rings [OF n rows])
    fix r x assume r: "r \<in> set (hlRings (recordOn i f p s remote h))" and x: "x \<in> set (srByEndpoint r)" "ekFrom (fst x) = from"
    from r rings have "r = (hlRings h ! i)\<lparr>srByEndpoint := mput e q (srByEndpoint (hlRings h ! i))\<rparr> \<or> r \<in> set (hlRings h)"
      using set_update_subset_insert by fastforce
    then show "settled (snd x)"
    proof
      assume "r = (hlRings h ! i)\<lparr>srByEndpoint := mput e q (srByEndpoint (hlRings h ! i))\<rparr>"
      then have "x = (e, q) \<or> x \<in> set (srByEndpoint (hlRings h ! i))" using x(1) in_mput by fastforce
      then show ?thesis using q x(2) n nth_mem [OF i] by (auto simp: e_def nothingFrom_def)
    qed (use n x in \<open>auto simp: nothingFrom_def\<close>)
  qed
qed

lemma nothing_evict: "nothingFrom from h \<Longrightarrow> nothingFrom from (evictSession k h)"
  by (auto simp: evictSession_def Let_def rings_updRing split: option.split intro!: nothingFrom_same [of "from" h])

lemma unflushed_settled: "(e, s) \<in> set (unflushed r) \<Longrightarrow> \<exists>q. (e, q) \<in> set (srByEndpoint r) \<and> \<not> settled q"
proof -
  assume "(e, s) \<in> set (unflushed r)"
  then obtain q where "(e, q) \<in> set (srByEndpoint r)" "ringLatest q = Some s" "rgLastFlushed q < smTS s"
    by (auto simp: unflushed_def split: if_splits option.splits)
  then show ?thesis by (intro exI [of _ q]) (auto simp: ringLatest_def settled_def not_le split: if_splits intro!: bexI [of _ s])
qed

lemma writeAll_rows: "row \<in> set (hlRows (snd (writeAll f n k todo h))) \<Longrightarrow> row \<in> set (hlRows h) \<or> lhEndpoint row \<in> ekFrom ` fst ` set todo"
proof (induction todo arbitrary: n h)
  case (Cons p todo)
  obtain e s where p: "p = (e, s)" by (cases p)
  obtain b h' where b: "writeSample (f n) k e s h = (b, h')" by fastforce
  then have w: "set (hlRows h') \<subseteq> set (hlRows h) \<union> {r. lhEndpoint r = ekFrom e}"
    by (auto simp: writeSample_def Let_def split: if_splits)
  show ?case using Cons.prems Cons.IH [of "Suc n" h'] b w by (cases b) (auto simp: p)
qed simp

lemma nothing_flush:
  assumes n: "nothingFrom from h" and i: "i < length (hlRings h)"
  shows "nothingFrom from (snd (flushSession f k i h))"
proof -
  let ?todo = "unflushed (hlRings h ! i)"
  have none: "ekFrom e \<noteq> from" if "(e, s) \<in> set ?todo" for e s
    using unflushed_settled [OF that] n nth_mem [OF i] by (fastforce simp: nothingFrom_def)
  obtain b h' where w: "writeAll f 0 k ?todo h = (b, h')" by fastforce
  have "hlRings h' = hlRings h" using writeAll_sel(3) [of f 0 k ?todo h] w by simp
  moreover have "lhEndpoint row \<noteq> from" if "row \<in> set (hlRows h')" for row
    using writeAll_rows [of row f 0 k ?todo h] that w n none by (fastforce simp: nothingFrom_def)
  ultimately have n': "nothingFrom from h'" "hlRings h' = hlRings h" using n by (auto simp: nothingFrom_def)
  have "nothingFrom from (updRing i (advance ?todo) h')"
  proof (rule nothingFrom_rings [OF n'(1)])
    fix r x assume r: "r \<in> set (hlRings (updRing i (advance ?todo) h'))" and x: "x \<in> set (srByEndpoint r)" "ekFrom (fst x) = from"
    from r have "r = advance ?todo (hlRings h ! i) \<or> r \<in> set (hlRings h)"
      using set_update_subset_insert n'(2) by (fastforce simp: updRing_def)
    then show "settled (snd x)"
    proof
      assume "r = advance ?todo (hlRings h ! i)"
      then obtain e q where eq: "(e, q) \<in> set (srByEndpoint (hlRings h ! i))"
        "x = (e, case map_of ?todo e of None \<Rightarrow> q | Some s \<Rightarrow> q\<lparr>rgLastFlushed := smTS s\<rparr>)"
        using x(1) by (auto simp: advance_def)
      have "map_of ?todo e = None" using none eq(2) x(2) by (force simp: map_of_eq_None_iff)
      then show ?thesis using eq n nth_mem [OF i] x(2) by (force simp: nothingFrom_def)
    qed (use n x in \<open>auto simp: nothingFrom_def\<close>)
  qed simp
  then show ?thesis using w n n'(1) by (auto simp: flushSession_def Let_def split: bool.split)
qed

lemma nothing_FlushOnce: "nothingFrom from h \<Longrightarrow> health_ok h \<Longrightarrow> nothingFrom from (FlushOnce f h)"
proof -
  let ?g = "\<lambda>k h. case map_of (hlSessions h) k of None \<Rightarrow> h | Some i \<Rightarrow> snd (flushSession (f k) k i h)"
  have "nothingFrom from h \<Longrightarrow> health_ok h \<Longrightarrow> nothingFrom from (fold ?g ks h)" for ks
    by (induction ks arbitrary: h) (auto split: option.split intro: flushSession_ok health_okD(3) nothing_flush)
  then show "nothingFrom from h \<Longrightarrow> health_ok h \<Longrightarrow> nothingFrom from (FlushOnce f h)" by (simp add: FlushOnce_def)
qed

lemma nothing_sweep: "nothingFrom from h \<Longrightarrow> nothingFrom from (sweepIdleSessions now h)"
proof -
  let ?g = "\<lambda>k h. case map_of (hlSessions h) k of None \<Rightarrow> h
    | Some i \<Rightarrow> if sweepable now (hlRings h ! i) then evictSession k h else h"
  have "nothingFrom from h \<Longrightarrow> nothingFrom from (fold ?g ks h)" for ks
    by (induction ks arbitrary: h) (auto split: option.split intro: nothing_evict)
  then show "nothingFrom from h \<Longrightarrow> nothingFrom from (sweepIdleSessions now h)" by (simp add: sweepIdleSessions_def)
qed

lemma nothing_rest:
  assumes "nothingFrom from h"
  shows "nothingFrom from (snd (subscribeOn i h))" "nothingFrom from (notifyDisconnectedSession k by h)"
    "nothingFrom from (closeSubscription c h)" "nothingFrom from (receive s h)" "nothingFrom from (publishEnv e h)"
    "nothingFrom from (DisableFlush h)"
  by (rule nothingFrom_same [OF assms]; simp add: subscribeOn_def Let_def notifyDisconnectedSession_def closeSubscription_def
      receive_def publishEnv_def DisableFlush_def rings_updRing split: option.split prod.split)+

text \<open>
  C34: only the pod that takes a phone's samples in writes them to the database.  In every run of a pod that
  receives no sample of a phone on its own websocket, but any number of them from other pods,
  in any order and with any times, no flush writes a row for that phone.
\<close>

theorem only_the_ingesting_pod_writes:
  assumes "allowed_run health_step (\<lambda>m h. health_move_ok m h \<and> \<not> ingests from m) ms (NewHealthStore db)"
  shows "filter (\<lambda>r. lhEndpoint r = from) (hlRows (fold health_step ms (NewHealthStore db))) = []"
proof -
  have step: "health_ok (health_step m h) \<and> nothingFrom from (health_step m h)"
    if ok: "health_ok h" "nothingFrom from h" and m: "health_move_ok m h" "\<not> ingests from m" for m h
  proof
    show "health_ok (health_step m h)" using health.step_inv m(1) ok(1) by blast
    show "nothingFrom from (health_step m h)"
    proof (cases m)
      case (HmRecord now k f p s remote)
      obtain i h' where g: "getOrCreateSession now k h = (i, h')" by fastforce
      have "nothingFrom from h'" "i < length (hlRings h')"
        using nothing_create [OF ok(2), of now k] getOrCreate_ok [OF ok(1) g] g by simp_all
      then show ?thesis using nothing_record [of "from" h' i f remote p s] m(2) by (simp add: HmRecord recordSession_def g)
    qed (use ok m in \<open>auto simp: healthTick_def healthStops_def
        intro: nothing_create nothing_record nothing_evict nothing_sweep nothing_FlushOnce nothing_rest\<close>)
  qed
  have "health_ok h \<Longrightarrow> nothingFrom from h \<Longrightarrow> allowed_run health_step (\<lambda>m h. health_move_ok m h \<and> \<not> ingests from m) ms h
      \<Longrightarrow> nothingFrom from (fold health_step ms h)" for h
    by (induction ms arbitrary: h) (auto dest: step)
  moreover have "nothingFrom from (NewHealthStore db)" by (simp add: nothingFrom_def NewHealthStore_def)
  ultimately have "nothingFrom from (fold health_step ms (NewHealthStore db))" using assms by simp
  then show ?thesis by (auto simp: nothingFrom_def filter_empty_conv)
qed

text \<open>One phone of the call is on this pod, the other is not.\<close>

definition halfCall :: "healthMove list" where
  "halfCall = [HmRecord 1 (callSession 5) ''a'' [] (someSample 10) True, HmRecord 1 (callSession 5) ''b'' [] (someSample 11) False,
     HmTick (\<lambda>_ _. True) 2, HmRecord 3 (callSession 5) ''a'' [] (someSample 9) True, HmTick (\<lambda>_ _. True) 4]"

theorem only_the_ingesting_pod_writes_witness:
  "filter (\<lambda>r. lhEndpoint r = ''a'') (hlRows (fold health_step halfCall (NewHealthStore True))) = []
   \<and> map lhEndpoint (hlRows (fold health_step halfCall (NewHealthStore True))) = [''b'']
   \<and> map smTS (Window 5 ''a'' (fold health_step halfCall (NewHealthStore True))) = [10, 9]"
proof -
  have "allowed_run health_step (\<lambda>m h. health_move_ok m h \<and> \<not> ingests ''a'' m) halfCall (NewHealthStore True)" by code_simp
  moreover have "map lhEndpoint (hlRows (fold health_step halfCall (NewHealthStore True))) = [''b'']" by code_simp
  moreover have "map smTS (Window 5 ''a'' (fold health_step halfCall (NewHealthStore True))) = [10, 9]" by code_simp
  ultimately show ?thesis using only_the_ingesting_pod_writes by blast
qed

section \<open>What the pods show\<close>

text \<open>The operations of a pod that serves phones and pages.\<close>

datatype healthOp =
    HoInit int int
  | HoInitConference int uuid
  | HoRecord int int string Sample
  | HoRecordEdge int uuid string string Sample
  | HoEvict int
  | HoEvictConference uuid
  | HoNotify int string
  | HoNotifyConference uuid string
  | HoSubscribe int int
  | HoSubscribeConference int uuid
  | HoClose "nat \<times> nat"
  | HoReceive nat

fun op_step :: "(uuid \<Rightarrow> string) \<Rightarrow> healthOp \<Rightarrow> HealthStore \<Rightarrow> HealthStore" where
  "op_step str (HoInit now c) h = Init now c h"
| "op_step str (HoInitConference now c) h = InitConference now c h"
| "op_step str (HoRecord now c e s) h = Record str now c e s h"
| "op_step str (HoRecordEdge now c e p s) h = RecordEdge str now c e p s h"
| "op_step str (HoEvict c) h = Evict str c h"
| "op_step str (HoEvictConference c) h = EvictConference str c h"
| "op_step str (HoNotify c by) h = NotifyDisconnected str c by h"
| "op_step str (HoNotifyConference c by) h = NotifyDisconnectedConference str c by h"
| "op_step str (HoSubscribe now c) h = snd (Subscribe now c h)"
| "op_step str (HoSubscribeConference now c) h = snd (SubscribeConference now c h)"
| "op_step str (HoClose c) h = closeSubscription c h"
| "op_step str (HoReceive s) h = receive s h"

text \<open>Calls and conferences have ids.\<close>

fun op_ok :: "healthOp \<Rightarrow> bool" where
  "op_ok (HoRecord now c e s) \<longleftrightarrow> c \<noteq> 0"
| "op_ok (HoRecordEdge now c e p s) \<longleftrightarrow> c \<noteq> 0"
| "op_ok (HoEvict c) \<longleftrightarrow> c \<noteq> 0"
| "op_ok (HoEvictConference c) \<longleftrightarrow> c \<noteq> 0"
| "op_ok (HoNotify c by) \<longleftrightarrow> c \<noteq> 0"
| "op_ok (HoNotifyConference c by) \<longleftrightarrow> c \<noteq> 0"
| "op_ok _ \<longleftrightarrow> True"

text \<open>Different sessions are different.\<close>

definition sessions_apart :: "HealthStore \<Rightarrow> bool" where
  "sessions_apart h \<longleftrightarrow> (\<forall>k i. map_of (hlSessions h) k = Some i \<longrightarrow> i < length (hlRings h)
     \<and> (\<forall>k'. map_of (hlSessions h) k' = Some i \<longrightarrow> k' = k))"

definition views :: "HealthStore \<Rightarrow> SessionKey \<Rightarrow> string \<Rightarrow> string \<Rightarrow> Sample list" where
  "views h k e p = windowSession k e p h"

lemma apart_rings:
  "sessions_apart h \<Longrightarrow> hlSessions h' = hlSessions h \<Longrightarrow> length (hlRings h') = length (hlRings h) \<Longrightarrow> sessions_apart h'"
  by (simp add: sessions_apart_def)

lemma views_rings:
  "hlSessions h' = hlSessions h \<Longrightarrow> map srByEndpoint (hlRings h') = map srByEndpoint (hlRings h) \<Longrightarrow> sessions_apart h \<Longrightarrow> views h' = views h"
proof -
  assume a: "hlSessions h' = hlSessions h" "map srByEndpoint (hlRings h') = map srByEndpoint (hlRings h)" "sessions_apart h"
  have "srByEndpoint (hlRings h' ! i) = srByEndpoint (hlRings h ! i)" if "i < length (hlRings h)" for i
    using arg_cong [OF a(2), of "\<lambda>xs. xs ! i"] arg_cong [OF a(2), of length] that by simp
  then have "views h' k e p = views h k e p" for k e p
    using a(1,3) by (cases "map_of (hlSessions h) k") (simp_all add: views_def windowSession_def ringOf_def sessions_apart_def)
  then show ?thesis by (intro ext)
qed

lemma apart_create:
  assumes "sessions_apart h" "getOrCreateSession now k h = (i, h')"
  shows "sessions_apart h'" "views h' = views h" "map_of (hlSessions h') k = Some i"
proof -
  have "sessions_apart h' \<and> views h' = views h \<and> map_of (hlSessions h') k = Some i"
  proof (cases "map_of (hlSessions h) k")
    case (Some j)
    then have j: "i = j" "h' = updRing j (\<lambda>r. r\<lparr>srLastActivity := now\<rparr>) h" using assms(2) by (auto simp: getOrCreateSession_def)
    then show ?thesis using assms(1) Some views_rings [of h' h] apart_rings [of h h'] by (simp add: rings_updRing)
  next
    case None
    then have h': "i = length (hlRings h)" "hlSessions h' = mput k i (hlSessions h)"
      "hlRings h' = hlRings h @ [\<lparr>srByEndpoint = [], srSubscribers = [], srLastActivity = now\<rparr>]"
      using assms(2) by (auto simp: getOrCreateSession_def)
    have S: "map_of (hlSessions h') = (map_of (hlSessions h))(k \<mapsto> length (hlRings h))" using h' by simp
    have old: "j < length (hlRings h)" "map_of (hlSessions h) l' = Some j \<Longrightarrow> l' = l" if "map_of (hlSessions h) l = Some j" for l l' j
      using assms(1) that unfolding sessions_apart_def by blast+
    have "sessions_apart h'" unfolding sessions_apart_def
    proof (intro allI impI conjI)
      fix l j assume l: "map_of (hlSessions h') l = Some j"
      show "j < length (hlRings h')" using l old(1) [of l j] by (auto simp: S h'(3) split: if_splits)
      fix l' assume "map_of (hlSessions h') l' = Some j"
      then show "l' = l" using l old(1) [of l j] old(1) [of l' j] old(2) [of l j l'] by (auto simp: S split: if_splits)
    qed
    moreover have "views h' l e p = views h l e p" for l e p
    proof (cases "l = k")
      case True
      then show ?thesis using None by (simp add: views_def windowSession_def S h'(3) ringOf_def emptyRing_def)
    next
      case False
      then show ?thesis using old(1) [of l]
        by (cases "map_of (hlSessions h) l") (simp_all add: views_def windowSession_def S h'(3) nth_append)
    qed
    then have "views h' = views h" by (intro ext)
    ultimately show ?thesis using h' by simp
  qed
  then show "sessions_apart h'" "views h' = views h" "map_of (hlSessions h') k = Some i" by simp_all
qed

text \<open>The rings, seen as lists of samples.\<close>

definition push :: "Sample \<Rightarrow> Sample list \<Rightarrow> Sample list" where
  "push s xs = rgSamples (ringAppend s \<lparr>rgSamples = xs, rgLastFlushed = 0\<rparr>)"

lemma ringAppend_push [simp]: "rgSamples (ringAppend s q) = push s (rgSamples q)"
  by (simp add: push_def ringAppend_def)

lemma push_map: "push (g s) (map g xs) = map g (push s xs)"
  by (simp add: push_def ringAppend_def take_map drop_map)

lemma record_views:
  assumes a: "sessions_apart h"
  shows "sessions_apart (recordSession now k e p s remote h)"
    "views (recordSession now k e p s remote h)
      = (\<lambda>k' e' p'. if k' = k \<and> e' = e \<and> p' = p then push s (views h k' e' p') else views h k' e' p')"
proof -
  obtain i h' where g: "getOrCreateSession now k h = (i, h')" by fastforce
  note c = apart_create [OF a g]
  let ?h = "recordSession now k e p s remote h" and ?e = "\<lparr>ekFrom = e, ekPeer = p\<rparr>"
  define q where "q = (let q = ringAppend s (ringOf ?e (hlRings h' ! i)) in
    if remote \<and> rgLastFlushed q < smTS s then q\<lparr>rgLastFlushed := smTS s\<rparr> else q)"
  have q: "rgSamples q = push s (rgSamples (ringOf ?e (hlRings h' ! i)))" by (simp add: q_def Let_def)
  have rings: "hlRings ?h = (hlRings h')[i := (hlRings h' ! i)\<lparr>srByEndpoint := mput ?e q (srByEndpoint (hlRings h' ! i))\<rparr>]"
    by (simp add: recordSession_def g recordOn_def Let_def updRing_def q_def cong: if_cong)
  have s: "hlSessions ?h = hlSessions h'"
  proof -
    have "hlSessions (broadcastLocked ev ss h) = hlSessions h" for ev ss h
      unfolding broadcastLocked_def by (induction ss arbitrary: h) (simp_all add: offer_def Let_def)
    then show ?thesis by (simp add: recordSession_def g recordOn_def Let_def)
  qed
  show "sessions_apart ?h" using apart_rings [OF c(1) s] rings by simp
  have i: "i < length (hlRings h')" using c(1,3) by (auto simp: sessions_apart_def)
  have other: "j \<noteq> i" if "map_of (hlSessions h') k' = Some j" "k' \<noteq> k" for k' j
    using c(1,3) that by (auto simp: sessions_apart_def)
  have "views ?h k' e' p' = (if k' = k \<and> e' = e \<and> p' = p then push s (views h' k' e' p') else views h' k' e' p')" for k' e' p'
  proof (cases "map_of (hlSessions h') k'")
    case (Some j)
    show ?thesis
    proof (cases "k' = k")
      case True
      then have "j = i" using Some c(3) by simp
      then show ?thesis using i q Some True
        by (simp add: views_def windowSession_def s rings ringOf_def)
    qed (use other [OF Some] Some in \<open>simp add: views_def windowSession_def s rings\<close>)
  qed (use c(3) in \<open>auto simp: views_def windowSession_def s\<close>)
  then show "views ?h = (\<lambda>k' e' p'. if k' = k \<and> e' = e \<and> p' = p then push s (views h k' e' p') else views h k' e' p')"
    using c(2) by (simp add: fun_eq_iff)
qed

lemma evict_views:
  assumes a: "sessions_apart h"
  shows "sessions_apart (evictSession k h)" "views (evictSession k h) = (\<lambda>k' e p. if k' = k then [] else views h k' e p)"
proof -
  let ?h = "evictSession k h"
  have keep: "hlSessions (fold (\<lambda>s h. closeSub s (offer ev s h)) ss h) = hlSessions h" for ev ss h
    by (induction ss arbitrary: h) (simp_all add: closeSub_def offer_def Let_def)
  have S: "map_of (hlSessions ?h) = (map_of (hlSessions h))(k := None)"
    by (auto simp: evictSession_def Let_def keep fun_upd_idem split: option.split)
  have L: "length (hlRings ?h) = length (hlRings h)" by (simp add: evictSession_def Let_def split: option.split)
  have B: "map srByEndpoint (hlRings ?h) = map srByEndpoint (hlRings h)"
    by (simp add: evictSession_def Let_def rings_updRing split: option.split)
  show "sessions_apart ?h" using a unfolding sessions_apart_def S L by (auto split: if_splits)
  have b: "srByEndpoint (hlRings ?h ! i) = srByEndpoint (hlRings h ! i)" if "i < length (hlRings h)" for i
    using arg_cong [OF B, of "\<lambda>xs. xs ! i"] that L by simp
  have "views ?h k' e p = (if k' = k then [] else views h k' e p)" for k' e p
    using a by (cases "map_of (hlSessions h) k'") (auto simp: views_def windowSession_def S b ringOf_def sessions_apart_def)
  then show "views ?h = (\<lambda>k' e p. if k' = k then [] else views h k' e p)" by (simp add: fun_eq_iff)
qed

lemma quiet_views:
  assumes a: "sessions_apart h"
  shows "sessions_apart (notifyDisconnectedSession k by h)" "views (notifyDisconnectedSession k by h) = views h"
    "sessions_apart (closeSubscription c h)" "views (closeSubscription c h) = views h"
    "sessions_apart (receive s h)" "views (receive s h) = views h"
    "sessions_apart (publishEnv e h)" "views (publishEnv e h) = views h"
    "sessions_apart (snd (subscribeOn i h))" "views (snd (subscribeOn i h)) = views h"
proof -
  have B: "hlSessions (broadcastLocked ev ss h) = hlSessions h" for ev ss h
    unfolding broadcastLocked_def by (induction ss arbitrary: h) (simp_all add: offer_def Let_def)
  have C: "hlSessions (closeSub s h) = hlSessions h" for s h by (simp add: closeSub_def Let_def)
  note D = notifyDisconnectedSession_def closeSubscription_def receive_def publishEnv_def subscribeOn_def B C Let_def rings_updRing
  show "sessions_apart (notifyDisconnectedSession k by h)" "sessions_apart (closeSubscription c h)" "sessions_apart (receive s h)"
    "sessions_apart (publishEnv e h)" "sessions_apart (snd (subscribeOn i h))"
    by (rule apart_rings [OF a]; simp add: D split: option.split prod.split)+
  show "views (notifyDisconnectedSession k by h) = views h" "views (closeSubscription c h) = views h" "views (receive s h) = views h"
    "views (publishEnv e h) = views h" "views (snd (subscribeOn i h)) = views h"
    by (rule views_rings [OF _ _ a]; simp add: D split: option.split prod.split)+
qed

lemma subscribe_views:
  assumes a: "sessions_apart h"
  shows "sessions_apart (snd (subscribeSession now k h))" "views (snd (subscribeSession now k h)) = views h"
    "sessions_apart (snd (getOrCreateSession now k h))" "views (snd (getOrCreateSession now k h)) = views h"
proof -
  obtain i h' where g: "getOrCreateSession now k h = (i, h')" by fastforce
  show "sessions_apart (snd (subscribeSession now k h))" "views (snd (subscribeSession now k h)) = views h"
    "sessions_apart (snd (getOrCreateSession now k h))" "views (snd (getOrCreateSession now k h)) = views h"
    using apart_create [OF a g] quiet_views(9,10) [of h' i] by (simp_all add: subscribeSession_def g)
qed

text \<open>What is published.\<close>

lemma pub_frames [simp]:
  "hlPub (recordSession now k e p s remote h) = hlPub h" "hlClient (recordSession now k e p s remote h) = hlClient h"
  "hlPodID (recordSession now k e p s remote h) = hlPodID h"
  "hlPub (evictSession k h) = hlPub h" "hlClient (evictSession k h) = hlClient h" "hlPodID (evictSession k h) = hlPodID h"
  "hlPub (notifyDisconnectedSession k by h) = hlPub h" "hlClient (notifyDisconnectedSession k by h) = hlClient h"
  "hlPodID (notifyDisconnectedSession k by h) = hlPodID h"
  "hlPub (closeSubscription c h) = hlPub h" "hlClient (closeSubscription c h) = hlClient h" "hlPodID (closeSubscription c h) = hlPodID h"
  "hlPub (snd (subscribeSession now k h)) = hlPub h" "hlClient (snd (subscribeSession now k h)) = hlClient h"
  "hlPodID (snd (subscribeSession now k h)) = hlPodID h"
  "hlPub (snd (getOrCreateSession now k h)) = hlPub h" "hlClient (snd (getOrCreateSession now k h)) = hlClient h"
  "hlPodID (snd (getOrCreateSession now k h)) = hlPodID h"
  "hlPub (receive s' h) = hlPub h" "hlClient (receive s' h) = hlClient h" "hlPodID (receive s' h) = hlPodID h"
proof -
  have B: "hlPub (broadcastLocked ev ss h) = hlPub h" "hlClient (broadcastLocked ev ss h) = hlClient h"
    "hlPodID (broadcastLocked ev ss h) = hlPodID h" for ev ss h
    unfolding broadcastLocked_def by (induction ss arbitrary: h) (simp_all add: offer_def Let_def)
  have E: "hlPub (fold (\<lambda>s h. closeSub s (offer ev s h)) ss h) = hlPub h"
    "hlClient (fold (\<lambda>s h. closeSub s (offer ev s h)) ss h) = hlClient h"
    "hlPodID (fold (\<lambda>s h. closeSub s (offer ev s h)) ss h) = hlPodID h" for ev ss h
    by (induction ss arbitrary: h) (simp_all add: closeSub_def offer_def Let_def)
  have C: "hlPub (closeSub s h) = hlPub h" "hlClient (closeSub s h) = hlClient h" "hlPodID (closeSub s h) = hlPodID h" for s h
    by (simp_all add: closeSub_def Let_def)
  note D = recordSession_def recordOn_def evictSession_def notifyDisconnectedSession_def closeSubscription_def C
    subscribeSession_def subscribeOn_def getOrCreateSession_def receive_def Let_def B E
  show "hlPub (recordSession now k e p s remote h) = hlPub h" "hlClient (recordSession now k e p s remote h) = hlClient h"
    "hlPodID (recordSession now k e p s remote h) = hlPodID h"
    "hlPub (evictSession k h) = hlPub h" "hlClient (evictSession k h) = hlClient h" "hlPodID (evictSession k h) = hlPodID h"
    "hlPub (notifyDisconnectedSession k by h) = hlPub h" "hlClient (notifyDisconnectedSession k by h) = hlClient h"
    "hlPodID (notifyDisconnectedSession k by h) = hlPodID h"
    "hlPub (closeSubscription c h) = hlPub h" "hlClient (closeSubscription c h) = hlClient h" "hlPodID (closeSubscription c h) = hlPodID h"
    "hlPub (snd (subscribeSession now k h)) = hlPub h" "hlClient (snd (subscribeSession now k h)) = hlClient h"
    "hlPodID (snd (subscribeSession now k h)) = hlPodID h"
    "hlPub (snd (getOrCreateSession now k h)) = hlPub h" "hlClient (snd (getOrCreateSession now k h)) = hlClient h"
    "hlPodID (snd (getOrCreateSession now k h)) = hlPodID h"
    "hlPub (receive s' h) = hlPub h" "hlClient (receive s' h) = hlClient h" "hlPodID (receive s' h) = hlPodID h"
    by (simp_all add: D split: option.split prod.split)
qed

definition showsSame :: "HealthStore \<Rightarrow> HealthStore \<Rightarrow> bool" where
  "showsSame a b \<longleftrightarrow> sessions_apart a \<and> sessions_apart b \<and> views b = (\<lambda>k e p. map overWire (views a k e p))"

text \<open>One operation on one pod, and what it published applied on another.\<close>

lemma pods_step:
  assumes uuid: "\<And>c. c \<noteq> 0 \<Longrightarrow> str c \<noteq> [] \<and> parse (str c) = Some c"
    and a: "hlClient a" "hlPodID a \<noteq> hlPodID b" and op: "op_ok op" and same: "showsSame a b"
  obtains es where "hlPub (op_step str op a) = hlPub a @ es" "hlClient (op_step str op a)" "hlPodID (op_step str op a) = hlPodID a"
    "\<And>tes. map snd tes = es \<Longrightarrow> showsSame (op_step str op a) (fold (\<lambda>(now, e). redisMessage parse now (Some e)) tes b)
      \<and> hlPodID (fold (\<lambda>(now, e). redisMessage parse now (Some e)) tes b) = hlPodID b
      \<and> hlPub (fold (\<lambda>(now, e). redisMessage parse now (Some e)) tes b) = hlPub b"
proof -
  have ap: "sessions_apart a" "sessions_apart b" "views b = (\<lambda>k e p. map overWire (views a k e p))"
    using same by (simp_all add: showsSame_def)
  have key: "sessionKeyFromEnvelope parse e = Some k"
    if "k = callSession c \<and> c \<noteq> 0 \<or> k = confSession d \<and> d \<noteq> 0"
      "heCallID e = heCallID (envelopeForKey str k)" "heConfID e = heConfID (envelopeForKey str k)" for e k c d
    using that uuid [of d] by (auto simp: sessionKeyFromEnvelope_def envelopeForKey_def Let_def callSession_def confSession_def IsConf_def)
  note result = that
  have one: "thesis" if pub: "hlPub (op_step str op a) = hlPub a @ [e]" "hlClient (op_step str op a)" "hlPodID (op_step str op a) = hlPodID a"
      and e: "hePodID e = hlPodID a" "\<And>now. showsSame (op_step str op a) (applyRemote parse now e b)
        \<and> hlPodID (applyRemote parse now e b) = hlPodID b \<and> hlPub (applyRemote parse now e b) = hlPub b" for e
    by (rule result [of "[e]"]) (use pub e a in \<open>auto simp: redisMessage_def\<close>)
  have none: "thesis" if "hlPub (op_step str op a) = hlPub a" "hlClient (op_step str op a)" "hlPodID (op_step str op a) = hlPodID a"
      "showsSame (op_step str op a) b"
    by (rule result [of "[]"]) (use that in auto)
  have rec: "thesis"
    if o: "op_step str op a = publishSample str k e p s (recordSession now k e p s False a)"
      and k: "k = callSession c \<and> c \<noteq> 0 \<or> k = confSession d \<and> d \<noteq> 0" for k e p s now c d
  proof (rule one)
    let ?e = "(envelopeForKey str k)\<lparr>hePodID := hlPodID a, heKind := wireKindSample, heFrom := e, hePeer := p, heSample := Some (overWire s)\<rparr>"
    show "hlPub (op_step str op a) = hlPub a @ [?e]" "hlClient (op_step str op a)" "hlPodID (op_step str op a) = hlPodID a"
      using a by (simp_all add: o publishSample_def publishEnv_def)
    have K: "sessionKeyFromEnvelope parse ?e = Some k" by (rule key [OF k]) simp_all
    have E: "envelopeForKey str k = (envelopeForKey str k)\<lparr>hePodID := [], heKind := 0, heFrom := [], hePeer := [], heEndedBy := [], heSample := None\<rparr>"
      by (simp add: envelopeForKey_def Let_def)
    have "applyRemote parse now' ?e b = recordSession now' k e p (overWire s) True b" for now'
      by (simp add: applyRemote_def K)
    moreover have "showsSame (op_step str op a) (recordSession now' k e p (overWire s) True b)" for now'
      using record_views [OF ap(1)] record_views [OF ap(2)] quiet_views(7,8) ap(3)
      by (simp add: showsSame_def o publishSample_def push_map fun_eq_iff)
    ultimately show "showsSame (op_step str op a) (applyRemote parse now' ?e b)
        \<and> hlPodID (applyRemote parse now' ?e b) = hlPodID b \<and> hlPub (applyRemote parse now' ?e b) = hlPub b" for now' by simp
  qed simp
  have life: "thesis"
    if o: "op_step str op a = g (publishLifecycle str kind k who a)" "g = evictSession k \<and> kind = wireKindEvict \<or> g = notifyDisconnectedSession k who \<and> kind = wireKindDisconnect"
      and k: "k = callSession c \<and> c \<noteq> 0 \<or> k = confSession d \<and> d \<noteq> 0" for g kind k who c d
  proof (rule one)
    let ?e = "(envelopeForKey str k)\<lparr>hePodID := hlPodID a, heKind := kind, heEndedBy := who\<rparr>"
    show "hlPub (op_step str op a) = hlPub a @ [?e]" "hlClient (op_step str op a)" "hlPodID (op_step str op a) = hlPodID a"
      using a o(2) by (auto simp: o(1) publishLifecycle_def publishEnv_def)
    have K: "sessionKeyFromEnvelope parse ?e = Some k" by (rule key [OF k]) simp_all
    have "applyRemote parse now' ?e b = g b" for now'
      using o(2) by (auto simp: applyRemote_def K wireKindSample_def wireKindDisconnect_def wireKindEvict_def)
    moreover have "showsSame (op_step str op a) (g b)"
      using o(2) evict_views [OF ap(2)] quiet_views(1,2) [OF ap(2)] ap(3) quiet_views(7,8) [OF ap(1)]
        evict_views [OF quiet_views(7) [OF ap(1)]] quiet_views(1,2) [OF quiet_views(7) [OF ap(1)]]
      by (auto simp: showsSame_def o(1) publishLifecycle_def fun_eq_iff)
    ultimately show "showsSame (op_step str op a) (applyRemote parse now' ?e b)
        \<and> hlPodID (applyRemote parse now' ?e b) = hlPodID b \<and> hlPub (applyRemote parse now' ?e b) = hlPub b" for now'
      using o(2) by auto
  qed simp
  note still = subscribe_views [OF ap(1)] quiet_views [OF ap(1)]
  note D = Init_def InitConference_def Subscribe_def SubscribeConference_def
  show thesis
  proof (cases op)
    case (HoRecord now c e s)
    then show ?thesis using rec [of "callSession c" e "[]" s now c] op by (simp add: Record_def)
  next
    case (HoRecordEdge now c e p s)
    then show ?thesis using rec [of "confSession c" e p s now _ c] op by (simp add: RecordEdge_def)
  next
    case (HoEvict c)
    then show ?thesis using life [of "evictSession (callSession c)" wireKindEvict "callSession c" "[]" c] op by (simp add: Evict_def)
  next
    case (HoEvictConference c)
    then show ?thesis using life [of "evictSession (confSession c)" wireKindEvict "confSession c" "[]" _ c] op by (simp add: EvictConference_def)
  next
    case (HoNotify c who)
    then show ?thesis using life [of "notifyDisconnectedSession (callSession c) who" wireKindDisconnect "callSession c" who c] op
      by (simp add: NotifyDisconnected_def)
  next
    case (HoNotifyConference c who)
    then show ?thesis using life [of "notifyDisconnectedSession (confSession c) who" wireKindDisconnect "confSession c" who _ c] op
      by (simp add: NotifyDisconnectedConference_def)
  qed (use none a ap still in \<open>simp_all add: D showsSame_def\<close>)
qed

definition hears :: "(string \<Rightarrow> uuid option) \<Rightarrow> (int \<times> healthEnvelope) list \<Rightarrow> HealthStore \<Rightarrow> HealthStore" where
  "hears parse tes h = fold (\<lambda>(now, e). redisMessage parse now (Some e)) tes h"

lemma publish_grows: "hlPub (publishEnv e h) = hlPub h @ (if hlClient h then [e\<lparr>hePodID := hlPodID h\<rparr>] else [])"
  by (simp add: publishEnv_def)

lemma pub_grows: "\<exists>es. hlPub (op_step str op h) = hlPub h @ es"
  by (cases op) (simp_all add: Init_def InitConference_def Record_def RecordEdge_def Evict_def EvictConference_def
      NotifyDisconnected_def NotifyDisconnectedConference_def Subscribe_def SubscribeConference_def publishSample_def
      publishLifecycle_def publish_grows)

lemma pubs_grow: "\<exists>es. hlPub (fold (op_step str) ops h) = hlPub h @ es"
proof (induction ops arbitrary: h)
  case (Cons op ops)
  then show ?case using pub_grows [of str op h] by (metis append.assoc fold_simps(2))
qed simp

lemma pods_run:
  assumes uuid: "\<And>c. c \<noteq> 0 \<Longrightarrow> str c \<noteq> [] \<and> parse (str c) = Some c"
  shows "hlClient a \<Longrightarrow> hlPodID a \<noteq> hlPodID b \<Longrightarrow> list_all op_ok ops \<Longrightarrow> showsSame a b
    \<Longrightarrow> hlPub (fold (op_step str) ops a) = hlPub a @ map snd tes
    \<Longrightarrow> showsSame (fold (op_step str) ops a) (hears parse tes b) \<and> hlPub (hears parse tes b) = hlPub b"
proof (induction ops arbitrary: a b tes)
  case Nil
  then show ?case by (simp add: hears_def)
next
  case (Cons op ops)
  let ?a = "op_step str op a"
  have ok: "op_ok op" using Cons.prems by simp
  obtain es where es: "hlPub ?a = hlPub a @ es" "hlClient ?a" "hlPodID ?a = hlPodID a"
    "\<And>tes. map snd tes = es \<Longrightarrow> showsSame ?a (fold (\<lambda>(now, e). redisMessage parse now (Some e)) tes b)
      \<and> hlPodID (fold (\<lambda>(now, e). redisMessage parse now (Some e)) tes b) = hlPodID b
      \<and> hlPub (fold (\<lambda>(now, e). redisMessage parse now (Some e)) tes b) = hlPub b"
    by (rule pods_step [where str = str and parse = parse, OF uuid Cons.prems(1,2) ok Cons.prems(4)]) auto
  obtain fs where fs: "hlPub (fold (op_step str) ops ?a) = hlPub ?a @ fs" using pubs_grow by blast
  then have "map snd tes = es @ fs" using Cons.prems(5) es(1) by simp
  then obtain t1 t2 where t: "tes = t1 @ t2" "map snd t1 = es" "map snd t2 = fs" by (metis map_eq_append_conv)
  let ?b = "hears parse t1 b"
  have b: "showsSame ?a ?b" "hlPodID ?b = hlPodID b" "hlPub ?b = hlPub b" using es(4) [OF t(2)] by (simp_all add: hears_def)
  show ?case using Cons.IH [of ?a ?b t2] es(2,3) b Cons.prems(2,3) fs t by (simp add: hears_def)
qed


text \<open>A conference and a call on one pod.\<close>

definition servedHere :: "healthOp list" where
  "servedHere = [HoInit 0 5, HoRecord 1 5 ''a'' (someSample 1234567), HoRecordEdge 1 2 ''b'' ''c'' (someSample 7), HoSubscribe 2 5,
     HoNotify 5 ''eve'', HoEvict 5, HoRecordEdge 3 2 ''b'' ''c'' (someSample 5000001)]"

definition podA :: HealthStore where
  "podA = fold (op_step (\<lambda>c. replicate c CHR ''x'')) servedHere (SetRedis True ''A'' (NewHealthStore True))"

definition podB :: HealthStore where
  "podB = hears (\<lambda>s. Some (length s)) (map (Pair 9) (hlPub podA)) (SetRedis True ''B'' (NewHealthStore True))"


end
