(* ===== verification/Mailbox.thy ===== *)
theory Mailbox
  imports GoMap "HOL-Library.Word"
begin

text \<open>
  The answering machine's mailbox, \<^verbatim>\<open>internal/voicemail/store.go\<close>: a directory of files
  that the phone writes while callers talk, and that has to survive a power cut at any moment.

  The directory maps names to nodes, a node is the bytes of a file and whether they reached the
  disk with an fsync; open files hold the node and a position, so a file that is removed or
  renamed stays readable and writable.  Every system call may fail, and \<open>fsPower\<close> counts the
  calls that still change the disk before the power fails.  The JSON text of the metadata is a parameter.
\<close>

unbundle bit_operations_syntax

type_synonym bytes = "8 word list"

section \<open>The directory\<close>

record fileNode =
  fnData :: bytes
  fnSynced :: bool

record FS =
  fsNames :: "(string \<times> nat) list"
  fsNodes :: "fileNode list"
  fsPower :: "nat option"

datatype sysCall = ReadDirCall | ReadCall string | OpenCall string | SyncCall string
  | CloseCall string | RenameCall string | RemoveCall string

text \<open>\<open>syWrote\<close>: how many bytes of a failing write reach the file; \<^const>\<open>None\<close>: the write is complete.\<close>

record sys =
  syOk :: "sysCall \<Rightarrow> bool"
  syWrote :: "string \<Rightarrow> nat option"

definition powered :: "(FS \<Rightarrow> FS) \<Rightarrow> FS \<Rightarrow> FS" where
  "powered g fs =
     (case fsPower fs of None \<Rightarrow> (g fs)\<lparr>fsPower := None\<rparr>
      | Some 0 \<Rightarrow> fs
      | Some (Suc n) \<Rightarrow> (g fs)\<lparr>fsPower := Some n\<rparr>)"

definition content :: "string \<Rightarrow> FS \<Rightarrow> bytes option" where
  "content name fs = map_option (\<lambda>i. fnData (fsNodes fs ! i)) (map_of (fsNames fs) name)"

text \<open>\<open>os.OpenFile\<close> with \<open>O_CREATE | O_WRONLY | O_TRUNC\<close>.\<close>

definition truncNode :: "string \<Rightarrow> FS \<Rightarrow> FS" where
  "truncNode name fs =
     (case map_of (fsNames fs) name of
        Some i \<Rightarrow> fs\<lparr>fsNodes := (fsNodes fs)[i := \<lparr>fnData = [], fnSynced = False\<rparr>]\<rparr>
      | None \<Rightarrow> fs\<lparr>fsNames := mput name (length (fsNodes fs)) (fsNames fs),
                   fsNodes := fsNodes fs @ [\<lparr>fnData = [], fnSynced = False\<rparr>]\<rparr>)"

definition openTrunc :: "sys \<Rightarrow> string \<Rightarrow> FS \<Rightarrow> nat option \<times> FS" where
  "openTrunc y name fs =
     (if \<not> syOk y (OpenCall name) then (None, fs)
      else let fs = powered (truncNode name) fs
           in (Some (case map_of (fsNames fs) name of Some i \<Rightarrow> i | None \<Rightarrow> length (fsNodes fs)), fs))"

definition updNode :: "nat \<Rightarrow> (fileNode \<Rightarrow> fileNode) \<Rightarrow> FS \<Rightarrow> FS" where
  "updNode i g fs = fs\<lparr>fsNodes := (fsNodes fs)[i := g (fsNodes fs ! i)]\<rparr>"

text \<open>A write past the end leaves zeros between.\<close>

definition writeAt :: "nat \<Rightarrow> bytes \<Rightarrow> bytes \<Rightarrow> bytes" where
  "writeAt off bs old =
     take off old @ replicate (off - length old) 0 @ bs @ drop (off + length bs) old"

definition writeNode :: "nat \<Rightarrow> nat \<Rightarrow> bytes \<Rightarrow> FS \<Rightarrow> FS" where
  "writeNode i off bs = powered (updNode i (\<lambda>n. \<lparr>fnData = writeAt off bs (fnData n), fnSynced = False\<rparr>))"

definition syncNode :: "nat \<Rightarrow> FS \<Rightarrow> FS" where
  "syncNode i = powered (updNode i (\<lambda>n. n\<lparr>fnSynced := True\<rparr>))"

definition renameFile :: "string \<Rightarrow> string \<Rightarrow> FS \<Rightarrow> FS" where
  "renameFile a b =
     powered (\<lambda>fs. case map_of (fsNames fs) a of None \<Rightarrow> fs
                   | Some i \<Rightarrow> fs\<lparr>fsNames := mput b i (mdel a (fsNames fs))\<rparr>)"

datatype removed = Removed | NotExist | RemoveFailed

definition removeFile :: "sys \<Rightarrow> string \<Rightarrow> FS \<Rightarrow> removed \<times> FS" where
  "removeFile y name fs =
     (if map_of (fsNames fs) name = None then (NotExist, fs)
      else if \<not> syOk y (RemoveCall name) then (RemoveFailed, fs)
      else (Removed, powered (\<lambda>fs. fs\<lparr>fsNames := mdel name (fsNames fs)\<rparr>) fs))"

text \<open>The power fails: what was not synced is whatever the disk has of it.\<close>

definition crash :: "(nat \<Rightarrow> bytes) \<Rightarrow> FS \<Rightarrow> FS" where
  "crash torn fs =
     fs\<lparr>fsNodes := map (\<lambda>i. if fnSynced (fsNodes fs ! i) then fsNodes fs ! i
                             else \<lparr>fnData = torn i, fnSynced = False\<rparr>) [0..<length (fsNodes fs)],
        fsPower := None\<rparr>"

section \<open>Names\<close>

fun natDec :: "nat \<Rightarrow> string" where
  "natDec n = (if n < 10 then [char_of (48 + n)] else natDec (n div 10) @ [char_of (48 + n mod 10)])"

declare natDec.simps [simp del]

text \<open>\<open>fmt.Sprintf("%d")\<close> and \<open>strconv.ParseInt(s, 10, 64)\<close>.\<close>

definition intDec :: "int \<Rightarrow> string" where
  "intDec i = (if i < 0 then CHR ''-'' # natDec (nat (- i)) else natDec (nat i))"

definition isDigit :: "char \<Rightarrow> bool" where
  "isDigit c \<longleftrightarrow> 48 \<le> (of_char c :: nat) \<and> (of_char c :: nat) \<le> 57"

definition decVal :: "string \<Rightarrow> int" where
  "decVal s = foldl (\<lambda>a c. 10 * a + (int (of_char c) - 48)) 0 s"

definition parseID :: "string \<Rightarrow> int option" where
  "parseID s =
     (let neg = (take 1 s = ''-'');
          ds = (if neg \<or> take 1 s = ''+'' then drop 1 s else s);
          v = (if neg then - decVal ds else decVal ds)
      in if ds = [] \<or> \<not> list_all isDigit ds \<or> v < - (2 ^ 63) \<or> 2 ^ 63 \<le> v then None else Some v)"

text \<open>\<open>filepath.Ext\<close> of a name without a slash.\<close>

definition fileExt :: "string \<Rightarrow> string" where
  "fileExt s = (if CHR ''.'' \<in> set s then CHR ''.'' # rev (takeWhile (\<lambda>c. c \<noteq> CHR ''.'') (rev s)) else [])"

definition framesPath :: "int \<Rightarrow> string" where
  "framesPath i = intDec i @ ''.frames''"

definition metaPath :: "int \<Rightarrow> string" where
  "metaPath i = intDec i @ ''.meta''"

definition greetingFile :: string where "greetingFile = ''greeting.frames''"

definition tmpOf :: "string \<Rightarrow> string" where
  "tmpOf s = s @ ''.tmp''"

section \<open>Messages\<close>

text \<open>Milliseconds; \<^const>\<open>None\<close> is the zero time.\<close>

record metaFile =
  mfHeard :: bool
  mfDurationMs :: int
  mfRecordedAt :: "int option"

definition noMeta :: metaFile where
  "noMeta = \<lparr>mfHeard = False, mfDurationMs = 0, mfRecordedAt = None\<rparr>"

record json =
  jsMarshal :: "metaFile \<Rightarrow> bytes"
  jsUnmarshal :: "bytes \<Rightarrow> metaFile option"

record Message =
  msID :: int
  msHeard :: bool
  msDuration :: int
  msPath :: string
  msRecordedAt :: int

definition opusFrameMs :: int where "opusFrameMs = 20"
definition greetingMaxDuration :: int where "greetingMaxDuration = 60 * 1000"
definition messageMaxDuration :: int where "messageMaxDuration = 10 * 60 * 1000"

definition framesForDuration :: "int \<Rightarrow> int" where
  "framesForDuration d = (if d \<le> 0 then 0 else d div opusFrameMs)"

definition readMeta :: "json \<Rightarrow> sys \<Rightarrow> int \<Rightarrow> FS \<Rightarrow> metaFile option" where
  "readMeta js y i fs =
     (case content (metaPath i) fs of None \<Rightarrow> Some noMeta
      | Some bs \<Rightarrow> if \<not> syOk y (ReadCall (metaPath i)) then None else jsUnmarshal js bs)"

definition writeMeta :: "json \<Rightarrow> sys \<Rightarrow> int \<Rightarrow> metaFile \<Rightarrow> FS \<Rightarrow> bool \<times> FS" where
  "writeMeta js y i m fs =
     (let tmp = tmpOf (metaPath i); bs = jsMarshal js m in
      case openTrunc y tmp fs of
        (None, fs) \<Rightarrow> (False, fs)
      | (Some k, fs) \<Rightarrow>
          case syWrote y tmp of
            Some n \<Rightarrow> (False, snd (removeFile y tmp (writeNode k 0 (take n bs) fs)))
          | None \<Rightarrow>
              let fs = writeNode k 0 bs fs in
              if \<not> syOk y (SyncCall tmp) then (False, snd (removeFile y tmp fs))
              else let fs = syncNode k fs in
                   if \<not> syOk y (CloseCall tmp) then (False, snd (removeFile y tmp fs))
                   else if \<not> syOk y (RenameCall tmp) then (False, fs)
                   else (True, renameFile tmp (metaPath i) fs))"

definition messageOf :: "json \<Rightarrow> sys \<Rightarrow> FS \<Rightarrow> string \<Rightarrow> Message option" where
  "messageOf js y fs name =
     (if fileExt name \<noteq> ''.frames'' then None
      else case parseID (take (length name - 7) name) of None \<Rightarrow> None
        | Some i \<Rightarrow>
            let m = (case readMeta js y i fs of None \<Rightarrow> noMeta | Some m \<Rightarrow> m)
            in Some \<lparr>msID = i, msHeard = mfHeard m, msDuration = mfDurationMs m, msPath = name,
                     msRecordedAt = (case mfRecordedAt m of None \<Rightarrow> i | Some t \<Rightarrow> t)\<rparr>)"

definition listLocked :: "json \<Rightarrow> sys \<Rightarrow> FS \<Rightarrow> Message list option" where
  "listLocked js y fs =
     (if \<not> syOk y ReadDirCall then None
      else Some (sort_key msID (List.map_filter (messageOf js y fs) (mkeys (fsNames fs)))))"

definition UnheardCount :: "json \<Rightarrow> sys \<Rightarrow> FS \<Rightarrow> nat option" where
  "UnheardCount js y fs = map_option (\<lambda>ms. length (filter (\<lambda>m. \<not> msHeard m) ms)) (listLocked js y fs)"

definition MarkHeard :: "json \<Rightarrow> sys \<Rightarrow> int \<Rightarrow> FS \<Rightarrow> bool \<times> FS" where
  "MarkHeard js y i fs =
     (case readMeta js y i fs of None \<Rightarrow> (False, fs)
      | Some m \<Rightarrow> if mfHeard m then (True, fs) else writeMeta js y i (m\<lparr>mfHeard := True\<rparr>) fs)"

definition removeMessageLocked :: "sys \<Rightarrow> int \<Rightarrow> FS \<Rightarrow> bool \<times> FS" where
  "removeMessageLocked y i fs =
     (case removeFile y (framesPath i) fs of
        (RemoveFailed, fs) \<Rightarrow> (False, fs)
      | (_, fs) \<Rightarrow> (case removeFile y (metaPath i) fs of
          (RemoveFailed, fs) \<Rightarrow> (False, fs)
        | (_, fs) \<Rightarrow> (True, fs)))"

abbreviation DeleteMessage :: "sys \<Rightarrow> int \<Rightarrow> FS \<Rightarrow> bool \<times> FS" where
  "DeleteMessage \<equiv> removeMessageLocked"

fun removeMessages :: "sys \<Rightarrow> int list \<Rightarrow> FS \<Rightarrow> bool \<times> FS" where
  "removeMessages y [] fs = (True, fs)"
| "removeMessages y (i # ks) fs =
     (case removeMessageLocked y i fs of (False, fs) \<Rightarrow> (False, fs) | (True, fs) \<Rightarrow> removeMessages y ks fs)"

definition evictLocked :: "json \<Rightarrow> sys \<Rightarrow> int \<Rightarrow> FS \<Rightarrow> bool \<times> FS" where
  "evictLocked js y maxMessages fs =
     (if maxMessages \<le> 0 then (True, fs)
      else case listLocked js y fs of None \<Rightarrow> (False, fs)
        | Some ms \<Rightarrow> removeMessages y (map msID (take (length ms - nat maxMessages) ms)) fs)"

fun removeTmps :: "sys \<Rightarrow> string list \<Rightarrow> FS \<Rightarrow> bool \<times> FS" where
  "removeTmps y [] fs = (True, fs)"
| "removeTmps y (n # ns) fs =
     (if fileExt n = ''.tmp'' then
        (case removeFile y n fs of (Removed, fs) \<Rightarrow> removeTmps y ns fs | (_, fs) \<Rightarrow> (False, fs))
      else removeTmps y ns fs)"

definition cleanOrphans :: "sys \<Rightarrow> FS \<Rightarrow> bool \<times> FS" where
  "cleanOrphans y fs =
     (if \<not> syOk y ReadDirCall then (False, fs) else removeTmps y (mkeys (fsNames fs)) fs)"

text \<open>\<open>Open\<close> on a directory that exists; a failing cleanup is logged.\<close>

definition OpenStore :: "sys \<Rightarrow> FS \<Rightarrow> FS" where
  "OpenStore y fs = snd (cleanOrphans y fs)"

section \<open>Recording\<close>

definition putUint32 :: "32 word \<Rightarrow> bytes" where
  "putUint32 w = [ucast w, ucast (drop_bit 8 w), ucast (drop_bit 16 w), ucast (drop_bit 24 w)]"

definition getUint32 :: "bytes \<Rightarrow> 32 word" where
  "getUint32 bs = ucast (bs ! 0) OR push_bit 8 (ucast (bs ! 1)) OR push_bit 16 (ucast (bs ! 2))
     OR push_bit 24 (ucast (bs ! 3))"

definition frameBytes :: "bytes \<Rightarrow> bytes" where
  "frameBytes p = putUint32 (of_nat (length p)) @ p"

record Recorder =
  rcID :: int
  rcTmp :: string
  rcFinal :: string
  rcNode :: nat
  rcOff :: nat
  rcFrames :: int
  rcMax :: int
  rcClosed :: bool

definition openRecorderLocked :: "sys \<Rightarrow> int \<Rightarrow> string \<Rightarrow> int \<Rightarrow> FS \<Rightarrow> Recorder option \<times> FS" where
  "openRecorderLocked y i final maxDuration fs =
     (case openTrunc y (tmpOf final) fs of
        (None, fs) \<Rightarrow> (None, fs)
      | (Some k, fs) \<Rightarrow>
          (Some \<lparr>rcID = i, rcTmp = tmpOf final, rcFinal = final, rcNode = k, rcOff = 0, rcFrames = 0,
                 rcMax = framesForDuration maxDuration, rcClosed = False\<rparr>, fs))"

definition BeginRecording :: "sys \<Rightarrow> int \<Rightarrow> FS \<Rightarrow> Recorder option \<times> FS" where
  "BeginRecording y now fs = openRecorderLocked y now (framesPath now) messageMaxDuration fs"

definition BeginGreetingRecording :: "sys \<Rightarrow> FS \<Rightarrow> Recorder option \<times> FS" where
  "BeginGreetingRecording y fs = openRecorderLocked y 0 greetingFile greetingMaxDuration fs"

datatype recError = ErrRecorderClosed | PayloadTooLarge | WriteFailed

text \<open>\<open>syWrote\<close> of the temporary file counts the bytes of header and payload.\<close>

definition AppendFrame :: "sys \<Rightarrow> bytes \<Rightarrow> Recorder \<times> FS \<Rightarrow> (recError + bool) \<times> Recorder \<times> FS" where
  "AppendFrame y payload c =
     (case c of (r, fs) \<Rightarrow>
      if rcClosed r then (Inl ErrRecorderClosed, r, fs)
      else if 65535 < int (length payload) then (Inl PayloadTooLarge, r, fs)
      else case syWrote y (rcTmp r) of
          Some n \<Rightarrow>
            let bs = take n (frameBytes payload)
            in (Inl WriteFailed, r\<lparr>rcOff := rcOff r + length bs\<rparr>, writeNode (rcNode r) (rcOff r) bs fs)
        | None \<Rightarrow>
            let bs = frameBytes payload;
                fs = writeNode (rcNode r) (rcOff r) bs fs;
                r = r\<lparr>rcOff := rcOff r + length bs, rcFrames := rcFrames r + 1\<rparr>
            in (Inr (rcMax r > 0 \<and> rcFrames r \<ge> rcMax r), r, fs))"

definition recDuration :: "Recorder \<Rightarrow> int" where
  "recDuration r = rcFrames r * opusFrameMs"

text \<open>The sum's left side is any of the errors; \<^term>\<open>Inr None\<close> the empty recording.\<close>

definition Finalize :: "json \<Rightarrow> sys \<Rightarrow> int \<Rightarrow> Recorder \<times> FS \<Rightarrow> (unit + Message option) \<times> Recorder \<times> FS" where
  "Finalize js y maxMessages c =
     (case c of (r, fs) \<Rightarrow>
      if rcClosed r then (Inl (), r, fs)
      else
        let r = r\<lparr>rcClosed := True\<rparr>; tmp = rcTmp r in
        if rcFrames r = 0 then (Inr None, r, snd (removeFile y tmp fs))
        else if \<not> syOk y (SyncCall tmp) then (Inl (), r, snd (removeFile y tmp fs))
        else let fs = syncNode (rcNode r) fs in
          if \<not> syOk y (CloseCall tmp) then (Inl (), r, snd (removeFile y tmp fs))
          else if \<not> syOk y (RenameCall tmp) then (Inl (), r, snd (removeFile y tmp fs))
          else let fs = renameFile tmp (rcFinal r) fs in
            if rcID r = 0 then
              (Inr (Some \<lparr>msID = 0, msHeard = False, msDuration = recDuration r, msPath = rcFinal r, msRecordedAt = 0\<rparr>), r, fs)
            else case writeMeta js y (rcID r)
                   \<lparr>mfHeard = False, mfDurationMs = recDuration r, mfRecordedAt = Some (rcID r)\<rparr> fs of
                (False, fs) \<Rightarrow> (Inl (), r, fs)
              | (True, fs) \<Rightarrow>
                  (Inr (Some \<lparr>msID = rcID r, msHeard = False, msDuration = recDuration r, msPath = rcFinal r,
                               msRecordedAt = rcID r\<rparr>), r, snd (evictLocked js y maxMessages fs)))"

definition DiscardRec :: "sys \<Rightarrow> Recorder \<times> FS \<Rightarrow> Recorder \<times> FS" where
  "DiscardRec y c =
     (case c of (r, fs) \<Rightarrow>
      if rcClosed r then (r, fs) else (r\<lparr>rcClosed := True\<rparr>, snd (removeFile y (rcTmp r) fs)))"

section \<open>Playing\<close>

record Player =
  plNode :: nat
  plOff :: nat

definition openPlayerAt :: "sys \<Rightarrow> string \<Rightarrow> FS \<Rightarrow> Player option" where
  "openPlayerAt y name fs =
     (if syOk y (OpenCall name) then map_option (\<lambda>k. \<lparr>plNode = k, plOff = 0\<rparr>) (map_of (fsNames fs) name) else None)"

definition OpenPlayer :: "sys \<Rightarrow> int \<Rightarrow> FS \<Rightarrow> Player option" where
  "OpenPlayer y i = openPlayerAt y (framesPath i)"

definition OpenGreeting :: "sys \<Rightarrow> FS \<Rightarrow> Player option" where
  "OpenGreeting y = openPlayerAt y greetingFile"

definition DeleteGreeting :: "sys \<Rightarrow> FS \<Rightarrow> bool \<times> FS" where
  "DeleteGreeting y fs = (case removeFile y greetingFile fs of (r, fs) \<Rightarrow> (r \<noteq> RemoveFailed, fs))"

text \<open>The next frame of what is left of a file and how many bytes it takes; \<^const>\<open>None\<close> is the end.\<close>

definition splitFrame :: "bytes \<Rightarrow> (bytes \<times> bytes) option" where
  "splitFrame bs =
     (if length bs < 4 then None
      else let n = unat (getUint32 bs); body = drop 4 bs
           in if length body < n then None else Some (take n body, drop n body))"

text \<open>What was read of a truncated frame is consumed.\<close>

datatype playResult = PlayFrame bytes | PlayEOF | PlayFailed

definition NextFrame :: "bool \<Rightarrow> FS \<Rightarrow> Player \<Rightarrow> playResult \<times> Player" where
  "NextFrame ok fs p =
     (if \<not> ok then (PlayFailed, p)
      else let d = fnData (fsNodes fs ! plNode p) in
        case splitFrame (drop (plOff p) d) of
          None \<Rightarrow> (PlayEOF, p\<lparr>plOff := max (plOff p) (length d)\<rparr>)
        | Some (f, rest) \<Rightarrow> (PlayFrame f, p\<lparr>plOff := plOff p + 4 + length f\<rparr>))"

function framesOf :: "bytes \<Rightarrow> bytes list" where
  "framesOf bs = (case splitFrame bs of None \<Rightarrow> [] | Some (f, rest) \<Rightarrow> f # framesOf rest)"
  by auto
termination
  by (relation "measure length") (auto simp: splitFrame_def Let_def split: if_splits)

declare framesOf.simps [simp del]

end
