(* ===== verification/Playback.thy ===== *)
theory Playback
  imports Mailbox
begin

text \<open>
  Listening to the messages, \<^verbatim>\<open>cmd/digitsd/voicemail.go\<close>: dialling *98 plays the unheard messages oldest
  first and then the saved ones, while the keypad deletes, saves, skips and replays.

  \<open>vm\<close> is the part of \<open>daemonCallbacks\<close> under \<open>voicemailMu\<close>, with the store's directory.
  Sessions are kept in a list, as the code compares pointers to them.  A goroutine is a task; a move
  runs one up to the next point at which it leaves the lock or waits: spoken clips and one frame
  of sound are such points.  The calls out are a log.
\<close>

record playSession =
  psID :: int
  psNumber :: nat
  psSaved :: bool
  psPlayer :: Player
  psCancelled :: bool
  psClosed :: nat

datatype vmOut = Clips "string list" | PlayedFrame bytes | AddSource | RemoveSource
  | CallResetToDialtone | DialTone | SetLED string | PublishUnheard nat

datatype vmTask =
  TNoMessages
  | TIntro nat | TFlag nat nat
  | TStart nat | TDecoder nat | TLoop nat
  | TNoNew | TSaved bool | TSavedCount bool | TSavedOpen
  | TExit

text \<open>\<open>vmStore\<close>: there is a store; \<open>vmSource\<close>: \<open>voicemailMixerCh\<close> is set; \<open>vmLast\<close> is \<open>publishVMLast\<close>.\<close>

record vm =
  vmFS :: FS
  vmStore :: bool
  vmEnabled :: bool
  vmPeer :: string
  vmSessions :: "playSession list"
  vmPlayback :: "nat option"
  vmSource :: bool
  vmAnnounceNumbers :: bool
  vmMessageSeq :: nat
  vmSavedQueue :: "int list"
  vmSavedCursor :: int
  vmLast :: int
  vmTasks :: "vmTask list"
  vmOut :: "vmOut list"

definition say :: "vmOut list \<Rightarrow> vm \<Rightarrow> vm" where
  "say os v = v\<lparr>vmOut := vmOut v @ os\<rparr>"

definition spawnVm :: "vmTask \<Rightarrow> vm \<Rightarrow> vm" where
  "spawnVm t v = v\<lparr>vmTasks := vmTasks v @ [t]\<rparr>"

section \<open>Spoken phrases\<close>

definition spoken :: "nat \<Rightarrow> string" where
  "spoken n = ''spoken_'' @ natDec n"

definition countPhraseClips :: "nat \<Rightarrow> string \<Rightarrow> string \<Rightarrow> string list" where
  "countPhraseClips count singular plural =
     (if count = 0 then []
      else [''vm_you_have'', spoken (min count 9), if count = 1 then singular else plural])"

definition messageNumberClips :: "nat \<Rightarrow> string list" where
  "messageNumberClips number =
     (if number = 0 then [] else if number > 9 then [''vm_message''] else [''vm_message'', spoken number])"

definition sayClips :: "string list \<Rightarrow> vm \<Rightarrow> vm" where
  "sayClips cs v = (if cs = [] then v else say [Clips cs] v)"

definition announceMessageCount :: "nat \<Rightarrow> vm \<Rightarrow> vm" where
  "announceMessageCount count v =
     (if count = 0 then say [Clips [''vm_no_messages'']] v
      else say [Clips (countPhraseClips count ''vm_new_message'' ''vm_new_messages'')] v)"

definition announceMessageNumber :: "nat \<Rightarrow> vm \<Rightarrow> vm" where
  "announceMessageNumber number = sayClips (messageNumberClips number)"

definition announceSavedCount :: "nat \<Rightarrow> vm \<Rightarrow> vm" where
  "announceSavedCount count = sayClips (countPhraseClips count ''vm_saved_message'' ''vm_saved_messages'')"

section \<open>The indicator and the server\<close>

definition ledModeWithVoicemailHint :: "json \<Rightarrow> sys \<Rightarrow> string \<Rightarrow> vm \<Rightarrow> string" where
  "ledModeWithVoicemailHint js y mode v =
     (if mode \<noteq> ''OFF'' then mode
      else if \<not> vmStore v \<or> \<not> vmEnabled v then mode
      else case UnheardCount js y (vmFS v) of None \<Rightarrow> mode
        | Some n \<Rightarrow> if n > 0 then ''SLOWER_PULSE'' else mode)"

definition evaluateLED :: "json \<Rightarrow> sys \<Rightarrow> vm \<Rightarrow> vm" where
  "evaluateLED js y v = say [SetLED (ledModeWithVoicemailHint js y ''OFF'' v)] v"

text \<open>\<open>sent\<close>: the send succeeds.\<close>

definition publishVoicemailState :: "json \<Rightarrow> sys \<Rightarrow> bool \<Rightarrow> bool \<Rightarrow> vm \<Rightarrow> vm" where
  "publishVoicemailState js y sent force v =
     (if \<not> vmStore v then v
      else case UnheardCount js y (vmFS v) of None \<Rightarrow> v
        | Some n \<Rightarrow>
            if \<not> force \<and> int n = vmLast v then v
            else if \<not> sent then v
            else say [PublishUnheard n] (v\<lparr>vmLast := int n\<rparr>))"

section \<open>Sessions\<close>

definition updSession :: "nat \<Rightarrow> (playSession \<Rightarrow> playSession) \<Rightarrow> vm \<Rightarrow> vm" where
  "updSession i g v = v\<lparr>vmSessions := (vmSessions v)[i := g (vmSessions v ! i)]\<rparr>"

definition closeMixerSourceLocked :: "vm \<Rightarrow> vm" where
  "closeMixerSourceLocked v = (if \<not> vmSource v then v else say [RemoveSource] (v\<lparr>vmSource := False\<rparr>))"

definition newPlaybackSessionLocked :: "int \<Rightarrow> nat \<Rightarrow> bool \<Rightarrow> Player \<Rightarrow> vm \<Rightarrow> nat \<times> vm" where
  "newPlaybackSessionLocked i number saved player v =
     (length (vmSessions v),
      v\<lparr>vmSessions := vmSessions v @ [\<lparr>psID = i, psNumber = number, psSaved = saved, psPlayer = player,
                                       psCancelled = False, psClosed = 0\<rparr>],
        vmPlayback := Some (length (vmSessions v))\<rparr>)"

definition teardownPlaybackLocked :: "vm \<Rightarrow> vm" where
  "teardownPlaybackLocked v =
     (case vmPlayback v of None \<Rightarrow> v
      | Some i \<Rightarrow> (updSession i (\<lambda>s. s\<lparr>psCancelled := True, psClosed := psClosed s + 1\<rparr>) v)\<lparr>vmPlayback := None\<rparr>)"

text \<open>The first of \<open>ids\<close> whose player opens.\<close>

fun openFirst :: "sys \<Rightarrow> int list \<Rightarrow> FS \<Rightarrow> (int \<times> Player) option" where
  "openFirst y [] fs = None"
| "openFirst y (i # ids) fs = (case OpenPlayer y i fs of None \<Rightarrow> openFirst y ids fs | Some p \<Rightarrow> Some (i, p))"

text \<open>\<^const>\<open>Inl\<close>: the list could not be read.\<close>

definition openNextUnheardLocked :: "json \<Rightarrow> sys \<Rightarrow> int \<Rightarrow> vm \<Rightarrow> (unit + nat option) \<times> vm" where
  "openNextUnheardLocked js y afterID v =
     (case listLocked js y (vmFS v) of None \<Rightarrow> (Inl (), v)
      | Some ms \<Rightarrow>
          (case openFirst y (map msID (filter (\<lambda>m. \<not> msHeard m \<and> afterID < msID m) ms)) (vmFS v) of
             None \<Rightarrow> (Inr None, v)
           | Some (i, p) \<Rightarrow>
               let v = v\<lparr>vmMessageSeq := vmMessageSeq v + 1\<rparr>;
                   (s, v) = newPlaybackSessionLocked i (vmMessageSeq v) False p v
               in (Inr (Some s), v)))"

definition snapshotSavedQueueLocked :: "json \<Rightarrow> sys \<Rightarrow> vm \<Rightarrow> vm" where
  "snapshotSavedQueueLocked js y v =
     (let v = v\<lparr>vmSavedQueue := [], vmSavedCursor := -1\<rparr> in
      case listLocked js y (vmFS v) of None \<Rightarrow> v
      | Some ms \<Rightarrow> v\<lparr>vmSavedQueue := map msID (filter msHeard ms)\<rparr>)"

text \<open>The loop over the queue from the cursor, \<open>n\<close> places before its end.\<close>

fun openSaved :: "sys \<Rightarrow> nat \<Rightarrow> vm \<Rightarrow> nat option \<times> vm" where
  "openSaved y n v =
     (let v = v\<lparr>vmSavedCursor := vmSavedCursor v + 1\<rparr> in
      if vmSavedCursor v \<ge> int (length (vmSavedQueue v)) then (None, v)
      else case OpenPlayer y (vmSavedQueue v ! nat (vmSavedCursor v)) (vmFS v) of
          None \<Rightarrow> (case n of 0 \<Rightarrow> (None, v) | Suc n \<Rightarrow> openSaved y n v)
        | Some p \<Rightarrow>
            (case newPlaybackSessionLocked (vmSavedQueue v ! nat (vmSavedCursor v)) 0 True p v of (s, v) \<Rightarrow> (Some s, v)))"

declare openSaved.simps [simp del]

definition openNextSavedLocked :: "sys \<Rightarrow> vm \<Rightarrow> nat option \<times> vm" where
  "openNextSavedLocked y v = openSaved y (nat (int (length (vmSavedQueue v)) - vmSavedCursor v)) v"

definition reopenLocked :: "sys \<Rightarrow> int \<Rightarrow> nat \<Rightarrow> bool \<Rightarrow> vm \<Rightarrow> (unit + nat option) \<times> vm" where
  "reopenLocked y i number saved v =
     (case OpenPlayer y i (vmFS v) of None \<Rightarrow> (Inl (), v)
      | Some p \<Rightarrow> (case newPlaybackSessionLocked i number saved p v of (s, v) \<Rightarrow> (Inr (Some s), v)))"


section \<open>Entering and leaving\<close>

definition VoicemailEnterPlayback :: "json \<Rightarrow> sys \<Rightarrow> vm \<Rightarrow> vm" where
  "VoicemailEnterPlayback js y v =
     (if vmPeer v \<noteq> [] then spawnVm TExit v
      else if \<not> vmStore v then spawnVm TExit v
      else
        let v = say [AddSource] (v\<lparr>vmSource := True, vmMessageSeq := 0, vmAnnounceNumbers := False\<rparr>);
            v = snapshotSavedQueueLocked js y v
        in case openNextUnheardLocked js y 0 v of
            (Inl _, v) \<Rightarrow> spawnVm TExit (closeMixerSourceLocked v)
          | (Inr (Some s), v) \<Rightarrow> spawnVm (TIntro s) v
          | (Inr None, v) \<Rightarrow>
              if vmSavedQueue v = [] then spawnVm TNoMessages (closeMixerSourceLocked v)
              else spawnVm TNoNew v)"

definition VoicemailExitPlayback :: "json \<Rightarrow> sys \<Rightarrow> vm \<Rightarrow> vm" where
  "VoicemailExitPlayback js y v =
     evaluateLED js y ((closeMixerSourceLocked (teardownPlaybackLocked v))\<lparr>vmSavedQueue := [], vmSavedCursor := -1\<rparr>)"

definition exitToDialtone :: "json \<Rightarrow> sys \<Rightarrow> vm \<Rightarrow> vm" where
  "exitToDialtone js y v = evaluateLED js y (say [CallResetToDialtone, DialTone] v)"

definition publishIf :: "json \<Rightarrow> sys \<Rightarrow> bool \<Rightarrow> bool \<Rightarrow> vm \<Rightarrow> vm" where
  "publishIf js y sent mutated v = (if mutated then publishVoicemailState js y sent False v else v)"

definition deleteMsg :: "sys \<Rightarrow> int \<Rightarrow> vm \<Rightarrow> bool \<times> vm" where
  "deleteMsg y i v = (case DeleteMessage y i (vmFS v) of (ok, fs) \<Rightarrow> (ok, v\<lparr>vmFS := fs\<rparr>))"

definition markMsg :: "json \<Rightarrow> sys \<Rightarrow> int \<Rightarrow> vm \<Rightarrow> bool \<times> vm" where
  "markMsg js y i v = (case MarkHeard js y i (vmFS v) of (ok, fs) \<Rightarrow> (ok, v\<lparr>vmFS := fs\<rparr>))"

section \<open>Keys\<close>

text \<open>What a key does under the lock: whether the store changed, and the next session.\<close>

definition keyNext :: "json \<Rightarrow> sys \<Rightarrow> string \<Rightarrow> playSession \<Rightarrow> vm \<Rightarrow> bool \<times> (unit + nat option) \<times> vm" where
  "keyNext js y digit s v =
     (if psSaved s then
        if digit = ''7'' then
          (case deleteMsg y (psID s) v of (ok, v) \<Rightarrow> (case openNextSavedLocked y v of (r, v) \<Rightarrow> (ok, Inr r, v)))
        else if digit = ''*'' then (False, reopenLocked y (psID s) 0 True v)
        else (case openNextSavedLocked y v of (r, v) \<Rightarrow> (False, Inr r, v))
      else
        if digit = ''7'' then
          (case deleteMsg y (psID s) v of (ok, v) \<Rightarrow> (ok, openNextUnheardLocked js y 0 v))
        else if digit = ''9'' then
          (case markMsg js y (psID s) v of (ok, v) \<Rightarrow> (ok, openNextUnheardLocked js y 0 v))
        else if digit = ''#'' then (False, openNextUnheardLocked js y (psID s) v)
        else (False, reopenLocked y (psID s) (psNumber s) False v))"

definition actionClip :: "string \<Rightarrow> bool \<Rightarrow> string list" where
  "actionClip digit saved =
     (if digit = ''7'' then [''vm_message_deleted'']
      else if digit = ''9'' \<and> \<not> saved then [''vm_message_saved'']
      else [])"

definition VoicemailKey :: "json \<Rightarrow> sys \<Rightarrow> bool \<Rightarrow> string \<Rightarrow> vm \<Rightarrow> vm" where
  "VoicemailKey js y sent digit v =
     (if digit \<notin> {''7'', ''9'', ''#'', ''*''} then v
      else if \<not> vmStore v then v
      else case vmPlayback v of None \<Rightarrow> v
        | Some c \<Rightarrow>
            let s = vmSessions v ! c; clip = actionClip digit (psSaved s) in
            (case keyNext js y digit s (teardownPlaybackLocked v) of
               (mutated, Inl _, v) \<Rightarrow>
                 exitToDialtone js y (publishIf js y sent mutated (closeMixerSourceLocked v))
             | (mutated, Inr (Some n), v) \<Rightarrow>
                 spawnVm (TStart n) (sayClips clip (publishIf js y sent mutated v))
             | (mutated, Inr None, v) \<Rightarrow>
                 if \<not> psSaved s \<and> vmSavedQueue v \<noteq> [] then
                   spawnVm (TSaved False) (sayClips clip (publishIf js y sent mutated v))
                 else
                   spawnVm TExit (say [Clips (clip @ [''vm_end_of_messages''])]
                     (publishIf js y sent mutated (closeMixerSourceLocked v)))))"

section \<open>Playing\<close>

definition voicemailAdvanceFromEOF :: "json \<Rightarrow> sys \<Rightarrow> bool \<Rightarrow> nat \<Rightarrow> vm \<Rightarrow> vm" where
  "voicemailAdvanceFromEOF js y sent c v =
     (if \<not> vmStore v then v
      else if vmPlayback v \<noteq> Some c then v
      else
        let s = vmSessions v ! c; v = teardownPlaybackLocked v in
        if psSaved s then
          (case openNextSavedLocked y v of
             (Some n, v) \<Rightarrow> spawnVm (TStart n) v
           | (None, v) \<Rightarrow> spawnVm TExit (say [Clips [''vm_end_of_messages'']] (closeMixerSourceLocked v)))
        else
          (case markMsg js y (psID s) v of (mutated, v) \<Rightarrow>
           (case openNextUnheardLocked js y 0 v of
              (Inl _, v) \<Rightarrow> exitToDialtone js y (publishIf js y sent mutated (closeMixerSourceLocked v))
            | (Inr (Some n), v) \<Rightarrow> spawnVm (TStart n) (publishIf js y sent mutated v)
            | (Inr None, v) \<Rightarrow>
                if vmSavedQueue v \<noteq> [] then spawnVm (TSaved False) (publishIf js y sent mutated v)
                else spawnVm TExit (say [Clips [''vm_end_of_messages'']]
                       (publishIf js y sent mutated (closeMixerSourceLocked v))))))"

text \<open>\<open>read\<close> and \<open>decodes\<close>: the frame can be read and decoded, or the decoder be made.\<close>

record vmRun =
  rnSys :: sys
  rnSent :: bool
  rnRead :: bool
  rnDecodes :: bool

definition loopStart :: "nat \<Rightarrow> vm \<Rightarrow> vm" where
  "loopStart c v =
     (if \<not> vmSource v then
        spawnVm TExit (closeMixerSourceLocked (if vmPlayback v = Some c then teardownPlaybackLocked v else v))
      else
        let s = vmSessions v ! c in
        if vmAnnounceNumbers v \<and> \<not> psSaved s then
          if psCancelled s then v else spawnVm (TDecoder c) (announceMessageNumber (psNumber s) v)
        else spawnVm (TDecoder c) v)"

definition loopStep :: "json \<Rightarrow> vmRun \<Rightarrow> nat \<Rightarrow> vm \<Rightarrow> vm" where
  "loopStep js e c v =
     (let s = vmSessions v ! c in
      if psCancelled s then v
      else case NextFrame (rnRead e) (vmFS v) (psPlayer s) of (r, p) \<Rightarrow>
        let v = updSession c (\<lambda>s. s\<lparr>psPlayer := p\<rparr>) v in
        (case r of
           PlayFrame f \<Rightarrow> spawnVm (TLoop c) (if rnDecodes e then say [PlayedFrame f] v else v)
         | _ \<Rightarrow> voicemailAdvanceFromEOF js (rnSys e) (rnSent e) c v))"

fun runTask :: "json \<Rightarrow> vmRun \<Rightarrow> vmTask \<Rightarrow> vm \<Rightarrow> vm" where
  "runTask js e TNoMessages v = spawnVm TExit (say [Clips [''vm_no_messages'']] v)"
| "runTask js e (TIntro c) v =
     (case UnheardCount js (rnSys e) (vmFS v) of
        None \<Rightarrow> spawnVm (TStart c) (say [Clips [''vm_playback_controls'']] v)
      | Some n \<Rightarrow> spawnVm (TFlag c n) (announceMessageCount n v))"
| "runTask js e (TFlag c n) v =
     spawnVm (TStart c) (say [Clips [''vm_playback_controls'']] (v\<lparr>vmAnnounceNumbers := (n \<ge> 2)\<rparr>))"
| "runTask js e (TStart c) v = loopStart c v"
| "runTask js e (TDecoder c) v =
     (if rnDecodes e then spawnVm (TLoop c) v else voicemailAdvanceFromEOF js (rnSys e) (rnSent e) c v)"
| "runTask js e (TLoop c) v = loopStep js e c v"
| "runTask js e TNoNew v = spawnVm (TSaved True) (say [Clips [''vm_no_new_messages'']] v)"
| "runTask js e (TSaved controls) v =
     spawnVm (TSavedCount controls) (if controls then v else say [Clips [''vm_saved_next'']] v)"
| "runTask js e (TSavedCount controls) v =
     spawnVm TSavedOpen
       ((if controls then say [Clips [''vm_playback_controls'']] else id) (announceSavedCount (length (vmSavedQueue v)) v))"
| "runTask js e TSavedOpen v =
     (case openNextSavedLocked (rnSys e) v of
        (Some n, v) \<Rightarrow> spawnVm (TStart n) v
      | (None, v) \<Rightarrow> spawnVm TExit (say [Clips [''vm_end_of_messages'']] (closeMixerSourceLocked v)))"
| "runTask js e TExit v = exitToDialtone js (rnSys e) v"

text \<open>\<open>VmStore\<close> is whatever else happens to the directory: a recording, an eviction.\<close>

datatype vmMove = VmEnter sys | VmExit sys | VmKey sys bool string | VmRun nat vmRun | VmStore "FS \<Rightarrow> FS"

fun vm_step :: "json \<Rightarrow> vmMove \<Rightarrow> vm \<Rightarrow> vm" where
  "vm_step js (VmEnter y) v = VoicemailEnterPlayback js y v"
| "vm_step js (VmExit y) v = VoicemailExitPlayback js y v"
| "vm_step js (VmKey y sent digit) v = VoicemailKey js y sent digit v"
| "vm_step js (VmRun n e) v =
     (if n < length (vmTasks v) then runTask js e (vmTasks v ! n) (v\<lparr>vmTasks := remove_nth n (vmTasks v)\<rparr>) else v)"
| "vm_step js (VmStore g) v = v\<lparr>vmFS := g (vmFS v)\<rparr>"

definition newVm :: "bool \<Rightarrow> bool \<Rightarrow> FS \<Rightarrow> vm" where
  "newVm store enabled fs = \<lparr>vmFS = fs, vmStore = store, vmEnabled = enabled, vmPeer = [], vmSessions = [], vmPlayback = None,
     vmSource = False, vmAnnounceNumbers = False, vmMessageSeq = 0, vmSavedQueue = [], vmSavedCursor = 0, vmLast = -1,
     vmTasks = [], vmOut = []\<rparr>"

end
