(* ===== verification/Mailbox_Disk.thy ===== *)
theory Mailbox_Disk
  imports Mailbox
begin

text \<open>
  What the mailbox is built from: frames written one after the other are read back one by one
  (\<open>framesOf_encoded\<close>), file names determine the message and never clash (\<open>paths_inj\<close>,
  \<open>not_tmp\<close>), and every change of the directory keeps \<open>disk_ok\<close>, whether the power
  holds or not, and leaves alone the files under final names that it does not name (\<open>kept\<close>).
\<close>

section \<open>Frames\<close>

lemma getUint32_putUint32 [simp]: "getUint32 (putUint32 w @ r) = w"
proof (rule bit_word_eqI)
  fix n assume n: "n < LENGTH(32)"
  consider "n < 8" | "8 \<le> n" "n < 16" | "16 \<le> n" "n < 24" | "24 \<le> n" by linarith
  then show "bit (getUint32 (putUint32 w @ r)) n = bit w n"
    by cases (use n in \<open>auto simp: getUint32_def putUint32_def bit_simps\<close>)
qed

lemma length_putUint32 [simp]: "length (putUint32 w) = 4"
  by (simp add: putUint32_def)

lemma drop4_putUint32 [simp]: "drop 4 (putUint32 w @ r) = r"
  by (simp add: putUint32_def)

lemma length_frameBytes [simp]: "length (frameBytes p) = 4 + length p"
  by (simp add: frameBytes_def)

lemma frame_length [simp]: "n \<le> 65535 \<Longrightarrow> unat (of_nat n :: 32 word) = n"
  by (simp add: unat_of_nat take_bit_nat_eq_self)

lemma splitFrame_frameBytes [simp]:
  "length p \<le> 65535 \<Longrightarrow> splitFrame (frameBytes p @ r) = Some (p, r)"
  by (simp add: splitFrame_def frameBytes_def Let_def)

lemma framesOf_Nil [simp]: "framesOf [] = []"
  by (simp add: framesOf.simps splitFrame_def)

lemma framesOf_frameBytes [simp]: "length p \<le> 65535 \<Longrightarrow> framesOf (frameBytes p @ r) = p # framesOf r"
  by (simp add: framesOf.simps [of "frameBytes p @ r"])

abbreviation shortFrames :: "bytes list \<Rightarrow> bool" where
  "shortFrames fs \<equiv> list_all (\<lambda>p. length p \<le> 65535) fs"

definition encoded :: "bytes list \<Rightarrow> bytes" where
  "encoded fs = concat (map frameBytes fs)"

lemma encoded_simps [simp]: "encoded [] = []" "encoded (fs @ [p]) = encoded fs @ frameBytes p"
  by (simp_all add: encoded_def)

lemma framesOf_encoded: "shortFrames fs \<Longrightarrow> framesOf (encoded fs @ r) = fs @ framesOf r"
  by (induction fs) (auto simp: encoded_def)

lemma framesOf_of_encoded [simp]: "shortFrames fs \<Longrightarrow> framesOf (encoded fs) = fs"
  using framesOf_encoded [of fs "[]"] by simp

text \<open>A file that breaks off in a frame plays what is complete.\<close>

lemma splitFrame_cut:
  assumes "length p \<le> 65535" and "n < length (frameBytes p)"
  shows "splitFrame (take n (frameBytes p)) = None"
proof (cases "n < 4")
  case False
  then have "take n (frameBytes p) = putUint32 (of_nat (length p)) @ take (n - 4) p"
    by (simp add: frameBytes_def)
  then show ?thesis using assms False by (simp add: splitFrame_def Let_def)
qed (simp add: splitFrame_def)

lemma framesOf_cut:
  assumes "length p \<le> 65535" and "n < length (frameBytes p)"
  shows "framesOf (take n (frameBytes p)) = []"
  by (subst framesOf.simps) (simp add: splitFrame_cut [OF assms])

section \<open>Names\<close>

lemma natDec_digits: "list_all isDigit (natDec n) \<and> natDec n \<noteq> []"
proof (induction n rule: natDec.induct)
  case (1 n)
  have d: "isDigit (char_of (48 + k))" if "k < 10" for k :: nat
    using that by (simp add: isDigit_def of_char_of)
  show ?case
  proof (cases "n < 10")
    case True
    then show ?thesis using d [of n] by (simp add: natDec.simps [of n])
  next
    case False
    then show ?thesis using 1 d [of "n mod 10"] by (simp add: natDec.simps [of n])
  qed
qed

lemma decVal_snoc: "decVal (s @ [c]) = 10 * decVal s + (int (of_char c) - 48)"
  by (simp add: decVal_def)

lemma decVal_natDec [simp]: "decVal (natDec n) = int n"
proof (induction n rule: natDec.induct)
  case (1 n)
  have d: "(of_char (char_of (48 + k) :: char) :: nat) = 48 + k" if "k < 10" for k :: nat
    using that by (simp add: of_char_of)
  show ?case
  proof (cases "n < 10")
    case True
    then show ?thesis using d [of n] by (simp add: natDec.simps [of n] decVal_def)
  next
    case False
    moreover have "int n = 10 * int (n div 10) + int (n mod 10)" by presburger
    ultimately show ?thesis using 1 d [of "n mod 10"] by (simp add: natDec.simps [of n] decVal_snoc)
  qed
qed

lemma natDec_head: "natDec n = c # s \<Longrightarrow> c \<noteq> CHR ''-'' \<and> c \<noteq> CHR ''+''"
  using natDec_digits [of n] by (auto simp: isDigit_def)

lemma parseID_intDec:
  assumes "- (2 ^ 63) \<le> i" and "i < 2 ^ 63"
  shows "parseID (intDec i) = Some i"
proof -
  obtain c s where cs: "natDec (nat i) = c # s" using natDec_digits [of "nat i"] by (cases "natDec (nat i)") auto
  then show ?thesis
    using assms natDec_digits [of "nat i"] natDec_digits [of "nat (- i)"] natDec_head [OF cs]
      decVal_natDec [of "nat i", unfolded cs]
    by (auto simp: parseID_def intDec_def Let_def)
qed

lemma intDec_inj: "intDec i = intDec j \<longleftrightarrow> i = j"
proof
  have c: "- decVal (drop 1 (intDec i)) = i" if "take 1 (intDec i) = ''-''" for i
  proof -
    have "i < 0"
    proof (rule ccontr)
      assume "\<not> i < 0"
      then show False using that natDec_digits [of "nat i"] natDec_head [of "nat i"]
        by (cases "natDec (nat i)") (auto simp: intDec_def)
    qed
    then show ?thesis by (simp add: intDec_def)
  qed
  have d: "decVal (intDec i) = i" if "take 1 (intDec i) \<noteq> ''-''" for i
    using that by (auto simp: intDec_def split: if_splits)
  assume "intDec i = intDec j"
  then show "i = j" using c [of i] c [of j] d [of i] d [of j] by (metis (full_types))
qed simp

lemma no_dot: "CHR ''.'' \<notin> set (intDec i)"
  using natDec_digits [of "nat i"] natDec_digits [of "nat (- i)"]
  by (auto simp: intDec_def list_all_iff isDigit_def)

lemma fileExt_dot: "CHR ''.'' \<notin> set e \<Longrightarrow> fileExt (s @ CHR ''.'' # e) = CHR ''.'' # e"
proof -
  assume "CHR ''.'' \<notin> set e"
  then have "takeWhile (\<lambda>c. c \<noteq> CHR ''.'') (rev e @ CHR ''.'' # rev s) = rev e"
    by (subst takeWhile_append2) auto
  then show ?thesis by (simp add: fileExt_def)
qed

lemma fileExt_paths [simp]:
  "fileExt (framesPath i) = ''.frames''" "fileExt (metaPath i) = ''.meta''"
  "fileExt greetingFile = ''.frames''" "fileExt (tmpOf s) = ''.tmp''"
  using fileExt_dot [of "''frames''" "intDec i"] fileExt_dot [of "''meta''" "intDec i"]
    fileExt_dot [of "''tmp''" s] fileExt_dot [of "''frames''" "''greeting''"]
  by (simp_all add: framesPath_def metaPath_def greetingFile_def tmpOf_def)

lemma paths_inj [simp]: "framesPath i = framesPath j \<longleftrightarrow> i = j" "metaPath i = metaPath j \<longleftrightarrow> i = j"
  "tmpOf a = tmpOf b \<longleftrightarrow> a = b"
  by (auto simp: framesPath_def metaPath_def tmpOf_def intDec_inj)

lemma not_tmp [simp]: "framesPath i \<noteq> tmpOf s" "metaPath i \<noteq> tmpOf s" "greetingFile \<noteq> tmpOf s"
  "tmpOf s \<noteq> framesPath i" "tmpOf s \<noteq> metaPath i" "tmpOf s \<noteq> greetingFile"
  by (rule notI, drule arg_cong [of _ _ fileExt], simp)+

lemma frames_not_meta [simp]: "framesPath i \<noteq> metaPath j" "metaPath j \<noteq> framesPath i"
  "greetingFile \<noteq> metaPath j" "metaPath j \<noteq> greetingFile"
  by (rule notI, drule arg_cong [of _ _ fileExt], simp)+

lemma frames_not_greeting [simp]: "framesPath i \<noteq> greetingFile" "greetingFile \<noteq> framesPath i"
proof -
  show "framesPath i \<noteq> greetingFile"
  proof
    assume "framesPath i = greetingFile"
    then have "intDec i @ ''.frames'' = ''greeting'' @ ''.frames''" by (simp add: framesPath_def greetingFile_def)
    then have "intDec i = ''greeting''" by (subst (asm) append_same_eq)
    then show False using natDec_digits [of "nat i"]
      by (auto simp: intDec_def isDigit_def split: if_splits)
  qed
  then show "greetingFile \<noteq> framesPath i" by metis
qed

lemma parse_frames: "0 \<le> i \<Longrightarrow> i < 2 ^ 63 \<Longrightarrow> parseID (take (length (framesPath i) - 7) (framesPath i)) = Some i"
  by (simp add: framesPath_def parseID_intDec)

lemma greeting_no_id [simp]: "parseID (take (length greetingFile - 7) greetingFile) = None"
  by (simp add: greetingFile_def parseID_def isDigit_def)

section \<open>The disk\<close>

definition isTmp :: "string \<Rightarrow> bool" where
  "isTmp n \<longleftrightarrow> fileExt n = ''.tmp''"

lemma isTmp_simps [simp]: "isTmp (tmpOf s)" "\<not> isTmp (framesPath i)" "\<not> isTmp (metaPath i)" "\<not> isTmp greetingFile"
  by (simp_all add: isTmp_def)

text \<open>
  The files under a final name are synced; no two names share a node; \<open>R\<close> are the
  temporary names that open recorders write to, with their nodes.
\<close>

definition disk_ok :: "(string \<times> nat) set \<Rightarrow> FS \<Rightarrow> bool" where
  "disk_ok R fs \<longleftrightarrow> mwf (fsNames fs)
     \<and> (\<forall>n m i. map_of (fsNames fs) n = Some i \<longrightarrow> map_of (fsNames fs) m = Some i \<longrightarrow> n = m)
     \<and> (\<forall>n i. map_of (fsNames fs) n = Some i \<longrightarrow>
           i < length (fsNodes fs) \<and> (\<not> isTmp n \<longrightarrow> fnSynced (fsNodes fs ! i)))
     \<and> (\<forall>(t, i) \<in> R. isTmp t \<and> map_of (fsNames fs) t = Some i)"

text \<open>A node that has no temporary name is never written again.\<close>

definition frozen :: "FS \<Rightarrow> nat \<Rightarrow> bool" where
  "frozen fs j \<longleftrightarrow> j < length (fsNodes fs) \<and> (\<forall>n. map_of (fsNames fs) n = Some j \<longrightarrow> \<not> isTmp n)"

definition kept :: "string set \<Rightarrow> FS \<Rightarrow> FS \<Rightarrow> bool" where
  "kept N fs fs' \<longleftrightarrow>
     (\<forall>n. \<not> isTmp n \<longrightarrow> n \<notin> N \<longrightarrow> map_of (fsNames fs') n = map_of (fsNames fs) n)
     \<and> (\<forall>j. frozen fs j \<longrightarrow> frozen fs' j \<and> fsNodes fs' ! j = fsNodes fs ! j)"

lemma kept_refl [simp, intro]: "kept N fs fs"
  by (simp add: kept_def)

lemma kept_trans [trans]: "kept N a b \<Longrightarrow> kept M b c \<Longrightarrow> kept (N \<union> M) a c"
  by (auto simp: kept_def)

lemma kept_mono: "kept N a b \<Longrightarrow> N \<subseteq> M \<Longrightarrow> kept M a b"
  by (auto simp: kept_def)

lemma kept_step: "kept N a b \<Longrightarrow> kept N b c \<Longrightarrow> kept N a c"
  by (auto simp: kept_def)

lemma disk_mono: "disk_ok R fs \<Longrightarrow> R' \<subseteq> R \<Longrightarrow> disk_ok R' fs"
  by (fastforce simp: disk_ok_def)

lemma final_frozen: "disk_ok R fs \<Longrightarrow> map_of (fsNames fs) n = Some i \<Longrightarrow> \<not> isTmp n \<Longrightarrow> frozen fs i"
  unfolding disk_ok_def frozen_def by metis

lemma kept_content:
  assumes "kept N fs fs'" and "disk_ok R fs" and "\<not> isTmp n" and "n \<notin> N"
  shows "content n fs' = content n fs"
proof (cases "map_of (fsNames fs) n")
  case (Some i)
  then show ?thesis using assms final_frozen [OF assms(2) Some assms(3)] by (auto simp: kept_def content_def)
qed (use assms in \<open>auto simp: kept_def content_def\<close>)

lemma power_irrelevant [simp]: "disk_ok R (fs\<lparr>fsPower := p\<rparr>) = disk_ok R fs"
  "kept N a (fs\<lparr>fsPower := p\<rparr>) = kept N a fs" "kept N (a\<lparr>fsPower := p\<rparr>) fs = kept N a fs"
  "content n (fs\<lparr>fsPower := p\<rparr>) = content n fs" "frozen (fs\<lparr>fsPower := p\<rparr>) j = frozen fs j"
  by (simp_all add: disk_ok_def kept_def content_def frozen_def)

text \<open>A call either changes nothing, the power being off, or does its work.\<close>

lemma powered_cases:
  obtains (off) "powered g fs = fs" "fsPower fs = Some 0"
    | (on) p where "powered g fs = (g fs)\<lparr>fsPower := p\<rparr>" "fsPower fs \<noteq> Some 0" "fsPower fs = None \<longrightarrow> p = None"
proof (cases "fsPower fs")
  case None
  then show ?thesis using on [of None] by (simp add: powered_def)
next
  case (Some n)
  then show ?thesis using off on by (cases n) (auto simp: powered_def)
qed

definition off :: "FS \<Rightarrow> bool" where "off fs \<longleftrightarrow> fsPower fs = Some 0"

lemma powered_off [simp]: "off fs \<Longrightarrow> powered g fs = fs"
  by (simp add: off_def powered_def)

text \<open>The recorder's file is named and counted, unless the power is off.\<close>

definition live_ok :: "string \<Rightarrow> nat \<Rightarrow> (string \<times> nat) set \<Rightarrow> FS \<Rightarrow> bool" where
  "live_ok t k R fs \<longleftrightarrow> disk_ok R fs \<and> (off fs \<or> disk_ok (insert (t, k) R) fs)"

lemma truncNode_ok:
  assumes "disk_ok R fs" and "isTmp name" and "name \<notin> fst ` R"
  shows "kept {} fs (truncNode name fs)"
    and "\<exists>k. map_of (fsNames (truncNode name fs)) name = Some k \<and> disk_ok (insert (name, k) R) (truncNode name fs)"
proof -
  have names: "mwf (fsNames fs)" and R: "\<forall>(t, i) \<in> R. isTmp t \<and> map_of (fsNames fs) t = Some i"
    and inj: "\<And>n m i. map_of (fsNames fs) n = Some i \<Longrightarrow> map_of (fsNames fs) m = Some i \<Longrightarrow> n = m"
    and nodes: "\<And>n i. map_of (fsNames fs) n = Some i \<Longrightarrow>
           i < length (fsNodes fs) \<and> (\<not> isTmp n \<longrightarrow> fnSynced (fsNodes fs ! i))"
    using assms(1) unfolding disk_ok_def by blast+
  have "kept {} fs (truncNode name fs) \<and>
    (\<exists>k. map_of (fsNames (truncNode name fs)) name = Some k \<and> disk_ok (insert (name, k) R) (truncNode name fs))"
  proof (cases "map_of (fsNames fs) name")
    case None
    have "map_of (fsNames fs) n \<noteq> Some (length (fsNodes fs))" for n
      using nodes [of n "length (fsNodes fs)"] by auto
    then show ?thesis
      using None assms names R nodes inj
      by (fastforce simp: truncNode_def kept_def frozen_def disk_ok_def nth_append split: if_splits)
  next
    case (Some i)
    have "n = name" "isTmp n" if "map_of (fsNames fs) n = Some i" for n
      using inj [OF that Some] assms(2) by auto
    then show ?thesis
      using Some assms names R nodes inj
      by (auto simp: truncNode_def kept_def frozen_def disk_ok_def nth_list_update)
  qed
  then show "kept {} fs (truncNode name fs)"
    and "\<exists>k. map_of (fsNames (truncNode name fs)) name = Some k \<and> disk_ok (insert (name, k) R) (truncNode name fs)"
    by auto
qed

lemma openTrunc_ok:
  assumes "disk_ok R fs" and "isTmp name" and "name \<notin> fst ` R" and "openTrunc y name fs = (r, fs')"
  shows "kept {} fs fs'" and "disk_ok R fs'" and "r = Some k \<Longrightarrow> live_ok name k R fs'"
proof -
  have *: "kept {} fs fs' \<and> disk_ok R fs' \<and> (\<forall>k. r = Some k \<longrightarrow> live_ok name k R fs')"
  proof (cases "syOk y (OpenCall name)")
    case True
    show ?thesis
    proof (cases rule: powered_cases [of "truncNode name" fs])
      case off
      then show ?thesis using assms True by (auto simp: openTrunc_def Let_def live_ok_def off_def)
    next
      case (on p)
      obtain k where k: "map_of (fsNames (truncNode name fs)) name = Some k" "disk_ok (insert (name, k) R) (truncNode name fs)"
        and kept: "kept {} fs (truncNode name fs)"
        using truncNode_ok [OF assms(1-3)] by auto
      have fs': "fs' = (truncNode name fs)\<lparr>fsPower := p\<rparr>" and r: "r = Some k"
        using assms(4) True k by (simp_all add: openTrunc_def Let_def on(1) split: option.splits)
      have "disk_ok R (truncNode name fs)" by (rule disk_mono [OF k(2)]) auto
      then show ?thesis using k(2) kept r by (simp add: fs' live_ok_def)
    qed
  qed (use assms in \<open>auto simp: openTrunc_def\<close>)
  then show "kept {} fs fs'" "disk_ok R fs'" "r = Some k \<Longrightarrow> live_ok name k R fs'" by auto
qed

lemma updNode_ok:
  assumes "disk_ok (insert (t, k) R) fs"
  shows "disk_ok (insert (t, k) R) (updNode k g fs)" and "kept {} fs (updNode k g fs)"
proof -
  have "n = t" "isTmp n" if "map_of (fsNames fs) n = Some k" for n
    using assms that by (auto simp: disk_ok_def)
  then show "disk_ok (insert (t, k) R) (updNode k g fs)" "kept {} fs (updNode k g fs)"
    using assms by (auto simp: disk_ok_def kept_def frozen_def updNode_def nth_list_update)
qed

lemma powered_updNode_ok:
  assumes "live_ok t k R fs"
  shows "live_ok t k R (powered (updNode k g) fs)" and "kept {} fs (powered (updNode k g) fs)"
proof -
  have "live_ok t k R (powered (updNode k g) fs) \<and> kept {} fs (powered (updNode k g) fs)"
    by (cases rule: powered_cases [of "updNode k g" fs])
      (use assms updNode_ok [of t k R fs g] in
        \<open>auto simp: live_ok_def off_def intro: disk_mono [of "insert (t, k) R"]\<close>)
  then show "live_ok t k R (powered (updNode k g) fs)" "kept {} fs (powered (updNode k g) fs)" by auto
qed

lemmas writeNode_ok = powered_updNode_ok [where g = "\<lambda>n. \<lparr>fnData = writeAt off bs (fnData n), fnSynced = False\<rparr>" for off bs,
    folded writeNode_def]

lemmas syncNode_ok = powered_updNode_ok [where g = "\<lambda>n. n\<lparr>fnSynced := True\<rparr>", folded syncNode_def]

lemma syncNode_synced:
  assumes "live_ok t k R fs"
  shows "off (syncNode k fs) \<or> fnSynced (fsNodes (syncNode k fs) ! k)"
proof (cases rule: powered_cases [of "updNode k (\<lambda>n. n\<lparr>fnSynced := True\<rparr>)" fs])
  case (on p)
  then have "disk_ok (insert (t, k) R) fs" using assms by (simp add: live_ok_def off_def)
  then have "k < length (fsNodes fs)" by (auto simp: disk_ok_def)
  then show ?thesis using on by (simp add: syncNode_def updNode_def)
qed (simp add: syncNode_def off_def)

lemma renameFile_ok:
  assumes "live_ok t k R fs" and "off fs \<or> fnSynced (fsNodes fs ! k)" and "\<not> isTmp b" and "t \<notin> fst ` R"
  shows "disk_ok R (renameFile t b fs)" and "kept {b} fs (renameFile t b fs)"
    and "off fs \<or> map_of (fsNames (renameFile t b fs)) b = Some k"
proof -
  let ?g = "\<lambda>fs. case map_of (fsNames fs) t of None \<Rightarrow> fs
                   | Some i \<Rightarrow> fs\<lparr>fsNames := mput b i (mdel t (fsNames fs))\<rparr>"
  have "disk_ok R (renameFile t b fs) \<and> kept {b} fs (renameFile t b fs)
      \<and> (off fs \<or> map_of (fsNames (renameFile t b fs)) b = Some k)"
  proof (cases rule: powered_cases [of ?g fs])
    case off
    then show ?thesis using assms by (simp add: renameFile_def live_ok_def off_def)
  next
    case (on p)
    then have d: "disk_ok (insert (t, k) R) fs" "fnSynced (fsNodes fs ! k)"
      using assms by (auto simp: live_ok_def off_def)
    have t: "map_of (fsNames fs) t = Some k" "isTmp t" using d(1) by (auto simp: disk_ok_def)
    have names: "mwf (fsNames fs)" and R: "\<And>u i. (u, i) \<in> R \<Longrightarrow> isTmp u \<and> map_of (fsNames fs) u = Some i"
      and inj: "\<And>n m i. map_of (fsNames fs) n = Some i \<Longrightarrow> map_of (fsNames fs) m = Some i \<Longrightarrow> n = m"
      and nodes: "\<And>n i. map_of (fsNames fs) n = Some i \<Longrightarrow>
           i < length (fsNodes fs) \<and> (\<not> isTmp n \<longrightarrow> fnSynced (fsNodes fs ! i))"
      using d(1) unfolding disk_ok_def by blast+
    have "b \<noteq> t" using t assms by auto
    have "disk_ok R (fs\<lparr>fsNames := mput b k (mdel t (fsNames fs))\<rparr>)"
      unfolding disk_ok_def using names R inj nodes t d(2) assms(3,4) by (force simp: image_iff split: if_splits)
    moreover have "kept {b} fs (fs\<lparr>fsNames := mput b k (mdel t (fsNames fs))\<rparr>)"
      using t assms(3) by (auto simp: kept_def frozen_def split: if_splits)
    ultimately show ?thesis using on t by (simp add: renameFile_def)
  qed
  then show "disk_ok R (renameFile t b fs)" "kept {b} fs (renameFile t b fs)"
    "off fs \<or> map_of (fsNames (renameFile t b fs)) b = Some k" by auto
qed

lemma removeName_ok:
  assumes "disk_ok R fs" and "name \<notin> fst ` R"
  shows "disk_ok R (fs\<lparr>fsNames := mdel name (fsNames fs)\<rparr>)" and "kept {name} fs (fs\<lparr>fsNames := mdel name (fsNames fs)\<rparr>)"
proof -
  have "t \<noteq> name" if "(t, i) \<in> R" for t i using that assms(2) by force
  then show "disk_ok R (fs\<lparr>fsNames := mdel name (fsNames fs)\<rparr>)"
    using assms(1) by (auto simp: disk_ok_def)
  show "kept {name} fs (fs\<lparr>fsNames := mdel name (fsNames fs)\<rparr>)"
    by (auto simp: kept_def frozen_def)
qed

lemma removeFile_ok:
  assumes "disk_ok R fs" and "name \<notin> fst ` R"
  shows "disk_ok R (snd (removeFile y name fs))" and "kept {name} fs (snd (removeFile y name fs))"
proof -
  have "disk_ok R (powered (\<lambda>fs. fs\<lparr>fsNames := mdel name (fsNames fs)\<rparr>) fs)
      \<and> kept {name} fs (powered (\<lambda>fs. fs\<lparr>fsNames := mdel name (fsNames fs)\<rparr>) fs)"
    by (cases rule: powered_cases [of "\<lambda>fs. fs\<lparr>fsNames := mdel name (fsNames fs)\<rparr>" fs])
      (use assms removeName_ok [OF assms] in auto)
  then show "disk_ok R (snd (removeFile y name fs))" "kept {name} fs (snd (removeFile y name fs))"
    using assms by (auto simp: removeFile_def)
qed

lemma kept_tmp: "kept {t} fs fs' \<Longrightarrow> isTmp t \<Longrightarrow> kept {} fs fs'"
  by (auto simp: kept_def)

lemma crash_ok:
  assumes "disk_ok R fs"
  shows "disk_ok {} (crash torn fs)" and "\<not> isTmp n \<Longrightarrow> content n (crash torn fs) = content n fs"
proof -
  show "disk_ok {} (crash torn fs)"
    using assms by (auto simp: disk_ok_def crash_def)
  show "content n (crash torn fs) = content n fs" if "\<not> isTmp n"
    using assms that by (cases "map_of (fsNames fs) n") (auto simp: disk_ok_def crash_def content_def)
qed

end
