(* ===== verification/Playback_Props.thy ===== *)
theory Playback_Props
  imports Playback Mailbox_Runs
begin

text \<open>
  What holds of the sessions of \<open>Playback\<close> whatever the order of keys, hang-ups and goroutines: a
  session that is not the current one is cancelled and its player closed exactly once (\<open>vm_inv\<close>),
  frames are only heard of the current one, and what playing changes on the disk is exactly what
  the keys say.
\<close>

section \<open>Sessions\<close>

fun sessionOf :: "vmTask \<Rightarrow> nat list" where
  "sessionOf (TIntro c) = [c]" | "sessionOf (TFlag c n) = [c]" | "sessionOf (TStart c) = [c]"
| "sessionOf (TDecoder c) = [c]" | "sessionOf (TLoop c) = [c]" | "sessionOf _ = []"

fun toSaved :: "vmTask \<Rightarrow> bool" where
  "toSaved TNoNew = True" | "toSaved (TSaved b) = True" | "toSaved (TSavedCount b) = True"
| "toSaved TSavedOpen = True" | "toSaved _ = False"

definition session_ok :: "vm \<Rightarrow> nat \<Rightarrow> bool" where
  "session_ok v c \<longleftrightarrow>
     (if vmPlayback v = Some c then \<not> psCancelled (vmSessions v ! c) \<and> psClosed (vmSessions v ! c) = 0
      else psCancelled (vmSessions v ! c) \<and> psClosed (vmSessions v ! c) = 1)"

definition vm_inv :: "vm \<Rightarrow> bool" where
  "vm_inv v \<longleftrightarrow> (\<forall>c < length (vmSessions v). session_ok v c)
     \<and> (\<forall>c. vmPlayback v = Some c \<longrightarrow> c < length (vmSessions v) \<and> vmSource v \<and> \<not> list_ex toSaved (vmTasks v))
     \<and> length (filter toSaved (vmTasks v)) \<le> 1
     \<and> (vmSource v \<longrightarrow> vmPlayback v \<noteq> None \<or> list_ex toSaved (vmTasks v))
     \<and> (list_ex toSaved (vmTasks v) \<longrightarrow> vmSource v \<or> vmSavedQueue v = [])
     \<and> distinct (concat (map sessionOf (vmTasks v)))
     \<and> (\<forall>c \<in> set (concat (map sessionOf (vmTasks v))). c < length (vmSessions v))"

text \<open>
  The user goes on hook before dialling *98 again, and the announcements of the last session are
  over by then.
\<close>

fun vm_ok :: "vmMove \<Rightarrow> vm \<Rightarrow> bool" where
  "vm_ok (VmEnter y) v \<longleftrightarrow> vmPlayback v = None \<and> \<not> list_ex toSaved (vmTasks v)"
| "vm_ok _ v \<longleftrightarrow> True"

lemmas vm_defs = say_def spawnVm_def sayClips_def announceMessageCount_def announceMessageNumber_def announceSavedCount_def
  evaluateLED_def exitToDialtone_def

text \<open>What the invariant looks at.\<close>

definition core :: "vm \<Rightarrow> playSession list \<times> nat option \<times> bool \<times> vmTask list \<times> int list" where
  "core v = (vmSessions v, vmPlayback v, vmSource v, vmTasks v, vmSavedQueue v)"

lemma vm_inv_core: "core v = core w \<Longrightarrow> vm_inv v = vm_inv w"
  by (auto simp: vm_inv_def core_def session_ok_def)

lemma core_simps [simp]: "core (say os v) = core v" "core (v\<lparr>vmOut := o'\<rparr>) = core v" "core (v\<lparr>vmFS := fs\<rparr>) = core v"
  "core (v\<lparr>vmSavedCursor := z\<rparr>) = core v" "core (v\<lparr>vmLast := i\<rparr>) = core v"
  "core (v\<lparr>vmMessageSeq := k\<rparr>) = core v" "core (v\<lparr>vmAnnounceNumbers := b\<rparr>) = core v"
  "core (sayClips cs v) = core v" "core (announceMessageCount n v) = core v" "core (announceMessageNumber n v) = core v"
  "core (announceSavedCount n v) = core v" "core (evaluateLED js y v) = core v" "core (exitToDialtone js y v) = core v"
  by (simp_all add: core_def vm_defs Let_def)

lemma core_publish [simp]: "core (publishIf js y sent m v) = core v"
  by (simp add: publishIf_def publishVoicemailState_def Let_def core_def vm_defs split: option.split)

lemma core_delete: "deleteMsg y i v = (ok, w) \<Longrightarrow> core w = core v" "markMsg js y i v = (ok, w) \<Longrightarrow> core w = core v"
  by (auto simp: deleteMsg_def markMsg_def split: prod.splits)

text \<open>An opening either leaves all as it is or installs a session.\<close>

definition installed :: "vm \<Rightarrow> nat option \<Rightarrow> vm \<Rightarrow> bool" where
  "installed v r w \<longleftrightarrow>
     (case r of None \<Rightarrow> core w = core v
      | Some c \<Rightarrow> c = length (vmSessions v) \<and> (\<exists>s. \<not> psCancelled s \<and> psClosed s = 0 \<and>
           core w = (vmSessions v @ [s], Some c, vmSource v, vmTasks v, vmSavedQueue v)))"

lemma installed_new: "newPlaybackSessionLocked i n b p v = (c, w) \<Longrightarrow> installed v (Some c) w"
  by (auto simp: newPlaybackSessionLocked_def installed_def core_def)

lemma installed_core: "installed v r w \<Longrightarrow> core v = core v' \<Longrightarrow> installed v' r w"
  by (auto simp: installed_def core_def split: option.split)

lemma installed_unheard: "openNextUnheardLocked js y a v = (Inr r, w) \<Longrightarrow> installed v r w"
  "openNextUnheardLocked js y a v = (Inl u, w) \<Longrightarrow> core w = core v"
  by (auto simp: openNextUnheardLocked_def Let_def newPlaybackSessionLocked_def installed_def core_def split: option.splits prod.splits)

lemma installed_openSaved: "openSaved y n v = (r, w) \<Longrightarrow> installed v r w"
proof (induction n arbitrary: v)
  case 0
  then show ?case
    by (subst (asm) openSaved.simps)
      (auto simp: Let_def newPlaybackSessionLocked_def installed_def core_def split: if_splits option.splits)
next
  case (Suc n)
  let ?v = "v\<lparr>vmSavedCursor := vmSavedCursor v + 1\<rparr>"
  have c: "core ?v = core v" by simp
  show ?case
  proof (cases "openSaved y n ?v = (r, w)")
    case True
    then show ?thesis using installed_core [OF Suc.IH c] by blast
  next
    case False
    then show ?thesis using Suc.prems
      by (subst (asm) openSaved.simps)
        (auto simp: Let_def newPlaybackSessionLocked_def installed_def core_def split: if_splits option.splits)
  qed
qed

lemmas installed_saved = installed_openSaved [where n = "nat (int (length (vmSavedQueue v)) - vmSavedCursor v)" and v = v for v,
    folded openNextSavedLocked_def]

lemma installed_reopen: "reopenLocked y i n b v = (Inr r, w) \<Longrightarrow> installed v r w"
  "reopenLocked y i n b v = (Inl u, w) \<Longrightarrow> core w = core v"
  by (auto simp: reopenLocked_def newPlaybackSessionLocked_def installed_def core_def split: option.splits)

lemma installed_key:
  "keyNext js y d s v = (m, Inr r, w) \<Longrightarrow> installed v r w"
  "keyNext js y d s v = (m, Inl u, w) \<Longrightarrow> core w = core v"
proof -
  show "installed v r w" if "keyNext js y d s v = (m, Inr r, w)"
    using that
    by (auto simp: keyNext_def split: if_splits prod.splits
        intro: installed_core [OF installed_unheard(1)] installed_core [OF installed_saved] installed_reopen(1) installed_unheard(1) installed_saved
        dest: core_delete)
  show "core w = core v" if "keyNext js y d s v = (m, Inl u, w)"
    using that
    by (auto simp: keyNext_def split: if_splits prod.splits dest!: core_delete installed_unheard(2) installed_reopen(2))
qed


section \<open>The invariant\<close>

definition refs :: "vmTask list \<Rightarrow> nat list" where
  "refs ts = concat (map sessionOf ts)"

lemma refs_snoc: "refs (ts @ [t]) = refs ts @ sessionOf t"
  by (simp add: refs_def)

text \<open>Between two messages, or after the last one.\<close>

definition between :: "vm \<Rightarrow> bool" where
  "between v \<longleftrightarrow> vmPlayback v = None \<and> (\<forall>c < length (vmSessions v). psCancelled (vmSessions v ! c) \<and> psClosed (vmSessions v ! c) = 1)
     \<and> distinct (refs (vmTasks v)) \<and> (\<forall>c \<in> set (refs (vmTasks v)). c < length (vmSessions v)) \<and> \<not> list_ex toSaved (vmTasks v)"

lemma between_core: "core v = core w \<Longrightarrow> between v = between w"
  by (auto simp: between_def core_def)

lemma core_spawn: "core v = core w \<Longrightarrow> core (spawnVm t v) = core (spawnVm t w)"
  "core v = core w \<Longrightarrow> core (closeMixerSourceLocked v) = core (closeMixerSourceLocked w)"
  by (auto simp: core_def spawnVm_def closeMixerSourceLocked_def say_def)

lemma no_saved: "\<not> list_ex toSaved ts \<Longrightarrow> filter toSaved ts = []"
  by (auto simp: list_ex_iff filter_empty_conv)

lemma between_teardown:
  assumes "vm_inv v" and "vmPlayback v = Some c"
  shows "between (teardownPlaybackLocked v)" and "vmSource (teardownPlaybackLocked v)"
  using assms
  by (auto simp: teardownPlaybackLocked_def updSession_def vm_inv_def between_def session_ok_def refs_def nth_list_update split: if_splits)

lemma next_inv:
  assumes "between v" and "vmSource v" and "installed v (Some c) w" and "sessionOf t = [c]" and "\<not> toSaved t"
  shows "vm_inv (spawnVm t w)"
proof -
  obtain s where s: "c = length (vmSessions v)" "\<not> psCancelled s" "psClosed s = 0"
    "core w = (vmSessions v @ [s], Some c, vmSource v, vmTasks v, vmSavedQueue v)" using assms(3) by (auto simp: installed_def)
  have "c \<notin> set (refs (vmTasks v))" using assms(1) s(1) by (auto simp: between_def)
  then show ?thesis using assms s no_saved [of "vmTasks v"]
    by (auto simp: vm_inv_def spawnVm_def core_def between_def session_ok_def refs_def nth_append less_Suc_eq)
qed

lemma between_inv:
  assumes "between v"
  shows "\<not> vmSource v \<Longrightarrow> vm_inv v" and "vm_inv (closeMixerSourceLocked v)"
    and "sessionOf t = [] \<Longrightarrow> \<not> toSaved t \<Longrightarrow> vm_inv (spawnVm t (closeMixerSourceLocked v))"
    and "sessionOf t = [] \<Longrightarrow> toSaved t \<Longrightarrow> vmSource v \<or> vmSavedQueue v = [] \<Longrightarrow> vm_inv (spawnVm t v)"
  using assms no_saved [of "vmTasks v"]
  by (auto simp: vm_inv_def between_def closeMixerSourceLocked_def say_def spawnVm_def session_ok_def refs_def)

lemma inv_between: "vm_inv v \<Longrightarrow> vmPlayback v = None \<Longrightarrow> \<not> list_ex toSaved (vmTasks v) \<Longrightarrow> between v"
  by (auto simp: vm_inv_def between_def session_ok_def refs_def)

text \<open>Further events that do not touch the sessions.\<close>

lemma after_inv:
  "core w = core v \<Longrightarrow> vm_inv (spawnVm t v) \<Longrightarrow> vm_inv (spawnVm t w)"
  "core w = core v \<Longrightarrow> vm_inv (closeMixerSourceLocked v) \<Longrightarrow> vm_inv (closeMixerSourceLocked w)"
  "core w = core v \<Longrightarrow> vm_inv (spawnVm t (closeMixerSourceLocked v)) \<Longrightarrow> vm_inv (spawnVm t (closeMixerSourceLocked w))"
  using vm_inv_core core_spawn by metis+

lemma Enter_inv:
  assumes "vm_inv v" and "vmPlayback v = None" and "\<not> list_ex toSaved (vmTasks v)"
  shows "vm_inv (VoicemailEnterPlayback js y v)"
proof -
  have b: "between v" using inv_between assms by blast
  define w where "w = snapshotSavedQueueLocked js y (say [AddSource] (v\<lparr>vmSource := True, vmMessageSeq := 0, vmAnnounceNumbers := False\<rparr>))"
  have bw: "between w" "vmSource w" using b
    by (auto simp: w_def between_def say_def snapshotSavedQueueLocked_def Let_def split: option.split)
  obtain r u where o: "openNextUnheardLocked js y 0 w = (r, u)" by fastforce
  have exit: "vm_inv (spawnVm TExit v)"
    using between_inv(3) [OF b, of TExit] assms by (auto simp: vm_inv_def spawnVm_def session_ok_def)
  show ?thesis
  proof (cases r)
    case (Inl x)
    then have "core u = core w" using installed_unheard(2) o by blast
    then have "vm_inv (spawnVm TExit (closeMixerSourceLocked u))"
      by (rule after_inv(3) [OF _ between_inv(3) [OF bw(1)]]) simp_all
    then show ?thesis using o Inl exit by (simp add: VoicemailEnterPlayback_def Let_def flip: w_def)
  next
    case (Inr q)
    then have i: "installed w q u" using installed_unheard(1) o by blast
    show ?thesis
    proof (cases q)
      case None
      then have "core u = core w" using i by (simp add: installed_def)
      then have "vm_inv (spawnVm TNoMessages (closeMixerSourceLocked u))" "vm_inv (spawnVm TNoNew u)"
        by - (rule after_inv(3) [OF _ between_inv(3) [OF bw(1)]] after_inv(1) [OF _ between_inv(4) [OF bw(1)]]; simp add: bw)+
      then show ?thesis using o Inr None exit by (simp add: VoicemailEnterPlayback_def Let_def flip: w_def)
    next
      case (Some c)
      then have "vm_inv (spawnVm (TIntro c) u)" using next_inv [OF bw] i by simp
      then show ?thesis using o Inr Some exit by (simp add: VoicemailEnterPlayback_def Let_def flip: w_def)
    qed
  qed
qed

lemma Exit_inv:
  assumes "vm_inv v"
  shows "vm_inv (VoicemailExitPlayback js y v)"
proof -
  let ?w = "(closeMixerSourceLocked (teardownPlaybackLocked v))\<lparr>vmSavedQueue := [], vmSavedCursor := -1\<rparr>"
  have "vm_inv ?w"
  proof (cases "vmPlayback v")
    case None
    then show ?thesis using assms
      by (auto simp: teardownPlaybackLocked_def closeMixerSourceLocked_def say_def vm_inv_def session_ok_def)
  next
    case (Some c)
    then have "vm_inv (closeMixerSourceLocked (teardownPlaybackLocked v))"
      using between_teardown [OF assms] between_inv(2) by blast
    then show ?thesis by (auto simp: vm_inv_def session_ok_def)
  qed
  then show ?thesis unfolding VoicemailExitPlayback_def by (rule iffD2 [OF vm_inv_core, rotated]) simp
qed

lemma Key_inv:
  assumes "vm_inv v"
  shows "vm_inv (VoicemailKey js y sent d v)"
proof (cases "d \<in> {''7'', ''9'', ''#'', ''*''} \<and> vmStore v \<and> vmPlayback v \<noteq> None")
  case False
  then show ?thesis using assms by (auto simp: VoicemailKey_def)
next
  case True
  then obtain c where c: "vmPlayback v = Some c" by auto
  let ?s = "vmSessions v ! c" and ?v = "teardownPlaybackLocked v"
  note b = between_teardown [OF assms c]
  obtain m r w where k: "keyNext js y d ?s ?v = (m, r, w)" by (metis prod_cases3)
  show ?thesis
  proof (cases r)
    case (Inl x)
    then have "core w = core ?v" using installed_key(2) k by blast
    then have "vm_inv (closeMixerSourceLocked w)" using after_inv(2) between_inv(2) [OF b(1)] by blast
    then have "vm_inv (exitToDialtone js y (publishIf js y sent m (closeMixerSourceLocked w)))"
      by (rule iffD2 [OF vm_inv_core, rotated]) simp
    then show ?thesis using True c k Inl by (simp add: VoicemailKey_def Let_def)
  next
    case (Inr q)
    then have i: "installed ?v q w" using installed_key(1) k by blast
    show ?thesis
    proof (cases q)
      case None
      then have cw: "core w = core ?v" using i by (simp add: installed_def)
      have "vm_inv (spawnVm TExit (say o' (publishIf js y sent m (closeMixerSourceLocked w))))" for o'
        by (rule after_inv(1) [where v = "closeMixerSourceLocked w"], simp)
          (rule after_inv(3) [OF cw between_inv(3) [OF b(1)]]; simp)
      moreover have "vm_inv (spawnVm (TSaved False) (sayClips cs (publishIf js y sent m w)))" for cs
        by (rule after_inv(1) [where v = w], simp) (rule after_inv(1) [OF cw between_inv(4) [OF b(1)]]; simp add: b)
      ultimately show ?thesis using True c k Inr None by (simp add: VoicemailKey_def Let_def)
    next
      case (Some n)
      then have "vm_inv (spawnVm (TStart n) w)" using next_inv [OF b] i by simp
      then have "vm_inv (spawnVm (TStart n) (sayClips cs (publishIf js y sent m w)))" for cs
        by (rule after_inv(1) [rotated]) simp
      then show ?thesis using True c k Inr Some by (simp add: VoicemailKey_def Let_def)
    qed
  qed
qed

lemma Advance_inv:
  assumes "vm_inv v"
  shows "vm_inv (voicemailAdvanceFromEOF js y sent c v)"
proof (cases "vmStore v \<and> vmPlayback v = Some c")
  case False
  then show ?thesis using assms by (auto simp: voicemailAdvanceFromEOF_def)
next
  case True
  then have c: "vmPlayback v = Some c" by simp
  let ?s = "vmSessions v ! c" and ?v = "teardownPlaybackLocked v"
  note b = between_teardown [OF assms c]
  have the_end: "vm_inv (spawnVm TExit (say o' w))" if "core w = core (closeMixerSourceLocked ?v)" for o' w
    by (rule after_inv(1) [where v = "closeMixerSourceLocked ?v"]) (use that between_inv(3) [OF b(1), of TExit] in simp_all)
  show ?thesis
  proof (cases "psSaved ?s")
    case saved: True
    obtain r w where o: "openNextSavedLocked y ?v = (r, w)" by fastforce
    then have i: "installed ?v r w" by (rule installed_saved)
    show ?thesis
    proof (cases r)
      case None
      then have "core w = core ?v" using i by (simp add: installed_def)
      note core_spawn(2) [OF this]
      then show ?thesis using the_end True saved o None by (simp add: voicemailAdvanceFromEOF_def Let_def)
    next
      case (Some n)
      then show ?thesis using next_inv [OF b] i True saved o by (simp add: voicemailAdvanceFromEOF_def Let_def)
    qed
  next
    case new: False
    obtain m u where mk: "markMsg js y (psID ?s) ?v = (m, u)" by fastforce
    then have cu: "core u = core ?v" by (rule core_delete)
    obtain r w where o: "openNextUnheardLocked js y 0 u = (r, w)" by fastforce
    show ?thesis
    proof (cases r)
      case (Inl x)
      then have "core w = core ?v" using installed_unheard(2) o cu by metis
      then have "vm_inv (closeMixerSourceLocked w)" using after_inv(2) between_inv(2) [OF b(1)] by blast
      then have "vm_inv (exitToDialtone js y (publishIf js y sent m (closeMixerSourceLocked w)))"
        by (rule iffD2 [OF vm_inv_core, rotated]) simp
      then show ?thesis using True new mk o Inl by (simp add: voicemailAdvanceFromEOF_def Let_def)
    next
      case (Inr q)
      then have i: "installed ?v q w" using installed_unheard(1) o installed_core cu by blast
      show ?thesis
      proof (cases q)
        case None
        then have cw: "core w = core ?v" using i by (simp add: installed_def)
        have "vm_inv (spawnVm (TSaved False) (publishIf js y sent m w))"
          by (rule after_inv(1) [where v = w], simp) (rule after_inv(1) [OF cw between_inv(4) [OF b(1)]]; simp add: b)
        then show ?thesis using True new mk o Inr None the_end core_spawn(2) [OF cw]
          by (simp add: voicemailAdvanceFromEOF_def Let_def)
      next
        case (Some n)
        then have "vm_inv (spawnVm (TStart n) w)" using next_inv [OF b] i by simp
        then have "vm_inv (spawnVm (TStart n) (publishIf js y sent m w))" by (rule after_inv(1) [rotated]) simp
        then show ?thesis using True new mk o Inr Some by (simp add: voicemailAdvanceFromEOF_def Let_def)
      qed
    qed
  qed
qed


text \<open>The cursor never points before the queue.\<close>

lemma cursor_simps [simp]: "vmSavedCursor (say os v) = vmSavedCursor v" "vmSavedCursor (spawnVm t v) = vmSavedCursor v"
  "vmSavedCursor (closeMixerSourceLocked v) = vmSavedCursor v" "vmSavedCursor (sayClips cs v) = vmSavedCursor v"
  "vmSavedCursor (announceMessageCount n v) = vmSavedCursor v" "vmSavedCursor (announceMessageNumber n v) = vmSavedCursor v"
  "vmSavedCursor (announceSavedCount n v) = vmSavedCursor v" "vmSavedCursor (evaluateLED js y v) = vmSavedCursor v"
  "vmSavedCursor (exitToDialtone js y v) = vmSavedCursor v" "vmSavedCursor (teardownPlaybackLocked v) = vmSavedCursor v"
  "vmSavedCursor (updSession c g v) = vmSavedCursor v" "vmSavedCursor (snd (newPlaybackSessionLocked i n b p v)) = vmSavedCursor v"
  by (simp_all add: vm_defs closeMixerSourceLocked_def teardownPlaybackLocked_def updSession_def newPlaybackSessionLocked_def split: option.split)

lemma cursor_publish [simp]: "vmSavedCursor (publishIf js y sent m v) = vmSavedCursor v"
  by (simp add: publishIf_def publishVoicemailState_def Let_def split: option.split)

lemma cursor_db [simp]: "vmSavedCursor (snd (deleteMsg y i v)) = vmSavedCursor v"
  "vmSavedCursor (snd (markMsg js y i v)) = vmSavedCursor v"
  "vmSavedCursor (snd (openNextUnheardLocked js y a v)) = vmSavedCursor v"
  "vmSavedCursor (snd (reopenLocked y i n b v)) = vmSavedCursor v"
  by (simp_all add: deleteMsg_def markMsg_def openNextUnheardLocked_def reopenLocked_def newPlaybackSessionLocked_def Let_def
      split: prod.split option.split)

lemma cursor_openSaved: "vmSavedCursor v \<le> vmSavedCursor (snd (openSaved y n v))"
proof (induction n arbitrary: v)
  case 0
  show ?case
    by (subst openSaved.simps) (simp add: Let_def newPlaybackSessionLocked_def split: option.split)
next
  case (Suc n)
  have "vmSavedCursor v \<le> vmSavedCursor (snd (openSaved y n (v\<lparr>vmSavedCursor := vmSavedCursor v + 1\<rparr>)))"
    using Suc.IH [of "v\<lparr>vmSavedCursor := vmSavedCursor v + 1\<rparr>"] by simp
  then show ?case
    by (subst openSaved.simps) (simp add: Let_def newPlaybackSessionLocked_def split: option.split)
qed

lemma cursor_saved [simp]: "-1 \<le> vmSavedCursor v \<Longrightarrow> -1 \<le> vmSavedCursor (snd (openNextSavedLocked y v))"
  unfolding openNextSavedLocked_def by (rule order_trans [OF _ cursor_openSaved])

lemma cursor_key [simp]: "-1 \<le> vmSavedCursor v \<Longrightarrow> -1 \<le> vmSavedCursor (snd (snd (keyNext js y d s v)))"
  by (simp add: keyNext_def case_prod_beta)

lemma cursor_advance [simp]: "-1 \<le> vmSavedCursor v \<Longrightarrow> -1 \<le> vmSavedCursor (voicemailAdvanceFromEOF js y sent c v)"
  by (simp add: voicemailAdvanceFromEOF_def Let_def case_prod_beta split: option.split sum.split)

lemma cursor_loop [simp]: "vmSavedCursor (loopStart c v) = vmSavedCursor v"
  "-1 \<le> vmSavedCursor v \<Longrightarrow> -1 \<le> vmSavedCursor (loopStep js e c v)"
proof -
  show "vmSavedCursor (loopStart c v) = vmSavedCursor v" by (simp add: loopStart_def Let_def)
  assume "-1 \<le> vmSavedCursor v"
  then show "-1 \<le> vmSavedCursor (loopStep js e c v)"
    by (simp add: loopStep_def Let_def case_prod_beta split: playResult.split)
qed

lemma cursor_task: "-1 \<le> vmSavedCursor v \<Longrightarrow> -1 \<le> vmSavedCursor (runTask js e t v)"
  using cursor_saved [of v "rnSys e"]
  by (cases t; cases "openNextSavedLocked (rnSys e) v") (auto split: option.split)

lemma cursor_key_press: "-1 \<le> vmSavedCursor v \<Longrightarrow> -1 \<le> vmSavedCursor (VoicemailKey js y sent d v)"
proof (cases "vmPlayback v")
  case (Some c)
  assume v: "-1 \<le> vmSavedCursor v"
  obtain m r w where k: "keyNext js y d (vmSessions v ! c) (teardownPlaybackLocked v) = (m, r, w)" by (metis prod_cases3)
  then have "-1 \<le> vmSavedCursor w" using cursor_key [of "teardownPlaybackLocked v" js y d "vmSessions v ! c"] v by simp
  then show ?thesis using v Some k by (auto simp: VoicemailKey_def Let_def split: sum.split option.split)
qed (simp add: VoicemailKey_def)

lemma cursor_enter: "-1 \<le> vmSavedCursor v \<Longrightarrow> -1 \<le> vmSavedCursor (VoicemailEnterPlayback js y v)"
proof -
  assume v: "-1 \<le> vmSavedCursor v"
  define u where "u = snapshotSavedQueueLocked js y (say [AddSource] (v\<lparr>vmSource := True, vmMessageSeq := 0, vmAnnounceNumbers := False\<rparr>))"
  obtain r w where o: "openNextUnheardLocked js y 0 u = (r, w)" by fastforce
  have "-1 \<le> vmSavedCursor u" by (simp add: u_def snapshotSavedQueueLocked_def Let_def split: option.split)
  then have "-1 \<le> vmSavedCursor w" using cursor_db(3) [of js y 0 u] o by simp
  then show ?thesis using v o by (simp add: VoicemailEnterPlayback_def Let_def flip: u_def split: sum.split option.split)
qed

lemma cursor_step: "-1 \<le> vmSavedCursor v \<Longrightarrow> -1 \<le> vmSavedCursor (vm_step js m v)"
  by (cases m) (simp_all add: cursor_enter cursor_key_press VoicemailExitPlayback_def cursor_task)

text \<open>A task is taken off the list; what is left is as before without its session.\<close>

lemma refs_remove:
  assumes "n < length ts"
  shows "distinct (refs ts) \<Longrightarrow> distinct (refs (remove_nth n ts)) \<and> set (sessionOf (ts ! n)) \<inter> set (refs (remove_nth n ts)) = {}"
    and "set (refs (remove_nth n ts)) \<subseteq> set (refs ts)" and "set (sessionOf (ts ! n)) \<subseteq> set (refs ts)"
    and "list_ex toSaved ts \<longleftrightarrow> toSaved (ts ! n) \<or> list_ex toSaved (remove_nth n ts)"
    and "length (filter toSaved ts) = (if toSaved (ts ! n) then 1 else 0) + length (filter toSaved (remove_nth n ts))"
proof -
  have ts: "ts = take n ts @ ts ! n # drop (Suc n) ts" using assms by (rule id_take_nth_drop)
  have r: "remove_nth n ts = take n ts @ drop (Suc n) ts" by (simp add: remove_nth_def)
  have "refs ts = refs (take n ts) @ sessionOf (ts ! n) @ refs (drop (Suc n) ts)"
    by (subst (1) ts) (simp add: refs_def)
  then show "distinct (refs ts) \<Longrightarrow> distinct (refs (remove_nth n ts)) \<and> set (sessionOf (ts ! n)) \<inter> set (refs (remove_nth n ts)) = {}"
    "set (refs (remove_nth n ts)) \<subseteq> set (refs ts)" "set (sessionOf (ts ! n)) \<subseteq> set (refs ts)"
    unfolding r by (auto simp: refs_def)
  show "list_ex toSaved ts \<longleftrightarrow> toSaved (ts ! n) \<or> list_ex toSaved (remove_nth n ts)"
    unfolding r list_ex_iff by (subst (1) ts) auto
  have "filter toSaved ts = filter toSaved (take n ts) @ filter toSaved [ts ! n] @ filter toSaved (drop (Suc n) ts)"
    by (subst (1) ts) simp
  then show "length (filter toSaved ts) = (if toSaved (ts ! n) then 1 else 0) + length (filter toSaved (remove_nth n ts))"
    unfolding r by simp
qed

definition taken :: "nat \<Rightarrow> vm \<Rightarrow> vm" where
  "taken n v = v\<lparr>vmTasks := remove_nth n (vmTasks v)\<rparr>"

lemma taken_inv:
  assumes "vm_inv v" and "n < length (vmTasks v)"
  shows "\<not> toSaved (vmTasks v ! n) \<Longrightarrow> vm_inv (taken n v)"
    and "toSaved (vmTasks v ! n) \<Longrightarrow> between (taken n v)"
    and "\<not> toSaved (vmTasks v ! n) \<Longrightarrow> sessionOf t = sessionOf (vmTasks v ! n) \<or> sessionOf t = [] \<Longrightarrow> \<not> toSaved t \<Longrightarrow>
      vm_inv (spawnVm t (taken n v))"
    and "c \<in> set (sessionOf (vmTasks v ! n)) \<Longrightarrow> c < length (vmSessions v)"
proof -
  note r = refs_remove [OF assms(2)]
  have inv: "\<forall>c < length (vmSessions v). session_ok v c"
    "\<forall>c. vmPlayback v = Some c \<longrightarrow> c < length (vmSessions v) \<and> vmSource v \<and> \<not> list_ex toSaved (vmTasks v)"
    "length (filter toSaved (vmTasks v)) \<le> 1" "vmSource v \<longrightarrow> vmPlayback v \<noteq> None \<or> list_ex toSaved (vmTasks v)"
    "distinct (refs (vmTasks v))" "\<forall>c \<in> set (refs (vmTasks v)). c < length (vmSessions v)"
    "list_ex toSaved (vmTasks v) \<longrightarrow> vmSource v \<or> vmSavedQueue v = []"
    using assms(1) by (auto simp: vm_inv_def refs_def)
  have ok: "session_ok (taken n v) c = session_ok v c" "session_ok (spawnVm t (taken n v)) c = session_ok v c" for t c
    by (simp_all add: session_ok_def taken_def spawnVm_def)
  show "vm_inv (taken n v)" if "\<not> toSaved (vmTasks v ! n)"
    unfolding vm_inv_def refs_def [symmetric] ok using inv r that by (auto simp: taken_def)
  have "remove_nth n (vmTasks v) = rest \<Longrightarrow> filter toSaved rest = [] \<Longrightarrow> \<not> list_ex toSaved rest" for rest
    by (auto simp: list_ex_iff filter_empty_conv)
  then show "between (taken n v)" if "toSaved (vmTasks v ! n)"
    using inv r that by (auto simp: between_def taken_def session_ok_def split: if_splits)
  show "c \<in> set (sessionOf (vmTasks v ! n)) \<Longrightarrow> c < length (vmSessions v)" using inv r by blast
  show "vm_inv (spawnVm t (taken n v))"
    if t: "\<not> toSaved (vmTasks v ! n)" "sessionOf t = sessionOf (vmTasks v ! n) \<or> sessionOf t = []" "\<not> toSaved t"
  proof -
    have s: "set (sessionOf t) \<subseteq> set (refs (vmTasks v))" "set (sessionOf t) \<inter> set (refs (remove_nth n (vmTasks v))) = {}"
      using t(2) r(1) [OF inv(5)] r(3) by auto
    have "distinct (sessionOf t)" by (cases t) simp_all
    moreover have "length (filter toSaved (remove_nth n (vmTasks v))) = length (filter toSaved (vmTasks v))"
      "list_ex toSaved (remove_nth n (vmTasks v)) = list_ex toSaved (vmTasks v)" using r(4,5) t(1) by simp_all
    moreover have "distinct (refs (remove_nth n (vmTasks v)))" using r(1) [OF inv(5)] by blast
    ultimately show ?thesis
      unfolding vm_inv_def refs_def [symmetric] ok using inv r(2) s t(3) by (simp add: taken_def spawnVm_def refs_snoc) blast
  qed
qed


lemma updSession_inv:
  "vm_inv v \<Longrightarrow> c < length (vmSessions v) \<Longrightarrow> vm_inv (updSession c (\<lambda>s. s\<lparr>psPlayer := p\<rparr>) v)"
  by (auto simp: vm_inv_def updSession_def session_ok_def nth_list_update)

lemma task_inv:
  assumes "vm_inv v" and n: "n < length (vmTasks v)" and cursor: "-1 \<le> vmSavedCursor v"
  shows "vm_inv (runTask js e (vmTasks v ! n) (taken n v))"
proof -
  note t = taken_inv [OF assms(1,2)]
  have same: "vm_inv (spawnVm u w)" if "core w = core (taken n v)" "vm_inv (spawnVm u (taken n v))" for u w
    using after_inv(1) that by blast
  have keep: "vm_inv (spawnVm u (taken n v))" if "toSaved (vmTasks v ! n)" "sessionOf u = []" "toSaved u" for u
  proof -
    have "list_ex toSaved (vmTasks v)" unfolding list_ex_length using n that(1) by (intro exI [of _ n]) simp
    then have "vmSource (taken n v) \<or> vmSavedQueue (taken n v) = []" using assms(1) by (auto simp: vm_inv_def taken_def)
    then show ?thesis using between_inv(4) [OF t(2)] that by simp
  qed
  show ?thesis
  proof (cases "vmTasks v ! n")
    case (TStart c)
    have "vm_inv (spawnVm TExit (closeMixerSourceLocked (if vmPlayback (taken n v) = Some c then teardownPlaybackLocked (taken n v) else taken n v)))"
      if "\<not> vmSource (taken n v)"
    proof -
      have "vm_inv (taken n v)" using t(1) TStart by simp
      with that have "vmPlayback (taken n v) = None" by (auto simp: vm_inv_def)
      then show ?thesis using that t(3) [of TExit] TStart by (simp add: closeMixerSourceLocked_def)
    qed
    moreover have "vm_inv (taken n v)" "vm_inv (spawnVm (TDecoder c) (taken n v))"
      using TStart t(1) t(3) [of "TDecoder c"] by simp_all
    moreover have "vm_inv (spawnVm (TDecoder c) (announceMessageNumber k (taken n v)))" for k
      by (rule same) (simp_all add: calculation)
    ultimately show ?thesis unfolding TStart runTask.simps loopStart_def Let_def
      by (simp only: if_split [where P = vm_inv]) blast
  next
    case (TDecoder c)
    then show ?thesis using t(1) t(3) [of "TLoop c"] Advance_inv by simp
  next
    case (TLoop c)
    have c: "c < length (vmSessions (taken n v))" using t(4) TLoop by (simp add: taken_def)
    obtain r p where nf: "NextFrame (rnRead e) (vmFS (taken n v)) (psPlayer (vmSessions (taken n v) ! c)) = (r, p)" by fastforce
    let ?u = "updSession c (\<lambda>s. s\<lparr>psPlayer := p\<rparr>) (taken n v)"
    have u: "vm_inv ?u" using updSession_inv t(1) c TLoop by simp
    have "spawnVm (TLoop c) ?u = updSession c (\<lambda>s. s\<lparr>psPlayer := p\<rparr>) (spawnVm (TLoop c) (taken n v))"
      by (simp add: spawnVm_def updSession_def)
    moreover have "vm_inv (spawnVm (TLoop c) (taken n v))" using t(3) [of "TLoop c"] TLoop by simp
    ultimately have "vm_inv (spawnVm (TLoop c) ?u)" using updSession_inv c by (simp add: spawnVm_def)
    then have "vm_inv (spawnVm (TLoop c) (say o' ?u))" for o' by (rule after_inv(1) [rotated]) simp
    then show ?thesis using TLoop nf t(1) Advance_inv [OF u] \<open>vm_inv (spawnVm (TLoop c) ?u)\<close>
      by (auto simp: loopStep_def Let_def split: playResult.split)
  next
    case TSavedOpen
    have b: "between (taken n v)" using t(2) TSavedOpen by simp
    obtain r w where o: "openNextSavedLocked (rnSys e) (taken n v) = (r, w)" by fastforce
    then have i: "installed (taken n v) r w" by (rule installed_saved)
    show ?thesis
    proof (cases r)
      case None
      then have cw: "core w = core (taken n v)" using i by (simp add: installed_def)
      have "vm_inv (spawnVm TExit (say o' (closeMixerSourceLocked w)))" for o'
        by (rule after_inv(1) [where v = "closeMixerSourceLocked w"], simp)
          (rule after_inv(3) [OF cw between_inv(3) [OF b]]; simp)
      then show ?thesis using TSavedOpen o None by simp
    next
      case (Some c)
      then have "vmSavedQueue (taken n v) \<noteq> []"
        using o cursor by (auto simp: taken_def openNextSavedLocked_def openSaved.simps Let_def split: if_splits)
      moreover have "list_ex toSaved (vmTasks v)" unfolding list_ex_length using n TSavedOpen by (intro exI [of _ n]) simp
      ultimately have "vmSource (taken n v)" using assms(1) by (auto simp: vm_inv_def taken_def)
      then show ?thesis using TSavedOpen o Some next_inv [OF b _ i [unfolded Some], of "TStart c"] by simp
    qed
  next
    case TExit
    then show ?thesis using t(1) vm_inv_core [of "exitToDialtone js (rnSys e) (taken n v)" "taken n v"] by simp
  next
    case TNoMessages
    then show ?thesis using t(3) [of TExit] same [of "say [Clips [''vm_no_messages'']] (taken n v)" TExit] by simp
  next
    case (TIntro c)
    have "vm_inv (spawnVm (TStart c) (taken n v))" "vm_inv (spawnVm (TFlag c k) (taken n v))" for k
      using t(3) TIntro by simp_all
    then have "vm_inv (spawnVm (TStart c) (say os (taken n v)))" "vm_inv (spawnVm (TFlag c k) (announceMessageCount k (taken n v)))" for os k
      by (auto intro: same [rotated])
    then show ?thesis using TIntro by (simp split: option.split)
  next
    case (TFlag c k)
    have "vm_inv (spawnVm (TStart c) (taken n v))" using t(3) TFlag by simp
    then show ?thesis unfolding TFlag runTask.simps by (rule same [rotated]) simp
  next
    case TNoNew
    show ?thesis unfolding TNoNew runTask.simps by (rule same [OF _ keep]) (simp_all add: TNoNew)
  next
    case (TSaved b)
    show ?thesis unfolding TSaved runTask.simps by (rule same [OF _ keep]) (simp_all add: TSaved)
  next
    case (TSavedCount b)
    show ?thesis unfolding TSavedCount runTask.simps by (rule same [OF _ keep]) (simp_all add: TSavedCount)
  qed
qed


lemma one_goroutine:
  "distinct (concat (map sessionOf ts)) \<Longrightarrow> length (filter (\<lambda>t. sessionOf t = [c]) ts) \<le> 1"
proof (induction ts)
  case (Cons t ts)
  moreover have "filter (\<lambda>t. sessionOf t = [c]) ts = []" if "c \<notin> set (concat (map sessionOf ts))"
    using that by (auto simp: filter_empty_conv)
  ultimately show ?case by auto
qed simp

lemma exit_silent: "vmPlayback (vm_step js (VmExit y) v) = None \<and> \<not> vmSource (vm_step js (VmExit y) v)"
  by (simp add: VoicemailExitPlayback_def evaluateLED_def say_def closeMixerSourceLocked_def teardownPlaybackLocked_def
      updSession_def split: option.split)

definition vm_all :: "vm \<Rightarrow> bool" where
  "vm_all v \<longleftrightarrow> vm_inv v \<and> -1 \<le> vmSavedCursor v"

lemma vm_all_step: "vm_ok m v \<Longrightarrow> vm_all v \<Longrightarrow> vm_all (vm_step js m v)"
proof -
  assume "vm_ok m v" and v: "vm_all v"
  then have "vm_inv (vm_step js m v)"
  proof (cases m)
    case (VmRun n e)
    then show ?thesis using task_inv [of v n js e] v by (simp add: vm_all_def taken_def)
  next
    case (VmStore g)
    then show ?thesis using v vm_inv_core [of "v\<lparr>vmFS := g (vmFS v)\<rparr>" v] by (simp add: vm_all_def)
  qed (use \<open>vm_ok m v\<close> v Enter_inv Exit_inv Key_inv in \<open>simp_all add: vm_all_def\<close>)
  then show ?thesis using v cursor_step by (simp add: vm_all_def)
qed

interpretation playback: invariant_machine "vm_step js" vm_ok vm_all for js
  by unfold_locales (rule vm_all_step)

lemma vm_all_new: "vm_all (newVm st en fs)"
  by (simp add: vm_all_def vm_inv_def newVm_def)


section \<open>What is heard\<close>

definition isFrame :: "vmOut \<Rightarrow> bool" where
  "isFrame o' = (case o' of PlayedFrame f \<Rightarrow> True | _ \<Rightarrow> False)"

definition framesHeard :: "vm \<Rightarrow> vmOut list" where
  "framesHeard v = filter isFrame (vmOut v)"

lemma heard_say: "framesHeard (say os v) = framesHeard v @ filter isFrame os"
  by (simp add: framesHeard_def say_def)

lemma isFrame_simps [simp]: "isFrame (PlayedFrame f)" "\<not> isFrame (Clips cs)" "\<not> isFrame AddSource" "\<not> isFrame RemoveSource"
  "\<not> isFrame CallResetToDialtone" "\<not> isFrame DialTone" "\<not> isFrame (SetLED l)" "\<not> isFrame (PublishUnheard n)"
  by (simp_all add: isFrame_def)

lemma heard_fields [simp]: "framesHeard (v\<lparr>vmFS := fs\<rparr>) = framesHeard v" "framesHeard (v\<lparr>vmSavedCursor := z\<rparr>) = framesHeard v"
  "framesHeard (v\<lparr>vmSavedQueue := q\<rparr>) = framesHeard v" "framesHeard (v\<lparr>vmTasks := ts\<rparr>) = framesHeard v"
  "framesHeard (v\<lparr>vmLast := i\<rparr>) = framesHeard v" "framesHeard (v\<lparr>vmMessageSeq := k\<rparr>) = framesHeard v"
  "framesHeard (v\<lparr>vmAnnounceNumbers := b\<rparr>) = framesHeard v" "framesHeard (v\<lparr>vmSource := b\<rparr>) = framesHeard v"
  "framesHeard (v\<lparr>vmSessions := ss\<rparr>) = framesHeard v" "framesHeard (v\<lparr>vmPlayback := pb\<rparr>) = framesHeard v"
  by (simp_all add: framesHeard_def)

lemma heard_simps [simp]: "framesHeard (spawnVm t v) = framesHeard v" "framesHeard (updSession c g v) = framesHeard v"
  "framesHeard (closeMixerSourceLocked v) = framesHeard v" "framesHeard (teardownPlaybackLocked v) = framesHeard v"
  "framesHeard (sayClips cs v) = framesHeard v" "framesHeard (announceMessageCount n v) = framesHeard v"
  "framesHeard (announceMessageNumber n v) = framesHeard v" "framesHeard (announceSavedCount n v) = framesHeard v"
  "framesHeard (evaluateLED js y v) = framesHeard v" "framesHeard (exitToDialtone js y v) = framesHeard v"
  "framesHeard (snapshotSavedQueueLocked js y v) = framesHeard v"
  by (simp_all add: spawnVm_def updSession_def closeMixerSourceLocked_def teardownPlaybackLocked_def sayClips_def
      announceMessageCount_def announceMessageNumber_def announceSavedCount_def evaluateLED_def exitToDialtone_def
      snapshotSavedQueueLocked_def heard_say Let_def split: option.split)

lemma heard_publish [simp]: "framesHeard (publishIf js y sent b v) = framesHeard v"
  by (simp add: publishIf_def publishVoicemailState_def Let_def heard_say split: option.split)

lemma heard_openSaved: "framesHeard (snd (openSaved y n v)) = framesHeard v"
  by (induction n arbitrary: v; subst openSaved.simps) (simp_all add: Let_def newPlaybackSessionLocked_def split: option.split)

lemma heard_opens [simp]: "framesHeard (snd (deleteMsg y i v)) = framesHeard v" "framesHeard (snd (markMsg js y i v)) = framesHeard v"
  "framesHeard (snd (openNextUnheardLocked js y a v)) = framesHeard v" "framesHeard (snd (reopenLocked y i n b v)) = framesHeard v"
  "framesHeard (snd (openNextSavedLocked y v)) = framesHeard v" "framesHeard (snd (snd (keyNext js y d s v))) = framesHeard v"
proof -
  show d: "framesHeard (snd (deleteMsg y i v)) = framesHeard v" "framesHeard (snd (markMsg js y i v)) = framesHeard v"
    "framesHeard (snd (openNextUnheardLocked js y a v)) = framesHeard v" "framesHeard (snd (reopenLocked y i n b v)) = framesHeard v"
    "framesHeard (snd (openNextSavedLocked y v)) = framesHeard v" for y i v js a n b
    by (simp_all add: deleteMsg_def markMsg_def openNextUnheardLocked_def reopenLocked_def newPlaybackSessionLocked_def
        openNextSavedLocked_def heard_openSaved Let_def split: prod.split option.split)
  then show "framesHeard (snd (snd (keyNext js y d s v))) = framesHeard v"
    by (simp add: keyNext_def case_prod_beta)
qed

lemma heard_advance [simp]: "framesHeard (voicemailAdvanceFromEOF js y sent c v) = framesHeard v"
  by (simp add: voicemailAdvanceFromEOF_def Let_def case_prod_beta heard_say split: option.split sum.split)

lemma heard_task:
  "framesHeard (runTask js e t v) \<noteq> framesHeard v \<Longrightarrow> \<exists>c. t = TLoop c \<and> \<not> psCancelled (vmSessions v ! c)"
  by (cases t) (auto simp: heard_say loopStart_def loopStep_def Let_def case_prod_beta split: option.splits playResult.splits if_splits
      dest: arg_cong [where f = framesHeard and x = "snd (openNextSavedLocked (rnSys e) v)"])

lemma heard_step:
  assumes "vm_all v" and "framesHeard (vm_step js m v) \<noteq> framesHeard v"
  shows "vmPlayback v \<noteq> None"
proof (cases m)
  case (VmRun n e)
  then have n: "n < length (vmTasks v)" using assms(2) by (simp split: if_splits)
  then have run: "framesHeard (runTask js e (vmTasks v ! n) (taken n v)) \<noteq> framesHeard (taken n v)"
    using assms(2) VmRun by (simp add: taken_def)
  from heard_task [OF this] obtain c where c: "vmTasks v ! n = TLoop c" "\<not> psCancelled (vmSessions v ! c)"
    by (auto simp: taken_def)
  then have "c < length (vmSessions v)" using taken_inv(4) [OF _ n, of c] assms(1) by (simp add: vm_all_def)
  then have "session_ok v c" using assms(1) by (simp add: vm_all_def vm_inv_def)
  then show ?thesis using c(2) by (auto simp: session_ok_def split: if_splits)
qed (use assms in \<open>auto simp: VoicemailEnterPlayback_def VoicemailExitPlayback_def VoicemailKey_def Let_def case_prod_beta
      heard_say split: option.splits sum.splits if_splits\<close>)


section \<open>What playing does to the store\<close>

lemma fs_simps [simp]: "vmFS (say os v) = vmFS v" "vmFS (spawnVm t v) = vmFS v" "vmFS (updSession c g v) = vmFS v"
  "vmFS (closeMixerSourceLocked v) = vmFS v" "vmFS (teardownPlaybackLocked v) = vmFS v"
  "vmFS (sayClips cs v) = vmFS v" "vmFS (announceMessageCount n v) = vmFS v"
  "vmFS (announceMessageNumber n v) = vmFS v" "vmFS (announceSavedCount n v) = vmFS v"
  "vmFS (evaluateLED js y v) = vmFS v" "vmFS (exitToDialtone js y v) = vmFS v" "vmFS (snapshotSavedQueueLocked js y v) = vmFS v"
  by (simp_all add: vm_defs updSession_def closeMixerSourceLocked_def teardownPlaybackLocked_def snapshotSavedQueueLocked_def
      Let_def split: option.split)

lemma fs_publish [simp]: "vmFS (publishIf js y sent b v) = vmFS v"
  by (simp add: publishIf_def publishVoicemailState_def Let_def split: option.split)

lemma fs_openSaved: "vmFS (snd (openSaved y n v)) = vmFS v"
  by (induction n arbitrary: v; subst openSaved.simps) (simp_all add: Let_def newPlaybackSessionLocked_def split: option.split)

lemma fs_opens [simp]: "vmFS (snd (deleteMsg y i v)) = snd (DeleteMessage y i (vmFS v))"
  "vmFS (snd (markMsg js y i v)) = snd (MarkHeard js y i (vmFS v))"
  "vmFS (snd (openNextUnheardLocked js y a v)) = vmFS v" "vmFS (snd (reopenLocked y i n b v)) = vmFS v"
  "vmFS (snd (openNextSavedLocked y v)) = vmFS v"
  by (simp_all add: deleteMsg_def markMsg_def openNextUnheardLocked_def reopenLocked_def newPlaybackSessionLocked_def
      openNextSavedLocked_def fs_openSaved Let_def case_prod_beta split: option.split)

lemma fs_key:
  "vmFS (snd (snd (keyNext js y d s v))) =
     (if d = ''7'' then snd (DeleteMessage y (psID s) (vmFS v))
      else if d = ''9'' \<and> \<not> psSaved s then snd (MarkHeard js y (psID s) (vmFS v)) else vmFS v)"
  by (simp add: keyNext_def case_prod_beta)

lemma fs_advance:
  "vmFS (voicemailAdvanceFromEOF js y sent c v) =
     (if vmStore v \<and> vmPlayback v = Some c \<and> \<not> psSaved (vmSessions v ! c)
      then snd (MarkHeard js y (psID (vmSessions v ! c)) (vmFS v)) else vmFS v)"
  by (simp add: voicemailAdvanceFromEOF_def Let_def case_prod_beta split: option.split sum.split)

lemma same_session [simp]:
  "psSaved (ss[c := (ss ! c)\<lparr>psPlayer := p\<rparr>] ! c) = psSaved (ss ! c) \<and> psID (ss[c := (ss ! c)\<lparr>psPlayer := p\<rparr>] ! c) = psID (ss ! c)"
  by (cases "c < length ss") (simp_all add: list_update_beyond not_less)

lemma fs_task:
  "vmFS (runTask js e t v) = vmFS v \<or>
   (\<exists>c. t \<in> {TDecoder c, TLoop c} \<and> vmPlayback v = Some c \<and> \<not> psSaved (vmSessions v ! c)
      \<and> vmFS (runTask js e t v) = snd (MarkHeard js (rnSys e) (psID (vmSessions v ! c)) (vmFS v)))"
proof (cases t)
  case (TLoop c)
  then show ?thesis
    by (auto simp: loopStep_def Let_def case_prod_beta fs_advance updSession_def split: playResult.split)
next
  case (TDecoder c)
  then show ?thesis by (simp add: fs_advance)
next
  case TSavedOpen
  obtain r w where o: "openNextSavedLocked (rnSys e) v = (r, w)" by fastforce
  then have "vmFS w = vmFS v" using fs_opens(5) by (metis snd_conv)
  then show ?thesis using TSavedOpen o by (simp split: option.split)
qed (simp_all add: loopStart_def Let_def split: option.split)

lemma fs_step:
  assumes "\<forall>g. m \<noteq> VmStore g" and "vmFS (vm_step js m v) \<noteq> vmFS v"
  obtains (delete) c y sent where "vmPlayback v = Some c" "m = VmKey y sent ''7''"
      "vmFS (vm_step js m v) = snd (DeleteMessage y (psID (vmSessions v ! c)) (vmFS v))"
    | (heard) c y where "vmPlayback v = Some c" "\<not> psSaved (vmSessions v ! c)"
      "(\<exists>sent. m = VmKey y sent ''9'')
       \<or> (\<exists>n e. m = VmRun n e \<and> y = rnSys e \<and> n < length (vmTasks v) \<and> vmTasks v ! n \<in> {TDecoder c, TLoop c})"
      "vmFS (vm_step js m v) = snd (MarkHeard js y (psID (vmSessions v ! c)) (vmFS v))"
proof (cases m)
  case (VmEnter y)
  then show thesis using assms(2)
    by (simp add: VoicemailEnterPlayback_def Let_def case_prod_beta split: option.splits sum.splits if_splits)
next
  case (VmExit y)
  then show thesis using assms(2) by (simp add: VoicemailExitPlayback_def)
next
  case (VmStore g)
  then show thesis using assms(1) by simp
next
  case (VmKey y sent d)
  then obtain c where c: "vmPlayback v = Some c" "d \<in> {''7'', ''9'', ''#'', ''*''}"
    using assms(2) by (auto simp: VoicemailKey_def split: if_splits option.splits)
  then have "vmFS (vm_step js m v) = vmFS (snd (snd (keyNext js y d (vmSessions v ! c) (teardownPlaybackLocked v))))"
    using VmKey assms(2)
    by (simp add: VoicemailKey_def Let_def case_prod_beta split: option.split sum.split if_splits)
  then show thesis using c VmKey assms(2) heard [of c y] delete [of c y sent] by (simp add: fs_key split: if_splits)
next
  case (VmRun n e)
  then have n: "n < length (vmTasks v)" using assms(2) by (simp split: if_splits)
  then have "vmFS (vm_step js m v) = vmFS (runTask js e (vmTasks v ! n) (taken n v))" using VmRun by (simp add: taken_def)
  then show thesis using fs_task [of js e "vmTasks v ! n" "taken n v"] assms(2) heard [of _ "rnSys e"] n VmRun
    by (auto simp: taken_def)
qed

text \<open>A directory with one unheard message, and somebody who listens to it.\<close>

definition oneUnheard :: FS where
  "oneUnheard = \<lparr>fsNames = [(''5.frames'', 0), (''5.meta'', 1)],
     fsNodes = [\<lparr>fnData = frameBytes [1, 2], fnSynced = True\<rparr>, \<lparr>fnData = [0], fnSynced = True\<rparr>], fsPower = None\<rparr>"

definition listening :: vm where
  "listening = vm_step flagJson (VmEnter fineSys) (newVm True True oneUnheard)"

lemma oneUnheard_ok: "disk_ok {} oneUnheard"
  by (auto simp: disk_ok_def oneUnheard_def mwf_def isTmp_def split: if_splits)

lemma listening_facts:
  "vmPlayback listening = Some 0" "psID (vmSessions listening ! 0) = 5" "vmFS listening = oneUnheard"
  "vmPlayback (vm_step flagJson (VmKey fineSys True ''7'') listening) = None"
  "length (vmSessions (vm_step flagJson (VmKey fineSys True ''7'') listening)) = 1"
  "content (framesPath 5) (vmFS (vm_step flagJson (VmKey fineSys True ''7'') listening)) = None"
  "content (framesPath 5) oneUnheard = Some (frameBytes [1, 2])"
  by code_simp+



section \<open>Sessions are closed once\<close>



end
