(* ===== verification/Mailbox_Spec.thy ===== *)
theory Mailbox_Spec
  imports Mailbox_Runs "HOL-Library.Multiset"
begin

text \<open>
  The mailbox without files: \<open>spec_step\<close> says what each operation means, \<open>absMail\<close> reads the abstract
  state off the directory, and \<open>eff\<close> says what the calls do to the final files when nothing fails.
\<close>

section \<open>What the mailbox is for\<close>

text \<open>A message is whether it was heard and its frames.\<close>

record mailSpec =
  spMsgs :: "int \<Rightarrow> (bool \<times> bytes list) option"
  spGreeting :: "bytes list option"
  spRecs :: "(int \<times> bytes list \<times> bool) list"
  spPlayers :: "bytes list list"

definition newest :: "int \<Rightarrow> (int \<Rightarrow> 'a option) \<Rightarrow> int \<Rightarrow> 'a option" where
  "newest k M = (if k \<le> 0 then M else M |` {i. card {j \<in> dom M. i < j} < nat k})"

fun spec_step :: "int \<Rightarrow> mailMove \<Rightarrow> mailSpec \<Rightarrow> mailSpec" where
  "spec_step k (MvBegin y now) a = a\<lparr>spRecs := spRecs a @ [(now, [], False)]\<rparr>"
| "spec_step k (MvBeginGreeting y) a = a\<lparr>spRecs := spRecs a @ [(0, [], False)]\<rparr>"
| "spec_step k (MvAppend n y p) a =
     (if n < length (spRecs a) \<and> length p \<le> 65535 then
        case spRecs a ! n of (i, fs, closed) \<Rightarrow>
          if closed then a else a\<lparr>spRecs := (spRecs a)[n := (i, fs @ [p], False)]\<rparr>
      else a)"
| "spec_step k (MvFinalize n y) a =
     (if n < length (spRecs a) then
        case spRecs a ! n of (i, fs, closed) \<Rightarrow>
          if closed then a
          else let a = a\<lparr>spRecs := (spRecs a)[n := (i, [], True)]\<rparr> in
            if fs = [] then a
            else if i = 0 then a\<lparr>spGreeting := Some fs\<rparr>
            else a\<lparr>spMsgs := newest k ((spMsgs a)(i \<mapsto> (False, fs)))\<rparr>
      else a)"
| "spec_step k (MvDiscard n y) a =
     (if n < length (spRecs a) then a\<lparr>spRecs := (spRecs a)[n := (fst (spRecs a ! n), [], True)]\<rparr> else a)"
| "spec_step k (MvHeard y i) a =
     a\<lparr>spMsgs := (\<lambda>j. if j = i then map_option (\<lambda>(_, fs). (True, fs)) (spMsgs a j) else spMsgs a j)\<rparr>"
| "spec_step k (MvDelete y i) a = a\<lparr>spMsgs := (spMsgs a)(i := None)\<rparr>"
| "spec_step k (MvDeleteGreeting y) a = a\<lparr>spGreeting := None\<rparr>"
| "spec_step k (MvPlay y i) a =
     (case spMsgs a i of None \<Rightarrow> a | Some (_, fs) \<Rightarrow> a\<lparr>spPlayers := spPlayers a @ [fs]\<rparr>)"
| "spec_step k (MvPlayGreeting y) a =
     (case spGreeting a of None \<Rightarrow> a | Some fs \<Rightarrow> a\<lparr>spPlayers := spPlayers a @ [fs]\<rparr>)"
| "spec_step k (MvNext n ok) a =
     (if n < length (spPlayers a) then a\<lparr>spPlayers := (spPlayers a)[n := tl (spPlayers a ! n)]\<rparr> else a)"
| "spec_step k (MvCut n torn y m) a = a\<lparr>spRecs := [], spPlayers := []\<rparr>"

text \<open>Moves without a failing call; the power may go between two moves.\<close>

fun fine :: "mailMove \<Rightarrow> bool" where
  "fine (MvNext n ok) \<longleftrightarrow> ok"
| "fine (MvBegin y now) \<longleftrightarrow> y = fineSys"
| "fine (MvBeginGreeting y) \<longleftrightarrow> y = fineSys"
| "fine (MvAppend n y p) \<longleftrightarrow> y = fineSys"
| "fine (MvFinalize n y) \<longleftrightarrow> y = fineSys"
| "fine (MvDiscard n y) \<longleftrightarrow> y = fineSys"
| "fine (MvHeard y i) \<longleftrightarrow> y = fineSys"
| "fine (MvDelete y i) \<longleftrightarrow> y = fineSys"
| "fine (MvDeleteGreeting y) \<longleftrightarrow> y = fineSys"
| "fine (MvPlay y i) \<longleftrightarrow> y = fineSys"
| "fine (MvPlayGreeting y) \<longleftrightarrow> y = fineSys"
| "fine (MvCut n torn y m) \<longleftrightarrow> y = fineSys \<and> m = MvNext 0 True"

section \<open>The abstraction\<close>

definition heardOf :: "json \<Rightarrow> FS \<Rightarrow> int \<Rightarrow> bool" where
  "heardOf js fs i =
     (case content (metaPath i) fs of None \<Rightarrow> False
      | Some bs \<Rightarrow> (case jsUnmarshal js bs of None \<Rightarrow> False | Some m \<Rightarrow> mfHeard m))"

definition absMsgs :: "json \<Rightarrow> FS \<Rightarrow> int \<Rightarrow> (bool \<times> bytes list) option" where
  "absMsgs js fs i = map_option (\<lambda>bs. (heardOf js fs i, framesOf bs)) (content (framesPath i) fs)"

definition absRec :: "FS \<Rightarrow> Recorder \<Rightarrow> int \<times> bytes list \<times> bool" where
  "absRec fs r = (rcID r, if rcClosed r then [] else framesOf (fnData (fsNodes fs ! rcNode r)), rcClosed r)"

definition absPlayer :: "FS \<Rightarrow> Player \<Rightarrow> bytes list" where
  "absPlayer fs p = framesOf (drop (plOff p) (fnData (fsNodes fs ! plNode p)))"

definition absMail :: "json \<Rightarrow> mailbox \<Rightarrow> mailSpec" where
  "absMail js s = \<lparr>spMsgs = absMsgs js (mbFS s), spGreeting = map_option framesOf (content greetingFile (mbFS s)),
     spRecs = map (absRec (mbFS s)) (mbRecs s), spPlayers = map (absPlayer (mbFS s)) (mbPlayers s)\<rparr>"

section \<open>What it needs\<close>

definition canonName :: "string \<Rightarrow> bool" where
  "canonName n \<longleftrightarrow> isTmp n \<or> n = greetingFile \<or> (\<exists>i. n = metaPath i) \<or> (\<exists>i. 0 < i \<and> i < 2 ^ 63 \<and> n = framesPath i)"

definition rec_data :: "FS \<Rightarrow> Recorder \<Rightarrow> bool" where
  "rec_data fs r \<longleftrightarrow> rcClosed r \<or>
     (\<exists>ps. shortFrames ps \<and> fnData (fsNodes fs ! rcNode r) = encoded ps \<and> rcOff r = length (encoded ps)
        \<and> rcFrames r = int (length ps))"

text \<open>The directory as its final files.\<close>

definition view :: "FS \<Rightarrow> string \<Rightarrow> bytes option" where
  "view fs n = (if isTmp n then None else content n fs)"

definition view_ok :: "json \<Rightarrow> (string \<Rightarrow> bytes option) \<Rightarrow> bool" where
  "view_ok js v \<longleftrightarrow> (\<forall>n. v n \<noteq> None \<longrightarrow> canonName n) \<and> (\<forall>i bs. v (metaPath i) = Some bs \<longrightarrow> jsUnmarshal js bs \<noteq> None)"

definition ref_inv :: "json \<Rightarrow> mailbox \<Rightarrow> bool" where
  "ref_inv js s \<longleftrightarrow> mail_inv s \<and> view_ok js (view (mbFS s)) \<and> list_all (rec_data (mbFS s)) (mbRecs s)"


lemma content_view: "\<not> isTmp n \<Longrightarrow> content n fs = view fs n"
  by (simp add: view_def)

lemma view_power [simp]: "view (fs\<lparr>fsPower := p\<rparr>) = view fs"
  by (rule ext) (simp add: view_def)

section \<open>What the calls do when nothing fails\<close>

text \<open>From \<open>fs\<close> to \<open>fs'\<close>, whose final files are \<open>v\<close>; files that recorders hold or players read stay.\<close>

definition eff :: "(string \<times> nat) set \<Rightarrow> (string \<Rightarrow> bytes option) \<Rightarrow> FS \<Rightarrow> FS \<Rightarrow> bool" where
  "eff R v fs fs' \<longleftrightarrow> disk_ok R fs' \<and> fsPower fs' = None \<and> (\<forall>(t, k) \<in> R. fsNodes fs' ! k = fsNodes fs ! k)
     \<and> (\<forall>j. frozen fs j \<longrightarrow> frozen fs' j \<and> fsNodes fs' ! j = fsNodes fs ! j) \<and> view fs' = v"

lemma eff_refl: "disk_ok R fs \<Longrightarrow> fsPower fs = None \<Longrightarrow> eff R (view fs) fs fs"
  by (auto simp: eff_def)

lemma eff_trans: "eff R v a b \<Longrightarrow> eff R w b c \<Longrightarrow> eff R w a c"
  by (fastforce simp: eff_def)

lemma effD: "eff R v a b \<Longrightarrow> disk_ok R b" "eff R v a b \<Longrightarrow> fsPower b = None" "eff R v a b \<Longrightarrow> view b = v"
  by (simp_all add: eff_def)

lemma fine_calls [simp]: "syOk fineSys c" "syWrote fineSys n = None"
  by (simp_all add: fineSys_def)

lemma powered_on: "fsPower fs = None \<Longrightarrow> powered g fs = (g fs)\<lparr>fsPower := None\<rparr>"
  by (simp add: powered_def)

lemma eff_remove:
  assumes "disk_ok R fs" and "fsPower fs = None" and "n \<notin> fst ` R"
  shows "eff R ((view fs)(n := None)) fs (snd (removeFile fineSys n fs))"
    and "fst (removeFile fineSys n fs) \<noteq> RemoveFailed"
proof -
  have "view (snd (removeFile fineSys n fs)) = (view fs)(n := None)"
    using assms(2) by (auto simp: removeFile_def powered_on view_def content_def fun_eq_iff)
  moreover have "fsNodes (snd (removeFile fineSys n fs)) = fsNodes fs"
    using assms(2) by (simp add: removeFile_def powered_on)
  ultimately show "eff R ((view fs)(n := None)) fs (snd (removeFile fineSys n fs))"
    using removeFile_ok [OF assms(1,3), of fineSys] assms(2) by (auto simp: eff_def kept_def)
  show "fst (removeFile fineSys n fs) \<noteq> RemoveFailed" by (simp add: removeFile_def)
qed

lemma eff_removeTmp:
  assumes "disk_ok R fs" and "fsPower fs = None" and "isTmp n" and "n \<notin> fst ` R"
  shows "eff R (view fs) fs (snd (removeFile fineSys n fs))"
proof -
  have "(view fs)(n := None) = view fs" using assms(3) by (auto simp: view_def)
  then show ?thesis using eff_remove [OF assms(1,2,4)] by simp
qed

lemma eff_open:
  assumes "disk_ok R fs" and "fsPower fs = None" and "isTmp n" and "n \<notin> fst ` R"
  obtains k f where "openTrunc fineSys n fs = (Some k, f)" "eff R (view fs) fs f" "disk_ok (insert (n, k) R) f"
    "fnData (fsNodes f ! k) = []"
proof -
  obtain r f where o: "openTrunc fineSys n fs = (r, f)" by fastforce
  have f: "f = (truncNode n fs)\<lparr>fsPower := None\<rparr>"
    using o assms(2) by (simp add: openTrunc_def powered_on Let_def)
  obtain k where k: "map_of (fsNames (truncNode n fs)) n = Some k" "disk_ok (insert (n, k) R) (truncNode n fs)"
    and kept: "kept {} fs (truncNode n fs)" using truncNode_ok [OF assms(1,3,4)] by auto
  then have r: "r = Some k" using o assms(2) by (simp add: openTrunc_def powered_on Let_def)
  have "fnData (fsNodes (truncNode n fs) ! k) = []"
  proof (cases "map_of (fsNames fs) n")
    case (Some i)
    then have "i < length (fsNodes fs)" using assms(1) unfolding disk_ok_def by blast
    then show ?thesis using Some k(1) by (simp add: truncNode_def)
  qed (use k(1) in \<open>auto simp: truncNode_def\<close>)
  moreover have "fsNodes f ! j = fsNodes fs ! j" if "(t, j) \<in> R" for t j
  proof -
    have t: "map_of (fsNames fs) t = Some j" using assms(1) that by (auto simp: disk_ok_def)
    moreover have "t \<noteq> n" using assms(4) that by force
    ultimately have "map_of (fsNames fs) n \<noteq> Some j" using assms(1) unfolding disk_ok_def by blast
    moreover have "j < length (fsNodes fs)" using assms(1) t unfolding disk_ok_def by blast
    ultimately show ?thesis by (auto simp: f truncNode_def nth_append split: option.split)
  qed
  moreover have "view f m = view fs m" for m
    using kept_content [OF kept assms(1)] by (auto simp: f view_def)
  ultimately show thesis
    using o r k kept openTrunc_ok(2) [OF assms(1,3,4) o] by (intro that [of k f]) (auto simp: eff_def f kept_def fun_eq_iff)
qed

lemma updNode_eff:
  fixes g :: "fileNode \<Rightarrow> fileNode"
  assumes "disk_ok (insert (t, k) R) fs" and "fsPower fs = None" and "t \<notin> fst ` R"
  defines "f \<equiv> powered (updNode k g) fs"
  shows "eff R (view fs) fs f" and "disk_ok (insert (t, k) R) f" and "fsNodes f ! k = g (fsNodes fs ! k)"
proof -
  have f: "f = (updNode k g fs)\<lparr>fsPower := None\<rparr>" using assms(2) by (simp add: f_def powered_on)
  note u = updNode_ok [OF assms(1), of g]
  show d: "disk_ok (insert (t, k) R) f" using u by (simp add: f)
  have k: "map_of (fsNames fs) t = Some k" "k < length (fsNodes fs)" using assms(1) by (auto simp: disk_ok_def)
  then show "fsNodes f ! k = g (fsNodes fs ! k)" by (simp add: f updNode_def)
  have "j \<noteq> k" if "(u, j) \<in> R" for u j
  proof
    assume "j = k"
    then have "map_of (fsNames fs) u = Some k" using assms(1) that by (auto simp: disk_ok_def)
    then have "u = t" using assms(1) k(1) by (auto simp: disk_ok_def)
    then show False using assms(3) that by force
  qed
  then have "fsNodes f ! j = fsNodes fs ! j" if "(u, j) \<in> R" for u j
  proof -
    have "k \<noteq> j" using \<open>\<And>u j. (u, j) \<in> R \<Longrightarrow> j \<noteq> k\<close> [OF that] by simp
    then show ?thesis by (simp add: f updNode_def)
  qed
  moreover have "view f m = view fs m" for m
    using kept_content [OF u(2) assms(1)] by (auto simp: f view_def)
  ultimately show "eff R (view fs) fs f"
    using d u(2) by (auto simp: eff_def f kept_def fun_eq_iff intro: disk_mono)
qed

lemma eff_rename:
  assumes "disk_ok (insert (t, k) R) fs" and "fsPower fs = None" and "t \<notin> fst ` R" and "\<not> isTmp b"
    and "fnSynced (fsNodes fs ! k)"
  shows "eff R ((view fs)(b \<mapsto> fnData (fsNodes fs ! k))) fs (renameFile t b fs)"
proof -
  have d: "disk_ok R fs" by (rule disk_mono [OF assms(1)]) auto
  then have l: "live_ok t k R fs" using assms(1) by (simp add: live_ok_def)
  note r = renameFile_ok [OF l disjI2 [OF assms(5)] assms(4,3)]
  have nodes: "fsNodes (renameFile t b fs) = fsNodes fs"
    using assms(2) by (auto simp: renameFile_def powered_on split: option.split)
  have "view (renameFile t b fs) n = ((view fs)(b \<mapsto> fnData (fsNodes fs ! k))) n" for n
    using r(3) kept_content [OF r(2) d, of n] assms(2,4) nodes
    by (auto simp: view_def content_def off_def)
  then show ?thesis using r nodes assms(2) by (auto simp: eff_def kept_def fun_eq_iff)
qed

lemma writeAt_start [simp]: "writeAt 0 bs [] = bs"
  by (simp add: writeAt_def)

lemma eff_writeMeta:
  assumes "disk_ok R fs" and "fsPower fs = None" and "tmpOf (metaPath i) \<notin> fst ` R"
  obtains f where "writeMeta js fineSys i m fs = (True, f)" "eff R ((view fs)(metaPath i \<mapsto> jsMarshal js m)) fs f"
proof -
  let ?t = "tmpOf (metaPath i)"
  obtain k f1 where o: "openTrunc fineSys ?t fs = (Some k, f1)" and e1: "eff R (view fs) fs f1"
    and d1: "disk_ok (insert (?t, k) R) f1" and n1: "fnData (fsNodes f1 ! k) = []"
    using eff_open [OF assms(1,2) _ assms(3)] by auto
  let ?f2 = "writeNode k 0 (jsMarshal js m) f1" and ?f3 = "syncNode k (writeNode k 0 (jsMarshal js m) f1)"
  note w = updNode_eff [OF d1 effD(2) [OF e1] assms(3), where g = "\<lambda>n. \<lparr>fnData = writeAt 0 (jsMarshal js m) (fnData n), fnSynced = False\<rparr>",
      folded writeNode_def]
  note y = updNode_eff [OF w(2) effD(2) [OF w(1)] assms(3), where g = "\<lambda>n. n\<lparr>fnSynced := True\<rparr>", folded syncNode_def]
  have data: "fnData (fsNodes ?f3 ! k) = jsMarshal js m" "fnSynced (fsNodes ?f3 ! k)"
    using n1 w(3) y(3) by simp_all
  have "eff R (view fs) fs ?f3" using eff_trans [OF e1 eff_trans [OF w(1) y(1)]] effD(3) [OF e1] effD(3) [OF w(1)] by simp
  moreover note eff_rename [OF y(2) effD(2) [OF y(1)] assms(3) _ data(2), of "metaPath i"]
  ultimately have "eff R ((view fs)(metaPath i \<mapsto> jsMarshal js m)) fs (renameFile ?t (metaPath i) ?f3)"
    using data(1) effD(3) by (auto intro: eff_trans)
  then show thesis using o by (intro that) (auto simp: writeMeta_def Let_def)
qed


lemma eff_same: "eff R v a b \<Longrightarrow> v = w \<Longrightarrow> eff R w a b"
  by simp

lemma readMeta_view: "readMeta js fineSys i fs = (case view fs (metaPath i) of None \<Rightarrow> Some noMeta | Some bs \<Rightarrow> jsUnmarshal js bs)"
  by (simp add: readMeta_def content_view split: option.split)

lemma heardOf_view: "heardOf js fs i = (case readMeta js fineSys i fs of None \<Rightarrow> False | Some m \<Rightarrow> mfHeard m)"
  by (simp add: heardOf_def readMeta_view content_view noMeta_def split: option.split)

lemma eff_removeMessage:
  assumes "disk_ok R fs" and "fsPower fs = None"
  obtains f where "removeMessageLocked fineSys i fs = (True, f)" "eff R ((view fs)(framesPath i := None, metaPath i := None)) fs f"
proof -
  obtain a f1 where a: "removeFile fineSys (framesPath i) fs = (a, f1)" by fastforce
  have e1: "eff R ((view fs)(framesPath i := None)) fs f1" "a \<noteq> RemoveFailed"
    using eff_remove [OF assms disk_finals [OF assms(1)], of "framesPath i"] a by auto
  obtain b f2 where b: "removeFile fineSys (metaPath i) f1 = (b, f2)" by fastforce
  have e2: "eff R ((view f1)(metaPath i := None)) f1 f2" "b \<noteq> RemoveFailed"
    using eff_remove [OF effD(1,2) [OF e1(1)] disk_finals [OF effD(1) [OF e1(1)]], of "metaPath i"] b by auto
  have "eff R ((view fs)(framesPath i := None, metaPath i := None)) fs f2"
    using eff_trans [OF e1(1) e2(1)] effD(3) [OF e1(1)] by simp
  then show thesis
    using a b e1(2) e2(2) by (intro that) (cases a; cases b; simp add: removeMessageLocked_def)+
qed

definition without :: "int set \<Rightarrow> (string \<Rightarrow> bytes option) \<Rightarrow> string \<Rightarrow> bytes option" where
  "without I v n = (if n \<in> framesPath ` I \<union> metaPath ` I then None else v n)"

lemma eff_removeMessages:
  assumes "disk_ok R fs" and "fsPower fs = None"
  shows "eff R (without (set ks) (view fs)) fs (snd (removeMessages fineSys ks fs))"
  using assms
proof (induction ks arbitrary: fs)
  case Nil
  then show ?case using eff_refl by (simp add: without_def eff_def fun_eq_iff)
next
  case (Cons i ks)
  obtain f where f: "removeMessageLocked fineSys i fs = (True, f)"
    "eff R ((view fs)(framesPath i := None, metaPath i := None)) fs f"
    using eff_removeMessage [OF Cons.prems] .
  have "without (set ks) (view f) = without (set (i # ks)) (view fs)"
    using effD(3) [OF f(2)] by (auto simp: without_def fun_eq_iff)
  then show ?case using f(1) eff_trans [OF f(2) Cons.IH [OF effD(1,2) [OF f(2)]]] by simp
qed

section \<open>Retention\<close>

lemma oldest_of_sorted:
  assumes "sorted xs" and "distinct xs"
  shows "i \<in> set (take (length xs - k) xs) \<longleftrightarrow> i \<in> set xs \<and> k \<le> length (filter (\<lambda>j. i < j) xs)"
  using assms
proof (induction xs)
  case (Cons x xs)
  show ?case
  proof (cases "k \<le> length xs")
    case True
    then have "length (x # xs) - k = Suc (length xs - k)" by simp
    moreover have "filter (\<lambda>j. x < j) xs = xs"
      using Cons.prems by (auto simp: filter_id_conv order.strict_iff_order)
    moreover have "x \<notin> set (take (length xs - k) xs)" using Cons.prems by (auto dest: in_set_takeD)
    moreover have "\<not> i < x" if "i \<in> set xs" using that Cons.prems by auto
    ultimately show ?thesis using Cons True by (cases "i = x") auto
  next
    case False
    moreover have "length (filter (\<lambda>j. i < j) (x # xs)) < k" if "i \<in> set (x # xs)"
    proof (cases "i = x")
      case True
      then show ?thesis using False by (simp add: le_less_trans [OF length_filter_le])
    next
      case n: False
      then have "\<not> i < x" using that Cons.prems by auto
      then show ?thesis using False by (simp add: le_less_trans [OF length_filter_le])
    qed
    ultimately show ?thesis by auto
  qed
qed simp

lemma canonIDs:
  assumes "disk_ok R fs" and "view_ok js (view fs)"
  shows "distinct (storedIDs fs)" and "set (storedIDs fs) = dom (absMsgs js fs)"
    and "i \<in> dom (absMsgs js fs) \<Longrightarrow> 0 < i \<and> i < 2 ^ 63"
proof -
  have canon: "\<exists>i. 0 < i \<and> i < 2 ^ 63 \<and> n = framesPath i" if "n \<in> set (mkeys (fsNames fs))" "idOf n \<noteq> None" for n
  proof -
    have nt: "\<not> isTmp n" using that(2) by (auto simp: idOf_def isTmp_def)
    have "map_of (fsNames fs) n \<noteq> None" using that(1) by (simp add: map_of_eq_None_iff)
    then have "view fs n \<noteq> None" using nt by (simp add: view_def content_def)
    then have "canonName n" using assms(2) by (simp add: view_ok_def)
    then show ?thesis using that(2) nt by (auto simp: canonName_def)
  qed
  have sub: "distinct (List.map_filter idOf ns) \<and> set (List.map_filter idOf ns) = {i. \<exists>n \<in> set ns. idOf n = Some i}"
    if "distinct ns" "set ns \<subseteq> set (mkeys (fsNames fs))" for ns
    using that
  proof (induction ns)
    case (Cons n ns)
    have "m = n" if m: "m \<in> set ns" and im: "idOf m = Some i" and iN: "idOf n = Some i" for m i
    proof -
      have names: "m \<in> set (mkeys (fsNames fs))" "n \<in> set (mkeys (fsNames fs))" using m Cons.prems(2) by auto
      obtain a where a: "0 < a" "a < 2 ^ 63" "m = framesPath a" using canon [OF names(1)] im by auto
      obtain b where b: "0 < b" "b < 2 ^ 63" "n = framesPath b" using canon [OF names(2)] iN by auto
      show ?thesis using a b im iN by simp
    qed
    then show ?case using Cons by (auto split: option.split)
  qed simp
  have w: "distinct (mkeys (fsNames fs))" using assms(1) by (simp add: disk_ok_def mwf_def)
  show "distinct (storedIDs fs)" using sub [OF w] by (simp add: storedIDs_def)
  have "i \<in> dom (absMsgs js fs) \<longleftrightarrow> 0 < i \<and> i < 2 ^ 63 \<and> framesPath i \<in> set (mkeys (fsNames fs))" for i
  proof -
    have "canonName (framesPath i)" if "content (framesPath i) fs \<noteq> None"
      using that assms(2) by (simp add: view_ok_def view_def)
    then have "0 < i \<and> i < 2 ^ 63" if "content (framesPath i) fs \<noteq> None"
      using that by (auto simp: canonName_def)
    then show ?thesis by (auto simp: absMsgs_def content_def dom_def map_of_eq_None_iff)
  qed
  moreover have "i \<in> set (storedIDs fs) \<longleftrightarrow> 0 < i \<and> i < 2 ^ 63 \<and> framesPath i \<in> set (mkeys (fsNames fs))" for i
  proof -
    have "i \<in> set (storedIDs fs) \<longleftrightarrow> (\<exists>n \<in> set (mkeys (fsNames fs)). idOf n = Some i)"
      using sub [OF w] by (simp add: storedIDs_def)
    moreover have "0 < i \<and> i < 2 ^ 63 \<and> n = framesPath i" if "n \<in> set (mkeys (fsNames fs))" "idOf n = Some i" for n
      using canon [OF that(1)] that(2) by auto
    ultimately show ?thesis by (metis idOf_paths(1))
  qed
  ultimately have "i \<in> set (storedIDs fs) \<longleftrightarrow> i \<in> dom (absMsgs js fs)" "i \<in> dom (absMsgs js fs) \<Longrightarrow> 0 < i \<and> i < 2 ^ 63" for i
    by blast+
  then show "set (storedIDs fs) = dom (absMsgs js fs)" "i \<in> dom (absMsgs js fs) \<Longrightarrow> 0 < i \<and> i < 2 ^ 63"
    by blast+
qed


lemma dom_finite: "disk_ok R fs \<Longrightarrow> finite (dom (absMsgs js fs))"
proof -
  have "dom (absMsgs js fs) \<subseteq> {i. framesPath i \<in> dom (map_of (fsNames fs))}"
    by (auto simp: absMsgs_def content_def dom_def)
  moreover have "finite {i. framesPath i \<in> dom (map_of (fsNames fs))}"
    by (rule finite_vimageI [of _ framesPath, unfolded vimage_def]) (auto simp: finite_dom_map_of inj_def)
  ultimately show ?thesis by (rule finite_subset)
qed

lemma in_map_filter: "m \<in> set (List.map_filter f xs) \<longleftrightarrow> (\<exists>n \<in> set xs. f n = Some m)"
  by (induction xs) (auto split: option.split)

text \<open>What \<open>List\<close> reports.\<close>

lemma list_reports:
  assumes "disk_ok R fs" and "view_ok js (view fs)"
  shows "map_option (map (\<lambda>m. (msID m, msHeard m))) (listLocked js fineSys fs)
    = Some (map (\<lambda>i. (i, fst (the (absMsgs js fs i)))) (sorted_list_of_set (dom (absMsgs js fs))))"
proof -
  let ?ms = "List.map_filter (messageOf js fineSys fs) (mkeys (fsNames fs))"
  let ?xs = "sort_key msID ?ms"
  have ids: "map msID ?xs = sort (map msID ?ms)" by (rule properties_for_sort [symmetric]) simp_all
  have "map msID ?ms = storedIDs fs" by (simp add: map_filter_ids storedIDs_def)
  then have xs: "map msID ?xs = sorted_list_of_set (dom (absMsgs js fs))"
    using ids canonIDs [OF assms] by (metis sorted_list_of_set_sort_remdups distinct_remdups_id)
  have "msHeard m = fst (the (absMsgs js fs (msID m)))" if m: "m \<in> set ?xs" for m
  proof -
    obtain n where n: "messageOf js fineSys fs n = Some m" using m by (auto simp: in_map_filter)
    have "msID m \<in> dom (absMsgs js fs)" using m canonIDs(2) [OF assms] \<open>map msID ?ms = storedIDs fs\<close>
      by (metis list.set_map imageI set_sort)
    moreover have "msHeard m = heardOf js fs (msID m)"
      using n by (auto simp: messageOf_def Let_def heardOf_view noMeta_def split: if_splits option.splits)
    ultimately show ?thesis by (auto simp: absMsgs_def)
  qed
  then have "map (\<lambda>m. (msID m, msHeard m)) ?xs = map (\<lambda>i. (i, fst (the (absMsgs js fs i)))) (map msID ?xs)"
    by simp
  then show ?thesis by (simp add: listLocked_def xs)
qed

lemma absMsgs_view: "view fs = v \<Longrightarrow> absMsgs js fs =
    (\<lambda>i. map_option (\<lambda>bs. (case v (metaPath i) of None \<Rightarrow> False
       | Some b \<Rightarrow> (case jsUnmarshal js b of None \<Rightarrow> False | Some m \<Rightarrow> mfHeard m), framesOf bs)) (v (framesPath i)))"
  by (rule ext) (auto simp: absMsgs_def heardOf_def content_view)

lemma absMsgs_without: "view f = without I (view fs) \<Longrightarrow> absMsgs js f i = (if i \<in> I then None else absMsgs js fs i)"
  by (auto simp: absMsgs_def heardOf_def content_view without_def)

lemma eff_evict:
  assumes "disk_ok R fs" and "fsPower fs = None" and "view_ok js (view fs)"
  shows "\<exists>v. eff R v fs (snd (evictLocked js fineSys k fs)) \<and> v greetingFile = view fs greetingFile
      \<and> view_ok js v \<and> absMsgs js (snd (evictLocked js fineSys k fs)) = newest k (absMsgs js fs)"
proof (cases "k \<le> 0")
  case True
  then show ?thesis using eff_refl [OF assms(1,2)] assms(3) by (auto simp: evictLocked_def newest_def)
next
  case False
  let ?ids = "sorted_list_of_set (dom (absMsgs js fs))"
  obtain ms where ms: "listLocked js fineSys fs = Some ms" by (auto simp: listLocked_def)
  have "map (\<lambda>m. (msID m, msHeard m)) ms = map (\<lambda>i. (i, fst (the (absMsgs js fs i)))) ?ids"
    using list_reports [OF assms(1,3)] ms by simp
  from arg_cong [OF this, of "map fst"] have ids: "map msID ms = ?ids" by (simp add: comp_def)
  let ?old = "take (length ?ids - nat k) ?ids"
  have len: "length ms = length ?ids" using arg_cong [OF ids, of length] by simp
  let ?f = "snd (evictLocked js fineSys k fs)"
  have e: "eff R (without (set ?old) (view fs)) fs ?f"
    using eff_removeMessages [OF assms(1,2), of ?old] False ms
    by (simp add: evictLocked_def take_map [symmetric] ids len)
  have fin: "finite (dom (absMsgs js fs))" by (rule dom_finite [OF assms(1)])
  have old: "i \<in> set ?old \<longleftrightarrow> i \<in> dom (absMsgs js fs) \<and> nat k \<le> card {j \<in> dom (absMsgs js fs). i < j}" for i
  proof -
    have "length (filter (\<lambda>j. i < j) ?ids) = card (set (filter (\<lambda>j. i < j) ?ids))"
      by (rule distinct_card [symmetric]) simp
    then show ?thesis using oldest_of_sorted [of ?ids i "nat k"] fin by (simp add: set_filter)
  qed
  note gone = absMsgs_without [OF effD(3) [OF e], of js]
  have "absMsgs js ?f i = newest k (absMsgs js fs) i" for i
    using False old [of i] by (cases "absMsgs js fs i") (auto simp: gone newest_def restrict_map_def)
  moreover have "view_ok js (without (set ?old) (view fs))"
    using assms(3) by (auto simp: view_ok_def without_def)
  ultimately show ?thesis using e by (intro exI [of _ "without (set ?old) (view fs)"]) (auto simp: without_def)
qed

end
