(* ===== verification/Mailbox_Refines.thy ===== *)
theory Mailbox_Refines
  imports Mailbox_Spec
begin

text \<open>
  Step by step the mailbox on disk does what \<open>spec_step\<close> says: one lemma per operation
  (\<open>_sim\<close>), put together in \<open>mailbox_refines\<close>.
\<close>

lemma eff_recs:
  assumes "eff R v fs fs'" and "\<forall>r \<in> set rs. \<not> rcClosed r \<longrightarrow> (rcTmp r, rcNode r) \<in> R"
  shows "map (absRec fs') rs = map (absRec fs) rs" and "list_all (rec_data fs') rs = list_all (rec_data fs) rs"
proof -
  have same: "rcClosed r \<or> fsNodes fs' ! rcNode r = fsNodes fs ! rcNode r" if "r \<in> set rs" for r
    using assms that by (fastforce simp: eff_def)
  then show "map (absRec fs') rs = map (absRec fs) rs" by (intro map_cong refl) (force simp: absRec_def)
  have "rec_data fs' r = rec_data fs r" if "r \<in> set rs" for r
    using same [OF that] by (auto simp only: rec_data_def)
  then show "list_all (rec_data fs') rs = list_all (rec_data fs) rs" by (simp add: list_all_iff)
qed

lemma eff_players:
  assumes "eff R v fs fs'" and "list_all (\<lambda>p. frozen fs (plNode p)) ps"
  shows "map (absPlayer fs') ps = map (absPlayer fs) ps"
  using assms by (auto simp: absPlayer_def eff_def list_all_iff)

lemma list_all_upd: "list_all P xs \<Longrightarrow> P x \<Longrightarrow> list_all P (xs[k := x])"
  by (auto simp: list_all_iff dest!: in_set_list_updateD)

lemma held_all: "\<forall>r \<in> set rs. \<not> rcClosed r \<longrightarrow> (rcTmp r, rcNode r) \<in> held rs"
  by (auto simp: held_def)

lemma ref_invD:
  assumes "ref_inv js s"
  shows "disk_ok (held (mbRecs s)) (mbFS s)" "fsPower (mbFS s) = None" "recs_ok (mbRecs s)"
    "list_all (\<lambda>p. frozen (mbFS s) (plNode p)) (mbPlayers s)" "view_ok js (view (mbFS s))" "list_all (rec_data (mbFS s)) (mbRecs s)"
  using assms by (auto simp: ref_inv_def mail_inv_def pre_ok_def)

text \<open>What a step has to show besides \<open>mail_inv\<close>.\<close>

definition sim :: "json \<Rightarrow> mailSpec \<Rightarrow> mailbox \<Rightarrow> bool" where
  "sim js a s \<longleftrightarrow> absMail js s = a \<and> view_ok js (view (mbFS s)) \<and> list_all (rec_data (mbFS s)) (mbRecs s)"

lemma absMsgs_eq: "view f = view g \<Longrightarrow> absMsgs js f = absMsgs js g"
  by (rule ext) (simp add: absMsgs_def heardOf_def content_view)

lemma open_sim:
  assumes "ref_inv js s" and "list_all (\<lambda>r. rcFinal r \<noteq> final) (openRecs s)"
  shows "sim js ((absMail js s)\<lparr>spRecs := spRecs (absMail js s) @ [(i, [], False)]\<rparr>)
    (addRec (openRecorderLocked fineSys i final d (mbFS s)) s)"
proof -
  note inv = ref_invD [OF assms(1)]
  have "tmpOf final \<notin> rcTmp ` set (filter (\<lambda>r. \<not> rcClosed r) (mbRecs s))"
    using inv(3) assms(2) by (auto simp: openRecs_def recs_ok_def rec_ok_def list_all_iff)
  then have t: "tmpOf final \<notin> fst ` held (mbRecs s)" by (auto simp: held_def)
  obtain k f where o: "openTrunc fineSys (tmpOf final) (mbFS s) = (Some k, f)" "eff (held (mbRecs s)) (view (mbFS s)) (mbFS s) f"
    "fnData (fsNodes f ! k) = []"
    using eff_open [OF inv(1,2) isTmp_simps(1) t] by blast
  have v: "view f = view (mbFS s)" using effD(3) [OF o(2)] .
  show ?thesis
    using o(1,3) inv(5,6) eff_recs [OF o(2) held_all] eff_players [OF o(2) inv(4)] absMsgs_eq [OF v, of js] v
    by (auto simp: sim_def absMail_def addRec_def openRecorderLocked_def absRec_def rec_data_def content_view
        intro!: exI [of _ "[]"])
qed

lemma fs_sim:
  assumes "ref_inv js s" and "eff (held (mbRecs s)) v (mbFS s) fs'" and "view_ok js v"
  shows "sim js ((absMail js s)\<lparr>spMsgs := absMsgs js fs', spGreeting := map_option framesOf (v greetingFile)\<rparr>) (s\<lparr>mbFS := fs'\<rparr>)"
proof -
  note inv = ref_invD [OF assms(1)]
  show ?thesis
    using assms(3) inv(6) eff_recs [OF assms(2) held_all] eff_players [OF assms(2) inv(4)] effD(3) [OF assms(2)]
    by (auto simp: sim_def absMail_def content_view)
qed

text \<open>A step on one recorder, whose file no other one holds.\<close>

lemma rec_sim:
  assumes "ref_inv js s" and "k < length (mbRecs s)"
    and "eff (held ((mbRecs s)[k := (mbRecs s ! k)\<lparr>rcClosed := True\<rparr>])) v (mbFS s) fs'"
    and "view_ok js v" and "rec_data fs' r'"
  shows "sim js ((absMail js s)\<lparr>spMsgs := absMsgs js fs', spGreeting := map_option framesOf (v greetingFile),
      spRecs := (spRecs (absMail js s))[k := absRec fs' r']\<rparr>) (s\<lparr>mbRecs := (mbRecs s)[k := r'], mbFS := fs'\<rparr>)"
proof -
  note inv = ref_invD [OF assms(1)]
  let ?rs = "(mbRecs s)[k := (mbRecs s ! k)\<lparr>rcClosed := True\<rparr>]"
  have "map (absRec fs') ?rs = map (absRec (mbFS s)) ?rs" and data: "list_all (rec_data fs') ?rs = list_all (rec_data (mbFS s)) ?rs"
    using eff_recs [OF assms(3) held_all] by auto
  then have "(map (absRec fs') ?rs)[k := absRec fs' r'] = (map (absRec (mbFS s)) ?rs)[k := absRec fs' r']" by (simp only:)
  then have recs: "(map (absRec fs') (mbRecs s))[k := absRec fs' r'] = (map (absRec (mbFS s)) (mbRecs s))[k := absRec fs' r']"
    by (simp add: map_update)
  have "rec_data (mbFS s) ((mbRecs s ! k)\<lparr>rcClosed := True\<rparr>)" by (simp add: rec_data_def)
  with inv(6) have "list_all (rec_data (mbFS s)) ?rs" by (rule list_all_upd)
  with data have "list_all (rec_data fs') ?rs" by simp
  then have "list_all (rec_data fs') (?rs[k := r'])" using assms(5) by (rule list_all_upd)
  then have "list_all (rec_data fs') ((mbRecs s)[k := r'])" by simp
  then show ?thesis
    using assms(4) recs eff_players [OF assms(3) inv(4)] effD(3) [OF assms(3)]
    by (simp add: sim_def absMail_def content_view map_update)
qed

lemma encoded_data: "shortFrames ps \<Longrightarrow> framesOf (encoded ps) = ps"
  by simp

lemma writeAt_end [simp]: "writeAt (length d) bs d = d @ bs"
  by (simp add: writeAt_def)


lemma absMail_simps [simp]: "spMsgs (absMail js s) = absMsgs js (mbFS s)"
  "spGreeting (absMail js s) = map_option framesOf (view (mbFS s) greetingFile)"
  "spRecs (absMail js s) = map (absRec (mbFS s)) (mbRecs s)" "spPlayers (absMail js s) = map (absPlayer (mbFS s)) (mbPlayers s)"
  by (simp_all add: absMail_def content_view)

lemma absMail_msgs [simp]: "(absMail js s)\<lparr>spMsgs := absMsgs js (mbFS s), spRecs := x\<rparr> = (absMail js s)\<lparr>spRecs := x\<rparr>"
  by (simp add: absMail_def)

lemma absMail_greeting:
  "(absMail js s)\<lparr>spMsgs := X, spGreeting := map_option framesOf (view (mbFS s) greetingFile)\<rparr> = (absMail js s)\<lparr>spMsgs := X\<rparr>"
  by (simp add: absMail_def content_view)

lemma sim_same: "ref_inv js s \<Longrightarrow> sim js (absMail js s) s"
  using ref_invD by (simp add: sim_def)

lemma absRec_closed: "rcClosed r \<Longrightarrow> absRec fs r = (rcID r, [], True)"
  by (simp add: absRec_def)

lemma Append_sim:
  assumes "ref_inv js s"
  shows "sim js (spec_step (mbMax s) (MvAppend k fineSys p) (absMail js s)) (mail_step js (MvAppend k fineSys p) s)"
proof (cases "k < length (mbRecs s) \<and> \<not> rcClosed (mbRecs s ! k) \<and> length p \<le> 65535")
  case False
  then have "mail_step js (MvAppend k fineSys p) s = s" by (auto simp: onRec_def AppendFrame_def list_update_id)
  moreover have "spec_step (mbMax s) (MvAppend k fineSys p) (absMail js s) = absMail js s"
    using False by (auto simp: absRec_def)
  ultimately show ?thesis using sim_same [OF assms] by simp
next
  case True
  note inv = ref_invD [OF assms]
  let ?r = "mbRecs s ! k" and ?R = "held ((mbRecs s)[k := (mbRecs s ! k)\<lparr>rcClosed := True\<rparr>])"
  have d: "disk_ok (insert (rcTmp ?r, rcNode ?r) ?R) (mbFS s)" "rcTmp ?r \<notin> fst ` ?R"
    using inv(1) held_open [OF _ _ inv(3)] True by auto
  obtain ps where ps: "shortFrames ps" "fnData (fsNodes (mbFS s) ! rcNode ?r) = encoded ps" "rcOff ?r = length (encoded ps)"
    "rcFrames ?r = int (length ps)"
    using inv(6) True by (auto simp: list_all_length rec_data_def)
  let ?fs = "writeNode (rcNode ?r) (rcOff ?r) (frameBytes p) (mbFS s)"
  note w = updNode_eff [OF d(1) inv(2) d(2), where g = "\<lambda>n. \<lparr>fnData = writeAt (rcOff ?r) (frameBytes p) (fnData n), fnSynced = False\<rparr>",
      folded writeNode_def]
  have data: "fnData (fsNodes ?fs ! rcNode ?r) = encoded (ps @ [p])" using w(3) ps by simp
  let ?r' = "?r\<lparr>rcOff := rcOff ?r + 4 + length p, rcFrames := rcFrames ?r + 1\<rparr>"
  have short: "shortFrames (ps @ [p])" using ps(1) True by simp
  have "rec_data ?fs ?r'"
    unfolding rec_data_def using data short ps by (intro disjI2 exI [of _ "ps @ [p]"]) simp
  from rec_sim [OF assms _ w(1) inv(5) this] True
  have "sim js ((absMail js s)\<lparr>spMsgs := absMsgs js ?fs, spGreeting := map_option framesOf (view (mbFS s) greetingFile),
      spRecs := (spRecs (absMail js s))[k := absRec ?fs ?r']\<rparr>) (s\<lparr>mbRecs := (mbRecs s)[k := ?r'], mbFS := ?fs\<rparr>)" by simp
  moreover have "absMsgs js ?fs = absMsgs js (mbFS s)" by (rule absMsgs_eq [OF effD(3) [OF w(1)]])
  moreover have "absRec ?fs ?r' = (rcID ?r, ps @ [p], False)" "absRec (mbFS s) ?r = (rcID ?r, ps, False)"
  proof -
    have "framesOf (encoded (ps @ [p])) = ps @ [p]" using short by (rule framesOf_of_encoded)
    then show "absRec ?fs ?r' = (rcID ?r, ps @ [p], False)" using True data by (simp add: absRec_def del: encoded_simps)
    show "absRec (mbFS s) ?r = (rcID ?r, ps, False)" using True ps by (simp add: absRec_def)
  qed
  moreover have "mail_step js (MvAppend k fineSys p) s = s\<lparr>mbRecs := (mbRecs s)[k := ?r'], mbFS := ?fs\<rparr>"
    using True by (simp add: onRec_def AppendFrame_def Let_def add.assoc)
  moreover have "(absMail js s)\<lparr>spMsgs := absMsgs js (mbFS s), spGreeting := map_option framesOf (view (mbFS s) greetingFile), spRecs := x\<rparr>
      = (absMail js s)\<lparr>spRecs := x\<rparr>" for x
    by (simp add: absMail_def content_view)
  ultimately show ?thesis using True by simp
qed

lemma Discard_sim:
  assumes "ref_inv js s"
  shows "sim js (spec_step (mbMax s) (MvDiscard k fineSys) (absMail js s)) (mail_step js (MvDiscard k fineSys) s)"
proof (cases "k < length (mbRecs s) \<and> \<not> rcClosed (mbRecs s ! k)")
  case False
  then have "mail_step js (MvDiscard k fineSys) s = s" by (auto simp: onRec_def DiscardRec_def list_update_id)
  moreover have "spec_step (mbMax s) (MvDiscard k fineSys) (absMail js s) = absMail js s"
  proof (cases "k < length (mbRecs s)")
    case True
    then have "absRec (mbFS s) (mbRecs s ! k) = (rcID (mbRecs s ! k), [], True)" using False by (simp add: absRec_def)
    then have "(spRecs (absMail js s))[k := (fst (spRecs (absMail js s) ! k), [], True)] = spRecs (absMail js s)"
      using True by (metis absMail_simps(3) fst_conv list_update_id nth_map)
    then show ?thesis using True by (simp add: absMail_def)
  qed simp
  ultimately show ?thesis using sim_same [OF assms] by simp
next
  case True
  note inv = ref_invD [OF assms]
  let ?r = "mbRecs s ! k" and ?R = "held ((mbRecs s)[k := (mbRecs s ! k)\<lparr>rcClosed := True\<rparr>])"
  have open_rec: "held (mbRecs s) = insert (rcTmp ?r, rcNode ?r) ?R" "rcTmp ?r \<notin> fst ` ?R"
    using held_open [OF _ _ inv(3)] True by auto
  have d: "disk_ok ?R (mbFS s)" by (rule disk_mono [OF inv(1)]) (use open_rec in auto)
  have "isTmp (rcTmp ?r)" using inv(3) True by (auto simp: recs_ok_def list_all_length rec_ok_def)
  note e = eff_removeTmp [OF d inv(2) this open_rec(2)]
  let ?fs = "snd (removeFile fineSys (rcTmp ?r) (mbFS s))" and ?r' = "?r\<lparr>rcClosed := True\<rparr>"
  have c: "rec_data ?fs ?r'" by (simp add: rec_data_def)
  have m: "absMsgs js ?fs = absMsgs js (mbFS s)" by (rule absMsgs_eq [OF effD(3) [OF e]])
  from True have k: "k < length (mbRecs s)" by simp
  have "mail_step js (MvDiscard k fineSys) s = s\<lparr>mbRecs := (mbRecs s)[k := ?r'], mbFS := ?fs\<rparr>"
    using True by (simp add: onRec_def DiscardRec_def Let_def)
  moreover have "spec_step (mbMax s) (MvDiscard k fineSys) (absMail js s) =
      (absMail js s)\<lparr>spMsgs := absMsgs js ?fs, spGreeting := map_option framesOf (view (mbFS s) greetingFile),
         spRecs := (spRecs (absMail js s))[k := absRec ?fs ?r']\<rparr>"
    using k by (simp add: m absMail_def content_view absRec_def)
  ultimately show ?thesis using rec_sim [OF assms k e inv(5) c] by simp
qed


lemma view_ok_upd: "view_ok js v \<Longrightarrow> canonName n \<Longrightarrow> \<not> (\<exists>i. n = metaPath i) \<Longrightarrow> view_ok js (v(n \<mapsto> bs))"
  by (auto simp: view_ok_def)

lemma view_ok_meta: "view_ok js v \<Longrightarrow> jsUnmarshal js bs \<noteq> None \<Longrightarrow> view_ok js (v(metaPath i \<mapsto> bs))"
  by (auto simp: view_ok_def canonName_def)

lemma view_ok_del: "view_ok js v \<Longrightarrow> view_ok js (v(n := None))"
  by (auto simp: view_ok_def)

text \<open>A finalized message is stored unheard.\<close>

lemma absMsgs_stored:
  assumes "view f = (view fs)(framesPath i \<mapsto> bs, metaPath i \<mapsto> jsMarshal js m)"
    and "\<And>m. jsUnmarshal js (jsMarshal js m) = Some m"
  shows "absMsgs js f = (absMsgs js fs)(i \<mapsto> (mfHeard m, framesOf bs))"
  by (rule ext) (auto simp: absMsgs_def heardOf_def content_view assms)

lemma Finalize_sim:
  assumes "ref_inv js s" and json: "\<And>m. jsUnmarshal js (jsMarshal js m) = Some m"
  shows "sim js (spec_step (mbMax s) (MvFinalize k fineSys) (absMail js s)) (mail_step js (MvFinalize k fineSys) s)"
proof (cases "k < length (mbRecs s) \<and> \<not> rcClosed (mbRecs s ! k)")
  case False
  then have "mail_step js (MvFinalize k fineSys) s = s" by (auto simp: onRec_def Finalize_def list_update_id)
  moreover have "spec_step (mbMax s) (MvFinalize k fineSys) (absMail js s) = absMail js s"
    using False by (auto simp: absRec_def)
  ultimately show ?thesis using sim_same [OF assms(1)] by simp
next
  case True
  note inv = ref_invD [OF assms(1)]
  let ?r = "mbRecs s ! k" and ?R = "held ((mbRecs s)[k := (mbRecs s ! k)\<lparr>rcClosed := True\<rparr>])"
  let ?r' = "?r\<lparr>rcClosed := True\<rparr>"
  from True have k: "k < length (mbRecs s)" and c: "\<not> rcClosed ?r" by simp_all
  have open_rec: "held (mbRecs s) = insert (rcTmp ?r, rcNode ?r) ?R" "rcTmp ?r \<notin> fst ` ?R"
    using held_open [OF k c inv(3)] by auto
  have d: "disk_ok ?R (mbFS s)" by (rule disk_mono [OF inv(1)]) (use open_rec in auto)
  have d': "disk_ok (insert (rcTmp ?r, rcNode ?r) ?R) (mbFS s)" using inv(1) open_rec(1) by simp
  have r: "rec_ok ?r" and all: "list_all rec_ok (mbRecs s)" using inv(3) k by (auto simp: recs_ok_def list_all_length)
  then have tmp: "isTmp (rcTmp ?r)" "\<not> isTmp (rcFinal ?r)" "\<not> (\<exists>i. rcFinal ?r = metaPath i)" "canonName (rcFinal ?r)"
    by (auto simp: rec_ok_def canonName_def)
  obtain ps where ps: "shortFrames ps" "fnData (fsNodes (mbFS s) ! rcNode ?r) = encoded ps" "rcFrames ?r = int (length ps)"
    using inv(6) k c by (auto simp: list_all_length rec_data_def)
  have frames: "absRec (mbFS s) ?r = (rcID ?r, ps, False)" using ps c by (simp add: absRec_def)
  have closed: "absRec f ?r' = (rcID ?r, [], True)" "rec_data f ?r'" for f by (simp_all add: absRec_def rec_data_def)
  show ?thesis
  proof (cases "ps = []")
    case empty: True
    note e = eff_removeTmp [OF d inv(2) tmp(1) open_rec(2)]
    let ?fs = "snd (removeFile fineSys (rcTmp ?r) (mbFS s))"
    have "mail_step js (MvFinalize k fineSys) s = s\<lparr>mbRecs := (mbRecs s)[k := ?r'], mbFS := ?fs\<rparr>"
      using True ps empty by (simp add: onRec_def Finalize_def Let_def)
    moreover have "spec_step (mbMax s) (MvFinalize k fineSys) (absMail js s) =
        (absMail js s)\<lparr>spMsgs := absMsgs js ?fs, spGreeting := map_option framesOf (view (mbFS s) greetingFile),
           spRecs := (spRecs (absMail js s))[k := absRec ?fs ?r']\<rparr>"
      using k c frames empty absMsgs_eq [OF effD(3) [OF e], of js] closed(1)
      by (simp add: Let_def absMail_def content_view)
    ultimately show ?thesis using rec_sim [OF assms(1) k e inv(5) closed(2)] by simp
  next
    case nonempty: False
    let ?f1 = "syncNode (rcNode ?r) (mbFS s)"
    let ?f2 = "renameFile (rcTmp ?r) (rcFinal ?r) ?f1"
    note y = updNode_eff [OF d' inv(2) open_rec(2), where g = "\<lambda>n. n\<lparr>fnSynced := True\<rparr>", folded syncNode_def]
    have sy: "fnSynced (fsNodes ?f1 ! rcNode ?r)" using y(3) by simp
    have e2: "eff ?R ((view (mbFS s))(rcFinal ?r \<mapsto> encoded ps)) (mbFS s) ?f2"
      using eff_trans [OF y(1) eff_rename [OF y(2) effD(2) [OF y(1)] open_rec(2) tmp(2) sy]] effD(3) [OF y(1)] y(3) ps(2) by simp
    have v2: "view_ok js ((view (mbFS s))(rcFinal ?r \<mapsto> encoded ps))" by (rule view_ok_upd [OF inv(5) tmp(4,3)])
    show ?thesis
    proof (cases "rcID ?r = 0")
      case greeting: True
      then have fin: "rcFinal ?r = greetingFile" using r by (auto simp: rec_ok_def)
      have "mail_step js (MvFinalize k fineSys) s = s\<lparr>mbRecs := (mbRecs s)[k := ?r'], mbFS := ?f2\<rparr>"
        using True ps nonempty greeting by (simp add: onRec_def Finalize_def Let_def)
      moreover have "absMsgs js ?f2 = absMsgs js (mbFS s)"
        using effD(3) [OF e2] fin by (auto simp: absMsgs_def heardOf_def content_view)
      then have "spec_step (mbMax s) (MvFinalize k fineSys) (absMail js s) =
          (absMail js s)\<lparr>spMsgs := absMsgs js ?f2, spGreeting := map_option framesOf (((view (mbFS s))(rcFinal ?r \<mapsto> encoded ps)) greetingFile),
             spRecs := (spRecs (absMail js s))[k := absRec ?f2 ?r']\<rparr>"
        using k c frames nonempty greeting closed(1) ps(1) fin by (simp add: Let_def absMail_def content_view)
      ultimately show ?thesis using rec_sim [OF assms(1) k e2 v2 closed(2)] by simp
    next
      case message: False
      then have fin: "rcFinal ?r = framesPath (rcID ?r)" using r by (auto simp: rec_ok_def)
      let ?m = "\<lparr>mfHeard = False, mfDurationMs = recDuration ?r, mfRecordedAt = Some (rcID ?r)\<rparr>"
      have "tmpOf (metaPath i) \<notin> fst ` held (mbRecs s)" for i
        using all by (force simp: held_def rec_ok_def list_all_iff)
      then have t: "tmpOf (metaPath (rcID ?r)) \<notin> fst ` ?R" using open_rec(1) by auto
      obtain f3 where f3: "writeMeta js fineSys (rcID ?r) ?m ?f2 = (True, f3)"
        "eff ?R ((view ?f2)(metaPath (rcID ?r) \<mapsto> jsMarshal js ?m)) ?f2 f3"
        by (rule eff_writeMeta [OF effD(1,2) [OF e2] t, of js ?m])
      have v3: "view f3 = (view (mbFS s))(framesPath (rcID ?r) \<mapsto> encoded ps, metaPath (rcID ?r) \<mapsto> jsMarshal js ?m)"
        using effD(3) [OF f3(2)] effD(3) [OF e2] fin by simp
      have ok3: "view_ok js (view f3)" unfolding v3 using view_ok_meta [of js _ _ "rcID ?r"] v2 fin json by simp
      let ?f4 = "snd (evictLocked js fineSys (mbMax s) f3)"
      obtain v where v: "eff ?R v f3 ?f4" "v greetingFile = view f3 greetingFile" "view_ok js v"
        "absMsgs js ?f4 = newest (mbMax s) (absMsgs js f3)"
        using eff_evict [OF effD(1,2) [OF f3(2)] ok3] by blast
      have e4: "eff ?R v (mbFS s) ?f4" by (rule eff_trans [OF e2 eff_trans [OF f3(2) v(1)]])
      have msgs: "absMsgs js f3 = (absMsgs js (mbFS s))(rcID ?r \<mapsto> (False, ps))"
        using absMsgs_stored [OF v3 json] ps(1) by simp
      have "mail_step js (MvFinalize k fineSys) s = s\<lparr>mbRecs := (mbRecs s)[k := ?r'], mbFS := ?f4\<rparr>"
        using True ps nonempty message f3(1) by (simp add: onRec_def Finalize_def Let_def)
      moreover have "spec_step (mbMax s) (MvFinalize k fineSys) (absMail js s) =
          (absMail js s)\<lparr>spMsgs := absMsgs js ?f4, spGreeting := map_option framesOf (v greetingFile),
             spRecs := (spRecs (absMail js s))[k := absRec ?f4 ?r']\<rparr>"
        using k c frames nonempty message closed(1) v(2,4) v3 msgs by (simp add: Let_def absMail_def content_view)
      ultimately show ?thesis using rec_sim [OF assms(1) k e4 v(3) closed(2)] by simp
    qed
  qed
qed


section \<open>The other operations\<close>

lemma Heard_sim:
  assumes "ref_inv js s" and json: "\<And>m. jsUnmarshal js (jsMarshal js m) = Some m"
  shows "sim js (spec_step (mbMax s) (MvHeard fineSys i) (absMail js s)) (mail_step js (MvHeard fineSys i) s)"
proof -
  note inv = ref_invD [OF assms(1)]
  let ?fs = "snd (MarkHeard js fineSys i (mbFS s))"
  have "readMeta js fineSys i (mbFS s) \<noteq> None"
    using inv(5) by (auto simp: readMeta_view view_ok_def split: option.split)
  then obtain m where m: "readMeta js fineSys i (mbFS s) = Some m" by blast
  have spec: "absMsgs js ?fs = (\<lambda>j. if j = i then map_option (\<lambda>(_, fs). (True, fs)) (absMsgs js (mbFS s) j) else absMsgs js (mbFS s) j)
      \<and> (\<exists>v. eff (held (mbRecs s)) v (mbFS s) ?fs \<and> v greetingFile = view (mbFS s) greetingFile \<and> view_ok js v)"
  proof (cases "mfHeard m")
    case True
    have "heardOf js (mbFS s) i" using m True by (simp add: heardOf_view)
    then have "absMsgs js (mbFS s) = (\<lambda>j. if j = i then map_option (\<lambda>(_, fs). (True, fs)) (absMsgs js (mbFS s) j) else absMsgs js (mbFS s) j)"
      by (intro ext) (auto simp: absMsgs_def option.map_comp comp_def)
    then show ?thesis using m True eff_refl [OF inv(1,2)] inv(5) by (auto simp: MarkHeard_def)
  next
    case False
    have t: "tmpOf (metaPath i) \<notin> fst ` held (mbRecs s)"
      using inv(3) by (force simp: recs_ok_def rec_ok_def held_def list_all_iff)
    obtain f where f: "writeMeta js fineSys i (m\<lparr>mfHeard := True\<rparr>) (mbFS s) = (True, f)"
      "eff (held (mbRecs s)) ((view (mbFS s))(metaPath i \<mapsto> jsMarshal js (m\<lparr>mfHeard := True\<rparr>))) (mbFS s) f"
      by (rule eff_writeMeta [OF inv(1,2) t])
    then have "absMsgs js f j = (if j = i then map_option (\<lambda>(_, fs). (True, fs)) (absMsgs js (mbFS s) j) else absMsgs js (mbFS s) j)" for j
      using effD(3) [OF f(2)] json by (auto simp: absMsgs_def heardOf_def content_view option.map_comp comp_def)
    moreover have "?fs = f" using m False f(1) by (simp add: MarkHeard_def)
    ultimately show ?thesis using f(2) view_ok_meta [OF inv(5)] json by (auto simp: fun_eq_iff)
  qed
  then obtain v where v: "eff (held (mbRecs s)) v (mbFS s) ?fs" "v greetingFile = view (mbFS s) greetingFile" "view_ok js v" by blast
  have "spec_step (mbMax s) (MvHeard fineSys i) (absMail js s) =
      (absMail js s)\<lparr>spMsgs := absMsgs js ?fs, spGreeting := map_option framesOf (v greetingFile)\<rparr>"
  proof -
    have "(\<lambda>j. if j = i then map_option (\<lambda>(_, fs). (True, fs)) (spMsgs (absMail js s) j) else spMsgs (absMail js s) j) = absMsgs js ?fs"
      unfolding absMail_simps by (rule conjunct1 [OF spec, symmetric])
    then show ?thesis unfolding spec_step.simps v(2) absMail_greeting by (rule arg_cong)
  qed
  then show ?thesis using fs_sim [OF assms(1) v(1,3)] by (simp add: onFS_def)
qed

lemma Delete_sim:
  assumes "ref_inv js s"
  shows "sim js (spec_step (mbMax s) (MvDelete fineSys i) (absMail js s)) (mail_step js (MvDelete fineSys i) s)"
proof -
  note inv = ref_invD [OF assms]
  obtain f where f: "removeMessageLocked fineSys i (mbFS s) = (True, f)"
    "eff (held (mbRecs s)) ((view (mbFS s))(framesPath i := None, metaPath i := None)) (mbFS s) f"
    by (rule eff_removeMessage [OF inv(1,2)])
  have "absMsgs js f j = ((absMsgs js (mbFS s))(i := None)) j" for j
    using effD(3) [OF f(2)] by (auto simp: absMsgs_def heardOf_def content_view)
  then have "spec_step (mbMax s) (MvDelete fineSys i) (absMail js s) = (absMail js s)\<lparr>spMsgs := absMsgs js f,
      spGreeting := map_option framesOf (((view (mbFS s))(framesPath i := None, metaPath i := None)) greetingFile)\<rparr>"
    by (simp add: absMail_def content_view fun_eq_iff)
  then show ?thesis using fs_sim [OF assms f(2)] inv(5) f(1) by (simp add: onFS_def view_ok_del)
qed

lemma DeleteGreeting_sim:
  assumes "ref_inv js s"
  shows "sim js (spec_step (mbMax s) (MvDeleteGreeting fineSys) (absMail js s)) (mail_step js (MvDeleteGreeting fineSys) s)"
proof -
  note inv = ref_invD [OF assms]
  note e = eff_remove(1) [OF inv(1,2) disk_finals [OF inv(1)], of greetingFile, simplified]
  let ?f = "snd (removeFile fineSys greetingFile (mbFS s))"
  have "absMsgs js ?f j = absMsgs js (mbFS s) j" for j
    using effD(3) [OF e] by (auto simp: absMsgs_def heardOf_def content_view)
  then have "spec_step (mbMax s) (MvDeleteGreeting fineSys) (absMail js s) = (absMail js s)\<lparr>spMsgs := absMsgs js ?f,
      spGreeting := map_option framesOf (((view (mbFS s))(greetingFile := None)) greetingFile)\<rparr>"
    by (simp add: absMail_def content_view fun_eq_iff)
  moreover have "snd (DeleteGreeting fineSys (mbFS s)) = ?f" by (simp add: DeleteGreeting_def split: prod.split)
  ultimately show ?thesis using fs_sim [OF assms e] inv(5) by (simp add: onFS_def view_ok_del)
qed

lemma player_abs:
  assumes "absPlayer fs p = ps"
  shows "fst (NextFrame True fs p) = (case ps of [] \<Rightarrow> PlayEOF | f # _ \<Rightarrow> PlayFrame f)"
    and "absPlayer fs (snd (NextFrame True fs p)) = tl ps"
proof -
  let ?d = "fnData (fsNodes fs ! plNode p)"
  show "fst (NextFrame True fs p) = (case ps of [] \<Rightarrow> PlayEOF | f # _ \<Rightarrow> PlayFrame f)"
    using assms by (auto simp: NextFrame_def Let_def absPlayer_def framesOf.simps [of "drop (plOff p) ?d"] split: option.split)
  show "absPlayer fs (snd (NextFrame True fs p)) = tl ps"
  proof (cases "splitFrame (drop (plOff p) ?d)")
    case None
    then show ?thesis using assms
      by (auto simp: NextFrame_def Let_def absPlayer_def framesOf.simps [of "drop (plOff p) ?d"])
  next
    case (Some c)
    obtain f rest where c: "c = (f, rest)" by fastforce
    then have "rest = drop (plOff p + 4 + length f) ?d"
      using Some by (auto simp: splitFrame_def Let_def add_ac split: if_splits)
    then show ?thesis using assms Some c
      by (auto simp: NextFrame_def Let_def absPlayer_def framesOf.simps [of "drop (plOff p) ?d"])
  qed
qed

lemma Play_sim:
  assumes "ref_inv js s"
  shows "sim js (spec_step (mbMax s) (MvPlay fineSys i) (absMail js s)) (mail_step js (MvPlay fineSys i) s)"
    and "sim js (spec_step (mbMax s) (MvPlayGreeting fineSys) (absMail js s)) (mail_step js (MvPlayGreeting fineSys) s)"
    and "sim js (spec_step (mbMax s) (MvNext n True) (absMail js s)) (mail_step js (MvNext n True) s)"
  using ref_invD(5,6) [OF assms] player_abs(2) [OF refl]
  by (auto simp: sim_def absMail_def addPlayer_def OpenPlayer_def OpenGreeting_def openPlayerAt_def absMsgs_def content_def
      absPlayer_def [of _ "\<lparr>plNode = k, plOff = 0\<rparr>" for k] map_update split: option.split)

lemma Cut_sim:
  assumes "ref_inv js s"
  shows "sim js (spec_step (mbMax s) (MvCut n torn fineSys (MvNext 0 True)) (absMail js s)) (mail_step js (MvCut n torn fineSys (MvNext 0 True)) s)"
proof -
  define t where "t = mail_step js (MvNext 0 True) (onFS (\<lambda>fs. fs\<lparr>fsPower := Some n\<rparr>) s)"
  have fs: "mbFS t = (mbFS s)\<lparr>fsPower := Some n\<rparr>" by (simp add: t_def onFS_def)
  have "disk_ok {} (mbFS t)" unfolding fs power_irrelevant by (rule disk_mono [OF ref_invD(1) [OF assms]]) simp
  then have "content m (mbFS (restart torn fineSys t)) = content m (mbFS s)" if "\<not> isTmp m" for m
    using restart_ok(2) [OF _ that, of t torn fineSys] by (simp add: fs)
  then have v: "view (mbFS (restart torn fineSys t)) = view (mbFS s)" by (auto simp: view_def fun_eq_iff)
  have "mail_step js (MvCut n torn fineSys (MvNext 0 True)) s = restart torn fineSys t" by (simp add: t_def)
  then show ?thesis
    using v ref_invD(5) [OF assms] absMsgs_eq [OF v, of js] by (simp add: sim_def absMail_def content_view restart_def)
qed

lemma step_sim:
  assumes "ref_inv js s" and "mail_ok m s" and "fine m" and json: "\<And>m. jsUnmarshal js (jsMarshal js m) = Some m"
  shows "sim js (spec_step (mbMax s) m (absMail js s)) (mail_step js m s)"
  using assms Append_sim Finalize_sim [OF _ json] Discard_sim Heard_sim [OF _ json] Delete_sim DeleteGreeting_sim Play_sim Cut_sim
    open_sim [of js s greetingFile 0 greetingMaxDuration] open_sim [of js s "framesPath i" i messageMaxDuration for i]
  by (cases m) (simp_all add: BeginRecording_def BeginGreetingRecording_def)

lemma max_step [simp]: "mbMax (mail_step js m s) = mbMax s"
  by (induction m arbitrary: s) (simp_all add: addRec_def addPlayer_def onRec_def onFS_def restart_def Let_def split: option.split)

lemma ref_inv_step:
  "mail_ok m s \<and> fine m \<Longrightarrow> (\<And>m. jsUnmarshal js (jsMarshal js m) = Some m) \<Longrightarrow> ref_inv js s \<Longrightarrow> ref_inv js (mail_step js m s)"
  using step_sim [of js s m] mail_inv_step [of m s js] by (auto simp: ref_inv_def sim_def)

definition emptySpec :: mailSpec where
  "emptySpec = \<lparr>spMsgs = (\<lambda>_. None), spGreeting = None, spRecs = [], spPlayers = []\<rparr>"

lemma run_sim:
  assumes "\<And>m. jsUnmarshal js (jsMarshal js m) = Some m"
  shows "allowed_run (mail_step js) mail_ok ms s \<Longrightarrow> list_all fine ms \<Longrightarrow> ref_inv js s \<Longrightarrow>
    ref_inv js (fold (mail_step js) ms s) \<and> absMail js (fold (mail_step js) ms s) = fold (spec_step (mbMax s)) ms (absMail js s)"
proof (induction ms arbitrary: s)
  case (Cons m ms)
  then have "ref_inv js (mail_step js m s)" using ref_inv_step assms by simp
  then show ?case using Cons step_sim [of js s m] assms by (simp add: sim_def)
qed simp


text \<open>
  C37: the directory is a mailbox.  In every run whose system calls succeed, with
  power cuts between the moves: what the files say is what a mailbox would hold that records
  frames, stores a finalized recording as an unheard message, keeps the newest messages up
  to the configured number, marks, deletes and plays.  The list names exactly the messages, oldest
  first, with their heard flags, and a player gives out frame by frame what was recorded,
  and then the end.
\<close>

theorem mailbox_refines:
  assumes "\<And>m. jsUnmarshal js (jsMarshal js m) = Some m"
    and "allowed_run (mail_step js) mail_ok ms (newMailbox k)" and "list_all fine ms"
    and "s = fold (mail_step js) ms (newMailbox k)" and "a = fold (spec_step k) ms emptySpec"
  shows "absMail js s = a
    \<and> map_option (map (\<lambda>m. (msID m, msHeard m))) (listLocked js fineSys (mbFS s))
      = Some (map (\<lambda>i. (i, fst (the (spMsgs a i)))) (sorted_list_of_set (dom (spMsgs a))))
    \<and> (n < length (mbPlayers s) \<longrightarrow>
      fst (NextFrame True (mbFS s) (mbPlayers s ! n)) = (case spPlayers a ! n of [] \<Rightarrow> PlayEOF | f # _ \<Rightarrow> PlayFrame f))"
proof -
  have "ref_inv js (newMailbox k)" and e: "absMail js (newMailbox k) = emptySpec"
    using mail_inv_new [of k]
    by (auto simp: ref_inv_def newMailbox_def view_ok_def view_def content_def absMail_def emptySpec_def absMsgs_def fun_eq_iff)
  then have inv: "ref_inv js s" and abs: "absMail js s = a"
    using run_sim [OF assms(1-3)] assms(4,5) by (auto simp: newMailbox_def)
  have a: "spMsgs a = absMsgs js (mbFS s)" "spPlayers a = map (absPlayer (mbFS s)) (mbPlayers s)" using abs by auto
  have "map_option (map (\<lambda>m. (msID m, msHeard m))) (listLocked js fineSys (mbFS s))
      = Some (map (\<lambda>i. (i, fst (the (spMsgs a i)))) (sorted_list_of_set (dom (spMsgs a))))"
    unfolding a(1) by (rule list_reports [OF ref_invD(1,5) [OF inv]])
  then show ?thesis using abs player_abs(1) [OF refl] by (simp add: a(2))
qed


text \<open>An encoding of the metadata that reads back, in unary.\<close>

definition unaryInt :: "int \<Rightarrow> bytes" where
  "unaryInt z = replicate (nat (if 0 \<le> z then 2 * z else - 2 * z - 1)) 1 @ [0]"

definition unaryRead :: "bytes \<Rightarrow> int" where
  "unaryRead bs = (let n = length (takeWhile (\<lambda>b. b = 1) bs) in if even n then int (n div 2) else - int ((n + 1) div 2))"

definition unaryRest :: "bytes \<Rightarrow> bytes" where
  "unaryRest bs = drop 1 (dropWhile (\<lambda>b. b = 1) bs)"

definition unaryJson :: json where
  "unaryJson = \<lparr>jsMarshal = (\<lambda>m. (if mfHeard m then 1 else 0) # unaryInt (mfDurationMs m)
        @ (case mfRecordedAt m of None \<Rightarrow> [0] | Some t \<Rightarrow> 1 # unaryInt t)),
     jsUnmarshal = (\<lambda>bs. let r = unaryRest (tl bs) in
        Some \<lparr>mfHeard = (hd bs = 1), mfDurationMs = unaryRead (tl bs),
              mfRecordedAt = (if hd r = 1 then Some (unaryRead (tl r)) else None)\<rparr>)\<rparr>"

lemma unary [simp]: "unaryRead (unaryInt z @ bs) = z" "unaryRest (unaryInt z @ bs) = bs" "unaryRead (unaryInt z) = z"
proof -
  have t: "takeWhile (\<lambda>b. b = 1) (replicate n 1 @ 0 # bs) = replicate n (1 :: 8 word)" for n bs
    by (induction n) auto
  have d: "dropWhile (\<lambda>b. b = 1) (replicate n 1 @ 0 # bs) = (0 :: 8 word) # bs" for n bs
    by (induction n) auto
  have n: "let n = nat (if 0 \<le> z then 2 * z else - 2 * z - 1) in (if even n then int (n div 2) else - int ((n + 1) div 2)) = z"
    by (auto simp: even_nat_iff Let_def)
  show r: "unaryRead (unaryInt z @ bs) = z" for bs
    using n by (simp add: unaryRead_def unaryInt_def t Let_def split del: if_split)
  show "unaryRest (unaryInt z @ bs) = bs" by (simp add: unaryRest_def unaryInt_def d)
  show "unaryRead (unaryInt z) = z" using r [of "[]"] by simp
qed

lemma unaryJson_reads: "jsUnmarshal unaryJson (jsMarshal unaryJson m) = Some m"
  by (cases m) (auto simp: unaryJson_def Let_def split: option.split)

text \<open>A message of two frames, one of them empty, and a greeting that is given up.\<close>

definition oneMessage :: "mailMove list" where
  "oneMessage = [MvBegin fineSys 5, MvBeginGreeting fineSys, MvAppend 0 fineSys [1, 2], MvAppend 1 fineSys [7], MvAppend 0 fineSys [],
     MvFinalize 0 fineSys, MvPlay fineSys 5, MvNext 0 True, MvCut 2 (\<lambda>_. []) fineSys (MvNext 0 True), MvPlay fineSys 5]"

theorem mailbox_refines_witness:
  "spMsgs (absMail unaryJson (fold (mail_step unaryJson) oneMessage (newMailbox 0))) 5 = Some (False, [[1, 2], []])
   \<and> fst (NextFrame True (mbFS (fold (mail_step unaryJson) oneMessage (newMailbox 0)))
        (mbPlayers (fold (mail_step unaryJson) oneMessage (newMailbox 0)) ! 0)) = PlayFrame [1, 2]"
proof -
  let ?s = "fold (mail_step unaryJson) oneMessage (newMailbox 0)"
  have run: "allowed_run (mail_step unaryJson) mail_ok oneMessage (newMailbox 0)"
    by (simp add: oneMessage_def newMailbox_def addRec_def BeginRecording_def openRecorderLocked_def openTrunc_def
        powered_def truncNode_def openRecs_def)
  have fine: "list_all fine oneMessage" by (simp add: oneMessage_def)
  have spec: "spMsgs (fold (spec_step 0) oneMessage emptySpec) 5 = Some (False, [[1, 2], []])"
    "spPlayers (fold (spec_step 0) oneMessage emptySpec) = [[[1, 2], []]]"
    by (simp_all add: oneMessage_def emptySpec_def newest_def)
  note r = mailbox_refines [OF unaryJson_reads run fine refl refl]
  have "length (mbPlayers ?s) = 1" using arg_cong [OF conjunct1 [OF r], of "\<lambda>a. length (spPlayers a)"] spec(2) by simp
  then show ?thesis using r [of 0] spec by simp
qed

end
