(* ===== verification/Playback_Whole.thy ===== *)
theory Playback_Whole
  imports Playback_Props Mailbox_Refines
begin

text \<open>
  Listening to the whole mailbox without touching a key: one lemma per stretch of the session (a
  message, the unheard ones, the saved ones), each leading from a state with one task to the next, on
  top of the abstract messages that \<open>Mailbox_Refines\<close> reads off the directory.
\<close>

section \<open>The messages as the store lists them\<close>

definition storeOk :: "json \<Rightarrow> FS \<Rightarrow> bool" where
  "storeOk js fs \<longleftrightarrow> disk_ok {} fs \<and> fsPower fs = None \<and> view_ok js (view fs)"

definition idsOf :: "bool \<Rightarrow> (int \<Rightarrow> (bool \<times> bytes list) option) \<Rightarrow> int list" where
  "idsOf b M = filter (\<lambda>i. fst (the (M i)) = b) (sorted_list_of_set (dom M))"

definition soundOf :: "(int \<Rightarrow> (bool \<times> bytes list) option) \<Rightarrow> int \<Rightarrow> vmOut list" where
  "soundOf M i = map PlayedFrame (snd (the (M i)))"

definition heardAt :: "int \<Rightarrow> (int \<Rightarrow> (bool \<times> bytes list) option) \<Rightarrow> int \<Rightarrow> (bool \<times> bytes list) option" where
  "heardAt i M = (\<lambda>j. if j = i then map_option (\<lambda>(_, fs). (True, fs)) (M j) else M j)"

definition allHeard :: "(int \<Rightarrow> (bool \<times> bytes list) option) \<Rightarrow> int \<Rightarrow> (bool \<times> bytes list) option" where
  "allHeard M = (\<lambda>j. map_option (\<lambda>(_, fs). (True, fs)) (M j))"

lemma dom_heardAt [simp]: "dom (heardAt i M) = dom M"
  by (auto simp: heardAt_def split: if_splits)

lemma heardAt_sounds [simp]: "soundOf (heardAt i M) = soundOf M"
proof (rule ext)
  show "soundOf (heardAt i M) j = soundOf M j" for j by (cases "M j") (auto simp: soundOf_def heardAt_def)
qed

lemma heardAt_frames: "i \<in> dom M \<Longrightarrow> snd (the (heardAt j M i)) = snd (the (M i))"
  by (auto simp: heardAt_def)

lemma allHeard_heardAt [simp]: "allHeard (heardAt i M) = allHeard M"
proof (rule ext)
  show "allHeard (heardAt i M) j = allHeard M j" for j by (cases "M j") (auto simp: allHeard_def heardAt_def)
qed

lemma allHeard_none:
  assumes "finite (dom M)" and "idsOf False M = []"
  shows "allHeard M = M"
proof (rule ext)
  fix i
  show "allHeard M i = M i"
  proof (cases "M i")
    case (Some c)
    then have "fst (the (M i))" using assms by (force simp: idsOf_def filter_empty_conv)
    then show ?thesis using Some by (cases c) (simp add: allHeard_def)
  qed (simp add: allHeard_def)
qed

lemma unheard_next:
  assumes "idsOf False M = i # us" and "finite (dom M)"
  shows "idsOf False (heardAt i M) = us" and "i \<in> dom M"
proof -
  have d: "distinct (idsOf False M)" by (simp add: idsOf_def)
  have "i \<in> set (idsOf False M)" using assms(1) by simp
  then show i: "i \<in> dom M" using assms(2) by (auto simp: idsOf_def)
  have "fst (the (heardAt i M j)) = False \<longleftrightarrow> fst (the (M j)) = False \<and> j \<noteq> i" if "j \<in> dom M" for j
    using that by (auto simp: heardAt_def)
  then have "idsOf False (heardAt i M) = filter (\<lambda>j. fst (the (M j)) = False \<and> j \<noteq> i) (sorted_list_of_set (dom M))"
    using assms(2) unfolding idsOf_def dom_heardAt by (intro filter_cong refl) auto
  also have "\<dots> = filter (\<lambda>j. j \<noteq> i) (idsOf False M)" by (simp add: idsOf_def conj_commute)
  also have "\<dots> = us" using assms(1) d by (auto simp: filter_id_conv)
  finally show "idsOf False (heardAt i M) = us" .
qed

lemma listed:
  assumes "storeOk js fs"
  obtains ms where "listLocked js fineSys fs = Some ms"
    "map msID (filter (\<lambda>m. \<not> msHeard m \<and> 0 < msID m) ms) = idsOf False (absMsgs js fs)"
    "map msID (filter msHeard ms) = idsOf True (absMsgs js fs)"
    "length (filter (\<lambda>m. \<not> msHeard m) ms) = length (idsOf False (absMsgs js fs))"
proof -
  have ok: "disk_ok {} fs" "view_ok js (view fs)" using assms by (simp_all add: storeOk_def)
  let ?M = "absMsgs js fs" and ?ids = "sorted_list_of_set (dom (absMsgs js fs))"
  obtain ms where ms: "listLocked js fineSys fs = Some ms" by (auto simp: listLocked_def)
  then have pairs: "map (\<lambda>m. (msID m, msHeard m)) ms = map (\<lambda>i. (i, fst (the (?M i)))) ?ids"
    using list_reports [OF ok] by simp
  have sel: "map msID (filter (\<lambda>m. P (msID m) (msHeard m)) ms) = filter (\<lambda>i. P i (fst (the (?M i)))) ?ids" for P
  proof -
    have "map msID (filter (\<lambda>m. P (msID m) (msHeard m)) ms)
        = map fst (filter (\<lambda>(i, h). P i h) (map (\<lambda>m. (msID m, msHeard m)) ms))"
      by (simp add: filter_map comp_def)
    also have "\<dots> = filter (\<lambda>i. P i (fst (the (?M i)))) ?ids" unfolding pairs by (simp add: filter_map comp_def)
    finally show ?thesis .
  qed
  have pos: "0 < i" if "i \<in> set ?ids" for i
    using that canonIDs(3) [OF ok] dom_finite [OF ok(1)] by simp
  have "map msID (filter (\<lambda>m. \<not> msHeard m \<and> 0 < msID m) ms) = idsOf False ?M"
    using sel [of "\<lambda>i h. \<not> h \<and> 0 < i"] pos by (simp add: idsOf_def cong: filter_cong)
  moreover have "map msID (filter msHeard ms) = idsOf True ?M" using sel [of "\<lambda>i h. h"] by (simp add: idsOf_def)
  moreover have "length (filter (\<lambda>m. \<not> msHeard m) ms) = length (idsOf False ?M)"
    using arg_cong [OF sel [of "\<lambda>i h. \<not> h"], of length] by (simp add: idsOf_def)
  ultimately show thesis using ms by (intro that)
qed

lemma unheard_counted: "storeOk js fs \<Longrightarrow> UnheardCount js fineSys fs = Some (length (idsOf False (absMsgs js fs)))"
  by (erule listed) (simp add: UnheardCount_def)

lemma player_opens:
  assumes "i \<in> dom (absMsgs js fs)"
  obtains p where "OpenPlayer fineSys i fs = Some p" "absPlayer fs p = snd (the (absMsgs js fs i))"
  using assms by (auto simp: absMsgs_def content_def OpenPlayer_def openPlayerAt_def absPlayer_def dom_def)

lemma marked:
  assumes "storeOk js fs" and json: "\<And>m. jsUnmarshal js (jsMarshal js m) = Some m"
  shows "storeOk js (snd (MarkHeard js fineSys i fs))"
    and "absMsgs js (snd (MarkHeard js fineSys i fs)) = heardAt i (absMsgs js fs)"
proof -
  define s where "s = \<lparr>mbFS = fs, mbRecs = [], mbPlayers = [], mbMax = 0\<rparr>"
  have inv: "ref_inv js s" using assms(1)
    by (simp add: ref_inv_def mail_inv_def pre_ok_def s_def storeOk_def held_def recs_ok_def)
  have sim: "sim js (spec_step (mbMax s) (MvHeard fineSys i) (absMail js s)) (mail_step js (MvHeard fineSys i) s)"
    by (rule Heard_sim [OF inv json])
  have fs: "mbFS (mail_step js (MvHeard fineSys i) s) = snd (MarkHeard js fineSys i fs)"
    by (simp add: onFS_def s_def)
  have "ref_inv js (mail_step js (MvHeard fineSys i) s)"
    by (rule ref_inv_step [OF _ json inv]) simp
  from ref_invD(1,2,5) [OF this] show "storeOk js (snd (MarkHeard js fineSys i fs))"
    by (auto simp: storeOk_def onFS_def s_def held_def)
  show "absMsgs js (snd (MarkHeard js fineSys i fs)) = heardAt i (absMsgs js fs)"
    using sim fs by (auto simp: sim_def heardAt_def s_def dest!: arg_cong [where f = spMsgs])
qed

section \<open>One message\<close>

text \<open>Left alone: nobody touches a key, and every call succeeds.\<close>

definition workingRun :: "vmRun \<Rightarrow> bool" where
  "workingRun e \<longleftrightarrow> rnSys e = fineSys \<and> rnRead e \<and> rnDecodes e"

definition leads :: "json \<Rightarrow> vmRun \<Rightarrow> vm \<Rightarrow> vm \<Rightarrow> bool" where
  "leads js e v w \<longleftrightarrow> (\<exists>n. (vm_step js (VmRun 0 e) ^^ n) v = w)"

lemma leads_refl [simp]: "leads js e v v"
  unfolding leads_def by (rule exI [of _ 0]) simp

lemma leads_trans [trans]: "leads js e u v \<Longrightarrow> leads js e v w \<Longrightarrow> leads js e u w"
  unfolding leads_def by (metis funpow_add comp_apply)

lemma leads_step: "vmTasks v = [t] \<Longrightarrow> leads js e v (runTask js e t (v\<lparr>vmTasks := []\<rparr>))"
  unfolding leads_def by (rule exI [of _ 1]) (simp add: remove_nth_def)

lemma leads_spawn: "vmTasks u = [] \<Longrightarrow> leads js e (spawnVm t u) (runTask js e t u)"
  using leads_step [of "spawnVm t u" t js e] by (cases u) (simp add: spawnVm_def)

lemma leads_then: "vmTasks v = [t] \<Longrightarrow> leads js e (runTask js e t (v\<lparr>vmTasks := []\<rparr>)) w \<Longrightarrow> leads js e v w"
  using leads_trans leads_step by blast

definition plays :: "vm \<Rightarrow> nat \<Rightarrow> int \<Rightarrow> bool \<Rightarrow> bytes list \<Rightarrow> bool" where
  "plays v c i b ps \<longleftrightarrow> vmStore v \<and> vmSource v \<and> vmPlayback v = Some c \<and> c < length (vmSessions v)
     \<and> psID (vmSessions v ! c) = i \<and> psSaved (vmSessions v ! c) = b \<and> \<not> psCancelled (vmSessions v ! c)
     \<and> absPlayer (vmFS v) (psPlayer (vmSessions v ! c)) = ps"

text \<open>What playing a message leaves alone.\<close>

definition rest :: "vm \<Rightarrow> FS \<times> int list \<times> int" where
  "rest v = (vmFS v, vmSavedQueue v, vmSavedCursor v)"

lemma store_simps [simp]: "vmStore (say os v) = vmStore v" "vmStore (spawnVm t v) = vmStore v" "vmStore (updSession c g v) = vmStore v"
  "vmStore (closeMixerSourceLocked v) = vmStore v" "vmStore (teardownPlaybackLocked v) = vmStore v"
  "vmStore (sayClips cs v) = vmStore v" "vmStore (announceMessageCount n v) = vmStore v"
  "vmStore (announceMessageNumber n v) = vmStore v" "vmStore (announceSavedCount n v) = vmStore v"
  "vmStore (publishIf js y sent b v) = vmStore v" "vmStore (snapshotSavedQueueLocked js y v) = vmStore v"
  by (simp_all add: vm_defs updSession_def closeMixerSourceLocked_def teardownPlaybackLocked_def publishIf_def
      publishVoicemailState_def snapshotSavedQueueLocked_def Let_def split: option.split)

lemma plays_core: "core v = core w \<Longrightarrow> vmFS v = vmFS w \<Longrightarrow> vmStore v = vmStore w \<Longrightarrow> plays v c i b ps = plays w c i b ps"
  by (simp add: plays_def core_def)

lemma plays_spawn [simp]: "plays (spawnVm t v) c i b ps = plays v c i b ps"
  by (simp add: plays_def spawnVm_def)

lemma plays_tasks [simp]: "plays (v\<lparr>vmTasks := ts\<rparr>) c i b ps = plays v c i b ps"
  by (simp add: plays_def)

lemma plays_say [simp]: "plays (say os v) c i b ps = plays v c i b ps"
  "plays (announceMessageNumber n v) c i b ps = plays v c i b ps" "plays (publishIf js y sent m v) c i b ps = plays v c i b ps"
  "plays (v\<lparr>vmAnnounceNumbers := z\<rparr>) c i b ps = plays v c i b ps" "plays (announceMessageCount n v) c i b ps = plays v c i b ps"
  by (rule plays_core; simp)+

lemma tasks_core: "core v = core w \<Longrightarrow> vmTasks v = vmTasks w" "core v = core w \<Longrightarrow> vmSavedQueue v = vmSavedQueue w"
  "core v = core w \<Longrightarrow> vmSource v = vmSource w" "core v = core w \<Longrightarrow> vmPlayback v = vmPlayback w"
  by (simp_all add: core_def)

lemma core_fields [simp]: "vmTasks (say os v) = vmTasks v" "vmTasks (announceMessageNumber n v) = vmTasks v"
  "vmTasks (announceMessageCount n v) = vmTasks v" "vmTasks (announceSavedCount n v) = vmTasks v"
  "vmTasks (publishIf js y sent m v) = vmTasks v" "vmSavedQueue (say os v) = vmSavedQueue v"
  "vmSavedQueue (announceMessageNumber n v) = vmSavedQueue v" "vmSavedQueue (announceMessageCount n v) = vmSavedQueue v"
  "vmSavedQueue (announceSavedCount n v) = vmSavedQueue v" "vmSavedQueue (publishIf js y sent m v) = vmSavedQueue v"
  "vmSource (say os v) = vmSource v" "vmSource (announceSavedCount n v) = vmSource v" "vmSource (publishIf js y sent m v) = vmSource v"
  "vmPlayback (say os v) = vmPlayback v" "vmPlayback (announceSavedCount n v) = vmPlayback v" "vmPlayback (publishIf js y sent m v) = vmPlayback v"
  by (rule tasks_core; simp)+

lemma spawn_fields [simp]: "vmTasks (spawnVm t v) = vmTasks v @ [t]" "vmSavedQueue (spawnVm t v) = vmSavedQueue v"
  "vmSource (spawnVm t v) = vmSource v" "vmPlayback (spawnVm t v) = vmPlayback v"
  by (simp_all add: spawnVm_def)

lemma rest_simps [simp]: "rest (say os v) = rest v" "rest (spawnVm t v) = rest v" "rest (v\<lparr>vmTasks := ts\<rparr>) = rest v"
  "rest (updSession c g v) = rest v" "rest (announceMessageNumber n v) = rest v" "rest (publishIf js y sent m v) = rest v"
  by (simp_all add: rest_def) (simp_all add: updSession_def)

lemma next_frame:
  "absPlayer fs p = f # ps \<Longrightarrow> \<exists>q. NextFrame True fs p = (PlayFrame f, q) \<and> absPlayer fs q = ps"
  "absPlayer fs p = [] \<Longrightarrow> \<exists>q. NextFrame True fs p = (PlayEOF, q) \<and> absPlayer fs q = []"
  using player_abs [of fs p] by (cases "NextFrame True fs p"; simp)+

lemma play_frames:
  assumes e: "workingRun e"
  shows "plays v c i b ps \<Longrightarrow> vmTasks v = [TLoop c] \<Longrightarrow>
    \<exists>w. leads js e v w \<and> plays w c i b [] \<and> vmTasks w = [TLoop c] \<and> rest w = rest v
      \<and> framesHeard w = framesHeard v @ map PlayedFrame ps"
proof (induction ps arbitrary: v)
  case Nil
  then show ?case by (intro exI [of _ v]) simp
next
  case (Cons f ps)
  let ?p = "psPlayer (vmSessions v ! c)"
  obtain p where p: "NextFrame True (vmFS v) ?p = (PlayFrame f, p)" "absPlayer (vmFS v) p = ps"
    using next_frame(1) [of "vmFS v" ?p f ps] Cons.prems(1) by (auto simp: plays_def)
  let ?w = "spawnVm (TLoop c) (say [PlayedFrame f] (updSession c (\<lambda>s. s\<lparr>psPlayer := p\<rparr>) (v\<lparr>vmTasks := []\<rparr>)))"
  have step: "runTask js e (TLoop c) (v\<lparr>vmTasks := []\<rparr>) = ?w"
    using e p Cons.prems(1) by (simp add: loopStep_def workingRun_def plays_def)
  have "plays ?w c i b ps" using Cons.prems(1) p(2) unfolding plays_spawn plays_say by (simp add: plays_def updSession_def)
  moreover have "vmTasks ?w = [TLoop c]" by (simp add: updSession_def)
  ultimately obtain w where w: "leads js e ?w w" "plays w c i b []" "vmTasks w = [TLoop c]" "rest w = rest ?w"
    "framesHeard w = framesHeard ?w @ map PlayedFrame ps" using Cons.IH by blast
  moreover have "leads js e v w" using leads_then [OF Cons.prems(2)] step w(1) by simp
  ultimately show ?case by (intro exI [of _ w]) (simp add: heard_say)
qed

lemma play_message:
  assumes e: "workingRun e" and v: "plays v c i b ps" "vmTasks v = [TStart c]"
  shows "\<exists>w. leads js e v (voicemailAdvanceFromEOF js fineSys (rnSent e) c w) \<and> plays w c i b [] \<and> vmTasks w = []
      \<and> rest w = rest v \<and> framesHeard w = framesHeard v @ map PlayedFrame ps"
proof -
  define u where "u = (if vmAnnounceNumbers v \<and> \<not> b then announceMessageNumber (psNumber (vmSessions v ! c)) (v\<lparr>vmTasks := []\<rparr>)
    else v\<lparr>vmTasks := []\<rparr>)"
  have u: "plays u c i b ps" "vmTasks u = []" "rest u = rest v" "framesHeard u = framesHeard v"
    using v(1) by (cases b; simp add: u_def)+
  have "runTask js e (TStart c) (v\<lparr>vmTasks := []\<rparr>) = spawnVm (TDecoder c) u"
    using v(1) by (simp add: loopStart_def plays_def u_def Let_def)
  then have 1: "leads js e v (spawnVm (TDecoder c) u)" using leads_step [OF v(2), of js e] by simp
  have 2: "leads js e (spawnVm (TDecoder c) u) (spawnVm (TLoop c) u)"
    using leads_spawn [OF u(2), of js e "TDecoder c"] e by (simp add: workingRun_def)
  obtain w where w: "leads js e (spawnVm (TLoop c) u) w" "plays w c i b []" "vmTasks w = [TLoop c]" "rest w = rest u"
    "framesHeard w = framesHeard u @ map PlayedFrame ps"
    using play_frames [OF e, of "spawnVm (TLoop c) u" c i b ps js] u by auto
  let ?p = "psPlayer (vmSessions w ! c)"
  obtain p where p: "NextFrame True (vmFS w) ?p = (PlayEOF, p)" "absPlayer (vmFS w) p = []"
    using next_frame(2) [of "vmFS w" ?p] w(2) by (auto simp: plays_def)
  let ?w = "updSession c (\<lambda>s. s\<lparr>psPlayer := p\<rparr>) (w\<lparr>vmTasks := []\<rparr>)"
  have "runTask js e (TLoop c) (w\<lparr>vmTasks := []\<rparr>) = voicemailAdvanceFromEOF js fineSys (rnSent e) c ?w"
    using e p w(2) by (simp add: loopStep_def workingRun_def plays_def)
  then have 3: "leads js e w (voicemailAdvanceFromEOF js fineSys (rnSent e) c ?w)"
    using leads_step [OF w(3), of js e] by simp
  have "plays ?w c i b []" "vmTasks ?w = []" using w(2) p(2) by (simp_all add: plays_def updSession_def)
  moreover note leads_trans [OF 1 leads_trans [OF 2 leads_trans [OF w(1) 3]]]
  ultimately show ?thesis using w(4,5) u(3,4) by (intro exI [of _ ?w]) simp
qed

section \<open>The next message\<close>

lemma open_unheard:
  assumes "storeOk js (vmFS v)" and "vmStore v" and "vmSource v"
  shows "idsOf False (absMsgs js (vmFS v)) = [] \<Longrightarrow> openNextUnheardLocked js fineSys 0 v = (Inr None, v)"
    and "idsOf False (absMsgs js (vmFS v)) = j # us \<Longrightarrow>
      \<exists>c u. openNextUnheardLocked js fineSys 0 v = (Inr (Some c), u) \<and> plays u c j False (snd (the (absMsgs js (vmFS v) j)))
        \<and> rest u = rest v \<and> vmTasks u = vmTasks v \<and> framesHeard u = framesHeard v"
proof -
  obtain ms where ms: "listLocked js fineSys (vmFS v) = Some ms"
    "map msID (filter (\<lambda>m. \<not> msHeard m \<and> 0 < msID m) ms) = idsOf False (absMsgs js (vmFS v))"
    by (rule listed [OF assms(1)])
  show "idsOf False (absMsgs js (vmFS v)) = [] \<Longrightarrow> openNextUnheardLocked js fineSys 0 v = (Inr None, v)"
    using ms by (simp add: openNextUnheardLocked_def)
  assume j: "idsOf False (absMsgs js (vmFS v)) = j # us"
  have fin: "finite (dom (absMsgs js (vmFS v)))" using assms(1) dom_finite by (auto simp: storeOk_def)
  obtain p where p: "OpenPlayer fineSys j (vmFS v) = Some p" "absPlayer (vmFS v) p = snd (the (absMsgs js (vmFS v) j))"
    using player_opens [OF unheard_next(2) [OF j fin]] by blast
  show "\<exists>c u. openNextUnheardLocked js fineSys 0 v = (Inr (Some c), u) \<and> plays u c j False (snd (the (absMsgs js (vmFS v) j)))
        \<and> rest u = rest v \<and> vmTasks u = vmTasks v \<and> framesHeard u = framesHeard v"
    using ms j p assms(2,3)
    by (simp add: openNextUnheardLocked_def newPlaybackSessionLocked_def Let_def plays_def rest_def framesHeard_def)
qed

lemma open_saved:
  assumes "vmStore v" and "vmSource v" and "set (vmSavedQueue v) \<subseteq> dom (absMsgs js (vmFS v))" and "vmSavedCursor v = int n - 1"
  shows "length (vmSavedQueue v) \<le> n \<Longrightarrow> openNextSavedLocked fineSys v = (None, v\<lparr>vmSavedCursor := int n\<rparr>)"
    and "n < length (vmSavedQueue v) \<Longrightarrow>
      \<exists>c u. openNextSavedLocked fineSys v = (Some c, u)
        \<and> plays u c (vmSavedQueue v ! n) True (snd (the (absMsgs js (vmFS v) (vmSavedQueue v ! n))))
        \<and> rest u = (vmFS v, vmSavedQueue v, int n) \<and> vmTasks u = vmTasks v \<and> framesHeard u = framesHeard v"
proof -
  show "openNextSavedLocked fineSys v = (None, v\<lparr>vmSavedCursor := int n\<rparr>)" if "length (vmSavedQueue v) \<le> n"
    unfolding openNextSavedLocked_def using assms(4) that by (subst openSaved.simps) (simp add: Let_def)
  assume n: "n < length (vmSavedQueue v)"
  then have "vmSavedQueue v ! n \<in> dom (absMsgs js (vmFS v))" using assms(3) nth_mem by blast
  then obtain p where p: "OpenPlayer fineSys (vmSavedQueue v ! n) (vmFS v) = Some p"
    "absPlayer (vmFS v) p = snd (the (absMsgs js (vmFS v) (vmSavedQueue v ! n)))" using player_opens by blast
  show "\<exists>c u. openNextSavedLocked fineSys v = (Some c, u)
        \<and> plays u c (vmSavedQueue v ! n) True (snd (the (absMsgs js (vmFS v) (vmSavedQueue v ! n))))
        \<and> rest u = (vmFS v, vmSavedQueue v, int n) \<and> vmTasks u = vmTasks v \<and> framesHeard u = framesHeard v"
    unfolding openNextSavedLocked_def using n p assms(1,2,4)
    by (subst openSaved.simps) (simp add: Let_def newPlaybackSessionLocked_def plays_def rest_def framesHeard_def)
qed

lemma teardown_fields:
  assumes "plays v c i b ps"
  shows "vmPlayback (teardownPlaybackLocked v) = None" "vmSource (teardownPlaybackLocked v)"
    "vmTasks (teardownPlaybackLocked v) = vmTasks v" "rest (teardownPlaybackLocked v) = rest v"
    "vmSavedQueue (teardownPlaybackLocked v) = vmSavedQueue v"
  using assms by (simp_all add: teardownPlaybackLocked_def plays_def updSession_def rest_def)

lemma close_fields [simp]: "vmTasks (closeMixerSourceLocked v) = vmTasks v" "\<not> vmSource (closeMixerSourceLocked v)"
  "vmPlayback (closeMixerSourceLocked v) = vmPlayback v" "vmSavedQueue (closeMixerSourceLocked v) = vmSavedQueue v"
  by (simp_all add: closeMixerSourceLocked_def say_def)

lemma mark_fields [simp]: "vmTasks (snd (markMsg js y i v)) = vmTasks v" "vmSource (snd (markMsg js y i v)) = vmSource v"
  "vmPlayback (snd (markMsg js y i v)) = vmPlayback v" "vmSavedQueue (snd (markMsg js y i v)) = vmSavedQueue v"
  "vmStore (snd (markMsg js y i v)) = vmStore v"
  by (simp_all add: markMsg_def split: prod.split)

text \<open>An unheard message has played to its end.\<close>

lemma advance_unheard:
  fixes sent :: bool
  assumes v: "plays v c i False ps" "vmTasks v = []" "storeOk js (vmFS v)" "absMsgs js (vmFS v) = M"
    and json: "\<And>m. jsUnmarshal js (jsMarshal js m) = Some m"
  defines "w \<equiv> voicemailAdvanceFromEOF js fineSys sent c v"
  shows "storeOk js (vmFS w)" and "absMsgs js (vmFS w) = heardAt i M" and "framesHeard w = framesHeard v"
    and "vmSavedQueue w = vmSavedQueue v" and "vmSavedCursor w = vmSavedCursor v" and "vmStore w"
    and "idsOf False (heardAt i M) = j # us \<Longrightarrow> \<exists>n. vmTasks w = [TStart n] \<and> plays w n j False (snd (the (heardAt i M j)))"
    and "idsOf False (heardAt i M) = [] \<Longrightarrow> vmPlayback w = None \<and> vmTasks w = [if vmSavedQueue v = [] then TExit else TSaved False]
      \<and> (vmSource w \<longleftrightarrow> vmSavedQueue v \<noteq> [])"
proof -
  let ?s = "vmSessions v ! c" and ?t = "teardownPlaybackLocked v"
  have s: "vmStore v" "vmPlayback v = Some c" "\<not> psSaved ?s" "psID ?s = i" using v(1) by (simp_all add: plays_def)
  obtain m u where mk: "markMsg js fineSys i ?t = (m, u)" by fastforce
  then have u: "u = snd (markMsg js fineSys i ?t)" by simp
  have fs: "vmFS u = snd (MarkHeard js fineSys i (vmFS v))" using u by simp
  have ok: "storeOk js (vmFS u)" "absMsgs js (vmFS u) = heardAt i M" using marked [OF v(3) json] v(4) fs by simp_all
  have uf: "vmStore u" "vmSource u" "vmTasks u = []" "vmPlayback u = None" "vmSavedQueue u = vmSavedQueue v"
    "vmSavedCursor u = vmSavedCursor v" "framesHeard u = framesHeard v"
    using teardown_fields [OF v(1)] s(1) v(2) by (simp_all add: u)
  note o = open_unheard [OF ok(1) uf(1,2), unfolded ok(2)]
  have *: "vmFS w = vmFS u \<and> framesHeard w = framesHeard u \<and> vmSavedQueue w = vmSavedQueue v \<and> vmSavedCursor w = vmSavedCursor v \<and> vmStore w
    \<and> (idsOf False (heardAt i M) = j # us \<longrightarrow> (\<exists>n. vmTasks w = [TStart n] \<and> plays w n j False (snd (the (heardAt i M j)))))
    \<and> (idsOf False (heardAt i M) = [] \<longrightarrow> vmPlayback w = None \<and> vmTasks w = [if vmSavedQueue v = [] then TExit else TSaved False]
      \<and> (vmSource w \<longleftrightarrow> vmSavedQueue v \<noteq> []))"
  proof (cases "idsOf False (heardAt i M)")
    case Nil
    then show ?thesis using o(1) [OF Nil] s mk uf
      by (simp add: w_def voicemailAdvanceFromEOF_def Let_def heard_say)
  next
    case (Cons k ks)
    obtain n z where z: "openNextUnheardLocked js fineSys 0 u = (Inr (Some n), z)" "plays z n k False (snd (the (heardAt i M k)))"
      "rest z = rest u" "vmTasks z = vmTasks u" "framesHeard z = framesHeard u" using o(2) [OF Cons] by blast
    moreover have "w = spawnVm (TStart n) (publishIf js fineSys sent m z)"
      using s mk z(1) by (simp add: w_def voicemailAdvanceFromEOF_def Let_def)
    moreover have "vmStore z" using z(2) by (simp add: plays_def)
    ultimately show ?thesis using uf Cons by (auto simp: rest_def)
  qed
  show "storeOk js (vmFS w)" "absMsgs js (vmFS w) = heardAt i M" "framesHeard w = framesHeard v"
    "vmSavedQueue w = vmSavedQueue v" "vmSavedCursor w = vmSavedCursor v" "vmStore w"
    "idsOf False (heardAt i M) = j # us \<Longrightarrow> \<exists>n. vmTasks w = [TStart n] \<and> plays w n j False (snd (the (heardAt i M j)))"
    "idsOf False (heardAt i M) = [] \<Longrightarrow> vmPlayback w = None \<and> vmTasks w = [if vmSavedQueue v = [] then TExit else TSaved False]
      \<and> (vmSource w \<longleftrightarrow> vmSavedQueue v \<noteq> [])"
    using * ok uf(7) by simp_all
qed

section \<open>All of them\<close>

lemma hear_unheard:
  assumes e: "workingRun e" and json: "\<And>m. jsUnmarshal js (jsMarshal js m) = Some m"
  shows "plays v c i False (snd (the (M i))) \<Longrightarrow> vmTasks v = [TStart c] \<Longrightarrow> storeOk js (vmFS v) \<Longrightarrow> absMsgs js (vmFS v) = M \<Longrightarrow>
    idsOf False M = i # us \<Longrightarrow>
    \<exists>w. leads js e v w \<and> storeOk js (vmFS w) \<and> absMsgs js (vmFS w) = allHeard M
      \<and> framesHeard w = framesHeard v @ concat (map (soundOf M) (i # us))
      \<and> vmSavedQueue w = vmSavedQueue v \<and> vmSavedCursor w = vmSavedCursor v \<and> vmStore w \<and> vmPlayback w = None
      \<and> vmTasks w = [if vmSavedQueue v = [] then TExit else TSaved False] \<and> (vmSource w \<longleftrightarrow> vmSavedQueue v \<noteq> [])"
proof (induction us arbitrary: v c i M)
  case Nil
  have fin: "finite (dom M)" using Nil.prems(3,4) dom_finite by (auto simp: storeOk_def)
  note next' = unheard_next [OF Nil.prems(5) fin]
  obtain u where u: "leads js e v (voicemailAdvanceFromEOF js fineSys (rnSent e) c u)" "plays u c i False []" "vmTasks u = []"
    "rest u = rest v" "framesHeard u = framesHeard v @ soundOf M i"
    using play_message [OF e Nil.prems(1,2), where js = js] by (auto simp: soundOf_def)
  let ?w = "voicemailAdvanceFromEOF js fineSys (rnSent e) c u"
  have "storeOk js (vmFS u)" "absMsgs js (vmFS u) = M" "vmSavedQueue u = vmSavedQueue v" "vmSavedCursor u = vmSavedCursor v"
    using u(4) Nil.prems(3,4) by (simp_all add: rest_def)
  note a = advance_unheard [OF u(2,3) this(1,2) json, where sent = "rnSent e"] this(3,4)
  have "heardAt i M = allHeard M" using allHeard_none [of "heardAt i M"] next'(1) fin by simp
  then show ?case using u(1,5) a(1-6,9,10) a(8) [OF next'(1)] by (intro exI [of _ ?w]) simp
next
  case (Cons j us)
  have fin: "finite (dom M)" using Cons.prems(3,4) dom_finite by (auto simp: storeOk_def)
  note next' = unheard_next [OF Cons.prems(5) fin]
  obtain u where u: "leads js e v (voicemailAdvanceFromEOF js fineSys (rnSent e) c u)" "plays u c i False []" "vmTasks u = []"
    "rest u = rest v" "framesHeard u = framesHeard v @ soundOf M i"
    using play_message [OF e Cons.prems(1,2), where js = js] by (auto simp: soundOf_def)
  let ?w = "voicemailAdvanceFromEOF js fineSys (rnSent e) c u"
  have "storeOk js (vmFS u)" "absMsgs js (vmFS u) = M" "vmSavedQueue u = vmSavedQueue v" "vmSavedCursor u = vmSavedCursor v"
    using u(4) Cons.prems(3,4) by (simp_all add: rest_def)
  note a = advance_unheard [OF u(2,3) this(1,2) json, where sent = "rnSent e"] this(3,4)
  obtain n where n: "vmTasks ?w = [TStart n]" "plays ?w n j False (snd (the (heardAt i M j)))" using a(7) [OF next'(1)] by blast
  obtain w where w: "leads js e ?w w" "storeOk js (vmFS w)" "absMsgs js (vmFS w) = allHeard M"
    "framesHeard w = framesHeard ?w @ concat (map (soundOf M) (j # us))"
    "vmSavedQueue w = vmSavedQueue ?w" "vmSavedCursor w = vmSavedCursor ?w" "vmStore w" "vmPlayback w = None"
    "vmTasks w = [if vmSavedQueue ?w = [] then TExit else TSaved False]" "vmSource w \<longleftrightarrow> vmSavedQueue ?w \<noteq> []"
    using Cons.IH [OF n(2,1) a(1,2) next'(1)] by auto
  show ?case using leads_trans [OF u(1) w(1)] w(2-) a(3-5,9,10) u(5) by (intro exI [of _ w]) simp
qed

lemma hear_saved:
  assumes e: "workingRun e"
  shows "plays v c (q ! n) True (snd (the (M (q ! n)))) \<Longrightarrow> vmTasks v = [TStart c] \<Longrightarrow> rest v = (fs, q, int n) \<Longrightarrow> n < length q \<Longrightarrow>
    set q \<subseteq> dom M \<Longrightarrow> absMsgs js fs = M \<Longrightarrow>
    \<exists>w. leads js e v w \<and> vmFS w = fs \<and> framesHeard w = framesHeard v @ concat (map (soundOf M) (drop n q))
      \<and> vmPlayback w = None \<and> vmTasks w = [TExit] \<and> \<not> vmSource w \<and> vmStore w"
proof (induction "length q - n" arbitrary: v c n)
  case (Suc d)
  obtain u where u: "leads js e v (voicemailAdvanceFromEOF js fineSys (rnSent e) c u)" "plays u c (q ! n) True []" "vmTasks u = []"
    "rest u = rest v" "framesHeard u = framesHeard v @ soundOf M (q ! n)"
    using play_message [OF e Suc.prems(1,2), where js = js] by (auto simp: soundOf_def)
  let ?w = "voicemailAdvanceFromEOF js fineSys (rnSent e) c u" and ?t = "teardownPlaybackLocked u"
  have s: "vmStore u" "vmPlayback u = Some c" "psSaved (vmSessions u ! c)" using u(2) by (simp_all add: plays_def)
  have t: "vmStore ?t" "vmSource ?t" "vmSavedQueue ?t = q" "vmFS ?t = fs" "vmSavedCursor ?t = int (Suc n) - 1" "vmTasks ?t = []"
    "vmPlayback ?t = None" "framesHeard ?t = framesHeard u"
    using teardown_fields [OF u(2)] s(1) u(3,4) Suc.prems(3) by (simp_all add: rest_def)
  have "set (vmSavedQueue ?t) \<subseteq> dom (absMsgs js (vmFS ?t))" using Suc.prems(5,6) t by simp
  note o = open_saved [OF t(1,2) this t(5), unfolded t(3,4) Suc.prems(6)]
  show ?case
  proof (cases "Suc n < length q")
    case False
    then have "openNextSavedLocked fineSys ?t = (None, ?t\<lparr>vmSavedCursor := int (Suc n)\<rparr>)" using o(1) by simp
    then have w: "?w = spawnVm TExit (say [Clips [''vm_end_of_messages'']] (closeMixerSourceLocked (?t\<lparr>vmSavedCursor := int (Suc n)\<rparr>)))"
      using s by (simp add: voicemailAdvanceFromEOF_def Let_def)
    have "drop n q = [q ! n]" using False Suc.prems(4) by (simp add: Cons_nth_drop_Suc [symmetric])
    then show ?thesis using u(1,5) t unfolding w by (intro exI [of _ ?w]) (simp add: w heard_say)
  next
    case True
    obtain k z where z: "openNextSavedLocked fineSys ?t = (Some k, z)" "plays z k (q ! Suc n) True (snd (the (M (q ! Suc n))))"
      "rest z = (fs, q, int (Suc n))" "vmTasks z = []" "framesHeard z = framesHeard u" using o(2) [OF True] t by auto
    have w: "?w = spawnVm (TStart k) z" using s z(1) by (simp add: voicemailAdvanceFromEOF_def Let_def)
    have "d = length q - Suc n" using Suc.hyps(2) by simp
    then obtain w where w': "leads js e (spawnVm (TStart k) z) w" "vmFS w = fs"
      "framesHeard w = framesHeard z @ concat (map (soundOf M) (drop (Suc n) q))"
      "vmPlayback w = None" "vmTasks w = [TExit]" "\<not> vmSource w" "vmStore w"
      using Suc.hyps(1) [of "Suc n" "spawnVm (TStart k) z" k] z True Suc.prems(5,6) by auto
    have "drop n q = q ! n # drop (Suc n) q" using Suc.prems(4) by (simp add: Cons_nth_drop_Suc)
    then show ?thesis using leads_trans [OF u(1) w'(1) [folded w]] w'(2-) u(5) z(5) by (intro exI [of _ w]) simp
  qed
qed simp

section \<open>The whole session\<close>

lemma saved_phase:
  assumes e: "workingRun e" and v: "vmTasks v = [TSaved b]" "vmStore v" "vmSource v" "vmPlayback v = None" "vmSavedQueue v \<noteq> []"
    "vmSavedCursor v = -1" "set (vmSavedQueue v) \<subseteq> dom M" "absMsgs js (vmFS v) = M"
  shows "\<exists>w. leads js e v w \<and> vmFS w = vmFS v \<and> framesHeard w = framesHeard v @ concat (map (soundOf M) (vmSavedQueue v))
      \<and> vmPlayback w = None \<and> vmTasks w = [TExit] \<and> \<not> vmSource w \<and> vmStore w"
proof -
  let ?q = "vmSavedQueue v"
  define x where "x = (if b then v\<lparr>vmTasks := []\<rparr> else say [Clips [''vm_saved_next'']] (v\<lparr>vmTasks := []\<rparr>))"
  define u where "u = (if b then say [Clips [''vm_playback_controls'']] (announceSavedCount (length ?q) x) else announceSavedCount (length ?q) x)"
  have x: "vmTasks x = []" "vmSavedQueue x = ?q" by (simp_all add: x_def)
  have u: "vmStore u" "vmSource u" "vmTasks u = []" "vmSavedQueue u = ?q" "vmSavedCursor u = int 0 - 1" "vmFS u = vmFS v"
    "framesHeard u = framesHeard v"
    using v by (simp_all add: u_def x_def heard_say)
  have "leads js e v (spawnVm (TSavedCount b) x)" using leads_step [OF v(1), of js e] by (simp add: x_def split: if_splits)
  also have "leads js e \<dots> (spawnVm TSavedOpen u)"
    using leads_spawn [OF x(1), of js e "TSavedCount b"] x(2) by (simp add: u_def split: if_splits)
  finally have 1: "leads js e v (spawnVm TSavedOpen u)" .
  have "set (vmSavedQueue u) \<subseteq> dom (absMsgs js (vmFS u))" "0 < length (vmSavedQueue u)" using u v by simp_all
  then obtain c z where z: "openNextSavedLocked fineSys u = (Some c, z)" "plays z c (?q ! 0) True (snd (the (M (?q ! 0))))"
    "rest z = (vmFS v, ?q, int 0)" "vmTasks z = []" "framesHeard z = framesHeard v"
    using open_saved(2) [OF u(1,2) _ u(5), of js] u v(8) by auto
  have 2: "leads js e (spawnVm TSavedOpen u) (spawnVm (TStart c) z)"
    using leads_spawn [OF u(3), of js e TSavedOpen] e z(1) by (simp add: workingRun_def)
  obtain w where w: "leads js e (spawnVm (TStart c) z) w" "vmFS w = vmFS v"
    "framesHeard w = framesHeard z @ concat (map (soundOf M) (drop 0 ?q))"
    "vmPlayback w = None" "vmTasks w = [TExit]" "\<not> vmSource w" "vmStore w"
    using hear_saved [OF e, of "spawnVm (TStart c) z" c ?q 0 M "vmFS v" js] z v by auto
  show ?thesis using leads_trans [OF 1 leads_trans [OF 2 w(1)]] w(2-) z(5) by (intro exI [of _ w]) simp
qed

definition atExit :: "json \<Rightarrow> (int \<Rightarrow> (bool \<times> bytes list) option) \<Rightarrow> vmOut list \<Rightarrow> vm \<Rightarrow> bool" where
  "atExit js M fr w \<longleftrightarrow> framesHeard w = fr \<and> storeOk js (vmFS w) \<and> absMsgs js (vmFS w) = M \<and> vmTasks w = [TExit] \<and> vmPlayback w = None \<and> \<not> vmSource w"

lemma heard_all:
  assumes e: "workingRun e" and json: "\<And>m. jsUnmarshal js (jsMarshal js m) = Some m"
    and fs: "storeOk js fs" and M: "absMsgs js fs = M"
  shows "\<exists>w. leads js e (vm_step js (VmEnter fineSys) (newVm True en fs)) w
    \<and> atExit js (allHeard M) (concat (map (soundOf M) (idsOf False M @ idsOf True M))) w"
proof -
  define v where "v = snapshotSavedQueueLocked js fineSys (say [AddSource] ((newVm True en fs)\<lparr>vmSource := True, vmMessageSeq := 0, vmAnnounceNumbers := False\<rparr>))"
  obtain ms where ms: "listLocked js fineSys fs = Some ms" "map msID (filter msHeard ms) = idsOf True M"
    using listed [OF fs] M by blast
  have v: "vmFS v = fs" "vmStore v" "vmSource v" "vmTasks v = []" "vmPlayback v = None" "vmSavedQueue v = idsOf True M"
    "vmSavedCursor v = -1" "framesHeard v = []"
    using ms by (simp_all add: v_def newVm_def snapshotSavedQueueLocked_def say_def Let_def framesHeard_def)
  have fin: "finite (dom M)" using fs M dom_finite by (auto simp: storeOk_def)
  have enter: "vm_step js (VmEnter fineSys) (newVm True en fs) = (case openNextUnheardLocked js fineSys 0 v of
      (Inl _, v) \<Rightarrow> spawnVm TExit (closeMixerSourceLocked v)
    | (Inr (Some s), v) \<Rightarrow> spawnVm (TIntro s) v
    | (Inr None, v) \<Rightarrow> if vmSavedQueue v = [] then spawnVm TNoMessages (closeMixerSourceLocked v) else spawnVm TNoNew v)"
    by (simp add: VoicemailEnterPlayback_def v_def newVm_def Let_def)
  have q: "set (idsOf True M) \<subseteq> dom M" using fin by (auto simp: idsOf_def)
  have sounds: "soundOf (allHeard M) i = soundOf M i" if "i \<in> dom M" for i using that by (auto simp: soundOf_def allHeard_def)
  then have saved_sounds: "map (soundOf (allHeard M)) (idsOf True M) = map (soundOf M) (idsOf True M)"
    using q by (intro map_cong refl sounds) blast
  have adom: "dom (allHeard M) = dom M" by (auto simp: allHeard_def)
  note o = open_unheard [of js v, unfolded v(1) M, OF fs v(2,3)]
  show ?thesis
  proof (cases "idsOf False M")
    case Nil
    have all: "allHeard M = M" by (rule allHeard_none [OF fin Nil])
    show ?thesis
    proof (cases "idsOf True M = []")
      case True
      let ?v = "closeMixerSourceLocked v"
      have "vm_step js (VmEnter fineSys) (newVm True en fs) = spawnVm TNoMessages ?v" using enter o(1) [OF Nil] v True by simp
      moreover have "leads js e (spawnVm TNoMessages ?v) (spawnVm TExit (say [Clips [''vm_no_messages'']] ?v))"
        using leads_spawn [of ?v js e TNoMessages] v by simp
      ultimately show ?thesis using v fs M all Nil True
        by (intro exI [of _ "spawnVm TExit (say [Clips [''vm_no_messages'']] ?v)"]) (simp add: atExit_def heard_say)
    next
      case False
      let ?u = "spawnVm (TSaved True) (say [Clips [''vm_no_new_messages'']] v)"
      have "vm_step js (VmEnter fineSys) (newVm True en fs) = spawnVm TNoNew v" using enter o(1) [OF Nil] v False by simp
      moreover have "leads js e (spawnVm TNoNew v) ?u" using leads_spawn [OF v(4), of js e TNoNew] by simp
      moreover obtain w where "leads js e ?u w" "vmFS w = vmFS ?u" "framesHeard w = framesHeard ?u @ concat (map (soundOf M) (vmSavedQueue ?u))"
        "vmPlayback w = None" "vmTasks w = [TExit]" "\<not> vmSource w"
        using saved_phase [OF e, of ?u True M js] v False q M by auto
      ultimately show ?thesis using v fs M all Nil leads_trans by (intro exI [of _ w]) (auto simp: atExit_def heard_say)
    qed
  next
    case (Cons j us)
    obtain c u where u: "openNextUnheardLocked js fineSys 0 v = (Inr (Some c), u)" "plays u c j False (snd (the (M j)))"
      "rest u = rest v" "vmTasks u = []" "framesHeard u = []" using o(2) [OF Cons] v(4,8) by auto
    have uf: "vmFS u = fs" "vmSavedQueue u = idsOf True M" "vmSavedCursor u = -1" using u(3) v by (simp_all add: rest_def)
    define k where "k = length (idsOf False M)"
    define x where "x = announceMessageCount k u"
    define z where "z = say [Clips [''vm_playback_controls'']] (x\<lparr>vmAnnounceNumbers := (k \<ge> 2)\<rparr>)"
    have "vm_step js (VmEnter fineSys) (newVm True en fs) = spawnVm (TIntro c) u" using enter u(1) by simp
    moreover have "leads js e (spawnVm (TIntro c) u) (spawnVm (TFlag c k) x)"
      using leads_spawn [OF u(4), of js e "TIntro c"] e unheard_counted [OF fs] M uf(1) by (simp add: workingRun_def x_def k_def)
    moreover have "leads js e (spawnVm (TFlag c k) x) (spawnVm (TStart c) z)"
      using leads_spawn [of x js e "TFlag c k"] u(4) by (simp add: z_def x_def)
    ultimately have 1: "leads js e (vm_step js (VmEnter fineSys) (newVm True en fs)) (spawnVm (TStart c) z)"
      using leads_trans by metis
    have z: "plays z c j False (snd (the (M j)))" "vmTasks z = []" "framesHeard z = []" "vmFS z = fs"
      "vmSavedQueue z = idsOf True M" "vmSavedCursor z = -1" using u uf by (simp_all add: z_def x_def heard_say)
    obtain w where w: "leads js e (spawnVm (TStart c) z) w" "storeOk js (vmFS w)" "absMsgs js (vmFS w) = allHeard M"
      "framesHeard w = concat (map (soundOf M) (idsOf False M))" "vmSavedQueue w = idsOf True M" "vmSavedCursor w = -1" "vmStore w"
      "vmPlayback w = None" "vmTasks w = [if idsOf True M = [] then TExit else TSaved False]" "vmSource w \<longleftrightarrow> idsOf True M \<noteq> []"
      using hear_unheard [OF e json, of "spawnVm (TStart c) z" c j M us] z fs M Cons by auto
    note 2 = leads_trans [OF 1 w(1)]
    show ?thesis
    proof (cases "idsOf True M = []")
      case True
      then show ?thesis using 2 w by (intro exI [of _ w]) (simp add: atExit_def)
    next
      case False
      then obtain y where y: "leads js e w y" "vmFS y = vmFS w"
        "framesHeard y = framesHeard w @ concat (map (soundOf (allHeard M)) (idsOf True M))"
        "vmPlayback y = None" "vmTasks y = [TExit]" "\<not> vmSource y"
        using saved_phase [OF e, of w False "allHeard M" js] w q adom by auto
      then show ?thesis using leads_trans [OF 2 y(1)] w by (intro exI [of _ y]) (simp add: atExit_def saved_sounds)
    qed
  qed
qed


text \<open>Two messages; the older one was heard before.\<close>

definition heardAndNew :: "mailMove list" where
  "heardAndNew = [MvBegin fineSys 5, MvBegin fineSys 9, MvAppend 0 fineSys [1, 2], MvAppend 1 fineSys [3], MvFinalize 0 fineSys,
     MvFinalize 1 fineSys, MvHeard fineSys 5]"

definition undisturbed :: vmRun where
  "undisturbed = \<lparr>rnSys = fineSys, rnSent = True, rnRead = True, rnDecodes = True\<rparr>"


end
