(* ===== verification/Spec2Isabelle.thy ===== *)
theory Spec2Isabelle
  imports Controller_Inv Controller_Tasks Controller_Seq Controller_Hangup ServiceCodes
    Conference Tracker_Inv Tracker_Ops Scheduler LineSettings_Props RateLimit_Props Relay_Signals Relay_Returns
    WebNumbers LinkHealth_Pods Playback_Whole
begin

text \<open>
  \<^bold>\<open>Digits\<close> is a telephone service: handsets driven by a Raspberry Pi (\<^verbatim>\<open>pi/digitsd\<close>, Go) call each
  other over WebRTC; the server signald (\<^verbatim>\<open>server\<close>, Go) relays the signalling between them,
  tracks calls and conferences, pairs handsets to lines and decides who may call whom.

  \<^bold>\<open>On the phone.\<close>
  \<^item> \<open>Controller\<close>: the state machine of the handset, \<^verbatim>\<open>pi/digitsd/internal/phone/controller.go\<close>.  \<open>ctl\<close>
    is the struct \<open>Controller\<close>, its callbacks a log, its goroutines tasks that are stepped between
    the points at which they take the lock or make a call outside it.  \<open>Controller_Inv\<close>
    (hook belief, recorded peers), \<open>Controller_Tasks\<close> (permitted numbers, muting), \<open>Controller_Seq\<close>
    (goroutines and their timing), \<open>Controller_Hangup\<close> (going on hook, end of a conference).
  \<^item> \<open>ServiceCodes\<close>: key sequences, easter eggs and the press-star confirmation.
  \<^item> \<open>Mailbox\<close>: the answering machine's store, \<^verbatim>\<open>internal/voicemail/store.go\<close>, as operations on a
    directory whose system calls may fail and whose power may go at any call.  \<open>Mailbox_Disk\<close> (frame
    and name codecs, what a crash keeps), \<open>Mailbox_Runs\<close> (recorders and players at work; messages
    survive), \<open>Mailbox_Spec\<close> and \<open>Mailbox_Refines\<close> (the abstract mailbox and its refinement).
  \<^item> \<open>Playback\<close>, \<open>Playback_Props\<close>: listening with *98, the playback half of
    \<^verbatim>\<open>cmd/digitsd/voicemail.go\<close>, on top of \<open>Mailbox\<close>; sessions, their goroutines as tasks, the keys, the
    saved review, the indicator and the reported count.  \<open>Playback_Whole\<close> puts it together with the mailbox: what
    was recorded is what is heard.

  \<^bold>\<open>On the server.\<close>
  \<^item> \<open>Conference\<close>, \<open>Tracker\<close>, \<open>Tracker_Inv\<close>, \<open>Tracker_Ops\<close>: \<^verbatim>\<open>server/internal/calls\<close>; calls and
    conferences in memory and in SQL tables.
  \<^item> \<open>Protocol\<close>, \<open>Hub\<close>, \<open>Hub_Ops\<close>, \<open>Hub_Inv\<close>, \<open>Hub_Props\<close>: \<^verbatim>\<open>server/internal/signaling/hub.go\<close>; the
    connections of the devices, their bounded channels, and the bridge to other pods.
  \<^item> \<open>Relay\<close> to \<open>Relay_Returns\<close>: \<^verbatim>\<open>relay.go\<close> and \<^verbatim>\<open>conference.go\<close> on top of the hub and the tracker;
    \<open>Call_Book\<close> is the abstract book of calls that the tracker refines.
  \<^item> \<open>LineSettings\<close>, \<open>Scheduler\<close>: settings of a line, quiet hours and their push to the devices.
  \<^item> \<open>RateLimit\<close>: both backends of the rate limiter and the address it counts.
  \<^item> \<open>LinkHealth\<close>, \<open>LinkHealth_Props\<close>, \<open>LinkHealth_Pods\<close>: \<^verbatim>\<open>calls/linkhealth.go\<close>; rings of samples, their
    observers' channels, the flush to the table, and the copies that other pods keep.
  \<^item> \<open>AccessDB\<close>, \<open>Accounts\<close>, \<open>Households\<close>, \<open>SignIn\<close>, \<open>Devices\<close>: accounts, sessions, households, the
    links between them, lines, pairing and the authorizer, on tables with the schema's constraints.
    \<open>Access_Inv\<close> and \<open>Access_Runs\<close> hold the invariant of the tables, \<open>Access_Links\<close> who may ring whom,
    \<open>Access_Tokens\<close> and \<open>Access_Once\<close> what sessions, links and invitations are good for.
  \<^item> \<open>Admission\<close>: the handset's way in (\<^verbatim>\<open>web/handler_ws.go\<close>, pairing and the device key).
  \<^item> \<open>WebGuards\<close>, \<open>WebHousehold\<close>, \<open>WebPhones\<close>: the handlers of the web pages that change something,
    with the guards in front of them; \<open>WebRuns\<close> their invariant, \<open>WebIsolation\<close>, \<open>WebPeople\<close> and
    \<open>WebNumbers\<close> what they promise: households do not reach each other, none is orphaned, a change of
    number happens whole or not at all.

  \<^bold>\<open>How the parts are put together.\<close>  A component is a record with one function per operation.  A
  run of a component is a fold of its moves; \<open>invariant_machine\<close> (theory \<open>Prelude\<close>) carries an
  invariant to every run and is interpreted on the controller, the confirmation, the conference
  tracker, the call tracker, the hub, the relay, the tables, the web, link health, the mailbox and
  playback.  \<open>call_book\<close> is what the relay needs of a call
  tracker and is interpreted on \<open>Tracker\<close>; \<open>rate_checker\<close> is the contract of a rate limiter and is
  interpreted on the memory and the Redis backend.

  \<^bold>\<open>Conventions.\<close>  Go maps are association lists with distinct keys (theory \<open>GoMap\<close>); what the
  outside answers (database, Redis, encoder, clock, random tokens, UUIDs) is an argument of the
  operation, with failure as an answer; errors are values of a sum; a panic is a flag of the
  state.  Times are integers, in milliseconds for timers of the phone and in seconds for the
  server's tables.  Counters of generations are 64-bit words, and the claims about them are for
  fewer than \<open>2 ^ 64\<close> moves.  Loops with a deadline get as many iterations as their polling interval
  allows: 76 polls for \<open>awaitOneShot\<close>, \<open>timeout div 20 + 1\<close> attempts for \<open>SendToWithTimeout\<close>, 35 for
  \<open>retryClose\<close>; the termination claims show that these are enough.

  \<^bold>\<open>What is assumed.\<close>  A handler of the relay runs without another one in between, although the code
  holds no lock over the whole of it (two calls to one idle phone may both pass the busy check).
  SQL statements are atomic and serialised; a rename is atomic and reaches the disk.  No two open
  recordings share a file (\<open>mail_ok\<close>), and *98 is dialled only after the announcements of the last
  session are over (\<open>vm_ok\<close>); the code checks neither.  JSON, TLS, sockets and hashing are outside.

  \<^bold>\<open>Not modelled.\<close>  Start-up and wiring of both programs, audio pipeline, mixer and codec, WebRTC, the
  half of voicemail that answers and records (it drives these), the firmware, web pages that only
  show something and their templates, Redis mirrors of the server's state, metrics, tracing, logging,
  self-update: they are input and output, or libraries the sources only call.
\<close>

end
